(* ===== verification/Prelude.thy ===== *)
theory Prelude
  imports Complex_Main "HOL-Library.AList" "HOL-Library.Multiset" "HOL-Library.Sublist"
begin

text \<open>
  Shared material of the development: the JavaScript containers the components use, the
  sliding-window log that two rate limiters rest on, and list lemmas.

  A JavaScript \<open>Map\<close> (and an object used as a dictionary) is an association list in
  insertion order: \<open>map_of m k\<close> is \<open>m.get(k)\<close>, \<open>AList.update k v m\<close> is \<open>m.set(k, v)\<close>
  (an existing key keeps its position), \<open>AList.delete k m\<close> is \<open>m.delete(k)\<close>. Time is
  \<open>int\<close>, in milliseconds, as \<open>Date.now()\<close> gives it.
\<close>

type_synonym ('k, 'v) jmap = "('k \<times> 'v) list"
type_synonym millis = int

named_theorems jmap_simps "lookup laws of JavaScript maps"

abbreviation jm_wf :: "('k, 'v) jmap \<Rightarrow> bool" where
  "jm_wf m \<equiv> distinct (map fst m)"

abbreviation jm_has :: "('k, 'v) jmap \<Rightarrow> 'k \<Rightarrow> bool" where
  "jm_has m k \<equiv> map_of m k \<noteq> None"

lemma jm_get_set [jmap_simps, simp]: "map_of (AList.update k v m) k' = (if k' = k then Some v else map_of m k')"
  by (simp add: update_conv')

lemma jm_get_delete [jmap_simps, simp]: "map_of (AList.delete k m) k' = (if k' = k then None else map_of m k')"
  by (simp add: delete_conv')

lemma jm_wf_update [simp]: "jm_wf m \<Longrightarrow> jm_wf (AList.update k v m)"
  by (rule distinct_update)

lemma jm_wf_delete [simp]: "jm_wf m \<Longrightarrow> jm_wf (AList.delete k m)"
  by (rule distinct_delete)

lemma jm_wf_card: "jm_wf m \<Longrightarrow> length m = card (fst ` set m)"
  using distinct_card [of "map fst m"] by simp

text \<open>The interface the stateful services use of a dictionary.\<close>

locale dictionary =
  fixes lookup :: "'m \<Rightarrow> 'k \<Rightarrow> 'v option"
    and put :: "'k \<Rightarrow> 'v \<Rightarrow> 'm \<Rightarrow> 'm"
    and drop_key :: "'k \<Rightarrow> 'm \<Rightarrow> 'm"
    and ok :: "'m \<Rightarrow> bool"
  assumes lookup_put: "lookup (put k v m) k' = (if k' = k then Some v else lookup m k')"
    and lookup_drop: "lookup (drop_key k m) k' = (if k' = k then None else lookup m k')"
    and ok_put: "ok m \<Longrightarrow> ok (put k v m)"
    and ok_drop: "ok m \<Longrightarrow> ok (drop_key k m)"
begin

lemma put_same: "lookup (put k v m) k = Some v"
  by (simp add: lookup_put)

lemma put_other: "k' \<noteq> k \<Longrightarrow> lookup (put k v m) k' = lookup m k'"
  by (simp add: lookup_put)

lemma put_fold_other:
  "k \<notin> fst ` set kvs \<Longrightarrow> lookup (fold (\<lambda>(k', v) m. put k' v m) kvs m) k = lookup m k"
  by (induction kvs arbitrary: m) (auto simp: lookup_put)

lemma drop_all: "lookup (fold drop_key ks m) k = (if k \<in> set ks then None else lookup m k)"
  by (induction ks arbitrary: m) (auto simp: lookup_drop)

end

interpretation jm: dictionary map_of AList.update AList.delete jm_wf
  by unfold_locales (auto simp: distinct_update distinct_delete)

text \<open>
  The sliding-window log. A limiter keeps the times of the calls it let through; at a call it
  prunes the front of the log and lets the call through while fewer than \<open>limit\<close> entries are
  left. What a provider has to promise is only that pruning never drops an entry younger than
  the window.
\<close>

locale window_log =
  fixes prune :: "millis \<Rightarrow> millis list \<Rightarrow> millis list"
    and width :: millis
    and limit :: nat
  assumes prune_drops_old: "\<exists>d. l = d @ prune now l \<and> (\<forall>t\<in>set d. t \<le> now - width)"
begin

definition log_step :: "millis \<Rightarrow> millis list \<Rightarrow> millis list \<times> bool" where
  "log_step now l =
     (if limit \<le> length (prune now l) then (prune now l, False)
      else (prune now l @ [now], True))"

fun log_run :: "millis list \<Rightarrow> millis list \<Rightarrow> millis list \<times> millis list" where
  "log_run l [] = (l, [])"
| "log_run l (now # ts) =
     (let (l', ok) = log_step now l; (l'', acc) = log_run l' ts
      in (l'', if ok then now # acc else acc))"

definition in_window :: "millis \<Rightarrow> millis list \<Rightarrow> millis list" where
  "in_window T acc = filter (\<lambda>t. T - width < t \<and> t \<le> T) acc"

definition log_inv :: "millis \<Rightarrow> millis list \<Rightarrow> millis list \<Rightarrow> bool" where
  "log_inv now past l \<longleftrightarrow>
     (\<exists>d. past = d @ l \<and> (\<forall>t\<in>set d. t \<le> now - width)) \<and> (\<forall>t\<in>set past. t \<le> now) \<and>
     (\<forall>T. length (in_window T past) \<le> limit)"

lemma log_inv_start: "log_inv now [] []"
  by (simp add: log_inv_def in_window_def)

lemma log_inv_later: "log_inv now past l \<Longrightarrow> now \<le> now' \<Longrightarrow> log_inv now' past l"
  unfolding log_inv_def by (smt (verit))

text \<open>Any way of forgetting expired entries keeps the invariant, not only \<open>prune\<close>.\<close>

definition forgets :: "millis \<Rightarrow> millis list \<Rightarrow> millis list \<Rightarrow> bool" where
  "forgets now l l' \<longleftrightarrow> (\<exists>d. l = d @ l' \<and> (\<forall>t\<in>set d. t \<le> now - width))"

lemma forgets_prune: "forgets now l (prune now l)"
  unfolding forgets_def by (rule prune_drops_old)

lemma forgets_refl: "forgets now l l"
  by (simp add: forgets_def)

lemma forgets_all: "\<forall>t\<in>set l. t \<le> now - width \<Longrightarrow> forgets now l []"
  by (simp add: forgets_def)

lemma forgets_trans: "forgets now l l' \<Longrightarrow> forgets now l' l'' \<Longrightarrow> forgets now l l''"
  by (fastforce simp: forgets_def)

lemma log_inv_forgets:
  assumes inv: "log_inv now past l" and f: "forgets now l l'"
  shows "log_inv now past l'"
proof -
  have "\<exists>d. past = d @ l \<and> (\<forall>t\<in>set d. t \<le> now - width)" using inv by (simp add: log_inv_def)
  then have "forgets now past l'" using f forgets_trans unfolding forgets_def by blast
  with inv show ?thesis by (simp add: log_inv_def forgets_def)
qed

lemma log_inv_prune: "log_inv now past l \<Longrightarrow> log_inv now past (prune now l)"
  by (rule log_inv_forgets [OF _ forgets_prune])

lemma log_inv_accept:
  assumes inv: "log_inv now past l" and room: "length l < limit"
  shows "log_inv now (past @ [now]) (l @ [now])"
proof -
  obtain d where d: "past = d @ l" "\<forall>t\<in>set d. t \<le> now - width"
    using inv by (auto simp: log_inv_def)
  have le: "\<forall>t\<in>set past. t \<le> now" using inv by (simp add: log_inv_def)
  have "length (in_window T (past @ [now])) \<le> limit" for T
  proof (cases "now \<le> T")
    case True
    have none: "filter (\<lambda>t. T - width < t \<and> t \<le> T) d = []"
      using d(2) True by (auto simp: filter_empty_conv)
    have "in_window T (past @ [now]) = filter (\<lambda>t. T - width < t \<and> t \<le> T) (l @ [now])"
      using none by (simp add: d(1) in_window_def)
    then have "length (in_window T (past @ [now])) \<le> length (l @ [now])"
      by (metis length_filter_le)
    with room show ?thesis by simp
  next
    case False
    then have "in_window T (past @ [now]) = in_window T past" by (simp add: in_window_def)
    with inv show ?thesis by (simp add: log_inv_def)
  qed
  moreover have "past @ [now] = d @ (l @ [now])" using d(1) by simp
  moreover have "\<forall>t\<in>set (past @ [now]). t \<le> now" using le by auto
  ultimately show ?thesis using d(2) unfolding log_inv_def by blast
qed

lemma log_step_inv:
  assumes "log_inv now past l" and "log_step now l = (l', ok)"
  shows "log_inv now (past @ (if ok then [now] else [])) l'"
  using assms log_inv_accept [OF log_inv_prune [OF assms(1)]] log_inv_prune [OF assms(1)]
  by (auto simp: log_step_def split: if_splits)

lemma log_run_window:
  "log_inv now past l \<Longrightarrow> sorted (now # ts) \<Longrightarrow> log_run l ts = (l', acc) \<Longrightarrow>
   length (in_window T (past @ acc)) \<le> limit"
proof (induction ts arbitrary: now past l l' acc)
  case Nil
  then show ?case by (simp add: log_inv_def)
next
  case (Cons n ts)
  obtain l1 ok where st: "log_step n l = (l1, ok)" by (cases "log_step n l") auto
  obtain l2 acc2 where rn: "log_run l1 ts = (l2, acc2)" by (cases "log_run l1 ts") auto
  have inv: "log_inv n past l" using Cons.prems(1,2) by (auto intro: log_inv_later)
  have "log_inv n (past @ (if ok then [n] else [])) l1" by (rule log_step_inv [OF inv st])
  moreover have "sorted (n # ts)" using Cons.prems(2) by simp
  ultimately have "length (in_window T ((past @ (if ok then [n] else [])) @ acc2)) \<le> limit"
    using rn by (rule Cons.IH)
  then show ?case using Cons.prems(3) st rn by (auto split: if_splits)
qed

lemma log_run_rate:
  "sorted ts \<Longrightarrow> log_run [] ts = (l', acc) \<Longrightarrow> length (in_window T acc) \<le> limit"
proof (cases ts)
  case Nil
  then show "log_run [] ts = (l', acc) \<Longrightarrow> ?thesis" by (auto simp: in_window_def)
next
  case (Cons n ts')
  moreover assume "sorted ts" and "log_run [] ts = (l', acc)"
  ultimately show ?thesis using log_run_window [OF log_inv_start, of n ts l' acc T] by simp
qed

lemma log_step_length: "length l \<le> limit \<Longrightarrow> log_step now l = (l', ok) \<Longrightarrow> length l' \<le> limit"
  using prune_drops_old [of l now] by (auto simp: log_step_def split: if_splits)

end

text \<open>Lists.\<close>

lemma list_all_filter_length: "length (filter P xs) + length (filter (\<lambda>x. \<not> P x) xs) = length xs"
  by (induction xs) auto

lemma length_filter_mono: "(\<And>x. x \<in> set xs \<Longrightarrow> P x \<Longrightarrow> Q x) \<Longrightarrow> length (filter P xs) \<le> length (filter Q xs)"
proof (induction xs)
  case (Cons x xs)
  then have "length (filter P xs) \<le> length (filter Q xs)" by simp
  with Cons.prems [of x] show ?case by auto
qed simp

lemma dropWhile_split: "\<exists>d. l = d @ dropWhile P l \<and> (\<forall>t\<in>set d. P t)"
  by (rule exI [of _ "takeWhile P l"]) (auto dest: set_takeWhileD)

lemma image_int_succ: "(\<lambda>i. int i + 1) ` {0..<n} = {1..int n}"
proof (induction n)
  case (Suc n)
  have "{0..<Suc n} = insert n {0..<n}" by auto
  then have "(\<lambda>i. int i + 1) ` {0..<Suc n} = insert (int n + 1) {1..int n}" using Suc by simp
  also have "\<dots> = {1..int (Suc n)}" by auto
  finally show ?case .
qed simp

lemma distinct_singleton: "distinct xs \<Longrightarrow> set xs = {x} \<Longrightarrow> xs = [x]"
  by (cases xs; cases "tl xs") auto

lemma distinct_map_eqD: "distinct (map f xs) \<Longrightarrow> x \<in> set xs \<Longrightarrow> y \<in> set xs \<Longrightarrow> f x = f y \<Longrightarrow> x = y"
  by (auto simp: distinct_map dest: inj_onD)

text \<open>A list of waiting handlers without the one that resumes.\<close>

definition without_nth :: "nat \<Rightarrow> 'a list \<Rightarrow> 'a list" where
  "without_nth i xs = take i xs @ drop (Suc i) xs"

lemma without_nth_mset: "i < length xs \<Longrightarrow> mset xs = add_mset (xs ! i) (mset (without_nth i xs))"
  by (metis id_take_nth_drop mset_append mset.simps(2) union_mset_add_mset_right without_nth_def)

lemma without_nth_set: "x \<in> set (without_nth i xs) \<Longrightarrow> x \<in> set xs"
  by (auto simp: without_nth_def dest: in_set_takeD in_set_dropD)

lemma without_nth_distinct:
  assumes "distinct xs" "i < length xs"
  shows "distinct (without_nth i xs)" "xs ! i \<notin> set (without_nth i xs)"
proof -
  have "xs = take i xs @ xs ! i # drop (Suc i) xs" using assms(2) by (rule id_take_nth_drop)
  then have "distinct (take i xs @ xs ! i # drop (Suc i) xs)" using assms(1) by metis
  then show "distinct (without_nth i xs)" "xs ! i \<notin> set (without_nth i xs)" by (auto simp: without_nth_def)
qed

lemma mset_without:
  "distinct (map f xs) \<Longrightarrow> x \<in> set xs \<Longrightarrow> mset xs = add_mset x (mset (filter (\<lambda>y. f y \<noteq> f x) xs))"
proof (induction xs)
  case (Cons y xs)
  show ?case
  proof (cases "y = x")
    case True
    have "f y \<notin> f ` set xs" using Cons.prems(1) by simp
    then have "filter (\<lambda>y. f y \<noteq> f x) xs = xs" unfolding True by (intro filter_True ballI) (metis image_eqI)
    then show ?thesis using True by simp
  next
    case False
    then have "f y \<noteq> f x" using Cons.prems by (metis image_eqI list.simps(15) distinct.simps(2) insert_iff list.set_map list.simps(9))
    then show ?thesis using Cons False by simp
  qed
qed simp

end
