(* ===== verification/JsText.thy ===== *)
theory JsText
  imports Prelude
begin

text \<open>
  JavaScript values as the code sees them in request bodies. A string is the list of its UTF-16
  code units, so \<open>length\<close> here is \<open>.length\<close> there. A finite number is a rational (every double is
  one); the text \<open>Number::toString\<close> gives for it is the runtime's, so the functions that need its
  length take \<open>numChars :: rat \<Rightarrow> nat\<close> as an argument.
\<close>

type_synonym jstring = "nat list"

definition lit :: "string \<Rightarrow> jstring" where
  "lit s = map of_char s"

lemma lit_inject [simp]: "lit s = lit t \<longleftrightarrow> s = t"
  by (simp add: lit_def inj_map_eq_map inj_of_char)

lemma length_lit [simp]: "length (lit s) = length s"
  by (simp add: lit_def)

lemma lit_append: "lit (s @ t) = lit s @ lit t"
  by (simp add: lit_def)

text \<open>White space and line ends as \<open>trim\<close> and \<open>\s\<close> know them.\<close>

definition js_space :: "nat \<Rightarrow> bool" where
  "js_space u \<longleftrightarrow> u \<in> {9, 10, 11, 12, 13, 32, 160, 0x1680, 0x2028, 0x2029, 0x202F, 0x205F, 0x3000, 0xFEFF}
     \<or> (0x2000 \<le> u \<and> u \<le> 0x200A)"

definition js_trim :: "jstring \<Rightarrow> jstring" where
  "js_trim s = rev (dropWhile js_space (rev (dropWhile js_space s)))"

lemma length_js_trim: "length (js_trim s) \<le> length s"
  unfolding js_trim_def by (metis length_dropWhile_le length_rev order_trans)

lemma dropWhile_hd_not: "dropWhile P xs = [] \<or> \<not> P (hd (dropWhile P xs))"
  by (induction xs) auto

lemma js_trim_idem [simp]: "js_trim (js_trim s) = js_trim s"
proof -
  define a where "a = dropWhile js_space s"
  define b where "b = dropWhile js_space (rev a)"
  have "dropWhile js_space (rev b) = rev b"
  proof (cases "rev b")
    case (Cons x xs)
    have "suffix b (rev a)" unfolding b_def by (rule suffix_dropWhile)
    then obtain c where "rev a = c @ b" by (auto simp: suffix_def)
    then have "a = rev b @ rev c" by (metis rev_append rev_rev_ident)
    then have "hd a = x" "a \<noteq> []" using Cons by auto
    moreover have "a = [] \<or> \<not> js_space (hd a)" unfolding a_def by (rule dropWhile_hd_not)
    ultimately show ?thesis using Cons by simp
  qed simp
  moreover have "dropWhile js_space b = b"
    unfolding b_def by (metis dropWhile_idem)
  ultimately show ?thesis unfolding js_trim_def a_def [symmetric] b_def [symmetric] by simp
qed

text \<open>ASCII case folding.\<close>

definition ascii_lower :: "nat \<Rightarrow> nat" where
  "ascii_lower u = (if 65 \<le> u \<and> u \<le> 90 then u + 32 else u)"

datatype jsnum = NumFin rat | NumNaN | NumInf bool

datatype jsval =
    JUndef
  | JNull
  | JBool bool
  | JNum jsnum
  | JStr jstring
  | JArr "jsval list"
  | JObj "(jstring \<times> jsval) list"

text \<open>Property read on a value already known to be an object.\<close>

definition js_field :: "(jstring \<times> jsval) list \<Rightarrow> string \<Rightarrow> jsval" where
  "js_field m k = (case map_of m (lit k) of None \<Rightarrow> JUndef | Some v \<Rightarrow> v)"

text \<open>\<open>v?.k\<close> for a value that may be anything.\<close>

definition js_get :: "jsval \<Rightarrow> string \<Rightarrow> jsval" where
  "js_get v k = (case v of JObj m \<Rightarrow> js_field m k | _ \<Rightarrow> JUndef)"

text \<open>What counts as false in a condition.\<close>

definition js_falsy :: "jsval \<Rightarrow> bool" where
  "js_falsy v = (case v of
       JUndef \<Rightarrow> True | JNull \<Rightarrow> True | JBool b \<Rightarrow> \<not> b | JStr s \<Rightarrow> s = []
     | JNum (NumFin r) \<Rightarrow> r = 0 | JNum NumNaN \<Rightarrow> True | _ \<Rightarrow> False)"

text \<open>\<open>a || b\<close>.\<close>

definition js_or :: "jsval \<Rightarrow> jsval \<Rightarrow> jsval" where
  "js_or a b = (if js_falsy a then b else a)"

text \<open>
  \<open>Buffer.byteLength(JSON.stringify(v), 'utf8')\<close>: escapes, UTF-8 widths, surrogate pairs as four
  bytes and lone surrogates as the six characters of their escape.
\<close>

definition is_hi_surrogate :: "nat \<Rightarrow> bool" where
  "is_hi_surrogate u \<longleftrightarrow> 0xD800 \<le> u \<and> u \<le> 0xDBFF"

definition is_lo_surrogate :: "nat \<Rightarrow> bool" where
  "is_lo_surrogate u \<longleftrightarrow> 0xDC00 \<le> u \<and> u \<le> 0xDFFF"

definition json_unit_bytes :: "nat \<Rightarrow> nat" where
  "json_unit_bytes u =
     (if u \<in> {34, 92, 8, 9, 10, 12, 13} then 2
      else if u < 32 \<or> is_hi_surrogate u \<or> is_lo_surrogate u then 6
      else if u < 0x80 then 1 else if u < 0x800 then 2 else 3)"

fun json_units_bytes :: "jstring \<Rightarrow> nat" where
  "json_units_bytes [] = 0"
| "json_units_bytes [u] = json_unit_bytes u"
| "json_units_bytes (u # v # us) =
     (if is_hi_surrogate u \<and> is_lo_surrogate v then 4 + json_units_bytes us
      else json_unit_bytes u + json_units_bytes (v # us))"

definition json_str_bytes :: "jstring \<Rightarrow> nat" where
  "json_str_bytes s = 2 + json_units_bytes s"

definition json_commas :: "nat list \<Rightarrow> nat" where
  "json_commas bs = sum_list bs + (length bs - 1)"

fun json_bytes :: "(rat \<Rightarrow> nat) \<Rightarrow> jsval \<Rightarrow> nat option"
  and json_items :: "(rat \<Rightarrow> nat) \<Rightarrow> jsval list \<Rightarrow> nat list"
  and json_members :: "(rat \<Rightarrow> nat) \<Rightarrow> (jstring \<times> jsval) list \<Rightarrow> nat list" where
  "json_bytes nc JUndef = None"
| "json_bytes nc JNull = Some 4"
| "json_bytes nc (JBool b) = Some (if b then 4 else 5)"
| "json_bytes nc (JNum (NumFin r)) = Some (nc r)"
| "json_bytes nc (JNum NumNaN) = Some 4"
| "json_bytes nc (JNum (NumInf b)) = Some 4"
| "json_bytes nc (JStr s) = Some (json_str_bytes s)"
| "json_bytes nc (JArr xs) = Some (2 + json_commas (json_items nc xs))"
| "json_bytes nc (JObj m) = Some (2 + json_commas (json_members nc m))"
| "json_items nc [] = []"
| "json_items nc (x # xs) = (case json_bytes nc x of None \<Rightarrow> 4 | Some b \<Rightarrow> b) # json_items nc xs"
| "json_members nc [] = []"
| "json_members nc ((k, v) # m) =
     (case json_bytes nc v of None \<Rightarrow> [] | Some b \<Rightarrow> [json_str_bytes k + 1 + b]) @ json_members nc m"

lemma json_unit_bytes_le: "json_unit_bytes u \<le> 6"
  by (simp add: json_unit_bytes_def)

lemma json_units_bytes_le: "json_units_bytes s \<le> 6 * length s"
proof (induction s rule: json_units_bytes.induct)
  case (3 u v us)
  then show ?case using json_unit_bytes_le [of u] by auto
qed (auto simp: json_unit_bytes_le)

text \<open>Decimal digits, the \<open>/^\d+$/\<close> test and \<open>Number\<close> of such a string.\<close>

definition js_digit :: "nat \<Rightarrow> bool" where
  "js_digit u \<longleftrightarrow> 48 \<le> u \<and> u \<le> 57"

definition js_all_digits :: "jstring \<Rightarrow> bool" where
  "js_all_digits s \<longleftrightarrow> s \<noteq> [] \<and> list_all js_digit s"

definition js_decimal :: "jstring \<Rightarrow> nat" where
  "js_decimal s = foldl (\<lambda>n u. 10 * n + (u - 48)) 0 s"

fun js_show_nat :: "nat \<Rightarrow> jstring" where
  "js_show_nat n = (if n < 10 then [n + 48] else js_show_nat (n div 10) @ [n mod 10 + 48])"

declare js_show_nat.simps [simp del]

lemma js_decimal_snoc: "js_decimal (s @ [u]) = 10 * js_decimal s + (u - 48)"
  by (simp add: js_decimal_def)

lemma js_show_nat_digits: "js_all_digits (js_show_nat n)"
proof (induction n rule: js_show_nat.induct)
  case (1 n)
  then show ?case
    by (subst js_show_nat.simps) (auto simp: js_all_digits_def js_digit_def)
qed

lemma js_decimal_show [simp]: "js_decimal (js_show_nat n) = n"
proof (induction n rule: js_show_nat.induct)
  case (1 n)
  then show ?case
    by (subst js_show_nat.simps) (auto simp: js_decimal_snoc, simp add: js_decimal_def)
qed

lemma js_show_nat_inject [simp]: "js_show_nat m = js_show_nat n \<longleftrightarrow> m = n"
  by (metis js_decimal_show)

definition js_show_int :: "int \<Rightarrow> jstring" where
  "js_show_int i = (if i < 0 then 45 # js_show_nat (nat (- i)) else js_show_nat (nat i))"

text \<open>\<open>split\<close> at one character and \<open>join\<close>; splitting never gives the empty list. \<open>includes\<close>.\<close>

fun js_split :: "nat \<Rightarrow> jstring \<Rightarrow> jstring list" where
  "js_split c [] = [[]]"
| "js_split c (u # us) =
     (if u = c then [] # js_split c us
      else (case js_split c us of [] \<Rightarrow> [[u]] | p # ps \<Rightarrow> (u # p) # ps))"

fun js_join :: "jstring \<Rightarrow> jstring list \<Rightarrow> jstring" where
  "js_join sep [] = []"
| "js_join sep [p] = p"
| "js_join sep (p # q # ps) = p @ sep @ js_join sep (q # ps)"

definition starts_with :: "jstring \<Rightarrow> jstring \<Rightarrow> bool" where
  "starts_with s p \<longleftrightarrow> take (length p) s = p"

definition ends_with :: "jstring \<Rightarrow> jstring \<Rightarrow> bool" where
  "ends_with s p \<longleftrightarrow> length p \<le> length s \<and> drop (length s - length p) s = p"

fun js_includes :: "jstring \<Rightarrow> jstring \<Rightarrow> bool" where
  "js_includes [] needle = (needle = [])"
| "js_includes (u # us) needle = (starts_with (u # us) needle \<or> js_includes us needle)"

lemma js_includes_iff: "js_includes s n \<longleftrightarrow> sublist n s"
proof (induction s)
  case (Cons u us)
  have "starts_with (u # us) n \<longleftrightarrow> prefix n (u # us)"
    by (metis append_eq_conv_conj prefix_def starts_with_def)
  with Cons show ?case by (simp add: sublist_Cons_right)
qed simp

end
