(* ===== verification/RallySchedule.thy ===== *)
theory RallySchedule
  imports JsText "HOL-Library.Product_Lexorder"
begin

text \<open>
  The pure core of \<open>server/src/rally-groups/rally-groups.service.ts\<close>: the rows of a rally group,
  \<open>sortMembersByMarchDesc\<close>, which orders the members from the slowest march to the fastest and
  numbers them, and \<open>computeFireSchedule\<close>, which says when each of them has to leave.
\<close>

type_synonym user_id = int
type_synonym member_id = string

record user_row =
  u_id :: user_id
  u_nickname :: jstring
  u_passwordHash :: jstring
  u_allianceName :: jstring
  u_role :: string
  u_language :: string
  u_marchSeconds :: "int option"
  u_isLeader :: bool

record member_row =
  m_id :: member_id
  m_groupId :: string
  m_userId :: user_id
  m_orderIndex :: int
  m_marchSecondsOverride :: "int option"

text \<open>A member with its loaded \<open>user\<close> relation.\<close>

type_synonym loaded_member = "member_row \<times> user_row option"

definition effective_march :: "loaded_member \<Rightarrow> int" where
  "effective_march lm =
     (case m_marchSecondsOverride (fst lm) of
        Some s \<Rightarrow> s
      | None \<Rightarrow> (case snd lm of
          None \<Rightarrow> 0
        | Some u \<Rightarrow> (case u_marchSeconds u of None \<Rightarrow> 0 | Some s \<Rightarrow> s)))"

definition renumber :: "loaded_member list \<Rightarrow> loaded_member list" where
  "renumber ms = map (\<lambda>(i, m, u). (m\<lparr>m_orderIndex := int i + 1\<rparr>, u)) (enumerate 0 ms)"

text \<open>The comparator: longer march first, then the old number; \<open>sort\<close> is stable.\<close>

definition march_key :: "loaded_member \<Rightarrow> int \<times> int" where
  "march_key lm = (- effective_march lm, m_orderIndex (fst lm))"

definition sortMembersByMarchDesc :: "loaded_member list \<Rightarrow> loaded_member list" where
  "sortMembersByMarchDesc ms = renumber (sort_key march_key ms)"

record fire_offset =
  f_orderIndex :: int
  f_offsetMs :: int
  f_userId :: user_id

definition march_of :: "(user_id, int) jmap \<Rightarrow> user_id \<Rightarrow> int" where
  "march_of m u = (case map_of m u of None \<Rightarrow> 0 | Some s \<Rightarrow> s)"

definition computeFireSchedule ::
    "(user_id \<times> int) list \<Rightarrow> (user_id, int) jmap \<Rightarrow> int \<times> fire_offset list" where
  "computeFireSchedule ms marches =
     (let maxMarch = fold max (map (\<lambda>(u, i). march_of marches u) ms) 0
      in (maxMarch, map (\<lambda>(u, i). \<lparr>f_orderIndex = i, f_offsetMs = (maxMarch - march_of marches u) * 1000,
                                    f_userId = u\<rparr>) ms))"

text \<open>\<open>new Map(members.map(...))\<close>, as \<open>startCountdown\<close> builds it.\<close>

definition effectiveMap :: "loaded_member list \<Rightarrow> (user_id, int) jmap" where
  "effectiveMap ms = fold (\<lambda>lm. AList.update (m_userId (fst lm)) (effective_march lm)) ms []"

definition schedule_of :: "loaded_member list \<Rightarrow> int \<times> fire_offset list" where
  "schedule_of ms =
     computeFireSchedule (map (\<lambda>lm. (m_userId (fst lm), m_orderIndex (fst lm))) ms) (effectiveMap ms)"

subsection \<open>The order of the members\<close>

lemma length_renumber [simp]: "length (renumber ms) = length ms"
  by (simp add: renumber_def)

lemma nth_renumber: "i < length ms \<Longrightarrow>
    renumber ms ! i = ((fst (ms ! i))\<lparr>m_orderIndex := int i + 1\<rparr>, snd (ms ! i))"
  by (simp add: renumber_def nth_enumerate_eq case_prod_beta)

lemma effective_march_renumber [simp]:
  "effective_march (m\<lparr>m_orderIndex := k\<rparr>, u) = effective_march (m, u)"
  by (simp add: effective_march_def split: option.splits)

lemma map_renumber:
  assumes "\<And>m u k. f (m\<lparr>m_orderIndex := k\<rparr>, u) = f (m, u)"
  shows "map f (renumber ms) = map f ms"
  by (rule nth_equalityI) (simp_all add: nth_renumber assms)

lemma renumber_orders: "map (m_orderIndex \<circ> fst) (renumber ms) = map (\<lambda>i. int i + 1) [0..<length ms]"
  by (rule nth_equalityI) (simp_all add: nth_renumber)

lemma sortMembers_length [simp]: "length (sortMembersByMarchDesc ms) = length ms"
  by (simp add: sortMembersByMarchDesc_def)

lemma sortMembers_orders:
  "map (m_orderIndex \<circ> fst) (sortMembersByMarchDesc ms) = map (\<lambda>i. int i + 1) [0..<length ms]"
  unfolding sortMembersByMarchDesc_def by (simp only: renumber_orders length_sort)

lemma sortMembers_map:
  assumes "\<And>m u k. f (m\<lparr>m_orderIndex := k\<rparr>, u) = f (m, u)"
  shows "map f (sortMembersByMarchDesc ms) = map f (sort_key march_key ms)"
  unfolding sortMembersByMarchDesc_def by (rule map_renumber [OF assms])

lemma sortMembers_mset:
  assumes "\<And>m u k. f (m\<lparr>m_orderIndex := k\<rparr>, u) = f (m, u)"
  shows "mset (map f (sortMembersByMarchDesc ms)) = mset (map f ms)"
  by (simp add: sortMembers_map [OF assms])

lemma sorted_march_key: "sorted (map march_key ms) \<Longrightarrow> sorted (rev (map effective_march ms))"
proof (induction ms)
  case (Cons a ms)
  have "effective_march x \<le> effective_march a" if "x \<in> set ms" for x
    using Cons.prems that by (auto simp: march_key_def less_eq_prod_def)
  with Cons show ?case by (auto simp: sorted_append)
qed simp

lemma sortMembers_sorted: "sorted (rev (map effective_march (sortMembersByMarchDesc ms)))"
proof -
  have "map effective_march (sortMembersByMarchDesc ms) = map effective_march (sort_key march_key ms)"
    by (rule sortMembers_map) simp
  then show ?thesis using sorted_march_key by simp
qed

lemma sortMembers_descends:
  assumes "a \<in> set (sortMembersByMarchDesc ms)" and "b \<in> set (sortMembersByMarchDesc ms)"
    and "m_orderIndex (fst a) < m_orderIndex (fst b)"
  shows "effective_march b \<le> effective_march a"
proof -
  let ?r = "sortMembersByMarchDesc ms"
  obtain i j where ij: "i < length ms" "?r ! i = a" "j < length ms" "?r ! j = b"
    using assms(1,2) by (auto simp: in_set_conv_nth)
  have "m_orderIndex (fst (?r ! k)) = int k + 1" if "k < length ms" for k
    using that arg_cong [OF sortMembers_orders, of "\<lambda>l. l ! k" ms] by simp
  then have "i \<le> j" using assms(3) ij by force
  then have "map effective_march ?r ! j \<le> map effective_march ?r ! i"
    using sortMembers_sorted [of ms] ij by (metis length_map sorted_rev_nth_mono sortMembers_length)
  then show ?thesis using ij by simp
qed

text \<open>
  The result does not depend on the order in which the database returns the rows, because the old
  numbers of a group are distinct.
\<close>

lemma march_key_inj: "distinct (map (m_orderIndex \<circ> fst) ms) \<Longrightarrow> inj_on march_key (set ms)"
  by (auto simp: inj_on_def march_key_def distinct_map)

lemma sortMembers_perm:
  assumes "mset ms = mset ms'" and "distinct (map (m_orderIndex \<circ> fst) ms)"
  shows "sortMembersByMarchDesc ms = sortMembersByMarchDesc ms'"
proof -
  have "sort_key march_key ms = sort_key march_key ms'"
    by (rule sort_key_inj_key_eq [OF _ march_key_inj [OF assms(2)]]) (simp_all add: assms(1))
  then show ?thesis by (simp add: sortMembersByMarchDesc_def)
qed

text \<open>Sorting what is already sorted and numbered changes nothing.\<close>

lemma sortMembers_idem: "sortMembersByMarchDesc (sortMembersByMarchDesc ms) = sortMembersByMarchDesc ms"
proof -
  let ?r = "sortMembersByMarchDesc ms"
  have nth: "march_key (?r ! i) = (- effective_march (?r ! i), int i + 1)" if "i < length ms" for i
  proof -
    have "m_orderIndex (fst (?r ! i)) = map (m_orderIndex \<circ> fst) ?r ! i" using that by simp
    also have "\<dots> = int i + 1" using that unfolding sortMembers_orders by simp
    finally show ?thesis by (simp add: march_key_def)
  qed
  have "sorted (map march_key ?r)"
  proof (rule sorted_iff_nth_mono [THEN iffD2], intro allI impI)
    fix i j assume ij: "i \<le> j" "j < length (map march_key ?r)"
    have "map effective_march ?r ! j \<le> map effective_march ?r ! i"
      using sortMembers_sorted [of ms] ij by (metis length_map sorted_rev_nth_mono)
    then show "map march_key ?r ! i \<le> map march_key ?r ! j"
      using ij nth [of i] nth [of j] by (auto simp: less_eq_prod_def)
  qed
  then have "sort_key march_key ?r = ?r" by (rule sort_key_id_if_sorted)
  moreover have "renumber ?r = ?r"
  proof (rule nth_equalityI)
    fix i assume "i < length (renumber ?r)"
    then have i: "i < length ms" by simp
    then have "m_orderIndex (fst (?r ! i)) = int i + 1" using nth [OF i] by (simp add: march_key_def)
    with i show "renumber ?r ! i = ?r ! i"
      by (cases "?r ! i") (auto simp: nth_renumber intro: prod_eqI)
  qed simp
  ultimately show ?thesis by (simp only: sortMembersByMarchDesc_def [of ?r])
qed

subsection \<open>The schedule\<close>

lemma fold_max_ge: "x \<in> set xs \<Longrightarrow> x \<le> fold max xs (a::int)" "a \<le> fold max xs a"
proof -
  have base: "b \<le> fold max xs b" for b
    by (induction xs arbitrary: b) (simp_all, meson max.cobounded2 order_trans)
  show "a \<le> fold max xs a" by (rule base)
  show "x \<in> set xs \<Longrightarrow> x \<le> fold max xs a"
  proof (induction xs arbitrary: a)
    case (Cons y ys)
    have "b \<le> fold max ys b" for b :: int
      by (induction ys arbitrary: b) (simp_all, meson max.cobounded2 order_trans)
    with Cons show ?case by (auto intro: order_trans [of y "max y a"])
  qed simp
qed

lemma fold_max_in: "fold max xs (a::int) \<in> insert a (set xs)"
  by (induction xs arbitrary: a) (auto simp: max_def)

text \<open>Every march that leaves at its offset arrives at the same moment: \<open>maxMarch\<close> after the start.\<close>

lemma fire_simultaneous:
  "computeFireSchedule ms marches = (maxMarch, offs) \<Longrightarrow> f \<in> set offs \<Longrightarrow>
   f_offsetMs f + march_of marches (f_userId f) * 1000 = maxMarch * 1000"
  by (auto simp: computeFireSchedule_def Let_def algebra_simps)

lemma fire_nonneg:
  "computeFireSchedule ms marches = (maxMarch, offs) \<Longrightarrow> f \<in> set offs \<Longrightarrow> 0 \<le> f_offsetMs f"
  using fold_max_ge(1) [of _ "map (\<lambda>(u, i). march_of marches u) ms" 0]
  by (fastforce simp: computeFireSchedule_def Let_def)

text \<open>Somebody leaves at once when a march is at least 0 seconds.\<close>

lemma fire_first:
  assumes "computeFireSchedule ms marches = (maxMarch, offs)" and "(u, i) \<in> set ms" and "0 \<le> march_of marches u"
  shows "\<exists>f\<in>set offs. f_offsetMs f = 0"
proof -
  let ?xs = "map (\<lambda>(u, i). march_of marches u) ms"
  have mx: "maxMarch = fold max ?xs 0" and offs: "offs = map (\<lambda>(u, i). \<lparr>f_orderIndex = i,
      f_offsetMs = (maxMarch - march_of marches u) * 1000, f_userId = u\<rparr>) ms"
    using assms(1) by (auto simp: computeFireSchedule_def Let_def)
  have "march_of marches u \<in> set ?xs" using assms(2) by force
  have "\<exists>v\<in>set ?xs. maxMarch = v"
  proof (cases "maxMarch = 0")
    case True
    then have "march_of marches u \<le> 0" using fold_max_ge(1) [OF \<open>march_of marches u \<in> set ?xs\<close>, of 0] mx by simp
    with assms(3) True \<open>march_of marches u \<in> set ?xs\<close> show ?thesis by auto
  next
    case False
    then show ?thesis using fold_max_in [of ?xs 0] mx by auto
  qed
  then obtain v j where "(v, j) \<in> set ms" "maxMarch = march_of marches v" by auto
  then show ?thesis using offs by force
qed

lemma effectiveMap_distinct:
  "distinct (map (m_userId \<circ> fst) ms) \<Longrightarrow> lm \<in> set ms \<Longrightarrow>
   map_of (effectiveMap ms) (m_userId (fst lm)) = Some (effective_march lm)"
proof -
  have put: "map_of (fold (\<lambda>lm. AList.update (m_userId (fst lm)) (effective_march lm)) xs m) k =
      (case map_of (rev (map (\<lambda>lm. (m_userId (fst lm), effective_march lm)) xs)) k of
         None \<Rightarrow> map_of m k | Some v \<Rightarrow> Some v)" for xs m k
    by (induction xs arbitrary: m) (auto split: option.splits simp: map_add_def)
  assume d: "distinct (map (m_userId \<circ> fst) ms)" and lm: "lm \<in> set ms"
  let ?l = "map (\<lambda>lm. (m_userId (fst lm), effective_march lm)) ms"
  have "distinct (map fst (rev ?l))" using d by (simp add: comp_def rev_map [symmetric])
  moreover have "(m_userId (fst lm), effective_march lm) \<in> set (rev ?l)" using lm by force
  ultimately have "map_of (rev ?l) (m_userId (fst lm)) = Some (effective_march lm)" by (rule map_of_is_SomeI)
  then show ?thesis unfolding effectiveMap_def put by simp
qed

lemma schedule_march:
  "distinct (map (m_userId \<circ> fst) ms) \<Longrightarrow> lm \<in> set ms \<Longrightarrow>
   march_of (effectiveMap ms) (m_userId (fst lm)) = effective_march lm"
  by (simp add: march_of_def effectiveMap_distinct)

end
