(* ===== verification/BusyLock.thy ===== *)
theory BusyLock
  imports Prelude
begin

text \<open>
  \<open>BusyLockService\<close> of \<open>server/src/realtime/busy-lock.service.ts\<close>: the one lock that keeps the
  countdown and the rally countdowns from running together, with its automatic release. The
  pending \<open>setTimeout\<close> is its due time and the callback to run; \<open>lock_fire\<close> is the body of the
  timer. The locale states what the two clients (the realtime gateway and the rally service)
  rely on.
\<close>

type_synonym group_id = string

datatype lock_holder = HCountdown | HRally group_id

datatype lock_callback = CbCountdownAutoExpire | CbRallyAutoIdle group_id

record busy_lock =
  holder :: "lock_holder option"
  lock_timer :: "(millis \<times> lock_callback option) option"

definition lock_initial :: busy_lock where
  "lock_initial = \<lparr>holder = None, lock_timer = None\<rparr>"

definition lock_matches :: "lock_holder \<Rightarrow> lock_holder \<Rightarrow> bool" where
  "lock_matches a b =
     (case (a, b) of
        (HRally g, HRally g') \<Rightarrow> g = g'
      | (HCountdown, HCountdown) \<Rightarrow> True
      | _ \<Rightarrow> False)"

text \<open>The \<open>autoReleaseMs\<close> argument is optional, and so is the callback.\<close>

definition tryAcquire ::
    "millis \<Rightarrow> millis option \<Rightarrow> lock_callback option \<Rightarrow> lock_holder \<Rightarrow> busy_lock \<Rightarrow> bool \<times> busy_lock" where
  "tryAcquire now autoReleaseMs onAutoRelease h l =
     (if holder l \<noteq> None then (False, l)
      else (True, l\<lparr>holder := Some h,
        lock_timer := (case autoReleaseMs of
             Some ms \<Rightarrow> if 0 < ms then Some (now + ms, onAutoRelease) else lock_timer l
           | None \<Rightarrow> lock_timer l)\<rparr>))"

definition reschedule ::
    "millis \<Rightarrow> millis \<Rightarrow> lock_callback option \<Rightarrow> lock_holder \<Rightarrow> busy_lock \<Rightarrow> bool \<times> busy_lock" where
  "reschedule now autoReleaseMs onAutoRelease h l =
     (case holder l of
        None \<Rightarrow> (False, l)
      | Some h' \<Rightarrow>
          if \<not> lock_matches h' h then (False, l)
          else if autoReleaseMs \<le> 0 then (False, l)
          else (True, l\<lparr>lock_timer := Some (now + autoReleaseMs, onAutoRelease)\<rparr>))"

definition lock_release :: "lock_holder \<Rightarrow> busy_lock \<Rightarrow> busy_lock" where
  "lock_release h l =
     (case holder l of
        None \<Rightarrow> l
      | Some h' \<Rightarrow> if \<not> lock_matches h' h then l else l\<lparr>lock_timer := None, holder := None\<rparr>)"

definition getHolder :: "busy_lock \<Rightarrow> lock_holder option" where
  "getHolder l = holder l"

definition lock_fire :: "busy_lock \<Rightarrow> lock_callback option \<times> busy_lock" where
  "lock_fire l =
     (case lock_timer l of
        None \<Rightarrow> (None, l)
      | Some (due, cb) \<Rightarrow> (cb, l\<lparr>holder := None, lock_timer := None\<rparr>))"

lemma lock_matches_eq [simp]: "lock_matches a b \<longleftrightarrow> a = b"
  by (cases a; cases b) (auto simp: lock_matches_def)

text \<open>A timer is pending only while the lock is held.\<close>

definition lock_ok :: "busy_lock \<Rightarrow> bool" where
  "lock_ok l \<longleftrightarrow> (lock_timer l \<noteq> None \<longrightarrow> holder l \<noteq> None)"

named_theorems lock_oks "operations keep the lock well-formed"

lemma lock_ok_initial [lock_oks]: "lock_ok lock_initial"
  by (simp add: lock_ok_def lock_initial_def)

lemma tryAcquire_ok [lock_oks]: "lock_ok l \<Longrightarrow> lock_ok (snd (tryAcquire now ms cb h l))"
  by (simp add: lock_ok_def tryAcquire_def)

lemma reschedule_ok [lock_oks]: "lock_ok l \<Longrightarrow> lock_ok (snd (reschedule now ms cb h l))"
  by (auto simp: lock_ok_def reschedule_def split: option.splits)

lemma lock_release_ok [lock_oks]: "lock_ok l \<Longrightarrow> lock_ok (lock_release h l)"
  by (auto simp: lock_ok_def lock_release_def split: option.splits)

lemma lock_fire_ok [lock_oks]: "lock_ok l \<Longrightarrow> lock_ok (snd (lock_fire l))"
  by (auto simp: lock_ok_def lock_fire_def split: option.splits)

lemma reschedule_holder [simp]: "holder (snd (reschedule now ms cb h l)) = holder l"
  by (simp add: reschedule_def split: option.splits)

subsection \<open>The contract of the lock\<close>

datatype 'h lock_op = LAcquire 'h | LRelease 'h | LExpire

locale exclusive_lock =
  fixes acquire :: "'h \<Rightarrow> 's \<Rightarrow> bool \<times> 's"
    and release :: "'h \<Rightarrow> 's \<Rightarrow> 's"
    and expire :: "'s \<Rightarrow> 's"
    and held :: "'s \<Rightarrow> 'h option"
  assumes acquire_free: "held s = None \<Longrightarrow> fst (acquire h s) \<and> held (snd (acquire h s)) = Some h"
    and acquire_busy: "held s = Some h' \<Longrightarrow> acquire h s = (False, s)"
    and release_own: "held s = Some h \<Longrightarrow> held (release h s) = None"
    and release_other: "held s \<noteq> Some h \<Longrightarrow> release h s = s"
begin

lemma acquire_iff: "fst (acquire h s) \<longleftrightarrow> held s = None"
  using acquire_free acquire_busy by (cases "held s") fastforce+

lemma acquire_held: "held (snd (acquire h s)) = (case held s of None \<Rightarrow> Some h | Some h' \<Rightarrow> Some h')"
  using acquire_free acquire_busy by (cases "held s") auto

fun ops_run :: "'s \<Rightarrow> 'h lock_op list \<Rightarrow> 's \<times> 'h list" where
  "ops_run s [] = (s, [])"
| "ops_run s (LAcquire h # ops) =
     (let (ok, s') = acquire h s; (s'', got) = ops_run s' ops in (s'', if ok then h # got else got))"
| "ops_run s (LRelease h # ops) = ops_run (release h s) ops"
| "ops_run s (LExpire # ops) = ops_run (expire s) ops"

text \<open>While one party holds the lock, and neither it nor the timer lets go, nobody else gets it.\<close>

lemma hold_excludes:
  "held s = Some h \<Longrightarrow> LRelease h \<notin> set ops \<Longrightarrow> LExpire \<notin> set ops \<Longrightarrow>
   snd (ops_run s ops) = [] \<and> held (fst (ops_run s ops)) = Some h"
proof (induction ops arbitrary: s)
  case (Cons op ops)
  show ?case
  proof (cases op)
    case (LAcquire h')
    with Cons acquire_busy [OF Cons.prems(1), of h'] show ?thesis by (auto simp: case_prod_beta)
  next
    case (LRelease h')
    with Cons.prems have "release h' s = s" by (intro release_other) auto
    with Cons LRelease show ?thesis by auto
  qed (use Cons.prems in auto)
qed auto

end

interpretation bl: exclusive_lock "tryAcquire now ms cb" lock_release "snd \<circ> lock_fire" holder
  for now ms cb
  by unfold_locales (auto simp: tryAcquire_def lock_release_def split: option.splits)

text \<open>
  An acquisition or a rescheduling with a positive delay leaves a release pending, so a held lock
  always gets free again; firing the timer frees it and names the callback.
\<close>

lemma tryAcquire_due:
  "tryAcquire now (Some ms) cb h l = (True, l') \<Longrightarrow> 0 < ms \<Longrightarrow> lock_timer l' = Some (now + ms, cb)"
  by (auto simp: tryAcquire_def split: if_splits)

lemma reschedule_due:
  "reschedule now ms cb h l = (True, l') \<Longrightarrow> lock_timer l' = Some (now + ms, cb) \<and> 0 < ms \<and> holder l = Some h"
  by (auto simp: reschedule_def split: option.splits if_splits)

lemma lock_fire_frees: "lock_timer l = Some (due, cb) \<Longrightarrow> lock_fire l = (cb, \<lparr>holder = None, lock_timer = None\<rparr>)"
  by (simp add: lock_fire_def)

end
