(* ===== verification/RallyGroups.thy ===== *)
theory RallyGroups
  imports RallySchedule BusyLock
begin

text \<open>
  \<open>RallyGroupsService\<close> (\<open>server/src/rally-groups/rally-groups.service.ts\<close>) with the state it works
  on: the three tables it queries, the broadcast caches of \<open>RallyGroupsGateway\<close> and the lock. A
  table is the list of its rows; the constraints the service can run into are those of
  \<open>server/migrations/000_initial_schema.sql\<close>: the unique keys of \<open>rally_group_members\<close>, the foreign
  keys and their cascades. A transaction that throws leaves the tables as they were.
\<close>

datatype rally_state = Idle | Running | Finished

record group_row =
  g_id :: group_id
  g_name :: jstring
  g_displayOrder :: int
  g_createdById :: user_id
  g_broadcastAll :: bool
  g_state :: rally_state
  g_startedAtServerMs :: "millis option"
  g_maxMarchSeconds :: "int option"

text \<open>What \<open>sanitizeUser\<close> lets out of a user row, and a group with its relations.\<close>

record safe_user =
  su_id :: user_id
  su_nickname :: jstring
  su_allianceName :: jstring
  su_role :: string
  su_language :: string
  su_marchSeconds :: "int option"
  su_isLeader :: bool

record full_group =
  fg_row :: group_row
  fg_createdBy :: "safe_user option"
  fg_members :: "(member_row \<times> safe_user option) list"

record countdown_payload =
  cp_groupId :: group_id
  cp_startedAtServerMs :: millis
  cp_fireOffsets :: "fire_offset list"

datatype rally_event =
    EvGroupUpdated full_group
  | EvCountdownStart countdown_payload
  | EvCountdownStop group_id
  | EvGroupRemoved group_id
  | EvBusyState "lock_holder option"

datatype rally_error =
    GroupNotFound
  | MemberNotFound
  | TooManyGroups
  | GroupFull
  | AlreadyInGroup
  | CountdownRunning
  | BusyConflict "lock_holder option"
  | DuplicateKey
  | ForeignKey
  | DbFailure
  | Forbidden
  | BadMarchSeconds

record rally_db =
  db_users :: "user_row list"
  db_groups :: "group_row list"
  db_members :: "member_row list"

record rally_sys = rally_db +
  rs_lock :: busy_lock
  runningCountdowns :: "(group_id, countdown_payload) jmap"
  runningGroups :: "(group_id, full_group) jmap"
  rs_events :: "rally_event list"

definition MAX_GROUP_MEMBERS :: nat where "MAX_GROUP_MEMBERS = 10"
definition MAX_GROUPS :: nat where "MAX_GROUPS = 6"
definition COUNTDOWN_LEAD_MS :: millis where "COUNTDOWN_LEAD_MS = 7000"
definition RALLY_AUTO_IDLE_GRACE_SECONDS :: int where "RALLY_AUTO_IDLE_GRACE_SECONDS = 5"

lemmas rally_consts = MAX_GROUP_MEMBERS_def MAX_GROUPS_def COUNTDOWN_LEAD_MS_def
  RALLY_AUTO_IDLE_GRACE_SECONDS_def

text \<open>The generated name: the number followed by the Korean for "rally group no.".\<close>

definition formatGroupName :: "int \<Rightarrow> jstring" where
  "formatGroupName displayOrder =
     js_show_int displayOrder @ [0xBC88, 32, 0xC9D1, 0xACB0, 0xADF8, 0xB8F9]"

subsection \<open>Reading\<close>

definition sanitizeUser :: "user_row \<Rightarrow> safe_user" where
  "sanitizeUser u = \<lparr>su_id = u_id u, su_nickname = u_nickname u, su_allianceName = u_allianceName u,
     su_role = u_role u, su_language = u_language u, su_marchSeconds = u_marchSeconds u,
     su_isLeader = u_isLeader u\<rparr>"

definition find_user :: "('a rally_db_scheme) \<Rightarrow> user_id \<Rightarrow> user_row option" where
  "find_user s i = find (\<lambda>u. u_id u = i) (db_users s)"

definition find_group :: "('a rally_db_scheme) \<Rightarrow> group_id \<Rightarrow> group_row option" where
  "find_group s i = find (\<lambda>g. g_id g = i) (db_groups s)"

definition find_member :: "('a rally_db_scheme) \<Rightarrow> member_id \<Rightarrow> member_row option" where
  "find_member s i = find (\<lambda>m. m_id m = i) (db_members s)"

definition group_members :: "('a rally_db_scheme) \<Rightarrow> group_id \<Rightarrow> member_row list" where
  "group_members s gid = filter (\<lambda>m. m_groupId m = gid) (db_members s)"

definition load_members :: "('a rally_db_scheme) \<Rightarrow> group_id \<Rightarrow> loaded_member list" where
  "load_members s gid = map (\<lambda>m. (m, find_user s (m_userId m))) (group_members s gid)"

definition sanitizeGroup :: "('a rally_db_scheme) \<Rightarrow> group_row \<Rightarrow> full_group" where
  "sanitizeGroup s g =
     \<lparr>fg_row = g, fg_createdBy = map_option sanitizeUser (find_user s (g_createdById g)),
      fg_members = map (\<lambda>(m, u). (m, map_option sanitizeUser u)) (load_members s (g_id g))\<rparr>"

text \<open>The rank the collation of the database gives to a text is a parameter.\<close>

definition listAssignableUsers :: "(jstring \<Rightarrow> nat) \<Rightarrow> ('a rally_db_scheme) \<Rightarrow> user_row list" where
  "listAssignableUsers rank s =
     sort_key (\<lambda>u. (rank (u_allianceName u), rank (u_nickname u))) (filter u_isLeader (db_users s))"

definition listAll :: "('a rally_db_scheme) \<Rightarrow> full_group list" where
  "listAll s = map (sanitizeGroup s) (sort_key g_displayOrder (db_groups s))"

definition getFullGroup :: "('a rally_db_scheme) \<Rightarrow> group_id \<Rightarrow> rally_error + full_group" where
  "getFullGroup s i =
     (case find_group s i of None \<Rightarrow> Inl GroupNotFound | Some g \<Rightarrow> Inr (sanitizeGroup s g))"

definition getMemberUserIdInGroup :: "('a rally_db_scheme) \<Rightarrow> group_id \<Rightarrow> member_id \<Rightarrow> user_id option" where
  "getMemberUserIdInGroup s gid mid =
     map_option m_userId (find (\<lambda>m. m_id m = mid \<and> m_groupId m = gid) (db_members s))"

subsection \<open>The gateway\<close>

definition emit :: "rally_event \<Rightarrow> rally_sys \<Rightarrow> rally_sys" where
  "emit ev s = s\<lparr>rs_events := rs_events s @ [ev]\<rparr>"

definition emitGroupUpdated :: "full_group \<Rightarrow> rally_sys \<Rightarrow> rally_sys" where
  "emitGroupUpdated fg s =
     emit (EvGroupUpdated fg)
       (if g_id (fg_row fg) = [] then s
        else if g_state (fg_row fg) = Running
        then s\<lparr>runningGroups := AList.update (g_id (fg_row fg)) fg (runningGroups s)\<rparr>
        else s\<lparr>runningGroups := AList.delete (g_id (fg_row fg)) (runningGroups s)\<rparr>)"

definition emitCountdownStart :: "countdown_payload \<Rightarrow> rally_sys \<Rightarrow> rally_sys" where
  "emitCountdownStart p s =
     emit (EvCountdownStart p) (s\<lparr>runningCountdowns := AList.update (cp_groupId p) p (runningCountdowns s)\<rparr>)"

definition emitCountdownStop :: "group_id \<Rightarrow> rally_sys \<Rightarrow> rally_sys" where
  "emitCountdownStop gid s =
     emit (EvCountdownStop gid) (s\<lparr>runningCountdowns := AList.delete gid (runningCountdowns s)\<rparr>)"

definition emitGroupRemoved :: "group_id \<Rightarrow> rally_sys \<Rightarrow> rally_sys" where
  "emitGroupRemoved gid s =
     emit (EvGroupRemoved gid)
       (s\<lparr>runningCountdowns := AList.delete gid (runningCountdowns s),
          runningGroups := AList.delete gid (runningGroups s)\<rparr>)"

definition emitBusyState :: "lock_holder option \<Rightarrow> rally_sys \<Rightarrow> rally_sys" where
  "emitBusyState h s = emit (EvBusyState h) s"

definition last_fire_at :: "countdown_payload \<Rightarrow> millis" where
  "last_fire_at p = cp_startedAtServerMs p + fold max (map f_offsetMs (cp_fireOffsets p)) 0"

definition collectLiveSnapshots :: "millis \<Rightarrow> rally_sys \<Rightarrow> countdown_payload list \<times> rally_sys" where
  "collectLiveSnapshots now s =
     (map snd (filter (\<lambda>(gid, p). \<not> last_fire_at p < now) (runningCountdowns s)),
      fold (\<lambda>(gid, p) s. s\<lparr>runningCountdowns := AList.delete gid (runningCountdowns s),
                            runningGroups := AList.delete gid (runningGroups s)\<rparr>)
        (filter (\<lambda>(gid, p). last_fire_at p < now) (runningCountdowns s)) s)"

text \<open>A new connection with a valid token is sent the running countdowns, each after its group.\<close>

definition rally_handleConnection ::
    "bool \<Rightarrow> millis \<Rightarrow> rally_sys \<Rightarrow> rally_event list \<times> rally_sys" where
  "rally_handleConnection hasValidToken now s =
     (if \<not> hasValidToken then ([], s)
      else (let (live, s') = collectLiveSnapshots now s
            in (concat (map (\<lambda>p.
                  (case map_of (runningGroups s') (cp_groupId p) of
                     None \<Rightarrow> [] | Some fg \<Rightarrow> [EvGroupUpdated fg]) @ [EvCountdownStart p]) live), s')))"

subsection \<open>Writing rows\<close>

definition update_group :: "group_id \<Rightarrow> (group_row \<Rightarrow> group_row) \<Rightarrow> ('a rally_db_scheme) \<Rightarrow> ('a rally_db_scheme)" where
  "update_group i f s = s\<lparr>db_groups := map (\<lambda>g. if g_id g = i then f g else g) (db_groups s)\<rparr>"

text \<open>
  \<open>update(id, { orderIndex })\<close>, refused by the unique key on (\<open>group_id\<close>, \<open>order_index\<close>) when another
  row of the group has that number; an unknown id updates no row.
\<close>

definition update_order :: "member_id \<Rightarrow> int \<Rightarrow> member_row list \<Rightarrow> rally_error + member_row list" where
  "update_order i k rows =
     (case find (\<lambda>m. m_id m = i) rows of
        None \<Rightarrow> Inr rows
      | Some m \<Rightarrow>
          if list_ex (\<lambda>m'. m_id m' \<noteq> i \<and> m_groupId m' = m_groupId m \<and> m_orderIndex m' = k) rows
          then Inl DuplicateKey
          else Inr (map (\<lambda>m'. if m_id m' = i then m'\<lparr>m_orderIndex := k\<rparr> else m') rows))"

fun update_orders :: "(member_id \<times> int) list \<Rightarrow> member_row list \<Rightarrow> rally_error + member_row list" where
  "update_orders [] rows = Inr rows"
| "update_orders ((i, k) # us) rows =
     (case update_order i k rows of Inl e \<Rightarrow> Inl e | Inr rows' \<Rightarrow> update_orders us rows')"

text \<open>
  \<open>reorderByMarchSeconds_inner\<close>: first every row of the group moves to a negative number, then the
  sorted rows get \<open>1, 2, ...\<close>.
\<close>

definition reorder_group :: "group_id \<Rightarrow> ('a rally_db_scheme) \<Rightarrow> rally_error + ('a rally_db_scheme)" where
  "reorder_group gid s =
     (let ms = load_members s gid
      in if ms = [] then Inr s
         else (let ordered = sortMembersByMarchDesc ms;
                   temp = map (\<lambda>(i, m, u). (m_id m, - (int i + 1))) (enumerate 0 ms);
                   final = map (\<lambda>(i, m, u). (m_id m, int i + 1)) (enumerate 0 ordered)
               in case update_orders temp (db_members s) of
                    Inl e \<Rightarrow> Inl e
                  | Inr rows \<Rightarrow>
                      (case update_orders final rows of
                         Inl e \<Rightarrow> Inl e
                       | Inr rows' \<Rightarrow> Inr (s\<lparr>db_members := rows'\<rparr>))))"

fun reorder_groups :: "group_id list \<Rightarrow> ('a rally_db_scheme) \<Rightarrow> rally_error + ('a rally_db_scheme)" where
  "reorder_groups [] s = Inr s"
| "reorder_groups (g # gs) s = (case reorder_group g s of Inl e \<Rightarrow> Inl e | Inr s' \<Rightarrow> reorder_groups gs s')"

definition insert_member :: "member_row \<Rightarrow> ('a rally_db_scheme) \<Rightarrow> rally_error + ('a rally_db_scheme)" where
  "insert_member m s =
     (if find_group s (m_groupId m) = None \<or> find_user s (m_userId m) = None then Inl ForeignKey
      else if list_ex (\<lambda>m'. m_id m' = m_id m \<or>
                (m_groupId m' = m_groupId m \<and>
                 (m_orderIndex m' = m_orderIndex m \<or> m_userId m' = m_userId m))) (db_members s)
      then Inl DuplicateKey
      else Inr (s\<lparr>db_members := db_members s @ [m]\<rparr>))"

subsection \<open>The operations of the service\<close>

text \<open>
  Publishing a group after a change: read it in full, then emit. A group that has vanished is the
  \<open>NotFoundException\<close> of \<open>getFullGroup\<close>.
\<close>

definition publish :: "group_id \<Rightarrow> rally_sys \<Rightarrow> (rally_error + full_group) \<times> rally_sys" where
  "publish gid s =
     (case getFullGroup s gid of
        Inl e \<Rightarrow> (Inl e, s)
      | Inr fg \<Rightarrow> (Inr fg, emitGroupUpdated fg s))"

fun publish_all :: "group_id list \<Rightarrow> rally_sys \<Rightarrow> (rally_error + unit) \<times> rally_sys" where
  "publish_all [] s = (Inr (), s)"
| "publish_all (g # gs) s =
     (case publish g s of (Inl e, s') \<Rightarrow> (Inl e, s') | (Inr fg, s') \<Rightarrow> publish_all gs s')"

definition rally_onModuleInit :: "rally_sys \<Rightarrow> rally_sys" where
  "rally_onModuleInit s =
     (if filter (\<lambda>g. g_state g = Running) (db_groups s) = [] then s
      else s\<lparr>db_groups := map (\<lambda>g. if g_state g = Running
               then g\<lparr>g_state := Idle, g_startedAtServerMs := None, g_maxMarchSeconds := None\<rparr> else g)
               (db_groups s)\<rparr>)"

definition create_group ::
    "user_id \<Rightarrow> bool option \<Rightarrow> group_id \<Rightarrow> rally_sys \<Rightarrow> (rally_error + full_group) \<times> rally_sys" where
  "create_group userId broadcastAll newId s =
     (let cnt = length (db_groups s)
      in if MAX_GROUPS \<le> cnt then (Inl TooManyGroups, s)
         else if find_user s userId = None then (Inl ForeignKey, s)
         else if find_group s newId \<noteq> None then (Inl DuplicateKey, s)
         else (let displayOrder = int cnt + 1;
                   g = \<lparr>g_id = newId, g_name = formatGroupName displayOrder, g_displayOrder = displayOrder,
                        g_createdById = userId,
                        g_broadcastAll = (case broadcastAll of None \<Rightarrow> False | Some b \<Rightarrow> b),
                        g_state = Idle, g_startedAtServerMs = None, g_maxMarchSeconds = None\<rparr>
               in publish newId (s\<lparr>db_groups := db_groups s @ [g]\<rparr>)))"

text \<open>
  \<open>remove\<close>: delete the row (its members go by the cascade), then walk the later groups in ascending
  order, saving each with its number lowered by one and the matching name.
\<close>

definition renumber_one :: "group_row \<Rightarrow> ('a rally_db_scheme) \<Rightarrow> ('a rally_db_scheme)" where
  "renumber_one g s =
     update_group (g_id g) (\<lambda>r. r\<lparr>g_displayOrder := g_displayOrder g - 1,
                                  g_name := formatGroupName (g_displayOrder g - 1)\<rparr>) s"

definition remove_group :: "group_id \<Rightarrow> rally_sys \<Rightarrow> (rally_error + unit) \<times> rally_sys" where
  "remove_group i s =
     (case find_group s i of
        None \<Rightarrow> (Inl GroupNotFound, s)
      | Some g \<Rightarrow>
          (let s1 = s\<lparr>db_groups := filter (\<lambda>r. g_id r \<noteq> i) (db_groups s),
                      db_members := filter (\<lambda>m. m_groupId m \<noteq> i) (db_members s)\<rparr>;
               tail = sort_key g_displayOrder
                        (filter (\<lambda>r. g_displayOrder g < g_displayOrder r) (db_groups s1));
               s2 = fold renumber_one tail s1
           in publish_all (map g_id tail) (emitGroupRemoved i s2)))"

definition add_member ::
    "group_id \<Rightarrow> user_id \<Rightarrow> member_id \<Rightarrow> rally_sys \<Rightarrow> (rally_error + full_group) \<times> rally_sys" where
  "add_member gid userId newId s =
     (let cnt = length (group_members s gid)
      in if MAX_GROUP_MEMBERS \<le> cnt then (Inl GroupFull, s)
         else if list_ex (\<lambda>m. m_userId m = userId) (group_members s gid) then (Inl AlreadyInGroup, s)
         else (case insert_member \<lparr>m_id = newId, m_groupId = gid, m_userId = userId,
                      m_orderIndex = int cnt + 1, m_marchSecondsOverride = None\<rparr> s of
                 Inl e \<Rightarrow> (Inl e, s)
               | Inr s1 \<Rightarrow> (case reorder_group gid s1 of
                     Inl e \<Rightarrow> (Inl e, s)
                   | Inr s2 \<Rightarrow> publish gid s2)))"

definition remove_member :: "group_id \<Rightarrow> member_id \<Rightarrow> rally_sys \<Rightarrow> (rally_error + full_group) \<times> rally_sys" where
  "remove_member gid mid s =
     (case find (\<lambda>m. m_id m = mid \<and> m_groupId m = gid) (db_members s) of
        None \<Rightarrow> (Inl MemberNotFound, s)
      | Some m \<Rightarrow>
          (case reorder_group gid (s\<lparr>db_members := filter (\<lambda>m. m_id m \<noteq> mid) (db_members s)\<rparr>) of
             Inl e \<Rightarrow> (Inl e, s)
           | Inr s2 \<Rightarrow> publish gid s2))"

text \<open>
  \<open>updateMarchOverride\<close>: not inside one transaction, so a failing reorder would leave the new value.
\<close>

definition updateMarchOverride :: "member_id \<Rightarrow> int option \<Rightarrow> rally_sys \<Rightarrow> (rally_error + full_group) \<times> rally_sys" where
  "updateMarchOverride mid seconds s =
     (case find_member s mid of
        None \<Rightarrow> (Inl MemberNotFound, s)
      | Some m \<Rightarrow>
          (case find_group s (m_groupId m) of
             None \<Rightarrow> (Inl GroupNotFound, s)
           | Some g \<Rightarrow>
               if g_state g = Running then (Inl CountdownRunning, s)
               else (let s1 = s\<lparr>db_members := map (\<lambda>r. if m_id r = mid
                                 then r\<lparr>m_marchSecondsOverride := seconds\<rparr> else r) (db_members s)\<rparr>
                     in case reorder_group (m_groupId m) s1 of
                          Inl e \<Rightarrow> (Inl e, s1)
                        | Inr s2 \<Rightarrow> publish (m_groupId m) s2)))"

text \<open>
  \<open>startCountdown\<close>. The two flags say whether the two queries inside the \<open>try\<close> block succeed: the
  update of the group row and the reading of the group afterwards. The clock is read in one tick.
\<close>

definition autoReleaseMs :: "int \<Rightarrow> millis" where
  "autoReleaseMs maxMarch = COUNTDOWN_LEAD_MS + maxMarch * 1000 + RALLY_AUTO_IDLE_GRACE_SECONDS * 1000"

definition set_running :: "group_id \<Rightarrow> millis \<Rightarrow> int \<Rightarrow> ('a rally_db_scheme) \<Rightarrow> ('a rally_db_scheme)" where
  "set_running gid startedAt maxMarch =
     update_group gid (\<lambda>g. g\<lparr>g_state := Running, g_startedAtServerMs := Some startedAt,
                             g_maxMarchSeconds := Some maxMarch\<rparr>)"

definition set_idle :: "group_id \<Rightarrow> ('a rally_db_scheme) \<Rightarrow> ('a rally_db_scheme)" where
  "set_idle gid =
     update_group gid (\<lambda>g. g\<lparr>g_state := Idle, g_startedAtServerMs := None, g_maxMarchSeconds := None\<rparr>)"

definition abort_start :: "group_id \<Rightarrow> rally_sys \<Rightarrow> rally_sys" where
  "abort_start gid s = emitBusyState None (s\<lparr>rs_lock := lock_release (HRally gid) (rs_lock s)\<rparr>)"

definition startCountdown ::
    "bool \<times> bool \<Rightarrow> millis \<Rightarrow> group_id \<Rightarrow> rally_sys \<Rightarrow>
     (rally_error + full_group \<times> countdown_payload) \<times> rally_sys" where
  "startCountdown db now gid s =
     (case reorder_group gid s of
        Inl e \<Rightarrow> (Inl e, s)
      | Inr s1 \<Rightarrow>
     (case getFullGroup s1 gid of
        Inl e \<Rightarrow> (Inl e, s1)
      | Inr fg0 \<Rightarrow>
     (let (maxMarch, offs) = schedule_of (load_members s1 gid);
          (acquired, l) = tryAcquire now (Some (autoReleaseMs maxMarch)) (Some (CbRallyAutoIdle gid))
                            (HRally gid) (rs_lock s1)
      in if \<not> acquired then (Inl (BusyConflict (getHolder (rs_lock s1))), s1)
         else (let s2 = s1\<lparr>rs_lock := l\<rparr>; startedAt = now + COUNTDOWN_LEAD_MS
               in if \<not> fst db then (Inl DbFailure, abort_start gid s2)
                  else (let s3 = set_running gid startedAt maxMarch s2;
                            p = \<lparr>cp_groupId = gid, cp_startedAtServerMs = startedAt, cp_fireOffsets = offs\<rparr>;
                            s4 = emitCountdownStart p s3
                        in if \<not> snd db then (Inl DbFailure, abort_start gid s4)
                           else (case publish gid s4 of
                                   (Inl e, s5) \<Rightarrow> (Inl e, abort_start gid s5)
                                 | (Inr fg, s5) \<Rightarrow>
                                     (Inr (fg, p), emitBusyState (getHolder (rs_lock s5)) s5)))))))"

definition stopCountdown :: "group_id \<Rightarrow> rally_sys \<Rightarrow> (rally_error + unit) \<times> rally_sys" where
  "stopCountdown gid s =
     (case find_group s gid of
        None \<Rightarrow> (Inl GroupNotFound, s)
      | Some g \<Rightarrow>
          (let ownsLock = (getHolder (rs_lock s) = Some (HRally gid))
           in if \<not> ownsLock \<and> g_state g = Idle then (Inr (), s)
              else (let s1 = (if ownsLock then s\<lparr>rs_lock := lock_release (HRally gid) (rs_lock s)\<rparr> else s);
                        s2 = emitCountdownStop gid (set_idle gid s1)
                    in case publish gid s2 of
                         (Inl e, s3) \<Rightarrow> (Inl e, s3)
                       | (Inr fg, s3) \<Rightarrow> (Inr (), emitBusyState (getHolder (rs_lock s3)) s3))))"

text \<open>
  The timer of the lock: \<open>lock_fire\<close> frees the lock, then \<open>handleAutoIdle\<close> runs. The flag says whether
  the update of the group row succeeds; an error is logged and swallowed.
\<close>

definition handleAutoIdle :: "bool \<Rightarrow> group_id \<Rightarrow> rally_sys \<Rightarrow> rally_sys" where
  "handleAutoIdle db gid s =
     (if \<not> db then s
      else emitBusyState None (snd (publish gid (emitCountdownStop gid (set_idle gid s)))))"

definition rally_timer_fires :: "bool \<Rightarrow> rally_sys \<Rightarrow> rally_sys" where
  "rally_timer_fires db s =
     (let (cb, l) = lock_fire (rs_lock s); s1 = s\<lparr>rs_lock := l\<rparr>
      in case cb of Some (CbRallyAutoIdle gid) \<Rightarrow> handleAutoIdle db gid s1 | _ \<Rightarrow> s1)"

text \<open>\<open>recomputeIfRunning\<close>, which nothing calls at present.\<close>

definition recomputeIfRunning :: "millis \<Rightarrow> group_id \<Rightarrow> rally_sys \<Rightarrow> (rally_error + countdown_payload option) \<times> rally_sys" where
  "recomputeIfRunning now gid s =
     (case find_group s gid of
        None \<Rightarrow> (Inl GroupNotFound, s)
      | Some g \<Rightarrow>
          (case g_startedAtServerMs g of
             None \<Rightarrow> (Inr None, s)
           | Some startedAt \<Rightarrow>
               if g_state g \<noteq> Running then (Inr None, s)
               else (let (maxMarch, offs) = schedule_of (load_members s gid);
                         s1 = update_group gid (\<lambda>g. g\<lparr>g_maxMarchSeconds := Some maxMarch\<rparr>) s;
                         remainingMs = max 1 (startedAt + maxMarch * 1000
                                              + RALLY_AUTO_IDLE_GRACE_SECONDS * 1000 - now);
                         l = snd (reschedule now remainingMs (Some (CbRallyAutoIdle gid)) (HRally gid) (rs_lock s1));
                         p = \<lparr>cp_groupId = gid, cp_startedAtServerMs = startedAt, cp_fireOffsets = offs\<rparr>
                     in (Inr (Some p), emitCountdownStart p (s1\<lparr>rs_lock := l\<rparr>)))))"

definition reorderAllForUser :: "user_id \<Rightarrow> rally_sys \<Rightarrow> (rally_error + unit) \<times> rally_sys" where
  "reorderAllForUser userId s =
     (let groupIds = remdups (map m_groupId (filter (\<lambda>m. m_userId m = userId) (db_members s)));
          targets = map g_id (filter (\<lambda>g. g_state g \<noteq> Running)
                      (filter (\<lambda>g. g_id g \<in> set groupIds) (db_groups s)))
      in if groupIds = [] \<or> targets = [] then (Inr (), s)
         else (case reorder_groups targets s of
                 Inl e \<Rightarrow> (Inl e, s)
               | Inr s1 \<Rightarrow> publish_all targets s1))"

subsection \<open>The callers outside the service\<close>

text \<open>\<open>MeController.saveBattleSettings\<close>.\<close>

definition saveBattleSettings :: "user_id \<Rightarrow> int option \<Rightarrow> rally_sys \<Rightarrow> (rally_error + int option) \<times> rally_sys" where
  "saveBattleSettings userId marchSeconds s =
     (if (case marchSeconds of None \<Rightarrow> False | Some v \<Rightarrow> v < 1 \<or> 180 < v) then (Inl BadMarchSeconds, s)
      else (let s1 = s\<lparr>db_users := map (\<lambda>u. if u_id u = userId then u\<lparr>u_marchSeconds := marchSeconds\<rparr> else u)
                       (db_users s)\<rparr>
            in case reorderAllForUser userId s1 of
                 (Inl e, s2) \<Rightarrow> (Inl e, s2)
               | (Inr (), s2) \<Rightarrow> (Inr marchSeconds, s2)))"

text \<open>
  The removal of a user row, as \<open>AdminService.banUser\<close> does it: refused while a rally group names the
  user as its creator, otherwise the memberships go by the cascade.
\<close>

definition ban_user_row :: "user_id \<Rightarrow> rally_sys \<Rightarrow> (rally_error + unit) \<times> rally_sys" where
  "ban_user_row i s =
     (if list_ex (\<lambda>g. g_createdById g = i) (db_groups s) then (Inl ForeignKey, s)
      else (Inr (), s\<lparr>db_users := filter (\<lambda>u. u_id u \<noteq> i) (db_users s),
                      db_members := filter (\<lambda>m. m_userId m \<noteq> i) (db_members s)\<rparr>))"

text \<open>The guards of the controller.\<close>

definition ADMIN_ROLES :: "string list" where
  "ADMIN_ROLES = [''admin'', ''developer'']"

definition rally_admin_guard :: "string option \<Rightarrow> rally_error + unit" where
  "rally_admin_guard role =
     (case role of Some r \<Rightarrow> if r \<in> set ADMIN_ROLES then Inr () else Inl Forbidden | None \<Rightarrow> Inl Forbidden)"

definition rally_member_guard ::
    "(user_id \<times> string) option \<Rightarrow> group_id \<Rightarrow> member_id \<Rightarrow> ('a rally_db_scheme) \<Rightarrow> rally_error + unit" where
  "rally_member_guard user gid mid s =
     (case user of
        None \<Rightarrow> Inl Forbidden
      | Some (uid, role) \<Rightarrow>
          if gid = [] \<or> mid = [] then Inl Forbidden
          else (case getMemberUserIdInGroup s gid mid of
                  None \<Rightarrow> Inl Forbidden
                | Some owner \<Rightarrow>
                    if role \<in> set ADMIN_ROLES then Inr ()
                    else if owner \<noteq> uid then Inl Forbidden else Inr ()))"

end
