(* ===== verification/RallyOrder.thy ===== *)
theory RallyOrder
  imports RallyGroups
begin

text \<open>
  The two-phase renumbering of \<open>reorderByMarchSeconds_inner\<close>: why moving every row to a negative
  number first keeps clear of the unique key on (\<open>group_id\<close>, \<open>order_index\<close>), and what it leaves in
  the table, which is the order that \<open>sortMembersByMarchDesc\<close> computes.
\<close>

definition apply_orders :: "(member_id \<times> int) list \<Rightarrow> member_row list \<Rightarrow> member_row list" where
  "apply_orders us rows =
     map (\<lambda>m. case map_of us (m_id m) of None \<Rightarrow> m | Some k \<Rightarrow> m\<lparr>m_orderIndex := k\<rparr>) rows"

lemma apply_orders_ids [simp]: "map m_id (apply_orders us rows) = map m_id rows"
  by (simp add: apply_orders_def comp_def split: option.splits cong: map_cong)

lemma update_orders_apply:
  assumes "distinct (map fst us)" and "distinct (map snd us)" and "distinct (map m_id rows)"
    and "\<forall>m\<in>set rows. m_id m \<in> fst ` set us \<longrightarrow> m_groupId m = gid"
    and "\<forall>m\<in>set rows. m_groupId m = gid \<longrightarrow> m_orderIndex m \<notin> snd ` set us"
  shows "update_orders us rows = Inr (apply_orders us rows)"
  using assms
proof (induction us arbitrary: rows)
  case Nil
  then show ?case by (simp add: apply_orders_def)
next
  case (Cons u us)
  obtain i k where u: "u = (i, k)" by (cases u)
  let ?rows = "map (\<lambda>m'. if m_id m' = i then m'\<lparr>m_orderIndex := k\<rparr> else m') rows"
  have step: "update_order i k rows = Inr ?rows"
  proof (cases "find (\<lambda>m. m_id m = i) rows")
    case None
    then have "\<forall>m\<in>set rows. m_id m \<noteq> i" by (auto simp: find_None_iff)
    then have "?rows = rows" by (simp cong: map_cong)
    with None show ?thesis by (simp add: update_order_def)
  next
    case (Some m)
    then have "m \<in> set rows" "m_id m = i" by (auto simp: find_Some_iff)
    with Cons.prems(4) u have "m_groupId m = gid" by auto
    then have "\<not> list_ex (\<lambda>m'. m_id m' \<noteq> i \<and> m_groupId m' = m_groupId m \<and> m_orderIndex m' = k) rows"
      using Cons.prems(5) u by (auto simp: list_ex_iff)
    with Some show ?thesis by (simp add: update_order_def)
  qed
  have ids: "map m_id ?rows = map m_id rows" by (simp add: comp_def cong: map_cong)
  have "update_orders us ?rows = Inr (apply_orders us ?rows)"
  proof (rule Cons.IH)
    show "distinct (map m_id ?rows)" using Cons.prems(3) unfolding ids .
    show "distinct (map fst us)" "distinct (map snd us)" using Cons.prems(1,2) by simp_all
    show "\<forall>m\<in>set ?rows. m_id m \<in> fst ` set us \<longrightarrow> m_groupId m = gid"
      using Cons.prems(4) u by auto
    have k: "k \<notin> snd ` set us" using Cons.prems(2) u by simp
    have "\<forall>m\<in>set rows. m_groupId m = gid \<longrightarrow> m_orderIndex m \<notin> snd ` set us" using Cons.prems(5) by simp
    then show "\<forall>m\<in>set ?rows. m_groupId m = gid \<longrightarrow> m_orderIndex m \<notin> snd ` set us"
      using k by force
  qed
  moreover have "apply_orders us ?rows = apply_orders (u # us) rows"
    using Cons.prems(1) u by (auto simp: apply_orders_def map_of_eq_None_iff split: option.splits)
      (force dest: map_of_SomeD)+
  ultimately show ?case by (simp add: u step)
qed

subsection \<open>Numbering\<close>

definition number_ids :: "loaded_member list \<Rightarrow> (member_id \<times> int) list" where
  "number_ids xs = map (\<lambda>(i, m, u). (m_id m, int i + 1)) (enumerate 0 xs)"

lemma number_ids_zip:
  "number_ids xs = zip (map (m_id \<circ> fst) xs) (map (\<lambda>i. int i + 1) [0..<length xs])"
  by (rule nth_equalityI) (simp_all add: number_ids_def nth_enumerate_eq case_prod_beta)

lemma number_ids_fst [simp]: "map fst (number_ids xs) = map (m_id \<circ> fst) xs"
  by (simp add: number_ids_zip)

lemma number_ids_snd [simp]: "map snd (number_ids xs) = map (\<lambda>i. int i + 1) [0..<length xs]"
  by (simp add: number_ids_zip)

definition set_number :: "(member_id \<times> int) list \<Rightarrow> loaded_member \<Rightarrow> loaded_member" where
  "set_number us lm =
     (case map_of us (m_id (fst lm)) of None \<Rightarrow> lm | Some k \<Rightarrow> ((fst lm)\<lparr>m_orderIndex := k\<rparr>, snd lm))"

lemma renumber_set_number:
  assumes "distinct (map (m_id \<circ> fst) xs)"
  shows "renumber xs = map (set_number (number_ids xs)) xs"
proof (rule nth_equalityI)
  fix i assume "i < length (renumber xs)"
  then have i: "i < length xs" by simp
  then have "(m_id (fst (xs ! i)), int i + 1) \<in> set (number_ids xs)"
    unfolding number_ids_zip by (subst in_set_zip) (rule exI [of _ i], simp)
  moreover have "distinct (map fst (number_ids xs))" using assms by simp
  ultimately have "map_of (number_ids xs) (m_id (fst (xs ! i))) = Some (int i + 1)" by simp
  with i show "renumber xs ! i = map (set_number (number_ids xs)) xs ! i"
    by (simp add: nth_renumber set_number_def)
qed simp

lemma number_ids_renumber: "number_ids (renumber xs) = number_ids xs"
  unfolding number_ids_zip by (simp add: map_renumber [of "m_id \<circ> fst"])

subsection \<open>What the renumbering leaves\<close>

definition reorder_ready :: "group_id \<Rightarrow> ('a rally_db_scheme) \<Rightarrow> bool" where
  "reorder_ready gid s \<longleftrightarrow> distinct (map m_id (db_members s)) \<and>
     (\<forall>m\<in>set (group_members s gid). 0 < m_orderIndex m)"

definition reordered_rows :: "group_id \<Rightarrow> ('a rally_db_scheme) \<Rightarrow> member_row list" where
  "reordered_rows gid s =
     apply_orders (number_ids (sort_key march_key (load_members s gid))) (db_members s)"

lemma load_ids: "map (m_id \<circ> fst) (load_members s gid) = map m_id (group_members s gid)"
  by (simp add: load_members_def comp_def)

lemma sorted_ids_set: "fst ` set (number_ids (sort_key march_key (load_members s gid)))
    = m_id ` set (group_members s gid)"
  by (metis (no_types, lifting) load_ids number_ids_fst set_map set_sort)

lemma distinct_group_ids:
  "distinct (map m_id (db_members s)) \<Longrightarrow> distinct (map m_id (group_members s gid))"
  by (simp add: group_members_def distinct_map_filter)

lemma reorder_group_rows:
  assumes "reorder_ready gid s"
  shows "reorder_group gid s = Inr (s\<lparr>db_members := reordered_rows gid s\<rparr>)"
proof (cases "load_members s gid = []")
  case True
  then have "reordered_rows gid s = db_members s"
    by (simp add: reordered_rows_def number_ids_def apply_orders_def enumerate_eq_zip)
  with True show ?thesis by (simp add: reorder_group_def)
next
  case False
  define ms where "ms = load_members s gid"
  define temp where "temp = map (\<lambda>(i, m, u). (m_id m, - (int i + 1))) (enumerate 0 ms)"
  define fin where "fin = number_ids (sort_key march_key ms)"
  define rows where "rows = apply_orders temp (db_members s)"
  have ids: "distinct (map m_id (db_members s))" using assms by (simp add: reorder_ready_def)
  have gids: "distinct (map m_id (group_members s gid))" by (rule distinct_group_ids [OF ids])
  have lenm: "length ms = length (group_members s gid)" by (simp add: ms_def load_members_def)
  have zip: "temp = zip (map m_id (group_members s gid)) (map (\<lambda>i. - (int i + 1)) [0..<length ms])"
    by (rule nth_equalityI) (simp_all add: temp_def ms_def load_members_def nth_enumerate_eq case_prod_beta)
  have fst_temp: "map fst temp = map m_id (group_members s gid)" unfolding zip by (simp add: lenm)
  have snd_temp: "map snd temp = map (\<lambda>i. - (int i + 1)) [0..<length ms]" unfolding zip by (simp add: lenm)
  have fst_fin: "fst ` set fin = m_id ` set (group_members s gid)"
    unfolding fin_def ms_def by (rule sorted_ids_set)
  have neg: "k < 0" if "k \<in> snd ` set temp" for k
  proof -
    have "k \<in> set (map snd temp)" using that unfolding set_map .
    then show ?thesis unfolding snd_temp by auto
  qed
  have pos: "0 < k" if "k \<in> snd ` set fin" for k
  proof -
    have "k \<in> set (map snd fin)" using that unfolding set_map .
    then show ?thesis unfolding fin_def number_ids_snd by auto
  qed
  have in_gid: "m_groupId m = gid" if "m \<in> set (db_members s)" "m_id m \<in> m_id ` set (group_members s gid)" for m
    using that ids by (auto simp: group_members_def distinct_map inj_on_def)
  have ft: "fst ` set temp = m_id ` set (group_members s gid)" by (metis fst_temp set_map)
  have one: "update_orders temp (db_members s) = Inr rows"
    unfolding rows_def
  proof (rule update_orders_apply [OF _ _ ids])
    show "distinct (map fst temp)" unfolding fst_temp by (rule gids)
    show "distinct (map snd temp)" unfolding snd_temp by (simp add: distinct_map inj_on_def)
    show "\<forall>m\<in>set (db_members s). m_id m \<in> fst ` set temp \<longrightarrow> m_groupId m = gid"
      using in_gid unfolding ft by blast
    show "\<forall>m\<in>set (db_members s). m_groupId m = gid \<longrightarrow> m_orderIndex m \<notin> snd ` set temp"
      using assms neg unfolding reorder_ready_def group_members_def by fastforce
  qed
  have grp_rows: "m_orderIndex m' < 0" if m': "m' \<in> set rows" "m_groupId m' = gid" for m'
  proof -
    obtain m where m: "m \<in> set (db_members s)"
      and e: "m' = (case map_of temp (m_id m) of None \<Rightarrow> m | Some k \<Rightarrow> m\<lparr>m_orderIndex := k\<rparr>)"
      using m'(1) by (auto simp: rows_def apply_orders_def)
    then have "m_groupId m = gid" using m'(2) by (auto split: option.splits)
    then have "m_id m \<in> fst ` set temp" using m unfolding ft by (simp add: group_members_def)
    then obtain k where k: "map_of temp (m_id m) = Some k" by (auto simp: map_of_eq_None_iff dest: weak_map_of_SomeI)
    then have "k < 0" using neg [of k] map_of_SomeD [OF k] by force
    with e k show ?thesis by simp
  qed
  have two: "update_orders fin rows = Inr (apply_orders fin rows)"
  proof (rule update_orders_apply [where gid = gid])
    have "distinct (map (m_id \<circ> fst) ms)" unfolding ms_def load_ids by (rule gids)
    then have "distinct (map (m_id \<circ> fst) (sort_key march_key ms))"
      by (metis mset_eq_imp_distinct_iff mset_map mset_sort)
    then show "distinct (map fst fin)" by (simp add: fin_def)
    show "distinct (map snd fin)" unfolding fin_def number_ids_snd by (simp add: distinct_map inj_on_def)
    show "distinct (map m_id rows)" unfolding rows_def using ids by (simp only: apply_orders_ids)
    show "\<forall>m\<in>set rows. m_id m \<in> fst ` set fin \<longrightarrow> m_groupId m = gid"
      using in_gid unfolding fst_fin rows_def by (auto simp: apply_orders_def split: option.splits)
    show "\<forall>m\<in>set rows. m_groupId m = gid \<longrightarrow> m_orderIndex m \<notin> snd ` set fin"
      using grp_rows pos by (meson less_asym)
  qed
  have same: "apply_orders fin rows = reordered_rows gid s"
  proof -
    have dom: "map_of temp i = None \<longleftrightarrow> map_of fin i = None" for i
      by (simp add: map_of_eq_None_iff ft fst_fin)
    show ?thesis unfolding reordered_rows_def apply_orders_def rows_def fin_def [symmetric] ms_def [symmetric]
      by (auto split: option.splits) (metis dom option.distinct(1))+
  qed
  have fin: "map (\<lambda>(i, m, u). (m_id m, int i + 1)) (enumerate 0 (sortMembersByMarchDesc ms)) = fin"
    using number_ids_renumber [of "sort_key march_key ms"]
    by (simp add: number_ids_def sortMembersByMarchDesc_def fin_def)
  have "ms \<noteq> []" using False by (simp add: ms_def)
  then show ?thesis
    unfolding reorder_group_def Let_def ms_def [symmetric] fin temp_def [symmetric] by (simp add: one two same)
qed

lemma reordered_group_members:
  assumes "distinct (map m_id (db_members s))"
  shows "group_members (s\<lparr>db_members := reordered_rows gid s\<rparr>) g =
   (if g = gid then map (\<lambda>lm. fst (set_number (number_ids (sort_key march_key (load_members s gid))) lm))
                      (load_members s gid)
    else group_members s g)"
proof (cases "g = gid")
  case True
  have "filter (\<lambda>m. m_groupId m = gid) (apply_orders us rows)
      = map (\<lambda>m. fst (set_number us (m, find_user s (m_userId m)))) (filter (\<lambda>m. m_groupId m = gid) rows)" for us rows
    by (induction rows) (auto simp: apply_orders_def set_number_def split: option.splits)
  then show ?thesis using True by (simp add: group_members_def reordered_rows_def load_members_def)
next
  case False
  let ?us = "number_ids (sort_key march_key (load_members s gid))"
  have "filter (\<lambda>m. m_groupId m = g) (apply_orders us rows) = filter (\<lambda>m. m_groupId m = g) rows"
    if "\<forall>m\<in>set rows. m_groupId m = g \<longrightarrow> m_id m \<notin> fst ` set us" for us rows
    using that by (induction rows)
      (auto simp: apply_orders_def map_of_eq_None_iff split: option.splits, (metis fst_conv image_eqI map_of_SomeD)+)
  moreover have "\<forall>m\<in>set (db_members s). m_groupId m = g \<longrightarrow> m_id m \<notin> fst ` set ?us"
    using assms False unfolding sorted_ids_set by (auto simp: group_members_def distinct_map inj_on_def)
  ultimately show ?thesis using False by (simp add: group_members_def reordered_rows_def)
qed

lemma set_number_keeps:
  "snd (set_number us lm) = snd lm" "m_userId (fst (set_number us lm)) = m_userId (fst lm)"
  "m_id (fst (set_number us lm)) = m_id (fst lm)" "m_groupId (fst (set_number us lm)) = m_groupId (fst lm)"
  "m_marchSecondsOverride (fst (set_number us lm)) = m_marchSecondsOverride (fst lm)"
  by (simp_all add: set_number_def split: option.splits)

lemma find_user_members [simp]: "find_user (s\<lparr>db_members := r\<rparr>) i = find_user s i"
  by (simp add: find_user_def)

lemma reordered_load:
  assumes "distinct (map m_id (db_members s))"
  shows "load_members (s\<lparr>db_members := reordered_rows gid s\<rparr>) gid =
    map (set_number (number_ids (sort_key march_key (load_members s gid)))) (load_members s gid)"
  unfolding load_members_def [of "s\<lparr>db_members := reordered_rows gid s\<rparr>"]
    reordered_group_members [OF assms]
  by (auto simp: set_number_keeps load_members_def intro: prod_eqI)

lemma reordered_mset:
  assumes "distinct (map m_id (db_members s))"
  shows "mset (load_members (s\<lparr>db_members := reordered_rows gid s\<rparr>) gid)
       = mset (sortMembersByMarchDesc (load_members s gid))"
proof -
  let ?x = "sort_key march_key (load_members s gid)"
  have "distinct (map (m_id \<circ> fst) (load_members s gid))"
    unfolding load_ids by (rule distinct_group_ids [OF assms])
  then have "distinct (map (m_id \<circ> fst) ?x)" by (metis mset_eq_imp_distinct_iff mset_map mset_sort)
  then have "sortMembersByMarchDesc (load_members s gid) = map (set_number (number_ids ?x)) ?x"
    unfolding sortMembersByMarchDesc_def by (rule renumber_set_number)
  then show ?thesis unfolding reordered_load [OF assms] by simp
qed

text \<open>A group whose members carry exactly the numbers \<open>1, ..., n\<close>.\<close>

definition numbered :: "member_row list \<Rightarrow> bool" where
  "numbered ms \<longleftrightarrow> m_orderIndex ` set ms = {1..int (length ms)}"

lemma numbered_distinct: "numbered ms \<Longrightarrow> distinct (map m_orderIndex ms)"
  by (rule card_distinct) (simp add: numbered_def)

lemma numbered_mset: "mset (map m_orderIndex ms) = mset (map m_orderIndex ms') \<Longrightarrow> numbered ms = numbered ms'"
  unfolding numbered_def by (metis length_map mset_eq_length mset_eq_setD set_map)

lemma numbered_positive: "numbered ms \<Longrightarrow> m \<in> set ms \<Longrightarrow> 0 < m_orderIndex m"
  unfolding numbered_def by (metis atLeastAtMost_iff imageI zero_less_one less_le_trans)

lemma reordered_numbered:
  assumes "distinct (map m_id (db_members s))"
  shows "numbered (group_members (s\<lparr>db_members := reordered_rows gid s\<rparr>) gid)"
proof -
  let ?s = "s\<lparr>db_members := reordered_rows gid s\<rparr>"
  have "mset (map (m_orderIndex \<circ> fst) (load_members ?s gid))
      = mset (map (m_orderIndex \<circ> fst) (sortMembersByMarchDesc (load_members s gid)))"
    by (metis reordered_mset [OF assms] mset_map)
  also have "\<dots> = mset (map (\<lambda>i. int i + 1) [0..<length (load_members s gid)])"
    unfolding sortMembers_orders ..
  finally have e: "mset (map m_orderIndex (group_members ?s gid))
      = mset (map (\<lambda>i. int i + 1) [0..<length (load_members s gid)])"
    by (simp add: load_members_def comp_def)
  then have "set (map m_orderIndex (group_members ?s gid))
      = set (map (\<lambda>i. int i + 1) [0..<length (load_members s gid)])" by (rule mset_eq_setD)
  moreover have "length (group_members ?s gid) = length (load_members s gid)"
    using e by (metis length_map length_upt mset_eq_length diff_zero)
  ultimately show ?thesis by (simp add: numbered_def image_int_succ)
qed

end
