(* ===== verification/RallyRules.thy ===== *)
theory RallyRules
  imports RallyOrder
begin

text \<open>
  The invariant of the rally subsystem and the operations that keep it: the members of every group
  carry the numbers \<open>1, ..., n\<close>, the groups the display numbers \<open>1, ..., N\<close> with the matching names,
  and a group is running only while it holds the lock. From it follow the results of the operations
  a client sees: no renumbering ever meets the unique key, and no two groups run at once.
\<close>

definition members_base :: "('a rally_db_scheme) \<Rightarrow> bool" where
  "members_base s \<longleftrightarrow> distinct (map m_id (db_members s)) \<and>
     (\<forall>m\<in>set (db_members s). find_group s (m_groupId m) \<noteq> None \<and> find_user s (m_userId m) \<noteq> None) \<and>
     (\<forall>gid. distinct (map m_userId (group_members s gid)) \<and> length (group_members s gid) \<le> MAX_GROUP_MEMBERS)"

definition members_ok :: "('a rally_db_scheme) \<Rightarrow> bool" where
  "members_ok s \<longleftrightarrow> members_base s \<and> (\<forall>gid. numbered (group_members s gid))"

text \<open>All but one group are in order, and that one has positive numbers.\<close>

definition members_almost :: "group_id \<Rightarrow> ('a rally_db_scheme) \<Rightarrow> bool" where
  "members_almost gid s \<longleftrightarrow> members_base s \<and> (\<forall>g. g \<noteq> gid \<longrightarrow> numbered (group_members s g)) \<and>
     (\<forall>m\<in>set (group_members s gid). 0 < m_orderIndex m)"

lemma members_ok_almost: "members_ok s \<Longrightarrow> members_almost gid s"
  using numbered_positive by (auto simp: members_ok_def members_almost_def)

lemma reordered_base:
  assumes "members_base s"
  shows "members_base (s\<lparr>db_members := reordered_rows gid s\<rparr>)"
proof -
  let ?us = "number_ids (sort_key march_key (load_members s gid))"
  have d: "distinct (map m_id (db_members s))" using assms by (simp add: members_base_def)
  have users: "map m_userId (group_members (s\<lparr>db_members := reordered_rows gid s\<rparr>) g) = map m_userId (group_members s g)" for g
    by (simp add: reordered_group_members [OF d] set_number_keeps load_members_def)
  have row: "\<exists>m'\<in>set (db_members s). m_groupId m' = m_groupId m \<and> m_userId m' = m_userId m"
    if "m \<in> set (reordered_rows gid s)" for m
    using that by (force simp: reordered_rows_def apply_orders_def split: option.splits)
  have "find_group s (m_groupId m) \<noteq> None \<and> find_user s (m_userId m) \<noteq> None" if "m \<in> set (reordered_rows gid s)" for m
    using row [OF that] assms by (auto simp: members_base_def)
  moreover have "distinct (map m_id (reordered_rows gid s))" using d by (simp add: reordered_rows_def)
  moreover have "distinct (map m_userId (group_members (s\<lparr>db_members := reordered_rows gid s\<rparr>) g)) \<and>
      length (group_members (s\<lparr>db_members := reordered_rows gid s\<rparr>) g) \<le> MAX_GROUP_MEMBERS" for g
    using assms users [of g] unfolding members_base_def by (metis length_map)
  ultimately show ?thesis by (simp add: members_base_def find_group_def find_user_def)
qed

lemma reorder_group_restores:
  assumes "members_almost gid s"
  shows "reorder_group gid s = Inr (s\<lparr>db_members := reordered_rows gid s\<rparr>)"
    and "members_ok (s\<lparr>db_members := reordered_rows gid s\<rparr>)"
proof -
  have d: "distinct (map m_id (db_members s))" using assms by (simp add: members_almost_def members_base_def)
  show "reorder_group gid s = Inr (s\<lparr>db_members := reordered_rows gid s\<rparr>)"
    by (rule reorder_group_rows) (use assms d in \<open>simp add: reorder_ready_def members_almost_def\<close>)
  have "numbered (group_members (s\<lparr>db_members := reordered_rows gid s\<rparr>) g)" for g
  proof (cases "g = gid")
    case True
    then show ?thesis using reordered_numbered [OF d] by simp
  next
    case False
    then show ?thesis using assms by (simp add: reordered_group_members [OF d] members_almost_def)
  qed
  then show "members_ok (s\<lparr>db_members := reordered_rows gid s\<rparr>)"
    using reordered_base [of s gid] assms by (simp add: members_ok_def members_almost_def)
qed

definition groups_ok :: "('a rally_db_scheme) \<Rightarrow> bool" where
  "groups_ok s \<longleftrightarrow> distinct (map g_id (db_groups s)) \<and> length (db_groups s) \<le> MAX_GROUPS \<and>
     g_displayOrder ` set (db_groups s) = {1..int (length (db_groups s))} \<and>
     (\<forall>g\<in>set (db_groups s). g_name g = formatGroupName (g_displayOrder g))"

definition lock_bound :: "busy_lock \<Rightarrow> bool" where
  "lock_bound l \<longleftrightarrow> lock_ok l \<and>
     (case holder l of
        None \<Rightarrow> True
      | Some HCountdown \<Rightarrow> (case lock_timer l of Some (due, Some (CbRallyAutoIdle g)) \<Rightarrow> False | _ \<Rightarrow> True)
      | Some (HRally g) \<Rightarrow> \<exists>due. lock_timer l = Some (due, Some (CbRallyAutoIdle g)))"

definition running_held :: "rally_sys \<Rightarrow> bool" where
  "running_held s \<longleftrightarrow>
     (\<forall>g\<in>set (db_groups s). g_state g = Running \<longrightarrow> holder (rs_lock s) = Some (HRally (g_id g)))"

definition rally_inv :: "rally_sys \<Rightarrow> bool" where
  "rally_inv s \<longleftrightarrow> groups_ok s \<and> members_ok s \<and> lock_bound (rs_lock s) \<and> running_held s"

subsection \<open>What publishing leaves alone\<close>

definition core :: "rally_sys \<Rightarrow> user_row list \<times> group_row list \<times> member_row list \<times> busy_lock" where
  "core s = (db_users s, db_groups s, db_members s, rs_lock s)"

lemma find_core: "core s = core s' \<Longrightarrow> find_user s i = find_user s' i \<and> find_group s g = find_group s' g
    \<and> group_members s g = group_members s' g"
  by (simp add: core_def find_user_def find_group_def group_members_def)

lemma rally_inv_core: "core s = core s' \<Longrightarrow> rally_inv s = rally_inv s'"
  by (simp add: rally_inv_def groups_ok_def members_ok_def members_base_def running_held_def core_def
      find_user_def find_group_def group_members_def)

lemma core_emit [simp]:
  "core (emit ev s) = core s" "core (emitGroupUpdated fg s) = core s"
  "core (emitCountdownStart p s) = core s" "core (emitCountdownStop gid s) = core s"
  "core (emitGroupRemoved gid s) = core s" "core (emitBusyState h s) = core s"
  by (simp_all add: core_def emit_def emitGroupUpdated_def emitCountdownStart_def emitCountdownStop_def
      emitGroupRemoved_def emitBusyState_def)

lemma core_publish [simp]: "core (snd (publish gid s)) = core s"
  by (simp add: publish_def split: sum.splits)

lemma core_publish_all [simp]: "core (snd (publish_all gs s)) = core s"
proof (induction gs arbitrary: s)
  case (Cons g gs)
  then show ?case using core_publish [of g s] by (cases "publish g s") (auto split: sum.splits)
qed simp

lemma core_publish_eq: "publish gid s = (r, s') \<Longrightarrow> core s' = core s"
  by (metis core_publish snd_conv)

lemma core_publish_all_eq: "publish_all gs s = (r, s') \<Longrightarrow> core s' = core s"
  by (metis core_publish_all snd_conv)

lemma core_collect: "core (snd (collectLiveSnapshots now s)) = core s"
proof -
  have "core (fold (\<lambda>(gid, p) s. s\<lparr>runningCountdowns := AList.delete gid (runningCountdowns s),
                            runningGroups := AList.delete gid (runningGroups s)\<rparr>) xs s) = core s"
    for xs :: "(group_id \<times> countdown_payload) list" and s
    by (induction xs arbitrary: s) (auto simp: core_def)
  then show ?thesis by (simp add: collectLiveSnapshots_def)
qed

lemma publish_found: "find_group s gid = Some g \<Longrightarrow> fst (publish gid s) = Inr (sanitizeGroup s g)"
  by (simp add: publish_def getFullGroup_def)

end
