(* ===== verification/RallyMembers.thy ===== *)
theory RallyMembers
  imports RallyRules
begin

text \<open>
  The operations on the members of a group keep \<open>rally_inv\<close>: adding, removing and overriding a march
  time always end in a renumbering that succeeds.
\<close>

lemma find_group_Some: "find_group s i = Some g \<Longrightarrow> g \<in> set (db_groups s) \<and> g_id g = i"
  by (auto simp: find_group_def find_Some_iff)

lemma find_group_None: "find_group s i = None \<longleftrightarrow> i \<notin> g_id ` set (db_groups s)"
  by (auto simp: find_group_def find_None_iff)

lemma find_user_None: "find_user s i = None \<longleftrightarrow> i \<notin> u_id ` set (db_users s)"
  by (auto simp: find_user_def find_None_iff)

lemma members_base_frame:
  assumes "members_base s" and "g_id ` set (db_groups s) \<subseteq> g_id ` set (db_groups s')"
    and "u_id ` set (db_users s) \<subseteq> u_id ` set (db_users s')" and "db_members s' = db_members s"
  shows "members_base s'"
  using assms by (auto simp: members_base_def find_group_None find_user_None group_members_def)

lemma members_ok_frame:
  assumes "members_ok s" and "g_id ` set (db_groups s) \<subseteq> g_id ` set (db_groups s')"
    and "u_id ` set (db_users s) \<subseteq> u_id ` set (db_users s')" and "db_members s' = db_members s"
  shows "members_ok s'"
  using assms members_base_frame [OF _ assms(2-4)] by (simp add: members_ok_def group_members_def)

lemma update_group_ids: "(\<And>g. g_id (f g) = g_id g) \<Longrightarrow> map g_id (db_groups (update_group i f s)) = map g_id (db_groups s)"
  by (simp add: update_group_def comp_def cong: map_cong)

lemma groups_ok_update:
  assumes "groups_ok s" and "\<And>g. g_id (f g) = g_id g \<and> g_displayOrder (f g) = g_displayOrder g \<and> g_name (f g) = g_name g"
  shows "groups_ok (update_group i f s)"
proof -
  have "map g_id (db_groups (update_group i f s)) = map g_id (db_groups s)"
    by (rule update_group_ids) (simp add: assms(2))
  moreover have "map g_displayOrder (db_groups (update_group i f s)) = map g_displayOrder (db_groups s)"
    by (simp add: update_group_def comp_def assms(2) cong: map_cong)
  moreover have "g_name g = formatGroupName (g_displayOrder g)" if "g \<in> set (db_groups (update_group i f s))" for g
    using that assms by (auto simp: update_group_def groups_ok_def)
  ultimately show ?thesis using assms(1) unfolding groups_ok_def by (metis length_map set_map)
qed

lemma update_group_members [simp]: "db_members (update_group i f s) = db_members s"
  "db_users (update_group i f s) = db_users s" "rs_lock (update_group i f s') = rs_lock s'"
  by (simp_all add: update_group_def)

lemma members_ok_update:
  assumes "members_ok s" and "\<And>g. g_id (f g) = g_id g"
  shows "members_ok (update_group i f s)"
  by (rule members_ok_frame [OF assms(1)])
     (use update_group_ids [of f i s, OF assms(2)] in \<open>simp_all flip: set_map\<close>)

lemma running_held_update:
  assumes "running_held s" and "\<And>g. g_id (f g) = g_id g \<and> (g_state (f g) = Running \<longrightarrow> g_state g = Running)"
  shows "running_held (update_group i f s)"
  using assms by (auto simp: running_held_def update_group_def)

lemma running_held_rows: "running_held (s\<lparr>db_members := r\<rparr>) = running_held s"
  by (simp add: running_held_def)

lemma groups_ok_rows: "groups_ok (s\<lparr>db_members := r\<rparr>) = groups_ok s"
  by (simp add: groups_ok_def)

lemma rally_inv_rows: "rally_inv s \<Longrightarrow> members_ok (s\<lparr>db_members := r\<rparr>) \<Longrightarrow> rally_inv (s\<lparr>db_members := r\<rparr>)"
  by (simp add: rally_inv_def running_held_rows groups_ok_rows)

lemma rally_inv_reorder:
  assumes "rally_inv s" and "members_almost gid (s\<lparr>db_members := r\<rparr>)"
  shows "\<exists>rows. reorder_group gid (s\<lparr>db_members := r\<rparr>) = Inr (s\<lparr>db_members := rows\<rparr>)
     \<and> rally_inv (s\<lparr>db_members := rows\<rparr>)"
proof -
  let ?s = "s\<lparr>db_members := r\<rparr>"
  have "reorder_group gid ?s = Inr (s\<lparr>db_members := reordered_rows gid ?s\<rparr>)"
    using reorder_group_restores(1) [OF assms(2)] by simp
  moreover have "members_ok (s\<lparr>db_members := reordered_rows gid ?s\<rparr>)"
    using reorder_group_restores(2) [OF assms(2)] by simp
  ultimately show ?thesis using rally_inv_rows [OF assms(1)] by blast
qed

lemma rally_inv_reorder_self:
  assumes "rally_inv s"
  shows "\<exists>rows. reorder_group gid s = Inr (s\<lparr>db_members := rows\<rparr>) \<and> rally_inv (s\<lparr>db_members := rows\<rparr>)"
  using rally_inv_reorder [of s gid "db_members s"] assms
  by (simp add: rally_inv_def members_ok_almost)

subsection \<open>Members\<close>

lemma add_member_almost:
  assumes "members_ok s" and "length (group_members s gid) < MAX_GROUP_MEMBERS"
    and "\<not> list_ex (\<lambda>m. m_userId m = userId) (group_members s gid)"
    and "find_group s gid \<noteq> None" and "find_user s userId \<noteq> None"
    and "newId \<notin> m_id ` set (db_members s)"
  defines "m \<equiv> \<lparr>m_id = newId, m_groupId = gid, m_userId = userId,
      m_orderIndex = int (length (group_members s gid)) + 1, m_marchSecondsOverride = None\<rparr>"
  shows "insert_member m s = Inr (s\<lparr>db_members := db_members s @ [m]\<rparr>)"
    and "members_almost gid (s\<lparr>db_members := db_members s @ [m]\<rparr>)"
proof -
  let ?s = "s\<lparr>db_members := db_members s @ [m]\<rparr>"
  have c: "numbered (group_members s gid)" using assms(1) by (simp add: members_ok_def)
  have "m_orderIndex m' \<le> int (length (group_members s gid))" if "m' \<in> set (group_members s gid)" for m'
  proof -
    have "m_orderIndex m' \<in> {1..int (length (group_members s gid))}"
      using c that unfolding numbered_def by (metis imageI)
    then show ?thesis by simp
  qed
  then have order: "\<forall>m'\<in>set (db_members s). m_groupId m' = gid \<longrightarrow> m_orderIndex m' \<noteq> m_orderIndex m"
    by (fastforce simp: m_def group_members_def)
  have user: "\<forall>m'\<in>set (db_members s). m_groupId m' = gid \<longrightarrow> m_userId m' \<noteq> userId"
    using assms(3) by (auto simp: list_ex_iff group_members_def)
  show "insert_member m s = Inr (s\<lparr>db_members := db_members s @ [m]\<rparr>)"
    using assms(4-6) order user by (auto simp: insert_member_def m_def list_ex_iff)
  have mf: "m_id m = newId" "m_groupId m = gid" "m_userId m = userId" "0 < m_orderIndex m" by (simp_all add: m_def)
  have gm: "group_members ?s g = (if g = gid then group_members s gid @ [m] else group_members s g)" for g
    by (simp add: group_members_def m_def)
  have "m_userId m \<notin> m_userId ` set (group_members s gid)" using user by (auto simp: group_members_def mf)
  moreover have "find_group ?s = find_group s" "find_user ?s = find_user s"
    by (simp_all add: find_group_def find_user_def fun_eq_iff)
  ultimately have "members_base ?s"
    using assms(1,2,4,5,6) by (auto simp: members_ok_def members_base_def gm mf)
  moreover have "\<forall>m'\<in>set (group_members s gid). 0 < m_orderIndex m'" using numbered_positive [OF c] by blast
  ultimately show "members_almost gid ?s"
    using assms(1) by (auto simp: members_almost_def members_ok_def gm mf)
qed

lemma add_member_succeeds:
  assumes "rally_inv s" and "length (group_members s gid) < MAX_GROUP_MEMBERS"
    and "\<not> list_ex (\<lambda>m. m_userId m = userId) (group_members s gid)"
    and "find_group s gid \<noteq> None" and "find_user s userId \<noteq> None"
    and "newId \<notin> m_id ` set (db_members s)"
  shows "\<exists>fg s'. add_member gid userId newId s = (Inr fg, s') \<and> rally_inv s'"
proof -
  let ?m = "\<lparr>m_id = newId, m_groupId = gid, m_userId = userId,
      m_orderIndex = int (length (group_members s gid)) + 1, m_marchSecondsOverride = None\<rparr>"
  have mo: "members_ok s" using assms(1) by (simp add: rally_inv_def)
  note add = add_member_almost [OF mo assms(2-6)]
  obtain rows where r: "reorder_group gid (s\<lparr>db_members := db_members s @ [?m]\<rparr>) = Inr (s\<lparr>db_members := rows\<rparr>)"
    "rally_inv (s\<lparr>db_members := rows\<rparr>)" using rally_inv_reorder [OF assms(1) add(2)] by blast
  obtain g where "find_group (s\<lparr>db_members := rows\<rparr>) gid = Some g"
    using assms(4) by (auto simp: find_group_def)
  then have p: "fst (publish gid (s\<lparr>db_members := rows\<rparr>)) = Inr (sanitizeGroup (s\<lparr>db_members := rows\<rparr>) g)"
    by (rule publish_found)
  have "add_member gid userId newId s = publish gid (s\<lparr>db_members := rows\<rparr>)"
    using assms(2,3) add(1) r(1) by (simp add: add_member_def Let_def)
  moreover have "rally_inv (snd (publish gid (s\<lparr>db_members := rows\<rparr>)))"
    using r(2) rally_inv_core [OF core_publish] by blast
  ultimately show ?thesis using p by (metis prod.collapse)
qed

lemma add_member_inv:
  assumes "rally_inv s"
  shows "rally_inv (snd (add_member gid userId newId s))"
proof (cases "MAX_GROUP_MEMBERS \<le> length (group_members s gid) \<or>
    list_ex (\<lambda>m. m_userId m = userId) (group_members s gid) \<or>
    find_group s gid = None \<or> find_user s userId = None \<or> newId \<in> m_id ` set (db_members s)")
  case True
  then show ?thesis using assms by (auto simp: add_member_def Let_def insert_member_def list_ex_iff)
next
  case False
  then show ?thesis using add_member_succeeds [OF assms, of gid userId newId] by (metis not_le snd_conv)
qed

lemma remove_member_almost:
  assumes "members_ok s"
    and own: "\<forall>m\<in>set (db_members s). m_id m = mid \<longrightarrow> m_groupId m = gid"
  shows "members_almost gid (s\<lparr>db_members := filter (\<lambda>m. m_id m \<noteq> mid) (db_members s)\<rparr>)"
proof -
  let ?s = "s\<lparr>db_members := filter (\<lambda>m. m_id m \<noteq> mid) (db_members s)\<rparr>"
  have b: "members_base s" and c: "\<And>g. numbered (group_members s g)" using assms by (simp_all add: members_ok_def)
  have gm: "group_members ?s g = filter (\<lambda>m. m_id m \<noteq> mid) (group_members s g)" for g
    by (simp add: group_members_def conj_commute)
  have fu: "find_group ?s = find_group s" "find_user ?s = find_user s"
    by (simp_all add: find_group_def find_user_def fun_eq_iff)
  have "length (filter (\<lambda>m. m_id m \<noteq> mid) (group_members s g)) \<le> MAX_GROUP_MEMBERS" for g
    using b unfolding members_base_def by (meson length_filter_le le_trans)
  then have "members_base ?s"
    using b by (simp add: members_base_def gm fu distinct_map_filter)
  moreover have "group_members ?s g = group_members s g" if "g \<noteq> gid" for g
    unfolding gm by (rule filter_True) (use that own in \<open>auto simp: group_members_def\<close>)
  ultimately show ?thesis
    using c numbered_positive [OF c [of gid]] by (auto simp: members_almost_def gm)
qed

lemma remove_member_succeeds:
  assumes "rally_inv s" and "m \<in> set (db_members s)" and "m_id m = mid" and "m_groupId m = gid"
  shows "\<exists>fg s'. remove_member gid mid s = (Inr fg, s') \<and> rally_inv s'"
proof -
  have mo: "members_ok s" and d: "distinct (map m_id (db_members s))"
    using assms(1) by (simp_all add: rally_inv_def members_ok_def members_base_def)
  have own: "\<forall>m\<in>set (db_members s). m_id m = mid \<longrightarrow> m_groupId m = gid"
    using d assms(2-4) by (auto simp: distinct_map inj_on_def)
  obtain m' where f: "find (\<lambda>m. m_id m = mid \<and> m_groupId m = gid) (db_members s) = Some m'"
    using assms(2-4) by (metis (mono_tags, lifting) find_None_iff not_None_eq)
  obtain rows where r: "reorder_group gid (s\<lparr>db_members := filter (\<lambda>m. m_id m \<noteq> mid) (db_members s)\<rparr>)
      = Inr (s\<lparr>db_members := rows\<rparr>)" "rally_inv (s\<lparr>db_members := rows\<rparr>)"
    using rally_inv_reorder [OF assms(1) remove_member_almost [OF mo own]] by blast
  have "find_group s gid \<noteq> None" using mo assms(2,4) by (auto simp: members_ok_def members_base_def)
  then obtain g where "find_group (s\<lparr>db_members := rows\<rparr>) gid = Some g" by (auto simp: find_group_def)
  then have "fst (publish gid (s\<lparr>db_members := rows\<rparr>)) = Inr (sanitizeGroup (s\<lparr>db_members := rows\<rparr>) g)"
    by (rule publish_found)
  moreover have "remove_member gid mid s = publish gid (s\<lparr>db_members := rows\<rparr>)"
    by (simp add: remove_member_def f r(1))
  moreover have "rally_inv (snd (publish gid (s\<lparr>db_members := rows\<rparr>)))"
    using r(2) rally_inv_core [OF core_publish] by blast
  ultimately show ?thesis by (metis prod.collapse)
qed

lemma remove_member_inv:
  assumes "rally_inv s"
  shows "rally_inv (snd (remove_member gid mid s))"
proof (cases "find (\<lambda>m. m_id m = mid \<and> m_groupId m = gid) (db_members s)")
  case None
  then show ?thesis using assms by (simp add: remove_member_def)
next
  case (Some m)
  then show ?thesis using remove_member_succeeds [OF assms, of m mid gid]
    by (metis (mono_tags, lifting) find_Some_iff nth_mem snd_conv)
qed

lemma override_almost:
  assumes "members_ok s"
  shows "members_ok (s\<lparr>db_members := map (\<lambda>r. if m_id r = mid then r\<lparr>m_marchSecondsOverride := v\<rparr> else r) (db_members s)\<rparr>)"
proof -
  let ?f = "\<lambda>r. if m_id r = mid then r\<lparr>m_marchSecondsOverride := v\<rparr> else r"
  let ?s = "s\<lparr>db_members := map ?f (db_members s)\<rparr>"
  have gm: "group_members ?s g = map ?f (group_members s g)" for g
  proof -
    have "filter (\<lambda>m. m_groupId m = g) (map ?f xs) = map ?f (filter (\<lambda>m. m_groupId m = g) xs)" for xs
      by (induction xs) auto
    then show ?thesis by (simp add: group_members_def)
  qed
  have k: "map h (map ?f xs) = map h xs" if "\<And>r. h (r\<lparr>m_marchSecondsOverride := v\<rparr>) = h r"
    for h :: "member_row \<Rightarrow> 'z" and xs :: "member_row list"
    by (simp add: that)
  have fu: "find_group ?s = find_group s" "find_user ?s = find_user s"
    by (simp_all add: find_group_def find_user_def fun_eq_iff)
  have "m_orderIndex ` set (map ?f xs) = m_orderIndex ` set xs" for xs :: "member_row list"
    unfolding set_map [symmetric] by (subst k) simp_all
  then have "numbered (group_members ?s g)" for g
    using assms by (simp add: members_ok_def numbered_def gm)
  moreover have "map m_id (map ?f (db_members s)) = map m_id (db_members s)" by (rule k) simp
  moreover have "map m_userId (map ?f xs) = map m_userId xs" for xs :: "member_row list"
    by (rule k) simp
  ultimately show ?thesis using assms
    by (auto simp: members_ok_def members_base_def gm fu simp del: map_map)
qed

lemma override_inv:
  assumes "rally_inv s"
  shows "rally_inv (snd (updateMarchOverride mid v s))"
proof -
  let ?r = "map (\<lambda>r. if m_id r = mid then r\<lparr>m_marchSecondsOverride := v\<rparr> else r) (db_members s)"
  have "\<exists>rows. reorder_group gid (s\<lparr>db_members := ?r\<rparr>) = Inr (s\<lparr>db_members := rows\<rparr>)
      \<and> rally_inv (s\<lparr>db_members := rows\<rparr>)" for gid
    by (rule rally_inv_reorder [OF assms])
       (use assms override_almost [of s mid v] in \<open>simp add: rally_inv_def members_ok_almost\<close>)
  then obtain rows where "\<And>gid. reorder_group gid (s\<lparr>db_members := ?r\<rparr>) = Inr (s\<lparr>db_members := rows gid\<rparr>)"
    "\<And>gid. rally_inv (s\<lparr>db_members := rows gid\<rparr>)" by metis
  then show ?thesis using assms rally_inv_core [OF core_publish]
    by (auto simp: updateMarchOverride_def Let_def split: option.splits)
qed

end
