(* ===== verification/RallyReach.thy ===== *)
theory RallyReach
  imports RallyMembers
begin

text \<open>
  The operations on groups and countdowns keep \<open>rally_inv\<close>; the step relation interleaves all of them
  with the lock operations of the realtime countdown, and its reachable states satisfy the invariant.
\<close>

subsection \<open>Groups\<close>

lemma create_inv:
  assumes "rally_inv s"
  shows "rally_inv (snd (create_group userId b newId s))"
proof (cases "MAX_GROUPS \<le> length (db_groups s) \<or> find_user s userId = None \<or> find_group s newId \<noteq> None")
  case True
  then show ?thesis using assms by (auto simp: create_group_def Let_def)
next
  case False
  let ?n = "int (length (db_groups s)) + 1"
  define g where "g = \<lparr>g_id = newId, g_name = formatGroupName ?n, g_displayOrder = ?n, g_createdById = userId,
      g_broadcastAll = (case b of None \<Rightarrow> False | Some b \<Rightarrow> b), g_state = Idle, g_startedAtServerMs = None,
      g_maxMarchSeconds = None\<rparr>"
  have gf: "g_id g = newId" "g_displayOrder g = ?n" "g_name g = formatGroupName ?n" "g_state g = Idle"
    by (simp_all add: g_def)
  let ?s = "s\<lparr>db_groups := db_groups s @ [g]\<rparr>"
  have "newId \<notin> g_id ` set (db_groups s)" using False by (simp add: find_group_None)
  moreover have "insert (int n + 1) {1..int n} = {1..int n + 1}" for n by auto
  ultimately have "groups_ok ?s"
    using assms False by (auto simp: rally_inv_def groups_ok_def gf)
  moreover have "members_ok ?s"
    by (rule members_ok_frame [of s]) (use assms in \<open>auto simp: rally_inv_def\<close>)
  ultimately have "rally_inv ?s" using assms by (auto simp: rally_inv_def running_held_def gf)
  moreover have "create_group userId b newId s = publish newId ?s"
    using False by (auto simp: create_group_def Let_def g_def)
  ultimately show ?thesis using rally_inv_core [OF core_publish] by simp
qed

text \<open>The effect of the renumbering loop of \<open>remove\<close>.\<close>

definition lowered :: "int \<Rightarrow> group_row \<Rightarrow> group_row" where
  "lowered d r = (if d < g_displayOrder r
     then r\<lparr>g_displayOrder := g_displayOrder r - 1, g_name := formatGroupName (g_displayOrder r - 1)\<rparr> else r)"

lemma renumber_fold:
  "distinct (map g_id tail) \<Longrightarrow>
   fold renumber_one tail s = s\<lparr>db_groups :=
     map (\<lambda>r. case map_of (map (\<lambda>g. (g_id g, g)) tail) (g_id r) of
       None \<Rightarrow> r
     | Some g \<Rightarrow> r\<lparr>g_displayOrder := g_displayOrder g - 1, g_name := formatGroupName (g_displayOrder g - 1)\<rparr>)
       (db_groups s)\<rparr>"
proof (induction tail arbitrary: s)
  case (Cons g tail)
  have "map_of (map (\<lambda>g. (g_id g, g)) tail) (g_id g) = None"
    using Cons.prems by (auto simp: map_of_eq_None_iff)
  with Cons show ?case by (auto simp: renumber_one_def update_group_def split: option.splits)
qed simp

lemma renumber_fold_lowered:
  assumes "distinct (map g_id (db_groups s))"
  shows "fold renumber_one (sort_key g_displayOrder (filter (\<lambda>r. d < g_displayOrder r) (db_groups s))) s
       = s\<lparr>db_groups := map (lowered d) (db_groups s)\<rparr>"
proof -
  define t where "t = sort_key g_displayOrder (filter (\<lambda>r. d < g_displayOrder r) (db_groups s))"
  have st: "set t = {r \<in> set (db_groups s). d < g_displayOrder r}" by (simp add: t_def)
  have "mset (map g_id t) = mset (map g_id (filter (\<lambda>r. d < g_displayOrder r) (db_groups s)))"
    by (simp add: t_def)
  then have dt: "distinct (map g_id t)"
    using distinct_map_filter [OF assms] mset_eq_imp_distinct_iff by blast
  have look: "map_of (map (\<lambda>g. (g_id g, g)) t) (g_id r) = (if d < g_displayOrder r then Some r else None)"
    if r: "r \<in> set (db_groups s)" for r
  proof (cases "d < g_displayOrder r")
    case True
    then have "(g_id r, r) \<in> set (map (\<lambda>g. (g_id g, g)) t)" using r st by simp
    moreover have "distinct (map fst (map (\<lambda>g. (g_id g, g)) t))" using dt by (simp add: comp_def)
    ultimately have "map_of (map (\<lambda>g. (g_id g, g)) t) (g_id r) = Some r" by (intro map_of_is_SomeI)
    with True show ?thesis by simp
  next
    case False
    have "g_id x \<noteq> g_id r" if "x \<in> set t" for x
      using that st r False distinct_map_eqD [OF assms, of x r] by auto
    then have "g_id r \<notin> fst ` set (map (\<lambda>g. (g_id g, g)) t)" by force
    then have "map_of (map (\<lambda>g. (g_id g, g)) t) (g_id r) = None" unfolding map_of_eq_None_iff .
    with False show ?thesis by simp
  qed
  have "fold renumber_one t s = s\<lparr>db_groups := map (lowered d) (db_groups s)\<rparr>"
    unfolding renumber_fold [OF dt] by (simp add: look lowered_def cong: map_cong)
  then show ?thesis by (simp add: t_def)
qed

lemma lowered_range:
  assumes "d \<in> {1..n::int}"
  shows "(\<lambda>x. if d < x then x - 1 else x) ` ({1..n} - {d}) = {1..n - 1}"
proof
  show "(\<lambda>x. if d < x then x - 1 else x) ` ({1..n} - {d}) \<subseteq> {1..n - 1}" using assms by auto
  show "{1..n - 1} \<subseteq> (\<lambda>x. if d < x then x - 1 else x) ` ({1..n} - {d})"
  proof
    fix y assume y: "y \<in> {1..n - 1}"
    show "y \<in> (\<lambda>x. if d < x then x - 1 else x) ` ({1..n} - {d})"
    proof (cases "y < d")
      case True
      then show ?thesis using y assms by (intro image_eqI [of _ _ y]) auto
    next
      case False
      then show ?thesis using y assms by (intro image_eqI [of _ _ "y + 1"]) auto
    qed
  qed
qed

lemma groups_distinct_orders:
  "groups_ok s \<Longrightarrow> distinct (map g_displayOrder (db_groups s))"
  by (rule card_distinct) (simp add: groups_ok_def)

lemma filter_out_length:
  "distinct (map f xs) \<Longrightarrow> x \<in> set xs \<Longrightarrow> length (filter (\<lambda>y. f y \<noteq> f x) xs) = length xs - 1"
proof (induction xs)
  case (Cons a xs)
  show ?case
  proof (cases "a = x")
    case True
    then have "filter (\<lambda>y. f y \<noteq> f x) xs = xs" using Cons.prems by (intro filter_True) (auto simp: image_iff)
    with True show ?thesis by simp
  next
    case False
    then have "x \<in> set xs" "f a \<noteq> f x" using Cons.prems by auto
    moreover from \<open>x \<in> set xs\<close> have "0 < length xs" by (cases xs) auto
    ultimately show ?thesis using Cons by simp
  qed
qed simp

lemma remove_groups_ok:
  assumes ok: "groups_ok s" and g: "g \<in> set (db_groups s)" and i: "g_id g = i"
  shows "groups_ok (s\<lparr>db_groups := map (lowered (g_displayOrder g)) (filter (\<lambda>r. g_id r \<noteq> i) (db_groups s)),
    db_members := ms\<rparr>)"
proof -
  let ?d = "g_displayOrder g" and ?n = "int (length (db_groups s))"
  let ?rest = "filter (\<lambda>r. g_id r \<noteq> i) (db_groups s)"
  have di: "distinct (map g_id (db_groups s))" and all: "g_displayOrder ` set (db_groups s) = {1..?n}"
    using ok by (auto simp: groups_ok_def)
  have len: "length ?rest = length (db_groups s) - 1"
    using filter_out_length [OF di g] i by simp
  have pos: "0 < length (db_groups s)" using g by (cases "db_groups s") auto
  have "r = g" if "r \<in> set (db_groups s)" "g_displayOrder r = ?d" for r
    using groups_distinct_orders [OF ok] that g by (auto simp: distinct_map inj_on_def)
  then have "g_displayOrder ` set ?rest = {1..?n} - {?d}"
    unfolding all [symmetric] using di g i by (auto simp: distinct_map inj_on_def)
  moreover have "?d \<in> {1..?n}" using all g by (metis imageI)
  moreover have "g_displayOrder (lowered ?d r) = (if ?d < g_displayOrder r then g_displayOrder r - 1 else g_displayOrder r)" for r
    by (simp add: lowered_def)
  ultimately have "g_displayOrder ` set (map (lowered ?d) ?rest) = {1..?n - 1}"
    using lowered_range [of ?d ?n] by (simp only: set_map image_image) (metis (no_types, lifting) image_cong image_image)
  moreover have "map g_id (map (lowered ?d) ?rest) = map g_id ?rest"
    by (simp add: lowered_def comp_def cong: map_cong)
  moreover have "distinct (map g_id ?rest)" using di by (simp add: distinct_map_filter)
  moreover have "\<forall>r\<in>set (map (lowered ?d) ?rest). g_name r = formatGroupName (g_displayOrder r)"
    using ok by (auto simp: groups_ok_def lowered_def)
  moreover have "int (length (map (lowered ?d) ?rest)) = ?n - 1" "length (map (lowered ?d) ?rest) \<le> MAX_GROUPS"
    using ok pos unfolding length_map len groups_ok_def by (auto simp: of_nat_diff Suc_le_eq)
  ultimately show ?thesis unfolding groups_ok_def by (simp del: map_map)
qed

lemma lowered_fields [simp]: "g_id (lowered d r) = g_id r" "g_state (lowered d r) = g_state r"
  by (simp_all add: lowered_def)

lemma lowered_tail: "g_displayOrder g = d \<Longrightarrow> lowered d g = g"
  by (simp add: lowered_def)

text \<open>The tables after \<open>remove\<close>.\<close>

lemma remove_group_tables:
  assumes "groups_ok s" and "find_group s i = Some g"
  shows "core (snd (remove_group i s)) =
    (db_users s, map (lowered (g_displayOrder g)) (filter (\<lambda>r. g_id r \<noteq> i) (db_groups s)),
     filter (\<lambda>m. m_groupId m \<noteq> i) (db_members s), rs_lock s)"
proof -
  let ?s1 = "s\<lparr>db_groups := filter (\<lambda>r. g_id r \<noteq> i) (db_groups s),
               db_members := filter (\<lambda>m. m_groupId m \<noteq> i) (db_members s)\<rparr>"
  have "distinct (map g_id (db_groups ?s1))" using assms(1) by (simp add: groups_ok_def distinct_map_filter)
  from renumber_fold_lowered [OF this, of "g_displayOrder g"]
  have "core (snd (remove_group i s))
      = core (?s1\<lparr>db_groups := map (lowered (g_displayOrder g)) (db_groups ?s1)\<rparr>)"
    using assms(2) by (simp add: remove_group_def Let_def)
  then show ?thesis by (simp add: core_def)
qed

lemma members_ok_delete_group:
  assumes ok: "members_ok s" and ids: "g_id ` set gs = g_id ` set (db_groups s) - {i}"
  shows "members_ok (s\<lparr>db_groups := gs, db_members := filter (\<lambda>m. m_groupId m \<noteq> i) (db_members s)\<rparr>)"
proof -
  let ?s = "s\<lparr>db_groups := gs, db_members := filter (\<lambda>m. m_groupId m \<noteq> i) (db_members s)\<rparr>"
  have gm: "group_members ?s g = (if g = i then [] else group_members s g)" for g
    by (auto simp: group_members_def intro: filter_cong)
  have "find_group ?s (m_groupId m) \<noteq> None \<and> find_user ?s (m_userId m) \<noteq> None"
    if "m \<in> set (db_members ?s)" for m
    using that ok ids by (auto simp: members_ok_def members_base_def find_group_None find_user_None)
  then show ?thesis using ok
    by (auto simp: members_ok_def members_base_def gm distinct_map_filter numbered_def)
qed

lemma remove_group_inv:
  assumes "rally_inv s"
  shows "rally_inv (snd (remove_group i s))"
proof (cases "find_group s i")
  case None
  then show ?thesis using assms by (simp add: remove_group_def)
next
  case (Some g)
  let ?gs = "map (lowered (g_displayOrder g)) (filter (\<lambda>r. g_id r \<noteq> i) (db_groups s))"
  let ?ms = "filter (\<lambda>m. m_groupId m \<noteq> i) (db_members s)"
  have ok: "groups_ok s" using assms by (simp add: rally_inv_def)
  have "groups_ok (s\<lparr>db_groups := ?gs, db_members := ?ms\<rparr>)"
    using remove_groups_ok [OF ok] find_group_Some [OF Some] by simp
  moreover have "members_ok (s\<lparr>db_groups := ?gs, db_members := ?ms\<rparr>)"
    by (rule members_ok_delete_group) (use assms in \<open>auto simp: rally_inv_def image_image\<close>)
  moreover have "running_held (s\<lparr>db_groups := ?gs, db_members := ?ms\<rparr>)"
    using assms by (auto simp: rally_inv_def running_held_def)
  ultimately have "rally_inv (s\<lparr>db_groups := ?gs, db_members := ?ms\<rparr>)" using assms by (simp add: rally_inv_def)
  moreover have "core (snd (remove_group i s)) = core (s\<lparr>db_groups := ?gs, db_members := ?ms\<rparr>)"
    unfolding remove_group_tables [OF ok Some] by (simp add: core_def)
  ultimately show ?thesis using rally_inv_core by blast
qed

subsection \<open>Countdowns\<close>

lemma set_idle_ok:
  "groups_ok s \<Longrightarrow> groups_ok (set_idle gid s)" "members_ok s \<Longrightarrow> members_ok (set_idle gid s)"
  "groups_ok s \<Longrightarrow> groups_ok (set_running gid t k s)" "members_ok s \<Longrightarrow> members_ok (set_running gid t k s)"
  by (simp_all add: set_idle_def set_running_def groups_ok_update members_ok_update)

lemma lock_frame: "groups_ok (s\<lparr>rs_lock := l\<rparr>) = groups_ok s" "members_ok (s\<lparr>rs_lock := l\<rparr>) = members_ok s"
  by (simp_all add: groups_ok_def members_ok_def members_base_def find_group_def find_user_def group_members_def)

lemma autoRelease_positive: "0 \<le> k \<Longrightarrow> 0 < autoReleaseMs k"
  by (simp add: autoReleaseMs_def rally_consts)

lemma schedule_nonneg: "schedule_of ms = (k, offs) \<Longrightarrow> 0 \<le> k"
  by (auto simp: schedule_of_def computeFireSchedule_def Let_def fold_max_ge(2))

lemma lock_bound_acquire:
  assumes "lock_bound l" and "tryAcquire now (Some ms) (Some (CbRallyAutoIdle gid)) (HRally gid) l = (True, l')"
    and "0 < ms"
  shows "lock_bound l' \<and> holder l' = Some (HRally gid)"
  using assms by (auto simp: tryAcquire_def lock_bound_def lock_ok_def split: if_splits)

lemma lock_bound_release: "lock_bound l \<Longrightarrow> lock_bound (lock_release h l)"
  by (auto simp: lock_release_def lock_bound_def lock_ok_def split: option.splits)

lemma tryAcquire_free: "tryAcquire now ms cb h l = (True, l') \<Longrightarrow> holder l = None"
  by (auto simp: tryAcquire_def split: if_splits)

lemma tryAcquire_refused: "tryAcquire now ms cb h l = (False, l') \<Longrightarrow> l' = l \<and> holder l \<noteq> None"
  by (auto simp: tryAcquire_def split: if_splits)

lemma none_running: "running_held s \<Longrightarrow> holder (rs_lock s) = None \<Longrightarrow> g \<in> set (db_groups s) \<Longrightarrow> g_state g \<noteq> Running"
  by (auto simp: running_held_def)

lemma set_running_held:
  assumes "running_held s" and "holder (rs_lock s) = None" and "holder l = Some (HRally gid)"
  shows "running_held (set_running gid t k (s\<lparr>rs_lock := l\<rparr>))"
  using none_running [OF assms(1,2)] assms(3)
  by (auto simp: running_held_def set_running_def update_group_def)

lemma abort_start_inv:
  assumes "rally_inv s" and "holder (rs_lock s) = None" and "lock_bound l" and "holder l = Some (HRally gid)"
  shows "rally_inv (abort_start gid (s\<lparr>rs_lock := l\<rparr>))"
proof -
  have "core (abort_start gid (s\<lparr>rs_lock := l\<rparr>)) = core (s\<lparr>rs_lock := lock_release (HRally gid) l\<rparr>)"
    by (simp add: abort_start_def)
  moreover have "rally_inv (s\<lparr>rs_lock := lock_release (HRally gid) l\<rparr>)"
    using assms none_running [of s] lock_bound_release [OF assms(3)]
    by (auto simp: rally_inv_def lock_frame running_held_def)
  ultimately show ?thesis using rally_inv_core by blast
qed

text \<open>
  What \<open>startCountdown\<close> does once the members are renumbered, for a group that exists.
\<close>

lemma startCountdown_busy:
  assumes "reorder_group gid s = Inr s1" and "find_group s1 gid = Some g" and "holder (rs_lock s1) = Some h"
  shows "startCountdown db now gid s = (Inl (BusyConflict (Some h)), s1)"
  using assms by (simp add: startCountdown_def getFullGroup_def tryAcquire_def getHolder_def Let_def case_prod_beta)

lemma startCountdown_free:
  assumes "reorder_group gid s = Inr s1" and "find_group s1 gid = Some g" and "holder (rs_lock s1) = None"
    and "schedule_of (load_members s1 gid) = (k, offs)"
    and "tryAcquire now (Some (autoReleaseMs k)) (Some (CbRallyAutoIdle gid)) (HRally gid) (rs_lock s1) = (True, l)"
  shows "startCountdown db now gid s =
    (if \<not> fst db then (Inl DbFailure, abort_start gid (s1\<lparr>rs_lock := l\<rparr>))
     else let p = \<lparr>cp_groupId = gid, cp_startedAtServerMs = now + COUNTDOWN_LEAD_MS, cp_fireOffsets = offs\<rparr>;
              s4 = emitCountdownStart p (set_running gid (now + COUNTDOWN_LEAD_MS) k (s1\<lparr>rs_lock := l\<rparr>))
          in if \<not> snd db then (Inl DbFailure, abort_start gid s4)
             else case publish gid s4 of (Inl e, s5) \<Rightarrow> (Inl e, abort_start gid s5)
                  | (Inr fg, s5) \<Rightarrow> (Inr (fg, p), emitBusyState (getHolder (rs_lock s5)) s5))"
  using assms by (simp add: startCountdown_def getFullGroup_def Let_def)

lemma find_group_core: "core s = core s' \<Longrightarrow> find_group s i = find_group s' i"
  using find_core by blast

lemma find_group_update: "(\<And>g. g_id (f g) = g_id g) \<Longrightarrow> find_group s i \<noteq> None \<Longrightarrow> find_group (update_group j f s) i \<noteq> None"
  unfolding find_group_None using update_group_ids [of f j s] by (metis set_map)

lemma publish_exists: "find_group s gid \<noteq> None \<Longrightarrow> \<exists>fg s'. publish gid s = (Inr fg, s') \<and> core s' = core s"
  using publish_found core_publish by (metis not_None_eq prod.collapse)

lemma startCountdown_runs:
  assumes inv: "rally_inv s" and g: "find_group s gid \<noteq> None" and free: "holder (rs_lock s) = None"
  shows "\<exists>fg p s'. startCountdown (True, True) now gid s = (Inr (fg, p), s') \<and> rally_inv s' \<and>
    holder (rs_lock s') = Some (HRally gid) \<and> cp_startedAtServerMs p = now + COUNTDOWN_LEAD_MS"
proof -
  obtain rows where r: "reorder_group gid s = Inr (s\<lparr>db_members := rows\<rparr>)" "rally_inv (s\<lparr>db_members := rows\<rparr>)"
    using rally_inv_reorder_self [OF inv] by blast
  let ?s1 = "s\<lparr>db_members := rows\<rparr>"
  obtain g where g1: "find_group ?s1 gid = Some g" using g by (auto simp: find_group_def)
  have free1: "holder (rs_lock ?s1) = None" using free by simp
  obtain k offs where k: "schedule_of (load_members ?s1 gid) = (k, offs)" by (cases "schedule_of (load_members ?s1 gid)")
  obtain l where l: "tryAcquire now (Some (autoReleaseMs k)) (Some (CbRallyAutoIdle gid)) (HRally gid) (rs_lock ?s1) = (True, l)"
    using free1 by (auto simp: tryAcquire_def)
  have lb: "lock_bound l \<and> holder l = Some (HRally gid)"
    by (rule lock_bound_acquire [OF _ l autoRelease_positive [OF schedule_nonneg [OF k]]])
       (use r(2) in \<open>simp add: rally_inv_def\<close>)
  let ?s3 = "set_running gid (now + COUNTDOWN_LEAD_MS) k (?s1\<lparr>rs_lock := l\<rparr>)"
  have inv3: "rally_inv ?s3"
    using r(2) lb set_running_held [of ?s1 l gid] free1
    by (simp add: rally_inv_def set_idle_ok lock_frame) (simp add: set_running_def)
  define p where "p = \<lparr>cp_groupId = gid, cp_startedAtServerMs = now + COUNTDOWN_LEAD_MS, cp_fireOffsets = offs\<rparr>"
  let ?s4 = "emitCountdownStart p ?s3"
  have "find_group (?s1\<lparr>rs_lock := l\<rparr>) gid \<noteq> None" using g1 by (simp add: find_group_def)
  then have "find_group ?s3 gid \<noteq> None" unfolding set_running_def by (intro find_group_update) simp_all
  then have "find_group ?s4 gid \<noteq> None" using find_group_core [of ?s4 ?s3] by simp
  then obtain fg s5 where p5: "publish gid ?s4 = (Inr fg, s5)" and c5: "core s5 = core ?s4" using publish_exists by blast
  have "startCountdown (True, True) now gid s = (Inr (fg, p), emitBusyState (getHolder (rs_lock s5)) s5)"
    unfolding startCountdown_free [OF r(1) g1 free1 k l] by (simp add: Let_def p_def [symmetric] p5)
  moreover have c: "core (emitBusyState (getHolder (rs_lock s5)) s5) = core ?s3" using c5 by simp
  moreover have "rs_lock ?s3 = l" by (simp add: set_running_def)
  ultimately show ?thesis using inv3 lb rally_inv_core [OF c] by (auto simp: core_def p_def)
qed

lemma startCountdown_inv:
  assumes inv: "rally_inv s"
  shows "rally_inv (snd (startCountdown (ok, True) now gid s))"
proof -
  obtain rows where r: "reorder_group gid s = Inr (s\<lparr>db_members := rows\<rparr>)" "rally_inv (s\<lparr>db_members := rows\<rparr>)"
    using rally_inv_reorder_self [OF inv] by blast
  let ?s1 = "s\<lparr>db_members := rows\<rparr>"
  have fg: "find_group ?s1 gid = find_group s gid" by (simp add: find_group_def)
  show ?thesis
  proof (cases "find_group s gid")
    case None
    then show ?thesis using r fg by (simp add: startCountdown_def getFullGroup_def)
  next
    case (Some g)
    then have g1: "find_group ?s1 gid = Some g" using fg by simp
    show ?thesis
    proof (cases "holder (rs_lock s)")
      case (Some h)
      then have "holder (rs_lock ?s1) = Some h" by simp
      from startCountdown_busy [OF r(1) g1 this] r(2) show ?thesis by simp
    next
      case None
      then have free1: "holder (rs_lock ?s1) = None" by simp
      show ?thesis
      proof (cases ok)
        case True
        then show ?thesis using startCountdown_runs [OF inv _ None, of gid now] Some by auto
      next
        case False
        obtain k offs where k: "schedule_of (load_members ?s1 gid) = (k, offs)" by (cases "schedule_of (load_members ?s1 gid)")
        obtain l where l: "tryAcquire now (Some (autoReleaseMs k)) (Some (CbRallyAutoIdle gid)) (HRally gid) (rs_lock ?s1) = (True, l)"
          using free1 by (auto simp: tryAcquire_def)
        have lb: "lock_bound l \<and> holder l = Some (HRally gid)"
          by (rule lock_bound_acquire [OF _ l autoRelease_positive [OF schedule_nonneg [OF k]]])
             (use r(2) in \<open>simp add: rally_inv_def\<close>)
        show ?thesis unfolding startCountdown_free [OF r(1) g1 free1 k l]
          using False lb abort_start_inv [OF r(2) free1] by simp
      qed
    qed
  qed
qed

lemma set_idle_states: "g \<in> set (db_groups (set_idle gid s)) \<Longrightarrow> g_state g = Running \<Longrightarrow>
    g_id g \<noteq> gid \<and> (\<exists>g'\<in>set (db_groups s). g_id g' = g_id g \<and> g_state g' = Running)"
  by (auto simp: set_idle_def update_group_def split: if_splits)

text \<open>The lock may be let go in the same step in which its own group becomes idle.\<close>

lemma idle_inv:
  assumes "rally_inv s" and "lock_bound l" and "holder l = holder (rs_lock s) \<or> holder (rs_lock s) = Some (HRally gid)"
  shows "rally_inv (set_idle gid (s\<lparr>rs_lock := l\<rparr>))"
proof -
  have "holder l = Some (HRally (g_id g))"
    if "g \<in> set (db_groups (set_idle gid (s\<lparr>rs_lock := l\<rparr>)))" "g_state g = Running" for g
    using set_idle_states [OF that] assms by (auto simp: rally_inv_def running_held_def)
  moreover have "rs_lock (set_idle gid (s\<lparr>rs_lock := l\<rparr>)) = l" by (simp add: set_idle_def)
  ultimately have "running_held (set_idle gid (s\<lparr>rs_lock := l\<rparr>))" unfolding running_held_def by simp
  moreover have "groups_ok (set_idle gid (s\<lparr>rs_lock := l\<rparr>))" "members_ok (set_idle gid (s\<lparr>rs_lock := l\<rparr>))"
    using assms(1) by (simp_all add: rally_inv_def set_idle_ok lock_frame)
  ultimately show ?thesis using assms(2) by (simp add: rally_inv_def set_idle_def)
qed

lemma stop_inv:
  assumes "rally_inv s"
  shows "rally_inv (snd (stopCountdown gid s))"
proof (cases "find_group s gid")
  case None
  then show ?thesis using assms by (simp add: stopCountdown_def)
next
  case (Some g)
  let ?own = "getHolder (rs_lock s) = Some (HRally gid)"
  let ?l = "if ?own then lock_release (HRally gid) (rs_lock s) else rs_lock s"
  let ?s2 = "emitCountdownStop gid (set_idle gid (s\<lparr>rs_lock := ?l\<rparr>))"
  have lb: "lock_bound ?l" using assms lock_bound_release by (simp add: rally_inv_def)
  have "rally_inv (set_idle gid (s\<lparr>rs_lock := ?l\<rparr>))"
    by (rule idle_inv [OF assms lb]) (auto simp: getHolder_def)
  then have "rally_inv ?s2" using rally_inv_core [of ?s2] by simp
  moreover have "core (snd (stopCountdown gid s)) \<in> {core s, core ?s2}"
    using Some by (auto simp: stopCountdown_def Let_def core_publish_eq dest: core_publish_eq split: prod.splits sum.splits)
  ultimately show ?thesis using assms rally_inv_core by blast
qed

lemma timer_inv:
  assumes "rally_inv s"
  shows "rally_inv (rally_timer_fires True s)"
proof (cases "lock_timer (rs_lock s)")
  case None
  then show ?thesis using assms by (simp add: rally_timer_fires_def lock_fire_def)
next
  case (Some dc)
  obtain due cb where dc: "dc = (due, cb)" by (cases dc)
  let ?l = "(rs_lock s)\<lparr>holder := None, lock_timer := None\<rparr>"
  have fire: "lock_fire (rs_lock s) = (cb, ?l)" using Some dc by (simp add: lock_fire_def)
  have lb: "lock_bound ?l" by (simp add: lock_bound_def lock_ok_def)
  have held: "holder (rs_lock s) = Some HCountdown \<or> (\<exists>g. holder (rs_lock s) = Some (HRally g) \<and> cb = Some (CbRallyAutoIdle g))"
    using assms Some dc by (auto simp: rally_inv_def lock_bound_def lock_ok_def split: lock_holder.splits option.splits)
  show ?thesis
  proof (cases "\<exists>gid. cb = Some (CbRallyAutoIdle gid)")
    case True
    then obtain gid where cb: "cb = Some (CbRallyAutoIdle gid)" by blast
    have "holder (rs_lock s) = Some (HRally gid)"
      using held cb assms Some dc by (auto simp: rally_inv_def lock_bound_def)
    then have "rally_inv (set_idle gid (s\<lparr>rs_lock := ?l\<rparr>))" using idle_inv [OF assms lb] by blast
    moreover have "core (rally_timer_fires True s) = core (set_idle gid (s\<lparr>rs_lock := ?l\<rparr>))"
      by (simp add: rally_timer_fires_def fire cb handleAutoIdle_def)
    ultimately show ?thesis using rally_inv_core by blast
  next
    case False
    then have "rally_timer_fires True s = s\<lparr>rs_lock := ?l\<rparr>"
      by (cases cb; cases "the cb") (auto simp: rally_timer_fires_def fire Let_def)
    moreover have "holder (rs_lock s) = Some HCountdown" using held False by blast
    ultimately show ?thesis using assms lb by (auto simp: rally_inv_def lock_frame running_held_def)
  qed
qed

lemma recompute_inv:
  assumes "rally_inv s"
  shows "rally_inv (snd (recomputeIfRunning now gid s))"
proof (cases "find_group s gid")
  case None
  then show ?thesis using assms by (simp add: recomputeIfRunning_def)
next
  case (Some g)
  obtain k offs where sch: "schedule_of (load_members s gid) = (k, offs)" by (cases "schedule_of (load_members s gid)")
  let ?f = "\<lambda>g. g\<lparr>g_maxMarchSeconds := Some k\<rparr>"
  let ?ms = "\<lambda>t. max 1 (t + k * 1000 + RALLY_AUTO_IDLE_GRACE_SECONDS * 1000 - now)"
  let ?l = "\<lambda>t. snd (reschedule now (?ms t) (Some (CbRallyAutoIdle gid)) (HRally gid) (rs_lock s))"
  have "lock_bound (?l t)" for t
    using assms by (auto simp: rally_inv_def lock_bound_def reschedule_def lock_ok_def split: option.splits lock_holder.splits)
  then have "rally_inv (update_group gid ?f (s\<lparr>rs_lock := ?l t\<rparr>))" for t
    using assms by (simp add: rally_inv_def lock_frame groups_ok_update members_ok_update)
      (auto simp: running_held_def update_group_def)
  moreover have "core (snd (recomputeIfRunning now gid s)) = core s \<or>
      (\<exists>t. core (snd (recomputeIfRunning now gid s)) = core (update_group gid ?f (s\<lparr>rs_lock := ?l t\<rparr>)))"
    using Some sch by (auto simp: recomputeIfRunning_def Let_def core_def update_group_def
        emitCountdownStart_def emit_def split: option.splits)
  ultimately show ?thesis using assms rally_inv_core by metis
qed

lemma reorder_groups_inv:
  "rally_inv s \<Longrightarrow> \<exists>rows. reorder_groups gs s = Inr (s\<lparr>db_members := rows\<rparr>) \<and> rally_inv (s\<lparr>db_members := rows\<rparr>)"
proof (induction gs arbitrary: s)
  case Nil
  then show ?case by (auto intro: exI [of _ "db_members s"])
next
  case (Cons g gs)
  obtain r where r: "reorder_group g s = Inr (s\<lparr>db_members := r\<rparr>)" "rally_inv (s\<lparr>db_members := r\<rparr>)"
    using rally_inv_reorder_self [OF Cons.prems] by blast
  from Cons.IH [OF r(2)] show ?case by (auto simp: r(1))
qed

lemma reorderAll_inv:
  assumes "rally_inv s"
  shows "rally_inv (snd (reorderAllForUser u s))"
proof -
  define targets where "targets = map g_id (filter (\<lambda>g. g_state g \<noteq> Running)
    (filter (\<lambda>g. g_id g \<in> set (remdups (map m_groupId (filter (\<lambda>m. m_userId m = u) (db_members s))))) (db_groups s)))"
  obtain rows where "reorder_groups targets s = Inr (s\<lparr>db_members := rows\<rparr>)" "rally_inv (s\<lparr>db_members := rows\<rparr>)"
    using reorder_groups_inv [OF assms] by blast
  then show ?thesis using assms rally_inv_core [OF core_publish_all]
    unfolding reorderAllForUser_def Let_def targets_def [symmetric] by simp
qed

lemma settings_row_ok:
  "members_ok s \<Longrightarrow> members_ok (s\<lparr>db_users := map (\<lambda>r. if u_id r = u then r\<lparr>u_marchSeconds := v\<rparr> else r) (db_users s)\<rparr>)"
proof -
  let ?s = "s\<lparr>db_users := map (\<lambda>r. if u_id r = u then r\<lparr>u_marchSeconds := v\<rparr> else r) (db_users s)\<rparr>"
  have "map u_id (db_users ?s) = map u_id (db_users s)" by (simp add: comp_def cong: map_cong)
  then have "set (map u_id (db_users ?s)) = set (map u_id (db_users s))" by (rule arg_cong)
  then have sub: "u_id ` set (db_users s) \<subseteq> u_id ` set (db_users ?s)" unfolding set_map by (rule equalityD2)
  assume "members_ok s"
  then show ?thesis by (rule members_ok_frame [OF _ _ sub]) simp_all
qed

lemma settings_cases:
  defines "row u v s \<equiv> s\<lparr>db_users := map (\<lambda>r. if u_id r = u then r\<lparr>u_marchSeconds := v\<rparr> else r) (db_users s)\<rparr>"
  shows "snd (saveBattleSettings u v s) \<in> {s, snd (reorderAllForUser u (row u v s))}"
proof -
  obtain r s2 where e: "reorderAllForUser u (row u v s) = (r, s2)" by (cases "reorderAllForUser u (row u v s)")
  then show ?thesis
    unfolding saveBattleSettings_def Let_def row_def by (cases r) (simp_all split: unit.splits)
qed

lemma settings_inv:
  assumes "rally_inv s"
  shows "rally_inv (snd (saveBattleSettings u v s))"
proof -
  let ?s = "s\<lparr>db_users := map (\<lambda>r. if u_id r = u then r\<lparr>u_marchSeconds := v\<rparr> else r) (db_users s)\<rparr>"
  have "members_ok ?s" by (rule settings_row_ok) (use assms in \<open>simp add: rally_inv_def\<close>)
  moreover have "groups_ok ?s = groups_ok s" "running_held ?s = running_held s"
    by (simp_all add: groups_ok_def running_held_def)
  ultimately have "rally_inv ?s" using assms by (simp add: rally_inv_def)
  then have "rally_inv (snd (reorderAllForUser u ?s))" by (rule reorderAll_inv)
  with settings_cases [of u v s] assms show ?thesis by auto
qed

lemma startCountdown_payload:
  assumes "startCountdown db now gid s = (Inr (fg, p), s')"
  shows "cp_groupId p = gid"
  using assms
  by (auto simp: startCountdown_def Let_def split: sum.splits prod.splits if_splits)

lemma reorder_groups_others:
  "members_ok s \<Longrightarrow> reorder_groups gs s = Inr s' \<Longrightarrow> g \<notin> set gs \<Longrightarrow> group_members s' g = group_members s g"
proof (induction gs arbitrary: s)
  case (Cons h gs)
  let ?s1 = "s\<lparr>db_members := reordered_rows h s\<rparr>"
  note r = reorder_group_restores [OF members_ok_almost [OF Cons.prems(1)], of h]
  have d: "distinct (map m_id (db_members s))" using Cons.prems(1) by (simp add: members_ok_def members_base_def)
  have "group_members s' g = group_members ?s1 g"
    using Cons.IH [OF r(2)] Cons.prems(2,3) by (simp add: r(1))
  also have "\<dots> = group_members s g" using Cons.prems(3) by (simp add: reordered_group_members [OF d])
  finally show ?case .
qed simp

lemma group_members_core: "core s = core s' \<Longrightarrow> group_members s g = group_members s' g"
  by (simp add: core_def group_members_def)

lemma reorderAll_spares:
  assumes "members_ok s" and "groups_ok s" and "g \<in> set (db_groups s)" and "g_state g = Running"
  shows "group_members (snd (reorderAllForUser u s)) (g_id g) = group_members s (g_id g)"
proof -
  define targets where "targets = map g_id (filter (\<lambda>g. g_state g \<noteq> Running)
    (filter (\<lambda>g. g_id g \<in> set (remdups (map m_groupId (filter (\<lambda>m. m_userId m = u) (db_members s))))) (db_groups s)))"
  have "distinct (map g_id (db_groups s))" using assms(2) by (simp add: groups_ok_def)
  then have not: "g_id g \<notin> set targets" using assms(3,4) by (auto simp: targets_def dest: distinct_map_eqD)
  show ?thesis
  proof (cases "reorder_groups targets s")
    case (Inl e)
    then show ?thesis unfolding reorderAllForUser_def Let_def targets_def [symmetric] by simp
  next
    case (Inr s1)
    have "group_members (snd (publish_all targets s1)) (g_id g) = group_members s1 (g_id g)"
      by (rule group_members_core) (rule core_publish_all)
    then show ?thesis using reorder_groups_others [OF assms(1) Inr not]
      unfolding reorderAllForUser_def Let_def targets_def [symmetric] Inr by simp
  qed
qed

lemma settings_group_members:
  assumes "rally_inv s" and "g \<in> set (db_groups s)" and "g_state g = Running"
  shows "group_members (snd (saveBattleSettings u v s)) (g_id g) = group_members s (g_id g)"
proof -
  let ?s = "s\<lparr>db_users := map (\<lambda>r. if u_id r = u then r\<lparr>u_marchSeconds := v\<rparr> else r) (db_users s)\<rparr>"
  have "members_ok ?s" by (rule settings_row_ok) (use assms(1) in \<open>simp add: rally_inv_def\<close>)
  moreover have "groups_ok ?s" using assms(1) by (simp add: rally_inv_def groups_ok_def)
  ultimately have "group_members (snd (reorderAllForUser u ?s)) (g_id g) = group_members ?s (g_id g)"
    using assms(2,3) by (intro reorderAll_spares) simp_all
  then show ?thesis using settings_cases [of u v s] by (auto simp: group_members_def)
qed

subsection \<open>The reachable states\<close>

text \<open>
  One step is one request, one timer or one reconnection; the realtime gateway shares the lock, so
  its operations on it are steps too. The database may refuse the update of a start (the flag of
  \<open>OpStart\<close>); that it fails between two of its own queries is not a step.
\<close>

datatype rally_op =
    OpCreate user_id "bool option" group_id
  | OpRemove group_id
  | OpAddMember group_id user_id member_id
  | OpRemoveMember group_id member_id
  | OpOverride member_id "int option"
  | OpStart bool millis group_id
  | OpStop group_id
  | OpTimer
  | OpRecompute millis group_id
  | OpSettings user_id "int option"
  | OpConnect bool millis
  | OpCountdownAcquire millis millis
  | OpCountdownReschedule millis millis
  | OpCountdownRelease

primrec rally_exec :: "rally_op \<Rightarrow> rally_sys \<Rightarrow> rally_sys" where
  "rally_exec (OpCreate u b i) s = snd (create_group u b i s)"
| "rally_exec (OpRemove i) s = snd (remove_group i s)"
| "rally_exec (OpAddMember g u m) s = snd (add_member g u m s)"
| "rally_exec (OpRemoveMember g m) s = snd (remove_member g m s)"
| "rally_exec (OpOverride m v) s = snd (updateMarchOverride m v s)"
| "rally_exec (OpStart ok now g) s = snd (startCountdown (ok, True) now g s)"
| "rally_exec (OpStop g) s = snd (stopCountdown g s)"
| "rally_exec OpTimer s = rally_timer_fires True s"
| "rally_exec (OpRecompute now g) s = snd (recomputeIfRunning now g s)"
| "rally_exec (OpSettings u v) s = snd (saveBattleSettings u v s)"
| "rally_exec (OpConnect tok now) s = snd (rally_handleConnection tok now s)"
| "rally_exec (OpCountdownAcquire now ms) s =
     s\<lparr>rs_lock := snd (tryAcquire now (Some ms) (Some CbCountdownAutoExpire) HCountdown (rs_lock s))\<rparr>"
| "rally_exec (OpCountdownReschedule now ms) s =
     s\<lparr>rs_lock := snd (reschedule now ms (Some CbCountdownAutoExpire) HCountdown (rs_lock s))\<rparr>"
| "rally_exec OpCountdownRelease s = s\<lparr>rs_lock := lock_release HCountdown (rs_lock s)\<rparr>"

text \<open>The server starts on well-formed tables with a fresh lock and runs \<open>onModuleInit\<close>.\<close>

inductive rally_reach :: "rally_sys \<Rightarrow> bool" where
  boot: "groups_ok s \<Longrightarrow> members_ok s \<Longrightarrow> rs_lock s = lock_initial \<Longrightarrow> rally_reach (rally_onModuleInit s)"
| step: "rally_reach s \<Longrightarrow> rally_reach (rally_exec op s)"

inductive_cases rally_reachE: "rally_reach s"

lemma onModuleInit_idle: "g \<in> set (db_groups (rally_onModuleInit s)) \<Longrightarrow> g_state g \<noteq> Running"
  by (auto simp: rally_onModuleInit_def filter_empty_conv split: if_splits)

lemma onModuleInit_inv:
  assumes "groups_ok s" and "members_ok s" and "rs_lock s = lock_initial"
  shows "rally_inv (rally_onModuleInit s)"
proof -
  let ?f = "\<lambda>g. if g_state g = Running then g\<lparr>g_state := Idle, g_startedAtServerMs := None, g_maxMarchSeconds := None\<rparr> else g"
  let ?s = "rally_onModuleInit s"
  have gs: "db_groups ?s = map ?f (db_groups s)"
    by (auto simp: rally_onModuleInit_def filter_empty_conv intro: map_idI [symmetric])
  have rest: "db_members ?s = db_members s" "db_users ?s = db_users s" "rs_lock ?s = rs_lock s"
    by (simp_all add: rally_onModuleInit_def)
  have ids: "map g_id (db_groups ?s) = map g_id (db_groups s)"
    "map g_displayOrder (db_groups ?s) = map g_displayOrder (db_groups s)"
    "length (db_groups ?s) = length (db_groups s)"
    unfolding gs by (simp_all add: comp_def cong: map_cong)
  have sets: "g_displayOrder ` set (db_groups ?s) = g_displayOrder ` set (db_groups s)"
    "g_id ` set (db_groups ?s) = g_id ` set (db_groups s)"
    using arg_cong [OF ids(2), of set] arg_cong [OF ids(1), of set] by simp_all
  have "\<forall>g\<in>set (db_groups ?s). g_name g = formatGroupName (g_displayOrder g)"
    using assms(1) unfolding gs by (auto simp: groups_ok_def)
  then have "groups_ok ?s" using assms(1) unfolding groups_ok_def ids sets by simp
  moreover have "members_ok ?s"
    by (rule members_ok_frame [OF assms(2)]) (simp_all add: rest sets)
  moreover have "running_held ?s" using onModuleInit_idle by (auto simp: running_held_def)
  moreover have "lock_bound lock_initial" by (simp add: lock_bound_def lock_ok_initial lock_initial_def lock_ok_def)
  ultimately show ?thesis by (simp add: rally_inv_def rest assms(3))
qed

lemma lock_only_inv:
  assumes "rally_inv s" and "lock_bound l" and "holder (rs_lock s) = holder l \<or> holder (rs_lock s) = None
    \<or> holder (rs_lock s) = Some HCountdown"
  shows "rally_inv (s\<lparr>rs_lock := l\<rparr>)"
  using assms by (auto simp: rally_inv_def lock_frame running_held_def)

lemma lock_bound_countdown:
  assumes "lock_bound l"
  shows "lock_bound (snd (tryAcquire now (Some ms) (Some CbCountdownAutoExpire) HCountdown l))"
    and "lock_bound (snd (reschedule now ms (Some CbCountdownAutoExpire) HCountdown l))"
proof -
  show "lock_bound (snd (tryAcquire now (Some ms) (Some CbCountdownAutoExpire) HCountdown l))"
  proof (cases "holder l")
    case None
    with assms have "lock_timer l = None" by (cases "lock_timer l") (auto simp: lock_bound_def lock_ok_def)
    with None show ?thesis by (simp add: tryAcquire_def lock_bound_def lock_ok_def)
  next
    case (Some h)
    with assms show ?thesis by (simp add: tryAcquire_def)
  qed
  show "lock_bound (snd (reschedule now ms (Some CbCountdownAutoExpire) HCountdown l))"
  proof (cases "holder l = Some HCountdown \<and> 0 < ms")
    case True
    then show ?thesis by (simp add: reschedule_def lock_bound_def lock_ok_def)
  next
    case False
    then have "snd (reschedule now ms (Some CbCountdownAutoExpire) HCountdown l) = l"
      by (cases "holder l") (auto simp: reschedule_def)
    with assms show ?thesis by simp
  qed
qed

lemma countdown_holder:
  "holder l = holder (snd (tryAcquire now ms cb h l)) \<or> holder l = None \<or> holder l = Some HCountdown"
  "holder l = holder (lock_release HCountdown l) \<or> holder l = None \<or> holder l = Some HCountdown"
  by (auto simp: tryAcquire_def lock_release_def split: option.splits)

lemma connect_inv:
  assumes "rally_inv s"
  shows "rally_inv (snd (rally_handleConnection tok now s))"
proof -
  obtain live s' where c: "collectLiveSnapshots now s = (live, s')" by (cases "collectLiveSnapshots now s")
  have "core s' = core s" using core_collect [of now s] c by simp
  then have "rally_inv s'" using assms rally_inv_core by blast
  with assms show ?thesis by (auto simp: rally_handleConnection_def c)
qed

lemma exec_inv:
  assumes "rally_inv s"
  shows "rally_inv (rally_exec op s)"
proof -
  have lb: "lock_bound (rs_lock s)" using assms by (simp add: rally_inv_def)
  show ?thesis
  proof (cases op)
  case (OpCountdownAcquire now ms)
  have "rally_inv (s\<lparr>rs_lock := snd (tryAcquire now (Some ms) (Some CbCountdownAutoExpire) HCountdown (rs_lock s))\<rparr>)"
    by (rule lock_only_inv [OF assms lock_bound_countdown(1) [OF lb]]) (rule countdown_holder(1))
  with OpCountdownAcquire show ?thesis by simp
next
  case (OpCountdownReschedule now ms)
  have "rally_inv (s\<lparr>rs_lock := snd (reschedule now ms (Some CbCountdownAutoExpire) HCountdown (rs_lock s))\<rparr>)"
    by (rule lock_only_inv [OF assms lock_bound_countdown(2) [OF lb]]) simp
  with OpCountdownReschedule show ?thesis by simp
next
  case OpCountdownRelease
  have "rally_inv (s\<lparr>rs_lock := lock_release HCountdown (rs_lock s)\<rparr>)"
    by (rule lock_only_inv [OF assms lock_bound_release [OF lb]]) (rule countdown_holder(2))
  with OpCountdownRelease show ?thesis by simp
  qed (simp_all add: assms create_inv remove_group_inv add_member_inv remove_member_inv override_inv
      startCountdown_inv stop_inv timer_inv recompute_inv settings_inv connect_inv)
qed

lemma reach_inv: "rally_reach s \<Longrightarrow> rally_inv s"
  by (induction rule: rally_reach.induct) (simp_all add: onModuleInit_inv exec_inv)

lemma reach_one_running:
  assumes "rally_reach s" and "g \<in> set (db_groups s)" "g' \<in> set (db_groups s)"
    and "g_state g = Running" "g_state g' = Running"
  shows "g = g'"
proof -
  have inv: "rally_inv s" by (rule reach_inv [OF assms(1)])
  then have "Some (HRally (g_id g)) = Some (HRally (g_id g'))"
    using assms(2-5) unfolding rally_inv_def running_held_def by metis
  then show ?thesis using inv assms(2,3) by (auto simp: rally_inv_def groups_ok_def dest: distinct_map_eqD)
qed

end
