(* ===== verification/RallyProperties.thy ===== *)
theory RallyProperties
  imports RallyReach
begin

text \<open>
  The properties of the rally groups, over the reachable states of \<open>RallyReach\<close>, and the two places
  where the code leaves them: the ban of a user and the removal of a running group. The witnesses
  run the operations from an empty database with two users and one group.
\<close>

subsection \<open>A concrete run\<close>

definition ex_user :: "user_id \<Rightarrow> int option \<Rightarrow> user_row" where
  "ex_user i k = \<lparr>u_id = i, u_nickname = [97], u_passwordHash = [], u_allianceName = [75], u_role = ''member'',
     u_language = ''ko'', u_marchSeconds = k, u_isLeader = True\<rparr>"

definition ex_group :: "group_id \<Rightarrow> int \<Rightarrow> group_row" where
  "ex_group i n = \<lparr>g_id = i, g_name = formatGroupName n, g_displayOrder = n, g_createdById = 1, g_broadcastAll = False,
     g_state = Idle, g_startedAtServerMs = None, g_maxMarchSeconds = None\<rparr>"

definition ex_member :: "member_id \<Rightarrow> user_id \<Rightarrow> int \<Rightarrow> member_row" where
  "ex_member i u n = \<lparr>m_id = i, m_groupId = ''a'', m_userId = u, m_orderIndex = n, m_marchSecondsOverride = None\<rparr>"

text \<open>Two groups, one of them with two members whose marches are out of order.\<close>

definition ex_two :: rally_sys where
  "ex_two = \<lparr>db_users = [ex_user 1 (Some 30), ex_user 2 (Some 50), ex_user 3 None],
     db_groups = [ex_group ''a'' 1, ex_group ''b'' 2], db_members = [ex_member ''m'' 1 1, ex_member ''n'' 2 2],
     rs_lock = lock_initial, runningCountdowns = [], runningGroups = [], rs_events = []\<rparr>"

definition ex_running :: rally_sys where
  "ex_running = rally_exec (OpStart True 0 ''a'') ex_two"

lemma ex_two_reach: "rally_reach ex_two"
proof -
  have "rally_onModuleInit ex_two = ex_two" by (simp add: rally_onModuleInit_def ex_two_def ex_group_def)
  moreover have "groups_ok ex_two"
    by (auto simp: groups_ok_def ex_two_def ex_group_def MAX_GROUPS_def)
  moreover have "members_ok ex_two"
    by (auto simp: members_ok_def members_base_def ex_two_def group_members_def numbered_def ex_member_def
        find_group_def find_user_def ex_group_def ex_user_def MAX_GROUP_MEMBERS_def)
  moreover have "rs_lock ex_two = lock_initial" by (simp add: ex_two_def)
  ultimately show ?thesis using rally_reach.boot by metis
qed

lemma ex_running_reach: "rally_reach ex_running"
  unfolding ex_running_def by (rule rally_reach.step [OF ex_two_reach])

lemma ex_reorder: "reorder_group ''a'' ex_two = Inr (ex_two\<lparr>db_members := [ex_member ''m'' 1 2, ex_member ''n'' 2 1]\<rparr>)"
  by (simp add: reorder_group_def ex_two_def load_members_def group_members_def ex_member_def find_user_def ex_user_def
      sortMembersByMarchDesc_def renumber_def enumerate_eq_zip update_order_def march_key_def effective_march_def)

lemma ex_running_step:
  defines "s1 \<equiv> ex_two\<lparr>db_members := [ex_member ''m'' 1 2, ex_member ''n'' 2 1]\<rparr>"
  shows "core ex_running = core (set_running ''a'' 7000 50
    (s1\<lparr>rs_lock := \<lparr>holder = Some (HRally ''a''), lock_timer = Some (62000, Some (CbRallyAutoIdle ''a''))\<rparr>\<rparr>))"
proof -
  have g: "find_group s1 ''a'' = Some (ex_group ''a'' 1)" and free: "holder (rs_lock s1) = None"
    by (simp_all add: s1_def ex_two_def find_group_def ex_group_def lock_initial_def)
  have sch: "schedule_of (load_members s1 ''a'') =
      (50, [\<lparr>f_orderIndex = 2, f_offsetMs = 20000, f_userId = 1\<rparr>, \<lparr>f_orderIndex = 1, f_offsetMs = 0, f_userId = 2\<rparr>])"
    by (simp add: s1_def ex_two_def schedule_of_def load_members_def group_members_def ex_member_def find_user_def
        ex_user_def effectiveMap_def effective_march_def computeFireSchedule_def march_of_def)
  let ?l = "\<lparr>holder = Some (HRally ''a''), lock_timer = Some (62000, Some (CbRallyAutoIdle ''a''))\<rparr>"
  have acq: "tryAcquire 0 (Some (autoReleaseMs 50)) (Some (CbRallyAutoIdle ''a'')) (HRally ''a'') (rs_lock s1) = (True, ?l)"
    by (simp add: s1_def ex_two_def tryAcquire_def autoReleaseMs_def rally_consts lock_initial_def)
  have r: "reorder_group ''a'' ex_two = Inr s1" by (simp add: ex_reorder s1_def)
  define p where "p = \<lparr>cp_groupId = ''a'', cp_startedAtServerMs = 7000, cp_fireOffsets =
    [\<lparr>f_orderIndex = 2, f_offsetMs = 20000, f_userId = 1\<rparr>, \<lparr>f_orderIndex = 1, f_offsetMs = 0, f_userId = 2\<rparr>]\<rparr>"
  define s4 where "s4 = emitCountdownStart p (set_running ''a'' 7000 50 (s1\<lparr>rs_lock := ?l\<rparr>))"
  have "find_group s4 ''a'' \<noteq> None"
    by (simp add: s4_def emitCountdownStart_def emit_def set_running_def update_group_def find_group_def s1_def
        ex_two_def ex_group_def)
  from publish_exists [OF this] obtain fg s5 where pub: "publish ''a'' s4 = (Inr fg, s5)" "core s5 = core s4" by blast
  have "startCountdown (True, True) 0 ''a'' ex_two = (Inr (fg, p), emitBusyState (getHolder (rs_lock s5)) s5)"
    using startCountdown_free [OF r g free sch acq, of "(True, True)"] pub(1)
    by (simp add: COUNTDOWN_LEAD_MS_def p_def [symmetric] s4_def [symmetric])
  then show ?thesis by (simp add: ex_running_def pub(2)) (simp add: s4_def)
qed

lemma ex_running_lock: "rs_lock ex_running = \<lparr>holder = Some (HRally ''a''), lock_timer = Some (62000, Some (CbRallyAutoIdle ''a''))\<rparr>"
  and ex_running_groups: "db_groups ex_running = [(ex_group ''a'' 1)\<lparr>g_state := Running, g_startedAtServerMs := Some 7000,
    g_maxMarchSeconds := Some 50\<rparr>, ex_group ''b'' 2]"
  and ex_running_users: "db_users ex_running = [ex_user 1 (Some 30), ex_user 2 (Some 50), ex_user 3 None]"
  and ex_running_members: "db_members ex_running = [ex_member ''m'' 1 2, ex_member ''n'' 2 1]"
  using ex_running_step by (simp_all add: core_def set_running_def update_group_def ex_two_def ex_group_def)

lemma ex_running_group: "(ex_group ''a'' 1)\<lparr>g_state := Running, g_startedAtServerMs := Some 7000,
    g_maxMarchSeconds := Some 50\<rparr> \<in> set (db_groups ex_running)"
  by (simp add: ex_running_groups)

subsection \<open>What holds in every reachable state\<close>





text \<open>
  Renumbering a group always succeeds: the unique key is never hit. Afterwards its rows
  are the old ones as \<open>sortMembersByMarchDesc\<close> orders them, a smaller number means a march at least
  as long, and the other groups are untouched.
\<close>

theorem renumbering:
  assumes "rally_reach s"
  shows "\<exists>s'. reorder_group gid s = Inr s' \<and>
    mset (load_members s' gid) = mset (sortMembersByMarchDesc (load_members s gid)) \<and>
    (\<forall>a\<in>set (load_members s' gid). \<forall>b\<in>set (load_members s' gid).
       m_orderIndex (fst a) < m_orderIndex (fst b) \<longrightarrow> effective_march b \<le> effective_march a) \<and>
    (\<forall>g. g \<noteq> gid \<longrightarrow> group_members s' g = group_members s g)"
proof -
  have mo: "members_ok s" using reach_inv [OF assms] by (simp add: rally_inv_def)
  then have d: "distinct (map m_id (db_members s))" by (simp add: members_ok_def members_base_def)
  let ?s' = "s\<lparr>db_members := reordered_rows gid s\<rparr>"
  have r: "reorder_group gid s = Inr ?s'"
    by (rule reorder_group_restores(1) [OF members_ok_almost [OF mo]])
  let ?ms = "sortMembersByMarchDesc (load_members s gid)"
  have m: "mset (load_members ?s' gid) = mset ?ms" by (rule reordered_mset [OF d])
  have march: "effective_march b \<le> effective_march a"
    if "a \<in> set ?ms" "b \<in> set ?ms" "m_orderIndex (fst a) < m_orderIndex (fst b)" for a b
    by (rule sortMembers_descends [OF that])
  have "set (load_members ?s' gid) = set ?ms" using m by (rule mset_eq_setD)
  then show ?thesis using r m march by (auto simp: reordered_group_members [OF d])
qed

theorem renumbering_witness:
  "\<exists>s'. reorder_group ''a'' ex_two = Inr s' \<and>
    mset (load_members s' ''a'') = mset (sortMembersByMarchDesc (load_members ex_two ''a''))"
  using renumbering [OF ex_two_reach, of "''a''"] by blast

text \<open>
  Property C3. The schedule of a group: every member has an entry, leaves at the start or later,
  and everybody arrives at the same moment, the longest march after the start.
\<close>

theorem arrive_together:
  assumes "rally_reach s" and "schedule_of (load_members s gid) = (maxMarch, offs)"
    and "lm \<in> set (load_members s gid)"
  shows "\<exists>f\<in>set offs. f_userId f = m_userId (fst lm) \<and> f_orderIndex f = m_orderIndex (fst lm) \<and>
    0 \<le> f_offsetMs f \<and> f_offsetMs f + effective_march lm * 1000 = maxMarch * 1000"
proof -
  let ?ms = "load_members s gid"
  have "members_ok s" using reach_inv [OF assms(1)] by (simp add: rally_inv_def)
  then have "distinct (map (m_userId \<circ> fst) ?ms)"
    by (simp add: members_ok_def members_base_def load_members_def comp_def)
  then have k: "march_of (effectiveMap ?ms) (m_userId (fst lm)) = effective_march lm"
    using assms(3) by (rule schedule_march)
  obtain f where f: "f \<in> set offs" "f_userId f = m_userId (fst lm)" "f_orderIndex f = m_orderIndex (fst lm)"
    using assms(2,3) unfolding schedule_of_def computeFireSchedule_def Let_def by force
  with assms(2) k show ?thesis
    using fire_simultaneous [of _ _ maxMarch offs f] fire_nonneg [of _ _ maxMarch offs f]
    unfolding schedule_of_def by fastforce
qed

theorem arrive_together_witness:
  "\<exists>f\<in>set [\<lparr>f_orderIndex = 1, f_offsetMs = 20000, f_userId = 1\<rparr>, \<lparr>f_orderIndex = 2, f_offsetMs = 0, f_userId = 2\<rparr>].
     f_offsetMs f + 30 * 1000 = 50 * 1000"
proof -
  have l: "load_members ex_two ''a'' = [(ex_member ''m'' 1 1, Some (ex_user 1 (Some 30))), (ex_member ''n'' 2 2, Some (ex_user 2 (Some 50)))]"
    by (simp add: load_members_def group_members_def ex_two_def ex_member_def find_user_def ex_user_def)
  have "schedule_of (load_members ex_two ''a'') =
      (50, [\<lparr>f_orderIndex = 1, f_offsetMs = 20000, f_userId = 1\<rparr>, \<lparr>f_orderIndex = 2, f_offsetMs = 0, f_userId = 2\<rparr>])"
    unfolding l by (simp add: schedule_of_def ex_member_def ex_user_def effectiveMap_def effective_march_def
        computeFireSchedule_def march_of_def)
  from arrive_together [OF ex_two_reach this, of "(ex_member ''m'' 1 1, Some (ex_user 1 (Some 30)))"]
  show ?thesis by (auto simp: l effective_march_def ex_member_def ex_user_def)
qed

subsection \<open>The operations\<close>

text \<open>
  While nothing is counting down, \<open>startCountdown\<close> on an existing group succeeds: the
  start time is seven seconds ahead, the group holds the lock and is the running one.
\<close>

theorem start_runs:
  assumes "rally_reach s" and "find_group s gid \<noteq> None" and "holder (rs_lock s) = None"
  shows "\<exists>fg p s'. startCountdown (True, True) now gid s = (Inr (fg, p), s') \<and>
    cp_groupId p = gid \<and> cp_startedAtServerMs p = now + 7000 \<and>
    holder (rs_lock s') = Some (HRally gid) \<and> rally_reach s'"
proof -
  obtain fg p s' where r: "startCountdown (True, True) now gid s = (Inr (fg, p), s')"
    "holder (rs_lock s') = Some (HRally gid)" "cp_startedAtServerMs p = now + COUNTDOWN_LEAD_MS"
    using startCountdown_runs [OF reach_inv [OF assms(1)] assms(2,3)] by blast
  have "rally_exec (OpStart True now gid) s = s'" by (simp add: r(1))
  then have "rally_reach s'" using rally_reach.step [OF assms(1)] by metis
  moreover have "cp_groupId p = gid" by (rule startCountdown_payload [OF r(1)])
  ultimately show ?thesis using r by (auto simp: COUNTDOWN_LEAD_MS_def)
qed

theorem start_runs_witness:
  "\<exists>fg p s'. startCountdown (True, True) 5 ''b'' ex_two = (Inr (fg, p), s') \<and> cp_startedAtServerMs p = 7005"
  using start_runs [OF ex_two_reach, of "''b''" 5] by (auto simp: find_group_def ex_two_def ex_group_def lock_initial_def)

text \<open>
  When the timer of the lock fires for a rally group, the lock is free afterwards and no
  group is running: a countdown nobody stops ends by itself.
\<close>

theorem timer_ends_countdown:
  assumes "rally_reach s" and "holder (rs_lock s) = Some (HRally gid)"
  shows "holder (rs_lock (rally_timer_fires True s)) = None \<and>
    (\<forall>g\<in>set (db_groups (rally_timer_fires True s)). g_state g \<noteq> Running)"
proof -
  have inv: "rally_inv s" by (rule reach_inv [OF assms(1)])
  then obtain due where t: "lock_timer (rs_lock s) = Some (due, Some (CbRallyAutoIdle gid))"
    using assms(2) by (auto simp: rally_inv_def lock_bound_def)
  have "core (rally_timer_fires True s) = core (set_idle gid (s\<lparr>rs_lock := (rs_lock s)\<lparr>holder := None, lock_timer := None\<rparr>\<rparr>))"
    by (simp add: rally_timer_fires_def lock_fire_def t handleAutoIdle_def)
  then have "holder (rs_lock (rally_timer_fires True s)) = None"
    by (simp add: core_def set_idle_def update_group_def)
  moreover have "rally_inv (rally_timer_fires True s)" by (rule timer_inv [OF inv])
  then have "running_held (rally_timer_fires True s)" by (simp add: rally_inv_def)
  ultimately show ?thesis using none_running by blast
qed

theorem timer_ends_countdown_witness: "holder (rs_lock (rally_timer_fires True ex_running)) = None"
  using timer_ends_countdown [OF ex_running_reach, of "''a''"] by (simp add: ex_running_lock)

text \<open>
  Adding a member to a group that has room, that the user is not in, succeeds whenever
  both exist, and the next state is reachable: the unique keys cannot refuse it.
\<close>

theorem add_succeeds:
  assumes "rally_reach s" and "length (group_members s gid) < 10"
    and "userId \<notin> m_userId ` set (group_members s gid)"
    and "find_group s gid \<noteq> None" and "find_user s userId \<noteq> None"
    and "newId \<notin> m_id ` set (db_members s)"
  shows "\<exists>fg s'. add_member gid userId newId s = (Inr fg, s') \<and> rally_reach s'"
proof -
  have "\<not> list_ex (\<lambda>m. m_userId m = userId) (group_members s gid)" using assms(3) by (auto simp: list_ex_iff)
  then obtain fg s' where r: "add_member gid userId newId s = (Inr fg, s')"
    using add_member_succeeds [OF reach_inv [OF assms(1)] _ _ assms(4-6)] assms(2)
    by (auto simp: MAX_GROUP_MEMBERS_def)
  have "rally_exec (OpAddMember gid userId newId) s = s'" by (simp add: r)
  with r rally_reach.step [OF assms(1)] show ?thesis by metis
qed

theorem add_succeeds_witness: "\<exists>fg s'. add_member ''a'' 3 ''x'' ex_two = (Inr fg, s') \<and> rally_reach s'"
  by (rule add_succeeds [OF ex_two_reach])
    (simp_all add: group_members_def ex_two_def ex_member_def find_group_def ex_group_def find_user_def ex_user_def)

text \<open>
  Saving the own march time never touches the rows of a running group, whoever saves.
\<close>

theorem settings_spare_running:
  assumes "rally_reach s" and "g \<in> set (db_groups s)" and "g_state g = Running"
  shows "group_members (snd (saveBattleSettings u v s)) (g_id g) = group_members s (g_id g)"
  by (rule settings_group_members [OF reach_inv [OF assms(1)] assms(2,3)])

theorem settings_spare_running_witness:
  "group_members (snd (saveBattleSettings 1 (Some 100) ex_running)) ''a'' = group_members ex_running ''a''"
  using settings_spare_running [OF ex_running_reach ex_running_group, of 1 "Some 100"] by (simp add: ex_group_def)

text \<open>
  The guard of a march override: it lets a request through exactly when the member is
  in the group of the URL and the caller is its user or an administrator.
\<close>

theorem member_guard_exact:
  assumes "rally_reach s"
  shows "rally_member_guard (Some (uid, role)) gid mid s = Inr () \<longleftrightarrow>
    gid \<noteq> [] \<and> mid \<noteq> [] \<and>
    (\<exists>m\<in>set (db_members s). m_id m = mid \<and> m_groupId m = gid \<and> (role \<in> set ADMIN_ROLES \<or> m_userId m = uid))"
proof -
  have d: "distinct (map m_id (db_members s))"
    using reach_inv [OF assms] by (simp add: rally_inv_def members_ok_def members_base_def)
  show ?thesis
  proof (cases "find (\<lambda>m. m_id m = mid \<and> m_groupId m = gid) (db_members s)")
    case None
    then have "\<not> (\<exists>m\<in>set (db_members s). m_id m = mid \<and> m_groupId m = gid)" by (auto simp: find_None_iff)
    with None show ?thesis by (auto simp: rally_member_guard_def getMemberUserIdInGroup_def)
  next
    case (Some m)
    then have m: "m \<in> set (db_members s)" "m_id m = mid" "m_groupId m = gid"
      by (metis (mono_tags, lifting) find_Some_iff nth_mem)+
    have only: "m' = m" if "m' \<in> set (db_members s)" "m_id m' = mid" for m'
      using distinct_map_eqD [OF d that(1) m(1)] that(2) m(2) by simp
    have "rally_member_guard (Some (uid, role)) gid mid s = Inr () \<longleftrightarrow>
        gid \<noteq> [] \<and> mid \<noteq> [] \<and> (role \<in> set ADMIN_ROLES \<or> m_userId m = uid)"
      by (auto simp: rally_member_guard_def getMemberUserIdInGroup_def Some)
    with m only show ?thesis by metis
  qed
qed

theorem member_guard_exact_witness: "rally_member_guard (Some (2, ''member'')) ''a'' ''n'' ex_running = Inr ()"
  using member_guard_exact [OF ex_running_reach, of 2 "''member''" "''a''" "''n''"]
  by (simp add: ex_running_members ex_member_def)

subsection \<open>Where the code leaves the invariant\<close>

text \<open>
  Property C4. The ban of a user deletes the memberships by the cascade and renumbers nothing. When
  the user was not the last of the group, its size now collides with the number of the last member,
  and every later \<open>addMember\<close> to the group fails on the unique key.
\<close>

theorem ban_blocks_add:
  assumes "rally_reach s" and "m \<in> set (group_members s gid)"
    and "m_orderIndex m < int (length (group_members s gid))"
    and "\<forall>g\<in>set (db_groups s). g_createdById g \<noteq> m_userId m"
    and "find_user s userId \<noteq> None" and "userId \<notin> m_userId ` set (group_members s gid)"
  shows "fst (ban_user_row (m_userId m) s) = Inr () \<and>
    fst (add_member gid userId newId (snd (ban_user_row (m_userId m) s))) = Inl DuplicateKey"
proof -
  let ?u = "m_userId m" and ?ms = "group_members s gid"
  let ?s = "s\<lparr>db_users := filter (\<lambda>u. u_id u \<noteq> ?u) (db_users s), db_members := filter (\<lambda>m. m_userId m \<noteq> ?u) (db_members s)\<rparr>"
  have mo: "members_ok s" using reach_inv [OF assms(1)] by (simp add: rally_inv_def)
  then have num: "numbered ?ms" and dist: "distinct (map m_userId ?ms)" and ten: "length ?ms \<le> MAX_GROUP_MEMBERS"
    by (simp_all add: members_ok_def members_base_def)
  have ban: "ban_user_row ?u s = (Inr (), ?s)" using assms(4) by (auto simp: ban_user_row_def list_ex_iff)
  have gm: "group_members ?s gid = filter (\<lambda>m'. m_userId m' \<noteq> ?u) ?ms"
    by (simp add: group_members_def conj_commute)
  have len: "length (group_members ?s gid) = length ?ms - 1" unfolding gm by (rule filter_out_length [OF dist assms(2)])
  have pos: "0 < length ?ms" using assms(2) by (cases ?ms) auto
  have room: "\<not> MAX_GROUP_MEMBERS \<le> length (group_members ?s gid)" using len ten pos by linarith
  have new: "\<not> list_ex (\<lambda>m. m_userId m = userId) (group_members ?s gid)"
    using assms(6) by (auto simp: gm list_ex_iff)
  have "int (length ?ms) \<in> m_orderIndex ` set ?ms" using num pos unfolding numbered_def by (simp add: Suc_le_eq del: length_greater_0_conv)
  then obtain l where l: "l \<in> set ?ms" "m_orderIndex l = int (length ?ms)" by auto
  then have "m_userId l \<noteq> ?u" using assms(3) distinct_map_eqD [OF dist l(1) assms(2)] by force
  then have "l \<in> set (db_members ?s)" "m_groupId l = gid" using l(1) by (auto simp: group_members_def)
  moreover have "m_orderIndex l = int (length (group_members ?s gid)) + 1" using l(2) len pos by linarith
  ultimately have clash: "list_ex (\<lambda>m'. m_id m' = newId \<or> (m_groupId m' = gid \<and>
      (m_orderIndex m' = int (length (group_members ?s gid)) + 1 \<or> m_userId m' = userId))) (db_members ?s)"
    by (auto simp: list_ex_iff)
  have "find_group ?s gid \<noteq> None" using mo assms(2) by (auto simp: members_ok_def members_base_def group_members_def find_group_def)
  moreover have "find_user ?s userId \<noteq> None"
    using assms(2,5,6) by (auto simp: find_user_def find_None_iff)
  ultimately have "fst (add_member gid userId newId ?s) = Inl DuplicateKey"
    using room new clash by (simp add: add_member_def Let_def insert_member_def)
  then show ?thesis by (simp add: ban)
qed

theorem ban_blocks_add_witness:
  "fst (add_member ''a'' 3 ''x'' (snd (ban_user_row 2 ex_running))) = Inl DuplicateKey"
  using ban_blocks_add [OF ex_running_reach, of "ex_member ''n'' 2 1" "''a''" 3 "''x''"]
  by (simp add: group_members_def ex_running_members ex_running_groups ex_running_users ex_member_def ex_group_def
      find_user_def ex_user_def)

text \<open>
  Removing a running group leaves the lock with it: until the timer fires, every start
  of another group is refused as busy.
\<close>

theorem remove_keeps_lock:
  assumes "rally_reach s" and "g \<in> set (db_groups s)" and "g_state g = Running"
    and "find_group (snd (remove_group (g_id g) s)) gid \<noteq> None"
  shows "fst (startCountdown db now gid (snd (remove_group (g_id g) s))) = Inl (BusyConflict (Some (HRally (g_id g))))"
proof -
  let ?s = "snd (remove_group (g_id g) s)"
  have inv: "rally_inv s" by (rule reach_inv [OF assms(1)])
  then have h: "holder (rs_lock s) = Some (HRally (g_id g))" using assms(2,3) by (simp add: rally_inv_def running_held_def)
  have "rs_lock ?s = rs_lock s"
  proof (cases "find_group s (g_id g)")
    case None
    then show ?thesis by (simp add: remove_group_def)
  next
    case (Some r)
    then show ?thesis using remove_group_tables [of s "g_id g" r] inv by (simp add: core_def rally_inv_def)
  qed
  then have lock: "holder (rs_lock ?s) = Some (HRally (g_id g))" using h by simp
  obtain rows where r: "reorder_group gid ?s = Inr (?s\<lparr>db_members := rows\<rparr>)"
    using rally_inv_reorder_self [OF remove_group_inv [OF inv]] by blast
  obtain g' where "find_group (?s\<lparr>db_members := rows\<rparr>) gid = Some g'"
    using assms(4) by (auto simp: find_group_def)
  then show ?thesis using startCountdown_busy [OF r] lock by simp
qed

theorem remove_keeps_lock_witness:
  "fst (startCountdown (True, True) 100 ''b'' (snd (remove_group ''a'' ex_running))) = Inl (BusyConflict (Some (HRally ''a'')))"
proof -
  have f: "find_group ex_running ''a'' = Some ((ex_group ''a'' 1)\<lparr>g_state := Running, g_startedAtServerMs := Some 7000,
      g_maxMarchSeconds := Some 50\<rparr>)" by (simp add: find_group_def ex_running_groups ex_group_def)
  have "groups_ok ex_running" using reach_inv [OF ex_running_reach] by (simp add: rally_inv_def)
  from remove_group_tables [OF this f]
  have "db_groups (snd (remove_group ''a'' ex_running)) = [lowered 1 (ex_group ''b'' 2)]"
    by (simp add: core_def ex_running_groups ex_group_def)
  then have "find_group (snd (remove_group ''a'' ex_running)) ''b'' \<noteq> None"
    by (simp add: find_group_def ex_group_def lowered_def)
  then show ?thesis
    using remove_keeps_lock [OF ex_running_reach ex_running_group, of "''b''" "(True, True)" 100] by (simp add: ex_group_def)
qed

end
