(* ===== verification/ReadyProbe.thy ===== *)
theory ReadyProbe
  imports JsText
begin

text \<open>
  \<open>ReadyNegotiationService\<close> of \<open>server/src/realtime/ready-negotiation.service.ts\<close>: the probe of the
  connected clients that decides how far in the future a countdown starts. Clock readings are
  integers, so round-trip times are too. \<open>Math.ceil(0.95 * n)\<close> is \<open>(95 * n + 99) div 100\<close>: the double
  nearest to 0.95 differs from it by less than half a unit in the last place of the product, so
  the product rounds to the integer exactly when \<open>20\<close> divides \<open>n\<close>.
\<close>

definition OUTLIER_RTT_MS :: millis where "OUTLIER_RTT_MS = 500"
definition PROBE_DEADLINE_MS :: millis where "PROBE_DEADLINE_MS = OUTLIER_RTT_MS"
definition FALLBACK_RTT_MS :: millis where "FALLBACK_RTT_MS = 200"
definition STARTUP_GRACE_MARGIN_MS :: millis where "STARTUP_GRACE_MARGIN_MS = 200"
definition MAX_STARTUP_GRACE_MS :: millis where "MAX_STARTUP_GRACE_MS = 1500"

lemmas probe_consts = OUTLIER_RTT_MS_def PROBE_DEADLINE_MS_def FALLBACK_RTT_MS_def
  STARTUP_GRACE_MARGIN_MS_def MAX_STARTUP_GRACE_MS_def

datatype probe_outcome = Ack millis | ProbeTimeout | ProbeInvalid

text \<open>
  What one probe yields: the emit may throw, the acknowledgement may time out, and its payload must
  be an object whose \<open>t\<close> is a number.
\<close>

datatype probe_reply = EmitThrows | AckError | AckPayload jsval millis

definition probeOne :: "millis \<Rightarrow> probe_reply \<Rightarrow> probe_outcome" where
  "probeOne sentAt reply =
     (case reply of
        EmitThrows \<Rightarrow> ProbeInvalid
      | AckError \<Rightarrow> ProbeTimeout
      | AckPayload ack now \<Rightarrow>
          (case ack of
             JObj m \<Rightarrow> (case js_field m ''t'' of JNum n \<Rightarrow> Ack (now - sentAt) | _ \<Rightarrow> ProbeInvalid)
           | _ \<Rightarrow> ProbeInvalid))"

text \<open>The sockets to probe; the set of authenticated ids is optional.\<close>

definition selectProbeTargets :: "(string \<times> 's) list \<Rightarrow> string list option \<Rightarrow> 's list" where
  "selectProbeTargets entries authenticated =
     (let everyone = map snd entries
      in case authenticated of
           None \<Rightarrow> everyone
         | Some ids \<Rightarrow>
             if ids = [] then everyone
             else (let chosen = map snd (filter (\<lambda>(i, s). i \<in> set ids) entries)
                   in if chosen \<noteq> [] then chosen else everyone))"

fun toRtt :: "probe_outcome \<Rightarrow> millis" where
  "toRtt (Ack rtt) = min rtt OUTLIER_RTT_MS"
| "toRtt ProbeTimeout = OUTLIER_RTT_MS"
| "toRtt ProbeInvalid = FALLBACK_RTT_MS"

definition percentile_index :: "nat \<Rightarrow> nat" where
  "percentile_index n = min (n - 1) (max 0 ((95 * n + 99) div 100 - 1))"

definition calcPercentile :: "millis list \<Rightarrow> millis" where
  "calcPercentile values =
     (if values = [] then FALLBACK_RTT_MS else sort values ! percentile_index (length values))"

definition startup_grace :: "millis list \<Rightarrow> millis" where
  "startup_grace rtts = min (calcPercentile rtts * 2 + STARTUP_GRACE_MARGIN_MS) MAX_STARTUP_GRACE_MS"

text \<open>
  The decision: \<open>now\<close> is the clock reading at the end, after all the probes (none without sockets).
\<close>

definition negotiateStartedAt :: "millis \<Rightarrow> probe_outcome list \<Rightarrow> millis" where
  "negotiateStartedAt now outcomes =
     (if outcomes = [] then now + STARTUP_GRACE_MARGIN_MS
      else now + startup_grace (map toRtt outcomes))"

lemma percentile_index_bounds:
  assumes n: "0 < n"
  shows "percentile_index n < n" "95 * n \<le> 100 * (percentile_index n + 1)" "100 * percentile_index n < 95 * n"
proof -
  define q where "q = (95 * n + 99) div 100"
  have q: "100 * q \<le> 95 * n + 99" "95 * n + 99 < 100 * q + 100"
    unfolding q_def by (simp_all add: div_mult_mod_eq [symmetric, of "95 * n + 99" 100] algebra_simps)
  then have "1 \<le> q" "q \<le> n" using n by linarith+
  then have "percentile_index n = q - 1" by (simp add: percentile_index_def q_def [symmetric])
  then show "percentile_index n < n" "95 * n \<le> 100 * (percentile_index n + 1)" "100 * percentile_index n < 95 * n"
    using q n \<open>1 \<le> q\<close> \<open>q \<le> n\<close> by auto
qed

lemmas percentile_index_less = percentile_index_bounds(1)
lemmas percentile_index_covers = percentile_index_bounds(2)
lemmas percentile_index_least = percentile_index_bounds(3)

lemma calcPercentile_in: "values \<noteq> [] \<Longrightarrow> calcPercentile values \<in> set values"
  unfolding calcPercentile_def
  by (metis length_greater_0_conv length_sort nth_mem percentile_index_less set_sort)

lemma length_filter_sort: "length (filter P (sort xs)) = length (filter P xs)"
  by (metis mset_filter mset_sort size_mset)

lemma sorted_nth_count_le:
  assumes "sorted s" "i < length s"
  shows "i + 1 \<le> length (filter (\<lambda>v. v \<le> s ! i) s)"
proof -
  have "set (take (i + 1) s) \<subseteq> {v. v \<le> s ! i}"
    using assms by (auto simp: in_set_conv_nth sorted_nth_mono)
  then have "filter (\<lambda>v. v \<le> s ! i) (take (i + 1) s) = take (i + 1) s" by (auto intro: filter_True)
  then have "length (filter (\<lambda>v. v \<le> s ! i) (take (i + 1) s @ drop (i + 1) s)) \<ge> i + 1"
    using assms(2) by (simp only: filter_append length_append) simp
  then show ?thesis by simp
qed

lemma sorted_nth_count_less:
  assumes "sorted s" "i < length s"
  shows "length (filter (\<lambda>v. v < s ! i) s) \<le> i"
proof -
  have "set (drop i s) \<subseteq> {v. s ! i \<le> v}"
    using assms by (auto simp: in_set_conv_nth sorted_nth_mono)
  then have "filter (\<lambda>v. v < s ! i) (drop i s) = []" by (auto simp: filter_empty_conv)
  then have "length (filter (\<lambda>v. v < s ! i) (take i s @ drop i s)) \<le> i"
    by (simp only: filter_append length_append) (simp add: length_filter_le [THEN order_trans])
  then show ?thesis by simp
qed

text \<open>
  The value returned is the nearest-rank 95th percentile: at least 95\% of the values are at or below
  it and fewer than 95\% are strictly below.
\<close>

lemma calcPercentile_rank:
  assumes "values \<noteq> []"
  shows "95 * length values \<le> 100 * length (filter (\<lambda>v. v \<le> calcPercentile values) values)"
    and "100 * length (filter (\<lambda>v. v < calcPercentile values) values) < 95 * length values"
proof -
  let ?n = "length values" let ?i = "percentile_index ?n" let ?s = "sort values"
  have n: "0 < ?n" using assms by simp
  have i: "?i < length ?s" using percentile_index_less [OF n] by simp
  have v: "calcPercentile values = ?s ! ?i" using assms by (simp add: calcPercentile_def)
  have "?i + 1 \<le> length (filter (\<lambda>v. v \<le> ?s ! ?i) values)"
    using sorted_nth_count_le [OF sorted_sort i] by (simp only: length_filter_sort)
  then show "95 * ?n \<le> 100 * length (filter (\<lambda>v. v \<le> calcPercentile values) values)"
    using percentile_index_covers [OF n] v by simp
  have "length (filter (\<lambda>v. v < ?s ! ?i) values) \<le> ?i"
    using sorted_nth_count_less [OF sorted_sort i] by (simp only: length_filter_sort)
  then show "100 * length (filter (\<lambda>v. v < calcPercentile values) values) < 95 * ?n"
    using percentile_index_least [OF n] v by simp
qed

definition sane_outcome :: "probe_outcome \<Rightarrow> bool" where
  "sane_outcome out = (case out of Ack rtt \<Rightarrow> 0 \<le> rtt | _ \<Rightarrow> True)"

lemma toRtt_bounds: "sane_outcome out \<Longrightarrow> 0 \<le> toRtt out \<and> toRtt out \<le> OUTLIER_RTT_MS"
  by (cases out) (auto simp: sane_outcome_def probe_consts)

lemma startup_grace_bounds:
  assumes "outcomes \<noteq> []" and "list_all sane_outcome outcomes"
  shows "STARTUP_GRACE_MARGIN_MS \<le> startup_grace (map toRtt outcomes) \<and>
         startup_grace (map toRtt outcomes) \<le> 2 * OUTLIER_RTT_MS + STARTUP_GRACE_MARGIN_MS"
proof -
  have "calcPercentile (map toRtt outcomes) \<in> set (map toRtt outcomes)"
    using assms(1) by (intro calcPercentile_in) simp
  then have "0 \<le> calcPercentile (map toRtt outcomes) \<and> calcPercentile (map toRtt outcomes) \<le> OUTLIER_RTT_MS"
    using assms(2) toRtt_bounds by (auto simp: list_all_iff)
  then show ?thesis by (simp add: startup_grace_def probe_consts)
qed

text \<open>With twenty clients or more, one slow client does not move the start.\<close>

lemma percentile_absorbs_one:
  assumes "20 \<le> length values" and "length (filter (\<lambda>v. r < v) values) \<le> 1"
  shows "calcPercentile values \<le> r"
proof (rule ccontr)
  assume "\<not> ?thesis"
  then have sub: "length (filter (\<lambda>v. v \<le> r) values) \<le> length (filter (\<lambda>v. v < calcPercentile values) values)"
    by (intro length_filter_mono) simp
  have ne: "values \<noteq> []" using assms(1) by auto
  from calcPercentile_rank(2) [OF ne] sub
  have "100 * length (filter (\<lambda>v. v \<le> r) values) < 95 * length values" by linarith
  moreover have "length (filter (\<lambda>v. v \<le> r) values) + length (filter (\<lambda>v. r < v) values) = length values"
    using list_all_filter_length [of "\<lambda>v. v \<le> r" "values"] by (simp add: not_le)
  ultimately show False using assms by linarith
qed

end
