(* ===== verification/Limiters.thy ===== *)
theory Limiters
  imports Prelude
begin

text \<open>
  The request limiters of the server: \<open>WsRateLimitService\<close> (per socket and event),
  \<open>TranslationRateLimitService\<close> (per user and for the whole server) and the reservation log
  and the slots of \<open>TranslationQueueService\<close>. All of them keep a list of the times of the
  calls they let through and prune its front; each is an instance of \<open>window_log\<close>, which
  gives the rate bound.
\<close>

subsection \<open>WsRateLimitService\<close>

type_synonym socket_id = string
type_synonym event_name = string

record bucket =
  timestamps :: "millis list"
  lastWarnAt :: "millis option"

type_synonym ws_buckets = "(socket_id, (event_name, bucket) jmap) jmap"

definition ws_prune :: "millis \<Rightarrow> millis \<Rightarrow> millis list \<Rightarrow> millis list" where
  "ws_prune windowMs now ts = dropWhile (\<lambda>t. t < now - windowMs) ts"

definition ws_event_map :: "ws_buckets \<Rightarrow> socket_id \<Rightarrow> (event_name, bucket) jmap" where
  "ws_event_map st socketId = (case map_of st socketId of None \<Rightarrow> [] | Some m \<Rightarrow> m)"

definition ws_bucket :: "ws_buckets \<Rightarrow> socket_id \<Rightarrow> event_name \<Rightarrow> bucket" where
  "ws_bucket st socketId event =
     (case map_of (ws_event_map st socketId) event of
        None \<Rightarrow> \<lparr>timestamps = [], lastWarnAt = None\<rparr> | Some b \<Rightarrow> b)"

definition ws_put :: "ws_buckets \<Rightarrow> socket_id \<Rightarrow> event_name \<Rightarrow> bucket \<Rightarrow> ws_buckets" where
  "ws_put st socketId event b =
     AList.update socketId (AList.update event b (ws_event_map st socketId)) st"

text \<open>
  \<open>check\<close>: prune, refuse at the limit (the warning is logged once per window, which
  \<open>lastWarnAt\<close> records), otherwise record the call.
\<close>

definition ws_check ::
    "millis \<Rightarrow> socket_id \<Rightarrow> event_name \<Rightarrow> nat \<Rightarrow> millis \<Rightarrow> ws_buckets \<Rightarrow> bool \<times> ws_buckets" where
  "ws_check now socketId event limit windowMs st =
     (let b = ws_bucket st socketId event;
          ts = ws_prune windowMs now (timestamps b)
      in if limit \<le> length ts
         then (False, ws_put st socketId event
                 (if (case lastWarnAt b of None \<Rightarrow> True | Some w \<Rightarrow> windowMs \<le> now - w)
                  then \<lparr>timestamps = ts, lastWarnAt = Some now\<rparr>
                  else b\<lparr>timestamps := ts\<rparr>))
         else (True, ws_put st socketId event (b\<lparr>timestamps := ts @ [now]\<rparr>)))"

definition ws_cleanup :: "socket_id \<Rightarrow> ws_buckets \<Rightarrow> ws_buckets" where
  "ws_cleanup socketId st = AList.delete socketId st"

definition ws_times :: "ws_buckets \<Rightarrow> socket_id \<Rightarrow> event_name \<Rightarrow> millis list" where
  "ws_times st socketId event = timestamps (ws_bucket st socketId event)"

lemma ws_bucket_put [simp]:
  "ws_bucket (ws_put st s e b) s' e' = (if s' = s \<and> e' = e then b else ws_bucket st s' e')"
  by (auto simp: ws_bucket_def ws_put_def ws_event_map_def split: option.splits)

lemma ws_bucket_cleanup [simp]:
  "ws_bucket (ws_cleanup s st) s' e =
     (if s' = s then \<lparr>timestamps = [], lastWarnAt = None\<rparr> else ws_bucket st s' e)"
  by (simp add: ws_bucket_def ws_cleanup_def ws_event_map_def)

interpretation ws_log: window_log "ws_prune windowMs" windowMs limit for windowMs limit
proof unfold_locales
  fix l now
  show "\<exists>d. l = d @ ws_prune windowMs now l \<and> (\<forall>t\<in>set d. t \<le> now - windowMs)"
    unfolding ws_prune_def using dropWhile_split [of l "\<lambda>t. t < now - windowMs"] by force
qed

text \<open>\<open>check\<close> is one step of the log of its own bucket and leaves every other bucket alone.\<close>

lemma ws_check_step:
  assumes "ws_check now s e limit w st = (ok, st')"
  shows "ws_log.log_step w limit now (ws_times st s e) = (ws_times st' s e, ok)"
    and "(s', e') \<noteq> (s, e) \<Longrightarrow> ws_times st' s' e' = ws_times st s' e'"
  using assms
  by (auto simp: ws_check_def ws_times_def ws_log.log_step_def Let_def split: if_splits option.splits)

datatype ws_op = WsCheck millis socket_id event_name | WsCleanup socket_id

fun ws_run ::
    "(event_name \<Rightarrow> nat \<times> millis) \<Rightarrow> ws_buckets \<Rightarrow> ws_op list \<Rightarrow>
     ws_buckets \<times> (millis \<times> socket_id \<times> event_name) list" where
  "ws_run rule st [] = (st, [])"
| "ws_run rule st (WsCleanup s # ops) = ws_run rule (ws_cleanup s st) ops"
| "ws_run rule st (WsCheck now s e # ops) =
     (let (ok, st') = ws_check now s e (fst (rule e)) (snd (rule e)) st;
          (st'', acc) = ws_run rule st' ops
      in (st'', if ok then (now, s, e) # acc else acc))"

fun ws_op_times :: "socket_id \<Rightarrow> event_name \<Rightarrow> ws_op list \<Rightarrow> millis list" where
  "ws_op_times s e [] = []"
| "ws_op_times s e (WsCleanup s' # ops) = ws_op_times s e ops"
| "ws_op_times s e (WsCheck now s' e' # ops) =
     (if s' = s \<and> e' = e then now # ws_op_times s e ops else ws_op_times s e ops)"

definition ws_accepted :: "socket_id \<Rightarrow> event_name \<Rightarrow> (millis \<times> socket_id \<times> event_name) list \<Rightarrow> millis list" where
  "ws_accepted s e acc = map fst (filter (\<lambda>(t, s', e'). s' = s \<and> e' = e) acc)"

lemma ws_run_project:
  "ws_run rule st ops = (st', acc) \<Longrightarrow> WsCleanup s \<notin> set ops \<Longrightarrow>
   ws_log.log_run (snd (rule e)) (fst (rule e)) (ws_times st s e) (ws_op_times s e ops) =
     (ws_times st' s e, ws_accepted s e acc)"
proof (induction ops arbitrary: st st' acc)
  case Nil
  then show ?case by (simp add: ws_accepted_def)
next
  case (Cons op ops)
  show ?case
  proof (cases op)
    case (WsCleanup s')
    with Cons.prems have "ws_times (ws_cleanup s' st) s e = ws_times st s e" by (auto simp: ws_times_def)
    with Cons.prems Cons.IH [of "ws_cleanup s' st" st' acc] WsCleanup show ?thesis by simp
  next
    case (WsCheck now s' e')
    obtain ok st1 where ck: "ws_check now s' e' (fst (rule e')) (snd (rule e')) st = (ok, st1)"
      by (cases "ws_check now s' e' (fst (rule e')) (snd (rule e')) st") auto
    obtain st2 acc2 where rn: "ws_run rule st1 ops = (st2, acc2)" by (cases "ws_run rule st1 ops") auto
    have IH: "ws_log.log_run (snd (rule e)) (fst (rule e)) (ws_times st1 s e) (ws_op_times s e ops) =
        (ws_times st2 s e, ws_accepted s e acc2)"
      using rn Cons.prems(2) by (intro Cons.IH) auto
    have res: "st' = st2" "acc = (if ok then (now, s', e') # acc2 else acc2)"
      using Cons.prems(1) WsCheck ck rn by auto
    show ?thesis
    proof (cases "s' = s \<and> e' = e")
      case True
      with ck ws_check_step(1) [OF ck] IH res WsCheck show ?thesis
        by (auto simp: ws_accepted_def)
    next
      case False
      with ws_check_step(2) [OF ck, of s e] IH res WsCheck show ?thesis
        by (auto simp: ws_accepted_def)
    qed
  qed
qed

lemma ws_run_rate:
  assumes "ws_run rule [] ops = (st', acc)" and "WsCleanup s \<notin> set ops"
    and "sorted (ws_op_times s e ops)"
  shows "length (filter (\<lambda>t. T - snd (rule e) < t \<and> t \<le> T) (ws_accepted s e acc)) \<le> fst (rule e)"
proof -
  have "ws_times [] s e = []" by (simp add: ws_times_def ws_bucket_def ws_event_map_def)
  with ws_run_project [OF assms(1,2), of e] ws_log.log_run_rate [OF assms(3)]
  show ?thesis unfolding ws_log.in_window_def by metis
qed

text \<open>A client that stays below the limit is never refused.\<close>

lemma ws_check_admits:
  "length (filter (\<lambda>t. now - w \<le> t) (ws_times st s e)) < limit \<Longrightarrow> sorted (ws_times st s e) \<Longrightarrow>
   fst (ws_check now s e limit w st)"
proof -
  assume few: "length (filter (\<lambda>t. now - w \<le> t) (ws_times st s e)) < limit"
    and srt: "sorted (ws_times st s e)"
  have "dropWhile (\<lambda>t. t < now - w) xs = filter (\<lambda>t. now - w \<le> t) xs" if "sorted xs" for xs
    using that by (induction xs) (auto simp: filter_id_conv not_less intro!: filter_True [symmetric])
  with few srt show ?thesis
    by (simp add: ws_check_def ws_times_def ws_prune_def Let_def)
qed

subsection \<open>TranslationRateLimitService\<close>

record rate_result =
  allowed :: bool
  retryAfterMs :: millis

record tr_limits =
  requestBuckets :: "(int, millis list) jmap"
  providerBuckets :: "(int, millis list) jmap"
  batchBuckets :: "(int, millis list) jmap"
  globalProviderBucket :: "millis list"

definition TRANSLATION_REQUEST_RATE_LIMIT :: nat where "TRANSLATION_REQUEST_RATE_LIMIT = 60"
definition TRANSLATION_PROVIDER_RATE_LIMIT :: nat where "TRANSLATION_PROVIDER_RATE_LIMIT = 10"
definition TRANSLATION_GLOBAL_PROVIDER_RATE_LIMIT :: nat where "TRANSLATION_GLOBAL_PROVIDER_RATE_LIMIT = 60"
definition TRANSLATION_BATCH_RATE_LIMIT :: nat where "TRANSLATION_BATCH_RATE_LIMIT = 20"
definition TRANSLATION_RATE_WINDOW_MS :: millis where "TRANSLATION_RATE_WINDOW_MS = 60000"

lemmas tr_consts = TRANSLATION_REQUEST_RATE_LIMIT_def TRANSLATION_PROVIDER_RATE_LIMIT_def
  TRANSLATION_GLOBAL_PROVIDER_RATE_LIMIT_def TRANSLATION_BATCH_RATE_LIMIT_def
  TRANSLATION_RATE_WINDOW_MS_def

definition tr_prune :: "millis \<Rightarrow> millis list \<Rightarrow> millis list" where
  "tr_prune now ts = dropWhile (\<lambda>t. t \<le> now - TRANSLATION_RATE_WINDOW_MS) ts"

definition tr_blocked_result :: "millis list \<Rightarrow> millis \<Rightarrow> rate_result" where
  "tr_blocked_result ts now =
     \<lparr>allowed = False, retryAfterMs = max 1 (hd ts + TRANSLATION_RATE_WINDOW_MS - now)\<rparr>"

definition tr_times :: "(int, millis list) jmap \<Rightarrow> int \<Rightarrow> millis list" where
  "tr_times buckets userId = (case map_of buckets userId of None \<Rightarrow> [] | Some ts \<Rightarrow> ts)"

text \<open>
  \<open>prune\<close> shifts the array that the map already holds, so a refused call leaves the pruned array
  in place; a user with no array gets one only when a call is let through.
\<close>

definition tr_store :: "int \<Rightarrow> millis list \<Rightarrow> (int, millis list) jmap \<Rightarrow> (int, millis list) jmap" where
  "tr_store userId ts buckets = (if jm_has buckets userId then AList.update userId ts buckets else buckets)"

definition tr_consume_bucket ::
    "millis \<Rightarrow> (int, millis list) jmap \<Rightarrow> int \<Rightarrow> nat \<Rightarrow> rate_result \<times> (int, millis list) jmap" where
  "tr_consume_bucket now buckets userId limit =
     (let ts = tr_prune now (tr_times buckets userId)
      in if limit \<le> length ts
         then (tr_blocked_result ts now, tr_store userId ts buckets)
         else (\<lparr>allowed = True, retryAfterMs = 0\<rparr>, AList.update userId (ts @ [now]) buckets))"

definition tr_consume_request :: "millis \<Rightarrow> int \<Rightarrow> tr_limits \<Rightarrow> rate_result \<times> tr_limits" where
  "tr_consume_request now userId st =
     (let (r, bs) = tr_consume_bucket now (requestBuckets st) userId TRANSLATION_REQUEST_RATE_LIMIT
      in (r, st\<lparr>requestBuckets := bs\<rparr>))"

definition tr_consume_batch :: "millis \<Rightarrow> int \<Rightarrow> tr_limits \<Rightarrow> rate_result \<times> tr_limits" where
  "tr_consume_batch now userId st =
     (let (r, bs) = tr_consume_bucket now (batchBuckets st) userId TRANSLATION_BATCH_RATE_LIMIT
      in (r, st\<lparr>batchBuckets := bs\<rparr>))"

definition tr_consume_provider_miss :: "millis \<Rightarrow> int \<Rightarrow> tr_limits \<Rightarrow> rate_result \<times> tr_limits" where
  "tr_consume_provider_miss now userId st =
     (let ts = tr_prune now (tr_times (providerBuckets st) userId);
          gts = tr_prune now (globalProviderBucket st);
          pruned = st\<lparr>providerBuckets := tr_store userId ts (providerBuckets st),
                      globalProviderBucket := gts\<rparr>
      in if TRANSLATION_PROVIDER_RATE_LIMIT \<le> length ts then (tr_blocked_result ts now, pruned)
         else if TRANSLATION_GLOBAL_PROVIDER_RATE_LIMIT \<le> length gts
              then (tr_blocked_result gts now, pruned)
         else (\<lparr>allowed = True, retryAfterMs = 0\<rparr>,
               st\<lparr>providerBuckets := AList.update userId (ts @ [now]) (providerBuckets st),
                  globalProviderBucket := gts @ [now]\<rparr>))"

interpretation tr_log: window_log tr_prune TRANSLATION_RATE_WINDOW_MS limit for limit
  by unfold_locales (auto simp: tr_prune_def dropWhile_split)

lemma tr_times_update [simp]:
  "tr_times (AList.update u ts bs) u' = (if u' = u then ts else tr_times bs u')"
  by (simp add: tr_times_def)

lemma tr_times_store [simp]:
  "tr_times (tr_store u ts bs) u' =
     (if u' = u \<and> jm_has bs u then ts else tr_times bs u')"
  by (auto simp: tr_store_def)

lemma tr_times_absent: "\<not> jm_has bs u \<Longrightarrow> tr_times bs u = []"
  by (simp add: tr_times_def)

lemma tr_prune_Nil [simp]: "tr_prune now [] = []"
  by (simp add: tr_prune_def)

lemma tr_consume_bucket_step:
  "tr_consume_bucket now bs u limit = (r, bs') \<Longrightarrow>
   tr_log.log_step limit now (tr_times bs u) = (tr_times bs' u, allowed r)"
  by (cases "jm_has bs u")
    (auto simp: tr_consume_bucket_def tr_log.log_step_def Let_def tr_blocked_result_def tr_times_absent
      split: if_splits)

text \<open>
  A refused caller that waits the \<open>retryAfterMs\<close> it was told is let through (when nobody else
  used its bucket meanwhile), and it is never told to wait longer than the window.
\<close>

lemma tr_retry_after:
  assumes blocked: "tr_consume_bucket now bs u limit = (r, bs')" "\<not> allowed r"
    and lim: "0 < limit" "length (tr_times bs u) \<le> limit"
    and past: "\<forall>t\<in>set (tr_times bs u). t \<le> now"
  shows "1 \<le> retryAfterMs r \<and> retryAfterMs r \<le> TRANSLATION_RATE_WINDOW_MS \<and>
         allowed (fst (tr_consume_bucket (now + retryAfterMs r) bs' u limit))"
proof -
  let ?ts = "tr_prune now (tr_times bs u)"
  have full: "limit \<le> length ?ts" and r: "r = tr_blocked_result ?ts now"
    and bs': "bs' = tr_store u ?ts bs"
    using blocked by (auto simp: tr_consume_bucket_def Let_def split: if_splits)
  then obtain t ts where ts: "?ts = t # ts" using lim(1) by (cases ?ts) auto
  have "length ?ts \<le> length (tr_times bs u)" by (simp add: tr_prune_def length_dropWhile_le)
  then have len: "length ts < limit" using ts lim(2) by simp
  have has: "jm_has bs u" using ts by (auto simp: tr_times_def split: option.splits)
  have t_young: "\<not> t \<le> now - TRANSLATION_RATE_WINDOW_MS"
    using ts unfolding tr_prune_def by (auto simp: dropWhile_eq_Cons_conv)
  have "t \<in> set (tr_times bs u)"
    using ts unfolding tr_prune_def by (metis list.set_intros(1) set_dropWhileD)
  then have t_le: "t \<le> now" using past by blast
  have ra: "retryAfterMs r = t + TRANSLATION_RATE_WINDOW_MS - now"
    using r ts t_young by (auto simp: tr_blocked_result_def)
  have "length (tr_prune (now + retryAfterMs r) (tr_times bs' u)) \<le> length ts"
    using bs' has ts ra by (auto simp: tr_prune_def length_dropWhile_le)
  then have "allowed (fst (tr_consume_bucket (now + retryAfterMs r) bs' u limit))"
    using len by (auto simp: tr_consume_bucket_def Let_def)
  then show ?thesis using ra t_young t_le by (auto simp: tr_consts)
qed

text \<open>
  The provider calls: a run of \<open>consumeProviderMiss\<close> for any users, and what it let through.
\<close>

fun tr_provider_run :: "tr_limits \<Rightarrow> (millis \<times> int) list \<Rightarrow> tr_limits \<times> (millis \<times> int) list" where
  "tr_provider_run st [] = (st, [])"
| "tr_provider_run st ((now, u) # calls) =
     (let (r, st') = tr_consume_provider_miss now u st;
          (st'', acc) = tr_provider_run st' calls
      in (st'', if allowed r then (now, u) # acc else acc))"

definition tr_provider_inv :: "millis \<Rightarrow> (millis \<times> int) list \<Rightarrow> tr_limits \<Rightarrow> bool" where
  "tr_provider_inv now past st \<longleftrightarrow>
     tr_log.log_inv TRANSLATION_GLOBAL_PROVIDER_RATE_LIMIT now (map fst past) (globalProviderBucket st) \<and>
     (\<forall>u. tr_log.log_inv TRANSLATION_PROVIDER_RATE_LIMIT now
            (map fst (filter (\<lambda>(t, u'). u' = u) past)) (tr_times (providerBuckets st) u))"

lemma tr_provider_inv_later: "tr_provider_inv now past st \<Longrightarrow> now \<le> now' \<Longrightarrow> tr_provider_inv now' past st"
  unfolding tr_provider_inv_def using tr_log.log_inv_later by blast

lemma tr_provider_step_inv:
  assumes inv: "tr_provider_inv now past st"
    and step: "tr_consume_provider_miss now u st = (r, st')"
  shows "tr_provider_inv now (past @ (if allowed r then [(now, u)] else [])) st'"
proof -
  let ?ts = "tr_prune now (tr_times (providerBuckets st) u)"
  let ?g = "tr_prune now (globalProviderBucket st)"
  have g: "tr_log.log_inv TRANSLATION_GLOBAL_PROVIDER_RATE_LIMIT now (map fst past) ?g"
    using inv by (simp add: tr_provider_inv_def tr_log.log_inv_prune)
  have us: "tr_log.log_inv TRANSLATION_PROVIDER_RATE_LIMIT now
      (map fst (filter (\<lambda>(t, u'). u' = v) past)) (tr_times (providerBuckets st) v)" for v
    using inv by (simp add: tr_provider_inv_def)
  have u: "tr_log.log_inv TRANSLATION_PROVIDER_RATE_LIMIT now
      (map fst (filter (\<lambda>(t, u'). u' = u) past)) ?ts"
    by (rule tr_log.log_inv_prune [OF us])
  have u': "tr_log.log_inv TRANSLATION_PROVIDER_RATE_LIMIT now
      (map fst (filter (\<lambda>(t, u'). u' = v) past)) (tr_times (tr_store u ?ts (providerBuckets st)) v)" for v
    using us [of v] u by auto
  show ?thesis
  proof (cases "length ?ts < TRANSLATION_PROVIDER_RATE_LIMIT \<and>
      length ?g < TRANSLATION_GLOBAL_PROVIDER_RATE_LIMIT")
    case True
    then have "r = \<lparr>allowed = True, retryAfterMs = 0\<rparr>"
      "st' = st\<lparr>providerBuckets := AList.update u (?ts @ [now]) (providerBuckets st),
               globalProviderBucket := ?g @ [now]\<rparr>"
      using step by (auto simp: tr_consume_provider_miss_def Let_def)
    then show ?thesis
      using tr_log.log_inv_accept [OF g] tr_log.log_inv_accept [OF u] us True
      by (auto simp: tr_provider_inv_def)
  next
    case False
    then have "\<not> allowed r" "st' = st\<lparr>providerBuckets := tr_store u ?ts (providerBuckets st),
        globalProviderBucket := ?g\<rparr>"
      using step by (auto simp: tr_consume_provider_miss_def Let_def tr_blocked_result_def split: if_splits)
    then show ?thesis using g u' by (simp add: tr_provider_inv_def)
  qed
qed

lemma tr_provider_run_inv:
  "tr_provider_inv now past st \<Longrightarrow> sorted (now # map fst calls) \<Longrightarrow>
   tr_provider_run st calls = (st', acc) \<Longrightarrow> \<exists>now'. tr_provider_inv now' (past @ acc) st'"
proof (induction calls arbitrary: now past st st' acc)
  case Nil
  then show ?case by auto
next
  case (Cons c calls)
  obtain n u where c: "c = (n, u)" by (cases c)
  obtain r st1 where st: "tr_consume_provider_miss n u st = (r, st1)"
    by (cases "tr_consume_provider_miss n u st") auto
  obtain st2 acc2 where rn: "tr_provider_run st1 calls = (st2, acc2)"
    by (cases "tr_provider_run st1 calls") auto
  have "tr_provider_inv n past st" using Cons.prems(1,2) c by (auto intro: tr_provider_inv_later)
  from Cons.IH [OF tr_provider_step_inv [OF this st] _ rn] Cons.prems(2,3) c st rn
  show ?case by (auto split: if_splits)
qed

definition tr_initial :: tr_limits where
  "tr_initial = \<lparr>requestBuckets = [], providerBuckets = [], batchBuckets = [], globalProviderBucket = []\<rparr>"

lemma tr_provider_inv_initial: "tr_provider_inv now [] tr_initial"
  by (simp add: tr_provider_inv_def tr_initial_def tr_times_def tr_log.log_inv_start)

lemma tr_provider_rates:
  assumes "tr_provider_run tr_initial calls = (st', acc)" and "sorted (map fst calls)"
  shows "length (filter (\<lambda>t. T - TRANSLATION_RATE_WINDOW_MS < t \<and> t \<le> T) (map fst acc))
           \<le> TRANSLATION_GLOBAL_PROVIDER_RATE_LIMIT"
    and "length (filter (\<lambda>t. T - TRANSLATION_RATE_WINDOW_MS < t \<and> t \<le> T)
           (map fst (filter (\<lambda>(t, u'). u' = u) acc))) \<le> TRANSLATION_PROVIDER_RATE_LIMIT"
proof -
  have "\<exists>now. sorted (now # map fst calls)"
    using assms(2) by (cases "map fst calls") auto
  then obtain now' where "tr_provider_inv now' acc st'"
    using tr_provider_run_inv [OF tr_provider_inv_initial _ assms(1)] by fastforce
  then show "length (filter (\<lambda>t. T - TRANSLATION_RATE_WINDOW_MS < t \<and> t \<le> T) (map fst acc))
           \<le> TRANSLATION_GLOBAL_PROVIDER_RATE_LIMIT"
    and "length (filter (\<lambda>t. T - TRANSLATION_RATE_WINDOW_MS < t \<and> t \<le> T)
           (map fst (filter (\<lambda>(t, u'). u' = u) acc))) \<le> TRANSLATION_PROVIDER_RATE_LIMIT"
    by (auto simp: tr_provider_inv_def tr_log.log_inv_def tr_log.in_window_def)
qed

subsection \<open>TranslationQueueService\<close>

text \<open>
  Server-side translation calls: at most \<open>rpm\<close> reservations a minute, at most four calls running,
  the rest waiting in order. A call is a \<open>job\<close>; \<open>run\<close> up to its first suspension is \<open>tq_run\<close>, the
  \<open>finally\<close> block of a finished call is \<open>tq_release\<close>, which hands the slot to the first waiter.
\<close>

definition TRANSLATION_QUEUE_CONCURRENCY :: nat where "TRANSLATION_QUEUE_CONCURRENCY = 4"
definition TRANSLATION_QUEUE_WINDOW_MS :: millis where "TRANSLATION_QUEUE_WINDOW_MS = 60000"

record 'j tr_queue =
  running :: nat
  waiting :: "'j list"
  started :: "millis list"

datatype tq_result = TqLimit millis | TqStarted | TqWaiting

definition tq_prune :: "millis \<Rightarrow> millis list \<Rightarrow> millis list" where
  "tq_prune now ts = dropWhile (\<lambda>t. t \<le> now - TRANSLATION_QUEUE_WINDOW_MS) ts"

definition tq_run :: "nat \<Rightarrow> millis \<Rightarrow> 'j \<Rightarrow> 'j tr_queue \<Rightarrow> tq_result \<times> 'j tr_queue" where
  "tq_run rpm now job q =
     (let ts = tq_prune now (started q)
      in if rpm \<le> length ts
         then (TqLimit (max 1 (hd ts + TRANSLATION_QUEUE_WINDOW_MS - now)), q\<lparr>started := ts\<rparr>)
         else if running q < TRANSLATION_QUEUE_CONCURRENCY
         then (TqStarted, q\<lparr>started := ts @ [now], running := running q + 1\<rparr>)
         else (TqWaiting, q\<lparr>started := ts @ [now], waiting := waiting q @ [job]\<rparr>))"

definition tq_release :: "'j tr_queue \<Rightarrow> 'j option \<times> 'j tr_queue" where
  "tq_release q =
     (case waiting q of
        [] \<Rightarrow> (None, q\<lparr>running := running q - 1\<rparr>)
      | j # js \<Rightarrow> (Some j, q\<lparr>running := running q - 1 + 1, waiting := js\<rparr>))"

interpretation tq_log: window_log tq_prune TRANSLATION_QUEUE_WINDOW_MS limit for limit
  by unfold_locales (auto simp: tq_prune_def dropWhile_split)

text \<open>
  The steps of the queue: a call comes in, or one of the running calls ends. The ghost lists are the
  times of the reservations made and the jobs in the order they came to run.
\<close>

inductive tq_reach :: "nat \<Rightarrow> millis \<Rightarrow> millis list \<Rightarrow> 'j list \<Rightarrow> 'j list \<Rightarrow> 'j tr_queue \<Rightarrow> bool" for rpm where
  tq_start: "tq_reach rpm now [] [] [] \<lparr>running = 0, waiting = [], started = []\<rparr>"
| tq_reject: "tq_reach rpm now past admitted served q \<Longrightarrow> now \<le> now' \<Longrightarrow>
    tq_run rpm now' job q = (TqLimit ms, q') \<Longrightarrow> tq_reach rpm now' past admitted served q'"
| tq_go: "tq_reach rpm now past admitted served q \<Longrightarrow> now \<le> now' \<Longrightarrow>
    tq_run rpm now' job q = (TqStarted, q') \<Longrightarrow>
    tq_reach rpm now' (past @ [now']) (admitted @ [job]) (served @ [job]) q'"
| tq_wait: "tq_reach rpm now past admitted served q \<Longrightarrow> now \<le> now' \<Longrightarrow>
    tq_run rpm now' job q = (TqWaiting, q') \<Longrightarrow>
    tq_reach rpm now' (past @ [now']) (admitted @ [job]) served q'"
| tq_end: "tq_reach rpm now past admitted served q \<Longrightarrow> 0 < running q \<Longrightarrow>
    tq_release q = (j, q') \<Longrightarrow>
    tq_reach rpm now past admitted (served @ (case j of None \<Rightarrow> [] | Some x \<Rightarrow> [x])) q'"

definition tq_inv :: "'j list \<Rightarrow> 'j list \<Rightarrow> 'j tr_queue \<Rightarrow> bool" where
  "tq_inv admitted served q \<longleftrightarrow>
     running q \<le> TRANSLATION_QUEUE_CONCURRENCY \<and>
     (waiting q = [] \<or> running q = TRANSLATION_QUEUE_CONCURRENCY) \<and> admitted = served @ waiting q"

lemma tq_run_cases:
  "tq_run rpm now job q = (TqLimit ms, q') \<Longrightarrow>
     rpm \<le> length (tq_prune now (started q)) \<and> q' = q\<lparr>started := tq_prune now (started q)\<rparr>"
  "tq_run rpm now job q = (TqStarted, q') \<Longrightarrow>
     length (tq_prune now (started q)) < rpm \<and> running q < TRANSLATION_QUEUE_CONCURRENCY \<and>
     q' = q\<lparr>started := tq_prune now (started q) @ [now], running := running q + 1\<rparr>"
  "tq_run rpm now job q = (TqWaiting, q') \<Longrightarrow>
     length (tq_prune now (started q)) < rpm \<and> \<not> running q < TRANSLATION_QUEUE_CONCURRENCY \<and>
     q' = q\<lparr>started := tq_prune now (started q) @ [now], waiting := waiting q @ [job]\<rparr>"
  by (auto simp: tq_run_def Let_def split: if_splits)

lemma tq_reach_inv: "tq_reach rpm now past admitted served q \<Longrightarrow> tq_inv admitted served q"
proof (induction rule: tq_reach.induct)
  case (tq_end now past admitted served q j q')
  then show ?case
    by (cases "waiting q") (auto simp: tq_inv_def tq_release_def TRANSLATION_QUEUE_CONCURRENCY_def)
qed (auto simp: tq_inv_def TRANSLATION_QUEUE_CONCURRENCY_def dest!: tq_run_cases)

lemma tq_release_started [simp]: "tq_release q = (j, q') \<Longrightarrow> started q' = started q"
  by (auto simp: tq_release_def split: list.splits)

lemma tq_reach_log: "tq_reach rpm now past admitted served q \<Longrightarrow> tq_log.log_inv rpm now past (started q)"
proof (induction rule: tq_reach.induct)
  case (tq_start now)
  then show ?case by (simp add: tq_log.log_inv_start)
next
  case (tq_reject now past admitted served q now' job ms q')
  then show ?case using tq_log.log_inv_prune [OF tq_log.log_inv_later] tq_run_cases(1) by fastforce
next
  case (tq_go now past admitted served q now' job q')
  then show ?case
    using tq_log.log_inv_accept [OF tq_log.log_inv_prune [OF tq_log.log_inv_later]] tq_run_cases(2)
    by fastforce
next
  case (tq_wait now past admitted served q now' job q')
  then show ?case
    using tq_log.log_inv_accept [OF tq_log.log_inv_prune [OF tq_log.log_inv_later]] tq_run_cases(3)
    by fastforce
next
  case (tq_end now past admitted served q j q')
  then show ?case by simp
qed

end
