(* ===== verification/Realtime.thy ===== *)
theory Realtime
  imports ReadyProbe BusyLock Limiters
begin

text \<open>
  \<open>RealtimeGateway\<close> (\<open>server/src/realtime/realtime.gateway.ts\<close>): the connections, the clock ping and
  the countdown. \<open>countdown:start\<close> awaits the probe of the clients while it holds the lock, so it is
  two functions: the part up to the probe and the part after it. Between the two every other handler
  may run, and so may the rally service on the shared lock. The parameters of a handler are what it
  reads from outside: the clock, whether the socket is still connected, the user the token belongs to.
\<close>

record online_user =
  on_nickname :: jstring
  on_alliance :: jstring
  on_role :: string

record countdown_state =
  cd_active :: bool
  cd_startedAt :: millis
  cd_totalSeconds :: int

definition countdown_idle :: countdown_state where
  "countdown_idle = \<lparr>cd_active = False, cd_startedAt = 0, cd_totalSeconds = 0\<rparr>"

datatype rt_event =
    RtCountdownState countdown_state millis
  | RtBusyState "lock_holder option"
  | RtOnline "online_user list"
  | RtList jstring "jsval list"

datatype rt_target = ToAll | ToSocket socket_id

record rt_sys =
  onlineMap :: "(socket_id, online_user) jmap"
  countdown :: countdown_state
  packetReceivedAt :: "(socket_id, millis) jmap"
  rt_buckets :: ws_buckets
  rt_lock :: busy_lock
  onlineBroadcastTimer :: "millis option"
  rt_sent :: "(rt_target \<times> rt_event) list"
  rt_disconnected :: "socket_id list"

definition rt_initial :: rt_sys where
  "rt_initial = \<lparr>onlineMap = [], countdown = countdown_idle, packetReceivedAt = [], rt_buckets = [],
     rt_lock = lock_initial, onlineBroadcastTimer = None, rt_sent = [], rt_disconnected = []\<rparr>"

definition COUNTDOWN_AUTO_RELEASE_GRACE_MS :: millis where "COUNTDOWN_AUTO_RELEASE_GRACE_MS = 1000"
definition ONLINE_COALESCE_MS :: millis where "ONLINE_COALESCE_MS = 120"
definition SNAPSHOT_ALLIANCES :: "string list" where
  "SNAPSHOT_ALLIANCES = [''KOR'', ''NSL'', ''JKY'', ''GPX'', ''UFO'']"

definition rt_emit :: "rt_target \<Rightarrow> rt_event \<Rightarrow> rt_sys \<Rightarrow> rt_sys" where
  "rt_emit t ev s = s\<lparr>rt_sent := rt_sent s @ [(t, ev)]\<rparr>"

definition broadcastOnline :: "millis \<Rightarrow> rt_sys \<Rightarrow> rt_sys" where
  "broadcastOnline now s =
     (if onlineBroadcastTimer s \<noteq> None then s
      else s\<lparr>onlineBroadcastTimer := Some (now + ONLINE_COALESCE_MS)\<rparr>)"

definition online_fires :: "rt_sys \<Rightarrow> rt_sys" where
  "online_fires s =
     (case onlineBroadcastTimer s of
        None \<Rightarrow> s
      | Some due \<Rightarrow> rt_emit ToAll (RtOnline (map snd (onlineMap s))) (s\<lparr>onlineBroadcastTimer := None\<rparr>))"

subsection \<open>What a client is told when it connects\<close>

text \<open>
  \<open>formatNotice\<close> and the others copy fields; \<open>fmt\<close> is the formatter of dates and \<open>num\<close> is \<open>Number\<close>.
\<close>

definition pick :: "string list \<Rightarrow> (jstring \<times> jsval) list \<Rightarrow> (jstring \<times> jsval) list" where
  "pick ks m = map (\<lambda>k. (lit k, js_field m k)) ks"

definition formatNotice :: "(jsval \<Rightarrow> jsval) \<Rightarrow> (jstring \<times> jsval) list \<Rightarrow> jsval" where
  "formatNotice fmt n =
     JObj (pick [''id'', ''source'', ''title'', ''content'', ''authorNick'', ''lang''] n
           @ [(lit ''createdAt'', fmt (js_field n ''createdAt''))])"

definition formatAllianceNotice :: "(jsval \<Rightarrow> jsval) \<Rightarrow> (jstring \<times> jsval) list \<Rightarrow> jsval" where
  "formatAllianceNotice fmt n =
     JObj (pick [''id'', ''alliance'', ''source'', ''title'', ''content'', ''authorNick'', ''lang''] n
           @ [(lit ''createdAt'', fmt (js_field n ''createdAt''))])"

definition formatRally :: "(jsval \<Rightarrow> jsval) \<Rightarrow> (jstring \<times> jsval) list \<Rightarrow> jsval" where
  "formatRally num r =
     JObj (pick [''id'', ''name''] r @ [(lit ''endTimeUTC'', num (js_field r ''endTimeUTC''))]
           @ pick [''totalSeconds''] r)"

definition formatMember :: "(jstring \<times> jsval) list \<Rightarrow> jsval" where
  "formatMember m = JObj (pick [''id'', ''name'', ''role'', ''notes''] m)"

definition formatBoardPost :: "(jsval \<Rightarrow> jsval) \<Rightarrow> (jstring \<times> jsval) list \<Rightarrow> jsval" where
  "formatBoardPost fmt p =
     JObj (pick [''id'', ''alliance'', ''nickname'', ''userAlliance'', ''content'', ''lang''] p
           @ [(lit ''imageUrls'', if js_falsy (js_field p ''imageUrls'') then JArr [] else js_field p ''imageUrls''),
              (lit ''createdAt'', fmt (js_field p ''createdAt''))])"

type_synonym js_row = "(jstring \<times> jsval) list"

record snapshot =
  sn_notices :: "js_row list"
  sn_rallies :: "js_row list"
  sn_members :: "js_row list"
  sn_boards :: "(jstring \<times> js_row list) list"
  sn_allianceNotices :: "js_row list list"

definition snapshot_messages ::
    "(jsval \<Rightarrow> jsval) \<Rightarrow> (jsval \<Rightarrow> jsval) \<Rightarrow> snapshot \<Rightarrow> millis \<Rightarrow> rt_sys \<Rightarrow> rt_event list" where
  "snapshot_messages fmt num sn now s =
     [RtList (lit ''notices:updated'') (map (formatNotice fmt) (sn_notices sn)),
      RtList (lit ''rallies:updated'') (map (formatRally num) (sn_rallies sn)),
      RtList (lit ''members:updated'') (map formatMember (sn_members sn))] @
     map (\<lambda>(alliance, posts). RtList (lit ''board:updated:'' @ alliance) (map (formatBoardPost fmt) posts))
       (sn_boards sn) @
     map (\<lambda>(a, ns). RtList (lit ''alliance-notice:updated:'' @ lit a) (map (formatAllianceNotice fmt) ns))
       (zip SNAPSHOT_ALLIANCES (sn_allianceNotices sn)) @
     [RtCountdownState (countdown s) now, RtBusyState (getHolder (rt_lock s))]"

text \<open>\<open>handleConnection\<close> up to the queries, its end when they succeed, and its end when they fail.\<close>

definition rt_handleConnection :: "millis \<Rightarrow> socket_id \<Rightarrow> online_user option \<Rightarrow> bool \<Rightarrow> rt_sys \<Rightarrow> rt_sys" where
  "rt_handleConnection now c user conn s =
     (if \<not> conn then s
      else (case user of
              None \<Rightarrow> s\<lparr>rt_disconnected := rt_disconnected s @ [c]\<rparr>
            | Some u \<Rightarrow> broadcastOnline now (s\<lparr>onlineMap := AList.update c u (onlineMap s)\<rparr>)))"

definition rt_sendSnapshot ::
    "(jsval \<Rightarrow> jsval) \<Rightarrow> (jsval \<Rightarrow> jsval) \<Rightarrow> snapshot \<Rightarrow> millis \<Rightarrow> socket_id \<Rightarrow> rt_sys \<Rightarrow> rt_sys" where
  "rt_sendSnapshot fmt num sn now c s = fold (rt_emit (ToSocket c)) (snapshot_messages fmt num sn now s) s"

definition rt_handleDisconnect :: "millis \<Rightarrow> socket_id \<Rightarrow> rt_sys \<Rightarrow> rt_sys" where
  "rt_handleDisconnect now c s =
     broadcastOnline now (s\<lparr>onlineMap := AList.delete c (onlineMap s), rt_buckets := ws_cleanup c (rt_buckets s)\<rparr>)"

definition cleanupFailedConnection :: "millis \<Rightarrow> socket_id \<Rightarrow> rt_sys \<Rightarrow> rt_sys" where
  "cleanupFailedConnection now c s =
     (let s' = rt_handleDisconnect now c s in s'\<lparr>rt_disconnected := rt_disconnected s' @ [c]\<rparr>)"

definition kickUser :: "jstring \<Rightarrow> rt_sys \<Rightarrow> rt_sys" where
  "kickUser nickname s =
     s\<lparr>rt_disconnected := rt_disconnected s @ map fst (filter (\<lambda>(i, u). on_nickname u = nickname) (onlineMap s))\<rparr>"

definition trackPacketArrival :: "millis \<Rightarrow> socket_id \<Rightarrow> string \<Rightarrow> rt_sys \<Rightarrow> rt_sys" where
  "trackPacketArrival now c packet_type s =
     (if packet_type = ''message'' then s\<lparr>packetReceivedAt := AList.update c now (packetReceivedAt s)\<rparr> else s)"

text \<open>The two clock readings of the handler are arguments.\<close>

definition handleTimePing :: "millis \<Rightarrow> millis \<Rightarrow> socket_id \<Rightarrow> rt_sys \<Rightarrow> (millis \<times> millis \<times> millis) option \<times> rt_sys" where
  "handleTimePing enteredAt t2 c s =
     (let t1 = (case map_of (packetReceivedAt s) c of None \<Rightarrow> enteredAt | Some t \<Rightarrow> t);
          (ok, b) = ws_check enteredAt c ''time:ping'' 30 60000 (rt_buckets s)
      in (if ok then Some (t2, t1, t2) else None, s\<lparr>rt_buckets := b\<rparr>))"

subsection \<open>The countdown\<close>

datatype countdown_ack =
    CdOk | CdRefused | CdInvalid | CdRateLimit | CdBusy "lock_holder option" | CdThrows

definition may_countdown :: "online_user option \<Rightarrow> bool" where
  "may_countdown user = (case user of None \<Rightarrow> False | Some u \<Rightarrow> on_role u \<in> {''admin'', ''developer''})"

definition known_user :: "socket_id \<Rightarrow> online_user option \<Rightarrow> rt_sys \<Rightarrow> online_user option" where
  "known_user c resolved s = (case map_of (onlineMap s) c of None \<Rightarrow> resolved | Some u \<Rightarrow> Some u)"

text \<open>A number that is an integer from 1 to 600.\<close>

definition valid_seconds :: "jsval \<Rightarrow> int option" where
  "valid_seconds v =
     (case v of
        JNum (NumFin r) \<Rightarrow> if r = of_int \<lfloor>r\<rfloor> \<and> 1 \<le> r \<and> r \<le> 600 then Some \<lfloor>r\<rfloor> else None
      | _ \<Rightarrow> None)"

definition handleCountdownStart ::
    "millis \<Rightarrow> socket_id \<Rightarrow> online_user option \<Rightarrow> bool \<Rightarrow> jsval \<Rightarrow> rt_sys \<Rightarrow> (countdown_ack + int) \<times> rt_sys" where
  "handleCountdownStart now c resolved conn v s =
     (if \<not> conn then (Inl CdRefused, s)
      else if \<not> may_countdown (known_user c resolved s) then (Inl CdRefused, s)
      else (case valid_seconds v of
              None \<Rightarrow> (Inl CdInvalid, s)
            | Some totalSeconds \<Rightarrow>
                (let (ok, b) = ws_check now c ''countdown:start'' 5 60000 (rt_buckets s); s1 = s\<lparr>rt_buckets := b\<rparr>
                 in if \<not> ok then (Inl CdRateLimit, s1)
                    else (let (acquired, l) = tryAcquire now
                                (Some (totalSeconds * 1000 + COUNTDOWN_AUTO_RELEASE_GRACE_MS))
                                (Some CbCountdownAutoExpire) HCountdown (rt_lock s1)
                          in if \<not> acquired then (Inl (CdBusy (getHolder (rt_lock s1))), s1)
                             else (Inr totalSeconds, s1\<lparr>rt_lock := l\<rparr>)))))"

text \<open>After the probe; \<open>None\<close> is a probe that throws.\<close>

definition handleCountdownStart_resume ::
    "millis \<Rightarrow> millis option \<Rightarrow> int \<Rightarrow> rt_sys \<Rightarrow> countdown_ack \<times> rt_sys" where
  "handleCountdownStart_resume now negotiated totalSeconds s =
     (case negotiated of
        None \<Rightarrow> (CdThrows, rt_emit ToAll (RtBusyState None) (s\<lparr>rt_lock := lock_release HCountdown (rt_lock s)\<rparr>))
      | Some startedAt \<Rightarrow>
          if getHolder (rt_lock s) \<noteq> Some HCountdown then (CdBusy (getHolder (rt_lock s)), s)
          else (let l = snd (reschedule now (startedAt + totalSeconds * 1000 + COUNTDOWN_AUTO_RELEASE_GRACE_MS - now)
                              (Some CbCountdownAutoExpire) HCountdown (rt_lock s));
                    cd = \<lparr>cd_active = True, cd_startedAt = startedAt, cd_totalSeconds = totalSeconds\<rparr>
                in (CdOk, rt_emit ToAll (RtBusyState (getHolder l))
                      (rt_emit ToAll (RtCountdownState cd now) (s\<lparr>rt_lock := l, countdown := cd\<rparr>)))))"

definition handleCountdownStop ::
    "millis \<Rightarrow> socket_id \<Rightarrow> online_user option \<Rightarrow> bool \<Rightarrow> rt_sys \<Rightarrow> bool \<times> rt_sys" where
  "handleCountdownStop now c resolved conn s =
     (if \<not> conn then (False, s)
      else if \<not> may_countdown (known_user c resolved s) then (False, s)
      else if getHolder (rt_lock s) \<noteq> None \<and> getHolder (rt_lock s) \<noteq> Some HCountdown then (False, s)
      else (True, rt_emit ToAll (RtBusyState None) (rt_emit ToAll (RtCountdownState countdown_idle now)
             (s\<lparr>rt_lock := lock_release HCountdown (rt_lock s), countdown := countdown_idle\<rparr>))))"

definition countdownRemainingMs :: "millis \<Rightarrow> countdown_state \<Rightarrow> millis" where
  "countdownRemainingMs now cd =
     (if \<not> cd_active cd \<or> cd_startedAt cd = 0 \<or> cd_totalSeconds cd = 0 then 0
      else cd_startedAt cd + cd_totalSeconds cd * 1000 + COUNTDOWN_AUTO_RELEASE_GRACE_MS - now)"

definition handleCountdownAutoExpire :: "millis \<Rightarrow> rt_sys \<Rightarrow> rt_sys" where
  "handleCountdownAutoExpire now s =
     (let remainingMs = countdownRemainingMs now (countdown s);
          (acquired, l) = tryAcquire now (Some remainingMs) (Some CbCountdownAutoExpire) HCountdown (rt_lock s)
      in if 0 < remainingMs \<and> acquired then s\<lparr>rt_lock := l\<rparr>
         else rt_emit ToAll (RtBusyState (getHolder (rt_lock s)))
               (rt_emit ToAll (RtCountdownState countdown_idle now) (s\<lparr>countdown := countdown_idle\<rparr>)))"

text \<open>The timer of the lock: the lock is freed first, then the callback runs.\<close>

definition rt_timer_fires :: "millis \<Rightarrow> rt_sys \<Rightarrow> rt_sys" where
  "rt_timer_fires now s =
     (let (cb, l) = lock_fire (rt_lock s); s1 = s\<lparr>rt_lock := l\<rparr>
      in case cb of Some CbCountdownAutoExpire \<Rightarrow> handleCountdownAutoExpire now s1 | _ \<Rightarrow> s1)"

subsection \<open>Runs\<close>

text \<open>
  A configuration adds the starts whose probe is still under way. The rally service takes and gives
  back the same lock; the probe itself always ends with a time (\<open>negotiateStartedAt\<close> is total).
\<close>

datatype rt_op =
    RtConnect millis socket_id "online_user option" bool
  | RtDisconnect millis socket_id
  | RtSnapshotFails millis socket_id
  | RtPacket millis socket_id string
  | RtPing millis millis socket_id
  | RtStart millis socket_id "online_user option" bool jsval
  | RtResume millis "probe_outcome list" nat
  | RtStop millis socket_id "online_user option" bool
  | RtTimer millis
  | RtOnlineTimer
  | RtKick jstring
  | RtRallyAcquire millis millis group_id
  | RtRallyReschedule millis millis group_id
  | RtRallyRelease group_id

type_synonym rt_config = "rt_sys \<times> int list"

definition rt_begin :: "millis \<Rightarrow> socket_id \<Rightarrow> online_user option \<Rightarrow> bool \<Rightarrow> jsval \<Rightarrow> rt_config \<Rightarrow> rt_config" where
  "rt_begin now c r conn v cfg =
     (case handleCountdownStart now c r conn v (fst cfg) of
        (Inl a, s') \<Rightarrow> (s', snd cfg) | (Inr n, s') \<Rightarrow> (s', snd cfg @ [n]))"

definition rt_resume :: "millis \<Rightarrow> probe_outcome list \<Rightarrow> nat \<Rightarrow> rt_config \<Rightarrow> rt_config" where
  "rt_resume now outs i cfg =
     (if i < length (snd cfg)
      then (snd (handleCountdownStart_resume now (Some (negotiateStartedAt now outs)) (snd cfg ! i) (fst cfg)),
            take i (snd cfg) @ drop (Suc i) (snd cfg))
      else cfg)"

fun rt_exec :: "rt_op \<Rightarrow> rt_config \<Rightarrow> rt_config" where
  "rt_exec (RtConnect now c u conn) (s, p) = (rt_handleConnection now c u conn s, p)"
| "rt_exec (RtDisconnect now c) (s, p) = (rt_handleDisconnect now c s, p)"
| "rt_exec (RtSnapshotFails now c) (s, p) = (cleanupFailedConnection now c s, p)"
| "rt_exec (RtPacket now c t) (s, p) = (trackPacketArrival now c t s, p)"
| "rt_exec (RtPing now t2 c) (s, p) = (snd (handleTimePing now t2 c s), p)"
| "rt_exec (RtStart now c r conn v) cfg = rt_begin now c r conn v cfg"
| "rt_exec (RtResume now outs i) cfg = rt_resume now outs i cfg"
| "rt_exec (RtStop now c r conn) (s, p) = (snd (handleCountdownStop now c r conn s), p)"
| "rt_exec (RtTimer now) (s, p) = (rt_timer_fires now s, p)"
| "rt_exec RtOnlineTimer (s, p) = (online_fires s, p)"
| "rt_exec (RtKick n) (s, p) = (kickUser n s, p)"
| "rt_exec (RtRallyAcquire now ms g) (s, p) =
     (s\<lparr>rt_lock := snd (tryAcquire now (Some ms) (Some (CbRallyAutoIdle g)) (HRally g) (rt_lock s))\<rparr>, p)"
| "rt_exec (RtRallyReschedule now ms g) (s, p) =
     (s\<lparr>rt_lock := snd (reschedule now ms (Some (CbRallyAutoIdle g)) (HRally g) (rt_lock s))\<rparr>, p)"
| "rt_exec (RtRallyRelease g) (s, p) = (s\<lparr>rt_lock := lock_release (HRally g) (rt_lock s)\<rparr>, p)"

inductive rt_reach :: "rt_config \<Rightarrow> bool" where
  start: "rt_reach (rt_initial, [])"
| step: "rt_reach cfg \<Longrightarrow> rt_reach (rt_exec op cfg)"

end
