(* ===== verification/RealtimeRules.thy ===== *)
theory RealtimeRules
  imports Realtime
begin

text \<open>
  The countdown and the lock: a countdown is active only while the countdown holds the lock, its
  automatic end is due exactly at the end of the last second plus the margin, and a timer that fires
  early leaves it running.
\<close>

definition rt_lock_ok :: "busy_lock \<Rightarrow> bool" where
  "rt_lock_ok l \<longleftrightarrow>
     (case holder l of
        None \<Rightarrow> lock_timer l = None
      | Some HCountdown \<Rightarrow> \<exists>due. lock_timer l = Some (due, Some CbCountdownAutoExpire)
      | Some (HRally g) \<Rightarrow> \<forall>due. lock_timer l \<noteq> Some (due, Some CbCountdownAutoExpire))"

definition rt_inv :: "rt_config \<Rightarrow> bool" where
  "rt_inv cfg \<longleftrightarrow>
     rt_lock_ok (rt_lock (fst cfg)) \<and>
     (cd_active (countdown (fst cfg)) \<longrightarrow> holder (rt_lock (fst cfg)) = Some HCountdown) \<and>
     (\<forall>n\<in>set (snd cfg). 1 \<le> n \<and> n \<le> 600)"

lemma rt_inv_start: "rt_inv (rt_initial, [])"
  by (simp add: rt_inv_def rt_initial_def countdown_idle_def rt_lock_ok_def lock_initial_def)

text \<open>Operations that touch neither the lock nor the countdown.\<close>

lemma rt_inv_frame:
  "rt_lock s' = rt_lock s \<Longrightarrow> countdown s' = countdown s \<Longrightarrow> rt_inv (s, p) \<Longrightarrow> rt_inv (s', p)"
  by (simp add: rt_inv_def)

lemma rt_frames [simp]:
  "rt_lock (rt_emit t ev s) = rt_lock s" "countdown (rt_emit t ev s) = countdown s"
  "rt_lock (broadcastOnline now s) = rt_lock s" "countdown (broadcastOnline now s) = countdown s"
  "rt_lock (online_fires s) = rt_lock s" "countdown (online_fires s) = countdown s"
  "rt_lock (rt_handleConnection now c u conn s) = rt_lock s" "countdown (rt_handleConnection now c u conn s) = countdown s"
  "rt_lock (rt_handleDisconnect now c s) = rt_lock s" "countdown (rt_handleDisconnect now c s) = countdown s"
  "rt_lock (cleanupFailedConnection now c s) = rt_lock s" "countdown (cleanupFailedConnection now c s) = countdown s"
  "rt_lock (kickUser n s) = rt_lock s" "countdown (kickUser n s) = countdown s"
  "rt_lock (trackPacketArrival now c ty s) = rt_lock s" "countdown (trackPacketArrival now c ty s) = countdown s"
  "rt_lock (snd (handleTimePing now t2 c s)) = rt_lock s" "countdown (snd (handleTimePing now t2 c s)) = countdown s"
  by (auto simp: rt_emit_def broadcastOnline_def online_fires_def rt_handleConnection_def rt_handleDisconnect_def
      cleanupFailedConnection_def kickUser_def trackPacketArrival_def handleTimePing_def Let_def
      split: option.splits prod.splits)

lemma valid_seconds_range: "valid_seconds v = Some n \<Longrightarrow> 1 \<le> n \<and> n \<le> 600"
proof -
  assume "valid_seconds v = Some n"
  then obtain r where "v = JNum (NumFin r)" "r = of_int n" "1 \<le> r" "r \<le> 600"
    by (auto simp: valid_seconds_def split: jsval.splits jsnum.splits if_splits)
  then show ?thesis by simp
qed

lemma rt_lock_ok_acquire:
  assumes "rt_lock_ok l" and "tryAcquire now (Some ms) (Some CbCountdownAutoExpire) HCountdown l = (True, l')" and "0 < ms"
  shows "rt_lock_ok l' \<and> holder l' = Some HCountdown \<and> lock_timer l' = Some (now + ms, Some CbCountdownAutoExpire)"
  using assms by (auto simp: tryAcquire_def rt_lock_ok_def split: if_splits)

lemma start_inv:
  assumes "rt_inv (s, p)"
  shows "rt_inv (rt_begin now c r conn v (s, p))"
proof (cases "handleCountdownStart now c r conn v s")
  case (Pair a s')
  show ?thesis
  proof (cases a)
    case (Inl e)
    then have "rt_lock s' = rt_lock s" "countdown s' = countdown s"
      using Pair by (auto simp: handleCountdownStart_def Let_def split: if_splits option.splits prod.splits)
    with Inl Pair assms show ?thesis by (simp add: rt_begin_def rt_inv_def)
  next
    case (Inr n)
    have n: "1 \<le> n \<and> n \<le> 600"
      using Pair Inr valid_seconds_range [of v n]
      by (auto simp: handleCountdownStart_def Let_def split: if_splits option.splits prod.splits)
    obtain l where l: "tryAcquire now (Some (n * 1000 + COUNTDOWN_AUTO_RELEASE_GRACE_MS)) (Some CbCountdownAutoExpire) HCountdown (rt_lock s) = (True, l)"
      and s': "rt_lock s' = l" "countdown s' = countdown s"
      using Pair Inr by (auto simp: handleCountdownStart_def Let_def split: if_splits option.splits prod.splits)
    have "rt_lock_ok l \<and> holder l = Some HCountdown"
      using rt_lock_ok_acquire [OF _ l] assms n by (simp add: rt_inv_def COUNTDOWN_AUTO_RELEASE_GRACE_MS_def)
    with Inr Pair assms s' n show ?thesis by (auto simp: rt_begin_def rt_inv_def)
  qed
qed

lemma reschedule_lock_ok:
  assumes "rt_lock_ok l"
  shows "rt_lock_ok (snd (reschedule now ms (Some CbCountdownAutoExpire) HCountdown l))"
    and "rt_lock_ok (snd (reschedule now ms (Some (CbRallyAutoIdle g)) (HRally g) l))"
  using assms by (auto simp: reschedule_def rt_lock_ok_def split: option.splits lock_holder.splits)

lemma resume_inv:
  assumes "rt_inv (s, p)"
  shows "rt_inv (rt_resume now outs i (s, p))"
proof -
  let ?r = "handleCountdownStart_resume now (Some (negotiateStartedAt now outs)) (p ! i) s"
  have "set (take i p @ drop (Suc i) p) \<subseteq> set p" by (auto dest: in_set_takeD in_set_dropD)
  then have p: "\<forall>n\<in>set (take i p @ drop (Suc i) p). 1 \<le> n \<and> n \<le> 600" using assms by (auto simp: rt_inv_def)
  have "rt_lock_ok (rt_lock (snd ?r)) \<and> (cd_active (countdown (snd ?r)) \<longrightarrow> holder (rt_lock (snd ?r)) = Some HCountdown)"
    using assms reschedule_lock_ok(1) [of "rt_lock s"]
    by (simp add: handleCountdownStart_resume_def Let_def rt_inv_def getHolder_def)
  with p assms show ?thesis unfolding rt_resume_def by (simp add: rt_inv_def)
qed

lemma release_lock_ok: "rt_lock_ok l \<Longrightarrow> rt_lock_ok (lock_release h l)"
  by (auto simp: lock_release_def rt_lock_ok_def split: option.splits)

lemma rt_stop_inv:
  assumes "rt_inv (s, p)"
  shows "rt_inv (snd (handleCountdownStop now c r conn s), p)"
  using assms release_lock_ok [of "rt_lock s" HCountdown]
  by (simp add: handleCountdownStop_def rt_inv_def countdown_idle_def)

lemma remaining_positive: "0 < countdownRemainingMs now cd \<Longrightarrow> cd_active cd"
  by (simp add: countdownRemainingMs_def split: if_splits)

lemma rt_timer_inv:
  assumes "rt_inv (s, p)"
  shows "rt_inv (rt_timer_fires now s, p)"
proof (cases "lock_timer (rt_lock s)")
  case None
  then show ?thesis using assms by (simp add: rt_timer_fires_def lock_fire_def)
next
  case (Some dc)
  obtain due cb where dc: "dc = (due, cb)" by (cases dc)
  let ?l = "(rt_lock s)\<lparr>holder := None, lock_timer := None\<rparr>"
  have fire: "lock_fire (rt_lock s) = (cb, ?l)" using Some dc by (simp add: lock_fire_def)
  have free: "rt_lock_ok ?l" by (simp add: rt_lock_ok_def)
  show ?thesis
  proof (cases "cb = Some CbCountdownAutoExpire")
    case True
    let ?m = "countdownRemainingMs now (countdown s)"
    obtain l where l: "tryAcquire now (Some ?m) (Some CbCountdownAutoExpire) HCountdown ?l = (True, l)"
      by (simp add: tryAcquire_def)
    have "rt_timer_fires now s = handleCountdownAutoExpire now (s\<lparr>rt_lock := ?l\<rparr>)"
      by (simp add: rt_timer_fires_def fire True)
    moreover have "rt_inv (handleCountdownAutoExpire now (s\<lparr>rt_lock := ?l\<rparr>), p)"
      using assms free rt_lock_ok_acquire [OF free l]
      by (simp add: handleCountdownAutoExpire_def l Let_def rt_inv_def countdown_idle_def)
    ultimately show ?thesis by simp
  next
    case False
    have "holder (rt_lock s) \<noteq> Some HCountdown"
      using assms Some dc False by (auto simp: rt_inv_def rt_lock_ok_def)
    then have "\<not> cd_active (countdown s)" using assms by (auto simp: rt_inv_def)
    moreover have "rt_timer_fires now s = s\<lparr>rt_lock := ?l\<rparr>"
      using False by (cases cb; cases "the cb") (auto simp: rt_timer_fires_def fire)
    ultimately show ?thesis using assms free by (simp add: rt_inv_def)
  qed
qed

lemma rally_lock_inv:
  assumes "rt_inv (s, p)"
  shows "rt_inv (s\<lparr>rt_lock := snd (tryAcquire now (Some ms) (Some (CbRallyAutoIdle g)) (HRally g) (rt_lock s))\<rparr>, p)"
    and "rt_inv (s\<lparr>rt_lock := snd (reschedule now ms (Some (CbRallyAutoIdle g)) (HRally g) (rt_lock s))\<rparr>, p)"
    and "rt_inv (s\<lparr>rt_lock := lock_release (HRally g) (rt_lock s)\<rparr>, p)"
proof -
  show "rt_inv (s\<lparr>rt_lock := snd (tryAcquire now (Some ms) (Some (CbRallyAutoIdle g)) (HRally g) (rt_lock s))\<rparr>, p)"
    using assms by (cases "holder (rt_lock s)") (auto simp: tryAcquire_def rt_inv_def rt_lock_ok_def)
  show "rt_inv (s\<lparr>rt_lock := snd (reschedule now ms (Some (CbRallyAutoIdle g)) (HRally g) (rt_lock s))\<rparr>, p)"
    using assms reschedule_lock_ok(2) [of "rt_lock s"] by (simp add: rt_inv_def)
  show "rt_inv (s\<lparr>rt_lock := lock_release (HRally g) (rt_lock s)\<rparr>, p)"
    using assms release_lock_ok [of "rt_lock s" "HRally g"]
    by (cases "holder (rt_lock s) = Some HCountdown") (auto simp: rt_inv_def lock_release_def split: option.splits)
qed

lemma rt_exec_inv:
  assumes "rt_inv cfg"
  shows "rt_inv (rt_exec op cfg)"
proof -
  obtain s p where cfg: "cfg = (s, p)" by (cases cfg)
  note inv = assms [unfolded cfg]
  show ?thesis unfolding cfg
    by (cases op) (simp_all add: start_inv [OF inv] resume_inv [OF inv] rt_stop_inv [OF inv] rt_timer_inv [OF inv]
        rally_lock_inv [OF inv] rt_inv_frame [OF _ _ inv])
qed

lemma rt_reach_inv: "rt_reach cfg \<Longrightarrow> rt_inv cfg"
  by (induction rule: rt_reach.induct) (simp_all add: rt_inv_start rt_exec_inv)

subsection \<open>The automatic end\<close>

definition countdown_end :: "countdown_state \<Rightarrow> millis" where
  "countdown_end cd = cd_startedAt cd + cd_totalSeconds cd * 1000 + COUNTDOWN_AUTO_RELEASE_GRACE_MS"

lemma negotiated_future:
  assumes "list_all sane_outcome outs"
  shows "now + STARTUP_GRACE_MARGIN_MS \<le> negotiateStartedAt now outs \<and>
    negotiateStartedAt now outs \<le> now + 2 * OUTLIER_RTT_MS + STARTUP_GRACE_MARGIN_MS"
  using startup_grace_bounds [OF _ assms] by (auto simp: negotiateStartedAt_def probe_consts)

lemma resume_due:
  assumes "holder (rt_lock s) = Some HCountdown" and "list_all sane_outcome outs" and "1 \<le> n"
    and "handleCountdownStart_resume now (Some (negotiateStartedAt now outs)) n s = (a, s')"
  shows "a = CdOk \<and> countdown s' = \<lparr>cd_active = True, cd_startedAt = negotiateStartedAt now outs, cd_totalSeconds = n\<rparr> \<and>
    lock_timer (rt_lock s') = Some (countdown_end (countdown s'), Some CbCountdownAutoExpire)"
proof -
  have "0 < negotiateStartedAt now outs + n * 1000 + COUNTDOWN_AUTO_RELEASE_GRACE_MS - now"
    using negotiated_future [OF assms(2), of now] assms(3) by (simp add: probe_consts COUNTDOWN_AUTO_RELEASE_GRACE_MS_def)
  then show ?thesis using assms(1,4)
    by (auto simp: handleCountdownStart_resume_def getHolder_def reschedule_def Let_def countdown_end_def)
qed

lemma timer_early:
  assumes "rt_inv (s, p)" and "cd_active (countdown s)" and "cd_startedAt (countdown s) \<noteq> 0"
    and "cd_totalSeconds (countdown s) \<noteq> 0" and "now < countdown_end (countdown s)"
  shows "countdown (rt_timer_fires now s) = countdown s \<and> rt_sent (rt_timer_fires now s) = rt_sent s \<and>
    lock_timer (rt_lock (rt_timer_fires now s)) = Some (countdown_end (countdown s), Some CbCountdownAutoExpire)"
proof -
  obtain due where due: "lock_timer (rt_lock s) = Some (due, Some CbCountdownAutoExpire)"
    using assms(1,2) by (auto simp: rt_inv_def rt_lock_ok_def)
  then have fire: "lock_fire (rt_lock s) = (Some CbCountdownAutoExpire, (rt_lock s)\<lparr>holder := None, lock_timer := None\<rparr>)"
    by (simp add: lock_fire_def)
  have "countdownRemainingMs now (countdown s) = countdown_end (countdown s) - now"
    using assms(2-4) by (simp add: countdownRemainingMs_def countdown_end_def)
  with assms(5) show ?thesis
    by (simp add: rt_timer_fires_def fire handleCountdownAutoExpire_def tryAcquire_def Let_def)
qed

lemma timer_at_end:
  assumes "rt_inv (s, p)" and "cd_active (countdown s)" and "countdown_end (countdown s) \<le> now"
  shows "countdown (rt_timer_fires now s) = countdown_idle \<and> holder (rt_lock (rt_timer_fires now s)) = None"
proof -
  obtain due where due: "lock_timer (rt_lock s) = Some (due, Some CbCountdownAutoExpire)"
    using assms(1,2) by (auto simp: rt_inv_def rt_lock_ok_def)
  then have fire: "lock_fire (rt_lock s) = (Some CbCountdownAutoExpire, (rt_lock s)\<lparr>holder := None, lock_timer := None\<rparr>)"
    by (simp add: lock_fire_def)
  have "countdownRemainingMs now (countdown s) \<le> 0"
    using assms(3) by (simp add: countdownRemainingMs_def countdown_end_def)
  then show ?thesis
    by (simp add: rt_timer_fires_def fire handleCountdownAutoExpire_def tryAcquire_def Let_def)
qed

text \<open>
  The check after the probe asks only whether a countdown holds the lock, not whether it is still the
  same one: a start that was stopped during its probe resumes on the lock of a later start.
\<close>

lemma resume_any_countdown:
  "holder (rt_lock s) = Some HCountdown \<Longrightarrow>
   fst (handleCountdownStart_resume now (Some t) n s) = CdOk \<and>
   countdown (snd (handleCountdownStart_resume now (Some t) n s)) =
     \<lparr>cd_active = True, cd_startedAt = t, cd_totalSeconds = n\<rparr>"
  by (simp add: handleCountdownStart_resume_def getHolder_def Let_def)

end
