(* ===== verification/RealtimeProperties.thy ===== *)
theory RealtimeProperties
  imports RealtimeRules
begin

text \<open>
  The properties of the shared countdown and of the negotiation of its start, over the reachable
  configurations of \<open>Realtime\<close>. The witnesses run the gateway with one administrator.
\<close>

definition ex_admin :: online_user where
  "ex_admin = \<lparr>on_nickname = [97], on_alliance = [75], on_role = ''admin''\<rparr>"

definition ex_seconds :: "rat \<Rightarrow> jsval" where
  "ex_seconds r = JNum (NumFin r)"

fun rt_run :: "rt_op list \<Rightarrow> rt_config \<Rightarrow> rt_config" where
  "rt_run [] cfg = cfg"
| "rt_run (op # ops) cfg = rt_run ops (rt_exec op cfg)"

lemma rt_run_reach: "rt_reach cfg \<Longrightarrow> rt_reach (rt_run ops cfg)"
proof (induction ops arbitrary: cfg)
  case (Cons op ops)
  from Cons.IH [OF rt_reach.step [OF Cons.prems]] show ?case by simp
qed simp

lemma rt_run_start: "rt_reach (rt_run ops (rt_initial, []))"
  by (rule rt_run_reach [OF rt_reach.start])

lemma valid_seconds_ex: "1 \<le> n \<Longrightarrow> n \<le> 600 \<Longrightarrow> valid_seconds (ex_seconds (of_int n)) = Some n"
  by (simp add: valid_seconds_def ex_seconds_def)

lemma may_countdown_ex: "map_of (onlineMap s) c = Some ex_admin \<Longrightarrow> may_countdown (known_user c r s)"
  by (simp add: may_countdown_def known_user_def ex_admin_def)

lemmas rt_eval = rt_initial_def countdown_idle_def rt_handleConnection_def broadcastOnline_def rt_begin_def
  handleCountdownStart_def ws_check_def ws_bucket_def ws_event_map_def ws_put_def ws_prune_def
  tryAcquire_def lock_initial_def rt_resume_def handleCountdownStart_resume_def getHolder_def reschedule_def
  negotiateStartedAt_def probe_consts COUNTDOWN_AUTO_RELEASE_GRACE_MS_def rt_emit_def handleCountdownStop_def
  lock_release_def may_countdown_def known_user_def ex_admin_def

definition ex_countdown :: rt_config where
  "ex_countdown = rt_run [RtConnect 0 ''s'' (Some ex_admin) True, RtStart 100 ''s'' None True (ex_seconds 60),
     RtResume 200 [] 0] (rt_initial, [])"

lemma ex_countdown_eq:
  "countdown (fst ex_countdown) = \<lparr>cd_active = True, cd_startedAt = 400, cd_totalSeconds = 60\<rparr>"
  "rt_lock (fst ex_countdown) = \<lparr>holder = Some HCountdown, lock_timer = Some (61400, Some CbCountdownAutoExpire)\<rparr>"
  using valid_seconds_ex [of 60] by (simp_all add: ex_countdown_def rt_eval Let_def)

lemma ex_countdown_reach: "rt_reach (fst ex_countdown, snd ex_countdown)"
  unfolding prod.collapse ex_countdown_def by (rule rt_run_start)

subsection \<open>The countdown and the lock\<close>

text \<open>
  Property C5. While the countdown is active it holds the lock with its own timer pending, and no
  rally group can take the lock.
\<close>

theorem countdown_excludes_rally:
  assumes "rt_reach (s, p)" and "cd_active (countdown s)"
  shows "holder (rt_lock s) = Some HCountdown \<and>
    (\<exists>due. lock_timer (rt_lock s) = Some (due, Some CbCountdownAutoExpire)) \<and>
    tryAcquire now ms cb (HRally g) (rt_lock s) = (False, rt_lock s)"
proof -
  have "rt_inv (s, p)" by (rule rt_reach_inv [OF assms(1)])
  then have "holder (rt_lock s) = Some HCountdown" "\<exists>due. lock_timer (rt_lock s) = Some (due, Some CbCountdownAutoExpire)"
    using assms(2) by (auto simp: rt_inv_def rt_lock_ok_def)
  then show ?thesis using bl.acquire_busy by blast
qed

theorem countdown_excludes_rally_witness:
  "tryAcquire 500 (Some 10) None (HRally ''a'') (rt_lock (fst ex_countdown)) = (False, rt_lock (fst ex_countdown))"
  using countdown_excludes_rally [OF ex_countdown_reach, of 500 "Some 10" None "''a''"] by (simp add: ex_countdown_eq)

text \<open>
  When a start resumes after its probe and the countdown still holds the lock, it
  begins at the negotiated time, which is at least 200 and at most 1200 milliseconds ahead, and the
  release is due exactly one second after the last second of the countdown.
\<close>

theorem start_after_probe:
  assumes "rt_reach (s, p)" and "holder (rt_lock s) = Some HCountdown" and "n \<in> set p"
    and "list_all sane_outcome outs"
    and "handleCountdownStart_resume now (Some (negotiateStartedAt now outs)) n s = (a, s')"
  shows "a = CdOk \<and> cd_active (countdown s') \<and> cd_totalSeconds (countdown s') = n \<and>
    now + 200 \<le> cd_startedAt (countdown s') \<and> cd_startedAt (countdown s') \<le> now + 1200 \<and>
    lock_timer (rt_lock s') = Some (cd_startedAt (countdown s') + n * 1000 + 1000, Some CbCountdownAutoExpire)"
proof -
  have "1 \<le> n" using rt_reach_inv [OF assms(1)] assms(3) by (auto simp: rt_inv_def)
  from resume_due [OF assms(2,4) this assms(5)] negotiated_future [OF assms(4), of now] show ?thesis
    by (simp add: probe_consts countdown_end_def COUNTDOWN_AUTO_RELEASE_GRACE_MS_def)
qed

theorem start_after_probe_witness:
  "let (s, p) = rt_run [RtConnect 0 ''s'' (Some ex_admin) True, RtStart 100 ''s'' None True (ex_seconds 60)] (rt_initial, []);
       s' = snd (handleCountdownStart_resume 150 (Some (negotiateStartedAt 150 [Ack 40, ProbeTimeout])) 60 s)
   in cd_active (countdown s') \<and> cd_totalSeconds (countdown s') = 60"
proof -
  define cfg where "cfg = rt_run [RtConnect 0 ''s'' (Some ex_admin) True, RtStart 100 ''s'' None True (ex_seconds 60)] (rt_initial, [])"
  have r: "rt_reach (fst cfg, snd cfg)" unfolding prod.collapse cfg_def by (rule rt_run_start)
  have h: "holder (rt_lock (fst cfg)) = Some HCountdown" "60 \<in> set (snd cfg)"
    using valid_seconds_ex [of 60] by (simp_all add: cfg_def rt_eval Let_def)
  obtain a s' where e: "handleCountdownStart_resume 150 (Some (negotiateStartedAt 150 [Ack 40, ProbeTimeout])) 60 (fst cfg) = (a, s')"
    by (cases "handleCountdownStart_resume 150 (Some (negotiateStartedAt 150 [Ack 40, ProbeTimeout])) 60 (fst cfg)")
  from start_after_probe [OF r h _ e] show ?thesis
    unfolding cfg_def [symmetric] by (simp add: case_prod_beta e sane_outcome_def)
qed

text \<open>
  The timer of an active countdown: fired before the end it leaves the countdown
  running, silent, and due again at its end; fired at the end or later it clears the countdown and
  the lock is free.
\<close>

theorem countdown_timer:
  assumes "rt_reach (s, p)" and "cd_active (countdown s)" and "cd_startedAt (countdown s) \<noteq> 0"
    and "cd_totalSeconds (countdown s) \<noteq> 0"
  shows "if now < countdown_end (countdown s)
    then countdown (rt_timer_fires now s) = countdown s \<and> rt_sent (rt_timer_fires now s) = rt_sent s \<and>
      lock_timer (rt_lock (rt_timer_fires now s)) = Some (countdown_end (countdown s), Some CbCountdownAutoExpire)
    else countdown (rt_timer_fires now s) = countdown_idle \<and> holder (rt_lock (rt_timer_fires now s)) = None"
  using timer_early [OF rt_reach_inv [OF assms(1)] assms(2-4)] timer_at_end [OF rt_reach_inv [OF assms(1)] assms(2)]
  by simp

theorem countdown_timer_witness:
  "countdown (rt_timer_fires 60000 (fst ex_countdown)) = countdown (fst ex_countdown) \<and>
   countdown (rt_timer_fires 61400 (fst ex_countdown)) = countdown_idle"
  using countdown_timer [OF ex_countdown_reach, of 60000] countdown_timer [OF ex_countdown_reach, of 61400]
  by (simp add: ex_countdown_eq countdown_end_def COUNTDOWN_AUTO_RELEASE_GRACE_MS_def)


subsection \<open>The negotiation\<close>

text \<open>
  \<open>calcPercentile\<close> is the nearest-rank 95th percentile: it is one of the values, at
  least 95 percent of them are at or below it, and fewer than 95 percent lie strictly below.
\<close>

theorem percentile_exact:
  assumes "values \<noteq> []"
  shows "calcPercentile values \<in> set values \<and>
    95 * length values \<le> 100 * length (filter (\<lambda>v. v \<le> calcPercentile values) values) \<and>
    100 * length (filter (\<lambda>v. v < calcPercentile values) values) < 95 * length values"
  using calcPercentile_in [OF assms] calcPercentile_rank [OF assms] by blast

theorem percentile_exact_witness: "calcPercentile [30, 500, 20] \<in> {20, 30, 500}"
  using percentile_exact [of "[30, 500, 20]"] by auto

text \<open>
  One slow or silent client among twenty or more does not delay the start: the grace is
  then at most twice the largest round trip of the others plus the margin.
\<close>

theorem one_client_absorbed:
  assumes "20 \<le> length outcomes" and "length (filter (\<lambda>out. r < toRtt out) outcomes) \<le> 1"
  shows "negotiateStartedAt now outcomes \<le> now + 2 * r + STARTUP_GRACE_MARGIN_MS"
proof -
  have "length (filter (\<lambda>v. r < v) (map toRtt outcomes)) \<le> 1" using assms(2) by (simp add: filter_map comp_def)
  then have "calcPercentile (map toRtt outcomes) \<le> r" using assms(1) by (intro percentile_absorbs_one) simp_all
  moreover have "outcomes \<noteq> []" using assms(1) by auto
  ultimately show ?thesis by (simp add: negotiateStartedAt_def startup_grace_def)
qed

theorem one_client_absorbed_witness:
  "negotiateStartedAt 1000 (ProbeTimeout # replicate 20 (Ack 30)) \<le> 1260"
  using one_client_absorbed [of "ProbeTimeout # replicate 20 (Ack 30)" 30 1000] by (simp add: probe_consts)

end
