(* ===== verification/LoginThrottle.thy ===== *)
theory LoginThrottle
  imports JsText
begin

text \<open>
  \<open>AccountLoginThrottle\<close> of \<open>server/src/common/account-login-throttle.ts\<close>: the login attempts of
  an account, over all addresses and per address, in a window of five minutes. The map keys are
  the strings the code builds; \<open>enforceMemoryCap\<close> sweeps expired keys and evicts the oldest.
\<close>

definition ACCOUNT_WINDOW_MS :: millis where "ACCOUNT_WINDOW_MS = 300000"
definition ACCOUNT_ATTEMPT_LIMIT :: nat where "ACCOUNT_ATTEMPT_LIMIT = 15"
definition ACCOUNT_IP_ATTEMPT_LIMIT :: nat where "ACCOUNT_IP_ATTEMPT_LIMIT = 5"
definition SWEEP_FLOOR :: nat where "SWEEP_FLOOR = 2000"
definition MAX_TRACKED_KEYS :: nat where "MAX_TRACKED_KEYS = 10000"

lemmas throttle_consts = ACCOUNT_WINDOW_MS_def ACCOUNT_ATTEMPT_LIMIT_def
  ACCOUNT_IP_ATTEMPT_LIMIT_def SWEEP_FLOOR_def MAX_TRACKED_KEYS_def

record throttle =
  attempts :: "(jstring, millis list) jmap"
  sweepAt :: nat

definition throttle_initial :: throttle where
  "throttle_initial = \<lparr>attempts = [], sweepAt = SWEEP_FLOOR\<rparr>"

text \<open>
  \<open>normalizeAccountKey\<close>: Unicode normalisation and lower-casing are the runtime's
  (\<open>nfkc\<close>, \<open>lower\<close>); the removal of white space is here. \<open>None\<close> is the code's \<open>null\<close>.
\<close>

definition normalizeAccountKey ::
    "(jstring \<Rightarrow> jstring) \<Rightarrow> (jstring \<Rightarrow> jstring) \<Rightarrow> jsval \<Rightarrow> jstring option" where
  "normalizeAccountKey nfkc lower nickname =
     (case nickname of
        JStr s \<Rightarrow> (let folded = lower (filter (\<lambda>u. \<not> js_space u) (nfkc s))
                   in if folded \<noteq> [] then Some folded else None)
      | _ \<Rightarrow> None)"

definition acct_key :: "jstring \<Rightarrow> jstring" where
  "acct_key account = lit ''acct:'' @ account"

definition pair_key :: "jstring \<Rightarrow> jstring \<Rightarrow> jstring" where
  "pair_key account ip = lit ''pair:'' @ account @ [0] @ ip"

lemma acct_pair_distinct [simp]: "acct_key a \<noteq> pair_key b ip" "pair_key b ip \<noteq> acct_key a"
  by (auto simp: acct_key_def pair_key_def lit_def)

lemma acct_key_inject [simp]: "acct_key a = acct_key b \<longleftrightarrow> a = b"
  by (simp add: acct_key_def)

lemma append_sep_inject: "0 \<notin> set y \<Longrightarrow> 0 \<notin> set y' \<Longrightarrow> x @ (0::nat) # y = x' @ 0 # y' \<longleftrightarrow> x = x' \<and> y = y'"
proof
  assume y: "0 \<notin> set y" "0 \<notin> set y'" and eq: "x @ 0 # y = x' @ 0 # y'"
  have tw: "takeWhile (\<lambda>c. c \<noteq> 0) (rev (u @ 0 # v)) = rev v" if "0 \<notin> set v" for u v :: "nat list"
    using that by (induction v rule: rev_induct) auto
  have "rev y = rev y'" using tw [OF y(1), of x] tw [OF y(2), of x'] eq by simp
  with eq show "x = x' \<and> y = y'" by simp
qed simp

lemma pair_key_inject:
  "0 \<notin> set ip \<Longrightarrow> 0 \<notin> set ip' \<Longrightarrow> pair_key a ip = pair_key a' ip' \<longleftrightarrow> a = a' \<and> ip = ip'"
  by (simp add: pair_key_def append_sep_inject)

definition hits_of :: "throttle \<Rightarrow> jstring \<Rightarrow> millis list" where
  "hits_of st key = (case map_of (attempts st) key of None \<Rightarrow> [] | Some hits \<Rightarrow> hits)"

definition throttle_prune :: "millis \<Rightarrow> millis list \<Rightarrow> millis list" where
  "throttle_prune now hits = dropWhile (\<lambda>t. t \<le> now - ACCOUNT_WINDOW_MS) hits"

definition recent :: "jstring \<Rightarrow> millis \<Rightarrow> throttle \<Rightarrow> millis list \<times> throttle" where
  "recent key now st =
     (case map_of (attempts st) key of
        None \<Rightarrow> ([], st)
      | Some hits \<Rightarrow>
          (let kept = throttle_prune now hits
           in if length kept = length hits then (hits, st)
              else if kept = [] then (kept, st\<lparr>attempts := AList.delete key (attempts st)\<rparr>)
              else (kept, st\<lparr>attempts := AList.update key kept (attempts st)\<rparr>)))"

definition sweep_expired :: "millis \<Rightarrow> (jstring, millis list) jmap \<Rightarrow> (jstring, millis list) jmap" where
  "sweep_expired now m = filter (\<lambda>(key, hits). \<not> (hits = [] \<or> last hits \<le> now - ACCOUNT_WINDOW_MS)) m"

text \<open>
  The eviction: the entries sorted (stably, as \<open>Array.prototype.sort\<close> is) by their last attempt;
  the keys of the oldest \<open>size - MAX_TRACKED_KEYS / 2\<close> are deleted.
\<close>

definition evict_oldest :: "(jstring, millis list) jmap \<Rightarrow> (jstring, millis list) jmap" where
  "evict_oldest m =
     (if MAX_TRACKED_KEYS < length m
      then fold (\<lambda>(key, hits). AList.delete key)
             (take (length m - MAX_TRACKED_KEYS div 2) (sort_key (\<lambda>(key, hits). last hits) m)) m
      else m)"

definition enforceMemoryCap :: "millis \<Rightarrow> throttle \<Rightarrow> throttle" where
  "enforceMemoryCap now st =
     (if length (attempts st) < sweepAt st then st
      else (let m = evict_oldest (sweep_expired now (attempts st))
            in \<lparr>attempts = m, sweepAt = max SWEEP_FLOOR (length m * 2)\<rparr>))"

definition throttle_consume :: "jstring \<Rightarrow> jstring \<Rightarrow> millis \<Rightarrow> throttle \<Rightarrow> bool \<times> throttle" where
  "throttle_consume account ip now st =
     (let (accountHits, st1) = recent (acct_key account) now st;
          (pairHits, st2) = recent (pair_key account ip) now st1;
          blocked = (ACCOUNT_IP_ATTEMPT_LIMIT \<le> length pairHits \<or>
                     (ACCOUNT_ATTEMPT_LIMIT \<le> length accountHits \<and> 1 \<le> length pairHits))
      in if blocked then (False, st2)
         else (True, enforceMemoryCap now
                (st2\<lparr>attempts := AList.update (pair_key account ip) (pairHits @ [now])
                       (AList.update (acct_key account) (accountHits @ [now]) (attempts st2))\<rparr>)))"

definition throttle_record_success :: "jstring \<Rightarrow> jstring \<Rightarrow> throttle \<Rightarrow> throttle" where
  "throttle_record_success account ip st =
     st\<lparr>attempts := AList.delete (pair_key account ip) (AList.delete (acct_key account) (attempts st))\<rparr>"

definition throttle_reset :: "throttle \<Rightarrow> throttle" where
  "throttle_reset st = \<lparr>attempts = [], sweepAt = SWEEP_FLOOR\<rparr>"

definition throttle_size :: "throttle \<Rightarrow> nat" where
  "throttle_size st = length (attempts st)"

text \<open>The guard of the login route: a body without a usable nickname passes uncounted.\<close>

definition throttle_guard ::
    "(jstring \<Rightarrow> jstring) \<Rightarrow> (jstring \<Rightarrow> jstring) \<Rightarrow> jsval \<Rightarrow> jstring \<Rightarrow> millis \<Rightarrow> throttle \<Rightarrow> bool \<times> throttle" where
  "throttle_guard nfkc lower nickname ip now st =
     (case normalizeAccountKey nfkc lower nickname of
        None \<Rightarrow> (True, st)
      | Some account \<Rightarrow> throttle_consume account ip now st)"

subsection \<open>The logs the service keeps\<close>

interpretation throttle_log: window_log throttle_prune ACCOUNT_WINDOW_MS limit for limit
  by unfold_locales (auto simp: throttle_prune_def dropWhile_split)

lemma throttle_prune_Nil [simp]: "throttle_prune now [] = []"
  by (simp add: throttle_prune_def)

lemma throttle_prune_idem [simp]: "throttle_prune now (throttle_prune now hits) = throttle_prune now hits"
  by (simp add: throttle_prune_def dropWhile_idem)

lemma hits_of_update [simp]:
  "hits_of (st\<lparr>attempts := AList.update k h (attempts st)\<rparr>) k' = (if k' = k then h else hits_of st k')"
  "hits_of (st\<lparr>attempts := AList.delete k (attempts st)\<rparr>) k' = (if k' = k then [] else hits_of st k')"
  by (simp_all add: hits_of_def)

lemma throttle_prune_full: "length (throttle_prune now hits) = length hits \<Longrightarrow> throttle_prune now hits = hits"
  using dropWhile_split [of hits "\<lambda>t. t \<le> now - ACCOUNT_WINDOW_MS"]
  unfolding throttle_prune_def by (metis append_self_conv2 length_0_conv length_append add_cancel_right_left)

lemma recent_eq:
  "fst (recent key now st) = throttle_prune now (hits_of st key)"
  "hits_of (snd (recent key now st)) k' =
     (if k' = key then throttle_prune now (hits_of st key) else hits_of st k')"
  by (auto simp: recent_def hits_of_def Let_def dest: throttle_prune_full split: option.splits)

lemma recent_sweepAt [simp]: "sweepAt (snd (recent key now st)) = sweepAt st"
  by (auto simp: recent_def Let_def split: option.splits)

lemma update_length_le: "length (AList.update k v m) \<le> Suc (length m)"
  by (induction m) auto

lemma update_length_in: "k \<in> fst ` set m \<Longrightarrow> length (AList.update k v m) = length m"
  by (induction m) auto

lemma recent_length: "length (attempts (snd (recent key now st))) \<le> length (attempts st)"
proof (cases "map_of (attempts st) key")
  case (Some hits)
  then have "key \<in> fst ` set (attempts st)" by (metis domI dom_map_of_conv_image_fst)
  then show ?thesis by (auto simp: recent_def Some Let_def update_length_in length_delete_le)
qed (simp add: recent_def)

lemma recent_wf: "jm_wf (attempts st) \<Longrightarrow> jm_wf (attempts (snd (recent key now st)))"
  by (auto simp: recent_def Let_def split: option.splits)

lemma map_of_filter_distinct:
  "jm_wf m \<Longrightarrow> map_of (filter P m) k = (case map_of m k of None \<Rightarrow> None | Some v \<Rightarrow> if P (k, v) then Some v else None)"
proof (induction m)
  case (Cons a m)
  have "k \<notin> fst ` set m \<Longrightarrow> map_of m k = None" by (simp add: map_of_eq_None_iff)
  with Cons show ?case by (cases a) auto
qed simp

lemma sweep_expired_hits:
  assumes "jm_wf (attempts st)"
  shows "hits_of (st\<lparr>attempts := sweep_expired now (attempts st)\<rparr>) k = hits_of st k \<or>
    (hits_of (st\<lparr>attempts := sweep_expired now (attempts st)\<rparr>) k = [] \<and>
     (hits_of st k = [] \<or> last (hits_of st k) \<le> now - ACCOUNT_WINDOW_MS))"
  using assms by (auto simp: hits_of_def sweep_expired_def map_of_filter_distinct split: option.splits)

lemma sweep_expired_wf: "jm_wf m \<Longrightarrow> jm_wf (sweep_expired now m)"
  unfolding sweep_expired_def by (rule distinct_map_filter)

lemma sweep_expired_nonempty: "(key, hits) \<in> set (sweep_expired now m) \<Longrightarrow> hits \<noteq> []"
  by (auto simp: sweep_expired_def)

subsection \<open>The memory cap\<close>

lemma delete_filter: "AList.delete k m = filter (\<lambda>p. fst p \<noteq> k) m"
  by (auto simp: AList.delete_eq intro: filter_cong)

lemma fold_delete_filter:
  "fold (\<lambda>(key, hits). AList.delete key) es m = filter (\<lambda>p. fst p \<notin> fst ` set es) m"
  by (induction es arbitrary: m) (auto simp: delete_filter case_prod_beta intro: filter_cong)

lemma evict_oldest_length:
  assumes "jm_wf m"
  shows "length (evict_oldest m) \<le> MAX_TRACKED_KEYS"
proof (cases "MAX_TRACKED_KEYS < length m")
  case True
  let ?es = "take (length m - MAX_TRACKED_KEYS div 2) (sort_key (\<lambda>(key, hits). last hits) m)"
  have d: "distinct (map fst (sort_key (\<lambda>(key, hits). last hits) m))"
    using assms by (metis distinct_map distinct_sort set_sort)
  then have de: "distinct (map fst ?es)" by (metis distinct_take take_map)
  have "length (filter (\<lambda>p. fst p \<in> fst ` set ?es) m) = card (fst ` set (filter (\<lambda>p. fst p \<in> fst ` set ?es) m))"
    by (rule jm_wf_card) (use assms in \<open>simp add: distinct_map_filter\<close>)
  also have "fst ` set (filter (\<lambda>p. fst p \<in> fst ` set ?es) m) = fst ` set ?es"
    using set_take_subset [of "length m - MAX_TRACKED_KEYS div 2" "sort_key (\<lambda>(key, hits). last hits) m"]
    by force
  also have "card (fst ` set ?es) = length ?es" using jm_wf_card [OF de] by simp
  also have "length ?es = length m - MAX_TRACKED_KEYS div 2" by simp
  finally have gone: "length (filter (\<lambda>p. fst p \<in> fst ` set ?es) m) = length m - MAX_TRACKED_KEYS div 2" .
  have "length (filter (\<lambda>p. fst p \<notin> fst ` set ?es) m) = MAX_TRACKED_KEYS div 2"
  proof -
    have "MAX_TRACKED_KEYS div 2 \<le> length m" using True by simp
    with list_all_filter_length [of "\<lambda>p. fst p \<in> fst ` set ?es" m] gone show ?thesis by linarith
  qed
  then show ?thesis using True by (simp add: evict_oldest_def fold_delete_filter)
qed (simp add: evict_oldest_def)

definition throttle_ok :: "throttle \<Rightarrow> bool" where
  "throttle_ok st \<longleftrightarrow> jm_wf (attempts st) \<and> length (attempts st) < sweepAt st \<and>
     SWEEP_FLOOR \<le> sweepAt st \<and> sweepAt st \<le> 2 * MAX_TRACKED_KEYS"

lemma throttle_ok_initial: "throttle_ok throttle_initial"
  by (simp add: throttle_ok_def throttle_initial_def throttle_consts)

lemma evict_oldest_wf: "jm_wf m \<Longrightarrow> jm_wf (evict_oldest m)"
  by (auto simp: evict_oldest_def fold_delete_filter distinct_map_filter)

lemma enforceMemoryCap_ok:
  assumes "jm_wf (attempts st)" "SWEEP_FLOOR \<le> sweepAt st" "sweepAt st \<le> 2 * MAX_TRACKED_KEYS"
  shows "throttle_ok (enforceMemoryCap now st)"
proof (cases "length (attempts st) < sweepAt st")
  case False
  let ?m = "evict_oldest (sweep_expired now (attempts st))"
  have "jm_wf ?m" using assms(1) by (simp add: sweep_expired_wf evict_oldest_wf)
  moreover have "length ?m \<le> MAX_TRACKED_KEYS"
    using assms(1) by (simp add: sweep_expired_wf evict_oldest_length)
  ultimately show ?thesis using False
    by (auto simp: enforceMemoryCap_def throttle_ok_def Let_def throttle_consts)
qed (use assms in \<open>simp add: enforceMemoryCap_def throttle_ok_def\<close>)

text \<open>
  The three outcomes of \<open>consume\<close>, over the state \<open>after_recent\<close> left by the two calls of \<open>recent\<close>.
\<close>

definition after_recent :: "jstring \<Rightarrow> jstring \<Rightarrow> millis \<Rightarrow> throttle \<Rightarrow> throttle" where
  "after_recent account ip now st =
     snd (recent (pair_key account ip) now (snd (recent (acct_key account) now st)))"

definition record_hit :: "jstring \<Rightarrow> jstring \<Rightarrow> millis \<Rightarrow> throttle \<Rightarrow> throttle" where
  "record_hit account ip now st =
     st\<lparr>attempts := AList.update (pair_key account ip) (hits_of st (pair_key account ip) @ [now])
          (AList.update (acct_key account) (hits_of st (acct_key account) @ [now]) (attempts st))\<rparr>"

definition throttle_blocked :: "jstring \<Rightarrow> jstring \<Rightarrow> millis \<Rightarrow> throttle \<Rightarrow> bool" where
  "throttle_blocked account ip now st \<longleftrightarrow>
     ACCOUNT_IP_ATTEMPT_LIMIT \<le> length (throttle_prune now (hits_of st (pair_key account ip))) \<or>
     (ACCOUNT_ATTEMPT_LIMIT \<le> length (throttle_prune now (hits_of st (acct_key account))) \<and>
      throttle_prune now (hits_of st (pair_key account ip)) \<noteq> [])"

lemma after_recent_hits:
  "hits_of (after_recent account ip now st) k =
     (if k = pair_key account ip \<or> k = acct_key account then throttle_prune now (hits_of st k)
      else hits_of st k)"
  by (auto simp: after_recent_def recent_eq)

lemma throttle_consume_eq:
  "throttle_consume account ip now st =
     (if throttle_blocked account ip now st then (False, after_recent account ip now st)
      else (True, enforceMemoryCap now (record_hit account ip now (after_recent account ip now st))))"
  by (auto simp: throttle_consume_def throttle_blocked_def record_hit_def case_prod_beta Let_def
      recent_eq after_recent_hits after_recent_def [symmetric] Suc_le_eq)

lemma record_hit_hits:
  "hits_of (record_hit account ip now st) k =
     hits_of st k @ (if k = pair_key account ip \<or> k = acct_key account then [now] else [])"
  by (simp add: record_hit_def hits_of_def)

lemma after_recent_ok: "throttle_ok st \<Longrightarrow> throttle_ok (after_recent account ip now st)"
  unfolding throttle_ok_def after_recent_def
  by (metis recent_length recent_sweepAt recent_wf order.strict_trans1)

lemma throttle_consume_ok:
  assumes "throttle_ok st"
  shows "throttle_ok (snd (throttle_consume account ip now st))"
proof -
  have ok: "throttle_ok (after_recent account ip now st)" by (rule after_recent_ok [OF assms])
  then have "throttle_ok (enforceMemoryCap now (record_hit account ip now (after_recent account ip now st)))"
    by (intro enforceMemoryCap_ok) (auto simp: throttle_ok_def record_hit_def)
  with ok show ?thesis by (simp add: throttle_consume_eq)
qed

lemma throttle_record_success_ok: "throttle_ok st \<Longrightarrow> throttle_ok (throttle_record_success account ip st)"
  using length_delete_le [of "acct_key account" "attempts st"]
    length_delete_le [of "pair_key account ip" "AList.delete (acct_key account) (attempts st)"]
  by (simp add: throttle_ok_def throttle_record_success_def)

subsection \<open>What one attempt changes in each log\<close>

definition hits_sane :: "millis \<Rightarrow> throttle \<Rightarrow> bool" where
  "hits_sane now st \<longleftrightarrow> (\<forall>k. sorted (hits_of st k) \<and> (\<forall>t\<in>set (hits_of st k). t \<le> now))"

lemma sorted_last_le: "sorted l \<Longrightarrow> l \<noteq> [] \<Longrightarrow> t \<in> set l \<Longrightarrow> t \<le> last l"
  by (induction l) auto

lemma enforce_hits:
  assumes "jm_wf (attempts st)" and "length (attempts st) \<le> MAX_TRACKED_KEYS" and "sorted (hits_of st k)"
  shows "hits_of (enforceMemoryCap now st) k = hits_of st k \<or>
    (hits_of (enforceMemoryCap now st) k = [] \<and> (\<forall>t\<in>set (hits_of st k). t \<le> now - ACCOUNT_WINDOW_MS))"
proof -
  have "length (sweep_expired now (attempts st)) \<le> MAX_TRACKED_KEYS"
    unfolding sweep_expired_def by (meson assms(2) length_filter_le order_trans)
  then have "evict_oldest (sweep_expired now (attempts st)) = sweep_expired now (attempts st)"
    by (simp add: evict_oldest_def)
  then have "hits_of (enforceMemoryCap now st) k = hits_of st k \<or>
      hits_of (enforceMemoryCap now st) k = hits_of (st\<lparr>attempts := sweep_expired now (attempts st)\<rparr>) k"
    by (simp add: enforceMemoryCap_def hits_of_def Let_def)
  then show ?thesis
    using sweep_expired_hits [OF assms(1), of now k] sorted_last_le [OF assms(3)] by fastforce
qed

lemma throttle_consume_forgets:
  assumes st: "throttle_consume account ip now st = (ok, st')"
    and small: "length (attempts (record_hit account ip now (after_recent account ip now st))) \<le> MAX_TRACKED_KEYS"
    and wf: "throttle_ok st" and sane: "hits_sane now st"
  shows "\<exists>l. throttle_log.forgets now (hits_of st k) l \<and>
     hits_of st' k = l @ (if ok \<and> (k = pair_key account ip \<or> k = acct_key account) then [now] else []) \<and>
     (ok \<and> (k = pair_key account ip \<or> k = acct_key account) \<longrightarrow> l = throttle_prune now (hits_of st k))"
proof -
  let ?own = "k = pair_key account ip \<or> k = acct_key account"
  let ?st2 = "after_recent account ip now st"
  let ?st3 = "record_hit account ip now ?st2"
  have f2: "throttle_log.forgets now (hits_of st k) (hits_of ?st2 k)"
    by (auto simp: after_recent_hits throttle_log.forgets_prune throttle_log.forgets_refl)
  have h3: "hits_of ?st3 k = hits_of ?st2 k @ (if ?own then [now] else [])" by (rule record_hit_hits)
  show ?thesis
  proof (cases ok)
    case False
    then show ?thesis using st f2 by (auto simp: throttle_consume_eq split: if_splits)
  next
    case True
    then have st': "st' = enforceMemoryCap now ?st3" using st by (auto simp: throttle_consume_eq split: if_splits)
    have wf3: "jm_wf (attempts ?st3)"
      using after_recent_ok [OF wf] by (simp add: throttle_ok_def record_hit_def)
    have s2: "sorted (hits_of ?st2 k)" and l2: "\<forall>t\<in>set (hits_of ?st2 k). t \<le> now"
      using sane by (auto simp: after_recent_hits hits_sane_def throttle_prune_def sorted_dropWhile
          dest: set_dropWhileD)
    have s3: "sorted (hits_of ?st3 k)" using s2 l2 by (auto simp: h3 sorted_append)
    from enforce_hits [OF wf3 small s3, of now] show ?thesis
    proof
      assume "hits_of (enforceMemoryCap now ?st3) k = hits_of ?st3 k"
      then show ?thesis using f2 h3 st' True by (auto simp: after_recent_hits)
    next
      assume e: "hits_of (enforceMemoryCap now ?st3) k = [] \<and> (\<forall>t\<in>set (hits_of ?st3 k). t \<le> now - ACCOUNT_WINDOW_MS)"
      then have "\<not> ?own" using h3 by (auto simp: ACCOUNT_WINDOW_MS_def)
      moreover have "throttle_log.forgets now (hits_of st k) []"
        using throttle_log.forgets_trans [OF f2 throttle_log.forgets_all] e h3 by auto
      ultimately show ?thesis using e st' True by auto
    qed
  qed
qed

subsection \<open>Runs of login attempts\<close>

datatype login_op = LoginAttempt jstring jstring millis | LoginSuccess jstring jstring

fun throttle_run :: "throttle \<Rightarrow> login_op list \<Rightarrow> throttle \<times> (millis \<times> jstring \<times> jstring) list" where
  "throttle_run st [] = (st, [])"
| "throttle_run st (LoginAttempt a ip now # ops) =
     (let (ok, st') = throttle_consume a ip now st; (st'', acc) = throttle_run st' ops
      in (st'', if ok then (now, a, ip) # acc else acc))"
| "throttle_run st (LoginSuccess a ip # ops) = throttle_run (throttle_record_success a ip st) ops"

lemma throttle_run_ok: "throttle_ok st \<Longrightarrow> throttle_ok (fst (throttle_run st ops))"
proof (induction ops arbitrary: st)
  case (Cons op ops)
  then show ?case
    by (cases op) (auto simp: throttle_record_success_ok case_prod_beta intro!: Cons.IH throttle_consume_ok)
qed simp

fun login_times :: "login_op list \<Rightarrow> millis list" where
  "login_times [] = []"
| "login_times (LoginAttempt a ip now # ops) = now # login_times ops"
| "login_times (LoginSuccess a ip # ops) = login_times ops"

fun login_keys :: "login_op list \<Rightarrow> jstring list" where
  "login_keys [] = []"
| "login_keys (LoginAttempt a ip now # ops) = acct_key a # pair_key a ip # login_keys ops"
| "login_keys (LoginSuccess a ip # ops) = login_keys ops"

definition pair_times :: "jstring \<Rightarrow> jstring \<Rightarrow> (millis \<times> jstring \<times> jstring) list \<Rightarrow> millis list" where
  "pair_times a ip acc = map fst (filter (\<lambda>(t, a', ip'). a' = a \<and> ip' = ip) acc)"

lemma hits_sane_later: "hits_sane now st \<Longrightarrow> now \<le> now' \<Longrightarrow> hits_sane now' st"
  unfolding hits_sane_def by (meson order_trans)

definition tracked :: "throttle \<Rightarrow> jstring set" where
  "tracked st = fst ` set (attempts st)"

lemma tracked_recent: "tracked (snd (recent k now st)) \<subseteq> tracked st"
proof (cases "map_of (attempts st) k")
  case (Some hits)
  then have "k \<in> fst ` set (attempts st)" by (metis domI dom_map_of_conv_image_fst)
  then show ?thesis by (auto simp: tracked_def recent_def Some Let_def dom_update delete_filter)
qed (simp add: recent_def)

lemma tracked_after: "tracked (after_recent a ip now st) \<subseteq> tracked st"
  unfolding after_recent_def using tracked_recent by blast

lemma tracked_record: "tracked (record_hit a ip now st) = {acct_key a, pair_key a ip} \<union> tracked st"
  by (auto simp: tracked_def record_hit_def dom_update)

lemma tracked_enforce: "tracked (enforceMemoryCap now st) \<subseteq> tracked st"
  by (auto simp: tracked_def enforceMemoryCap_def Let_def evict_oldest_def fold_delete_filter sweep_expired_def)

lemma tracked_consume:
  "tracked (snd (throttle_consume a ip now st)) \<subseteq> {acct_key a, pair_key a ip} \<union> tracked st"
  using tracked_after [of a ip now st] tracked_record [of a ip now "after_recent a ip now st"]
    tracked_enforce [of now "record_hit a ip now (after_recent a ip now st)"]
  unfolding throttle_consume_eq by (simp split: if_splits) blast

lemma tracked_success: "tracked (throttle_record_success a ip st) \<subseteq> tracked st"
  by (auto simp: tracked_def throttle_record_success_def delete_filter)

lemma forgets_sane: "throttle_log.forgets now l l' \<Longrightarrow> sorted l \<and> (\<forall>t\<in>set l. t \<le> now) \<Longrightarrow> sorted l' \<and> (\<forall>t\<in>set l'. t \<le> now)"
  by (auto simp: throttle_log.forgets_def sorted_append)

lemma throttle_run_log:
  assumes "throttle_run st ops = (st', acc)" and "sorted (now # login_times ops)"
    and "throttle_ok st" and "hits_sane now st"
    and "tracked st \<subseteq> K" "set (login_keys ops) \<subseteq> K" and "finite K" "card K \<le> MAX_TRACKED_KEYS"
    and "0 \<notin> set ip" and "\<forall>a' ip' t. LoginAttempt a' ip' t \<in> set ops \<longrightarrow> 0 \<notin> set ip'"
    and "\<forall>a' ip'. LoginSuccess a' ip' \<in> set ops \<longrightarrow> a' \<noteq> a \<and> 0 \<notin> set ip'"
    and "throttle_log.log_inv ACCOUNT_IP_ATTEMPT_LIMIT now past (hits_of st (pair_key a ip))"
  shows "length (throttle_log.in_window T (past @ pair_times a ip acc)) \<le> ACCOUNT_IP_ATTEMPT_LIMIT"
  using assms
proof (induction ops arbitrary: st st' acc now past)
  case Nil
  then show ?case by (simp add: pair_times_def throttle_log.log_inv_def)
next
  case (Cons op ops)
  note run = Cons.prems(1) and srt = Cons.prems(2) and okst = Cons.prems(3) and sane0 = Cons.prems(4)
    and K1 = Cons.prems(5) and K2 = Cons.prems(6) and fin = Cons.prems(7) and card = Cons.prems(8)
    and nz = Cons.prems(9) and nzs = Cons.prems(10) and succ = Cons.prems(11) and inv0 = Cons.prems(12)
  have nzs': "\<forall>a' ip' t. LoginAttempt a' ip' t \<in> set ops \<longrightarrow> 0 \<notin> set ip'" using nzs by simp
  have succ': "\<forall>a' ip'. LoginSuccess a' ip' \<in> set ops \<longrightarrow> a' \<noteq> a \<and> 0 \<notin> set ip'" using succ by simp
  show ?case
  proof (cases op)
    case (LoginSuccess a' ip')
    let ?s = "throttle_record_success a' ip' st"
    have "a' \<noteq> a" "0 \<notin> set ip'" using succ LoginSuccess by auto
    then have inv: "throttle_log.log_inv ACCOUNT_IP_ATTEMPT_LIMIT now past (hits_of ?s (pair_key a ip))"
      using inv0 nz by (simp add: throttle_record_success_def hits_of_def pair_key_inject)
    have sane: "hits_sane now ?s"
      using sane0 by (auto simp: hits_sane_def throttle_record_success_def hits_of_def)
    have Ks: "tracked ?s \<subseteq> K" using tracked_success K1 by blast
    have K2': "set (login_keys ops) \<subseteq> K" using K2 LoginSuccess by simp
    have "sorted (now # login_times ops)" using srt LoginSuccess by simp
    moreover have "throttle_run ?s ops = (st', acc)" using run LoginSuccess by simp
    ultimately show ?thesis
      using Cons.IH [OF _ _ throttle_record_success_ok [OF okst] sane Ks K2' fin card nz nzs' succ' inv]
      by blast
  next
    case (LoginAttempt a' ip' n)
    obtain ok st1 where ck: "throttle_consume a' ip' n st = (ok, st1)" by (cases "throttle_consume a' ip' n st") auto
    obtain st2 acc2 where rn: "throttle_run st1 ops = (st2, acc2)" by (cases "throttle_run st1 ops") auto
    have le: "now \<le> n" "sorted (n # login_times ops)" using srt LoginAttempt by auto
    have sane: "hits_sane n st" using sane0 le(1) by (rule hits_sane_later)
    have nzi: "0 \<notin> set ip'" using nzs LoginAttempt by auto
    have ok1: "throttle_ok st1" using throttle_consume_ok [OF okst, of a' ip' n] ck by simp
    have K2': "set (login_keys ops) \<subseteq> K" "acct_key a' \<in> K" "pair_key a' ip' \<in> K" using K2 LoginAttempt by auto
    let ?st3 = "record_hit a' ip' n (after_recent a' ip' n st)"
    have "tracked ?st3 \<subseteq> K" using tracked_after [of a' ip' n st] K1 K2'(2,3) by (auto simp: tracked_record)
    then have "card (tracked ?st3) \<le> MAX_TRACKED_KEYS" using card_mono [OF fin] card by (meson order_trans)
    moreover have "jm_wf (attempts ?st3)"
      using after_recent_ok [OF okst] by (simp add: throttle_ok_def record_hit_def)
    ultimately have small: "length (attempts ?st3) \<le> MAX_TRACKED_KEYS"
      unfolding tracked_def by (simp add: jm_wf_card)
    note fg = throttle_consume_forgets [OF ck small okst sane]
    have sane1: "hits_sane n st1"
      unfolding hits_sane_def
    proof
      fix k
      obtain l where l: "throttle_log.forgets n (hits_of st k) l"
        "hits_of st1 k = l @ (if ok \<and> (k = pair_key a' ip' \<or> k = acct_key a') then [n] else [])"
        using fg [of k] by blast
      with forgets_sane [OF l(1)] sane show "sorted (hits_of st1 k) \<and> (\<forall>t\<in>set (hits_of st1 k). t \<le> n)"
        by (auto simp: hits_sane_def sorted_append)
    qed
    have keys1: "tracked st1 \<subseteq> K" using tracked_consume [of a' ip' n st] ck K1 K2'(2,3) by auto
    let ?mine = "ok \<and> a' = a \<and> ip' = ip"
    have own: "(pair_key a ip = pair_key a' ip' \<or> pair_key a ip = acct_key a') \<longleftrightarrow> a' = a \<and> ip' = ip"
      using nz nzi by (auto simp: pair_key_inject)
    have inv: "throttle_log.log_inv ACCOUNT_IP_ATTEMPT_LIMIT n past (hits_of st (pair_key a ip))"
      using inv0 le(1) by (rule throttle_log.log_inv_later)
    obtain l where l: "throttle_log.forgets n (hits_of st (pair_key a ip)) l"
      "hits_of st1 (pair_key a ip) = l @ (if ?mine then [n] else [])"
      "?mine \<longrightarrow> l = throttle_prune n (hits_of st (pair_key a ip))"
      using fg [of "pair_key a ip"] unfolding own by auto
    have inv_l: "throttle_log.log_inv ACCOUNT_IP_ATTEMPT_LIMIT n past l"
      by (rule throttle_log.log_inv_forgets [OF inv l(1)])
    have room: "?mine \<Longrightarrow> length l < ACCOUNT_IP_ATTEMPT_LIMIT"
      using ck l(3) by (auto simp: throttle_consume_eq throttle_blocked_def split: if_splits)
    have "throttle_log.log_inv ACCOUNT_IP_ATTEMPT_LIMIT n (past @ (if ?mine then [n] else [])) (hits_of st1 (pair_key a ip))"
      using inv_l l(2) throttle_log.log_inv_accept [OF inv_l room] by (cases ?mine) auto
    note IH = Cons.IH [OF rn le(2) ok1 sane1 keys1 K2'(1) fin card nz nzs' succ' this]
    have "acc = (if ok then (n, a', ip') # acc2 else acc2)" using run LoginAttempt ck rn by auto
    then have "pair_times a ip acc = (if ?mine then [n] else []) @ pair_times a ip acc2"
      by (auto simp: pair_times_def)
    with IH show ?thesis by simp
  qed
qed

lemma throttle_pair_rate:
  assumes "throttle_run throttle_initial ops = (st', acc)" and "sorted (login_times ops)"
    and "card (set (login_keys ops)) \<le> MAX_TRACKED_KEYS"
    and "0 \<notin> set ip" and "\<forall>a' ip' t. LoginAttempt a' ip' t \<in> set ops \<longrightarrow> 0 \<notin> set ip'"
    and "\<forall>a' ip'. LoginSuccess a' ip' \<in> set ops \<longrightarrow> a' \<noteq> a \<and> 0 \<notin> set ip'"
  shows "length (filter (\<lambda>t. T - ACCOUNT_WINDOW_MS < t \<and> t \<le> T) (pair_times a ip acc)) \<le> ACCOUNT_IP_ATTEMPT_LIMIT"
proof -
  define now where "now = (case login_times ops of [] \<Rightarrow> 0 | t # ts \<Rightarrow> t)"
  have "sorted (now # login_times ops)" using assms(2) by (cases "login_times ops") (auto simp: now_def)
  moreover have "hits_sane now throttle_initial" "tracked throttle_initial \<subseteq> set (login_keys ops)"
    "hits_of throttle_initial (pair_key a ip) = []"
    by (simp_all add: hits_sane_def hits_of_def throttle_initial_def tracked_def)
  ultimately show ?thesis
    using throttle_run_log [OF assms(1) _ throttle_ok_initial _ _ order_refl _ assms(3-6), of now "[]" T]
    by (simp add: throttle_log.log_inv_start throttle_log.in_window_def)
qed

text \<open>An address that has no attempt on record for the account is let through, whatever others did.\<close>

lemma throttle_fresh_ip: "hits_of st (pair_key a ip) = [] \<Longrightarrow> fst (throttle_consume a ip now st)"
  by (simp add: throttle_consume_eq throttle_blocked_def ACCOUNT_IP_ATTEMPT_LIMIT_def)

text \<open>A refused attempt is not recorded, and the refusal ends when the recorded attempts expire.\<close>

lemma throttle_refusal_ends:
  "fst (throttle_consume a ip now st) = False \<Longrightarrow>
   hits_of (snd (throttle_consume a ip now st)) k \<in> {hits_of st k, throttle_prune now (hits_of st k)}"
  by (auto simp: throttle_consume_eq after_recent_hits)

lemma throttle_expired_passes:
  "\<forall>t\<in>set (hits_of st (pair_key a ip)). t \<le> now - ACCOUNT_WINDOW_MS \<Longrightarrow> fst (throttle_consume a ip now st)"
  by (simp add: throttle_consume_eq throttle_blocked_def throttle_prune_def ACCOUNT_IP_ATTEMPT_LIMIT_def
      dropWhile_eq_Nil_conv [THEN iffD2])

lemma throttle_success_clears:
  "hits_of (throttle_record_success a ip st) (acct_key a) = []"
  "hits_of (throttle_record_success a ip st) (pair_key a ip) = []"
  by (simp_all add: throttle_record_success_def hits_of_def)

end
