(* ===== verification/LimitProperties.thy ===== *)
theory LimitProperties
  imports LoginThrottle Limiters
begin

text \<open>
  The rate limits: what an observer of the admitted calls can rely on, whatever the calls were.
\<close>

text \<open>
  Property C7. In every window of an event's length at most its limit of calls from one socket are
  let through, for any mixture of calls and disconnects of other sockets.
\<close>

theorem socket_rate:
  assumes "ws_run rule [] ops = (st', acc)" and "WsCleanup s \<notin> set ops"
    and "sorted (ws_op_times s e ops)"
  shows "length (filter (\<lambda>t. T - snd (rule e) < t \<and> t \<le> T) (ws_accepted s e acc)) \<le> fst (rule e)"
  by (rule ws_run_rate [OF assms])

theorem socket_rate_witness:
  "length (ws_accepted ''s'' ''e'' (snd (ws_run (\<lambda>_. (2, 100)) [] [WsCheck 0 ''s'' ''e'', WsCheck 1 ''s'' ''e'', WsCheck 2 ''s'' ''e'']))) = 2 \<and>
   length (filter (\<lambda>t. 2 - 100 < t \<and> t \<le> 2)
     (ws_accepted ''s'' ''e'' (snd (ws_run (\<lambda>_. (2, 100)) [] [WsCheck 0 ''s'' ''e'', WsCheck 1 ''s'' ''e'', WsCheck 2 ''s'' ''e''])))) \<le> 2"
  using socket_rate [where rule = "\<lambda>_. (2, 100)" and s = "''s''" and e = "''e''" and T = 2
    and ops = "[WsCheck 0 ''s'' ''e'', WsCheck 1 ''s'' ''e'', WsCheck 2 ''s'' ''e'']", OF prod.collapse [symmetric]]
  by (simp add: ws_check_def ws_bucket_def ws_event_map_def ws_put_def ws_prune_def ws_accepted_def Let_def)

text \<open>
  The calls to the translation provider: in any minute at most sixty in all and at most
  ten for one user.
\<close>

theorem provider_rates:
  assumes "tr_provider_run tr_initial calls = (st', acc)" and "sorted (map fst calls)"
  shows "length (filter (\<lambda>t. T - 60000 < t \<and> t \<le> T) (map fst acc)) \<le> 60 \<and>
    length (filter (\<lambda>t. T - 60000 < t \<and> t \<le> T) (map fst (filter (\<lambda>(t, u'). u' = u) acc))) \<le> 10"
  using tr_provider_rates(1) [OF assms, of T] tr_provider_rates(2) [OF assms, of T u] by (simp add: tr_consts)

theorem provider_rates_witness:
  "length (filter (\<lambda>t. 10 - 60000 < t \<and> t \<le> 10) (map fst (snd (tr_provider_run tr_initial (replicate 12 (5, 7)))))) \<le> 60"
  using provider_rates [where calls = "replicate 12 (5, 7)" and T = 10, OF prod.collapse [symmetric]] by simp

text \<open>
  A refused user is told when to come back: the delay is between one millisecond and
  the window, and a call after exactly that delay is let through.
\<close>

theorem retry_after_admits:
  assumes "tr_consume_bucket now bs u limit = (r, bs')" and "\<not> allowed r"
    and "0 < limit" and "length (tr_times bs u) \<le> limit" and "\<forall>t\<in>set (tr_times bs u). t \<le> now"
  shows "1 \<le> retryAfterMs r \<and> retryAfterMs r \<le> TRANSLATION_RATE_WINDOW_MS \<and>
    allowed (fst (tr_consume_bucket (now + retryAfterMs r) bs' u limit))"
  by (rule tr_retry_after [OF assms])

theorem retry_after_admits_witness:
  "retryAfterMs (fst (tr_consume_bucket 1010 [(7, [1000])] 7 1)) \<le> TRANSLATION_RATE_WINDOW_MS"
  using retry_after_admits [where now = 1010 and bs = "[(7, [1000])]" and u = 7 and limit = 1, OF prod.collapse [symmetric]]
  by (simp add: Let_def tr_consume_bucket_def tr_times_def tr_prune_def tr_blocked_result_def tr_consts)



subsection \<open>Login attempts\<close>

text \<open>
  Whatever else happens, one address gets at most five attempts at one account in any
  five minutes, as long as the account does not log in and the traffic names at most ten thousand
  keys: beyond that the eviction may forget attempts.
\<close>

theorem login_pair_rate:
  assumes "throttle_run throttle_initial ops = (st', acc)" and "sorted (login_times ops)"
    and "card (set (login_keys ops)) \<le> MAX_TRACKED_KEYS"
    and "0 \<notin> set ip" and "\<forall>a' ip' t. LoginAttempt a' ip' t \<in> set ops \<longrightarrow> 0 \<notin> set ip'"
    and "\<forall>a' ip'. LoginSuccess a' ip' \<in> set ops \<longrightarrow> a' \<noteq> a \<and> 0 \<notin> set ip'"
  shows "length (filter (\<lambda>t. T - ACCOUNT_WINDOW_MS < t \<and> t \<le> T) (pair_times a ip acc)) \<le> ACCOUNT_IP_ATTEMPT_LIMIT"
  by (rule throttle_pair_rate [OF assms])

theorem login_pair_rate_witness:
  "length (filter (\<lambda>t. 9 - ACCOUNT_WINDOW_MS < t \<and> t \<le> 9)
     (pair_times [97] [49] (snd (throttle_run throttle_initial [LoginAttempt [97] [49] 1, LoginAttempt [97] [50] 2])))) \<le> ACCOUNT_IP_ATTEMPT_LIMIT"
proof -
  have "card (set (login_keys [LoginAttempt [97] [49] 1, LoginAttempt [97] [50] 2])) \<le> MAX_TRACKED_KEYS"
    by (rule order_trans [OF card_length]) (simp add: MAX_TRACKED_KEYS_def)
  from login_pair_rate [OF prod.collapse [symmetric] _ this] show ?thesis by simp
qed

text \<open>
  The map of attempts stays bounded for ever: after any sequence of attempts and
  logins it holds fewer than twenty thousand keys, each once.
\<close>

theorem login_memory_bounded:
  "throttle_size (fst (throttle_run throttle_initial ops)) < 2 * MAX_TRACKED_KEYS \<and>
   jm_wf (attempts (fst (throttle_run throttle_initial ops)))"
  using throttle_run_ok [OF throttle_ok_initial, of ops] by (simp add: throttle_ok_def throttle_size_def)

text \<open>
  An account cannot be locked from outside: an address with no live attempt at it is
  let through however many attempts others have made, and a refused attempt is not recorded, so a
  refusal ends when the recorded attempts expire.
\<close>

theorem login_not_locked_out:
  "((\<forall>t\<in>set (hits_of st (pair_key a ip)). t \<le> now - ACCOUNT_WINDOW_MS) \<longrightarrow> fst (throttle_consume a ip now st)) \<and>
   (\<not> fst (throttle_consume a ip now st) \<longrightarrow>
      hits_of (snd (throttle_consume a ip now st)) k \<in> {hits_of st k, throttle_prune now (hits_of st k)})"
  using throttle_expired_passes throttle_refusal_ends by auto

theorem login_not_locked_out_witness:
  "fst (throttle_consume [97] [49] 5 (throttle_initial\<lparr>attempts := [(acct_key [97], replicate 15 4)]\<rparr>))"
  using login_not_locked_out [of "throttle_initial\<lparr>attempts := [(acct_key [97], replicate 15 4)]\<rparr>" "[97]" "[49]" 5]
  by (simp add: hits_of_def acct_key_def pair_key_def lit_def)

end
