(* ===== verification/OperationElements.thy ===== *)
theory OperationElements
  imports JsText "HOL-Library.Extended_Nat"
begin

text \<open>
  \<open>server/src/operation-boards/operation-board-elements.ts\<close>, the one place where the elements of an
  operation board are checked, and the recogniser of background URLs in
  \<open>operation-board-upload.options.ts\<close>. An element is the list of its properties in insertion order;
  \<open>nc r\<close> is the length of the text the runtime prints for the number \<open>r\<close>.
\<close>

type_synonym op_element = "(jstring \<times> jsval) list"

definition MAX_OPERATION_ELEMENTS :: nat where "MAX_OPERATION_ELEMENTS = 500"
definition MAX_OPERATION_ELEMENT_BYTES :: enat where "MAX_OPERATION_ELEMENT_BYTES = 4 * 1024"
definition MAX_OPERATION_ELEMENTS_BYTES :: enat where "MAX_OPERATION_ELEMENTS_BYTES = 250000"

definition ELEMENT_ID_MAX_LENGTH :: nat where "ELEMENT_ID_MAX_LENGTH = 80"
definition ELEMENT_TEXT_MAX_LENGTH :: nat where "ELEMENT_TEXT_MAX_LENGTH = 300"
definition ELEMENT_COLOR_MAX_LENGTH :: nat where "ELEMENT_COLOR_MAX_LENGTH = 32"
definition ELEMENT_STRING_MAX_LENGTH :: nat where "ELEMENT_STRING_MAX_LENGTH = 512"

definition ALLOWED_ELEMENT_TYPES :: "jstring list" where
  "ALLOWED_ELEMENT_TYPES =
     map lit [''path'', ''line'', ''arrow'', ''rect'', ''ellipse'', ''text'', ''marker'']"

definition ALLOWED_NUMBER_KEYS :: "jstring list" where
  "ALLOWED_NUMBER_KEYS =
     map lit [''x'', ''y'', ''x2'', ''y2'', ''cx'', ''cy'', ''rx'', ''ry'', ''width'', ''height'',
              ''strokeWidth'', ''fontSize'']"

definition ALLOWED_STRING_KEYS :: "jstring list" where
  "ALLOWED_STRING_KEYS = map lit [''color'', ''text'', ''marker'', ''d'']"

definition ALLOWED_BOOLEAN_KEYS :: "jstring list" where
  "ALLOWED_BOOLEAN_KEYS = map lit [''filled'']"

definition stringMaxLength :: "jstring \<Rightarrow> nat" where
  "stringMaxLength key =
     (if key = lit ''text'' then ELEMENT_TEXT_MAX_LENGTH
      else if key = lit ''color'' then ELEMENT_COLOR_MAX_LENGTH
      else ELEMENT_STRING_MAX_LENGTH)"

definition normalizeRequiredString :: "jsval \<Rightarrow> nat \<Rightarrow> jstring option" where
  "normalizeRequiredString v maxLength =
     (case v of
        JStr s \<Rightarrow> (let trimmed = js_trim s
                   in if trimmed = [] \<or> maxLength < length trimmed then None else Some trimmed)
      | _ \<Rightarrow> None)"

text \<open>\<open>Infinity\<close> when the value has no JSON text.\<close>

definition operationElementBytes :: "(rat \<Rightarrow> nat) \<Rightarrow> jsval \<Rightarrow> enat" where
  "operationElementBytes nc v =
     (case json_bytes nc v of None \<Rightarrow> \<infinity> | Some b \<Rightarrow> enat (b + 1))"

text \<open>One turn of the loop over \<open>Object.entries(source)\<close>: \<open>None\<close> rejects the element.\<close>

definition sanitize_entry :: "jstring \<Rightarrow> jsval \<Rightarrow> op_element \<Rightarrow> op_element option" where
  "sanitize_entry key v sanitized =
     (if key = lit ''id'' \<or> key = lit ''type'' then Some sanitized
      else if key \<in> set ALLOWED_NUMBER_KEYS then
        (case v of JNum (NumFin r) \<Rightarrow> Some (AList.update key v sanitized) | _ \<Rightarrow> None)
      else if key \<in> set ALLOWED_STRING_KEYS then
        (case v of
           JStr s \<Rightarrow> if stringMaxLength key < length s then None else Some (AList.update key v sanitized)
         | _ \<Rightarrow> None)
      else if key \<in> set ALLOWED_BOOLEAN_KEYS then
        (case v of JBool b \<Rightarrow> Some (AList.update key v sanitized) | _ \<Rightarrow> None)
      else None)"

fun sanitize_entries :: "(jstring \<times> jsval) list \<Rightarrow> op_element \<Rightarrow> op_element option" where
  "sanitize_entries [] sanitized = Some sanitized"
| "sanitize_entries ((key, v) # rest) sanitized =
     (case sanitize_entry key v sanitized of None \<Rightarrow> None | Some s \<Rightarrow> sanitize_entries rest s)"

definition normalizeOperationElement :: "(rat \<Rightarrow> nat) \<Rightarrow> jsval \<Rightarrow> op_element option" where
  "normalizeOperationElement nc element =
     (case element of
        JObj source \<Rightarrow>
          (case normalizeRequiredString (js_field source ''id'') ELEMENT_ID_MAX_LENGTH of
             None \<Rightarrow> None
           | Some i \<Rightarrow>
          (case normalizeRequiredString (js_field source ''type'') ELEMENT_STRING_MAX_LENGTH of
             None \<Rightarrow> None
           | Some ty \<Rightarrow>
             if ty \<notin> set ALLOWED_ELEMENT_TYPES then None
             else (case sanitize_entries source [(lit ''id'', JStr i), (lit ''type'', JStr ty)] of
                     None \<Rightarrow> None
                   | Some sanitized \<Rightarrow>
                       if MAX_OPERATION_ELEMENT_BYTES < operationElementBytes nc (JObj sanitized) then None
                       else Some sanitized)))
      | _ \<Rightarrow> None)"

datatype op_rejection = Invalid | TooMany | TooLarge

type_synonym validation = "op_element list \<times> enat \<times> op_rejection option"

fun validate_loop :: "(rat \<Rightarrow> nat) \<Rightarrow> jsval list \<Rightarrow> op_element list \<Rightarrow> enat \<Rightarrow> validation" where
  "validate_loop nc [] normalized bytes = (normalized, bytes, None)"
| "validate_loop nc (element # rest) normalized bytes =
     (case normalizeOperationElement nc element of
        None \<Rightarrow> ([], 0, Some Invalid)
      | Some item \<Rightarrow>
          (let bytes' = bytes + operationElementBytes nc (JObj item)
           in if MAX_OPERATION_ELEMENTS_BYTES < bytes' then ([], bytes', Some TooLarge)
              else validate_loop nc rest (normalized @ [item]) bytes'))"

definition validateOperationElements :: "(rat \<Rightarrow> nat) \<Rightarrow> jsval \<Rightarrow> validation" where
  "validateOperationElements nc elements =
     (case elements of
        JArr xs \<Rightarrow> if MAX_OPERATION_ELEMENTS < length xs then ([], 0, Some TooMany)
                   else validate_loop nc xs [] 0
      | _ \<Rightarrow> ([], 0, Some Invalid))"

definition normalizeOperationElements :: "(rat \<Rightarrow> nat) \<Rightarrow> jsval \<Rightarrow> op_element list option" where
  "normalizeOperationElements nc elements =
     (case validateOperationElements nc elements of
        (_, _, Some _) \<Rightarrow> None
      | (els, _, None) \<Rightarrow> Some els)"

subsection \<open>Background URLs\<close>

text \<open>The pattern as the list of the character classes it consumes; the flag \<open>i\<close> folds ASCII case.\<close>

definition fold_lit :: "string \<Rightarrow> (nat \<Rightarrow> bool) list" where
  "fold_lit s = map (\<lambda>c u. ascii_lower u = ascii_lower c) (lit s)"

definition hex_digit :: "nat \<Rightarrow> bool" where
  "hex_digit u \<longleftrightarrow> js_digit u \<or> (97 \<le> ascii_lower u \<and> ascii_lower u \<le> 102)"

definition background_file_name :: "string \<Rightarrow> (nat \<Rightarrow> bool) list" where
  "background_file_name ext =
     replicate 13 js_digit @ fold_lit ''-'' @ replicate 8 hex_digit @ fold_lit ''-'' @
     replicate 4 hex_digit @ fold_lit ''-'' @ replicate 4 hex_digit @ fold_lit ''-'' @
     replicate 4 hex_digit @ fold_lit ''-'' @ replicate 12 hex_digit @ fold_lit ''.'' @ fold_lit ext"

definition OPERATION_BOARD_BACKGROUND_URL_PREFIX :: string where
  "OPERATION_BOARD_BACKGROUND_URL_PREFIX = ''/uploads/operation-boards/''"

definition isOperationBoardBackgroundUrl :: "jsval \<Rightarrow> bool" where
  "isOperationBoardBackgroundUrl v =
     (case v of
        JStr s \<Rightarrow> list_ex (\<lambda>ext. list_all2 (\<lambda>p u. p u)
                   (fold_lit OPERATION_BOARD_BACKGROUND_URL_PREFIX @ background_file_name ext) s)
                   [''jpg'', ''png'', ''webp'']
      | _ \<Rightarrow> False)"

text \<open>The file name \<open>diskStorage\<close> gives an upload; the MIME type is one the filter lets through.\<close>

definition background_upload_ext :: "string \<Rightarrow> string" where
  "background_upload_ext mime =
     (if mime = ''image/jpeg'' then ''.jpg'' else if mime = ''image/png'' then ''.png''
      else if mime = ''image/webp'' then ''.webp'' else ''.bin'')"

definition background_upload_name :: "nat \<Rightarrow> jstring \<Rightarrow> string \<Rightarrow> jstring" where
  "background_upload_name now uuid mime = js_show_nat now @ lit ''-'' @ uuid @ lit (background_upload_ext mime)"

subsection \<open>What an accepted element looks like\<close>

definition entry_ok :: "jstring \<Rightarrow> jsval \<Rightarrow> bool" where
  "entry_ok key v \<longleftrightarrow>
     (key \<in> set ALLOWED_NUMBER_KEYS \<and> (\<exists>r. v = JNum (NumFin r))) \<or>
     (key \<in> set ALLOWED_STRING_KEYS \<and> (\<exists>s. v = JStr s \<and> length s \<le> stringMaxLength key)) \<or>
     (key \<in> set ALLOWED_BOOLEAN_KEYS \<and> (\<exists>b. v = JBool b))"

lemmas key_lists = ALLOWED_NUMBER_KEYS_def ALLOWED_STRING_KEYS_def ALLOWED_BOOLEAN_KEYS_def

lemma entry_ok_key: "entry_ok key v \<Longrightarrow> key \<noteq> lit ''id'' \<and> key \<noteq> lit ''type''"
  by (auto simp: entry_ok_def key_lists)

lemma keys_disjoint:
  "key \<in> set ALLOWED_STRING_KEYS \<Longrightarrow> key \<notin> set ALLOWED_NUMBER_KEYS"
  "key \<in> set ALLOWED_BOOLEAN_KEYS \<Longrightarrow> key \<notin> set ALLOWED_NUMBER_KEYS \<and> key \<notin> set ALLOWED_STRING_KEYS"
  by (auto simp: key_lists)

lemma sanitize_entry_eq:
  "sanitize_entry key v acc =
     (if key = lit ''id'' \<or> key = lit ''type'' then Some acc
      else if entry_ok key v then Some (AList.update key v acc) else None)"
proof (cases "key = lit ''id'' \<or> key = lit ''type''")
  case False
  then show ?thesis using keys_disjoint [of key]
    by (cases v) (auto simp: sanitize_entry_def entry_ok_def split: jsnum.splits)
qed (simp add: sanitize_entry_def)

definition element_shape :: "jstring \<Rightarrow> jstring \<Rightarrow> op_element \<Rightarrow> op_element" where
  "element_shape i ty r = (lit ''id'', JStr i) # (lit ''type'', JStr ty) # r"

definition entries_ok :: "op_element \<Rightarrow> bool" where
  "entries_ok r \<longleftrightarrow> distinct (map fst r) \<and> (\<forall>(k, v)\<in>set r. entry_ok k v)"

lemma set_update_subset: "set (AList.update k v r) \<subseteq> insert (k, v) (set r)"
  by (induction r) auto

lemma entries_ok_update: "entries_ok r \<Longrightarrow> entry_ok k v \<Longrightarrow> entries_ok (AList.update k v r)"
  using set_update_subset [of k v r] by (auto simp: entries_ok_def distinct_update)

lemma sanitize_entries_ok:
  "sanitize_entries src (element_shape i ty r) = Some e \<Longrightarrow> entries_ok r \<Longrightarrow>
   (\<exists>r'. e = element_shape i ty r' \<and> entries_ok r') \<and>
   (\<forall>(k, v)\<in>set src. k = lit ''id'' \<or> k = lit ''type'' \<or> entry_ok k v)"
proof (induction src arbitrary: r)
  case (Cons kv src)
  obtain k v where kv: "kv = (k, v)" by (cases kv)
  show ?case
  proof (cases "k = lit ''id'' \<or> k = lit ''type''")
    case True
    then show ?thesis using Cons.prems Cons.IH [of r] by (auto simp: kv sanitize_entry_eq)
  next
    case False
    then have ok: "entry_ok k v" using Cons.prems(1) by (auto simp: kv sanitize_entry_eq split: if_splits)
    have "AList.update k v (element_shape i ty r) = element_shape i ty (AList.update k v r)"
      using False by (auto simp: element_shape_def)
    then show ?thesis using Cons.prems Cons.IH [OF _ entries_ok_update [OF Cons.prems(2) ok]] ok False
      by (auto simp: kv sanitize_entry_eq)
  qed
qed auto

lemma update_fresh: "k \<notin> fst ` set r \<Longrightarrow> AList.update k v r = r @ [(k, v)]"
  by (induction r) auto

lemma sanitize_entries_append:
  "distinct (map fst (acc @ src)) \<Longrightarrow> \<forall>(k, v)\<in>set src. entry_ok k v \<Longrightarrow>
   sanitize_entries src acc = Some (acc @ src)"
proof (induction src arbitrary: acc)
  case (Cons kv src)
  obtain k v where kv: "kv = (k, v)" by (cases kv)
  have "entry_ok k v" using Cons.prems(2) kv by simp
  moreover have "AList.update k v acc = acc @ [(k, v)]" using Cons.prems(1) kv by (intro update_fresh) auto
  moreover have "sanitize_entries src (acc @ [(k, v)]) = Some ((acc @ [(k, v)]) @ src)"
    using Cons.prems kv by (intro Cons.IH) auto
  ultimately show ?case using entry_ok_key [of k v] by (simp add: kv sanitize_entry_eq)
qed simp

definition element_valid :: "(rat \<Rightarrow> nat) \<Rightarrow> op_element \<Rightarrow> bool" where
  "element_valid nc e \<longleftrightarrow>
     (\<exists>i ty r. e = element_shape i ty r \<and> entries_ok r \<and>
        js_trim i = i \<and> i \<noteq> [] \<and> length i \<le> ELEMENT_ID_MAX_LENGTH \<and> ty \<in> set ALLOWED_ELEMENT_TYPES) \<and>
     operationElementBytes nc (JObj e) \<le> MAX_OPERATION_ELEMENT_BYTES"

lemma type_names: "ty \<in> set ALLOWED_ELEMENT_TYPES \<Longrightarrow> normalizeRequiredString (JStr ty) ELEMENT_STRING_MAX_LENGTH = Some ty"
  by (auto simp: ALLOWED_ELEMENT_TYPES_def normalizeRequiredString_def lit_def js_trim_def js_space_def
      ELEMENT_STRING_MAX_LENGTH_def)

lemma requiredString_Some:
  "normalizeRequiredString v n = Some s \<Longrightarrow> js_trim s = s \<and> s \<noteq> [] \<and> length s \<le> n \<and> (\<exists>t. v = JStr t \<and> s = js_trim t)"
  by (auto simp: normalizeRequiredString_def Let_def split: jsval.splits if_splits)

lemma normalize_valid:
  assumes "normalizeOperationElement nc v = Some e"
  shows "element_valid nc e"
proof -
  obtain source i ty where s: "v = JObj source"
    "normalizeRequiredString (js_field source ''id'') ELEMENT_ID_MAX_LENGTH = Some i"
    "ty \<in> set ALLOWED_ELEMENT_TYPES"
    "sanitize_entries source (element_shape i ty []) = Some e"
    "operationElementBytes nc (JObj e) \<le> MAX_OPERATION_ELEMENT_BYTES"
    using assms by (auto simp: normalizeOperationElement_def element_shape_def not_less
        split: jsval.splits option.splits if_splits)
  have "entries_ok []" by (simp add: entries_ok_def)
  with sanitize_entries_ok [OF s(4)] requiredString_Some [OF s(2)] s(3,5)
  show ?thesis unfolding element_valid_def by blast
qed

lemma normalize_idem:
  assumes "element_valid nc e"
  shows "normalizeOperationElement nc (JObj e) = Some e"
proof -
  obtain i ty r where e: "e = element_shape i ty r" "entries_ok r" "js_trim i = i" "i \<noteq> []"
    "length i \<le> ELEMENT_ID_MAX_LENGTH" "ty \<in> set ALLOWED_ELEMENT_TYPES"
    using assms unfolding element_valid_def by blast
  have keys: "lit ''id'' \<notin> fst ` set r" "lit ''type'' \<notin> fst ` set r"
    using e(2) entry_ok_key [of "lit ''id''"] entry_ok_key [of "lit ''type''"]
    by (fastforce simp: entries_ok_def)+
  have "sanitize_entries r [(lit ''id'', JStr i), (lit ''type'', JStr ty)]
      = Some ([(lit ''id'', JStr i), (lit ''type'', JStr ty)] @ r)"
    using e(2) keys by (intro sanitize_entries_append) (auto simp: entries_ok_def)
  then have "sanitize_entries e [(lit ''id'', JStr i), (lit ''type'', JStr ty)] = Some e"
    by (simp add: e(1) element_shape_def sanitize_entry_def)
  moreover have "normalizeRequiredString (js_field e ''id'') ELEMENT_ID_MAX_LENGTH = Some i"
    using e by (simp add: element_shape_def js_field_def normalizeRequiredString_def)
  moreover have "normalizeRequiredString (js_field e ''type'') ELEMENT_STRING_MAX_LENGTH = Some ty"
    using type_names [OF e(6)] by (simp add: e(1) element_shape_def js_field_def)
  moreover have "operationElementBytes nc (JObj e) \<le> MAX_OPERATION_ELEMENT_BYTES"
    using assms by (simp add: element_valid_def)
  ultimately show ?thesis using e(6) by (simp add: normalizeOperationElement_def not_less)
qed

text \<open>A property outside the white list, or of the wrong type, rejects the whole element.\<close>

lemma normalize_rejects_entry:
  assumes "(k, v) \<in> set source" and "k \<noteq> lit ''id''" and "k \<noteq> lit ''type''" and "\<not> entry_ok k v"
  shows "normalizeOperationElement nc (JObj source) = None"
proof (rule ccontr)
  assume "normalizeOperationElement nc (JObj source) \<noteq> None"
  then obtain i ty e where "sanitize_entries source (element_shape i ty []) = Some e"
    by (auto simp: normalizeOperationElement_def element_shape_def split: option.splits if_splits)
  from sanitize_entries_ok [OF this] assms show False by (auto simp: entries_ok_def)
qed

subsection \<open>Whole boards\<close>

definition elementBytes :: "(rat \<Rightarrow> nat) \<Rightarrow> op_element \<Rightarrow> enat" where
  "elementBytes nc e = operationElementBytes nc (JObj e)"

definition board_ok :: "(rat \<Rightarrow> nat) \<Rightarrow> op_element list \<Rightarrow> enat \<Rightarrow> bool" where
  "board_ok nc els bytes \<longleftrightarrow>
     list_all (element_valid nc) els \<and> length els \<le> MAX_OPERATION_ELEMENTS \<and>
     bytes = sum_list (map (elementBytes nc) els) \<and> bytes \<le> MAX_OPERATION_ELEMENTS_BYTES"

lemma validate_loop_ok:
  "validate_loop nc xs acc b = (els, bytes, None) \<Longrightarrow> list_all (element_valid nc) acc \<Longrightarrow>
   b = sum_list (map (elementBytes nc) acc) \<Longrightarrow> b \<le> MAX_OPERATION_ELEMENTS_BYTES \<Longrightarrow>
   list_all (element_valid nc) els \<and> length els = length acc + length xs \<and>
   bytes = sum_list (map (elementBytes nc) els) \<and> bytes \<le> MAX_OPERATION_ELEMENTS_BYTES"
proof (induction xs arbitrary: acc b)
  case (Cons x xs)
  obtain e where e: "normalizeOperationElement nc x = Some e"
    and b: "b + elementBytes nc e \<le> MAX_OPERATION_ELEMENTS_BYTES"
    and run: "validate_loop nc xs (acc @ [e]) (b + elementBytes nc e) = (els, bytes, None)"
    using Cons.prems(1) by (auto simp: Let_def elementBytes_def not_less split: option.splits if_splits)
  from Cons.IH [OF run _ _ b] Cons.prems(2,3) normalize_valid [OF e] show ?case by auto
qed simp

lemma validate_ok:
  "validateOperationElements nc v = (els, bytes, None) \<Longrightarrow> board_ok nc els bytes"
  using validate_loop_ok [of nc _ "[]" 0]
  by (auto simp: validateOperationElements_def board_ok_def not_less split: jsval.splits if_splits)

lemma validate_loop_id:
  "list_all (element_valid nc) es \<Longrightarrow> b + sum_list (map (elementBytes nc) es) \<le> MAX_OPERATION_ELEMENTS_BYTES \<Longrightarrow>
   validate_loop nc (map JObj es) acc b = (acc @ es, b + sum_list (map (elementBytes nc) es), None)"
proof (induction es arbitrary: acc b)
  case (Cons e es)
  have e: "normalizeOperationElement nc (JObj e) = Some e" using Cons.prems(1) by (simp add: normalize_idem)
  have "elementBytes nc e \<le> elementBytes nc e + sum_list (map (elementBytes nc) es)" by simp
  then have "b + elementBytes nc e \<le> b + (elementBytes nc e + sum_list (map (elementBytes nc) es))"
    by (rule add_left_mono)
  also have "\<dots> \<le> MAX_OPERATION_ELEMENTS_BYTES" using Cons.prems(2) by simp
  finally have le: "b + elementBytes nc e \<le> MAX_OPERATION_ELEMENTS_BYTES" .
  with Cons e show ?case by (simp add: Let_def elementBytes_def [symmetric] add.assoc not_less)
qed simp

text \<open>What was validated once validates again to itself: saving and loading lose nothing.\<close>

lemma validate_again:
  assumes "board_ok nc els bytes"
  shows "validateOperationElements nc (JArr (map JObj els)) = (els, bytes, None)"
proof -
  have "validate_loop nc (map JObj els) [] 0 = ([] @ els, 0 + sum_list (map (elementBytes nc) els), None)"
    by (rule validate_loop_id) (use assms in \<open>auto simp: board_ok_def\<close>)
  then show ?thesis using assms by (auto simp: validateOperationElements_def board_ok_def)
qed

lemma elementBytes_finite: "element_valid nc e \<Longrightarrow> elementBytes nc e \<noteq> \<infinity>"
  by (auto simp: elementBytes_def operationElementBytes_def)

subsection \<open>Uploads\<close>

lemma list_all2_replicate: "list_all P s \<Longrightarrow> length s = n \<Longrightarrow> list_all2 (\<lambda>p u. p u) (replicate n P) s"
  by (simp add: list_all2_conv_all_nth list_all_length)

lemma fold_lit_refl: "list_all2 (\<lambda>p u. p u) (fold_lit s) (lit s)"
  by (simp add: fold_lit_def list_all2_conv_all_nth)

definition uuid_text :: "jstring \<Rightarrow> jstring \<Rightarrow> jstring \<Rightarrow> jstring \<Rightarrow> jstring \<Rightarrow> jstring" where
  "uuid_text a b c d e = a @ lit ''-'' @ b @ lit ''-'' @ c @ lit ''-'' @ d @ lit ''-'' @ e"

text \<open>
  The names the uploader makes are names the recogniser accepts, as long as the clock has thirteen
  digits.
\<close>

lemma upload_url_recognised:
  assumes "length (js_show_nat now) = 13"
    and "list_all hex_digit a" "length a = 8" "list_all hex_digit b" "length b = 4"
    and "list_all hex_digit c" "length c = 4" "list_all hex_digit d" "length d = 4"
    and "list_all hex_digit e" "length e = 12"
    and "mime \<in> {''image/jpeg'', ''image/png'', ''image/webp''}"
  shows "isOperationBoardBackgroundUrl
    (JStr (lit OPERATION_BOARD_BACKGROUND_URL_PREFIX @ background_upload_name now (uuid_text a b c d e) mime))"
proof -
  have "list_all js_digit (js_show_nat now)" using js_show_nat_digits [of now] by (simp add: js_all_digits_def)
  then have n: "list_all2 (\<lambda>p u. p u) (replicate 13 js_digit) (js_show_nat now)"
    using assms(1) by (rule list_all2_replicate)
  have "list_all2 (\<lambda>p u. p u)
      (fold_lit OPERATION_BOARD_BACKGROUND_URL_PREFIX @ background_file_name ext)
      (lit OPERATION_BOARD_BACKGROUND_URL_PREFIX @ js_show_nat now @ lit ''-'' @ uuid_text a b c d e @ lit ''.'' @ lit ext)" for ext
    unfolding background_file_name_def uuid_text_def append_assoc
    by (intro list_all2_appendI fold_lit_refl n list_all2_replicate assms)
  then have match: "list_all2 (\<lambda>p u. p u)
      (fold_lit OPERATION_BOARD_BACKGROUND_URL_PREFIX @ background_file_name ext)
      (lit OPERATION_BOARD_BACKGROUND_URL_PREFIX @ js_show_nat now @ lit ''-'' @ uuid_text a b c d e @ lit (''.'' @ ext))" for ext
    unfolding lit_append .
  obtain ext where ext: "ext \<in> set [''jpg'', ''png'', ''webp'']" "background_upload_ext mime = ''.'' @ ext"
    using assms(12) by (force simp: background_upload_ext_def)
  show ?thesis unfolding isOperationBoardBackgroundUrl_def background_upload_name_def ext(2) jsval.case list_ex_iff
    by (rule bexI [OF match ext(1)])
qed

end
