(* ===== verification/OperationBoard.thy ===== *)
theory OperationBoard
  imports OperationElements Limiters
begin

text \<open>
  \<open>OperationBoardsGateway\<close> (\<open>server/src/operation-boards/operation-boards.gateway.ts\<close>): the live
  operation board. One record holds the fields of the gateway, the buckets of the rate limiter it
  shares, the sockets in its room and the messages sent so far with their receivers. Each handler
  returns its acknowledgement with the new state. A handler that awaits the user look-up is split at
  the await: \<open>handleJoin\<close> checks the rate, \<open>handleJoin_resume\<close> continues when the look-up has ended,
  and other handlers may run between the two.
\<close>

record op_user =
  ou_nickname :: jstring
  ou_alliance :: jstring
  ou_role :: string

record participant = op_user +
  participantId :: socket_id
  canDraw :: bool
  chatOpen :: bool

datatype op_background = BgGrid | BgImage jstring

datatype op_message =
    MsgState "op_element list" op_background "participant list" bool
  | MsgPresence "participant list"
  | MsgElementAdd op_element
  | MsgElementRemove jstring
  | MsgClear
  | MsgBoardReplace "op_element list" op_background
  | MsgBackgroundUpdate op_background

datatype op_reason =
    RateLimited | OpForbidden | InvalidElement | InvalidBackground | TooManyElements | BoardTooLarge

record op_ack =
  ack_ok :: bool
  ack_reason :: "op_reason option"

record op_board =
  connectedUsers :: "(socket_id, op_user) jmap"
  participants :: "(socket_id, participant) jmap"
  elements :: "op_element list"
  elementsBytes :: enat
  background :: op_background
  presenceTimer :: "millis option"
  op_buckets :: ws_buckets
  op_room :: "socket_id list"
  op_sent :: "(socket_id list \<times> op_message) list"
  op_kicked :: "socket_id list"

definition op_initial :: op_board where
  "op_initial = \<lparr>connectedUsers = [], participants = [], elements = [], elementsBytes = 0,
     background = BgGrid, presenceTimer = None, op_buckets = [], op_room = [], op_sent = [], op_kicked = []\<rparr>"

definition PRESENCE_COALESCE_MS :: millis where "PRESENCE_COALESCE_MS = 120"

definition op_rate_rule :: "event_name \<Rightarrow> nat \<times> millis" where
  "op_rate_rule ev =
     (if ev = ''operation:join'' then (20, 60000)
      else if ev = ''operation:leave'' then (30, 60000)
      else if ev = ''operation:chat-open'' then (30, 60000)
      else if ev = ''operation:permission:update'' then (120, 60000)
      else if ev = ''operation:element:add'' then (120, 10000)
      else if ev = ''operation:element:remove'' then (120, 10000)
      else if ev = ''operation:clear'' then (10, 60000)
      else if ev = ''operation:background:update'' then (20, 60000)
      else (6, 60000))"

definition ack_true :: op_ack where "ack_true = \<lparr>ack_ok = True, ack_reason = None\<rparr>"
definition ack_false :: op_ack where "ack_false = \<lparr>ack_ok = False, ack_reason = None\<rparr>"
definition op_reject :: "op_reason \<Rightarrow> op_ack" where "op_reject r = \<lparr>ack_ok = False, ack_reason = Some r\<rparr>"

definition rejectionReason :: "op_rejection \<Rightarrow> op_reason" where
  "rejectionReason r =
     (case r of TooMany \<Rightarrow> TooManyElements | TooLarge \<Rightarrow> BoardTooLarge | Invalid \<Rightarrow> InvalidElement)"

text \<open>\<open>body?.k\<close>: undefined unless the body is an object with that property.\<close>

definition body_field :: "jsval \<Rightarrow> string \<Rightarrow> jsval" where
  "body_field body k = (case body of JObj m \<Rightarrow> js_field m k | _ \<Rightarrow> JUndef)"

definition isPrivilegedRole :: "string \<Rightarrow> bool" where
  "isPrivilegedRole role \<longleftrightarrow> role = ''admin'' \<or> role = ''developer''"

definition may_draw :: "participant \<Rightarrow> bool" where
  "may_draw p \<longleftrightarrow> isPrivilegedRole (ou_role p) \<or> canDraw p"

definition canClientDraw :: "socket_id \<Rightarrow> op_board \<Rightarrow> bool" where
  "canClientDraw c s = (case map_of (participants s) c of None \<Rightarrow> False | Some p \<Rightarrow> may_draw p)"

definition canClientManage :: "socket_id \<Rightarrow> op_board \<Rightarrow> bool" where
  "canClientManage c s = (case map_of (participants s) c of None \<Rightarrow> False | Some p \<Rightarrow> isPrivilegedRole (ou_role p))"

definition getParticipants :: "op_board \<Rightarrow> participant list" where
  "getParticipants s = map (\<lambda>(i, p). p\<lparr>canDraw := may_draw p\<rparr>) (participants s)"

definition op_checkRate :: "millis \<Rightarrow> socket_id \<Rightarrow> event_name \<Rightarrow> op_board \<Rightarrow> bool \<times> op_board" where
  "op_checkRate now c ev s =
     (let (ok, b) = ws_check now c ev (fst (op_rate_rule ev)) (snd (op_rate_rule ev)) (op_buckets s)
      in (ok, s\<lparr>op_buckets := b\<rparr>))"

definition op_broadcast :: "op_message \<Rightarrow> op_board \<Rightarrow> op_board" where
  "op_broadcast m s = s\<lparr>op_sent := op_sent s @ [(op_room s, m)]\<rparr>"

definition op_emit_to :: "socket_id \<Rightarrow> op_message \<Rightarrow> op_board \<Rightarrow> op_board" where
  "op_emit_to c m s = s\<lparr>op_sent := op_sent s @ [([c], m)]\<rparr>"

definition broadcastPresence :: "millis \<Rightarrow> op_board \<Rightarrow> op_board" where
  "broadcastPresence now s =
     (if presenceTimer s \<noteq> None then s else s\<lparr>presenceTimer := Some (now + PRESENCE_COALESCE_MS)\<rparr>)"

text \<open>The timer of the presence window.\<close>

definition presence_fires :: "op_board \<Rightarrow> op_board" where
  "presence_fires s =
     (case presenceTimer s of
        None \<Rightarrow> s
      | Some due \<Rightarrow> op_broadcast (MsgPresence (getParticipants s)) (s\<lparr>presenceTimer := None\<rparr>))"

definition op_onModuleDestroy :: "op_board \<Rightarrow> op_board" where
  "op_onModuleDestroy s = s\<lparr>presenceTimer := None\<rparr>"

subsection \<open>Connections\<close>

text \<open>
  \<open>resolved\<close> is what \<open>socketAuth.resolveUser\<close> gave, already reduced to the fields the gateway keeps;
  \<open>conn\<close> is \<open>client.connected\<close> after the await.
\<close>

definition op_handleConnection :: "socket_id \<Rightarrow> op_user option \<Rightarrow> bool \<Rightarrow> op_board \<Rightarrow> op_board" where
  "op_handleConnection c resolved conn s =
     (if \<not> conn then s
      else (case resolved of
              None \<Rightarrow> s\<lparr>op_kicked := op_kicked s @ [c]\<rparr>
            | Some u \<Rightarrow> s\<lparr>connectedUsers := AList.update c u (connectedUsers s)\<rparr>))"

text \<open>socket.io has taken the socket out of its rooms when the handler runs.\<close>

definition op_handleDisconnect :: "millis \<Rightarrow> socket_id \<Rightarrow> op_board \<Rightarrow> op_board" where
  "op_handleDisconnect now c s =
     (let wasParticipant = (map_of (participants s) c \<noteq> None);
          s' = s\<lparr>connectedUsers := AList.delete c (connectedUsers s),
                 participants := AList.delete c (participants s),
                 op_buckets := ws_cleanup c (op_buckets s),
                 op_room := removeAll c (op_room s)\<rparr>
      in if wasParticipant then broadcastPresence now s' else s')"

definition handleJoin :: "millis \<Rightarrow> socket_id \<Rightarrow> op_board \<Rightarrow> op_ack option \<times> op_board" where
  "handleJoin now c s =
     (let (ok, s') = op_checkRate now c ''operation:join'' s
      in (if ok then None else Some (op_reject RateLimited), s'))"

definition ensureUser :: "socket_id \<Rightarrow> op_user option \<Rightarrow> bool \<Rightarrow> op_board \<Rightarrow> op_user option \<times> op_board" where
  "ensureUser c resolved conn s =
     (if \<not> conn then (None, s)
      else (case map_of (connectedUsers s) c of
              Some u \<Rightarrow> (Some u, s)
            | None \<Rightarrow>
                (case resolved of
                   None \<Rightarrow> (None, s)
                 | Some u \<Rightarrow> (Some u, s\<lparr>connectedUsers := AList.update c u (connectedUsers s)\<rparr>))))"

definition room_join :: "socket_id \<Rightarrow> socket_id list \<Rightarrow> socket_id list" where
  "room_join c r = (if c \<in> set r then r else r @ [c])"

definition handleJoin_resume ::
    "millis \<Rightarrow> socket_id \<Rightarrow> op_user option \<Rightarrow> bool \<Rightarrow> jsval \<Rightarrow> op_board \<Rightarrow> op_ack \<times> op_board" where
  "handleJoin_resume now c resolved conn body s =
     (let (user, s1) = ensureUser c resolved conn s
      in if \<not> conn then (ack_false, s1)
         else (case user of
                 None \<Rightarrow> (ack_false, s1\<lparr>op_kicked := op_kicked s1 @ [c]\<rparr>)
               | Some u \<Rightarrow>
                   (let p = \<lparr>ou_nickname = ou_nickname u, ou_alliance = ou_alliance u, ou_role = ou_role u,
                             participantId = c, canDraw = isPrivilegedRole (ou_role u),
                             chatOpen = (body_field body ''chatOpen'' = JBool True)\<rparr>;
                        s2 = s1\<lparr>participants := AList.update c p (participants s1), op_room := room_join c (op_room s1)\<rparr>;
                        s3 = op_emit_to c (MsgState (elements s2) (background s2) (getParticipants s2) (may_draw p)) s2
                    in (ack_true, broadcastPresence now s3))))"

definition isLiveBackgroundImage :: "jstring \<Rightarrow> op_board \<Rightarrow> bool" where
  "isLiveBackgroundImage url s = (case background s of BgImage u \<Rightarrow> u = url | BgGrid \<Rightarrow> False)"

definition liveBackgroundImageUrl :: "op_board \<Rightarrow> jstring option" where
  "liveBackgroundImageUrl s = (case background s of BgImage u \<Rightarrow> Some u | BgGrid \<Rightarrow> None)"

subsection \<open>Requests\<close>

text \<open>Every handler starts with the rate check; the rest runs only when it lets the call through.\<close>

definition rated :: "millis \<Rightarrow> socket_id \<Rightarrow> event_name \<Rightarrow> (op_board \<Rightarrow> op_ack \<times> op_board) \<Rightarrow> op_board \<Rightarrow> op_ack \<times> op_board" where
  "rated now c ev h s =
     (let (ok, s') = op_checkRate now c ev s in if ok then h s' else (op_reject RateLimited, s'))"

text \<open>A participant object is shared: changing its field changes the entry of the map in place.\<close>

definition handlePermissionUpdate :: "millis \<Rightarrow> socket_id \<Rightarrow> jsval \<Rightarrow> op_board \<Rightarrow> op_ack \<times> op_board" where
  "handlePermissionUpdate now c body = rated now c ''operation:permission:update'' (\<lambda>s.
     (case map_of (participants s) c of
        None \<Rightarrow> (op_reject OpForbidden, s)
      | Some actor \<Rightarrow>
          if \<not> isPrivilegedRole (ou_role actor) then (op_reject OpForbidden, s)
          else (case (body_field body ''participantId'', body_field body ''canDraw'') of
                  (JStr pid, JBool b) \<Rightarrow>
                    (case find (\<lambda>(i, p). lit i = pid) (participants s) of
                       None \<Rightarrow> (ack_false, s)
                     | Some (i, p) \<Rightarrow>
                         (let nextCanDraw = (isPrivilegedRole (ou_role p) \<or> b)
                          in if canDraw p = nextCanDraw then (ack_true, s)
                             else (ack_true, broadcastPresence now
                               (s\<lparr>participants := AList.update i (p\<lparr>canDraw := nextCanDraw\<rparr>) (participants s)\<rparr>))))
                | _ \<Rightarrow> (ack_false, s))))"

definition handleLeave :: "millis \<Rightarrow> socket_id \<Rightarrow> op_board \<Rightarrow> op_ack \<times> op_board" where
  "handleLeave now c = rated now c ''operation:leave'' (\<lambda>s.
     (let wasParticipant = (map_of (participants s) c \<noteq> None);
          s' = s\<lparr>participants := AList.delete c (participants s), op_room := removeAll c (op_room s)\<rparr>
      in (ack_true, if wasParticipant then broadcastPresence now s' else s')))"

definition handleChatOpen :: "millis \<Rightarrow> socket_id \<Rightarrow> jsval \<Rightarrow> op_board \<Rightarrow> op_ack \<times> op_board" where
  "handleChatOpen now c body = rated now c ''operation:chat-open'' (\<lambda>s.
     (case (map_of (participants s) c, body_field body ''chatOpen'') of
        (Some p, JBool b) \<Rightarrow>
          if chatOpen p = b then (ack_true, s)
          else (ack_true, broadcastPresence now
                  (s\<lparr>participants := AList.update c (p\<lparr>chatOpen := b\<rparr>) (participants s)\<rparr>))
      | _ \<Rightarrow> (ack_false, s)))"

definition handleElementAdd :: "(rat \<Rightarrow> nat) \<Rightarrow> millis \<Rightarrow> socket_id \<Rightarrow> jsval \<Rightarrow> op_board \<Rightarrow> op_ack \<times> op_board" where
  "handleElementAdd nc now c element = rated now c ''operation:element:add'' (\<lambda>s.
     (if \<not> canClientDraw c s then (op_reject OpForbidden, s)
      else (case normalizeOperationElement nc element of
              None \<Rightarrow> (op_reject InvalidElement, s)
            | Some normalized \<Rightarrow>
                if MAX_OPERATION_ELEMENTS \<le> length (elements s) then (op_reject TooManyElements, s)
                else (let bytes = operationElementBytes nc (JObj normalized)
                      in if MAX_OPERATION_ELEMENTS_BYTES < elementsBytes s + bytes then (op_reject BoardTooLarge, s)
                         else (ack_true, op_broadcast (MsgElementAdd normalized)
                                (s\<lparr>elements := elements s @ [normalized],
                                   elementsBytes := elementsBytes s + bytes\<rparr>))))))"

definition element_id :: "op_element \<Rightarrow> jsval" where
  "element_id e = js_field e ''id''"

definition handleElementRemove :: "(rat \<Rightarrow> nat) \<Rightarrow> millis \<Rightarrow> socket_id \<Rightarrow> jsval \<Rightarrow> op_board \<Rightarrow> op_ack \<times> op_board" where
  "handleElementRemove nc now c body = rated now c ''operation:element:remove'' (\<lambda>s.
     (if \<not> canClientDraw c s then (op_reject OpForbidden, s)
      else (case body_field body ''id'' of
              JStr i \<Rightarrow>
                if js_trim i = [] then (ack_false, s)
                else (let kept = filter (\<lambda>e. element_id e \<noteq> JStr i) (elements s);
                          removedBytes = sum_list (map (elementBytes nc) (filter (\<lambda>e. element_id e = JStr i) (elements s)))
                      in (ack_true, op_broadcast (MsgElementRemove i)
                           (s\<lparr>elements := kept, elementsBytes := max 0 (elementsBytes s - removedBytes)\<rparr>)))
            | _ \<Rightarrow> (ack_false, s))))"

definition handleClear :: "millis \<Rightarrow> socket_id \<Rightarrow> op_board \<Rightarrow> op_ack \<times> op_board" where
  "handleClear now c = rated now c ''operation:clear'' (\<lambda>s.
     (if \<not> canClientManage c s then (op_reject OpForbidden, s)
      else (ack_true, op_broadcast MsgClear (s\<lparr>elements := [], elementsBytes := 0\<rparr>))))"

definition normalizeBackground :: "jsval \<Rightarrow> op_background option" where
  "normalizeBackground body =
     (case body of
        JObj m \<Rightarrow>
          if js_field m ''type'' = JStr (lit ''grid'') then Some BgGrid
          else if js_field m ''type'' = JStr (lit ''image'')
          then (if isOperationBoardBackgroundUrl (js_field m ''imageUrl'')
                then (case js_field m ''imageUrl'' of JStr u \<Rightarrow> Some (BgImage u) | _ \<Rightarrow> None) else None)
          else None
      | _ \<Rightarrow> None)"

definition handleBoardReplace :: "(rat \<Rightarrow> nat) \<Rightarrow> millis \<Rightarrow> socket_id \<Rightarrow> jsval \<Rightarrow> op_board \<Rightarrow> op_ack \<times> op_board" where
  "handleBoardReplace nc now c body = rated now c ''operation:board:replace'' (\<lambda>s.
     (if \<not> canClientManage c s then (op_reject OpForbidden, s)
      else (let els = body_field body ''elements'';
                (validated, bytes, rejection) =
                  validateOperationElements nc (if els = JUndef \<or> els = JNull then JArr [] else els)
            in case rejection of
                 Some r \<Rightarrow> (op_reject (rejectionReason r), s)
               | None \<Rightarrow>
                   (let bg = body_field body ''background'';
                        background' = (if bg = JUndef then Some BgGrid else normalizeBackground bg)
                    in case background' of
                         None \<Rightarrow> (op_reject InvalidBackground, s)
                       | Some b \<Rightarrow> (ack_true, op_broadcast (MsgBoardReplace validated b)
                           (s\<lparr>elements := validated, elementsBytes := bytes, background := b\<rparr>))))))"

definition handleBackgroundUpdate :: "millis \<Rightarrow> socket_id \<Rightarrow> jsval \<Rightarrow> op_board \<Rightarrow> op_ack \<times> op_board" where
  "handleBackgroundUpdate now c body = rated now c ''operation:background:update'' (\<lambda>s.
     (if \<not> canClientManage c s then (op_reject OpForbidden, s)
      else (case normalizeBackground body of
              None \<Rightarrow> (op_reject InvalidBackground, s)
            | Some b \<Rightarrow> (ack_true, op_broadcast (MsgBackgroundUpdate b) (s\<lparr>background := b\<rparr>)))))"

end
