(* ===== verification/OperationReach.thy ===== *)
theory OperationReach
  imports OperationBoard
begin

text \<open>
  The invariant of the live board and the runs of the gateway: the byte counter is the sum over the
  elements and stays below its limit, every element is a valid one, the room holds exactly the
  participants, and once no presence window is open the last list sent is the current one.
\<close>

definition announced :: "op_board \<Rightarrow> participant list" where
  "announced s = foldl (\<lambda>a (r, m). case m of MsgPresence ps \<Rightarrow> ps | _ \<Rightarrow> a) [] (op_sent s)"

definition people_ok :: "op_board \<Rightarrow> bool" where
  "people_ok s \<longleftrightarrow> jm_wf (participants s) \<and> distinct (op_room s) \<and> set (op_room s) = fst ` set (participants s) \<and>
     (\<forall>(c, p)\<in>set (participants s). participantId p = c \<and> (isPrivilegedRole (ou_role p) \<longrightarrow> canDraw p))"

definition presence_ok :: "op_board \<Rightarrow> bool" where
  "presence_ok s \<longleftrightarrow> (presenceTimer s = None \<longrightarrow> announced s = getParticipants s)"

definition background_ok :: "op_background \<Rightarrow> bool" where
  "background_ok b = (case b of BgGrid \<Rightarrow> True | BgImage u \<Rightarrow> isOperationBoardBackgroundUrl (JStr u))"

definition op_inv :: "(rat \<Rightarrow> nat) \<Rightarrow> op_board \<Rightarrow> bool" where
  "op_inv nc s \<longleftrightarrow> board_ok nc (elements s) (elementsBytes s) \<and> people_ok s \<and> presence_ok s \<and> background_ok (background s)"

lemma op_inv_initial: "op_inv nc op_initial"
  by (simp add: op_inv_def op_initial_def board_ok_def people_ok_def presence_ok_def background_ok_def
      announced_def getParticipants_def)

lemma getParticipants_cong: "participants s = participants s' \<Longrightarrow> getParticipants s = getParticipants s'"
  by (simp add: getParticipants_def)

lemma announced_send: "announced (s\<lparr>op_sent := op_sent s @ [(r, m)]\<rparr>) = (case m of MsgPresence ps \<Rightarrow> ps | _ \<Rightarrow> announced s)"
  by (cases m) (simp_all add: announced_def)

text \<open>Frames: what the small operations leave alone.\<close>

lemma op_inv_rate: "op_inv nc (s\<lparr>op_buckets := b\<rparr>) = op_inv nc s"
  by (simp add: op_inv_def people_ok_def presence_ok_def announced_def getParticipants_def)

lemma op_inv_users: "op_inv nc (s\<lparr>connectedUsers := u\<rparr>) = op_inv nc s"
  by (simp add: op_inv_def people_ok_def presence_ok_def announced_def getParticipants_def)

lemma op_inv_kicked: "op_inv nc (s\<lparr>op_kicked := k\<rparr>) = op_inv nc s"
  by (simp add: op_inv_def people_ok_def presence_ok_def announced_def getParticipants_def)

lemma op_inv_broadcast:
  "op_inv nc s \<Longrightarrow> (\<And>ps. m \<noteq> MsgPresence ps) \<Longrightarrow> op_inv nc (op_broadcast m s)"
  by (cases m) (auto simp: op_inv_def people_ok_def presence_ok_def op_broadcast_def announced_def getParticipants_def)

lemma op_inv_board:
  "op_inv nc s \<Longrightarrow> board_ok nc els b \<Longrightarrow> op_inv nc (s\<lparr>elements := els, elementsBytes := b\<rparr>)"
  by (simp add: op_inv_def people_ok_def presence_ok_def announced_def getParticipants_def)

lemma op_inv_background:
  "op_inv nc s \<Longrightarrow> background_ok b \<Longrightarrow> op_inv nc (s\<lparr>background := b\<rparr>)"
  by (simp add: op_inv_def people_ok_def presence_ok_def announced_def getParticipants_def)

text \<open>A change of the participants is announced because it always opens the window.\<close>

lemma op_inv_people:
  assumes "op_inv nc s" and "people_ok s'" and "elements s' = elements s" and "elementsBytes s' = elementsBytes s"
    and "background s' = background s"
  shows "op_inv nc (broadcastPresence now s')"
  using assms
  by (auto simp: op_inv_def broadcastPresence_def presence_ok_def people_ok_def)

lemma rated_inv:
  "op_inv nc s \<Longrightarrow> (\<And>s. op_inv nc s \<Longrightarrow> op_inv nc (snd (h s))) \<Longrightarrow> op_inv nc (snd (rated now c ev h s))"
  by (auto simp: rated_def op_checkRate_def op_inv_rate split: prod.splits)

lemma presence_fires_inv: "op_inv nc s \<Longrightarrow> op_inv nc (presence_fires s)"
  by (auto simp: presence_fires_def op_broadcast_def op_inv_def people_ok_def presence_ok_def announced_def
      getParticipants_def split: option.splits)

subsection \<open>The board\<close>

lemma add_inv: "op_inv nc s \<Longrightarrow> op_inv nc (snd (handleElementAdd nc now c v s))"
  unfolding handleElementAdd_def
proof (rule rated_inv, assumption)
  fix s assume inv: "op_inv nc s"
  have "board_ok nc (elements s @ [e]) (elementsBytes s + operationElementBytes nc (JObj e))"
    if "normalizeOperationElement nc v = Some e" "\<not> MAX_OPERATION_ELEMENTS \<le> length (elements s)"
      "\<not> MAX_OPERATION_ELEMENTS_BYTES < elementsBytes s + operationElementBytes nc (JObj e)" for e
    using inv that normalize_valid [OF that(1)] by (auto simp: op_inv_def board_ok_def elementBytes_def)
  then show "op_inv nc (snd (if \<not> canClientDraw c s then (op_reject OpForbidden, s)
      else (case normalizeOperationElement nc v of
              None \<Rightarrow> (op_reject InvalidElement, s)
            | Some normalized \<Rightarrow>
                if MAX_OPERATION_ELEMENTS \<le> length (elements s) then (op_reject TooManyElements, s)
                else (let bytes = operationElementBytes nc (JObj normalized)
                      in if MAX_OPERATION_ELEMENTS_BYTES < elementsBytes s + bytes then (op_reject BoardTooLarge, s)
                         else (ack_true, op_broadcast (MsgElementAdd normalized)
                                (s\<lparr>elements := elements s @ [normalized],
                                   elementsBytes := elementsBytes s + bytes\<rparr>))))))"
    using inv by (auto simp: Let_def split: option.splits intro!: op_inv_broadcast op_inv_board)
qed

lemma sum_partition:
  "sum_list (map f xs) = sum_list (map f (filter P xs)) + sum_list (map f (filter (\<lambda>x. \<not> P x) xs))"
  for f :: "'a \<Rightarrow> enat"
  by (induction xs) (auto simp: ac_simps)

lemma sum_finite: "\<forall>x\<in>set xs. f x \<noteq> \<infinity> \<Longrightarrow> sum_list (map f xs) \<noteq> (\<infinity>::enat)"
  by (induction xs) auto

lemma enat_cancel: "r \<noteq> \<infinity> \<Longrightarrow> r + k - r = (k::enat)"
  by (cases r; cases k) auto

lemma sum_mono_filter: "sum_list (map f (filter P xs)) \<le> sum_list (map f xs)" for f :: "'a \<Rightarrow> enat"
  unfolding sum_partition [of f xs P] by simp

lemma remove_board:
  assumes "board_ok nc els b"
  shows "board_ok nc (filter (\<lambda>e. \<not> P e) els) (max 0 (b - sum_list (map (elementBytes nc) (filter P els))))"
proof -
  let ?f = "elementBytes nc"
  have "sum_list (map ?f (filter P els)) \<noteq> \<infinity>"
    by (rule sum_finite) (use assms elementBytes_finite in \<open>auto simp: board_ok_def list_all_iff\<close>)
  then have "b - sum_list (map ?f (filter P els)) = sum_list (map ?f (filter (\<lambda>e. \<not> P e) els))"
    using assms enat_cancel unfolding board_ok_def sum_partition [of ?f els P] by simp
  moreover have "sum_list (map ?f (filter (\<lambda>e. \<not> P e) els)) \<le> b"
    using assms sum_mono_filter unfolding board_ok_def by blast
  moreover have "length (filter (\<lambda>e. \<not> P e) els) \<le> MAX_OPERATION_ELEMENTS"
    using assms unfolding board_ok_def by (meson length_filter_le order_trans)
  ultimately show ?thesis using assms by (auto simp: board_ok_def list_all_iff)
qed

lemma remove_inv: "op_inv nc s \<Longrightarrow> op_inv nc (snd (handleElementRemove nc now c body s))"
  unfolding handleElementRemove_def
proof (rule rated_inv, assumption)
  fix s assume inv: "op_inv nc s"
  have "board_ok nc (filter (\<lambda>e. \<not> element_id e = JStr i) (elements s))
      (max 0 (elementsBytes s - sum_list (map (elementBytes nc) (filter (\<lambda>e. element_id e = JStr i) (elements s)))))" for i
    by (rule remove_board) (use inv in \<open>simp add: op_inv_def\<close>)
  then have "op_inv nc (op_broadcast (MsgElementRemove i) (s\<lparr>elements := filter (\<lambda>e. element_id e \<noteq> JStr i) (elements s),
      elementsBytes := max 0 (elementsBytes s - sum_list (map (elementBytes nc) (filter (\<lambda>e. element_id e = JStr i) (elements s))))\<rparr>))" for i
    by (intro op_inv_broadcast op_inv_board inv) auto
  then show "op_inv nc (snd (if \<not> canClientDraw c s then (op_reject OpForbidden, s)
      else (case body_field body ''id'' of
              JStr i \<Rightarrow>
                if js_trim i = [] then (ack_false, s)
                else (let kept = filter (\<lambda>e. element_id e \<noteq> JStr i) (elements s);
                          removedBytes = sum_list (map (elementBytes nc) (filter (\<lambda>e. element_id e = JStr i) (elements s)))
                      in (ack_true, op_broadcast (MsgElementRemove i)
                           (s\<lparr>elements := kept, elementsBytes := max 0 (elementsBytes s - removedBytes)\<rparr>)))
            | _ \<Rightarrow> (ack_false, s))))"
    using inv by (simp add: Let_def split: jsval.splits)
qed

lemma board_ok_empty: "board_ok nc [] 0"
  by (simp add: board_ok_def)

lemma clear_inv: "op_inv nc s \<Longrightarrow> op_inv nc (snd (handleClear now c s))"
  unfolding handleClear_def
  by (rule rated_inv) (auto intro!: op_inv_broadcast op_inv_board board_ok_empty)

lemma normalizeBackground_ok: "normalizeBackground body = Some b \<Longrightarrow> background_ok b"
  by (auto simp: normalizeBackground_def background_ok_def split: jsval.splits if_splits)

lemma replace_inv: "op_inv nc s \<Longrightarrow> op_inv nc (snd (handleBoardReplace nc now c body s))"
  unfolding handleBoardReplace_def
  by (rule rated_inv)
     (auto simp: Let_def background_ok_def split: prod.splits option.splits
       intro!: op_inv_broadcast op_inv_board op_inv_background intro: validate_ok normalizeBackground_ok)

lemma background_inv: "op_inv nc s \<Longrightarrow> op_inv nc (snd (handleBackgroundUpdate now c body s))"
  unfolding handleBackgroundUpdate_def
  by (rule rated_inv)
     (auto split: option.splits intro!: op_inv_broadcast op_inv_background intro: normalizeBackground_ok)

subsection \<open>The participants\<close>

lemma update_keys: "fst ` set (AList.update k v m) = insert k (fst ` set m)"
  by (induction m) auto

lemma delete_keys: "fst ` set (AList.delete k m) = fst ` set m - {k}"
  by (auto simp: AList.delete_eq image_iff)

lemma people_ok_put:
  assumes "people_ok s" and "participantId p = c" and "isPrivilegedRole (ou_role p) \<longrightarrow> canDraw p"
  shows "people_ok (s\<lparr>participants := AList.update c p (participants s), op_room := room_join c (op_room s)\<rparr>)"
  using assms set_update_subset [of c p "participants s"]
  by (auto simp: people_ok_def room_join_def update_keys)

lemma people_ok_drop:
  assumes "people_ok s"
  shows "people_ok (s\<lparr>participants := AList.delete c (participants s), op_room := removeAll c (op_room s)\<rparr>)"
  using assms by (auto simp: people_ok_def distinct_removeAll delete_keys set_removeAll)
    (auto simp: AList.delete_eq)

lemma people_ok_member: "people_ok s \<Longrightarrow> map_of (participants s) c = Some p \<Longrightarrow>
    participantId p = c \<and> (isPrivilegedRole (ou_role p) \<longrightarrow> canDraw p) \<and> c \<in> set (op_room s)"
  by (auto simp: people_ok_def dest!: map_of_SomeD intro: rev_image_eqI)

lemma people_ok_change:
  assumes "people_ok s" and "map_of (participants s) c = Some p" and "participantId p' = participantId p"
    and "isPrivilegedRole (ou_role p') \<longrightarrow> canDraw p'"
  shows "people_ok (s\<lparr>participants := AList.update c p' (participants s)\<rparr>)"
proof -
  have m: "participantId p = c" "c \<in> set (op_room s)" using people_ok_member [OF assms(1,2)] by auto
  then have "room_join c (op_room s) = op_room s" by (simp add: room_join_def)
  with people_ok_put [OF assms(1), of p' c] assms(3,4) m show ?thesis by simp
qed

lemma op_inv_people_ok: "op_inv nc s \<Longrightarrow> people_ok s"
  by (simp add: op_inv_def)

lemma disconnect_inv:
  assumes "op_inv nc s"
  shows "op_inv nc (op_handleDisconnect now c s)"
proof -
  let ?s = "s\<lparr>connectedUsers := AList.delete c (connectedUsers s), participants := AList.delete c (participants s),
    op_buckets := ws_cleanup c (op_buckets s), op_room := removeAll c (op_room s)\<rparr>"
  have ok: "people_ok ?s" using people_ok_drop [OF op_inv_people_ok [OF assms], of c] by (simp add: people_ok_def)
  have "op_inv nc (broadcastPresence now ?s)" by (rule op_inv_people [OF assms ok]) simp_all
  moreover have "op_inv nc ?s" if "map_of (participants s) c = None"
  proof -
    have "AList.delete c (participants s) = participants s" using that by (intro delete_id) (simp add: map_of_eq_None_iff)
    with assms ok show ?thesis by (simp add: op_inv_def presence_ok_def announced_def getParticipants_def)
  qed
  ultimately show ?thesis by (simp add: op_handleDisconnect_def Let_def)
qed

lemma leave_inv: "op_inv nc s \<Longrightarrow> op_inv nc (snd (handleLeave now c s))"
  unfolding handleLeave_def
proof (rule rated_inv, assumption)
  fix s assume inv: "op_inv nc s"
  let ?s = "s\<lparr>participants := AList.delete c (participants s), op_room := removeAll c (op_room s)\<rparr>"
  have ok: "people_ok ?s" by (rule people_ok_drop [OF op_inv_people_ok [OF inv]])
  have "op_inv nc (broadcastPresence now ?s)" by (rule op_inv_people [OF inv ok]) simp_all
  moreover have "op_inv nc ?s" if "map_of (participants s) c = None"
  proof -
    have "AList.delete c (participants s) = participants s" using that by (intro delete_id) (simp add: map_of_eq_None_iff)
    with inv ok show ?thesis by (simp add: op_inv_def presence_ok_def announced_def getParticipants_def)
  qed
  ultimately show "op_inv nc (snd (let wasParticipant = map_of (participants s) c \<noteq> None; s' = ?s
      in (ack_true, if wasParticipant then broadcastPresence now s' else s')))"
    by (simp add: Let_def)
qed

lemma chat_inv: "op_inv nc s \<Longrightarrow> op_inv nc (snd (handleChatOpen now c body s))"
  unfolding handleChatOpen_def
proof (rule rated_inv, assumption)
  fix s assume inv: "op_inv nc s"
  have "op_inv nc (broadcastPresence now (s\<lparr>participants := AList.update c (p\<lparr>chatOpen := b\<rparr>) (participants s)\<rparr>))"
    if "map_of (participants s) c = Some p" for p b
    by (rule op_inv_people [OF inv people_ok_change [OF op_inv_people_ok [OF inv] that]])
       (use people_ok_member [OF op_inv_people_ok [OF inv] that] in simp_all)
  with inv show "op_inv nc (snd (case (map_of (participants s) c, body_field body ''chatOpen'') of
        (Some p, JBool b) \<Rightarrow>
          if chatOpen p = b then (ack_true, s)
          else (ack_true, broadcastPresence now
                  (s\<lparr>participants := AList.update c (p\<lparr>chatOpen := b\<rparr>) (participants s)\<rparr>))
      | _ \<Rightarrow> (ack_false, s)))"
    by (auto split: option.splits jsval.splits)
qed

lemma find_member: "people_ok s \<Longrightarrow> find (\<lambda>(i, p). lit i = pid) (participants s) = Some (i, p) \<Longrightarrow>
    map_of (participants s) i = Some p"
  by (auto simp: find_Some_iff people_ok_def intro!: map_of_is_SomeI) (metis nth_mem)

lemma permission_inv: "op_inv nc s \<Longrightarrow> op_inv nc (snd (handlePermissionUpdate now c body s))"
  unfolding handlePermissionUpdate_def
proof (rule rated_inv, assumption)
  fix s assume inv: "op_inv nc s"
  have ok: "people_ok s" by (rule op_inv_people_ok [OF inv])
  have upd: "op_inv nc (broadcastPresence now
      (s\<lparr>participants := AList.update i (p\<lparr>canDraw := isPrivilegedRole (ou_role p) \<or> b\<rparr>) (participants s)\<rparr>))"
    if "find (\<lambda>(i, p). lit i = pid) (participants s) = Some (i, p)" for i p b pid
    by (rule op_inv_people [OF inv people_ok_change [OF ok find_member [OF ok that]]]) simp_all
  show "op_inv nc (snd (case map_of (participants s) c of
        None \<Rightarrow> (op_reject OpForbidden, s)
      | Some actor \<Rightarrow>
          if \<not> isPrivilegedRole (ou_role actor) then (op_reject OpForbidden, s)
          else (case (body_field body ''participantId'', body_field body ''canDraw'') of
                  (JStr pid, JBool b) \<Rightarrow>
                    (case find (\<lambda>(i, p). lit i = pid) (participants s) of
                       None \<Rightarrow> (ack_false, s)
                     | Some (i, p) \<Rightarrow>
                         (let nextCanDraw = (isPrivilegedRole (ou_role p) \<or> b)
                          in if canDraw p = nextCanDraw then (ack_true, s)
                             else (ack_true, broadcastPresence now
                               (s\<lparr>participants := AList.update i (p\<lparr>canDraw := nextCanDraw\<rparr>) (participants s)\<rparr>))))
                | _ \<Rightarrow> (ack_false, s))))"
    using inv upd by (auto simp: Let_def split: option.splits jsval.splits)
qed

lemma join_inv: "op_inv nc s \<Longrightarrow> op_inv nc (snd (handleJoin now c s))"
  by (auto simp: handleJoin_def op_checkRate_def op_inv_rate split: prod.splits)

lemma ensureUser_cases: "ensureUser c resolved conn s = (u, s') \<Longrightarrow> \<exists>m. s' = s\<lparr>connectedUsers := m\<rparr>"
  by (auto simp: ensureUser_def split: if_splits option.splits intro: exI [of _ "connectedUsers s"])

lemma join_resume_inv:
  assumes "op_inv nc s"
  shows "op_inv nc (snd (handleJoin_resume now c resolved conn body s))"
proof -
  obtain u s1 where e: "ensureUser c resolved conn s = (u, s1)" by (cases "ensureUser c resolved conn s")
  obtain m where "s1 = s\<lparr>connectedUsers := m\<rparr>" using ensureUser_cases [OF e] by blast
  then have inv: "op_inv nc s1" using assms by (simp add: op_inv_users)
  show ?thesis
  proof (cases "conn \<and> u \<noteq> None")
    case False
    then show ?thesis using inv by (auto simp: handleJoin_resume_def e op_inv_kicked split: option.splits)
  next
    case True
    then obtain v where v: "u = Some v" and conn by blast
    let ?p = "\<lparr>ou_nickname = ou_nickname v, ou_alliance = ou_alliance v, ou_role = ou_role v, participantId = c,
      canDraw = isPrivilegedRole (ou_role v), chatOpen = (body_field body ''chatOpen'' = JBool True)\<rparr>"
    let ?s2 = "s1\<lparr>participants := AList.update c ?p (participants s1), op_room := room_join c (op_room s1)\<rparr>"
    have ok: "people_ok ?s2" by (rule people_ok_put [OF op_inv_people_ok [OF inv]]) simp_all
    have "op_inv nc (broadcastPresence now (op_emit_to c m ?s2))" for m
      by (rule op_inv_people [OF inv]) (use ok in \<open>simp_all add: op_emit_to_def people_ok_def\<close>)
    then show ?thesis unfolding handleJoin_resume_def e v using \<open>conn\<close> by (simp add: Let_def)
  qed
qed

lemma op_connect_inv: "op_inv nc s \<Longrightarrow> op_inv nc (op_handleConnection c resolved conn s)"
  by (simp add: op_handleConnection_def op_inv_users op_inv_kicked split: option.splits)

subsection \<open>Runs\<close>

datatype op_request =
    ReqConnect socket_id "op_user option" bool
  | ReqDisconnect millis socket_id
  | ReqJoin millis socket_id
  | ReqJoinResume millis socket_id "op_user option" bool jsval
  | ReqPermission millis socket_id jsval
  | ReqLeave millis socket_id
  | ReqChatOpen millis socket_id jsval
  | ReqElementAdd millis socket_id jsval
  | ReqElementRemove millis socket_id jsval
  | ReqClear millis socket_id
  | ReqBoardReplace millis socket_id jsval
  | ReqBackground millis socket_id jsval
  | ReqPresenceTimer

primrec op_exec :: "(rat \<Rightarrow> nat) \<Rightarrow> op_request \<Rightarrow> op_board \<Rightarrow> op_board" where
  "op_exec nc (ReqConnect c r conn) s = op_handleConnection c r conn s"
| "op_exec nc (ReqDisconnect now c) s = op_handleDisconnect now c s"
| "op_exec nc (ReqJoin now c) s = snd (handleJoin now c s)"
| "op_exec nc (ReqJoinResume now c r conn b) s = snd (handleJoin_resume now c r conn b s)"
| "op_exec nc (ReqPermission now c b) s = snd (handlePermissionUpdate now c b s)"
| "op_exec nc (ReqLeave now c) s = snd (handleLeave now c s)"
| "op_exec nc (ReqChatOpen now c b) s = snd (handleChatOpen now c b s)"
| "op_exec nc (ReqElementAdd now c b) s = snd (handleElementAdd nc now c b s)"
| "op_exec nc (ReqElementRemove now c b) s = snd (handleElementRemove nc now c b s)"
| "op_exec nc (ReqClear now c) s = snd (handleClear now c s)"
| "op_exec nc (ReqBoardReplace now c b) s = snd (handleBoardReplace nc now c b s)"
| "op_exec nc (ReqBackground now c b) s = snd (handleBackgroundUpdate now c b s)"
| "op_exec nc ReqPresenceTimer s = presence_fires s"

inductive op_reach :: "(rat \<Rightarrow> nat) \<Rightarrow> op_board \<Rightarrow> bool" for nc where
  start: "op_reach nc op_initial"
| step: "op_reach nc s \<Longrightarrow> op_reach nc (op_exec nc req s)"

lemmas op_handlers_inv = op_connect_inv disconnect_inv join_inv join_resume_inv permission_inv leave_inv chat_inv
  add_inv remove_inv clear_inv replace_inv background_inv presence_fires_inv

lemma op_exec_inv: "op_inv nc s \<Longrightarrow> op_inv nc (op_exec nc req s)"
  by (cases req) (simp_all add: op_handlers_inv)

lemma op_reach_inv: "op_reach nc s \<Longrightarrow> op_inv nc s"
  by (induction rule: op_reach.induct) (simp_all add: op_inv_initial op_exec_inv)

text \<open>Who may change what.\<close>

definition op_actor :: "op_request \<Rightarrow> socket_id option" where
  "op_actor req =
     (case req of
        ReqElementAdd now c b \<Rightarrow> Some c | ReqElementRemove now c b \<Rightarrow> Some c | ReqClear now c \<Rightarrow> Some c
      | ReqBoardReplace now c b \<Rightarrow> Some c | ReqBackground now c b \<Rightarrow> Some c | _ \<Rightarrow> None)"

definition same_picture :: "op_board \<Rightarrow> op_board \<Rightarrow> bool" where
  "same_picture s s' \<longleftrightarrow> elements s' = elements s \<and> elementsBytes s' = elementsBytes s \<and> background s' = background s"

lemma rated_picture:
  "(\<And>s'. participants s' = participants s \<Longrightarrow> same_picture s s' \<Longrightarrow> same_picture s (snd (h s'))) \<Longrightarrow>
   same_picture s (snd (rated now c ev h s))"
  by (auto simp: rated_def op_checkRate_def same_picture_def split: prod.splits)

lemma picture_frame [simp]:
  "same_picture s s"
  "same_picture s (broadcastPresence now s') = same_picture s s'"
  "same_picture s (s'\<lparr>participants := p\<rparr>) = same_picture s s'"
  "same_picture s (s'\<lparr>op_room := r\<rparr>) = same_picture s s'"
  "same_picture s (s'\<lparr>op_kicked := k\<rparr>) = same_picture s s'"
  "same_picture s (s'\<lparr>op_buckets := b\<rparr>) = same_picture s s'"
  "same_picture s (s'\<lparr>connectedUsers := u\<rparr>) = same_picture s s'"
  "same_picture s (s'\<lparr>presenceTimer := t\<rparr>) = same_picture s s'"
  "same_picture s (op_broadcast m s') = same_picture s s'"
  "same_picture s (op_emit_to c m s') = same_picture s s'"
  by (auto simp: same_picture_def broadcastPresence_def op_broadcast_def op_emit_to_def)

lemma canDraw_cong: "participants s' = participants s \<Longrightarrow> canClientDraw c s' = canClientDraw c s"
  by (simp add: canClientDraw_def)

lemma manage_draw: "canClientManage c s \<Longrightarrow> canClientDraw c s"
  by (auto simp: canClientDraw_def canClientManage_def may_draw_def split: option.splits)

lemma picture_people:
  "same_picture s (op_handleConnection c r conn s)"
  "same_picture s (op_handleDisconnect now c s)"
  "same_picture s (snd (handleJoin now c s))"
  "same_picture s (presence_fires s)"
  by (auto simp: op_handleConnection_def op_handleDisconnect_def handleJoin_def op_checkRate_def
      presence_fires_def Let_def split: option.splits prod.splits)

lemma picture_resume: "same_picture s (snd (handleJoin_resume now c r conn b s))"
proof -
  obtain u s1 where e: "ensureUser c r conn s = (u, s1)" by (cases "ensureUser c r conn s")
  have "same_picture s s1" using ensureUser_cases [OF e] by auto
  then show ?thesis unfolding handleJoin_resume_def e by (cases u) (auto simp: Let_def)
qed

lemma picture_permission: "same_picture s (snd (handlePermissionUpdate now c b s))"
  unfolding handlePermissionUpdate_def
  by (rule rated_picture) (simp add: Let_def split: option.splits jsval.splits prod.splits)

lemma picture_leave: "same_picture s (snd (handleLeave now c s))"
  unfolding handleLeave_def by (rule rated_picture) (simp add: Let_def)

lemma picture_chat: "same_picture s (snd (handleChatOpen now c b s))"
  unfolding handleChatOpen_def
  by (rule rated_picture) (simp split: option.splits jsval.splits)

lemma picture_guarded:
  assumes "\<not> canClientDraw c s"
  shows "same_picture s (snd (handleElementAdd nc now c b s))"
    and "same_picture s (snd (handleElementRemove nc now c b s))"
    and "same_picture s (snd (handleClear now c s))"
    and "same_picture s (snd (handleBoardReplace nc now c b s))"
    and "same_picture s (snd (handleBackgroundUpdate now c b s))"
proof -
  have d: "\<not> canClientDraw c s'" "\<not> canClientManage c s'" if "participants s' = participants s" for s'
    using assms canDraw_cong [OF that, of c] manage_draw [of c s'] by auto
  show "same_picture s (snd (handleElementAdd nc now c b s))"
    unfolding handleElementAdd_def by (rule rated_picture) (simp add: d)
  show "same_picture s (snd (handleElementRemove nc now c b s))"
    unfolding handleElementRemove_def by (rule rated_picture) (simp add: d)
  show "same_picture s (snd (handleClear now c s))"
    unfolding handleClear_def by (rule rated_picture) (simp add: d)
  show "same_picture s (snd (handleBoardReplace nc now c b s))"
    unfolding handleBoardReplace_def by (rule rated_picture) (simp add: d)
  show "same_picture s (snd (handleBackgroundUpdate now c b s))"
    unfolding handleBackgroundUpdate_def by (rule rated_picture) (simp add: d)
qed

lemma picture_needs_draw:
  assumes "\<And>c. op_actor req = Some c \<Longrightarrow> \<not> canClientDraw c s"
  shows "same_picture s (op_exec nc req s)"
  using assms
  by (cases req) (simp_all add: op_actor_def picture_people picture_resume picture_permission picture_leave
      picture_chat picture_guarded)

text \<open>What a refused request leaves: nothing but the count of the limiter.\<close>

lemma rated_refused:
  assumes "rated now c ev h s = (a, s')" and "\<not> fst (op_checkRate now c ev s)"
  shows "a = op_reject RateLimited \<and> s' = snd (op_checkRate now c ev s)"
  using assms by (auto simp: rated_def split: prod.splits)

end
