(* ===== verification/BoardProperties.thy ===== *)
theory BoardProperties
  imports OperationReach
begin

text \<open>
  The live operation board: what holds after any sequence of requests, who can change the picture,
  and that a saved board loads again as it was.
\<close>

text \<open>
  Property C9. After any sequence of requests the board holds at most five hundred elements, each in
  the normal form of \<open>normalizeOperationElement\<close>; the byte counter is their exact size and within the
  limit; the room holds exactly the participants; and once no presence window is open, the last list
  of participants sent is the current one.
\<close>

theorem board_invariant:
  assumes "op_reach nc s"
  shows "length (elements s) \<le> MAX_OPERATION_ELEMENTS \<and>
    (\<forall>e\<in>set (elements s). normalizeOperationElement nc (JObj e) = Some e) \<and>
    elementsBytes s = sum_list (map (elementBytes nc) (elements s)) \<and>
    elementsBytes s \<le> MAX_OPERATION_ELEMENTS_BYTES \<and>
    set (op_room s) = fst ` set (participants s) \<and>
    (presenceTimer s = None \<longrightarrow> announced s = getParticipants s)"
  using op_reach_inv [OF assms]
  by (auto simp: op_inv_def board_ok_def people_ok_def presence_ok_def list_all_iff intro: normalize_idem)

definition ex_op_admin :: op_user where
  "ex_op_admin = \<lparr>ou_nickname = [97], ou_alliance = [75], ou_role = ''admin''\<rparr>"

definition ex_board :: op_board where
  "ex_board = op_exec (\<lambda>_. 1) (ReqJoinResume 0 ''s'' (Some ex_op_admin) True JUndef)
     (op_exec (\<lambda>_. 1) (ReqConnect ''s'' (Some ex_op_admin) True) op_initial)"

lemma ex_board_reach: "op_reach (\<lambda>_. 1) ex_board"
  unfolding ex_board_def by (intro op_reach.step op_reach.start)

lemma ex_board_room: "op_room ex_board = [''s'']"
  by (simp add: ex_board_def op_initial_def op_handleConnection_def handleJoin_resume_def ensureUser_def
      room_join_def op_emit_to_def broadcastPresence_def ex_op_admin_def Let_def)

theorem board_invariant_witness: "fst ` set (participants ex_board) = {''s''}"
  using board_invariant [OF ex_board_reach] by (simp add: ex_board_room)

text \<open>
  The picture (elements, their size and the background) changes only in requests of a
  client that may draw: a connection, a join, a presence tick or a request of anybody else leaves it
  as it is.
\<close>

theorem picture_guarded_by_role:
  assumes "\<And>c. op_actor req = Some c \<Longrightarrow> \<not> canClientDraw c s"
  shows "elements (op_exec nc req s) = elements s \<and> elementsBytes (op_exec nc req s) = elementsBytes s \<and>
    background (op_exec nc req s) = background s"
  using picture_needs_draw [OF assms] by (simp add: same_picture_def)

theorem picture_guarded_by_role_witness:
  "elements (op_exec (\<lambda>_. 1) (ReqClear 5 ''t'') ex_board) = elements ex_board"
proof -
  have "map_of (participants ex_board) ''t'' = None"
    by (simp add: ex_board_def op_initial_def op_handleConnection_def handleJoin_resume_def ensureUser_def
        room_join_def op_emit_to_def broadcastPresence_def ex_op_admin_def Let_def)
  then have "\<not> canClientDraw ''t'' ex_board" by (simp add: canClientDraw_def)
  then show ?thesis using picture_guarded_by_role [of "ReqClear 5 ''t''" ex_board] by (simp add: op_actor_def)
qed

text \<open>
  Property C10. What the normaliser accepts is already normal: its result passes again unchanged, is
  within the byte limit, and has an id and a type first and only listed properties after them.
\<close>

theorem normal_form:
  assumes "normalizeOperationElement nc v = Some e"
  shows "normalizeOperationElement nc (JObj e) = Some e \<and>
    operationElementBytes nc (JObj e) \<le> MAX_OPERATION_ELEMENT_BYTES \<and>
    map fst (take 2 e) = [lit ''id'', lit ''type''] \<and> (\<forall>(k, v)\<in>set (drop 2 e). entry_ok k v)"
proof -
  have v: "element_valid nc e" by (rule normalize_valid [OF assms])
  then show ?thesis using normalize_idem [OF v] by (auto simp: element_valid_def element_shape_def entries_ok_def)
qed

lemma ex_element:
  "normalizeOperationElement (\<lambda>_. 1) (JObj [(lit ''type'', JStr (lit ''line'')), (lit ''id'', JStr (lit '' a''))]) =
     Some [(lit ''id'', JStr (lit ''a'')), (lit ''type'', JStr (lit ''line''))]"
  by (simp add: normalizeOperationElement_def js_field_def lit_def normalizeRequiredString_def js_trim_def js_space_def
      sanitize_entry_def operationElementBytes_def ELEMENT_ID_MAX_LENGTH_def ELEMENT_STRING_MAX_LENGTH_def
      MAX_OPERATION_ELEMENT_BYTES_def ALLOWED_ELEMENT_TYPES_def json_commas_def json_str_bytes_def json_unit_bytes_def
      is_hi_surrogate_def is_lo_surrogate_def)

theorem normal_form_witness:
  "normalizeOperationElement (\<lambda>_. 1) (JObj [(lit ''id'', JStr (lit ''a'')), (lit ''type'', JStr (lit ''line''))]) =
     Some [(lit ''id'', JStr (lit ''a'')), (lit ''type'', JStr (lit ''line''))]"
  using normal_form [OF ex_element] by blast

text \<open>
  Saving and loading: the elements of a live board, sent back as a saved board, pass the
  validation unchanged with the same size.
\<close>

theorem saved_board_loads:
  assumes "op_reach nc s"
  shows "validateOperationElements nc (JArr (map JObj (elements s))) = (elements s, elementsBytes s, None)"
  using op_reach_inv [OF assms] by (auto simp: op_inv_def intro: validate_again)

theorem saved_board_loads_witness:
  "validateOperationElements (\<lambda>_. 1) (JArr (map JObj (elements ex_board))) = (elements ex_board, elementsBytes ex_board, None)"
  by (rule saved_board_loads [OF ex_board_reach])

end
