(* ===== verification/SqlStatements.thy ===== *)
theory SqlStatements
  imports JsText
begin

text \<open>
  \<open>server/src/database/sql-statements.ts\<close>: cutting the text of a migration file into statements. The
  two loops over the characters are recursions on the rest of the text; \<open>peek k rest\<close> is the
  character \<open>k + 1\<close> places further on, if there is one.
\<close>

datatype sql_mode = SqlCode | SqlSingle | SqlDouble | SqlBacktick | SqlLine | SqlBlock

definition peek :: "nat \<Rightarrow> jstring \<Rightarrow> nat option" where
  "peek k rest = (if k < length rest then Some (rest ! k) else None)"

definition isCommentDashEnd :: "nat option \<Rightarrow> bool" where
  "isCommentDashEnd ch \<longleftrightarrow> ch \<in> {None, Some 32, Some 9, Some 10, Some 13}"

definition sql_quote :: "sql_mode \<Rightarrow> nat" where
  "sql_quote m = (case m of SqlSingle \<Rightarrow> 39 | SqlDouble \<Rightarrow> 34 | _ \<Rightarrow> 96)"

fun stripComments_loop :: "sql_mode \<Rightarrow> jstring \<Rightarrow> jstring \<Rightarrow> jstring" where
  "stripComments_loop m out [] = out"
| "stripComments_loop m out (ch # rest) =
     (case m of
        SqlCode \<Rightarrow>
          if ch = 45 \<and> peek 0 rest = Some 45 \<and> isCommentDashEnd (peek 1 rest)
          then stripComments_loop SqlLine out rest
          else if ch = 35 then stripComments_loop SqlLine out rest
          else if ch = 47 \<and> peek 0 rest = Some 42
          then stripComments_loop SqlBlock (if peek 1 rest = Some 33 then out @ [33] else out) (drop 1 rest)
          else stripComments_loop
                 (if ch = 39 then SqlSingle else if ch = 34 then SqlDouble
                  else if ch = 96 then SqlBacktick else SqlCode) (out @ [ch]) rest
      | SqlLine \<Rightarrow>
          if ch = 10 then stripComments_loop SqlCode (out @ [ch]) rest
          else stripComments_loop SqlLine out rest
      | SqlBlock \<Rightarrow>
          if ch = 42 \<and> peek 0 rest = Some 47 then stripComments_loop SqlCode out (drop 1 rest)
          else stripComments_loop SqlBlock out rest
      | _ \<Rightarrow>
          if ch = 92 \<and> m \<noteq> SqlBacktick \<and> peek 0 rest \<noteq> None
          then stripComments_loop m (out @ [ch, the (peek 0 rest)]) (drop 1 rest)
          else if ch = sql_quote m \<and> peek 0 rest = Some (sql_quote m)
          then stripComments_loop m (out @ [ch, the (peek 0 rest)]) (drop 1 rest)
          else stripComments_loop (if ch = sql_quote m then SqlCode else m) (out @ [ch]) rest)"

definition stripComments :: "jstring \<Rightarrow> jstring" where
  "stripComments sql = stripComments_loop SqlCode [] sql"

definition pushStatement :: "jstring list \<Rightarrow> jstring \<Rightarrow> jstring list" where
  "pushStatement statements raw =
     (let trimmed = js_trim raw
      in if trimmed = [] then statements
         else if js_trim (stripComments trimmed) = [] then statements
         else statements @ [trimmed])"

fun splitSql_loop :: "sql_mode \<Rightarrow> jstring \<Rightarrow> jstring list \<Rightarrow> jstring \<Rightarrow> jstring list" where
  "splitSql_loop m buffer statements [] = pushStatement statements buffer"
| "splitSql_loop m buffer statements (ch # rest) =
     (case m of
        SqlCode \<Rightarrow>
          if ch = 45 \<and> peek 0 rest = Some 45 \<and> isCommentDashEnd (peek 1 rest)
          then splitSql_loop SqlLine (buffer @ [ch]) statements rest
          else if ch = 35 then splitSql_loop SqlLine (buffer @ [ch]) statements rest
          else if ch = 47 \<and> peek 0 rest = Some 42
          then splitSql_loop SqlBlock (buffer @ [ch, the (peek 0 rest)]) statements (drop 1 rest)
          else if ch = 39 then splitSql_loop SqlSingle (buffer @ [ch]) statements rest
          else if ch = 34 then splitSql_loop SqlDouble (buffer @ [ch]) statements rest
          else if ch = 96 then splitSql_loop SqlBacktick (buffer @ [ch]) statements rest
          else if ch = 59 then splitSql_loop SqlCode [] (pushStatement statements buffer) rest
          else splitSql_loop SqlCode (buffer @ [ch]) statements rest
      | SqlLine \<Rightarrow> splitSql_loop (if ch = 10 then SqlCode else SqlLine) (buffer @ [ch]) statements rest
      | SqlBlock \<Rightarrow>
          if ch = 42 \<and> peek 0 rest = Some 47
          then splitSql_loop SqlCode (buffer @ [ch, the (peek 0 rest)]) statements (drop 1 rest)
          else splitSql_loop SqlBlock (buffer @ [ch]) statements rest
      | _ \<Rightarrow>
          if ch = 92 \<and> m \<noteq> SqlBacktick \<and> peek 0 rest \<noteq> None
          then splitSql_loop m (buffer @ [ch, the (peek 0 rest)]) statements (drop 1 rest)
          else if ch = sql_quote m \<and> peek 0 rest = Some (sql_quote m)
          then splitSql_loop m (buffer @ [ch, the (peek 0 rest)]) statements (drop 1 rest)
          else splitSql_loop (if ch = sql_quote m then SqlCode else m) (buffer @ [ch]) statements rest)"

definition splitSqlStatements :: "jstring \<Rightarrow> jstring list" where
  "splitSqlStatements sql = splitSql_loop SqlCode [] [] sql"

subsection \<open>A reference lexer\<close>

text \<open>
  One token at a time: how many characters the token takes, the mode after it, and whether it is a
  semicolon that ends a statement. The cutting of a text is stated over these tokens.
\<close>

definition sql_token :: "sql_mode \<Rightarrow> nat \<Rightarrow> jstring \<Rightarrow> nat \<times> sql_mode \<times> bool" where
  "sql_token m ch rest =
     (case m of
        SqlCode \<Rightarrow>
          if ch = 35 \<or> (ch = 45 \<and> peek 0 rest = Some 45 \<and> isCommentDashEnd (peek 1 rest)) then (1, SqlLine, False)
          else if ch = 47 \<and> peek 0 rest = Some 42 then (2, SqlBlock, False)
          else if ch = 39 then (1, SqlSingle, False)
          else if ch = 34 then (1, SqlDouble, False)
          else if ch = 96 then (1, SqlBacktick, False)
          else (1, SqlCode, ch = 59)
      | SqlLine \<Rightarrow> (1, if ch = 10 then SqlCode else SqlLine, False)
      | SqlBlock \<Rightarrow> if ch = 42 \<and> peek 0 rest = Some 47 then (2, SqlCode, False) else (1, SqlBlock, False)
      | _ \<Rightarrow>
          if (ch = 92 \<and> m \<noteq> SqlBacktick \<and> peek 0 rest \<noteq> None) \<or> (ch = sql_quote m \<and> peek 0 rest = Some (sql_quote m))
          then (2, m, False)
          else (1, if ch = sql_quote m then SqlCode else m, False))"

lemma sql_token_width: "fst (sql_token m ch rest) = 1 \<or> (fst (sql_token m ch rest) = 2 \<and> rest \<noteq> [])"
  by (cases m) (auto simp: sql_token_def peek_def split: if_splits)

text \<open>The pieces between the semicolons, with the mode at the end.\<close>

function sql_pieces :: "sql_mode \<Rightarrow> jstring \<Rightarrow> jstring \<Rightarrow> jstring list \<times> sql_mode" where
  "sql_pieces m b [] = ([b], m)"
| "sql_pieces m b (ch # rest) =
     (case sql_token m ch rest of
        (n, m', True) \<Rightarrow> (let (ps, mf) = sql_pieces m' [] rest in (b # ps, mf))
      | (n, m', False) \<Rightarrow> sql_pieces m' (b @ take n (ch # rest)) (drop (n - 1) rest))"
  by pat_completeness auto
termination by (relation "measure (\<lambda>(m, b, s). length s)") auto

lemma peek_drop: "peek 0 rest = Some x \<Longrightarrow> rest = x # drop 1 rest"
  by (cases rest) (auto simp: peek_def)

lemma splitSql_step:
  "splitSql_loop m b st (ch # rest) =
     (case sql_token m ch rest of
        (n, m', True) \<Rightarrow> splitSql_loop m' [] (pushStatement st b) rest
      | (n, m', False) \<Rightarrow> splitSql_loop m' (b @ take n (ch # rest)) st (drop (n - 1) rest))"
proof -
  have two: "take (Suc 0) rest = [x]" if "peek 0 rest = Some x" for x
    using that by (cases rest) (auto simp: peek_def)
  show ?thesis by (cases m) (auto simp: sql_token_def two split: if_splits)
qed

lemma splitSql_pieces: "splitSql_loop m b st s = foldl pushStatement st (fst (sql_pieces m b s))"
proof (induction m b s arbitrary: st rule: sql_pieces.induct)
  case (2 m b ch rest)
  obtain n m' e where t: "sql_token m ch rest = (n, m', e)" by (cases "sql_token m ch rest") auto
  show ?case
  proof (cases e)
    case True
    then have t1: "sql_token m ch rest = (n, m', True)" using t by simp
    then show ?thesis using 2(1) [OF t1 [symmetric] refl refl] t
      by (simp add: splitSql_step case_prod_beta del: splitSql_loop.simps(2))
  next
    case False
    then have t0: "sql_token m ch rest = (n, m', False)" using t by simp
    then show ?thesis using 2(2) [OF t0 [symmetric] refl refl] t by (simp add: splitSql_step del: splitSql_loop.simps(2))
  qed
qed simp

fun join_semi :: "jstring list \<Rightarrow> jstring" where
  "join_semi [] = []"
| "join_semi [p] = p"
| "join_semi (p # q # ps) = p @ 59 # join_semi (q # ps)"

lemma sql_token_semi: "sql_token m ch rest = (n, m', True) \<Longrightarrow> ch = 59 \<and> m = SqlCode \<and> m' = SqlCode"
  by (cases m) (auto simp: sql_token_def split: if_splits)

lemma sql_pieces_nonempty: "fst (sql_pieces m b s) \<noteq> []"
  by (induction m b s rule: sql_pieces.induct) (auto split: prod.splits bool.splits)

text \<open>Nothing of the text is lost or changed: joined by semicolons the pieces are the text again.\<close>

lemma join_pieces: "join_semi (fst (sql_pieces m b s)) = b @ s"
proof (induction m b s rule: sql_pieces.induct)
  case (2 m b ch rest)
  obtain n m' e where t: "sql_token m ch rest = (n, m', e)" by (cases "sql_token m ch rest") auto
  show ?case
  proof (cases e)
    case True
    then have t1: "sql_token m ch rest = (n, m', True)" using t by simp
    obtain p ps where p: "fst (sql_pieces m' [] rest) = p # ps"
      using sql_pieces_nonempty by (cases "fst (sql_pieces m' [] rest)") auto
    then show ?thesis using 2(1) [OF t1 [symmetric] refl refl] t True sql_token_semi [of m ch rest n m']
      by (simp add: case_prod_beta)
  next
    case False
    then have t0: "sql_token m ch rest = (n, m', False)" using t by simp
    have "take n (ch # rest) @ drop (n - 1) rest = ch # rest"
      using sql_token_width [of m ch rest] t by (cases n) auto
    then show ?thesis using 2(2) [OF t0 [symmetric] refl refl] t False by (simp del: take_Cons')
  qed
qed simp

text \<open>A text that is one piece and ends outside quotes and comments stays one piece before a semicolon.\<close>

definition closed_sql :: "jstring \<Rightarrow> bool" where
  "closed_sql t \<longleftrightarrow> sql_pieces SqlCode [] t = ([t], SqlCode)"

lemma peek_append: "k < length rest \<Longrightarrow> peek k (rest @ r) = peek k rest"
  by (simp add: peek_def nth_append)

text \<open>A token does not depend on what follows the semicolon, unless the text ends inside something.\<close>

lemma sql_token_before_semi:
  assumes t: "sql_token m ch rest = (n, m', False)" and "sql_pieces m' b (drop (n - 1) rest) = ([p], SqlCode)"
  shows "sql_token m ch (rest @ 59 # r) = (n, m', False)"
proof -
  consider "rest = []" | x where "rest = [x]" | "2 \<le> length rest"
    by (cases rest; cases "tl rest") auto
  then show ?thesis
  proof cases
    case 1
    then have "m' = SqlCode" using assms(2) by simp
    with t 1 show ?thesis by (cases m) (auto simp: sql_token_def peek_def sql_quote_def split: if_splits)
  next
    case (2 x)
    have "\<not> (m = SqlCode \<and> ch = 45 \<and> x = 45)"
    proof
      assume a: "m = SqlCode \<and> ch = 45 \<and> x = 45"
      then have "n = 1 \<and> m' = SqlLine" using t 2 by (simp add: sql_token_def peek_def isCommentDashEnd_def)
      with assms(2) 2 a show False by (simp add: sql_token_def)
    qed
    with t 2 show ?thesis by (cases m) (auto simp: sql_token_def peek_def isCommentDashEnd_def split: if_splits)
  next
    case 3
    then have "peek 0 (rest @ 59 # r) = peek 0 rest" "peek 1 (rest @ 59 # r) = peek 1 rest"
      by (auto intro!: peek_append)
    with t show ?thesis by (simp only: sql_token_def)
  qed
qed

lemma pieces_before_semi:
  "sql_pieces m b s = ([p], SqlCode) \<Longrightarrow>
   sql_pieces m b (s @ 59 # r) = (p # fst (sql_pieces SqlCode [] r), snd (sql_pieces SqlCode [] r))"
proof (induction m b s rule: sql_pieces.induct)
  case (1 m b)
  then show ?case by (simp add: sql_token_def case_prod_beta Let_def)
next
  case (2 m b ch rest)
  obtain n m' e where t: "sql_token m ch rest = (n, m', e)" by (cases "sql_token m ch rest") auto
  show ?case
  proof (cases e)
    case True
    then show ?thesis using 2(3) t sql_pieces_nonempty [of m' "[]" rest] by (simp add: case_prod_beta)
  next
    case False
    then have t0: "sql_token m ch rest = (n, m', False)" using t by simp
    let ?b = "b @ take n (ch # rest)"
    have p: "sql_pieces m' ?b (drop (n - 1) rest) = ([p], SqlCode)" using 2(3) t0 by simp
    have w: "n - 1 \<le> length rest" "n = 1 \<or> n = 2"
      using sql_token_width [of m ch rest] t0 by (cases rest, auto)+
    have "sql_token m ch (rest @ 59 # r) = (n, m', False)" by (rule sql_token_before_semi [OF t0 p])
    moreover have "drop (n - 1) (rest @ 59 # r) = drop (n - 1) rest @ 59 # r" using w by simp
    moreover have "take n (ch # (rest @ 59 # r)) = take n (ch # rest)" using w by (cases n) auto
    ultimately have "sql_pieces m b ((ch # rest) @ 59 # r) = sql_pieces m' ?b (drop (n - 1) rest @ 59 # r)"
      by (simp del: take_Suc_Cons)
    then show ?thesis using 2(2) [OF t0 [symmetric] refl refl p] by simp
  qed
qed

lemma pieces_join:
  "ts \<noteq> [] \<Longrightarrow> list_all closed_sql ts \<Longrightarrow> sql_pieces SqlCode [] (join_semi ts) = (ts, SqlCode)"
proof (induction ts rule: join_semi.induct)
  case (3 p q ps)
  then have "sql_pieces SqlCode [] (join_semi (q # ps)) = (q # ps, SqlCode)" by simp
  moreover have "sql_pieces SqlCode [] p = ([p], SqlCode)" using 3(3) by (simp add: closed_sql_def)
  ultimately show ?case using pieces_before_semi [of SqlCode "[]" p p "join_semi (q # ps)"] by simp
qed (simp_all add: closed_sql_def)

text \<open>A statement that \<open>pushStatement\<close> keeps as it is.\<close>

definition sql_statement :: "jstring \<Rightarrow> bool" where
  "sql_statement t \<longleftrightarrow> closed_sql t \<and> js_trim t = t \<and> t \<noteq> [] \<and> js_trim (stripComments t) \<noteq> []"

lemma push_statements: "list_all sql_statement ts \<Longrightarrow> foldl pushStatement st ts = st @ ts"
  by (induction ts arbitrary: st) (auto simp: sql_statement_def pushStatement_def Let_def)

lemma split_join:
  assumes "list_all sql_statement ts"
  shows "splitSqlStatements (join_semi ts) = ts"
proof (cases "ts = []")
  case True
  then show ?thesis by (simp add: splitSqlStatements_def pushStatement_def js_trim_def)
next
  case False
  have "list_all closed_sql ts" using assms by (auto simp: list_all_iff sql_statement_def)
  from pieces_join [OF False this] show ?thesis
    using push_statements [OF assms, of "[]"] by (simp add: splitSqlStatements_def splitSql_pieces)
qed

text \<open>Every statement returned is a trimmed piece of the text with something to run in it.\<close>

lemma push_from: "x \<in> set (foldl pushStatement st ps) \<Longrightarrow> x \<in> set st \<or>
    (\<exists>p\<in>set ps. x = js_trim p \<and> x \<noteq> [] \<and> js_trim (stripComments x) \<noteq> [])"
  by (induction ps arbitrary: st) (fastforce simp: pushStatement_def Let_def split: if_splits)+

lemma split_sound:
  "x \<in> set (splitSqlStatements sql) \<Longrightarrow>
   \<exists>ps. join_semi ps = sql \<and> (\<exists>p\<in>set ps. x = js_trim p) \<and> x \<noteq> [] \<and> js_trim (stripComments x) \<noteq> []"
  using push_from [of x "[]" "fst (sql_pieces SqlCode [] sql)"] join_pieces [of SqlCode "[]" sql]
  unfolding splitSqlStatements_def splitSql_pieces by fastforce

subsection \<open>Literals\<close>

definition sql_escape :: "jstring \<Rightarrow> jstring" where
  "sql_escape w = concat (map (\<lambda>u. if u = 39 \<or> u = 92 then [u, u] else [u]) w)"

definition sql_literal :: "jstring \<Rightarrow> jstring" where
  "sql_literal w = 39 # sql_escape w @ [39]"

lemma pieces_in_literal:
  "peek 0 rest \<noteq> Some 39 \<Longrightarrow>
   sql_pieces SqlSingle b (sql_escape w @ 39 # rest) = sql_pieces SqlCode (b @ sql_escape w @ [39]) rest"
proof (induction w arbitrary: b)
  case Nil
  then show ?case by (simp add: sql_escape_def sql_token_def sql_quote_def)
next
  case (Cons u w)
  show ?case
  proof (cases "u = 39 \<or> u = 92")
    case True
    then have "sql_pieces SqlSingle b (sql_escape (u # w) @ 39 # rest)
        = sql_pieces SqlSingle (b @ [u, u]) (sql_escape w @ 39 # rest)"
      by (auto simp: sql_escape_def sql_token_def sql_quote_def peek_def)
    with True Cons show ?thesis by (auto simp: sql_escape_def)
  next
    case False
    then have "sql_pieces SqlSingle b (sql_escape (u # w) @ 39 # rest)
        = sql_pieces SqlSingle (b @ [u]) (sql_escape w @ 39 # rest)"
      by (auto simp: sql_escape_def sql_token_def sql_quote_def peek_def)
    with False Cons show ?thesis by (auto simp: sql_escape_def)
  qed
qed

lemma pieces_literal:
  "peek 0 rest \<noteq> Some 39 \<Longrightarrow>
   sql_pieces SqlCode b (sql_literal w @ rest) = sql_pieces SqlCode (b @ sql_literal w) rest"
  by (simp add: sql_literal_def sql_token_def pieces_in_literal)

text \<open>Any text may stand in a literal of a statement, semicolons and comment marks included.\<close>

definition plain_sql :: "nat \<Rightarrow> bool" where
  "plain_sql u \<longleftrightarrow> u \<notin> {35, 45, 47, 39, 34, 96, 59}"

lemma pieces_plain:
  "list_all plain_sql pre \<Longrightarrow> sql_pieces SqlCode b (pre @ rest) = sql_pieces SqlCode (b @ pre) rest"
  by (induction pre arbitrary: b) (auto simp: sql_token_def plain_sql_def)

lemma literal_closed:
  assumes "list_all plain_sql pre" and "list_all plain_sql post"
  shows "closed_sql (pre @ sql_literal w @ post)"
proof -
  have "peek 0 post \<noteq> Some 39" using assms(2) by (cases post) (auto simp: peek_def plain_sql_def)
  from pieces_literal [OF this, of "[] @ pre" w] pieces_plain [OF assms(2), of "pre @ sql_literal w" "[]"]
  show ?thesis by (simp add: closed_sql_def pieces_plain [OF assms(1)])
qed

end
