(* ===== verification/Migrate.thy ===== *)
theory Migrate
  imports SqlStatements "HOL-Library.List_Lexorder"
begin

text \<open>
  \<open>server/src/database/migrate.ts\<close>: the migration runner. The database behind it is a parameter:
  \<open>exec stmt d\<close> says whether the server accepts the statement and what the data is afterwards (a
  rejected statement may have had an effect), \<open>rollback\<close> is what \<open>ROLLBACK\<close> does. The table
  \<open>schema_migrations\<close> is the list of its rows, with the primary key on the file name.
\<close>

record mig_file =
  mf_filename :: jstring
  mf_sql :: jstring
  mf_checksum :: jstring

type_synonym history = "(jstring \<times> jstring) list"

record 'd mig_db =
  md_data :: 'd
  md_history :: "history option"
  md_locked :: bool

datatype mig_error =
    NoDirectory
  | MissingConfig
  | BadIdentifier
  | LockTimeout
  | StatementFailed jstring nat
  | HistoryDuplicate jstring
  | ChecksumMismatch jstring

text \<open>\<open>loadMigrationFiles\<close>: \<open>sort()\<close> compares UTF-16 code units; \<open>hash\<close> is the SHA-256 of the text.\<close>

definition loadMigrationFiles ::
    "(jstring \<Rightarrow> jstring) \<Rightarrow> (jstring \<Rightarrow> jstring) \<Rightarrow> jstring list option \<Rightarrow> mig_error + mig_file list" where
  "loadMigrationFiles hash content dir =
     (case dir of
        None \<Rightarrow> Inl NoDirectory
      | Some names \<Rightarrow>
          Inr (map (\<lambda>n. \<lparr>mf_filename = n, mf_sql = content n, mf_checksum = hash (content n)\<rparr>)
                (sort (filter (\<lambda>n. ends_with (map ascii_lower n) (lit ''.sql'')) names))))"

text \<open>Environment: \<open>DATABASE_NAME\<close> and \<open>DATABASE_USER\<close> are required, empty counts as absent.\<close>

record db_config =
  dc_host :: jstring
  dc_port :: jstring
  dc_user :: jstring
  dc_password :: jstring
  dc_database :: jstring

definition env_or :: "(string \<Rightarrow> jstring option) \<Rightarrow> string \<Rightarrow> jstring \<Rightarrow> jstring" where
  "env_or env k d = (case env k of None \<Rightarrow> d | Some v \<Rightarrow> if v = [] then d else v)"

definition readConnectionConfig :: "(string \<Rightarrow> jstring option) \<Rightarrow> mig_error + db_config" where
  "readConnectionConfig env =
     (if env_or env ''DATABASE_NAME'' [] = [] \<or> env_or env ''DATABASE_USER'' [] = [] then Inl MissingConfig
      else Inr \<lparr>dc_host = env_or env ''DATABASE_HOST'' (lit ''127.0.0.1''),
                dc_port = env_or env ''DATABASE_PORT'' (lit ''3306''),
                dc_user = env_or env ''DATABASE_USER'' [],
                dc_password = env_or env ''DATABASE_PASSWORD'' [],
                dc_database = env_or env ''DATABASE_NAME'' []\<rparr>)"

definition identifier_char :: "nat \<Rightarrow> bool" where
  "identifier_char u \<longleftrightarrow> js_digit u \<or> (65 \<le> u \<and> u \<le> 90) \<or> (97 \<le> u \<and> u \<le> 122) \<or> u = 95 \<or> u = 36"

definition escapeIdentifier :: "jstring \<Rightarrow> mig_error + jstring" where
  "escapeIdentifier name =
     (if name \<noteq> [] \<and> list_all identifier_char name then Inr name else Inl BadIdentifier)"

definition create_database_sql :: "jstring \<Rightarrow> mig_error + jstring" where
  "create_database_sql name =
     (case escapeIdentifier name of
        Inl e \<Rightarrow> Inl e
      | Inr n \<Rightarrow> Inr (lit ''CREATE DATABASE IF NOT EXISTS '' @ 96 # n @ 96 #
                      lit '' CHARACTER SET utf8mb4 COLLATE utf8mb4_unicode_ci''))"

definition ensureHistoryTable :: "'d mig_db \<Rightarrow> 'd mig_db" where
  "ensureHistoryTable db = db\<lparr>md_history := (case md_history db of None \<Rightarrow> Some [] | Some h \<Rightarrow> Some h)\<rparr>"

definition readApplied :: "'d mig_db \<Rightarrow> history" where
  "readApplied db = (case md_history db of None \<Rightarrow> [] | Some h \<Rightarrow> h)"

fun run_statements ::
    "(jstring \<Rightarrow> 'd \<Rightarrow> bool \<times> 'd) \<Rightarrow> ('d \<Rightarrow> 'd) \<Rightarrow> nat \<Rightarrow> jstring list \<Rightarrow> 'd \<Rightarrow> nat option \<times> 'd" where
  "run_statements exec rollback index [] d = (None, d)"
| "run_statements exec rollback index (s # ss) d =
     (case exec s d of
        (True, d') \<Rightarrow> run_statements exec rollback (index + 1) ss d'
      | (False, d') \<Rightarrow> (Some (index + 1), rollback d'))"

definition applyMigration ::
    "(jstring \<Rightarrow> 'd \<Rightarrow> bool \<times> 'd) \<Rightarrow> ('d \<Rightarrow> 'd) \<Rightarrow> mig_file \<Rightarrow> 'd mig_db \<Rightarrow> (mig_error + unit) \<times> 'd mig_db" where
  "applyMigration exec rollback m db =
     (case run_statements exec rollback 0 (splitSqlStatements (mf_sql m)) (md_data db) of
        (Some n, d) \<Rightarrow> (Inl (StatementFailed (mf_filename m) n), db\<lparr>md_data := d\<rparr>)
      | (None, d) \<Rightarrow>
          if mf_filename m \<in> fst ` set (readApplied db)
          then (Inl (HistoryDuplicate (mf_filename m)), db\<lparr>md_data := d\<rparr>)
          else (Inr (), db\<lparr>md_data := d, md_history := Some (readApplied db @ [(mf_filename m, mf_checksum m)])\<rparr>))"

text \<open>The loop of \<open>main\<close> over the files; \<open>applied\<close> is the table read once before it.\<close>

fun migrate_files ::
    "(jstring \<Rightarrow> 'd \<Rightarrow> bool \<times> 'd) \<Rightarrow> ('d \<Rightarrow> 'd) \<Rightarrow> history \<Rightarrow> mig_file list \<Rightarrow> nat \<times> nat \<Rightarrow> 'd mig_db \<Rightarrow>
     (mig_error + nat \<times> nat) \<times> 'd mig_db" where
  "migrate_files exec rollback applied [] counts db = (Inr counts, db)"
| "migrate_files exec rollback applied (m # ms) counts db =
     (case map_of applied (mf_filename m) of
        Some recorded \<Rightarrow>
          if recorded \<noteq> mf_checksum m then (Inl (ChecksumMismatch (mf_filename m)), db)
          else migrate_files exec rollback applied ms (fst counts, snd counts + 1) db
      | None \<Rightarrow>
          (case applyMigration exec rollback m db of
             (Inl e, db') \<Rightarrow> (Inl e, db')
           | (Inr (), db') \<Rightarrow> migrate_files exec rollback applied ms (fst counts + 1, snd counts) db'))"

text \<open>\<open>main\<close> from the lock on: \<open>got\<close> is the answer of \<open>GET_LOCK\<close>.\<close>

definition migrate_main ::
    "(jstring \<Rightarrow> 'd \<Rightarrow> bool \<times> 'd) \<Rightarrow> ('d \<Rightarrow> 'd) \<Rightarrow> bool \<Rightarrow> mig_file list \<Rightarrow> 'd mig_db \<Rightarrow>
     (mig_error + nat \<times> nat) \<times> 'd mig_db" where
  "migrate_main exec rollback got ms db =
     (if \<not> got then (Inl LockTimeout, db)
      else (let db1 = ensureHistoryTable (db\<lparr>md_locked := True\<rparr>);
                (r, db2) = migrate_files exec rollback (readApplied db1) ms (0, 0) db1
            in (r, db2\<lparr>md_locked := False\<rparr>)))"

subsection \<open>What a run does\<close>

definition new_files :: "history \<Rightarrow> mig_file list \<Rightarrow> mig_file list" where
  "new_files h ms = filter (\<lambda>m. mf_filename m \<notin> fst ` set h) ms"

definition history_rows :: "mig_file list \<Rightarrow> history" where
  "history_rows ms = map (\<lambda>m. (mf_filename m, mf_checksum m)) ms"

definition exec_all :: "(jstring \<Rightarrow> 'd \<Rightarrow> bool \<times> 'd) \<Rightarrow> mig_file list \<Rightarrow> 'd \<Rightarrow> 'd" where
  "exec_all exec ms d = fold (\<lambda>s d. snd (exec s d)) (concat (map (splitSqlStatements \<circ> mf_sql) ms)) d"

lemma run_statements_ok:
  "run_statements exec rollback i ss d = (None, d') \<Longrightarrow> d' = fold (\<lambda>s d. snd (exec s d)) ss d"
  by (induction ss arbitrary: i d) (auto split: prod.splits bool.splits)

lemma readApplied_simps [simp]:
  "readApplied (db\<lparr>md_data := d\<rparr>) = readApplied db" "readApplied (db\<lparr>md_history := Some h\<rparr>) = h"
  "readApplied (db\<lparr>md_locked := b\<rparr>) = readApplied db" "readApplied (ensureHistoryTable db) = readApplied db"
  by (auto simp: readApplied_def ensureHistoryTable_def split: option.splits)

lemma applyMigration_ok:
  assumes "applyMigration exec rollback m db = (Inr u, db')"
  shows "md_data db' = exec_all exec [m] (md_data db) \<and> readApplied db' = readApplied db @ history_rows [m] \<and>
    mf_filename m \<notin> fst ` set (readApplied db)"
  using assms run_statements_ok [of exec rollback 0 "splitSqlStatements (mf_sql m)" "md_data db"]
  by (auto simp: applyMigration_def exec_all_def history_rows_def split: prod.splits option.splits if_splits)

lemma applyMigration_history:
  "applyMigration exec rollback m db = (Inl e, db') \<Longrightarrow> readApplied db' = readApplied db"
  by (auto simp: applyMigration_def split: prod.splits option.splits if_splits)

lemma exec_all_append: "exec_all exec (ms @ ms') d = exec_all exec ms' (exec_all exec ms d)"
  by (simp add: exec_all_def)

text \<open>
  A run that succeeds has executed exactly the files that were not recorded, in their order, and has
  recorded them; a recorded file still has the checksum it had.
\<close>

lemma migrate_files_ok:
  "migrate_files exec rollback h ms c db = (Inr c', db') \<Longrightarrow>
   md_data db' = exec_all exec (new_files h ms) (md_data db) \<and>
   readApplied db' = readApplied db @ history_rows (new_files h ms) \<and>
   c' = (fst c + length (new_files h ms), snd c + (length ms - length (new_files h ms))) \<and>
   (\<forall>m\<in>set ms. mf_filename m \<in> fst ` set h \<longrightarrow> map_of h (mf_filename m) = Some (mf_checksum m))"
proof (induction ms arbitrary: c db)
  case Nil
  then show ?case by (auto simp: new_files_def history_rows_def exec_all_def)
next
  case (Cons m ms)
  have le: "length (filter (\<lambda>m. mf_filename m \<notin> fst ` set h) ms) \<le> length ms" by simp
  show ?case
  proof (cases "map_of h (mf_filename m)")
    case (Some r)
    then have "mf_filename m \<in> fst ` set h" by (metis map_of_eq_None_iff option.distinct(1))
    moreover have "r = mf_checksum m" using Cons.prems Some by (auto split: if_splits)
    ultimately show ?thesis using Cons.prems Cons.IH [of "(fst c, snd c + 1)" db] Some le
      by (auto simp: new_files_def Suc_diff_le)
  next
    case None
    then have n: "mf_filename m \<notin> fst ` set h" by (simp add: map_of_eq_None_iff)
    obtain db1 where a: "applyMigration exec rollback m db = (Inr (), db1)"
      and r: "migrate_files exec rollback h ms (fst c + 1, snd c) db1 = (Inr c', db')"
    proof (cases "applyMigration exec rollback m db")
      case (Pair a db1)
      with Cons.prems None that show thesis by (cases a) (simp_all split: unit.splits)
    qed
    have k: "new_files h (m # ms) = m # new_files h ms" using n by (simp add: new_files_def)
    have "exec_all exec (m # new_files h ms) d = exec_all exec (new_files h ms) (exec_all exec [m] d)" for d
      using exec_all_append [of exec "[m]" "new_files h ms" d] by simp
    moreover have "history_rows (m # new_files h ms) = history_rows [m] @ history_rows (new_files h ms)"
      by (simp add: history_rows_def)
    ultimately show ?thesis
      using Cons.IH [OF r] applyMigration_ok [OF a] n unfolding k by simp
  qed
qed

text \<open>The recorded files of a failed run are a prefix of the new ones: a later run resumes there.\<close>

lemma migrate_files_prefix:
  "migrate_files exec rollback h ms c db = (r, db') \<Longrightarrow>
   \<exists>done rest. new_files h ms = done @ rest \<and> readApplied db' = readApplied db @ history_rows done"
proof (induction ms arbitrary: c db)
  case Nil
  then show ?case by (auto simp: new_files_def history_rows_def)
next
  case (Cons m ms)
  show ?case
  proof (cases "map_of h (mf_filename m)")
    case (Some r')
    then have k: "new_files h (m # ms) = new_files h ms"
      by (auto simp: new_files_def) (metis map_of_eq_None_iff option.distinct(1))
    show ?thesis
    proof (cases "r' = mf_checksum m")
      case True
      then show ?thesis using Cons.prems Cons.IH [of "(fst c, snd c + 1)" db] Some k by simp
    next
      case False
      then have "db' = db" using Cons.prems Some by simp
      then show ?thesis unfolding k
        by (intro exI [of _ "[]"] exI [of _ "new_files h ms"]) (simp add: history_rows_def)
    qed
  next
    case None
    then have k: "new_files h (m # ms) = m # new_files h ms" by (simp add: new_files_def map_of_eq_None_iff)
    obtain a db1 where a: "applyMigration exec rollback m db = (a, db1)" by (cases "applyMigration exec rollback m db")
    show ?thesis
    proof (cases a)
      case (Inl e)
      then have "readApplied db' = readApplied db" using Cons.prems None a applyMigration_history [of exec rollback m db] by simp
      then show ?thesis unfolding k
        by (intro exI [of _ "[]"] exI [of _ "m # new_files h ms"]) (simp add: history_rows_def)
    next
      case (Inr u)
      then have "migrate_files exec rollback h ms (fst c + 1, snd c) db1 = (r, db')"
        using Cons.prems None a by (simp split: unit.splits)
      from Cons.IH [OF this] obtain "done" rest where "new_files h ms = done @ rest"
        "readApplied db' = readApplied db1 @ history_rows done" by blast
      moreover have "readApplied db1 = readApplied db @ history_rows [m]" using applyMigration_ok a Inr by blast
      ultimately show ?thesis unfolding k
        by (intro exI [of _ "m # done"] exI [of _ rest]) (simp add: history_rows_def)
    qed
  qed
qed

text \<open>A second run after a success executes nothing.\<close>

lemma migrate_files_skip:
  "(\<forall>m\<in>set ms. map_of h (mf_filename m) = Some (mf_checksum m)) \<Longrightarrow>
   migrate_files exec rollback h ms c db = (Inr (fst c, snd c + length ms), db)"
  by (induction ms arbitrary: c) auto

lemma migrate_history_after:
  assumes ok: "migrate_files exec rollback h ms c db = (Inr c', db')" and h: "readApplied db = h"
    and d: "distinct (map mf_filename ms)"
  shows "\<forall>m\<in>set ms. map_of (readApplied db') (mf_filename m) = Some (mf_checksum m)"
proof
  fix m assume m: "m \<in> set ms"
  note ok = migrate_files_ok [OF ok]
  have a: "readApplied db' = h @ history_rows (new_files h ms)" using ok h by simp
  show "map_of (readApplied db') (mf_filename m) = Some (mf_checksum m)"
  proof (cases "mf_filename m \<in> fst ` set h")
    case True
    then have "map_of h (mf_filename m) = Some (mf_checksum m)" using ok m by blast
    then show ?thesis unfolding a by (simp add: map_add_def)
  next
    case False
    then have "m \<in> set (new_files h ms)" using m by (simp add: new_files_def)
    moreover have "distinct (map fst (history_rows (new_files h ms)))"
      using d by (simp add: history_rows_def new_files_def comp_def distinct_map_filter)
    ultimately have "map_of (history_rows (new_files h ms)) (mf_filename m) = Some (mf_checksum m)"
      by (auto simp: history_rows_def intro!: map_of_is_SomeI)
    moreover have "map_of h (mf_filename m) = None" using False by (simp add: map_of_eq_None_iff)
    ultimately show ?thesis unfolding a by (simp add: map_add_def)
  qed
qed

text \<open>The name of the database cannot break out of its quotes.\<close>

lemma create_database_one_statement:
  assumes "create_database_sql name = Inr sql"
  shows "\<exists>n. sql = lit ''CREATE DATABASE IF NOT EXISTS '' @ 96 # n @ 96 #
    lit '' CHARACTER SET utf8mb4 COLLATE utf8mb4_unicode_ci'' \<and> 96 \<notin> set n \<and> n = name"
  using assms by (auto simp: create_database_sql_def escapeIdentifier_def identifier_char_def js_digit_def
      list_all_iff split: if_splits)

end
