(* ===== verification/SqlProperties.thy ===== *)
theory SqlProperties
  imports Migrate
begin

text \<open>
  The migration runner: what the splitter keeps of a text, which texts it gives back unchanged, and
  what one run and the next do to the database.
\<close>


text \<open>
  Statements that end outside quotes and comments, joined by semicolons, are given back
  one by one.
\<close>

theorem split_inverts_join:
  assumes "list_all sql_statement ts"
  shows "splitSqlStatements (join_semi ts) = ts"
  by (rule split_join [OF assms])

theorem split_inverts_join_witness: "splitSqlStatements (join_semi [lit ''A'', lit ''B'']) = [lit ''A'', lit ''B'']"
  by (rule split_inverts_join) (simp add: sql_statement_def closed_sql_def lit_def js_trim_def js_space_def
      stripComments_def sql_token_def)

text \<open>
  A text inside a quoted literal is never cut, whatever it holds: semicolons, quotes,
  comment marks or backslashes, escaped as MySQL wants them.
\<close>

theorem literal_not_cut:
  assumes "list_all plain_sql pre" and "list_all plain_sql post"
  shows "fst (sql_pieces SqlCode [] (pre @ sql_literal w @ post)) = [pre @ sql_literal w @ post] \<and>
    length (splitSqlStatements (pre @ sql_literal w @ post)) \<le> 1"
proof -
  have c: "sql_pieces SqlCode [] (pre @ sql_literal w @ post) = ([pre @ sql_literal w @ post], SqlCode)"
    using literal_closed [OF assms, of w] by (simp add: closed_sql_def)
  then show ?thesis by (simp add: splitSqlStatements_def splitSql_pieces pushStatement_def Let_def)
qed

theorem literal_not_cut_witness:
  "length (splitSqlStatements (lit ''SELECT '' @ sql_literal (lit ''a;b -- c'') @ lit '' x'')) \<le> 1"
  using literal_not_cut [of "lit ''SELECT ''" "lit '' x''" "lit ''a;b -- c''"] by (simp add: lit_def plain_sql_def)

subsection \<open>Runs of the migrations\<close>

text \<open>
  A run that succeeds has executed exactly the statements of the files not yet in the
  history, file by file in their order, has added exactly these files to the history, and has found
  every file already in it with its recorded checksum.
\<close>

theorem run_executes_new:
  assumes "migrate_main exec rollback True ms db = (Inr (applied, skipped), db')"
  shows "md_data db' = exec_all exec (new_files (readApplied db) ms) (md_data db) \<and>
    readApplied db' = readApplied db @ history_rows (new_files (readApplied db) ms) \<and>
    applied = length (new_files (readApplied db) ms) \<and> applied + skipped = length ms \<and>
    (\<forall>m\<in>set ms. mf_filename m \<in> fst ` set (readApplied db) \<longrightarrow>
       map_of (readApplied db) (mf_filename m) = Some (mf_checksum m)) \<and> \<not> md_locked db'"
proof -
  obtain db2 where r: "migrate_files exec rollback (readApplied db) ms (0, 0) (ensureHistoryTable (db\<lparr>md_locked := True\<rparr>))
      = (Inr (applied, skipped), db2)" and d: "db' = db2\<lparr>md_locked := False\<rparr>"
    using assms by (auto simp: migrate_main_def Let_def split: prod.splits)
  have "length (new_files (readApplied db) ms) \<le> length ms" by (simp add: new_files_def)
  moreover have "md_data (ensureHistoryTable (db\<lparr>md_locked := True\<rparr>)) = md_data db"
    by (simp add: ensureHistoryTable_def)
  ultimately show ?thesis using migrate_files_ok [OF r] unfolding d by auto
qed

definition ex_file :: mig_file where
  "ex_file = \<lparr>mf_filename = lit ''1.sql'', mf_sql = lit ''A'', mf_checksum = [7]\<rparr>"

lemma ex_run:
  "migrate_main (\<lambda>s d. (True, d @ [s])) id True [ex_file] \<lparr>md_data = [], md_history = None, md_locked = False\<rparr> =
    (Inr (1, 0), \<lparr>md_data = [lit ''A''], md_history = Some [(lit ''1.sql'', [7])], md_locked = False\<rparr>)"
proof -
  have "splitSqlStatements (lit ''A'') = [lit ''A'']"
    by (simp add: splitSqlStatements_def lit_def pushStatement_def js_trim_def js_space_def stripComments_def)
  then show ?thesis
    by (simp add: migrate_main_def ensureHistoryTable_def readApplied_def ex_file_def applyMigration_def Let_def
        split: unit.splits)
qed

theorem run_executes_new_witness: "new_files [] [ex_file] = [ex_file] \<and> (1::nat) + 0 = length [ex_file]"
  using run_executes_new [OF ex_run] by (simp add: readApplied_def new_files_def)

text \<open>
  After a success the next run with the same files executes nothing, changes nothing
  and skips them all.
\<close>

theorem second_run_idle:
  assumes "migrate_main exec rollback True ms db = (Inr c, db')" and "distinct (map mf_filename ms)"
  shows "\<exists>db''. migrate_main exec' rollback' True ms db' = (Inr (0, length ms), db'') \<and>
    md_data db'' = md_data db' \<and> readApplied db'' = readApplied db'"
proof -
  obtain db2 where r: "migrate_files exec rollback (readApplied db) ms (0, 0) (ensureHistoryTable (db\<lparr>md_locked := True\<rparr>))
      = (Inr c, db2)" and d: "db' = db2\<lparr>md_locked := False\<rparr>"
    using assms(1) by (auto simp: migrate_main_def Let_def split: prod.splits)
  have "\<forall>m\<in>set ms. map_of (readApplied db2) (mf_filename m) = Some (mf_checksum m)"
    by (rule migrate_history_after [OF r _ assms(2)]) simp
  then have "migrate_files exec' rollback' (readApplied db2) ms (0, 0) s = (Inr (0, length ms), s)" for s :: "'a mig_db"
    using migrate_files_skip [of ms "readApplied db2" exec' rollback' "(0, 0)" s] by simp
  moreover have "readApplied db' = readApplied db2" by (simp add: d)
  moreover have "md_data (ensureHistoryTable (db'\<lparr>md_locked := True\<rparr>)) = md_data db'" by (simp add: ensureHistoryTable_def)
  ultimately show ?thesis by (simp add: migrate_main_def Let_def)
qed

theorem second_run_idle_witness:
  "\<exists>db''. migrate_main (\<lambda>s d. (False, d)) id True [ex_file]
     \<lparr>md_data = [lit ''A''], md_history = Some [(lit ''1.sql'', [7])], md_locked = False\<rparr> = (Inr (0, 1), db'')"
  using second_run_idle [OF ex_run, of "\<lambda>s d. (False, d)" id] by auto

text \<open>
  A run that stops at a failing file has recorded a prefix of the new files and nothing
  else: the next run resumes at the file that failed.
\<close>

theorem failed_run_prefix:
  assumes "migrate_main exec rollback True ms db = (r, db')"
  shows "\<exists>done rest. new_files (readApplied db) ms = done @ rest \<and>
    readApplied db' = readApplied db @ history_rows done \<and> (\<forall>c. r = Inr c \<longrightarrow> rest = [])"
proof -
  obtain db2 where m: "migrate_files exec rollback (readApplied db) ms (0, 0) (ensureHistoryTable (db\<lparr>md_locked := True\<rparr>))
      = (r, db2)" and d: "db' = db2\<lparr>md_locked := False\<rparr>"
    using assms by (auto simp: migrate_main_def Let_def split: prod.splits)
  obtain "done" rest where p: "new_files (readApplied db) ms = done @ rest"
    "readApplied db2 = readApplied db @ history_rows done"
    using migrate_files_prefix [OF m] by auto
  have "rest = []" if "r = Inr c" for c
    using migrate_files_ok [OF m [unfolded that]] p by (simp add: history_rows_def)
  with p show ?thesis unfolding d by auto
qed

theorem failed_run_prefix_witness:
  "\<exists>done. readApplied (snd (migrate_main (\<lambda>s d. (False, d)) id True [ex_file]
      \<lparr>md_data = (), md_history = None, md_locked = False\<rparr>)) = history_rows done"
  using failed_run_prefix [where exec = "\<lambda>s d. (False, d)" and rollback = id and ms = "[ex_file]"
      and db = "\<lparr>md_data = (), md_history = None, md_locked = False\<rparr>", OF prod.collapse [symmetric]]
  by (auto simp: readApplied_def)

end
