(* ===== verification/ScriptDetect.thy ===== *)
theory ScriptDetect
  imports JsText
begin

text \<open>
  Which script a chat message is written in: \<open>web/src/chat/script.js\<close>, which tests ranges of code
  points, and \<open>server/src/translate/script-detect.ts\<close>, which asks the Unicode properties of the
  runtime. The properties are parameters of the server's functions; the web's ranges are written
  out. Both skip the translation into the one language a text is certainly in.
\<close>

datatype script = ScKo | ScJa | ScRu | ScHan | ScLatin | ScMixed | ScNone

text \<open>A string seen as code points, as \<open>for ... of\<close> and the flag \<open>u\<close> see it.\<close>

fun code_points :: "jstring \<Rightarrow> nat list" where
  "code_points [] = []"
| "code_points [u] = [u]"
| "code_points (u # v # us) =
     (if is_hi_surrogate u \<and> is_lo_surrogate v
      then (0x10000 + (u - 0xD800) * 0x400 + (v - 0xDC00)) # code_points us
      else u # code_points (v # us))"

definition in_range :: "nat \<Rightarrow> nat \<times> nat \<Rightarrow> bool" where
  "in_range c r \<longleftrightarrow> fst r \<le> c \<and> c \<le> snd r"

definition w_hangul :: "nat \<Rightarrow> bool" where
  "w_hangul c \<longleftrightarrow> list_ex (in_range c) [(0x1100, 0x11FF), (0x3130, 0x318F), (0xAC00, 0xD7AF)]"
definition w_kana :: "nat \<Rightarrow> bool" where
  "w_kana c \<longleftrightarrow> list_ex (in_range c) [(0x3040, 0x309F), (0x30A0, 0x30FF), (0x31F0, 0x31FF), (0xFF66, 0xFF9F)]"
definition w_han :: "nat \<Rightarrow> bool" where
  "w_han c \<longleftrightarrow> list_ex (in_range c) [(0x3400, 0x4DBF), (0x4E00, 0x9FFF), (0xF900, 0xFAFF)]"
definition w_cyrillic :: "nat \<Rightarrow> bool" where
  "w_cyrillic c \<longleftrightarrow> list_ex (in_range c) [(0x0400, 0x04FF), (0x0500, 0x052F)]"
definition w_latin :: "nat \<Rightarrow> bool" where
  "w_latin c \<longleftrightarrow> list_ex (in_range c) [(65, 90), (97, 122), (0x00C0, 0x024F)]"

lemmas w_classes = w_hangul_def w_kana_def w_han_def w_cyrillic_def w_latin_def in_range_def

record script_counts =
  n_hangul :: nat
  n_kana :: nat
  n_han :: nat
  n_cyrillic :: nat
  n_latin :: nat

text \<open>The first range that fits counts the character.\<close>

definition count_one :: "nat \<Rightarrow> script_counts \<Rightarrow> script_counts" where
  "count_one ch c =
     (if w_hangul ch then c\<lparr>n_hangul := n_hangul c + 1\<rparr>
      else if w_kana ch then c\<lparr>n_kana := n_kana c + 1\<rparr>
      else if w_han ch then c\<lparr>n_han := n_han c + 1\<rparr>
      else if w_cyrillic ch then c\<lparr>n_cyrillic := n_cyrillic c + 1\<rparr>
      else if w_latin ch then c\<lparr>n_latin := n_latin c + 1\<rparr>
      else c)"

definition countScripts :: "jstring \<Rightarrow> script_counts" where
  "countScripts text = fold count_one (code_points text)
     \<lparr>n_hangul = 0, n_kana = 0, n_han = 0, n_cyrillic = 0, n_latin = 0\<rparr>"

definition web_detectScript :: "jstring \<Rightarrow> script" where
  "web_detectScript text =
     (let c = countScripts text;
          total = n_hangul c + n_kana c + n_han c + n_cyrillic c + n_latin c
      in if total = 0 then ScNone
         else if n_hangul c = total then ScKo
         else if n_cyrillic c = total then ScRu
         else if n_latin c = total then ScLatin
         else if n_han c = total then ScHan
         else if n_kana c + n_han c = total \<and> 0 < n_kana c then ScJa
         else ScMixed)"

definition TARGET_LANGS :: "string list" where
  "TARGET_LANGS = [''ko'', ''en'', ''ja'', ''zh'', ''ru'']"

definition script_lang :: "script \<Rightarrow> string option" where
  "script_lang s = (case s of ScKo \<Rightarrow> Some ''ko'' | ScJa \<Rightarrow> Some ''ja'' | ScRu \<Rightarrow> Some ''ru'' | _ \<Rightarrow> None)"

definition web_unambiguousLang :: "jstring \<Rightarrow> string option" where
  "web_unambiguousLang text = script_lang (web_detectScript text)"

definition effectiveLang :: "string option \<Rightarrow> string" where
  "effectiveLang language =
     (case language of None \<Rightarrow> ''en'' | Some l \<Rightarrow> if l \<in> set TARGET_LANGS then l else ''en'')"

subsection \<open>The server\<close>

record script_classes =
  is_hangul :: "nat \<Rightarrow> bool"
  is_kana :: "nat \<Rightarrow> bool"
  is_han :: "nat \<Rightarrow> bool"
  is_cyrillic :: "nat \<Rightarrow> bool"
  is_latin :: "nat \<Rightarrow> bool"
  is_letter :: "nat \<Rightarrow> bool"

definition count_matches :: "(nat \<Rightarrow> bool) \<Rightarrow> jstring \<Rightarrow> nat" where
  "count_matches p text = length (filter p (code_points text))"

definition hasLetters :: "script_classes \<Rightarrow> jstring \<Rightarrow> bool" where
  "hasLetters cl text = list_ex (is_letter cl) (code_points text)"

definition detectScript :: "script_classes \<Rightarrow> jstring \<Rightarrow> script" where
  "detectScript cl text =
     (if \<not> hasLetters cl text then ScNone
      else (let hangul = count_matches (is_hangul cl) text;
                kana = count_matches (is_kana cl) text;
                han = count_matches (is_han cl) text;
                cyrillic = count_matches (is_cyrillic cl) text;
                latin = count_matches (is_latin cl) text;
                kinds = length (filter id [0 < hangul, 0 < kana, 0 < han \<and> kana = 0, 0 < cyrillic, 0 < latin])
            in if kinds \<noteq> 1 then ScMixed
               else if 0 < hangul then ScKo
               else if 0 < kana then ScJa
               else if 0 < han then ScHan
               else if 0 < cyrillic then ScRu
               else ScLatin))"

definition unambiguousLang :: "script_classes \<Rightarrow> jstring \<Rightarrow> string option" where
  "unambiguousLang cl text = script_lang (detectScript cl text)"

subsection \<open>Where the two agree\<close>

text \<open>The ranges do not overlap, so each count is a plain count.\<close>

lemma w_disjoint:
  "w_kana c \<Longrightarrow> \<not> w_hangul c"
  "w_han c \<Longrightarrow> \<not> w_hangul c \<and> \<not> w_kana c"
  "w_cyrillic c \<Longrightarrow> \<not> w_hangul c \<and> \<not> w_kana c \<and> \<not> w_han c"
  "w_latin c \<Longrightarrow> \<not> w_hangul c \<and> \<not> w_kana c \<and> \<not> w_han c \<and> \<not> w_cyrillic c"
  by (auto simp: w_classes)

lemma count_fold:
  "fold count_one cs c =
     \<lparr>n_hangul = n_hangul c + length (filter w_hangul cs), n_kana = n_kana c + length (filter w_kana cs),
      n_han = n_han c + length (filter w_han cs), n_cyrillic = n_cyrillic c + length (filter w_cyrillic cs),
      n_latin = n_latin c + length (filter w_latin cs)\<rparr>"
proof (induction cs arbitrary: c)
  case (Cons x cs)
  have "fold count_one (x # cs) c = fold count_one cs (count_one x c)" by simp
  also have "\<dots> = \<lparr>n_hangul = n_hangul c + length (filter w_hangul (x # cs)),
      n_kana = n_kana c + length (filter w_kana (x # cs)), n_han = n_han c + length (filter w_han (x # cs)),
      n_cyrillic = n_cyrillic c + length (filter w_cyrillic (x # cs)),
      n_latin = n_latin c + length (filter w_latin (x # cs))\<rparr>"
    unfolding Cons.IH using w_disjoint [of x] by (auto simp: count_one_def)
  finally show ?case .
qed simp

lemma countScripts_counts:
  "countScripts text = \<lparr>n_hangul = count_matches w_hangul text, n_kana = count_matches w_kana text,
     n_han = count_matches w_han text, n_cyrillic = count_matches w_cyrillic text, n_latin = count_matches w_latin text\<rparr>"
  by (simp add: countScripts_def count_fold count_matches_def)

definition classes_agree :: "script_classes \<Rightarrow> nat \<Rightarrow> bool" where
  "classes_agree cl c \<longleftrightarrow>
     is_hangul cl c = w_hangul c \<and> is_kana cl c = w_kana c \<and> is_han cl c = w_han c \<and>
     is_cyrillic cl c = w_cyrillic c \<and> is_latin cl c = w_latin c \<and>
     is_letter cl c = (w_hangul c \<or> w_kana c \<or> w_han c \<or> w_cyrillic c \<or> w_latin c)"

lemma count_cong: "(\<And>c. c \<in> set (code_points text) \<Longrightarrow> p c = q c) \<Longrightarrow> count_matches p text = count_matches q text"
  unfolding count_matches_def by (metis filter_cong)

lemma count_zero: "count_matches p text = 0 \<longleftrightarrow> \<not> list_ex p (code_points text)"
  by (simp add: count_matches_def list_ex_iff filter_empty_conv)

lemma same_script:
  assumes "\<forall>c\<in>set (code_points text). classes_agree cl c"
  shows "detectScript cl text = web_detectScript text"
proof -
  let ?n = "\<lambda>p. count_matches p text"
  have eq: "?n (is_hangul cl) = ?n w_hangul" "?n (is_kana cl) = ?n w_kana" "?n (is_han cl) = ?n w_han"
    "?n (is_cyrillic cl) = ?n w_cyrillic" "?n (is_latin cl) = ?n w_latin"
    using assms by (auto intro!: count_cong simp: classes_agree_def)
  have "hasLetters cl text \<longleftrightarrow> list_ex (\<lambda>c. w_hangul c \<or> w_kana c \<or> w_han c \<or> w_cyrillic c \<or> w_latin c) (code_points text)"
    using assms by (auto simp: hasLetters_def list_ex_iff classes_agree_def)
  also have "\<dots> \<longleftrightarrow> \<not> (?n w_hangul = 0 \<and> ?n w_kana = 0 \<and> ?n w_han = 0 \<and> ?n w_cyrillic = 0 \<and> ?n w_latin = 0)"
    by (auto simp: count_zero list_ex_iff)
  finally have l: "hasLetters cl text \<longleftrightarrow>
      \<not> (?n w_hangul = 0 \<and> ?n w_kana = 0 \<and> ?n w_han = 0 \<and> ?n w_cyrillic = 0 \<and> ?n w_latin = 0)" .
  show ?thesis unfolding detectScript_def web_detectScript_def countScripts_counts eq l Let_def
    by (cases "?n w_hangul"; cases "?n w_kana"; cases "?n w_han"; cases "?n w_cyrillic"; cases "?n w_latin") auto
qed

text \<open>A text whose letters are all outside the five scripts: nothing to the web, mixed to the server.\<close>

lemma other_letters:
  assumes "list_ex (is_letter cl) (code_points text)"
    and "\<forall>c\<in>set (code_points text). \<not> is_hangul cl c \<and> \<not> is_kana cl c \<and> \<not> is_han cl c \<and> \<not> is_cyrillic cl c \<and> \<not> is_latin cl c"
    and "\<forall>c\<in>set (code_points text). \<not> w_hangul c \<and> \<not> w_kana c \<and> \<not> w_han c \<and> \<not> w_cyrillic c \<and> \<not> w_latin c"
  shows "detectScript cl text = ScMixed" and "web_detectScript text = ScNone"
proof -
  have z: "count_matches p text = 0" if "\<forall>c\<in>set (code_points text). \<not> p c" for p
    using that by (simp add: count_zero list_ex_iff)
  show "detectScript cl text = ScMixed"
    using assms by (simp add: detectScript_def hasLetters_def z Let_def)
  show "web_detectScript text = ScNone"
    using assms by (simp add: web_detectScript_def countScripts_counts z)
qed

text \<open>The certain languages are certain: every counted letter is of their scripts.\<close>

lemma web_unambiguous_sound:
  assumes "web_unambiguousLang text = Some l"
  shows "(l = ''ko'' \<and> 0 < count_matches w_hangul text \<and> count_matches w_kana text + count_matches w_han text +
            count_matches w_cyrillic text + count_matches w_latin text = 0) \<or>
         (l = ''ru'' \<and> 0 < count_matches w_cyrillic text \<and> count_matches w_hangul text + count_matches w_kana text +
            count_matches w_han text + count_matches w_latin text = 0) \<or>
         (l = ''ja'' \<and> 0 < count_matches w_kana text \<and> count_matches w_hangul text +
            count_matches w_cyrillic text + count_matches w_latin text = 0)"
  using assms by (auto simp: web_unambiguousLang_def web_detectScript_def countScripts_counts Let_def script_lang_def
      split: if_splits)

end
