(* ===== verification/ChatView.thy ===== *)
theory ChatView
  imports ScriptDetect
begin

text \<open>
  The pure parts of the chat window: \<open>selectDisplay\<close> (\<open>web/src/chat/display.js\<close>) chooses between the
  original, the translation and the two waiting states; \<open>web/src/chat/systemMessages.js\<close> turns the
  lists of online users into coalesced messages about who came and who went, and into text.
\<close>

subsection \<open>selectDisplay\<close>

datatype display_state = Original | Translated | Pending | Failed

record display =
  d_state :: display_state
  d_text :: jstring
  d_original :: jstring

definition selectDisplay ::
    "jsval \<Rightarrow> jsval \<Rightarrow> string option \<Rightarrow> bool \<Rightarrow> bool \<Rightarrow> bool \<Rightarrow> display" where
  "selectDisplay msg translations myLang autoTranslate pending failed =
     (let original = (case js_get msg ''content'' of JStr s \<Rightarrow> s | _ \<Rightarrow> []);
          base = \<lparr>d_state = Original, d_text = original, d_original = original\<rparr>
      in if \<not> autoTranslate then base
         else (case js_get translations (effectiveLang myLang) of
                 JStr translated \<Rightarrow>
                   if translated = original then base
                   else \<lparr>d_state = Translated, d_text = translated, d_original = original\<rparr>
               | _ \<Rightarrow> if failed then base\<lparr>d_state := Failed\<rparr>
                      else if pending then base\<lparr>d_state := Pending\<rparr>
                      else base))"

text \<open>What is shown is the original unless the state says translated; then it is the entry of my language.\<close>

lemma selectDisplay_text:
  "selectDisplay msg tr l auto p f = d \<Longrightarrow>
   (d_state d \<noteq> Translated \<and> d_text d = d_original d) \<or>
   (d_state d = Translated \<and> auto \<and> js_get tr (effectiveLang l) = JStr (d_text d) \<and> d_text d \<noteq> d_original d)"
  by (auto simp: selectDisplay_def Let_def split: if_splits jsval.splits)

text \<open>A translation that has arrived wins over both waiting states.\<close>

lemma selectDisplay_arrived:
  "js_get tr (effectiveLang l) = JStr t \<Longrightarrow>
   selectDisplay msg tr l auto p f = selectDisplay msg tr l auto p' f'"
  by (simp add: selectDisplay_def Let_def)

subsection \<open>Who came and who went\<close>

definition ONLINE_COALESCE_MS :: millis where "ONLINE_COALESCE_MS = 2000"

definition nicknameOf :: "jsval \<Rightarrow> jstring option" where
  "nicknameOf entry =
     (case entry of
        JStr s \<Rightarrow> Some s
      | _ \<Rightarrow> (case js_get entry ''nickname'' of JStr s \<Rightarrow> Some s | _ \<Rightarrow> None))"

text \<open>A JavaScript set is its distinct members in insertion order.\<close>

definition set_add :: "'a \<Rightarrow> 'a list \<Rightarrow> 'a list" where
  "set_add x s = (if x \<in> set s then s else s @ [x])"

definition nicknameSet :: "jsval \<Rightarrow> jstring list" where
  "nicknameSet l =
     (case l of
        JArr xs \<Rightarrow> fold (\<lambda>e out. case nicknameOf e of None \<Rightarrow> out
                                | Some n \<Rightarrow> if n = [] then out else set_add n out) xs []
      | _ \<Rightarrow> [])"

record online_diff =
  joined :: "jstring list"
  left :: "jstring list"

definition diff_sets :: "jstring list \<Rightarrow> jstring list \<Rightarrow> online_diff" where
  "diff_sets before after =
     \<lparr>joined = filter (\<lambda>n. n \<notin> set before) after, left = filter (\<lambda>n. n \<notin> set after) before\<rparr>"

definition diffOnline :: "jsval \<Rightarrow> jsval \<Rightarrow> online_diff" where
  "diffOnline prev nxt = diff_sets (nicknameSet prev) (nicknameSet nxt)"

record online_tracker =
  ot_known :: "jstring list option"
  ot_joined :: "jstring list"
  ot_left :: "jstring list"
  ot_timer :: "millis option"
  ot_flushed :: "online_diff list"

definition tracker_initial :: online_tracker where
  "tracker_initial = \<lparr>ot_known = None, ot_joined = [], ot_left = [], ot_timer = None, ot_flushed = []\<rparr>"

definition tracker_flush :: "online_tracker \<Rightarrow> online_tracker" where
  "tracker_flush t =
     t\<lparr>ot_timer := None, ot_joined := [], ot_left := [],
       ot_flushed := ot_flushed t @
         (if ot_joined t \<noteq> [] \<or> ot_left t \<noteq> [] then [\<lparr>joined = ot_joined t, left = ot_left t\<rparr>] else [])\<rparr>"

definition note_joined :: "jstring \<Rightarrow> online_tracker \<Rightarrow> online_tracker" where
  "note_joined n t =
     (if n \<in> set (ot_left t) then t\<lparr>ot_left := removeAll n (ot_left t)\<rparr>
      else t\<lparr>ot_joined := set_add n (ot_joined t)\<rparr>)"

definition note_left :: "jstring \<Rightarrow> online_tracker \<Rightarrow> online_tracker" where
  "note_left n t =
     (if n \<in> set (ot_joined t) then t\<lparr>ot_joined := removeAll n (ot_joined t)\<rparr>
      else t\<lparr>ot_left := set_add n (ot_left t)\<rparr>)"

definition tracker_update :: "millis \<Rightarrow> millis \<Rightarrow> jsval \<Rightarrow> online_tracker \<Rightarrow> online_tracker" where
  "tracker_update windowMs now l t =
     (let names = nicknameSet l
      in case ot_known t of
           None \<Rightarrow> t\<lparr>ot_known := Some names\<rparr>
         | Some known \<Rightarrow>
             (let diff = diff_sets known names;
                  t1 = fold note_left (left diff) (fold note_joined (joined diff) (t\<lparr>ot_known := Some names\<rparr>))
              in if (ot_joined t1 \<noteq> [] \<or> ot_left t1 \<noteq> []) \<and> ot_timer t1 = None
                 then t1\<lparr>ot_timer := Some (now + windowMs)\<rparr> else t1))"

definition tracker_dispose :: "online_tracker \<Rightarrow> online_tracker" where
  "tracker_dispose t = t\<lparr>ot_timer := None, ot_joined := [], ot_left := [], ot_known := None\<rparr>"

text \<open>
  What is collected is the net change since \<open>base\<close>, the users online when the window opened: whoever
  came and went again within the window is not mentioned.
\<close>

definition tracker_net :: "jstring set \<Rightarrow> online_tracker \<Rightarrow> bool" where
  "tracker_net base t \<longleftrightarrow>
     (case ot_known t of
        None \<Rightarrow> ot_joined t = [] \<and> ot_left t = []
      | Some known \<Rightarrow> set (ot_joined t) = set known - base \<and> set (ot_left t) = base - set known) \<and>
     (ot_joined t \<noteq> [] \<or> ot_left t \<noteq> [] \<longrightarrow> ot_timer t \<noteq> None)"

lemma set_set_add [simp]: "set (set_add x s) = insert x (set s)"
  by (auto simp: set_add_def)

definition net_sets :: "jstring set \<Rightarrow> jstring set \<Rightarrow> online_tracker \<Rightarrow> bool" where
  "net_sets base now t \<longleftrightarrow> set (ot_joined t) = now - base \<and> set (ot_left t) = base - now"

lemma note_joined_net: "net_sets base k t \<Longrightarrow> n \<notin> k \<Longrightarrow> net_sets base (insert n k) (note_joined n t)"
  by (auto simp: net_sets_def note_joined_def)

lemma note_left_net: "net_sets base k t \<Longrightarrow> n \<in> k \<Longrightarrow> net_sets base (k - {n}) (note_left n t)"
  by (auto simp: net_sets_def note_left_def)

lemma fold_joined_net:
  "net_sets base k t \<Longrightarrow> distinct ns \<Longrightarrow> set ns \<inter> k = {} \<Longrightarrow> net_sets base (k \<union> set ns) (fold note_joined ns t)"
proof (induction ns arbitrary: k t)
  case (Cons n ns)
  then have "net_sets base (insert n k) (note_joined n t)" by (intro note_joined_net) auto
  from Cons.IH [OF this] Cons.prems show ?case by (simp add: Un_commute)
qed simp

lemma fold_left_net:
  "net_sets base k t \<Longrightarrow> distinct ns \<Longrightarrow> set ns \<subseteq> k \<Longrightarrow> net_sets base (k - set ns) (fold note_left ns t)"
proof (induction ns arbitrary: k t)
  case (Cons n ns)
  then have "net_sets base (k - {n}) (note_left n t)" by (intro note_left_net) auto
  from Cons.IH [OF this] Cons.prems have "net_sets base (k - {n} - set ns) (fold note_left ns (note_left n t))" by auto
  moreover have "k - {n} - set ns = k - set (n # ns)" by auto
  ultimately show ?case by simp
qed simp

lemma note_frames [simp]:
  "ot_known (fold note_joined ns t) = ot_known t" "ot_known (fold note_left ns t) = ot_known t"
  "ot_timer (fold note_joined ns t) = ot_timer t" "ot_timer (fold note_left ns t) = ot_timer t"
proof -
  show "ot_known (fold note_joined ns t) = ot_known t" by (induction ns arbitrary: t) (auto simp: note_joined_def)
  show "ot_known (fold note_left ns t) = ot_known t" by (induction ns arbitrary: t) (auto simp: note_left_def)
  show "ot_timer (fold note_joined ns t) = ot_timer t" by (induction ns arbitrary: t) (auto simp: note_joined_def)
  show "ot_timer (fold note_left ns t) = ot_timer t" by (induction ns arbitrary: t) (auto simp: note_left_def)
qed

lemma nicknameSet_distinct: "distinct (nicknameSet l)"
proof -
  let ?f = "\<lambda>e out. case nicknameOf e of None \<Rightarrow> out | Some n \<Rightarrow> if n = [] then out else set_add n out"
  have "distinct (fold ?f xs out)" if "distinct out" for xs out
    using that by (induction xs arbitrary: out) (auto simp: set_add_def split: option.splits)
  then show ?thesis by (simp add: nicknameSet_def split: jsval.splits)
qed

lemma update_net:
  assumes "tracker_net base t" and known: "ot_known t = Some known" "distinct known"
  shows "tracker_net base (tracker_update w now l t)"
proof -
  let ?names = "nicknameSet l"
  let ?d = "diff_sets known ?names"
  let ?t0 = "t\<lparr>ot_known := Some ?names\<rparr>"
  let ?t1 = "fold note_left (left ?d) (fold note_joined (joined ?d) ?t0)"
  have "net_sets base (set known) ?t0" using assms by (simp add: tracker_net_def net_sets_def)
  then have "net_sets base (set known \<union> set (joined ?d)) (fold note_joined (joined ?d) ?t0)"
    by (rule fold_joined_net) (auto simp: diff_sets_def nicknameSet_distinct)
  then have "net_sets base (set known \<union> set (joined ?d) - set (left ?d)) ?t1"
    by (rule fold_left_net) (auto simp: diff_sets_def known(2))
  moreover have "set known \<union> set (joined ?d) - set (left ?d) = set ?names" by (auto simp: diff_sets_def)
  ultimately have "net_sets base (set ?names) ?t1" by simp
  then show ?thesis using known(1) by (auto simp: tracker_update_def Let_def tracker_net_def net_sets_def)
qed

text \<open>A flush reports exactly the net change, and the window starts again from there.\<close>

lemma flush_reports:
  assumes "tracker_net base t" and "ot_known t = Some known" and "set known \<noteq> base"
  shows "\<exists>d. ot_flushed (tracker_flush t) = ot_flushed t @ [d] \<and> set (joined d) = set known - base \<and>
    set (left d) = base - set known"
proof -
  have s: "set (ot_joined t) = set known - base" "set (ot_left t) = base - set known"
    using assms by (auto simp: tracker_net_def)
  with assms(3) have "ot_joined t \<noteq> [] \<or> ot_left t \<noteq> []" by (metis Diff_eq_empty_iff empty_set subset_antisym)
  with s show ?thesis by (auto simp: tracker_flush_def)
qed

lemma flush_silent:
  assumes "tracker_net base t" and "ot_known t = Some known" and "set known = base"
  shows "ot_flushed (tracker_flush t) = ot_flushed t"
  using assms by (simp add: tracker_net_def tracker_flush_def)

lemma flush_net: "tracker_net base t \<Longrightarrow> ot_known t = Some known \<Longrightarrow> tracker_net (set known) (tracker_flush t)"
  by (simp add: tracker_net_def tracker_flush_def)

lemma baseline_net: "tracker_net base t \<Longrightarrow> ot_known t = None \<Longrightarrow>
    tracker_net (set (nicknameSet l)) (tracker_update w now l t)"
  by (simp add: tracker_net_def tracker_update_def Let_def)

text \<open>Runs: updates and the timer, with the base of the current window.\<close>

datatype tracker_op = TrUpdate millis jsval | TrFlush | TrDispose

definition tracker_exec :: "millis \<Rightarrow> tracker_op \<Rightarrow> online_tracker \<Rightarrow> online_tracker" where
  "tracker_exec w op t =
     (case op of TrUpdate now l \<Rightarrow> tracker_update w now l t | TrFlush \<Rightarrow> tracker_flush t | TrDispose \<Rightarrow> tracker_dispose t)"

definition tracker_base :: "tracker_op \<Rightarrow> online_tracker \<Rightarrow> jstring set \<Rightarrow> jstring set" where
  "tracker_base op t base =
     (case op of
        TrUpdate now l \<Rightarrow> (case ot_known t of None \<Rightarrow> set (nicknameSet l) | Some k \<Rightarrow> base)
      | TrFlush \<Rightarrow> (case ot_known t of None \<Rightarrow> base | Some k \<Rightarrow> set k)
      | TrDispose \<Rightarrow> base)"

fun tracker_run :: "millis \<Rightarrow> tracker_op list \<Rightarrow> jstring set \<times> online_tracker \<Rightarrow> jstring set \<times> online_tracker" where
  "tracker_run w [] bt = bt"
| "tracker_run w (op # ops) bt = tracker_run w ops (tracker_base op (snd bt) (fst bt), tracker_exec w op (snd bt))"

definition tracker_ok :: "jstring set \<Rightarrow> online_tracker \<Rightarrow> bool" where
  "tracker_ok base t \<longleftrightarrow> tracker_net base t \<and> (\<forall>k. ot_known t = Some k \<longrightarrow> distinct k)"

lemma tracker_known_update: "ot_known (tracker_update w now l t) = Some (nicknameSet l)"
  by (simp add: tracker_update_def Let_def split: option.splits)

lemma tracker_exec_ok:
  assumes "tracker_ok base t"
  shows "tracker_ok (tracker_base op t base) (tracker_exec w op t)"
proof (cases op)
  case (TrUpdate now l)
  have "tracker_net (tracker_base op t base) (tracker_update w now l t)"
    using assms update_net [of base t] baseline_net [of base t] TrUpdate
    by (cases "ot_known t") (auto simp: tracker_ok_def tracker_base_def)
  then show ?thesis using TrUpdate by (simp add: tracker_ok_def tracker_exec_def tracker_known_update nicknameSet_distinct)
next
  case TrFlush
  then show ?thesis using assms flush_net [of base t]
    by (cases "ot_known t") (auto simp: tracker_ok_def tracker_base_def tracker_exec_def tracker_flush_def tracker_net_def)
next
  case TrDispose
  then show ?thesis by (simp add: tracker_ok_def tracker_exec_def tracker_dispose_def tracker_net_def)
qed

lemma tracker_run_ok: "tracker_ok (fst bt) (snd bt) \<Longrightarrow>
    tracker_ok (fst (tracker_run w ops bt)) (snd (tracker_run w ops bt))"
  by (induction ops arbitrary: bt) (simp_all add: tracker_exec_ok)

lemma tracker_initial_ok: "tracker_ok {} tracker_initial"
  by (simp add: tracker_ok_def tracker_net_def tracker_initial_def)

subsection \<open>The text of a system message\<close>

text \<open>\<open>String.replace\<close> with a string pattern: the first occurrence, \<open>$\<close> sequences expanded.\<close>

fun split_at_sub :: "jstring \<Rightarrow> jstring \<Rightarrow> (jstring \<times> jstring) option" where
  "split_at_sub pat [] = (if pat = [] then Some ([], []) else None)"
| "split_at_sub pat (u # us) =
     (if take (length pat) (u # us) = pat then Some ([], drop (length pat) (u # us))
      else (case split_at_sub pat us of None \<Rightarrow> None | Some (p, q) \<Rightarrow> Some (u # p, q)))"

fun expand_repl :: "jstring \<Rightarrow> jstring \<Rightarrow> jstring \<Rightarrow> jstring \<Rightarrow> jstring" where
  "expand_repl pre m suf [] = []"
| "expand_repl pre m suf [u] = [u]"
| "expand_repl pre m suf (u # v # us) =
     (if u \<noteq> 36 then u # expand_repl pre m suf (v # us)
      else if v = 36 then 36 # expand_repl pre m suf us
      else if v = 38 then m @ expand_repl pre m suf us
      else if v = 96 then pre @ expand_repl pre m suf us
      else if v = 39 then suf @ expand_repl pre m suf us
      else u # expand_repl pre m suf (v # us))"

definition js_replace :: "jstring \<Rightarrow> jstring \<Rightarrow> jstring \<Rightarrow> jstring" where
  "js_replace pat repl s =
     (case split_at_sub pat s of
        None \<Rightarrow> s
      | Some (pre, suf) \<Rightarrow> pre @ expand_repl pre pat suf repl @ suf)"

definition KIND_KEYS :: "(jstring \<times> string) list" where
  "KIND_KEYS = [(lit ''joined'', ''chatJoined''), (lit ''left'', ''chatLeft''),
     (lit ''joinedMany'', ''chatJoinedMany''), (lit ''leftMany'', ''chatLeftMany''),
     (lit ''history_error'', ''chatHistoryError'')]"

definition js_or_empty :: "(jsval \<Rightarrow> jstring) \<Rightarrow> jsval \<Rightarrow> jstring" where
  "js_or_empty str v = (case v of JUndef \<Rightarrow> [] | JNull \<Rightarrow> [] | _ \<Rightarrow> str v)"

text \<open>\<open>str\<close> is \<open>String\<close>, \<open>t\<close> the dictionary of the chosen language.\<close>

definition formatSystemMessage ::
    "(jsval \<Rightarrow> jstring) \<Rightarrow> (string \<Rightarrow> jstring option) \<Rightarrow> jsval \<Rightarrow> jstring" where
  "formatSystemMessage str t message =
     (case message of
        JObj m \<Rightarrow>
          (let kind = js_field m ''kind''; text = js_field m ''text''
           in if (case text of JStr s \<Rightarrow> True | _ \<Rightarrow> False) \<and>
                 (kind = JStr (lit ''text'') \<or> js_falsy kind)
              then (case text of JStr s \<Rightarrow> s | _ \<Rightarrow> [])
              else (case (case kind of JStr k \<Rightarrow> map_of KIND_KEYS k | _ \<Rightarrow> None) of
                      None \<Rightarrow> js_or_empty str (if kind = JUndef \<or> kind = JNull then text else kind)
                    | Some key \<Rightarrow>
                        (let template = (case t key of None \<Rightarrow> lit key | Some s \<Rightarrow> s)
                         in js_replace (lit ''{count}'') (js_or_empty str (js_field m ''count''))
                              (js_replace (lit ''{nickname}'') (js_or_empty str (js_field m ''nickname'')) template))))
      | _ \<Rightarrow> [])"

lemma expand_plain: "36 \<notin> set r \<Longrightarrow> expand_repl pre m suf r = r"
  by (induction pre m suf r rule: expand_repl.induct) auto

lemma split_at_sub_Some: "split_at_sub pat s = Some (p, q) \<Longrightarrow> s = p @ pat @ q"
proof (induction pat s arbitrary: p q rule: split_at_sub.induct)
  case (1 pat)
  then show ?case by (auto split: if_splits)
next
  case (2 pat u us)
  show ?case
  proof (cases "take (length pat) (u # us) = pat")
    case True
    with 2(2) have pq: "p = [] \<and> q = drop (length pat) (u # us)" by simp
    have "u # us = take (length pat) (u # us) @ drop (length pat) (u # us)" by (rule append_take_drop_id [symmetric])
    with pq True show ?thesis by simp
  next
    case False
    with 2 show ?thesis by (auto split: option.splits)
  qed
qed

text \<open>A replacement without a dollar sign goes in as it is.\<close>

lemma js_replace_plain:
  "split_at_sub pat s = Some (p, q) \<Longrightarrow> 36 \<notin> set r \<Longrightarrow> js_replace pat r s = p @ r @ q"
  by (simp add: js_replace_def expand_plain)

end
