(* ===== verification/ChatStore.thy ===== *)
theory ChatStore
  imports ChatView
begin

text \<open>
  The client store, \<open>web/src/store/index.js\<close>: the buffer of chat messages with its two limits, the
  map of translations, the rally groups and the settings. A message is a JavaScript object; \<open>str\<close> is
  \<open>String\<close> and \<open>time m\<close> is \<open>Date.parse(m.createdAt || '') || 0\<close>.
\<close>

type_synonym chat_msg = "(jstring \<times> jsval) list"

definition CHAT_MESSAGE_LIMIT :: nat where "CHAT_MESSAGE_LIMIT = 500"
definition CHAT_SYSTEM_LIMIT :: nat where "CHAT_SYSTEM_LIMIT = 50"

definition nullish :: "jsval \<Rightarrow> bool" where
  "nullish v \<longleftrightarrow> v = JUndef \<or> v = JNull"

definition getChatMessageKey :: "(jsval \<Rightarrow> jstring) \<Rightarrow> chat_msg \<Rightarrow> jstring" where
  "getChatMessageKey str m =
     (if \<not> nullish (js_field m ''id'') then lit ''message:'' @ str (js_field m ''id'')
      else if \<not> nullish (js_field m ''_id'') then lit ''system:'' @ str (js_field m ''_id'')
      else str (js_or (js_field m ''_type'') (JStr (lit ''message''))) @ 58 #
           str (js_or (js_field m ''createdAt'') (JStr [])) @ 58 #
           str (js_or (js_field m ''nickname'') (JStr [])) @ 58 #
           str (js_or (js_or (js_field m ''content'') (js_field m ''text'')) (JStr [])))"

text \<open>\<open>{ ...previous, ...message }\<close>.\<close>

definition js_spread :: "chat_msg \<Rightarrow> chat_msg \<Rightarrow> chat_msg" where
  "js_spread a b = fold (\<lambda>(k, v) m. AList.update k v m) b a"

definition merge_one ::
    "(chat_msg \<Rightarrow> jstring) \<Rightarrow> chat_msg \<Rightarrow> (jstring, chat_msg) jmap \<Rightarrow> (jstring, chat_msg) jmap" where
  "merge_one key message byKey =
     AList.update (key message)
       (case map_of byKey (key message) of None \<Rightarrow> message | Some previous \<Rightarrow> js_spread previous message) byKey"

definition slice_last :: "nat \<Rightarrow> 'a list \<Rightarrow> 'a list" where
  "slice_last n xs = drop (length xs - n) xs"

definition is_system :: "chat_msg \<Rightarrow> bool" where
  "is_system m \<longleftrightarrow> js_field m ''_type'' = JStr (lit ''system'')"

definition merged_order ::
    "(chat_msg \<Rightarrow> jstring) \<Rightarrow> (chat_msg \<Rightarrow> int) \<Rightarrow> chat_msg list \<Rightarrow> chat_msg list \<Rightarrow> chat_msg list" where
  "merged_order key time current incoming =
     sort_key time (map snd (fold (merge_one key) incoming
       (fold (\<lambda>m byKey. AList.update (key m) m byKey) current [])))"

definition mergeChatMessages ::
    "(chat_msg \<Rightarrow> jstring) \<Rightarrow> (chat_msg \<Rightarrow> int) \<Rightarrow> chat_msg list \<Rightarrow> chat_msg list \<Rightarrow> chat_msg list" where
  "mergeChatMessages key time current incoming =
     (let ordered = merged_order key time current incoming;
          kept = map key (slice_last CHAT_MESSAGE_LIMIT (filter (\<lambda>m. \<not> is_system m) ordered)) @
                 map key (slice_last CHAT_SYSTEM_LIMIT (filter is_system ordered))
      in filter (\<lambda>m. key m \<in> set kept) ordered)"

subsection \<open>Translations\<close>

type_synonym translation_map = "(jstring, (jstring, jstring) jmap) jmap"

definition splitTranslations :: "chat_msg list \<Rightarrow> chat_msg list \<times> (jsval \<times> jsval) list" where
  "splitTranslations incoming =
     (map (AList.delete (lit ''translations'')) incoming,
      concat (map (\<lambda>m. case map_of m (lit ''translations'') of
          None \<Rightarrow> []
        | Some tr \<Rightarrow> if nullish (js_field m ''id'') then [] else [(js_field m ''id'', tr)]) incoming))"

text \<open>The own properties of an object or an array whose value is a string.\<close>

definition string_entries :: "jsval \<Rightarrow> (jstring \<times> jstring) list" where
  "string_entries v =
     concat (map (\<lambda>(k, x). case x of JStr s \<Rightarrow> [(k, s)] | _ \<Rightarrow> [])
       (case v of JObj m \<Rightarrow> m | JArr xs \<Rightarrow> map (\<lambda>(i, x). (js_show_nat i, x)) (enumerate 0 xs) | _ \<Rightarrow> []))"

definition merge_translation ::
    "(jsval \<Rightarrow> jstring) \<Rightarrow> jsval \<times> jsval \<Rightarrow> translation_map \<Rightarrow> translation_map" where
  "merge_translation str entry current =
     (let langs = string_entries (snd entry); i = str (fst entry)
      in if langs = [] then current
         else AList.update i
                (fold (\<lambda>(lang, text) m. AList.update lang text m) langs
                   (case map_of current i of None \<Rightarrow> [] | Some m \<Rightarrow> m)) current)"

definition mergeTranslationMap ::
    "(jsval \<Rightarrow> jstring) \<Rightarrow> translation_map \<Rightarrow> (jsval \<times> jsval) list \<Rightarrow> translation_map" where
  "mergeTranslationMap str current entries = fold (merge_translation str) entries current"

record chat_store =
  chatMessages :: "chat_msg list"
  chatTranslations :: translation_map
  chatTranslationPending :: "jstring list"
  chatTranslationFailed :: "jstring list"

definition alive_ids :: "(jsval \<Rightarrow> jstring) \<Rightarrow> chat_msg list \<Rightarrow> jstring list" where
  "alive_ids str ms = map (\<lambda>m. str (js_field m ''id'')) (filter (\<lambda>m. \<not> nullish (js_field m ''id'')) ms)"

definition pruneTranslationState :: "(jsval \<Rightarrow> jstring) \<Rightarrow> chat_msg list \<Rightarrow> chat_store \<Rightarrow> chat_store" where
  "pruneTranslationState str ms s =
     (let alive = set (alive_ids str ms)
      in s\<lparr>chatTranslations := filter (\<lambda>(k, v). k \<in> alive) (chatTranslations s),
           chatTranslationPending := filter (\<lambda>k. k \<in> alive) (chatTranslationPending s),
           chatTranslationFailed := filter (\<lambda>k. k \<in> alive) (chatTranslationFailed s)\<rparr>)"

definition setChatHistory ::
    "(jsval \<Rightarrow> jstring) \<Rightarrow> (chat_msg \<Rightarrow> int) \<Rightarrow> chat_msg list \<Rightarrow> chat_store \<Rightarrow> chat_store" where
  "setChatHistory str time messages s =
     (let (ms, entries) = splitTranslations messages;
          merged = mergeChatMessages (getChatMessageKey str) time (chatMessages s) ms
      in pruneTranslationState str merged
           (s\<lparr>chatMessages := merged, chatTranslations := mergeTranslationMap str (chatTranslations s) entries\<rparr>))"

definition appendChatMessage ::
    "(jsval \<Rightarrow> jstring) \<Rightarrow> (chat_msg \<Rightarrow> int) \<Rightarrow> chat_msg \<Rightarrow> chat_store \<Rightarrow> chat_store" where
  "appendChatMessage str time message s = setChatHistory str time [message] s"

definition mergeChatTranslationsBulk :: "(jsval \<Rightarrow> jstring) \<Rightarrow> (jsval \<times> jsval) list \<Rightarrow> chat_store \<Rightarrow> chat_store" where
  "mergeChatTranslationsBulk str entries s =
     s\<lparr>chatTranslations := mergeTranslationMap str (chatTranslations s) entries\<rparr>"

definition mergeChatTranslations :: "(jsval \<Rightarrow> jstring) \<Rightarrow> jsval \<Rightarrow> jsval \<Rightarrow> chat_store \<Rightarrow> chat_store" where
  "mergeChatTranslations str i m s = mergeChatTranslationsBulk str [(i, m)] s"

definition withoutKeys :: "jstring list \<Rightarrow> jstring list \<Rightarrow> jstring list" where
  "withoutKeys rec ids = filter (\<lambda>k. k \<notin> set ids) rec"

definition markTranslationPending :: "jstring list \<Rightarrow> chat_store \<Rightarrow> chat_store" where
  "markTranslationPending ids s =
     s\<lparr>chatTranslationPending := fold set_add ids (chatTranslationPending s)\<rparr>"

definition clearTranslationPending :: "jstring list option \<Rightarrow> chat_store \<Rightarrow> chat_store" where
  "clearTranslationPending ids s =
     s\<lparr>chatTranslationPending := (case ids of None \<Rightarrow> [] | Some is \<Rightarrow> withoutKeys (chatTranslationPending s) is)\<rparr>"

definition markTranslationFailed :: "jstring list \<Rightarrow> chat_store \<Rightarrow> chat_store" where
  "markTranslationFailed ids s =
     s\<lparr>chatTranslationFailed := fold set_add ids (chatTranslationFailed s),
       chatTranslationPending := withoutKeys (chatTranslationPending s) ids\<rparr>"

definition clearTranslationFailed :: "jstring \<Rightarrow> chat_store \<Rightarrow> chat_store" where
  "clearTranslationFailed i s = s\<lparr>chatTranslationFailed := withoutKeys (chatTranslationFailed s) [i]\<rparr>"

definition resetTranslationStatus :: "chat_store \<Rightarrow> chat_store" where
  "resetTranslationStatus s = s\<lparr>chatTranslationPending := [], chatTranslationFailed := []\<rparr>"

definition pruneChatTranslations :: "(jsval \<Rightarrow> jstring) \<Rightarrow> chat_store \<Rightarrow> chat_store" where
  "pruneChatTranslations str s = pruneTranslationState str (chatMessages s) s"

definition clearUser_chat :: "chat_store \<Rightarrow> chat_store" where
  "clearUser_chat s = \<lparr>chatMessages = [], chatTranslations = [], chatTranslationPending = [], chatTranslationFailed = []\<rparr>"

subsection \<open>Rally groups on the client\<close>

record ('g, 'c) rally_view =
  rallyGroups :: "(jstring \<times> 'g) list"
  rallyCountdowns :: "(jstring, 'c) jmap"

text \<open>A group is its id with the rest; the first entry with the id is replaced.\<close>

fun upsert_group :: "jstring \<times> 'g \<Rightarrow> (jstring \<times> 'g) list \<Rightarrow> (jstring \<times> 'g) list" where
  "upsert_group g [] = [g]"
| "upsert_group g (h # hs) = (if fst h = fst g then g # hs else h # upsert_group g hs)"

definition upsertRallyGroup :: "jstring \<times> 'g \<Rightarrow> ('g, 'c) rally_view \<Rightarrow> ('g, 'c) rally_view" where
  "upsertRallyGroup g v = v\<lparr>rallyGroups := upsert_group g (rallyGroups v)\<rparr>"

definition removeRallyGroup :: "jstring \<Rightarrow> ('g, 'c) rally_view \<Rightarrow> ('g, 'c) rally_view" where
  "removeRallyGroup i v =
     v\<lparr>rallyGroups := filter (\<lambda>g. fst g \<noteq> i) (rallyGroups v), rallyCountdowns := AList.delete i (rallyCountdowns v)\<rparr>"

definition setRallyCountdown :: "jstring \<Rightarrow> 'c \<Rightarrow> ('g, 'c) rally_view \<Rightarrow> ('g, 'c) rally_view" where
  "setRallyCountdown i p v = v\<lparr>rallyCountdowns := AList.update i p (rallyCountdowns v)\<rparr>"

definition clearRallyCountdown :: "jstring \<Rightarrow> ('g, 'c) rally_view \<Rightarrow> ('g, 'c) rally_view" where
  "clearRallyCountdown i v = v\<lparr>rallyCountdowns := AList.delete i (rallyCountdowns v)\<rparr>"

subsection \<open>Settings\<close>

text \<open>
  \<open>num\<close> is \<open>Number\<close> and \<open>parse\<close> is \<open>parseFloat\<close>; the storage is \<open>None\<close> when reading it throws.
\<close>

type_synonym storage = "string \<Rightarrow> jstring option"

definition clamp :: "rat \<Rightarrow> rat \<Rightarrow> rat \<Rightarrow> rat" where
  "clamp lo hi x = max lo (min hi x)"

definition js_round :: "rat \<Rightarrow> rat" where
  "js_round x = of_int \<lfloor>x + 1 / 2\<rfloor>"

definition init_ttsVolume :: "(jstring option \<Rightarrow> jsnum) \<Rightarrow> storage option \<Rightarrow> rat" where
  "init_ttsVolume parse st =
     (case st of
        None \<Rightarrow> 3 / 10
      | Some f \<Rightarrow> (case parse (f ''wos-tts-volume'') of NumFin v \<Rightarrow> clamp 0 1 v | _ \<Rightarrow> 3 / 10))"

definition init_ttsMuted :: "storage option \<Rightarrow> bool" where
  "init_ttsMuted st = (case st of None \<Rightarrow> False | Some f \<Rightarrow> f ''wos-tts-muted'' = Some (lit ''1''))"

definition init_chatAutoTranslate :: "storage option \<Rightarrow> bool" where
  "init_chatAutoTranslate st = (case st of None \<Rightarrow> True | Some f \<Rightarrow> f ''wos-chat-auto-translate'' \<noteq> Some (lit ''0''))"

definition init_personalOffsetMs :: "(jstring option \<Rightarrow> jsnum) \<Rightarrow> storage option \<Rightarrow> rat" where
  "init_personalOffsetMs parse st =
     (case st of
        None \<Rightarrow> 0
      | Some f \<Rightarrow> (case parse (f ''wos-personal-offset-ms'') of NumFin v \<Rightarrow> clamp (-1000) 1000 (js_round v) | _ \<Rightarrow> 0))"

definition THEMES :: "jstring list" where
  "THEMES = map lit [''frost'', ''spring'', ''daylight'']"

definition theme_or_frost :: "jstring option \<Rightarrow> jstring" where
  "theme_or_frost t = (case t of None \<Rightarrow> lit ''frost'' | Some s \<Rightarrow> if s \<in> set THEMES then s else lit ''frost'')"

definition init_theme :: "storage option \<Rightarrow> jstring" where
  "init_theme st = (case st of None \<Rightarrow> lit ''frost'' | Some f \<Rightarrow> theme_or_frost (f ''wos-theme''))"

record settings =
  personalOffsetMs :: rat
  ttsVolume :: rat
  ttsMuted :: bool
  theme :: jstring

definition setPersonalOffsetMs :: "jsnum \<Rightarrow> settings \<Rightarrow> settings" where
  "setPersonalOffsetMs n s =
     s\<lparr>personalOffsetMs := (case n of NumFin v \<Rightarrow> clamp (-1000) 1000 (js_round v) | _ \<Rightarrow> 0)\<rparr>"

definition setTtsVolume :: "jsnum \<Rightarrow> settings \<Rightarrow> settings" where
  "setTtsVolume n s =
     (let clamped = (case n of NumFin v \<Rightarrow> clamp 0 1 v | _ \<Rightarrow> 3 / 10)
      in s\<lparr>ttsVolume := clamped, ttsMuted := (if 0 < clamped then False else ttsMuted s)\<rparr>)"

definition setTtsMuted :: "bool \<Rightarrow> settings \<Rightarrow> settings" where
  "setTtsMuted b s = s\<lparr>ttsMuted := b\<rparr>"

definition setTheme :: "jstring option \<Rightarrow> settings \<Rightarrow> settings" where
  "setTheme t s = s\<lparr>theme := theme_or_frost t\<rparr>"

definition settings_ok :: "settings \<Rightarrow> bool" where
  "settings_ok s \<longleftrightarrow> -1000 \<le> personalOffsetMs s \<and> personalOffsetMs s \<le> 1000 \<and>
     0 \<le> ttsVolume s \<and> ttsVolume s \<le> 1 \<and> theme s \<in> set THEMES"

end
