(* ===== verification/ChatRules.thy ===== *)
theory ChatRules
  imports ChatStore
begin

text \<open>
  What the client store keeps: the chat buffer stays in order, without duplicates and within its two
  limits, a translation is found under the id it was stored for, the state of the translations never
  outlives the messages of a reload, and the settings stay in their ranges.
\<close>

subsection \<open>Objects built by spreading and updating\<close>

lemma fold_update_get:
  "map_of (fold (\<lambda>(k, v) m. AList.update k v m) kvs m) k =
     (case map_of (rev kvs) k of None \<Rightarrow> map_of m k | Some v \<Rightarrow> Some v)"
  by (induction kvs arbitrary: m) (auto simp: map_add_def split: option.splits)

lemma jm_wf_fold_update: "jm_wf m \<Longrightarrow> jm_wf (fold (\<lambda>(k, v) m. AList.update k v m) kvs m)"
  by (induction kvs arbitrary: m) auto

lemma map_of_rev_wf: "jm_wf m \<Longrightarrow> map_of (rev m) = map_of m"
  by (metis distinct_rev rev_map set_rev map_of_inject_set)

lemma js_field_spread:
  "jm_wf b \<Longrightarrow> js_field (js_spread a b) k = (if map_of b (lit k) = None then js_field a k else js_field b k)"
  by (auto simp: js_field_def js_spread_def fold_update_get map_of_rev_wf split: option.splits)

text \<open>
  The messages the server and the client build carry an \<open>id\<close> or a client-made \<open>_id\<close>; the third form
  of the key is for what carries neither.
\<close>

definition keyed :: "chat_msg \<Rightarrow> bool" where
  "keyed m \<longleftrightarrow> jm_wf m \<and> (\<not> nullish (js_field m ''id'') \<or> \<not> nullish (js_field m ''_id''))"

lemma key_first_unit:
  "keyed m \<Longrightarrow> hd (getChatMessageKey str m) = (if nullish (js_field m ''id'') then of_char CHR ''s'' else of_char CHR ''m'')"
  by (auto simp: keyed_def getChatMessageKey_def lit_def)

lemma key_spread:
  assumes "keyed a" and "keyed b" and "getChatMessageKey str a = getChatMessageKey str b"
  shows "getChatMessageKey str (js_spread a b) = getChatMessageKey str b" and "keyed (js_spread a b)"
proof -
  have wf: "jm_wf b" "jm_wf (js_spread a b)"
    using assms by (auto simp: keyed_def js_spread_def jm_wf_fold_update)
  have ids: "nullish (js_field a ''id'') \<longleftrightarrow> nullish (js_field b ''id'')"
    using assms(3) key_first_unit [OF assms(1), of str] key_first_unit [OF assms(2), of str]
    by (auto split: if_splits)
  have own: "map_of b (lit k) \<noteq> None" if "\<not> nullish (js_field b k)" for k
    using that by (auto simp: js_field_def nullish_def split: option.splits)
  note f = js_field_spread [OF wf(1), of a]
  show "getChatMessageKey str (js_spread a b) = getChatMessageKey str b" "keyed (js_spread a b)"
    using assms(2) ids own [of "''id''"] own [of "''_id''"] wf f [of "''id''"] f [of "''_id''"]
    by (auto simp: keyed_def getChatMessageKey_def)
qed

subsection \<open>Merging by key\<close>

definition buffer_ok ::
    "(chat_msg \<Rightarrow> jstring) \<Rightarrow> (chat_msg \<Rightarrow> bool) \<Rightarrow> (chat_msg \<Rightarrow> int) \<Rightarrow> chat_msg list \<Rightarrow> bool" where
  "buffer_ok key ok time ms \<longleftrightarrow> list_all ok ms \<and> distinct (map key ms) \<and> sorted (map time ms) \<and>
     length (filter (\<lambda>m. \<not> is_system m) ms) \<le> CHAT_MESSAGE_LIMIT \<and> length (filter is_system ms) \<le> CHAT_SYSTEM_LIMIT"

text \<open>What the merge relies on: messages with the same key combine to one with that key.\<close>

locale message_key =
  fixes key :: "chat_msg \<Rightarrow> jstring" and ok :: "chat_msg \<Rightarrow> bool"
  assumes spread_key: "ok a \<Longrightarrow> ok b \<Longrightarrow> key a = key b \<Longrightarrow> key (js_spread a b) = key b"
    and spread_ok: "ok a \<Longrightarrow> ok b \<Longrightarrow> key a = key b \<Longrightarrow> ok (js_spread a b)"
begin

definition by_key :: "(jstring, chat_msg) jmap \<Rightarrow> bool" where
  "by_key m \<longleftrightarrow> jm_wf m \<and> (\<forall>k v. map_of m k = Some v \<longrightarrow> key v = k \<and> ok v)"

lemma by_key_put: "by_key m \<Longrightarrow> ok v \<Longrightarrow> by_key (AList.update (key v) v m)"
  by (auto simp: by_key_def)

lemma by_key_merge: "by_key m \<Longrightarrow> ok v \<Longrightarrow> by_key (merge_one key v m)"
  by (auto simp: by_key_def merge_one_def spread_key spread_ok split: option.splits)

lemma by_key_fold:
  "by_key m \<Longrightarrow> list_all ok vs \<Longrightarrow> by_key (fold (\<lambda>v m. AList.update (key v) v m) vs m)"
  "by_key m \<Longrightarrow> list_all ok vs \<Longrightarrow> by_key (fold (merge_one key) vs m)"
  by (induction vs arbitrary: m) (auto simp: by_key_put by_key_merge)

lemma fold_keys:
  "fst ` set (fold (\<lambda>v m. AList.update (key v) v m) vs m) = fst ` set m \<union> key ` set vs"
  "fst ` set (fold (merge_one key) vs m) = fst ` set m \<union> key ` set vs"
  by (induction vs arbitrary: m) (auto simp: merge_one_def dom_update)

lemma by_key_values:
  assumes "by_key m"
  shows "map key (map snd m) = map fst m" "list_all ok (map snd m)"
proof -
  have "key v = k \<and> ok v" if "(k, v) \<in> set m" for k v
    using assms that by (auto simp: by_key_def)
  then show "map key (map snd m) = map fst m" "list_all ok (map snd m)"
    by (auto simp: list_all_iff)
qed

lemma merged_order_ok:
  assumes "list_all ok current" and "list_all ok incoming"
  shows "distinct (map key (merged_order key time current incoming))"
    and "sorted (map time (merged_order key time current incoming))"
    and "list_all ok (merged_order key time current incoming)"
    and "key ` set (merged_order key time current incoming) = key ` set current \<union> key ` set incoming"
proof -
  define m where "m = fold (merge_one key) incoming (fold (\<lambda>m byKey. AList.update (key m) m byKey) current [])"
  have o: "merged_order key time current incoming = sort_key time (map snd m)"
    by (simp add: merged_order_def m_def)
  have "by_key m" unfolding m_def using assms by (intro by_key_fold) (auto simp: by_key_def)
  note v = by_key_values [OF this]
  have "distinct (map fst m)" using \<open>by_key m\<close> by (simp add: by_key_def)
  then have "distinct (map key (map snd m))" by (simp only: v(1))
  then have d: "distinct (map snd m) \<and> inj_on key (set (map snd m))" by (rule distinct_map [THEN iffD1])
  show "distinct (map key (merged_order key time current incoming))"
    unfolding o distinct_map using d by (simp del: set_map)
  show "sorted (map time (merged_order key time current incoming))" unfolding o by simp
  show "list_all ok (merged_order key time current incoming)" unfolding o using v(2) by (simp add: list_all_iff)
  have "key ` set (map snd m) = fst ` set m" using v(1) by (metis list.set_map)
  then show "key ` set (merged_order key time current incoming) = key ` set current \<union> key ` set incoming"
    unfolding o m_def by (simp add: fold_keys)
qed

lemma slice_last_sub: "\<exists>d. xs = d @ slice_last n xs" "length (slice_last n xs) \<le> n"
  by (auto simp: slice_last_def intro: exI [of _ "take (length xs - n) xs"])

lemma filter_kept:
  assumes "distinct (map key xs)"
  shows "filter P (filter (\<lambda>m. key m \<in> set (map key (slice_last a (filter P xs)) @
      map key (slice_last b (filter (\<lambda>m. \<not> P m) xs)))) xs) = slice_last a (filter P xs)"
proof -
  obtain d where d: "filter P xs = d @ slice_last a (filter P xs)" using slice_last_sub(1) by blast
  obtain e where e: "filter (\<lambda>m. \<not> P m) xs = e @ slice_last b (filter (\<lambda>m. \<not> P m) xs)"
    using slice_last_sub(1) by blast
  define s where "s = slice_last a (filter P xs)"
  define r where "r = slice_last b (filter (\<lambda>m. \<not> P m) xs)"
  have sub: "set s \<subseteq> {m \<in> set xs. P m}" "set r \<subseteq> {m \<in> set xs. \<not> P m}"
    using arg_cong [OF d, of set] arg_cong [OF e, of set] unfolding s_def r_def by auto
  have inj: "inj_on key (set xs)" using assms by (simp add: distinct_map)
  have "key m \<in> key ` set s \<union> key ` set r \<longleftrightarrow> m \<in> set s" if "m \<in> set xs" "P m" for m
    using inj_onD [OF inj, of m] sub that by blast
  then have "filter P (filter (\<lambda>m. key m \<in> set (map key s @ map key r)) xs) = filter (\<lambda>m. m \<in> set s) (filter P xs)"
    by (auto intro!: filter_cong)
  also have "\<dots> = filter (\<lambda>m. m \<in> set s) (d @ s)" by (metis d s_def)
  also have "\<dots> = s"
  proof -
    have "distinct (filter P xs)" using assms by (simp add: distinct_map)
    then have "distinct (d @ s)" using d s_def by metis
    then have "filter (\<lambda>m. m \<in> set s) d = []" by (auto simp: filter_empty_conv)
    then show ?thesis by simp
  qed
  finally show ?thesis by (simp only: s_def r_def)
qed

lemma merge_slices:
  assumes "list_all ok current" and "list_all ok incoming"
  shows "filter (\<lambda>m. \<not> is_system m) (mergeChatMessages key time current incoming) =
      slice_last CHAT_MESSAGE_LIMIT (filter (\<lambda>m. \<not> is_system m) (merged_order key time current incoming))"
    and "filter is_system (mergeChatMessages key time current incoming) =
      slice_last CHAT_SYSTEM_LIMIT (filter is_system (merged_order key time current incoming))"
proof -
  note d = merged_order_ok(1) [OF assms, of time]
  show "filter (\<lambda>m. \<not> is_system m) (mergeChatMessages key time current incoming) =
      slice_last CHAT_MESSAGE_LIMIT (filter (\<lambda>m. \<not> is_system m) (merged_order key time current incoming))"
    using filter_kept [OF d, of "\<lambda>m. \<not> is_system m" CHAT_MESSAGE_LIMIT CHAT_SYSTEM_LIMIT]
    by (simp add: mergeChatMessages_def Let_def)
  show "filter is_system (mergeChatMessages key time current incoming) =
      slice_last CHAT_SYSTEM_LIMIT (filter is_system (merged_order key time current incoming))"
    using filter_kept [OF d, of is_system CHAT_SYSTEM_LIMIT CHAT_MESSAGE_LIMIT]
    by (simp add: mergeChatMessages_def Let_def Un_commute disj_commute)
qed

lemma merge_buffer:
  assumes "list_all ok current" and "list_all ok incoming"
  shows "buffer_ok key ok time (mergeChatMessages key time current incoming)"
proof -
  note o = merged_order_ok [OF assms, of time]
  obtain Q where q: "mergeChatMessages key time current incoming = filter Q (merged_order key time current incoming)"
    by (auto simp: mergeChatMessages_def Let_def)
  have "distinct (map key (filter Q (merged_order key time current incoming)))" by (rule distinct_map_filter [OF o(1)])
  moreover have "sorted (map time (filter Q (merged_order key time current incoming)))" by (rule sorted_filter [OF o(2)])
  ultimately show ?thesis unfolding buffer_ok_def merge_slices [OF assms] using o(3) slice_last_sub(2)
    by (auto simp: q list_all_iff)
qed

end

interpretation chat: message_key "getChatMessageKey str" keyed for str
  by unfold_locales (rule key_spread; assumption)+

subsection \<open>Translations\<close>

definition tr_lookup :: "translation_map \<Rightarrow> jstring \<Rightarrow> jstring \<Rightarrow> jstring option" where
  "tr_lookup m i lang = (case map_of m i of None \<Rightarrow> None | Some e \<Rightarrow> map_of e lang)"

lemma merge_translation_lookup:
  "tr_lookup (merge_translation str e m) i lang =
     (case (if i = str (fst e) then map_of (rev (string_entries (snd e))) lang else None) of
        None \<Rightarrow> tr_lookup m i lang | Some t \<Rightarrow> Some t)"
  by (auto simp: tr_lookup_def merge_translation_def Let_def fold_update_get split: option.splits)

text \<open>The last of the texts given for an id and a language, in the order of the entries.\<close>

fun given_text :: "(jsval \<Rightarrow> jstring) \<Rightarrow> (jsval \<times> jsval) list \<Rightarrow> jstring \<Rightarrow> jstring \<Rightarrow> jstring option" where
  "given_text str [] i lang = None"
| "given_text str (e # es) i lang =
     (case given_text str es i lang of
        Some t \<Rightarrow> Some t
      | None \<Rightarrow> if i = str (fst e) then map_of (rev (string_entries (snd e))) lang else None)"

lemma mergeTranslationMap_lookup:
  "tr_lookup (mergeTranslationMap str m es) i lang =
     (case given_text str es i lang of None \<Rightarrow> tr_lookup m i lang | Some t \<Rightarrow> Some t)"
  unfolding mergeTranslationMap_def
  by (induction es arbitrary: m) (auto simp: merge_translation_lookup split: option.splits)

lemma map_of_filter_keys: "map_of (filter (\<lambda>(k, v). k \<in> A) m) k = (if k \<in> A then map_of m k else None)"
  by (induction m) auto

lemma prune_lookup:
  "tr_lookup (chatTranslations (pruneTranslationState str ms s)) i lang =
     (if i \<in> set (alive_ids str ms) then tr_lookup (chatTranslations s) i lang else None)"
  by (simp add: tr_lookup_def pruneTranslationState_def Let_def map_of_filter_keys)

lemma prune_alive:
  "fst ` set (chatTranslations (pruneTranslationState str ms s)) \<subseteq> set (alive_ids str ms)"
  "set (chatTranslationPending (pruneTranslationState str ms s)) = set (chatTranslationPending s) \<inter> set (alive_ids str ms)"
  "set (chatTranslationFailed (pruneTranslationState str ms s)) = set (chatTranslationFailed s) \<inter> set (alive_ids str ms)"
  by (auto simp: pruneTranslationState_def Let_def)

lemma prune_messages [simp]: "chatMessages (pruneTranslationState str ms s) = chatMessages s"
  by (simp add: pruneTranslationState_def Let_def)

subsection \<open>The actions of the store\<close>

datatype chat_op =
    OpHistory "chat_msg list"
  | OpAppend chat_msg
  | OpTranslations jsval jsval
  | OpTranslationsBulk "(jsval \<times> jsval) list"
  | OpPending "jstring list"
  | OpClearPending "jstring list option"
  | OpFailed "jstring list"
  | OpClearFailed jstring
  | OpReset
  | OpPrune
  | OpClearUser

definition chat_exec ::
    "(jsval \<Rightarrow> jstring) \<Rightarrow> (chat_msg \<Rightarrow> int) \<Rightarrow> chat_op \<Rightarrow> chat_store \<Rightarrow> chat_store" where
  "chat_exec str time op s =
     (case op of
        OpHistory ms \<Rightarrow> setChatHistory str time ms s
      | OpAppend m \<Rightarrow> appendChatMessage str time m s
      | OpTranslations i m \<Rightarrow> mergeChatTranslations str i m s
      | OpTranslationsBulk es \<Rightarrow> mergeChatTranslationsBulk str es s
      | OpPending ids \<Rightarrow> markTranslationPending ids s
      | OpClearPending ids \<Rightarrow> clearTranslationPending ids s
      | OpFailed ids \<Rightarrow> markTranslationFailed ids s
      | OpClearFailed i \<Rightarrow> clearTranslationFailed i s
      | OpReset \<Rightarrow> resetTranslationStatus s
      | OpPrune \<Rightarrow> pruneChatTranslations str s
      | OpClearUser \<Rightarrow> clearUser_chat s)"

fun op_keyed :: "chat_op \<Rightarrow> bool" where
  "op_keyed (OpHistory ms) = list_all keyed ms"
| "op_keyed (OpAppend m) = keyed m"
| "op_keyed _ = True"

lemma keyed_delete: "keyed m \<Longrightarrow> keyed (AList.delete (lit ''translations'') m)"
  by (auto simp: keyed_def js_field_def)

lemma split_keyed: "list_all keyed ms \<Longrightarrow> list_all keyed (fst (splitTranslations ms))"
  by (auto simp: splitTranslations_def list_all_iff keyed_delete)

lemma history_messages:
  "chatMessages (setChatHistory str time ms s) =
     mergeChatMessages (getChatMessageKey str) time (chatMessages s) (fst (splitTranslations ms))"
  by (simp add: setChatHistory_def Let_def split: prod.splits)

lemma history_buffer:
  "buffer_ok (getChatMessageKey str) keyed time (chatMessages s) \<Longrightarrow> list_all keyed ms \<Longrightarrow>
   buffer_ok (getChatMessageKey str) keyed time (chatMessages (setChatHistory str time ms s))"
  unfolding history_messages by (rule chat.merge_buffer) (auto simp: buffer_ok_def split_keyed)

lemma exec_buffer:
  assumes "buffer_ok (getChatMessageKey str) keyed time (chatMessages s)" and "op_keyed op"
  shows "buffer_ok (getChatMessageKey str) keyed time (chatMessages (chat_exec str time op s))"
proof (cases op)
  case (OpHistory ms)
  then show ?thesis using assms history_buffer by (simp add: chat_exec_def)
next
  case (OpAppend m)
  then show ?thesis using assms history_buffer [of str time s "[m]"] by (simp add: chat_exec_def appendChatMessage_def)
next
  case OpClearUser
  then show ?thesis by (simp add: chat_exec_def clearUser_chat_def buffer_ok_def)
qed (use assms in \<open>simp_all add: chat_exec_def mergeChatTranslations_def mergeChatTranslationsBulk_def
      markTranslationPending_def clearTranslationPending_def markTranslationFailed_def clearTranslationFailed_def
      resetTranslationStatus_def pruneChatTranslations_def\<close>)

lemma run_buffer:
  "buffer_ok (getChatMessageKey str) keyed time (chatMessages s) \<Longrightarrow> list_all op_keyed ops \<Longrightarrow>
   buffer_ok (getChatMessageKey str) keyed time (chatMessages (fold (chat_exec str time) ops s))"
  by (induction ops arbitrary: s) (auto simp: exec_buffer)

lemma chat_exec_history:
  assumes "op = OpHistory ms \<or> (\<exists>m. op = OpAppend m \<and> ms = [m])"
  shows "chat_exec str time op s = setChatHistory str time ms s"
  using assms by (auto simp: chat_exec_def appendChatMessage_def)

subsection \<open>Rally groups\<close>

lemma upsert_group_lookup: "map_of (upsert_group g gs) i = (if i = fst g then Some (snd g) else map_of gs i)"
  by (induction gs) auto

lemma upsert_group_keys:
  "map fst (upsert_group g gs) = (if fst g \<in> set (map fst gs) then map fst gs else map fst gs @ [fst g])"
  by (induction gs) auto

subsection \<open>Settings\<close>

lemma clamp_range: "lo \<le> hi \<Longrightarrow> lo \<le> clamp lo hi x \<and> clamp lo hi x \<le> hi"
  by (simp add: clamp_def)

datatype setting_op = SetOffset jsnum | SetVolume jsnum | SetMuted bool | SetTheme "jstring option"

fun setting_exec :: "setting_op \<Rightarrow> settings \<Rightarrow> settings" where
  "setting_exec (SetOffset n) = setPersonalOffsetMs n"
| "setting_exec (SetVolume n) = setTtsVolume n"
| "setting_exec (SetMuted b) = setTtsMuted b"
| "setting_exec (SetTheme t) = setTheme t"

definition init_settings :: "(jstring option \<Rightarrow> jsnum) \<Rightarrow> storage option \<Rightarrow> settings" where
  "init_settings parse st = \<lparr>personalOffsetMs = init_personalOffsetMs parse st, ttsVolume = init_ttsVolume parse st,
     ttsMuted = init_ttsMuted st, theme = init_theme st\<rparr>"

lemma theme_or_frost_known: "theme_or_frost t \<in> set THEMES"
  by (auto simp: theme_or_frost_def THEMES_def split: option.splits)

lemma init_settings_ok: "settings_ok (init_settings parse st)"
proof -
  have "lit ''frost'' \<in> set THEMES" by (simp add: THEMES_def)
  then show ?thesis
    using clamp_range [of "-1000" 1000] clamp_range [of 0 1]
    by (auto simp: settings_ok_def init_settings_def init_personalOffsetMs_def init_ttsVolume_def init_theme_def
        theme_or_frost_known split: option.splits jsnum.splits)
qed

lemma setting_exec_ok: "settings_ok s \<Longrightarrow> settings_ok (setting_exec op s)"
  using clamp_range [of "-1000" 1000] clamp_range [of 0 1]
  by (cases op) (auto simp: settings_ok_def setPersonalOffsetMs_def setTtsVolume_def setTtsMuted_def setTheme_def
      theme_or_frost_known Let_def split: jsnum.splits)

lemma settings_run_ok: "settings_ok (fold setting_exec ops (init_settings parse st))"
proof -
  have "settings_ok s \<Longrightarrow> settings_ok (fold setting_exec ops s)" for s
    by (induction ops arbitrary: s) (simp_all add: setting_exec_ok)
  then show ?thesis by (simp add: init_settings_ok)
qed

text \<open>Raising the volume from silence unmutes; setting it to zero leaves the switch as it is.\<close>

lemma volume_unmutes: "0 < ttsVolume (setTtsVolume n s) \<Longrightarrow> \<not> ttsMuted (setTtsVolume n s)"
  by (simp add: setTtsVolume_def Let_def)

end
