(* ===== verification/ChatProperties.thy ===== *)
theory ChatProperties
  imports ChatRules
begin

text \<open>The properties of the chat window and of the client store, each with a concrete instance.\<close>

subsection \<open>The buffer of messages\<close>

text \<open>
  Property C12. Whatever the server sends and the window does, in any order, the chat buffer never holds
  two messages with the same key, is sorted by time, and holds at most 500 messages of people and 50
  of the system.
\<close>

theorem chat_buffer_bounded:
  assumes "list_all op_keyed ops"
  shows "buffer_ok (getChatMessageKey str) keyed time
    (chatMessages (fold (chat_exec str time) ops (clearUser_chat s)))"
  by (rule run_buffer [OF _ assms]) (simp add: clearUser_chat_def buffer_ok_def)

definition ex_str :: "jsval \<Rightarrow> jstring" where
  "ex_str v = (case v of JStr s \<Rightarrow> s | _ \<Rightarrow> [])"

definition ex_msg :: "string \<Rightarrow> string \<Rightarrow> chat_msg" where
  "ex_msg i c = [(lit ''id'', JStr (lit i)), (lit ''content'', JStr (lit c))]"

lemma ex_msg_keyed: "keyed (ex_msg i c)"
  by (simp add: keyed_def ex_msg_def js_field_def nullish_def)

theorem chat_buffer_bounded_witness:
  "buffer_ok (getChatMessageKey ex_str) keyed (\<lambda>m. 0)
     (chatMessages (fold (chat_exec ex_str (\<lambda>m. 0)) [OpAppend (ex_msg ''1'' ''a''), OpHistory [ex_msg ''1'' ''b'', ex_msg ''2'' ''c'']]
        (clearUser_chat \<lparr>chatMessages = [], chatTranslations = [], chatTranslationPending = [], chatTranslationFailed = []\<rparr>)))"
  by (rule chat_buffer_bounded) (simp add: ex_msg_keyed)

text \<open>
  A merge keeps the newest: of all messages old and new, one for each key, sorted by time,
  the last 500 of people and the last 50 of the system, so a burst of system messages cannot push a
  conversation out; and a key gets into the merge exactly when one of the two lists has it.
\<close>

theorem newest_kept:
  assumes "list_all keyed current" and "list_all keyed incoming"
  shows "filter (\<lambda>m. \<not> is_system m) (mergeChatMessages (getChatMessageKey str) time current incoming) =
      slice_last 500 (filter (\<lambda>m. \<not> is_system m) (merged_order (getChatMessageKey str) time current incoming)) \<and>
    filter is_system (mergeChatMessages (getChatMessageKey str) time current incoming) =
      slice_last 50 (filter is_system (merged_order (getChatMessageKey str) time current incoming)) \<and>
    sorted (map time (merged_order (getChatMessageKey str) time current incoming)) \<and>
    getChatMessageKey str ` set (merged_order (getChatMessageKey str) time current incoming) =
      getChatMessageKey str ` set current \<union> getChatMessageKey str ` set incoming"
  using chat.merge_slices [OF assms, where str = str and time = time] chat.merged_order_ok(2, 4) [OF assms, where str = str and time = time]
  by (simp add: CHAT_MESSAGE_LIMIT_def CHAT_SYSTEM_LIMIT_def)

theorem newest_kept_witness:
  "getChatMessageKey ex_str ` set (merged_order (getChatMessageKey ex_str) (\<lambda>m. 0) [ex_msg ''1'' ''a''] [ex_msg ''2'' ''b'']) =
     {lit ''message:1'', lit ''message:2''}"
proof -
  have k: "list_all keyed [ex_msg ''1'' ''a'']" "list_all keyed [ex_msg ''2'' ''b'']" by (simp_all add: ex_msg_keyed)
  have "getChatMessageKey ex_str (ex_msg i c) = lit ''message:'' @ lit i" for i c
    by (simp add: getChatMessageKey_def ex_msg_def js_field_def nullish_def ex_str_def)
  then show ?thesis
    using newest_kept [OF k, of ex_str "\<lambda>m. 0"] by (simp flip: lit_append add: insert_commute)
qed

subsection \<open>Translations\<close>

text \<open>
  After a reload the translation of a message into a language is the last one the reload
  gave for it, or the one known before if it gave none, as long as the message is still in the buffer;
  for a message that has left the buffer nothing is kept, nor is it waiting or marked as failed.
\<close>

theorem translation_after_history:
  "tr_lookup (chatTranslations (setChatHistory str time ms s)) i lang =
     (if i \<in> set (alive_ids str (chatMessages (setChatHistory str time ms s)))
      then (case given_text str (snd (splitTranslations ms)) i lang of
              None \<Rightarrow> tr_lookup (chatTranslations s) i lang | Some t \<Rightarrow> Some t)
      else None) \<and>
   set (chatTranslationPending (setChatHistory str time ms s)) =
     set (chatTranslationPending s) \<inter> set (alive_ids str (chatMessages (setChatHistory str time ms s))) \<and>
   set (chatTranslationFailed (setChatHistory str time ms s)) =
     set (chatTranslationFailed s) \<inter> set (alive_ids str (chatMessages (setChatHistory str time ms s)))"
proof -
  obtain ks es where sp: "splitTranslations ms = (ks, es)" by (cases "splitTranslations ms") auto
  define merged where "merged = mergeChatMessages (getChatMessageKey str) time (chatMessages s) ks"
  have h: "setChatHistory str time ms s = pruneTranslationState str merged
      (s\<lparr>chatMessages := merged, chatTranslations := mergeTranslationMap str (chatTranslations s) es\<rparr>)"
    by (simp add: setChatHistory_def sp merged_def Let_def)
  then have "chatMessages (setChatHistory str time ms s) = merged" by simp
  then show ?thesis unfolding h by (simp add: prune_lookup prune_alive mergeTranslationMap_lookup sp)
qed

subsection \<open>Who came and who went\<close>

text \<open>
  However the lists of online users arrive and however often the timer fires, a report of
  the tracker names exactly the net change since the last one: who is online now and was not then as
  joined, who was then and is not now as left; when the two sets are equal nothing is reported.
\<close>

theorem online_net_change:
  assumes "tracker_run w ops ({}, tracker_initial) = (base, t)" and "ot_known t = Some known"
  shows "(set known = base \<longrightarrow> ot_flushed (tracker_flush t) = ot_flushed t) \<and>
    (set known \<noteq> base \<longrightarrow> ot_timer t \<noteq> None \<and>
      (\<exists>d. ot_flushed (tracker_flush t) = ot_flushed t @ [d] \<and>
         set (joined d) = set known - base \<and> set (left d) = base - set known))"
proof -
  have "tracker_ok (fst (tracker_run w ops ({}, tracker_initial))) (snd (tracker_run w ops ({}, tracker_initial)))"
    by (rule tracker_run_ok) (simp add: tracker_initial_ok)
  then have net: "tracker_net base t" by (simp add: assms tracker_ok_def)
  have "ot_timer t \<noteq> None" if "set known \<noteq> base"
  proof -
    have "ot_joined t \<noteq> [] \<or> ot_left t \<noteq> []" using net assms(2) that by (auto simp: tracker_net_def)
    with net show ?thesis by (simp add: tracker_net_def)
  qed
  then show ?thesis using flush_silent [OF net assms(2)] flush_reports [OF net assms(2)] by blast
qed

theorem online_net_change_witness:
  "\<exists>base t. tracker_run 2000 [TrUpdate 0 (JArr [JStr [65], JStr [66]]), TrUpdate 10 (JArr [JStr [66], JStr [67]])]
      ({}, tracker_initial) = (base, t) \<and>
    (\<exists>d. ot_flushed (tracker_flush t) = ot_flushed t @ [d] \<and> set (joined d) = {[67]} \<and> set (left d) = {[65]})"
proof -
  obtain base t where r: "tracker_run 2000 [TrUpdate 0 (JArr [JStr [65], JStr [66]]), TrUpdate 10 (JArr [JStr [66], JStr [67]])]
      ({}, tracker_initial) = (base, t)" by (metis surj_pair)
  have n: "nicknameSet (JArr [JStr a, JStr b]) = [a, b]" if "a \<noteq> []" "b \<noteq> []" "a \<noteq> b" for a b
    using that by (simp add: nicknameSet_def nicknameOf_def set_add_def)
  have "base = {[65], [66]} \<and> ot_known t = Some [[66], [67]]"
    using r by (auto simp: tracker_base_def tracker_exec_def tracker_known_update n tracker_initial_def)
  then have k: "ot_known t = Some [[66], [67]]" and b: "base = {[65], [66]}" by simp_all
  have "[67] \<in> set [[66], [67]]" "[67] \<notin> base" by (simp_all add: b)
  then have "set [[66], [67]] \<noteq> base" by metis
  then obtain d where d: "ot_flushed (tracker_flush t) = ot_flushed t @ [d]"
      "set (joined d) = set [[66], [67]] - base" "set (left d) = base - set [[66], [67]]"
    using online_net_change [OF r k] by blast
  have "set [[66], [67]] - base = {[67]}" "base - set [[66], [67]] = {[65]}" by (simp_all add: b insert_Diff_if)
  with r d show ?thesis by metis
qed

subsection \<open>The script of a text\<close>


definition ex_classes :: script_classes where
  "ex_classes = \<lparr>is_hangul = w_hangul, is_kana = w_kana, is_han = w_han, is_cyrillic = w_cyrillic, is_latin = w_latin,
     is_letter = (\<lambda>c. w_hangul c \<or> w_kana c \<or> w_han c \<or> w_cyrillic c \<or> w_latin c \<or> c = 0x3B1)\<rparr>"


text \<open>
  On a text whose letters are all of other scripts, Greek for instance, the two differ:
  to the server it is mixed, to the client it has no script, so the client never asks for its
  translation although the server would translate it.
\<close>

theorem scripts_differ:
  assumes "list_ex (is_letter cl) (code_points text)"
    and "\<forall>c\<in>set (code_points text). \<not> is_hangul cl c \<and> \<not> is_kana cl c \<and> \<not> is_han cl c \<and> \<not> is_cyrillic cl c \<and> \<not> is_latin cl c"
    and "\<forall>c\<in>set (code_points text). \<not> w_hangul c \<and> \<not> w_kana c \<and> \<not> w_han c \<and> \<not> w_cyrillic c \<and> \<not> w_latin c"
  shows "detectScript cl text = ScMixed \<and> web_detectScript text = ScNone"
  using other_letters [OF assms] by simp

theorem scripts_differ_witness: "detectScript ex_classes [0x3B1] = ScMixed \<and> web_detectScript [0x3B1] = ScNone"
  by (rule scripts_differ) (simp_all add: ex_classes_def w_classes)

end
