(* ===== verification/TranslationSync.thy ===== *)
theory TranslationSync
  imports ChatRules
begin

text \<open>
  The translation synchroniser of the client, \<open>web/src/chat/translationSync.js\<close>: it waits for the
  translations the server pushes and asks for the missing ones in batches. \<open>str\<close> is \<open>String\<close>. A timer
  is its due time with what its closure holds; a request carries a number, which is its identity in
  \<open>inFlight === request\<close>. The promise of a request settles in one step (\<open>onAnswer\<close>): its callbacks
  follow each other without any other handler in between. Aborting the controller happens only
  together with clearing \<open>inFlight\<close>, so a request that is still in flight has not been aborted.
  \<open>ts_requests\<close> and \<open>ts_reported\<close> log the calls of \<open>translateBatch\<close> and \<open>emitLanguage\<close>.
\<close>

definition PUSH_WAIT_MS :: millis where "PUSH_WAIT_MS = 15000"
definition HISTORY_FIRST_BATCH_DELAY_MS :: millis where "HISTORY_FIRST_BATCH_DELAY_MS = 1000"
definition HISTORY_FIRST_BATCH_COUNT :: nat where "HISTORY_FIRST_BATCH_COUNT = 50"
definition BATCH_MAX_ITEMS :: nat where "BATCH_MAX_ITEMS = 20"
definition BATCH_MAX_CHARS :: nat where "BATCH_MAX_CHARS = 2000"
definition BATCH_MIN_INTERVAL_MS :: millis where "BATCH_MIN_INTERVAL_MS = 1000"
definition RETRY_DELAYS_MS :: "millis list" where "RETRY_DELAYS_MS = [10000, 30000]"

type_synonym sync_item = "jsval \<times> jstring"

record sync_request =
  rq_no :: nat
  rq_at :: millis
  rq_lang :: string
  rq_items :: "sync_item list"

record tsync =
  myLang :: "string option"
  autoTranslate :: bool
  ts_connected :: bool
  ts_disposed :: bool
  pushWait :: "(jstring, millis \<times> jsval) jmap"
  retryTimers :: "(jstring, millis \<times> jsval) jmap"
  ts_attempts :: "(jstring, nat) jmap"
  candidates :: "jsval list"
  candidateSet :: "jstring list"
  inFlight :: "sync_request option"
  batchTimer :: "millis option"
  lastRequestAt :: "millis option"
  ts_store :: chat_store
  ts_requests :: "sync_request list"
  ts_reported :: "string option list"

definition createTranslationSync :: "chat_store \<Rightarrow> tsync" where
  "createTranslationSync st =
     \<lparr>myLang = None, autoTranslate = False, ts_connected = False, ts_disposed = False, pushWait = [], retryTimers = [],
      ts_attempts = [], candidates = [], candidateSet = [], inFlight = None, batchTimer = None, lastRequestAt = None,
      ts_store = st, ts_requests = [], ts_reported = []\<rparr>"

abbreviation on_store :: "(chat_store \<Rightarrow> chat_store) \<Rightarrow> tsync \<Rightarrow> tsync" where
  "on_store f s \<equiv> s\<lparr>ts_store := f (ts_store s)\<rparr>"

subsection \<open>Which messages are candidates\<close>

definition messageById :: "(jsval \<Rightarrow> jstring) \<Rightarrow> jsval \<Rightarrow> tsync \<Rightarrow> chat_msg option" where
  "messageById str i s =
     find (\<lambda>m. \<not> is_system m \<and> \<not> nullish (js_field m ''id'') \<and> str (js_field m ''id'') = str i)
       (chatMessages (ts_store s))"

definition lang_key :: "tsync \<Rightarrow> jstring" where
  "lang_key s = lit (case myLang s of None \<Rightarrow> ''null'' | Some l \<Rightarrow> l)"

definition hasMine :: "jstring \<Rightarrow> tsync \<Rightarrow> bool" where
  "hasMine k s \<longleftrightarrow> tr_lookup (chatTranslations (ts_store s)) k (lang_key s) \<noteq> None"

definition eligible :: "(jsval \<Rightarrow> jstring) \<Rightarrow> tsync \<Rightarrow> chat_msg option \<Rightarrow> bool" where
  "eligible str s message =
     (case message of
        None \<Rightarrow> False
      | Some m \<Rightarrow>
          if is_system m \<or> nullish (js_field m ''id'') then False
          else (let text = (if nullish (js_field m ''content'') then [] else str (js_field m ''content''))
                in if web_detectScript text = ScNone then False
                   else if web_unambiguousLang text = myLang s then False
                   else \<not> hasMine (str (js_field m ''id'')) s))"

definition clearWait :: "jstring \<Rightarrow> tsync \<Rightarrow> tsync" where
  "clearWait k s = s\<lparr>pushWait := AList.delete k (pushWait s)\<rparr>"

definition clearRetry :: "jstring \<Rightarrow> tsync \<Rightarrow> tsync" where
  "clearRetry k s = s\<lparr>retryTimers := AList.delete k (retryTimers s)\<rparr>"

definition removeCandidate :: "(jsval \<Rightarrow> jstring) \<Rightarrow> jstring \<Rightarrow> tsync \<Rightarrow> tsync" where
  "removeCandidate str k s =
     (if k \<notin> set (candidateSet s) then s
      else s\<lparr>candidateSet := removeAll k (candidateSet s), candidates := filter (\<lambda>c. str c \<noteq> k) (candidates s)\<rparr>)"

subsection \<open>Batches\<close>

fun takeBatch ::
    "(jsval \<Rightarrow> jstring) \<Rightarrow> jsval list \<Rightarrow> sync_item list \<Rightarrow> nat \<Rightarrow> tsync \<Rightarrow> sync_item list \<times> tsync" where
  "takeBatch str [] items chars s = (items, s\<lparr>candidates := []\<rparr>)"
| "takeBatch str (i # cs) items chars s =
     (case messageById str i s of
        None \<Rightarrow> takeBatch str cs items chars
          (on_store (clearTranslationPending (Some [str i])) (s\<lparr>candidateSet := removeAll (str i) (candidateSet s)\<rparr>))
      | Some m \<Rightarrow>
          if \<not> eligible str s (Some m)
          then takeBatch str cs items chars
            (on_store (clearTranslationPending (Some [str i])) (s\<lparr>candidateSet := removeAll (str i) (candidateSet s)\<rparr>))
          else (let text = str (js_field m ''content'')
                in if items \<noteq> [] \<and> (BATCH_MAX_ITEMS \<le> length items \<or> BATCH_MAX_CHARS < chars + length text)
                   then (items, s\<lparr>candidates := i # cs\<rparr>)
                   else takeBatch str cs (items @ [(js_field m ''id'', text)]) (chars + length text)
                          (s\<lparr>candidateSet := removeAll (str i) (candidateSet s)\<rparr>)))"

definition runBatch :: "(jsval \<Rightarrow> jstring) \<Rightarrow> millis \<Rightarrow> tsync \<Rightarrow> tsync" where
  "runBatch str now s =
     (if ts_disposed s \<or> inFlight s \<noteq> None \<or> \<not> autoTranslate s then s
      else (case myLang s of
              None \<Rightarrow> s
            | Some lang \<Rightarrow>
                (let (items, s1) = takeBatch str (candidates s) [] 0 s
                 in if items = [] then s1
                    else (let request = \<lparr>rq_no = length (ts_requests s1), rq_at = now, rq_lang = lang, rq_items = items\<rparr>
                          in s1\<lparr>inFlight := Some request, lastRequestAt := Some now,
                                ts_requests := ts_requests s1 @ [request]\<rparr>))))"

definition batch_at :: "millis \<Rightarrow> millis \<Rightarrow> tsync \<Rightarrow> millis" where
  "batch_at now delayMs s =
     (case lastRequestAt s of
        None \<Rightarrow> now + delayMs
      | Some t \<Rightarrow> max (now + delayMs) (t + BATCH_MIN_INTERVAL_MS))"

definition scheduleBatch :: "(jsval \<Rightarrow> jstring) \<Rightarrow> millis \<Rightarrow> millis \<Rightarrow> tsync \<Rightarrow> tsync" where
  "scheduleBatch str now delayMs s =
     (if ts_disposed s \<or> inFlight s \<noteq> None \<or> candidates s = [] then s
      else (let due = batch_at now delayMs s
            in if (case batchTimer s of None \<Rightarrow> False | Some t \<Rightarrow> t \<le> due) then s
               else if due \<le> now then runBatch str now (s\<lparr>batchTimer := None\<rparr>)
               else s\<lparr>batchTimer := Some due\<rparr>))"

definition in_flight_keys :: "(jsval \<Rightarrow> jstring) \<Rightarrow> tsync \<Rightarrow> jstring set" where
  "in_flight_keys str s = (case inFlight s of None \<Rightarrow> {} | Some r \<Rightarrow> set (map (str \<circ> fst) (rq_items r)))"

definition enqueue_one :: "(jsval \<Rightarrow> jstring) \<Rightarrow> jsval \<Rightarrow> tsync \<times> jsval list \<Rightarrow> tsync \<times> jsval list" where
  "enqueue_one str i sf =
     (let s = fst sf; k = str i
      in if k \<in> set (candidateSet s) then sf
         else if k \<in> in_flight_keys str s then sf
         else (case messageById str i s of
                 None \<Rightarrow> sf
               | Some m \<Rightarrow>
                   if \<not> eligible str s (Some m) then sf
                   else (let s1 = clearWait k s; mid = js_field m ''id''
                         in (s1\<lparr>candidateSet := candidateSet s1 @ [k], candidates := candidates s1 @ [mid]\<rparr>,
                             snd sf @ [mid]))))"

definition enqueue :: "(jsval \<Rightarrow> jstring) \<Rightarrow> millis \<Rightarrow> jsval list \<Rightarrow> millis \<Rightarrow> tsync \<Rightarrow> tsync" where
  "enqueue str now ids delayMs s =
     (if ts_disposed s \<or> \<not> autoTranslate s \<or> myLang s = None then s
      else (let (s1, fresh) = fold (enqueue_one str) ids (s, [])
            in if fresh = [] then s1
               else scheduleBatch str now delayMs (on_store (markTranslationPending (map str fresh)) s1)))"

subsection \<open>Answers and retries\<close>

record batch_response =
  br_translated :: "(jstring \<times> jsval) list"
  br_failed :: "jsval list"

text \<open>An error knows whether its status is 429 and the finite \<open>retryAfterMs\<close> it may carry.\<close>

datatype batch_outcome = BatchOk batch_response | BatchError bool "millis option"

definition scheduleReenqueue :: "(jsval \<Rightarrow> jstring) \<Rightarrow> millis \<Rightarrow> jsval \<Rightarrow> millis \<Rightarrow> tsync \<Rightarrow> tsync" where
  "scheduleReenqueue str now i delayMs s =
     (let s1 = clearRetry (str i) s
      in s1\<lparr>retryTimers := AList.update (str i) (now + delayMs, i) (retryTimers s1)\<rparr>)"

definition attempts_of :: "jstring \<Rightarrow> tsync \<Rightarrow> nat" where
  "attempts_of k s = (case map_of (ts_attempts s) k of None \<Rightarrow> 0 | Some n \<Rightarrow> n)"

definition schedule_retry :: "(jsval \<Rightarrow> jstring) \<Rightarrow> millis \<Rightarrow> millis option \<Rightarrow> jsval \<Rightarrow> tsync \<Rightarrow> tsync" where
  "schedule_retry str now delayOverride i s =
     (let k = str i; n = attempts_of k s
      in if length RETRY_DELAYS_MS \<le> n
         then on_store (markTranslationFailed [k]) (s\<lparr>ts_attempts := AList.delete k (ts_attempts s)\<rparr>)
         else scheduleReenqueue str now i (case delayOverride of None \<Rightarrow> RETRY_DELAYS_MS ! n | Some d \<Rightarrow> d)
                (s\<lparr>ts_attempts := AList.update k (n + 1) (ts_attempts s)\<rparr>))"

definition scheduleRetries :: "(jsval \<Rightarrow> jstring) \<Rightarrow> millis \<Rightarrow> jsval list \<Rightarrow> millis option \<Rightarrow> tsync \<Rightarrow> tsync" where
  "scheduleRetries str now ids delayOverride s = fold (schedule_retry str now delayOverride) ids s"

definition settle ::
    "(jsval \<Rightarrow> jstring) \<Rightarrow> millis \<Rightarrow> sync_item list \<Rightarrow> batch_response \<Rightarrow> string \<Rightarrow> tsync \<Rightarrow> tsync" where
  "settle str now items response lang s =
     (let ids = map fst items;
          text = (\<lambda>i. case map_of (br_translated response) (str i) of Some (JStr t) \<Rightarrow> Some t | _ \<Rightarrow> None);
          failed = set (map str (br_failed response));
          entries = concat (map (\<lambda>i. case text i of Some t \<Rightarrow> [(i, JObj [(lit lang, JStr t)])] | None \<Rightarrow> []) ids);
          failedIds = filter (\<lambda>i. text i = None \<and> str i \<in> failed) ids;
          done = filter (\<lambda>i. text i \<noteq> None \<or> str i \<notin> failed) ids;
          s1 = (if entries \<noteq> [] then on_store (mergeChatTranslationsBulk str entries) s else s);
          s2 = (if done \<noteq> []
                then (on_store (clearTranslationPending (Some (map str done))) s1)
                       \<lparr>ts_attempts := fold (\<lambda>i. AList.delete (str i)) done (ts_attempts s1)\<rparr>
                else s1)
      in scheduleRetries str now failedIds None s2)"

definition batch_fail :: "(jsval \<Rightarrow> jstring) \<Rightarrow> millis \<Rightarrow> sync_item list \<Rightarrow> bool \<Rightarrow> millis option \<Rightarrow> tsync \<Rightarrow> tsync" where
  "batch_fail str now items is429 retryAfter s =
     (if is429 then scheduleRetries str now (map fst items)
                      (Some (case retryAfter of Some d \<Rightarrow> d | None \<Rightarrow> RETRY_DELAYS_MS ! 0)) s
      else scheduleRetries str now (map fst items) None s)"

definition onAnswer :: "(jsval \<Rightarrow> jstring) \<Rightarrow> millis \<Rightarrow> nat \<Rightarrow> batch_outcome \<Rightarrow> tsync \<Rightarrow> tsync" where
  "onAnswer str now n outcome s =
     (case inFlight s of
        None \<Rightarrow> s
      | Some r \<Rightarrow>
          if rq_no r \<noteq> n then s
          else (let s1 = (case outcome of
                            BatchOk response \<Rightarrow> settle str now (rq_items r) response (rq_lang r) s
                          | BatchError is429 retryAfter \<Rightarrow> batch_fail str now (rq_items r) is429 retryAfter s)
                in scheduleBatch str now 0 (s1\<lparr>inFlight := None\<rparr>)))"

subsection \<open>The public operations\<close>

definition scanStore :: "(jsval \<Rightarrow> jstring) \<Rightarrow> millis \<Rightarrow> millis \<Rightarrow> tsync \<Rightarrow> tsync" where
  "scanStore str now delayMs s =
     (if \<not> autoTranslate s \<or> myLang s = None then s
      else enqueue str now
             (map (\<lambda>m. js_field m ''id'')
               (slice_last HISTORY_FIRST_BATCH_COUNT
                 (filter (\<lambda>m. eligible str s (Some m)) (chatMessages (ts_store s))))) delayMs s)"

definition resetWork :: "tsync \<Rightarrow> tsync" where
  "resetWork s = s\<lparr>pushWait := [], retryTimers := [], ts_attempts := [], batchTimer := None, inFlight := None,
     candidates := [], candidateSet := []\<rparr>"

definition report_lang :: "tsync \<Rightarrow> tsync" where
  "report_lang s = s\<lparr>ts_reported := ts_reported s @ [if autoTranslate s then myLang s else None]\<rparr>"

definition onConnect :: "(jsval \<Rightarrow> jstring) \<Rightarrow> millis \<Rightarrow> string option \<Rightarrow> bool \<Rightarrow> tsync \<Rightarrow> tsync" where
  "onConnect str now lang on s =
     (if ts_disposed s then s
      else scanStore str now HISTORY_FIRST_BATCH_DELAY_MS
             (report_lang (on_store (clearTranslationPending None)
               (resetWork (s\<lparr>myLang := Some (effectiveLang lang), autoTranslate := on, ts_connected := True\<rparr>)))))"

definition history_wait :: "jstring \<Rightarrow> tsync \<Rightarrow> tsync" where
  "history_wait k s = (if hasMine k s then on_store (clearTranslationPending (Some [k])) (clearWait k s) else s)"

definition onHistory :: "(jsval \<Rightarrow> jstring) \<Rightarrow> millis \<Rightarrow> tsync \<Rightarrow> tsync" where
  "onHistory str now s =
     (if ts_disposed s then s
      else scanStore str now HISTORY_FIRST_BATCH_DELAY_MS (fold history_wait (map fst (pushWait s)) s))"

definition onMessage :: "(jsval \<Rightarrow> jstring) \<Rightarrow> millis \<Rightarrow> chat_msg \<Rightarrow> tsync \<Rightarrow> tsync" where
  "onMessage str now message s =
     (let i = js_field message ''id''
      in if ts_disposed s \<or> \<not> autoTranslate s \<or> myLang s = None then s
         else if nullish i then s
         else if \<not> eligible str s (messageById str i s) then s
         else (let s1 = on_store (markTranslationPending [str i]) (clearWait (str i) s)
               in s1\<lparr>pushWait := AList.update (str i) (now + PUSH_WAIT_MS, i) (pushWait s1)\<rparr>))"

definition js_truthy_object :: "jsval \<Rightarrow> bool" where
  "js_truthy_object v = (case v of JObj m \<Rightarrow> True | JArr xs \<Rightarrow> True | _ \<Rightarrow> False)"

definition has_keys :: "jsval \<Rightarrow> bool" where
  "has_keys v = (case v of JObj m \<Rightarrow> m \<noteq> [] | JArr xs \<Rightarrow> xs \<noteq> [] | _ \<Rightarrow> False)"

definition is_jstr :: "jsval \<Rightarrow> bool" where
  "is_jstr v = (case v of JStr s \<Rightarrow> True | _ \<Rightarrow> False)"

definition onPushed :: "(jsval \<Rightarrow> jstring) \<Rightarrow> millis \<Rightarrow> jsval \<Rightarrow> tsync \<Rightarrow> tsync" where
  "onPushed str now payload s =
     (let i = js_get payload ''id'' in
      if ts_disposed s \<or> js_falsy payload \<or> nullish i then s
      else (let tr = (if js_truthy_object (js_get payload ''translations'') then js_get payload ''translations'' else JObj []);
                failed = (case js_get payload ''failed'' of JArr xs \<Rightarrow> xs | _ \<Rightarrow> []);
                s1 = (if has_keys tr then on_store (mergeChatTranslations str i tr) s else s)
            in case myLang s1 of
                 None \<Rightarrow> s1
               | Some lang \<Rightarrow>
                   if is_jstr (js_get tr lang)
                   then (let s2 = removeCandidate str (str i) (clearRetry (str i) (clearWait (str i) s1))
                         in on_store (clearTranslationPending (Some [str i]))
                              (s2\<lparr>ts_attempts := AList.delete (str i) (ts_attempts s2)\<rparr>))
                   else if JStr (lit lang) \<in> set failed
                   then (let s2 = clearWait (str i) s1
                         in if autoTranslate s2 then scheduleReenqueue str now i PUSH_WAIT_MS s2 else s2)
                   else if \<not> has_keys tr \<and> failed = []
                   then on_store (clearTranslationPending (Some [str i])) (clearWait (str i) s1)
                   else s1))"

definition reset_and_scan :: "(jsval \<Rightarrow> jstring) \<Rightarrow> millis \<Rightarrow> tsync \<Rightarrow> tsync" where
  "reset_and_scan str now s =
     (let s1 = on_store resetTranslationStatus (resetWork s)
      in scanStore str now HISTORY_FIRST_BATCH_DELAY_MS (if ts_connected s1 then report_lang s1 else s1))"

definition onLanguageChange :: "(jsval \<Rightarrow> jstring) \<Rightarrow> millis \<Rightarrow> string option \<Rightarrow> tsync \<Rightarrow> tsync" where
  "onLanguageChange str now lang s =
     (if ts_disposed s then s
      else (let nxt = Some (effectiveLang lang)
            in if nxt = myLang s then s else reset_and_scan str now (s\<lparr>myLang := nxt\<rparr>)))"

definition onAutoTranslateChange :: "(jsval \<Rightarrow> jstring) \<Rightarrow> millis \<Rightarrow> bool \<Rightarrow> tsync \<Rightarrow> tsync" where
  "onAutoTranslateChange str now on s =
     (if ts_disposed s then s
      else if on = autoTranslate s then s
      else reset_and_scan str now (s\<lparr>autoTranslate := on\<rparr>))"

definition onScrolledToOlder :: "(jsval \<Rightarrow> jstring) \<Rightarrow> millis \<Rightarrow> jsval \<Rightarrow> tsync \<Rightarrow> tsync" where
  "onScrolledToOlder str now ids s =
     (case ids of
        JArr xs \<Rightarrow>
          if ts_disposed s then s
          else enqueue str now (filter (\<lambda>i. \<not> jm_has (pushWait s) (str i) \<and> \<not> jm_has (retryTimers s) (str i)) xs) 0 s
      | _ \<Rightarrow> s)"

definition sync_retry :: "(jsval \<Rightarrow> jstring) \<Rightarrow> millis \<Rightarrow> jsval \<Rightarrow> tsync \<Rightarrow> tsync" where
  "sync_retry str now i s =
     (if ts_disposed s then s
      else enqueue str now [i] 0
             (clearRetry (str i)
               ((on_store (clearTranslationFailed (str i)) s)\<lparr>ts_attempts := AList.delete (str i) (ts_attempts s)\<rparr>)))"

definition sync_dispose :: "tsync \<Rightarrow> tsync" where
  "sync_dispose s = on_store (clearTranslationPending None) (resetWork (s\<lparr>ts_disposed := True, ts_connected := False\<rparr>))"

subsection \<open>The timers\<close>

definition pushWait_fires :: "(jsval \<Rightarrow> jstring) \<Rightarrow> millis \<Rightarrow> jstring \<Rightarrow> tsync \<Rightarrow> tsync" where
  "pushWait_fires str now k s =
     (case map_of (pushWait s) k of
        None \<Rightarrow> s
      | Some (due, i) \<Rightarrow> if now < due then s else enqueue str now [i] 0 (clearWait k s))"

definition retry_fires :: "(jsval \<Rightarrow> jstring) \<Rightarrow> millis \<Rightarrow> jstring \<Rightarrow> tsync \<Rightarrow> tsync" where
  "retry_fires str now k s =
     (case map_of (retryTimers s) k of
        None \<Rightarrow> s
      | Some (due, i) \<Rightarrow> if now < due then s else enqueue str now [i] 0 (clearRetry k s))"

definition batch_fires :: "(jsval \<Rightarrow> jstring) \<Rightarrow> millis \<Rightarrow> tsync \<Rightarrow> tsync" where
  "batch_fires str now s =
     (case batchTimer s of
        None \<Rightarrow> s
      | Some due \<Rightarrow> if now < due then s else runBatch str now (s\<lparr>batchTimer := None\<rparr>))"

subsection \<open>Runs\<close>

text \<open>\<open>SyStore\<close> is any change of the store that comes from elsewhere: messages, reloads, a logout.\<close>

datatype sync_op =
    SyConnect "string option" bool
  | SyHistory
  | SyMessage chat_msg
  | SyPushed jsval
  | SyLanguage "string option"
  | SyAuto bool
  | SyScrolled jsval
  | SyRetry jsval
  | SyDispose
  | SyAnswer nat batch_outcome
  | SyPushTimer jstring
  | SyRetryTimer jstring
  | SyBatchTimer
  | SyStore chat_op

definition sync_exec :: "(jsval \<Rightarrow> jstring) \<Rightarrow> (chat_msg \<Rightarrow> int) \<Rightarrow> millis \<Rightarrow> sync_op \<Rightarrow> tsync \<Rightarrow> tsync" where
  "sync_exec str time now op s =
     (case op of
        SyConnect l on \<Rightarrow> onConnect str now l on s
      | SyHistory \<Rightarrow> onHistory str now s
      | SyMessage m \<Rightarrow> onMessage str now m s
      | SyPushed p \<Rightarrow> onPushed str now p s
      | SyLanguage l \<Rightarrow> onLanguageChange str now l s
      | SyAuto on \<Rightarrow> onAutoTranslateChange str now on s
      | SyScrolled ids \<Rightarrow> onScrolledToOlder str now ids s
      | SyRetry i \<Rightarrow> sync_retry str now i s
      | SyDispose \<Rightarrow> sync_dispose s
      | SyAnswer n out \<Rightarrow> onAnswer str now n out s
      | SyPushTimer k \<Rightarrow> pushWait_fires str now k s
      | SyRetryTimer k \<Rightarrow> retry_fires str now k s
      | SyBatchTimer \<Rightarrow> batch_fires str now s
      | SyStore cop \<Rightarrow> on_store (chat_exec str time cop) s)"

fun sync_run ::
    "(jsval \<Rightarrow> jstring) \<Rightarrow> (chat_msg \<Rightarrow> int) \<Rightarrow> (millis \<times> sync_op) list \<Rightarrow> tsync \<Rightarrow> tsync" where
  "sync_run str time [] s = s"
| "sync_run str time ((now, op) # ops) s = sync_run str time ops (sync_exec str time now op s)"

end
