(* ===== verification/SyncRules.thy ===== *)
theory SyncRules
  imports TranslationSync
begin

text \<open>
  The invariant of the translation synchroniser: no message is asked for twice at a time, batches keep
  their limits and their distance, and no candidate is left behind without a timer or a running
  request; every public operation, timer and answer preserves it.
\<close>

definition item_chars :: "sync_item list \<Rightarrow> nat" where
  "item_chars items = sum_list (map (length \<circ> snd) items)"

definition batch_fits :: "sync_item list \<Rightarrow> bool" where
  "batch_fits items \<longleftrightarrow> length items \<le> BATCH_MAX_ITEMS \<and> (item_chars items \<le> BATCH_MAX_CHARS \<or> length items \<le> 1)"

definition request_ok :: "(jsval \<Rightarrow> jstring) \<Rightarrow> sync_request \<Rightarrow> bool" where
  "request_ok str r \<longleftrightarrow> rq_items r \<noteq> [] \<and> batch_fits (rq_items r) \<and> distinct (map (str \<circ> fst) (rq_items r))"

definition requests_ok :: "(jsval \<Rightarrow> jstring) \<Rightarrow> tsync \<Rightarrow> bool" where
  "requests_ok str s \<longleftrightarrow>
     list_all (request_ok str) (ts_requests s) \<and>
     successively (\<lambda>a b. rq_at a + BATCH_MIN_INTERVAL_MS \<le> rq_at b) (ts_requests s) \<and>
     lastRequestAt s = (if ts_requests s = [] then None else Some (rq_at (last (ts_requests s)))) \<and>
     (\<forall>r. inFlight s = Some r \<longrightarrow> ts_requests s \<noteq> [] \<and> r = last (ts_requests s))"

definition queue_ok :: "(jsval \<Rightarrow> jstring) \<Rightarrow> tsync \<Rightarrow> bool" where
  "queue_ok str s \<longleftrightarrow>
     set (candidateSet s) = str ` set (candidates s) \<and> distinct (map str (candidates s)) \<and>
     in_flight_keys str s \<inter> str ` set (candidates s) = {}"

definition timer_ok :: "tsync \<Rightarrow> bool" where
  "timer_ok s \<longleftrightarrow>
     (inFlight s \<noteq> None \<longrightarrow> batchTimer s = None) \<and>
     (\<forall>t l. batchTimer s = Some t \<longrightarrow> lastRequestAt s = Some l \<longrightarrow> l + BATCH_MIN_INTERVAL_MS \<le> t) \<and>
     (candidates s \<noteq> [] \<or> inFlight s \<noteq> None \<longrightarrow> autoTranslate s \<and> myLang s \<noteq> None \<and> \<not> ts_disposed s) \<and>
     (ts_disposed s \<longrightarrow> pushWait s = [] \<and> retryTimers s = [] \<and> batchTimer s = None)"

definition attempts_ok :: "tsync \<Rightarrow> bool" where
  "attempts_ok s \<longleftrightarrow> (\<forall>k n. map_of (ts_attempts s) k = Some n \<longrightarrow> n \<le> length RETRY_DELAYS_MS)"

definition sync_base :: "(jsval \<Rightarrow> jstring) \<Rightarrow> tsync \<Rightarrow> bool" where
  "sync_base str s \<longleftrightarrow> requests_ok str s \<and> queue_ok str s \<and> timer_ok s \<and> attempts_ok s"

definition served :: "tsync \<Rightarrow> bool" where
  "served s \<longleftrightarrow> (candidates s \<noteq> [] \<longrightarrow> inFlight s \<noteq> None \<or> batchTimer s \<noteq> None)"

definition sync_inv :: "(jsval \<Rightarrow> jstring) \<Rightarrow> tsync \<Rightarrow> bool" where
  "sync_inv str s \<longleftrightarrow> sync_base str s \<and> served s"

lemmas sync_defs = sync_inv_def sync_base_def served_def requests_ok_def queue_ok_def timer_ok_def attempts_ok_def in_flight_keys_def

subsection \<open>What does not touch the queue\<close>

lemma sync_inv_store [simp]: "sync_inv str (s\<lparr>ts_store := st\<rparr>) = sync_inv str s"
  by (simp add: sync_defs)

lemma sync_base_store [simp]: "sync_base str (s\<lparr>ts_store := st\<rparr>) = sync_base str s"
  by (simp add: sync_defs)

lemma sync_inv_reported [simp]: "sync_inv str (s\<lparr>ts_reported := x\<rparr>) = sync_inv str s"
  by (simp add: sync_defs)

lemma sync_inv_connected [simp]: "sync_inv str (s\<lparr>ts_connected := x\<rparr>) = sync_inv str s"
  by (simp add: sync_defs)

lemma sync_inv_wait: "sync_inv str s \<Longrightarrow> \<not> ts_disposed s \<or> w = [] \<Longrightarrow> sync_inv str (s\<lparr>pushWait := w\<rparr>)"
  by (auto simp: sync_defs)

lemma sync_inv_retries: "sync_inv str s \<Longrightarrow> \<not> ts_disposed s \<or> w = [] \<Longrightarrow> sync_inv str (s\<lparr>retryTimers := w\<rparr>)"
  by (auto simp: sync_defs)

lemma sync_inv_attempts_delete: "sync_inv str s \<Longrightarrow> sync_inv str (s\<lparr>ts_attempts := AList.delete k (ts_attempts s)\<rparr>)"
  by (auto simp: sync_defs)

lemma clearWait_inv: "sync_inv str s \<Longrightarrow> sync_inv str (clearWait k s)"
  unfolding clearWait_def by (rule sync_inv_wait) (auto simp: sync_defs)

lemma clearRetry_inv: "sync_inv str s \<Longrightarrow> sync_inv str (clearRetry k s)"
  unfolding clearRetry_def by (rule sync_inv_retries) (auto simp: sync_defs)

lemma clear_frames [simp]:
  "ts_disposed (clearWait k s) = ts_disposed s" "ts_disposed (clearRetry k s) = ts_disposed s"
  "autoTranslate (clearWait k s) = autoTranslate s" "autoTranslate (clearRetry k s) = autoTranslate s"
  "myLang (clearWait k s) = myLang s" "myLang (clearRetry k s) = myLang s"
  "candidates (clearWait k s) = candidates s" "candidateSet (clearWait k s) = candidateSet s"
  "inFlight (clearWait k s) = inFlight s" "batchTimer (clearWait k s) = batchTimer s"
  "ts_store (clearWait k s) = ts_store s" "ts_store (clearRetry k s) = ts_store s"
  by (simp_all add: clearWait_def clearRetry_def)

lemma resetWork_inv: "sync_inv str s \<Longrightarrow> sync_inv str (resetWork (s\<lparr>myLang := l, autoTranslate := on, ts_connected := c\<rparr>))"
  by (auto simp: sync_defs resetWork_def)

subsection \<open>Taking a batch\<close>

definition taken ::
    "(jsval \<Rightarrow> jstring) \<Rightarrow> jsval list \<Rightarrow> sync_item list \<Rightarrow> tsync \<Rightarrow> sync_item list \<Rightarrow> tsync \<Rightarrow> bool" where
  "taken str cs items s items' s' \<longleftrightarrow>
     (\<exists>shifted rest new cset st. cs = shifted @ rest \<and> items' = items @ new \<and> (rest \<noteq> [] \<longrightarrow> items' \<noteq> []) \<and>
       subseq (map (str \<circ> fst) new) (map str shifted) \<and>
       s' = s\<lparr>candidates := rest, candidateSet := cset, ts_store := st\<rparr> \<and> set cset = set (candidateSet s) - str ` set shifted)"

lemma taken_stop: "cs = [] \<or> items \<noteq> [] \<Longrightarrow> taken str cs items s items (s\<lparr>candidates := cs\<rparr>)"
  unfolding taken_def
  by (rule exI [of _ "[]"], rule exI [of _ cs], rule exI [of _ "[]"], rule exI [of _ "candidateSet s"],
      rule exI [of _ "ts_store s"]) auto

lemma taken_shift:
  assumes "taken str cs (items @ new) (s\<lparr>candidateSet := removeAll (str i) (candidateSet s), ts_store := st\<rparr>) items' s'"
    and "new = [] \<or> map (str \<circ> fst) new = [str i]"
  shows "taken str (i # cs) items s items' s'"
proof -
  let ?s = "s\<lparr>candidateSet := removeAll (str i) (candidateSet s), ts_store := st\<rparr>"
  from assms(1) obtain shifted rest new' cset st' where t: "cs = shifted @ rest" "items' = (items @ new) @ new'"
      "rest \<noteq> [] \<longrightarrow> items' \<noteq> []" "subseq (map (str \<circ> fst) new') (map str shifted)"
      "s' = ?s\<lparr>candidates := rest, candidateSet := cset, ts_store := st'\<rparr>"
      "set cset = set (candidateSet ?s) - str ` set shifted"
    unfolding taken_def by blast
  have "subseq (map (str \<circ> fst) (new @ new')) (map str (i # shifted))"
    using assms(2) t(4) by (auto intro: subseq_order.trans)
  moreover have "set cset = set (candidateSet s) - str ` set (i # shifted)" using t(6) by auto
  ultimately show ?thesis unfolding taken_def
    by (intro exI [of _ "i # shifted"] exI [of _ rest] exI [of _ "new @ new'"] exI [of _ cset] exI [of _ st'] conjI)
      (use t in simp_all)
qed

lemma takeBatch_split: "takeBatch str cs items chars s = (items', s') \<Longrightarrow> taken str cs items s items' s'"
proof (induction cs arbitrary: items chars s)
  case Nil
  then show ?case using taken_stop [of "[]" items str s] by simp
next
  case (Cons i cs)
  let ?st = "clearTranslationPending (Some [str i]) (ts_store s)"
  have dropped: "taken str (i # cs) items s items' s'"
    if "takeBatch str cs items chars (s\<lparr>candidateSet := removeAll (str i) (candidateSet s), ts_store := ?st\<rparr>) = (items', s')"
    using taken_shift [where new = "[]" and st = ?st and i = i and items = items and s = s] Cons.IH [OF that] by simp
  show ?case
  proof (cases "messageById str i s")
    case None
    then show ?thesis using Cons.prems dropped by simp
  next
    case (Some m)
    let ?t = "str (js_field m ''content'')"
    let ?full = "items \<noteq> [] \<and> (BATCH_MAX_ITEMS \<le> length items \<or> BATCH_MAX_CHARS < chars + length ?t)"
    let ?item = "(js_field m ''id'', ?t)"
    let ?s = "s\<lparr>candidateSet := removeAll (str i) (candidateSet s)\<rparr>"
    consider "\<not> eligible str s (Some m)" | "eligible str s (Some m)" ?full | "eligible str s (Some m)" "\<not> ?full" by blast
    then show ?thesis
    proof cases
      case 1
      then show ?thesis using Cons.prems Some dropped by simp
    next
      case 2
      then have "items' = items" "s' = s\<lparr>candidates := i # cs\<rparr>" using Cons.prems Some by auto
      then show ?thesis using 2(2) taken_stop [of "i # cs" items str s] by simp
    next
      case 3
      then have "takeBatch str cs (items @ [?item]) (chars + length ?t) ?s = (items', s')"
        using Cons.prems Some by (auto simp: Let_def split: if_splits)
      then have "taken str cs (items @ [?item]) ?s items' s'" by (rule Cons.IH)
      moreover have "str (js_field m ''id'') = str i" using Some by (auto simp: messageById_def find_Some_iff)
      ultimately show ?thesis
        using taken_shift [where new = "[?item]" and st = "ts_store s" and i = i and items = items and s = s] by simp
    qed
  qed
qed

lemma takeBatch_fits:
  "takeBatch str cs items (item_chars items) s = (items', s') \<Longrightarrow> batch_fits items \<Longrightarrow> batch_fits items'"
proof (induction cs arbitrary: items s)
  case (Cons i cs)
  show ?case
  proof (cases "messageById str i s")
    case None
    then show ?thesis using Cons by simp
  next
    case (Some m)
    let ?t = "str (js_field m ''content'')"
    have step: "item_chars (items @ [(js_field m ''id'', ?t)]) = item_chars items + length ?t" by (simp add: item_chars_def)
    show ?thesis
    proof (cases "eligible str s (Some m) \<and> \<not> (items \<noteq> [] \<and> (BATCH_MAX_ITEMS \<le> length items \<or> BATCH_MAX_CHARS < item_chars items + length ?t))")
      case True
      then have "batch_fits (items @ [(js_field m ''id'', ?t)])"
        using Cons.prems(2) by (auto simp: batch_fits_def step BATCH_MAX_ITEMS_def)
      then show ?thesis using Cons.IH [of "items @ [(js_field m ''id'', ?t)]"] Cons.prems True Some step by (auto simp: Let_def)
    next
      case False
      then show ?thesis using Cons Some by (auto simp: Let_def split: if_splits)
    qed
  qed
qed simp

subsection \<open>Sending and scheduling\<close>

lemma successively_snoc:
  "successively R xs \<Longrightarrow> xs = [] \<or> R (last xs) x \<Longrightarrow> successively R (xs @ [x])"
  by (auto simp: successively_append_iff)

lemma subseq_distinct_set:
  assumes "subseq xs ys" and "distinct ys"
  shows "distinct xs" and "set xs \<subseteq> set ys"
proof -
  have "set xs \<subseteq> set ys \<and> distinct xs" using assms by (induction rule: list_emb.induct) auto
  then show "distinct xs" "set xs \<subseteq> set ys" by simp_all
qed

lemma runBatch_inv:
  assumes base: "sync_base str s" and t: "batchTimer s = None"
    and gap: "\<And>l. lastRequestAt s = Some l \<Longrightarrow> l + BATCH_MIN_INTERVAL_MS \<le> now"
  shows "sync_inv str (runBatch str now s)"
proof (cases "ts_disposed s \<or> inFlight s \<noteq> None \<or> \<not> autoTranslate s \<or> myLang s = None")
  case True
  then have "runBatch str now s = s" by (auto simp: runBatch_def)
  moreover have "served s" using base True by (auto simp: sync_defs)
  ultimately show ?thesis using base by (simp add: sync_inv_def)
next
  case False
  then obtain lang where lang: "myLang s = Some lang" by blast
  obtain items s1 where tb: "takeBatch str (candidates s) [] 0 s = (items, s1)" by (metis surj_pair)
  obtain shifted rest cset st where k: "candidates s = shifted @ rest" "rest \<noteq> [] \<longrightarrow> items \<noteq> []"
      "subseq (map (str \<circ> fst) items) (map str shifted)"
      "s1 = s\<lparr>candidates := rest, candidateSet := cset, ts_store := st\<rparr>"
      "set cset = set (candidateSet s) - str ` set shifted"
    using takeBatch_split [OF tb] unfolding taken_def by auto
  have fits: "batch_fits items" using takeBatch_fits [of str "candidates s" "[]" s items s1] tb
    by (simp add: item_chars_def batch_fits_def)
  have d: "distinct (map str shifted)" "distinct (map str rest)" "str ` set shifted \<inter> str ` set rest = {}"
    using base k(1) by (auto simp: sync_defs)
  have cs: "set cset = str ` set rest" using base k(1,5) d(3) by (auto simp: sync_defs)
  have items: "distinct (map (str \<circ> fst) items)" "set (map (str \<circ> fst) items) \<subseteq> str ` set shifted"
    using subseq_distinct_set [OF k(3) d(1)] by auto
  show ?thesis
  proof (cases "items = []")
    case True
    then have "runBatch str now s = s1" using False lang tb by (simp add: runBatch_def)
    moreover have "rest = []" using k(2) True by blast
    ultimately show ?thesis using base t cs False k(4) by (auto simp: sync_defs)
  next
    case items_ne: False
    define r where "r = \<lparr>rq_no = length (ts_requests s), rq_at = now, rq_lang = lang, rq_items = items\<rparr>"
    have run: "runBatch str now s = s\<lparr>candidates := rest, candidateSet := cset, ts_store := st,
        inFlight := Some r, lastRequestAt := Some now, ts_requests := ts_requests s @ [r]\<rparr>"
      using False lang tb items_ne k(4) by (simp add: runBatch_def r_def Let_def)
    have at: "rq_at r = now" by (simp add: r_def)
    have "request_ok str r" using items_ne fits items(1) by (simp add: request_ok_def r_def)
    moreover have "successively (\<lambda>a b. rq_at a + BATCH_MIN_INTERVAL_MS \<le> rq_at b) (ts_requests s @ [r])"
      using base gap by (intro successively_snoc) (auto simp: sync_defs r_def split: if_splits)
    moreover have "set (map (str \<circ> fst) (rq_items r)) \<inter> str ` set rest = {}"
      using items(2) d(3) by (auto simp: r_def)
    ultimately show ?thesis using base t cs d(2) False lang unfolding run by (simp add: sync_defs at)
  qed
qed

lemma scheduleBatch_inv:
  assumes base: "sync_base str s"
  shows "sync_inv str (scheduleBatch str now delayMs s)"
proof (cases "ts_disposed s \<or> inFlight s \<noteq> None \<or> candidates s = []")
  case True
  then have "served s" using base by (auto simp: sync_defs)
  then show ?thesis using True base by (simp add: scheduleBatch_def sync_inv_def)
next
  case False
  define due where "due = batch_at now delayMs s"
  have gap: "l + BATCH_MIN_INTERVAL_MS \<le> due" if "lastRequestAt s = Some l" for l
    using that by (simp add: due_def batch_at_def)
  consider t where "batchTimer s = Some t" "t \<le> due" |
    "\<not> (case batchTimer s of None \<Rightarrow> False | Some t \<Rightarrow> t \<le> due)" "due \<le> now" |
    "\<not> (case batchTimer s of None \<Rightarrow> False | Some t \<Rightarrow> t \<le> due)" "now < due"
    by (cases "batchTimer s") force+
  then show ?thesis
  proof cases
    case 1
    then show ?thesis using base False by (simp add: scheduleBatch_def due_def sync_inv_def served_def)
  next
    case 2
    have "sync_base str (s\<lparr>batchTimer := None\<rparr>)" using base by (simp add: sync_defs)
    then have "sync_inv str (runBatch str now (s\<lparr>batchTimer := None\<rparr>))"
      by (rule runBatch_inv) (use gap 2(2) in \<open>force+\<close>)
    then show ?thesis using 2 False by (auto simp: scheduleBatch_def due_def Let_def split: option.splits)
  next
    case 3
    then have "scheduleBatch str now delayMs s = s\<lparr>batchTimer := Some due\<rparr>"
      using False by (auto simp: scheduleBatch_def due_def Let_def split: option.splits)
    then show ?thesis using base False gap by (auto simp: sync_defs)
  qed
qed

subsection \<open>Queueing\<close>

lemma find_message_key: "messageById str i s = Some m \<Longrightarrow> str (js_field m ''id'') = str i"
  by (auto simp: messageById_def find_Some_iff)

lemma enqueue_one_cases:
  "enqueue_one str i (s, f) = (s, f) \<or>
   (\<exists>mid. str mid = str i \<and> str i \<notin> set (candidateSet s) \<and> str i \<notin> in_flight_keys str s \<and>
     enqueue_one str i (s, f) = (s\<lparr>pushWait := AList.delete (str i) (pushWait s),
       candidateSet := candidateSet s @ [str i], candidates := candidates s @ [mid]\<rparr>, f @ [mid]))"
  using find_message_key [of str i s]
  by (auto simp: enqueue_one_def Let_def clearWait_def split: option.splits)

lemma enqueue_one_base:
  assumes "sync_base str s" and "\<not> ts_disposed s" "autoTranslate s" "myLang s \<noteq> None"
    and "enqueue_one str i (s, f) = (s', f')"
  shows "sync_base str s'" and "\<not> ts_disposed s'" "autoTranslate s'" "myLang s' \<noteq> None"
    and "\<exists>new. candidates s' = candidates s @ new \<and> f' = f @ new" and "inFlight s' = inFlight s" "batchTimer s' = batchTimer s"
proof -
  consider "s' = s" "f' = f" |
    mid where "str mid = str i" "str i \<notin> set (candidateSet s)" "str i \<notin> in_flight_keys str s"
      "s' = s\<lparr>pushWait := AList.delete (str i) (pushWait s),
         candidateSet := candidateSet s @ [str i], candidates := candidates s @ [mid]\<rparr>" "f' = f @ [mid]"
    using enqueue_one_cases [of str i s f] assms(5) by auto
  then have "sync_base str s' \<and> \<not> ts_disposed s' \<and> autoTranslate s' \<and> myLang s' \<noteq> None \<and>
      (\<exists>new. candidates s' = candidates s @ new \<and> f' = f @ new) \<and> inFlight s' = inFlight s \<and> batchTimer s' = batchTimer s"
  proof cases
    case 1
    then show ?thesis using assms by simp
  next
    case 2
    have "sync_base str s'" using assms(1-4) 2(1-3) unfolding 2(4) by (auto simp: sync_defs)
    then show ?thesis using assms(2-4) 2(4,5) by simp
  qed
  then show "sync_base str s'" "\<not> ts_disposed s'" "autoTranslate s'" "myLang s' \<noteq> None"
    "\<exists>new. candidates s' = candidates s @ new \<and> f' = f @ new" "inFlight s' = inFlight s" "batchTimer s' = batchTimer s"
    by blast+
qed

lemma enqueue_fold_base:
  assumes "sync_base str s" and "\<not> ts_disposed s" "autoTranslate s" "myLang s \<noteq> None"
    and "fold (enqueue_one str) ids (s, f) = (s', f')"
  shows "sync_base str s' \<and> (\<exists>new. candidates s' = candidates s @ new \<and> f' = f @ new) \<and>
    inFlight s' = inFlight s \<and> batchTimer s' = batchTimer s"
  using assms
proof (induction ids arbitrary: s f)
  case (Cons i ids)
  obtain s1 f1 where one: "enqueue_one str i (s, f) = (s1, f1)" by (metis surj_pair)
  note k = enqueue_one_base [OF Cons.prems(1-4) one]
  have "fold (enqueue_one str) ids (s1, f1) = (s', f')" using Cons.prems(5) one by simp
  from Cons.IH [OF k(1-4) this] k(5-7) show ?case by auto
qed simp

lemma enqueue_inv:
  assumes "sync_inv str s"
  shows "sync_inv str (enqueue str now ids delayMs s)"
proof (cases "ts_disposed s \<or> \<not> autoTranslate s \<or> myLang s = None")
  case True
  then show ?thesis using assms by (simp add: enqueue_def)
next
  case False
  obtain s1 fresh where e: "fold (enqueue_one str) ids (s, []) = (s1, fresh)" by (metis surj_pair)
  have base: "sync_base str s" "served s" using assms by (simp_all add: sync_inv_def)
  from enqueue_fold_base [OF base(1) _ _ _ e] False
  obtain new where k: "sync_base str s1" "candidates s1 = candidates s @ new" "fresh = new"
      "inFlight s1 = inFlight s" "batchTimer s1 = batchTimer s" by auto
  show ?thesis
  proof (cases "fresh = []")
    case True
    then have "served s1" using base(2) k by (simp add: served_def)
    then show ?thesis using False e True k(1) by (auto simp: enqueue_def sync_inv_def)
  next
    case fresh: False
    have "sync_inv str (scheduleBatch str now delayMs (on_store (markTranslationPending (map str fresh)) s1))"
      by (rule scheduleBatch_inv) (simp add: k(1))
    then show ?thesis using False e fresh by (auto simp: enqueue_def)
  qed
qed

subsection \<open>Answers\<close>

lemma scheduleReenqueue_inv: "sync_inv str s \<Longrightarrow> \<not> ts_disposed s \<Longrightarrow> sync_inv str (scheduleReenqueue str now i d s)"
  unfolding scheduleReenqueue_def Let_def by (rule sync_inv_retries) (simp_all add: clearRetry_inv)

lemma attempts_put_inv: "sync_inv str s \<Longrightarrow> n \<le> length RETRY_DELAYS_MS \<Longrightarrow>
    sync_inv str (s\<lparr>ts_attempts := AList.update k n (ts_attempts s)\<rparr>)"
  by (auto simp: sync_defs)

lemma schedule_retry_inv:
  assumes "sync_inv str s" and "\<not> ts_disposed s"
  shows "sync_inv str (schedule_retry str now over i s)" and "\<not> ts_disposed (schedule_retry str now over i s)"
    and "candidates (schedule_retry str now over i s) = candidates s" "inFlight (schedule_retry str now over i s) = inFlight s"
proof -
  show "sync_inv str (schedule_retry str now over i s)"
  proof (cases "length RETRY_DELAYS_MS \<le> attempts_of (str i) s")
    case True
    then show ?thesis using sync_inv_attempts_delete [OF assms(1)] by (simp add: schedule_retry_def Let_def)
  next
    case False
    then have "sync_inv str (s\<lparr>ts_attempts := AList.update (str i) (attempts_of (str i) s + 1) (ts_attempts s)\<rparr>)"
      by (intro attempts_put_inv assms(1)) simp
    then show ?thesis using False assms(2) by (simp add: schedule_retry_def Let_def scheduleReenqueue_inv)
  qed
qed (use assms in \<open>auto simp: schedule_retry_def scheduleReenqueue_def clearRetry_def Let_def\<close>)

lemma scheduleRetries_inv:
  "sync_inv str s \<Longrightarrow> \<not> ts_disposed s \<Longrightarrow>
   sync_inv str (scheduleRetries str now ids over s) \<and> inFlight (scheduleRetries str now ids over s) = inFlight s"
  unfolding scheduleRetries_def by (induction ids arbitrary: s) (simp_all add: schedule_retry_inv)

lemma attempts_fold_delete_inv: "sync_inv str s \<Longrightarrow>
    sync_inv str (s\<lparr>ts_attempts := fold (\<lambda>i. AList.delete (str i)) ids (ts_attempts s)\<rparr>)"
proof (induction ids arbitrary: s)
  case (Cons i ids)
  from Cons.IH [OF sync_inv_attempts_delete [OF Cons.prems, of "str i"]] show ?case by simp
qed simp

lemma settle_inv:
  assumes "sync_inv str s" and "\<not> ts_disposed s"
  shows "sync_inv str (settle str now items response lang s)" and "inFlight (settle str now items response lang s) = inFlight s"
proof -
  define ids where "ids = map fst items"
  define told where "told = (\<lambda>i. case map_of (br_translated response) (str i) of Some (JStr t) \<Rightarrow> Some t | _ \<Rightarrow> None)"
  define entries where "entries = concat (map (\<lambda>i. case told i of Some t \<Rightarrow> [(i, JObj [(lit lang, JStr t)])] | None \<Rightarrow> []) ids)"
  define failed where "failed = set (map str (br_failed response))"
  define ok where "ok = filter (\<lambda>i. told i \<noteq> None \<or> str i \<notin> failed) ids"
  define s1 where "s1 = (if entries \<noteq> [] then on_store (mergeChatTranslationsBulk str entries) s else s)"
  define s2 where "s2 = (if ok \<noteq> [] then (on_store (clearTranslationPending (Some (map str ok))) s1)
      \<lparr>ts_attempts := fold (\<lambda>i. AList.delete (str i)) ok (ts_attempts s1)\<rparr> else s1)"
  have settled: "settle str now items response lang s =
      scheduleRetries str now (filter (\<lambda>i. told i = None \<and> str i \<in> failed) ids) None s2"
    unfolding settle_def Let_def s2_def s1_def ok_def entries_def told_def failed_def ids_def by (rule refl)
  have "sync_inv str s1" "\<not> ts_disposed s1" "inFlight s1 = inFlight s" using assms by (simp_all add: s1_def)
  moreover from this(1) have "sync_inv str ((on_store (clearTranslationPending (Some (map str ok))) s1)
      \<lparr>ts_attempts := fold (\<lambda>i. AList.delete (str i)) ok (ts_attempts (on_store (clearTranslationPending (Some (map str ok))) s1))\<rparr>)"
    by (intro attempts_fold_delete_inv) simp
  ultimately have "sync_inv str s2" "\<not> ts_disposed s2" "inFlight s2 = inFlight s" by (auto simp: s2_def)
  from scheduleRetries_inv [OF this(1, 2)] this(3)
  show "sync_inv str (settle str now items response lang s)" "inFlight (settle str now items response lang s) = inFlight s"
    unfolding settled by simp_all
qed

lemma onAnswer_inv:
  assumes "sync_inv str s"
  shows "sync_inv str (onAnswer str now n outcome s)"
proof (cases "inFlight s")
  case None
  then show ?thesis using assms by (simp add: onAnswer_def)
next
  case (Some r)
  have d: "\<not> ts_disposed s" using assms Some by (auto simp: sync_defs)
  define s1 where "s1 = (case outcome of
      BatchOk response \<Rightarrow> settle str now (rq_items r) response (rq_lang r) s
    | BatchError is429 retryAfter \<Rightarrow> batch_fail str now (rq_items r) is429 retryAfter s)"
  have "sync_inv str s1" using settle_inv [OF assms d] scheduleRetries_inv [OF assms d]
    by (auto simp: s1_def batch_fail_def split: batch_outcome.splits)
  then have "sync_base str (s1\<lparr>inFlight := None\<rparr>)" by (auto simp: sync_defs)
  from scheduleBatch_inv [OF this] show ?thesis using assms Some by (simp add: onAnswer_def s1_def)
qed

subsection \<open>The public operations and the timers\<close>

lemma scanStore_inv: "sync_inv str s \<Longrightarrow> sync_inv str (scanStore str now d s)"
  by (simp add: scanStore_def enqueue_inv)

lemma report_inv [simp]: "sync_inv str (report_lang s) = sync_inv str s"
  by (simp add: report_lang_def)

lemma history_wait_inv: "sync_inv str s \<Longrightarrow> sync_inv str (history_wait k s)"
  by (simp add: history_wait_def clearWait_inv)

lemma history_fold_inv: "sync_inv str s \<Longrightarrow> sync_inv str (fold history_wait ks s)"
  by (induction ks arbitrary: s) (simp_all add: history_wait_inv)

lemma removeCandidate_inv: "sync_inv str s \<Longrightarrow> sync_inv str (removeCandidate str k s)"
  unfolding removeCandidate_def by (auto simp: sync_defs distinct_map_filter)

lemma reset_and_scan_inv:
  assumes "sync_inv str s"
  shows "sync_inv str (reset_and_scan str now (s\<lparr>myLang := l, autoTranslate := on\<rparr>))"
proof -
  have "sync_inv str (resetWork (s\<lparr>myLang := l, autoTranslate := on\<rparr>))"
    using resetWork_inv [OF assms, where l = l and on = on and c = "ts_connected s"] by simp
  then show ?thesis unfolding reset_and_scan_def Let_def by (intro scanStore_inv) simp
qed

lemma onPushed_inv:
  assumes "sync_inv str s"
  shows "sync_inv str (onPushed str now payload s)"
proof -
  have wr: "sync_inv str s1 \<Longrightarrow> sync_inv str ((removeCandidate str k (clearRetry k (clearWait k s1)))
      \<lparr>ts_attempts := AList.delete k (ts_attempts (removeCandidate str k (clearRetry k (clearWait k s1))))\<rparr>)" for s1 k
    by (intro sync_inv_attempts_delete removeCandidate_inv clearRetry_inv clearWait_inv)
  show ?thesis using assms
    by (auto simp: onPushed_def Let_def wr clearWait_inv scheduleReenqueue_inv split: option.splits)
qed

lemma sync_exec_inv:
  assumes inv: "sync_inv str s"
  shows "sync_inv str (sync_exec str time now op s)"
proof (cases op)
  case (SyConnect l on)
  have "sync_inv str (resetWork (s\<lparr>myLang := Some (effectiveLang l), autoTranslate := on, ts_connected := True\<rparr>))"
    by (rule resetWork_inv [OF inv])
  then show ?thesis using inv SyConnect by (simp add: sync_exec_def onConnect_def scanStore_inv)
next
  case (SyLanguage l)
  then show ?thesis using inv reset_and_scan_inv [OF inv, where l = "Some (effectiveLang l)" and on = "autoTranslate s" and now = now]
    by (simp add: sync_exec_def onLanguageChange_def Let_def)
next
  case (SyAuto on)
  then show ?thesis using inv reset_and_scan_inv [OF inv, where l = "myLang s" and on = on and now = now]
    by (auto simp: sync_exec_def onAutoTranslateChange_def)
next
  case (SyRetry i)
  have "sync_inv str ((on_store (clearTranslationFailed (str i)) s)\<lparr>ts_attempts := AList.delete (str i) (ts_attempts s)\<rparr>)"
    using sync_inv_attempts_delete [of str "on_store (clearTranslationFailed (str i)) s"] inv by simp
  then show ?thesis using inv SyRetry by (simp add: sync_exec_def sync_retry_def enqueue_inv clearRetry_inv)
next
  case SyDispose
  have "sync_inv str (resetWork (s\<lparr>ts_disposed := True, ts_connected := False\<rparr>))"
    using inv by (auto simp: sync_defs resetWork_def)
  then show ?thesis using SyDispose by (simp add: sync_exec_def sync_dispose_def)
next
  case SyBatchTimer
  have "sync_inv str (runBatch str now (s\<lparr>batchTimer := None\<rparr>))" if "batchTimer s = Some due" "due \<le> now" for due
    by (rule runBatch_inv) (use inv that in \<open>force simp: sync_defs\<close>)+
  then show ?thesis using inv SyBatchTimer by (auto simp: sync_exec_def batch_fires_def split: option.splits)
next
  case (SyMessage m)
  have "sync_inv str (s\<lparr>ts_store := st, pushWait := w\<rparr>)" if "\<not> ts_disposed s" for w st
    using sync_inv_wait [of str "s\<lparr>ts_store := st\<rparr>" w] inv that by simp
  then show ?thesis using inv SyMessage by (simp add: sync_exec_def onMessage_def Let_def clearWait_def)
qed (use inv in \<open>simp_all add: sync_exec_def onHistory_def onPushed_inv onScrolledToOlder_def onAnswer_inv scanStore_inv
    history_fold_inv enqueue_inv pushWait_fires_def retry_fires_def clearWait_inv clearRetry_inv
    split: option.splits prod.splits jsval.splits\<close>)

lemma sync_initial_inv: "sync_inv str (createTranslationSync st)"
  by (simp add: sync_defs createTranslationSync_def)

lemma sync_run_inv: "sync_inv str s \<Longrightarrow> sync_inv str (sync_run str time ops s)"
  by (induction str time ops s rule: sync_run.induct) (simp_all add: sync_exec_inv)

subsection \<open>Requests in flight\<close>

text \<open>
  Whatever a handler does, the request in flight afterwards is none, the one before, or one with a new
  number.
\<close>

definition fresh_flight :: "tsync \<Rightarrow> tsync \<Rightarrow> bool" where
  "fresh_flight s s' \<longleftrightarrow> length (ts_requests s) \<le> length (ts_requests s') \<and>
     (inFlight s' = None \<or> inFlight s' = inFlight s \<or>
      (\<exists>r. inFlight s' = Some r \<and> length (ts_requests s) \<le> rq_no r))"

lemma fresh_refl [simp]: "fresh_flight s s"
  by (simp add: fresh_flight_def)

lemma fresh_trans [trans]: "fresh_flight s s1 \<Longrightarrow> fresh_flight s1 s2 \<Longrightarrow> fresh_flight s s2"
  by (auto simp: fresh_flight_def)

lemma fresh_same: "ts_requests s' = ts_requests s \<Longrightarrow> inFlight s' = inFlight s \<or> inFlight s' = None \<Longrightarrow> fresh_flight s s'"
  by (auto simp: fresh_flight_def)

lemma fresh_fold: "(\<And>x s. fresh_flight s (f x s)) \<Longrightarrow> fresh_flight s (fold f xs s)"
  by (induction xs arbitrary: s) (auto intro: fresh_trans)

lemma runBatch_fresh: "fresh_flight s (runBatch str now s)"
proof -
  obtain items s1 where tb: "takeBatch str (candidates s) [] 0 s = (items, s1)" by (metis surj_pair)
  from takeBatch_split [OF tb] have k: "ts_requests s1 = ts_requests s" "inFlight s1 = inFlight s"
    by (auto simp: taken_def)
  show ?thesis using k tb by (auto simp: runBatch_def fresh_flight_def Let_def split: option.splits)
qed

lemma scheduleBatch_fresh: "fresh_flight s (scheduleBatch str now d s)"
  using runBatch_fresh [of "s\<lparr>batchTimer := None\<rparr>" str now]
  by (auto simp: scheduleBatch_def Let_def fresh_flight_def split: option.splits)

lemma enqueue_fold_frame:
  "fold (enqueue_one str) ids (s, f) = (s', f') \<Longrightarrow> ts_requests s' = ts_requests s \<and> inFlight s' = inFlight s"
proof (induction ids arbitrary: s f)
  case (Cons i ids)
  obtain s1 f1 where one: "enqueue_one str i (s, f) = (s1, f1)" by (metis surj_pair)
  have "ts_requests s1 = ts_requests s \<and> inFlight s1 = inFlight s" using enqueue_one_cases [of str i s f] one by auto
  with Cons.IH [of s1 f1] Cons.prems one show ?case by auto
qed simp

lemma enqueue_fresh: "fresh_flight s (enqueue str now ids d s)"
proof -
  obtain s1 new where e: "fold (enqueue_one str) ids (s, []) = (s1, new)" by (metis surj_pair)
  have "fresh_flight s s1" using enqueue_fold_frame [OF e] by (simp add: fresh_same)
  moreover have "fresh_flight s1 (scheduleBatch str now d (on_store (markTranslationPending (map str new)) s1))"
    using scheduleBatch_fresh [of "on_store (markTranslationPending (map str new)) s1"] by (simp add: fresh_flight_def)
  ultimately show ?thesis using e by (auto simp: enqueue_def intro: fresh_trans)
qed

lemma scanStore_fresh: "fresh_flight s (scanStore str now d s)"
  by (simp add: scanStore_def enqueue_fresh)

lemma schedule_retry_fresh: "fresh_flight s (schedule_retry str now over i s)"
  by (rule fresh_same) (simp_all add: schedule_retry_def scheduleReenqueue_def clearRetry_def Let_def)

lemma scheduleRetries_fresh: "fresh_flight s (scheduleRetries str now ids over s)"
  unfolding scheduleRetries_def by (rule fresh_fold) (rule schedule_retry_fresh)

lemma settle_fresh: "fresh_flight s (settle str now items response lang s)"
  unfolding settle_def Let_def
  by (rule fresh_trans [OF _ scheduleRetries_fresh], rule fresh_same) auto

lemma clear_flight [simp]:
  "ts_requests (clearWait k s) = ts_requests s" "ts_requests (clearRetry k s) = ts_requests s"
  "inFlight (clearRetry k s) = inFlight s"
  "ts_requests (removeCandidate str k s) = ts_requests s" "inFlight (removeCandidate str k s) = inFlight s"
  "ts_requests (report_lang s) = ts_requests s" "inFlight (report_lang s) = inFlight s"
  "ts_requests (resetWork s) = ts_requests s" "inFlight (resetWork s) = None"
  by (simp_all add: clearWait_def clearRetry_def removeCandidate_def report_lang_def resetWork_def)

lemma onPushed_flight:
  "ts_requests (onPushed str now p s) = ts_requests s" "inFlight (onPushed str now p s) = inFlight s"
  unfolding onPushed_def Let_def by (simp_all add: scheduleReenqueue_def Let_def split: option.split)

lemma sync_exec_fresh: "fresh_flight s (sync_exec str time now op s)"
proof (cases op)
  case (SyAnswer n out)
  have "fresh_flight s (onAnswer str now n out s)"
  proof (cases "inFlight s")
    case (Some r)
    have "fresh_flight s (case out of BatchOk response \<Rightarrow> settle str now (rq_items r) response (rq_lang r) s
        | BatchError is429 retryAfter \<Rightarrow> batch_fail str now (rq_items r) is429 retryAfter s)"
      by (auto simp: settle_fresh batch_fail_def scheduleRetries_fresh split: batch_outcome.splits)
    from fresh_trans [OF this fresh_same] have "fresh_flight s ((case out of BatchOk response \<Rightarrow> settle str now (rq_items r) response (rq_lang r) s
        | BatchError is429 retryAfter \<Rightarrow> batch_fail str now (rq_items r) is429 retryAfter s)\<lparr>inFlight := None\<rparr>)" by simp
    from fresh_trans [OF this scheduleBatch_fresh] show ?thesis using Some by (simp add: onAnswer_def)
  qed (simp add: onAnswer_def)
  then show ?thesis using SyAnswer by (simp add: sync_exec_def)
next
  case SyBatchTimer
  have "fresh_flight s (runBatch str now (s\<lparr>batchTimer := None\<rparr>))"
    by (rule fresh_trans [OF fresh_same runBatch_fresh]) simp_all
  then show ?thesis using SyBatchTimer by (simp add: sync_exec_def batch_fires_def split: option.splits)
next
  case (SyPushed p)
  then show ?thesis by (simp add: sync_exec_def fresh_same onPushed_flight)
next
  case (SyMessage m)
  then show ?thesis by (auto simp: sync_exec_def onMessage_def Let_def intro!: fresh_same)
next
  case SyHistory
  have "fresh_flight s (fold history_wait (map fst (pushWait s)) s)"
    by (rule fresh_fold) (simp add: history_wait_def fresh_same)
  from fresh_trans [OF this scanStore_fresh] show ?thesis using SyHistory by (simp add: sync_exec_def onHistory_def)
next
  case SyDispose
  then show ?thesis by (auto simp: sync_exec_def sync_dispose_def intro!: fresh_same)
next
  case (SyStore cop)
  then show ?thesis by (auto simp: sync_exec_def intro!: fresh_same)
qed (auto simp: sync_exec_def onConnect_def onLanguageChange_def onAutoTranslateChange_def reset_and_scan_def Let_def
    sync_retry_def onScrolledToOlder_def pushWait_fires_def retry_fires_def enqueue_fresh
    intro!: fresh_trans [OF fresh_same scanStore_fresh] fresh_trans [OF fresh_same enqueue_fresh]
    split: option.splits prod.splits jsval.splits)

lemma sync_run_fresh: "fresh_flight s (sync_run str time ops s)"
  by (induction str time ops s rule: sync_run.induct) (auto intro: fresh_trans sync_exec_fresh)

subsection \<open>After the end\<close>

text \<open>Only the store changes under a synchroniser that has been disposed of, and not through it.\<close>

lemma disposed_step:
  assumes "sync_inv str s" and "ts_disposed s"
  shows "sync_exec str time now op s =
    (case op of SyStore cop \<Rightarrow> on_store (chat_exec str time cop) s | SyDispose \<Rightarrow> sync_dispose s | _ \<Rightarrow> s)"
proof -
  have "pushWait s = []" "retryTimers s = []" "batchTimer s = None" "inFlight s = None"
    using assms by (auto simp: sync_defs)
  then show ?thesis using assms(2)
    by (cases op) (auto simp: sync_exec_def onConnect_def onHistory_def onMessage_def onPushed_def onLanguageChange_def
        onAutoTranslateChange_def onScrolledToOlder_def sync_retry_def onAnswer_def pushWait_fires_def retry_fires_def
        batch_fires_def Let_def split: jsval.splits)
qed

lemma disposed_run:
  "sync_inv str s \<Longrightarrow> ts_disposed s \<Longrightarrow> ts_requests (sync_run str time ops s) = ts_requests s \<and>
   ts_reported (sync_run str time ops s) = ts_reported s \<and> ts_disposed (sync_run str time ops s)"
proof (induction str time ops s rule: sync_run.induct)
  case (2 str time now op ops s)
  have "ts_requests (sync_exec str time now op s) = ts_requests s \<and> ts_reported (sync_exec str time now op s) = ts_reported s \<and>
      ts_disposed (sync_exec str time now op s)"
    unfolding disposed_step [OF 2(2,3)] using 2(3) by (cases op) (simp_all add: sync_dispose_def resetWork_def)
  then show ?case using 2(1) [OF sync_exec_inv [OF 2(2)]] by simp
qed simp

subsection \<open>Retries\<close>

text \<open>What one item of a failed batch leads to: another try later, or the mark that it failed.\<close>

definition retry_outcome ::
    "(jsval \<Rightarrow> jstring) \<Rightarrow> millis \<Rightarrow> jsval \<Rightarrow> nat \<Rightarrow> tsync \<Rightarrow> bool" where
  "retry_outcome str now i n s \<longleftrightarrow>
     (if n < 2 then map_of (retryTimers s) (str i) = Some (now + [10000, 30000] ! n, i) \<and> attempts_of (str i) s = n + 1
      else str i \<in> set (chatTranslationFailed (ts_store s)) \<and> str i \<notin> set (chatTranslationPending (ts_store s)) \<and>
        attempts_of (str i) s = 0)"

lemma set_fold_set_add: "set (fold set_add ks s) = set ks \<union> set s"
  by (induction ks arbitrary: s) auto

lemma schedule_retry_this: "retry_outcome str now i (attempts_of (str i) s) (schedule_retry str now None i s)"
  by (auto simp: retry_outcome_def schedule_retry_def scheduleReenqueue_def clearRetry_def attempts_of_def Let_def
      RETRY_DELAYS_MS_def markTranslationFailed_def withoutKeys_def set_fold_set_add)

lemma schedule_retry_other:
  assumes "str j \<noteq> str i"
  shows "attempts_of (str i) (schedule_retry str now over j s) = attempts_of (str i) s"
    and "retry_outcome str now i n s \<Longrightarrow> retry_outcome str now i n (schedule_retry str now over j s)"
  using assms
  by (auto simp: retry_outcome_def schedule_retry_def scheduleReenqueue_def clearRetry_def attempts_of_def Let_def
      markTranslationFailed_def withoutKeys_def set_fold_set_add)

lemma scheduleRetries_outcome:
  "distinct (map str ids) \<Longrightarrow> i \<in> set ids \<Longrightarrow>
   retry_outcome str now i (attempts_of (str i) s) (scheduleRetries str now ids None s)"
proof (induction ids arbitrary: s)
  case (Cons j ids)
  have keep: "retry_outcome str now i n s1 \<Longrightarrow> str i \<notin> str ` set xs \<Longrightarrow>
      retry_outcome str now i n (fold (schedule_retry str now None) xs s1)" for xs n s1
    by (induction xs arbitrary: s1) (auto simp: schedule_retry_other)
  show ?case
  proof (cases "j = i")
    case True
    with Cons.prems(1) show ?thesis
      using keep [OF schedule_retry_this [of str now i s], of ids] by (simp add: scheduleRetries_def)
  next
    case False
    with Cons.prems have "i \<in> set ids" "str j \<noteq> str i" by (auto simp: image_iff)
    with Cons.IH [of "schedule_retry str now None j s"] Cons.prems show ?thesis
      by (simp add: scheduleRetries_def schedule_retry_other(1))
  qed
qed simp

lemma takeBatch_marks:
  "takeBatch str cs items chars s = (items', s') \<Longrightarrow>
   chatTranslationFailed (ts_store s') = chatTranslationFailed (ts_store s) \<and>
   set (chatTranslationPending (ts_store s')) \<subseteq> set (chatTranslationPending (ts_store s)) \<and>
   retryTimers s' = retryTimers s \<and> ts_attempts s' = ts_attempts s"
proof (induction cs arbitrary: items chars s)
  case (Cons i cs)
  have cleared: "chatTranslationFailed (clearTranslationPending (Some [str i]) (ts_store s)) = chatTranslationFailed (ts_store s)"
    "set (chatTranslationPending (clearTranslationPending (Some [str i]) (ts_store s))) \<subseteq> set (chatTranslationPending (ts_store s))"
    by (auto simp: clearTranslationPending_def withoutKeys_def)
  show ?case
  proof (cases "messageById str i s")
    case None
    then have "takeBatch str cs items chars (on_store (clearTranslationPending (Some [str i]))
        (s\<lparr>candidateSet := removeAll (str i) (candidateSet s)\<rparr>)) = (items', s')" using Cons.prems by simp
    from Cons.IH [OF this] cleared show ?thesis by auto
  next
    case (Some m)
    then consider
        "takeBatch str cs items chars (on_store (clearTranslationPending (Some [str i]))
          (s\<lparr>candidateSet := removeAll (str i) (candidateSet s)\<rparr>)) = (items', s')" |
        "s' = s\<lparr>candidates := i # cs\<rparr>" |
        it ch where "takeBatch str cs it ch (s\<lparr>candidateSet := removeAll (str i) (candidateSet s)\<rparr>) = (items', s')"
      using Cons.prems by (auto simp: Let_def split: if_splits)
    then show ?thesis
    proof cases
      case 1
      from Cons.IH [OF this] cleared show ?thesis by auto
    next
      case 3
      from Cons.IH [OF this] show ?thesis by simp
    qed simp
  qed
qed auto

lemma runBatch_outcome: "retry_outcome str now i n s \<Longrightarrow> retry_outcome str now i n (runBatch str now' s)"
proof -
  obtain items s1 where tb: "takeBatch str (candidates s) [] 0 s = (items, s1)" by (metis surj_pair)
  from takeBatch_marks [OF this] show "retry_outcome str now i n s \<Longrightarrow> ?thesis"
    by (auto simp: runBatch_def tb retry_outcome_def attempts_of_def Let_def split: option.splits if_splits)
qed

lemma outcome_frame [simp]:
  "retry_outcome str now i n (s\<lparr>batchTimer := b\<rparr>) = retry_outcome str now i n s"
  "retry_outcome str now i n (s\<lparr>inFlight := f\<rparr>) = retry_outcome str now i n s"
  by (simp_all add: retry_outcome_def attempts_of_def)

lemma scheduleBatch_outcome: "retry_outcome str now i n s \<Longrightarrow> retry_outcome str now i n (scheduleBatch str now' d s)"
  using runBatch_outcome [of str now i n "s\<lparr>batchTimer := None\<rparr>" now']
  by (simp add: scheduleBatch_def Let_def split: option.split)

lemma answer_outcome:
  assumes "sync_inv str s" and "inFlight s = Some r" and "i \<in> fst ` set (rq_items r)"
  shows "retry_outcome str now i (attempts_of (str i) s) (onAnswer str now (rq_no r) (BatchError False None) s)"
proof -
  have "request_ok str r" using assms(1,2) by (auto simp: sync_defs list_all_iff)
  then have "distinct (map str (map fst (rq_items r)))" by (simp add: request_ok_def)
  from scheduleRetries_outcome [OF this, of i now s] assms(3)
  have "retry_outcome str now i (attempts_of (str i) s) (batch_fail str now (rq_items r) False None s)"
    by (simp add: batch_fail_def)
  then have "retry_outcome str now i (attempts_of (str i) s) ((batch_fail str now (rq_items r) False None s)\<lparr>inFlight := None\<rparr>)"
    by simp
  from scheduleBatch_outcome [OF this] show ?thesis using assms(2) by (simp add: onAnswer_def)
qed

lemma sync_reach_inv: "sync_inv str (sync_run str time ops (createTranslationSync st))"
  by (rule sync_run_inv [OF sync_initial_inv])

text \<open>A request that is not in flight any more never comes back.\<close>

lemma late_answer:
  assumes "inFlight s0 = None" and "n < length (ts_requests s0)" and "fresh_flight s0 s"
  shows "onAnswer str now n out s = s"
  using assms by (auto simp: fresh_flight_def onAnswer_def split: option.splits)

lemma language_fresh:
  assumes "\<not> ts_disposed s" and "Some (effectiveLang l) \<noteq> myLang s"
  shows "\<exists>s0. inFlight s0 = None \<and> ts_requests s0 = ts_requests s \<and> fresh_flight s0 (onLanguageChange str now l s)"
proof -
  let ?r = "on_store resetTranslationStatus (resetWork (s\<lparr>myLang := Some (effectiveLang l)\<rparr>))"
  let ?s0 = "if ts_connected ?r then report_lang ?r else ?r"
  have "onLanguageChange str now l s = scanStore str now HISTORY_FIRST_BATCH_DELAY_MS ?s0"
    using assms by (simp add: onLanguageChange_def reset_and_scan_def Let_def)
  then have "fresh_flight ?s0 (onLanguageChange str now l s)" by (metis scanStore_fresh)
  moreover have "inFlight ?s0 = None" "ts_requests ?s0 = ts_requests s" by simp_all
  ultimately show ?thesis by blast
qed

end
