(* ===== verification/SyncProperties.thy ===== *)
theory SyncProperties
  imports SyncRules
begin

text \<open>The properties of the translation synchroniser, each with a concrete instance.\<close>

subsection \<open>A concrete run\<close>

text \<open>One message in Latin letters; the user reads Korean, so the message needs a translation.\<close>

definition ex_string :: "jsval \<Rightarrow> jstring" where
  "ex_string v = (case v of JStr s \<Rightarrow> s | _ \<Rightarrow> [])"

definition ex_hello :: chat_msg where
  "ex_hello = [(lit ''id'', JStr [49]), (lit ''content'', JStr [104])]"

definition ex_store :: chat_store where
  "ex_store = \<lparr>chatMessages = [ex_hello], chatTranslations = [], chatTranslationPending = [], chatTranslationFailed = []\<rparr>"

definition ex_request :: sync_request where
  "ex_request = \<lparr>rq_no = 0, rq_at = 1000, rq_lang = ''ko'', rq_items = [(JStr [49], [104])]\<rparr>"

definition ex_sent :: tsync where
  "ex_sent = (createTranslationSync ex_store)\<lparr>myLang := Some ''ko'', autoTranslate := True, ts_connected := True,
     inFlight := Some ex_request, lastRequestAt := Some 1000, ts_requests := [ex_request], ts_reported := [Some ''ko''],
     ts_store := ex_store\<lparr>chatTranslationPending := [[49]]\<rparr>\<rparr>"

lemma ex_fields: "js_field ex_hello ''id'' = JStr [49]" "js_field ex_hello ''content'' = JStr [104]" "js_field ex_hello ''_type'' = JUndef"
  by (simp_all add: js_field_def ex_hello_def)

lemma ex_script: "web_detectScript [104] = ScLatin"
  by (simp add: web_detectScript_def countScripts_def count_one_def w_classes)

lemma ex_find: "chatMessages (ts_store s) = [ex_hello] \<Longrightarrow> messageById ex_string (JStr [49]) s = Some ex_hello"
  by (simp add: messageById_def ex_fields is_system_def nullish_def ex_string_def)

lemma ex_eligible: "chatTranslations (ts_store s) = [] \<Longrightarrow> myLang s = Some ''ko'' \<Longrightarrow> eligible ex_string s (Some ex_hello)"
  by (simp add: eligible_def ex_fields is_system_def nullish_def ex_string_def ex_script web_unambiguousLang_def
      script_lang_def hasMine_def tr_lookup_def)

lemma ex_run_sent:
  "sync_run ex_string (\<lambda>m. 0) [(0, SyConnect (Some ''ko'') True), (1000, SyBatchTimer)] (createTranslationSync ex_store) = ex_sent"
proof -
  let ?c = "(createTranslationSync ex_store)\<lparr>myLang := Some ''ko'', autoTranslate := True, ts_connected := True,
    ts_reported := [Some ''ko'']\<rparr>"
  have ko: "effectiveLang (Some ''ko'') = ''ko''" by (simp add: effectiveLang_def TARGET_LANGS_def)
  have st: "chatMessages ex_store = [ex_hello]" "chatTranslations ex_store = []" by (simp_all add: ex_store_def)
  have "onConnect ex_string 0 (Some ''ko'') True (createTranslationSync ex_store) =
      scanStore ex_string 0 1000 ?c"
    by (simp add: onConnect_def createTranslationSync_def resetWork_def report_lang_def clearTranslationPending_def
        HISTORY_FIRST_BATCH_DELAY_MS_def ko ex_store_def)
  also have "\<dots> = ?c\<lparr>candidates := [JStr [49]], candidateSet := [[49]], batchTimer := Some 1000,
      ts_store := ex_store\<lparr>chatTranslationPending := [[49]]\<rparr>\<rparr>"
    using ex_eligible [of ?c] ex_find [of ?c]
    by (simp add: scanStore_def createTranslationSync_def st slice_last_def HISTORY_FIRST_BATCH_COUNT_def enqueue_def
        enqueue_one_def ex_fields in_flight_keys_def clearWait_def Let_def scheduleBatch_def batch_at_def
        markTranslationPending_def set_add_def ex_string_def) (simp add: ex_store_def)
  finally have "onConnect ex_string 0 (Some ''ko'') True (createTranslationSync ex_store) =
      ?c\<lparr>candidates := [JStr [49]], candidateSet := [[49]], batchTimer := Some 1000,
        ts_store := ex_store\<lparr>chatTranslationPending := [[49]]\<rparr>\<rparr>" .
  moreover have "batch_fires ex_string 1000 (?c\<lparr>candidates := [JStr [49]], candidateSet := [[49]], batchTimer := Some 1000,
      ts_store := ex_store\<lparr>chatTranslationPending := [[49]]\<rparr>\<rparr>) = ex_sent"
    using ex_eligible ex_find
    by (simp add: batch_fires_def runBatch_def createTranslationSync_def st ex_fields ex_string_def Let_def
        BATCH_MAX_ITEMS_def ex_sent_def ex_request_def)
  ultimately show ?thesis by (simp add: sync_exec_def)
qed

subsection \<open>Batches\<close>

text \<open>
  Property C14. Whatever happens, in any order, every request names at least one and at most twenty
  messages, none twice, of at most two thousand characters together unless it is a single message,
  and two requests are at least a second apart, also across reconnects and changes of the language. A
  message is never queued twice nor queued while it is asked for, and a queued message always has a
  timer or a running request that will come back to the queue.
\<close>

theorem batches_in_order:
  "let s = sync_run str time ops (createTranslationSync st) in
   list_all (\<lambda>r. 1 \<le> length (rq_items r) \<and> length (rq_items r) \<le> 20 \<and>
     (item_chars (rq_items r) \<le> 2000 \<or> length (rq_items r) = 1) \<and> distinct (map (str \<circ> fst) (rq_items r))) (ts_requests s) \<and>
   successively (\<lambda>a b. rq_at a + 1000 \<le> rq_at b) (ts_requests s) \<and>
   distinct (map str (candidates s)) \<and> in_flight_keys str s \<inter> str ` set (candidates s) = {} \<and>
   (candidates s = [] \<or> (\<exists>r. inFlight s = Some r) \<or> (\<exists>t. batchTimer s = Some t))"
proof -
  define s where "s = sync_run str time ops (createTranslationSync st)"
  have inv: "sync_inv str s" unfolding s_def by (rule sync_reach_inv)
  have one: "1 \<le> length xs \<and> (length xs \<le> 1 \<longrightarrow> length xs = 1)" if "xs \<noteq> []" for xs :: "sync_item list"
    using that by (cases xs) auto
  have "list_all (\<lambda>r. 1 \<le> length (rq_items r) \<and> length (rq_items r) \<le> 20 \<and>
      (item_chars (rq_items r) \<le> 2000 \<or> length (rq_items r) = 1) \<and> distinct (map (str \<circ> fst) (rq_items r))) (ts_requests s)"
    using inv one by (fastforce simp: sync_inv_def sync_base_def requests_ok_def list_all_iff request_ok_def batch_fits_def
        BATCH_MAX_ITEMS_def BATCH_MAX_CHARS_def)
  moreover have "successively (\<lambda>a b. rq_at a + 1000 \<le> rq_at b) (ts_requests s)"
    using inv by (simp add: sync_inv_def sync_base_def requests_ok_def BATCH_MIN_INTERVAL_MS_def)
  moreover have "distinct (map str (candidates s)) \<and> in_flight_keys str s \<inter> str ` set (candidates s) = {}"
    using inv by (simp add: sync_inv_def sync_base_def queue_ok_def)
  moreover have "candidates s = [] \<or> (\<exists>r. inFlight s = Some r) \<or> (\<exists>t. batchTimer s = Some t)"
    using inv by (auto simp: sync_inv_def served_def)
  ultimately show ?thesis unfolding s_def [symmetric] Let_def by blast
qed

subsection \<open>Answers\<close>

text \<open>
  An answer that comes after the language has changed is never used, whatever happened in
  between: the synchroniser has forgotten the request, and no later request has its number.
\<close>

theorem late_answer_ignored:
  assumes "\<not> ts_disposed s" and "Some (effectiveLang l) \<noteq> myLang s" and "n < length (ts_requests s)"
    and "s' = sync_run str time ops (onLanguageChange str now l s)"
  shows "onAnswer str now' n out s' = s'"
proof -
  obtain s0 where z: "inFlight s0 = None" "ts_requests s0 = ts_requests s" "fresh_flight s0 (onLanguageChange str now l s)"
    using language_fresh [OF assms(1,2)] by blast
  have "fresh_flight s0 s'" unfolding assms(4) by (rule fresh_trans [OF z(3) sync_run_fresh])
  then show ?thesis by (rule late_answer [OF z(1), rotated]) (simp add: z(2) assms(3))
qed

theorem late_answer_ignored_witness:
  "onAnswer ex_string 1500 0 (BatchError False None) (sync_run ex_string (\<lambda>m. 0) [(1300, SyHistory)]
      (onLanguageChange ex_string 1200 (Some ''ja'') ex_sent)) =
   sync_run ex_string (\<lambda>m. 0) [(1300, SyHistory)] (onLanguageChange ex_string 1200 (Some ''ja'') ex_sent)"
proof -
  have "Some (effectiveLang (Some ''ja'')) \<noteq> myLang ex_sent"
    by (simp add: effectiveLang_def TARGET_LANGS_def ex_sent_def createTranslationSync_def)
  then show ?thesis
    by (intro late_answer_ignored [OF _ _ _ refl]) (simp_all add: ex_sent_def createTranslationSync_def)
qed

text \<open>
  When a batch fails, every message in it is tried again ten seconds after its first
  failure and thirty seconds after its second; at the third it is marked as failed and stops waiting.
\<close>

theorem failed_batch_retries:
  assumes "s = sync_run str time ops (createTranslationSync st)" and "inFlight s = Some r"
    and "i \<in> fst ` set (rq_items r)" and "s' = onAnswer str now (rq_no r) (BatchError False None) s"
  shows "if attempts_of (str i) s < 2
    then map_of (retryTimers s') (str i) = Some (now + [10000, 30000] ! attempts_of (str i) s, i) \<and>
      attempts_of (str i) s' = attempts_of (str i) s + 1
    else str i \<in> set (chatTranslationFailed (ts_store s')) \<and> str i \<notin> set (chatTranslationPending (ts_store s')) \<and>
      attempts_of (str i) s' = 0"
proof -
  have "sync_inv str s" unfolding assms(1) by (rule sync_reach_inv)
  from answer_outcome [OF this assms(2,3), of now] show ?thesis unfolding assms(4) retry_outcome_def .
qed

theorem failed_batch_retries_witness:
  "map_of (retryTimers (onAnswer ex_string 1400 0 (BatchError False None) ex_sent)) [49] = Some (11400, JStr [49])"
proof -
  have "inFlight ex_sent = Some ex_request" "JStr [49] \<in> fst ` set (rq_items ex_request)" "rq_no ex_request = 0"
    "attempts_of [49] ex_sent = 0" "ex_string (JStr [49]) = [49]"
    by (simp_all add: ex_sent_def ex_request_def attempts_of_def createTranslationSync_def ex_string_def)
  with failed_batch_retries [OF ex_run_sent [symmetric] this(1,2) refl, of 1400] show ?thesis by simp
qed

subsection \<open>The end\<close>

text \<open>
  After \<open>dispose\<close> the synchroniser is silent: whatever is called, fires or arrives, nothing
  is requested or reported any more.
\<close>

theorem disposed_silent:
  "let s = sync_dispose (sync_run str time ops (createTranslationSync st)) in
   ts_requests (sync_run str time ops' s) = ts_requests s \<and> ts_reported (sync_run str time ops' s) = ts_reported s"
proof -
  let ?s = "sync_run str time ops (createTranslationSync st)"
  have "sync_inv str (sync_dispose ?s)" using sync_exec_inv [OF sync_reach_inv, of str time _ SyDispose]
    by (simp add: sync_exec_def)
  moreover have "ts_disposed (sync_dispose ?s)" by (simp add: sync_dispose_def resetWork_def)
  ultimately show ?thesis unfolding Let_def using disposed_run by blast
qed

end
