(* ===== verification/ClockSync.thy ===== *)
theory ClockSync
  imports JsText
begin

text \<open>
  The clock of the client, \<open>web/src/clockSync.js\<close>: samples of the server's clock, the choice of the best
  one, the smoothing of the offset, and the life of the synchronisation between \<open>startup\<close> and
  \<open>shutdown\<close>. Device times are whole milliseconds, offsets are rationals. What the socket and the HTTP
  call give back is an argument; \<open>tonum\<close> is the coercion of a value in an arithmetic expression. The
  standard deviation is compared through its square.
\<close>

definition SAMPLE_COUNT :: nat where "SAMPLE_COUNT = 5"
definition EXTRA_SAMPLE_COUNT :: nat where "EXTRA_SAMPLE_COUNT = 3"
definition RTT_STDDEV_RESAMPLE_THRESHOLD_MS :: rat where "RTT_STDDEV_RESAMPLE_THRESHOLD_MS = 100"
definition JUMP_THRESHOLD_MS :: rat where "JUMP_THRESHOLD_MS = 500"
definition SMOOTH_OLD_WEIGHT :: rat where "SMOOTH_OLD_WEIGHT = 1 / 2"
definition SMOOTH_NEW_WEIGHT :: rat where "SMOOTH_NEW_WEIGHT = 1 / 2"
definition STARTUP_RETRY_BACKOFF_MS :: "millis list" where
  "STARTUP_RETRY_BACKOFF_MS = [1000, 2000, 5000, 10000, 30000]"
definition DRIFT_THRESHOLD_MS :: rat where "DRIFT_THRESHOLD_MS = 1000"

subsection \<open>Samples\<close>

record clock_sample =
  sm_rtt :: rat
  sm_offset :: rat

text \<open>The four-timestamp formulas; \<open>t1\<close> and \<open>t2\<close> are the server's readings.\<close>

definition four_stamps :: "millis \<Rightarrow> rat \<Rightarrow> rat \<Rightarrow> millis \<Rightarrow> clock_sample" where
  "four_stamps t0 t1 t2 t3 =
     \<lparr>sm_rtt = of_int (t3 - t0) - (t2 - t1), sm_offset = (t1 - of_int t0 + (t2 - of_int t3)) / 2\<rparr>"

definition finite_sample :: "millis \<Rightarrow> jsnum \<Rightarrow> jsnum \<Rightarrow> millis \<Rightarrow> clock_sample option" where
  "finite_sample t0 a b t3 =
     (case (a, b) of (NumFin t1, NumFin t2) \<Rightarrow> Some (four_stamps t0 t1 t2 t3) | _ \<Rightarrow> None)"

datatype ping_outcome =
    NotConnected
  | PingTimeout
  | PingThrows
  | PingAck jsval millis

datatype rest_outcome = RestFails | RestAnswers jsval millis

definition ws_sample :: "millis \<Rightarrow> ping_outcome \<Rightarrow> clock_sample option" where
  "ws_sample t0 ping =
     (case ping of
        PingAck res t3 \<Rightarrow>
          (case (js_get res ''t1'', js_get res ''t2'') of
             (JNum a, JNum b) \<Rightarrow> finite_sample t0 a b t3
           | _ \<Rightarrow> None)
      | _ \<Rightarrow> None)"

definition rest_sample :: "(jsval \<Rightarrow> jsnum) \<Rightarrow> millis \<Rightarrow> rest_outcome \<Rightarrow> clock_sample option" where
  "rest_sample tonum t0 rest =
     (case rest of
        RestFails \<Rightarrow> None
      | RestAnswers res t3 \<Rightarrow>
          (case (js_get res ''t1'', js_get res ''t2'') of
             (JNum a, JNum b) \<Rightarrow> finite_sample t0 a b t3
           | _ \<Rightarrow> (case tonum (js_get res ''utc'') of
                     NumFin utc \<Rightarrow> Some \<lparr>sm_rtt = of_int (t3 - t0), sm_offset = utc - of_int (t0 + t3) / 2\<rparr>
                   | _ \<Rightarrow> None)))"

definition fetchOneSample :: "(jsval \<Rightarrow> jsnum) \<Rightarrow> millis \<Rightarrow> ping_outcome \<Rightarrow> rest_outcome \<Rightarrow> clock_sample option" where
  "fetchOneSample tonum t0 ping rest =
     (case ws_sample t0 ping of Some s \<Rightarrow> Some s | None \<Rightarrow> rest_sample tonum t0 rest)"

definition rtt_variance :: "clock_sample list \<Rightarrow> rat" where
  "rtt_variance samples =
     (if length samples < 2 then 0
      else (let rtts = map sm_rtt samples; mean = sum_list rtts / of_nat (length rtts)
            in sum_list (map (\<lambda>b. (b - mean) ^ 2) rtts) / of_nat (length rtts)))"

definition needs_extra :: "clock_sample list \<Rightarrow> bool" where
  "needs_extra samples \<longleftrightarrow> RTT_STDDEV_RESAMPLE_THRESHOLD_MS ^ 2 \<le> rtt_variance samples"

definition collectSamples :: "clock_sample list \<Rightarrow> nat \<Rightarrow> clock_sample option list \<Rightarrow> clock_sample list" where
  "collectSamples samples n tries = samples @ List.map_filter id (take n tries)"

text \<open>\<open>tries\<close> are the outcomes of the successive calls of \<open>fetchOneSample\<close>.\<close>

definition gather :: "clock_sample option list \<Rightarrow> clock_sample list option" where
  "gather tries =
     (let samples = collectSamples [] SAMPLE_COUNT tries
      in if samples = [] then None
         else Some (if needs_extra samples then collectSamples samples EXTRA_SAMPLE_COUNT (drop SAMPLE_COUNT tries)
                    else samples))"

definition best_sample :: "clock_sample list \<Rightarrow> clock_sample" where
  "best_sample samples = hd (sort_key sm_rtt samples)"

definition smooth :: "bool \<Rightarrow> rat \<Rightarrow> rat \<Rightarrow> rat" where
  "smooth hasSynced prevOffset offset =
     (if \<not> hasSynced \<or> JUMP_THRESHOLD_MS \<le> \<bar>offset - prevOffset\<bar> then offset
      else prevOffset * SMOOTH_OLD_WEIGHT + offset * SMOOTH_NEW_WEIGHT)"

subsection \<open>The state of the module\<close>

datatype sync_state = Unsynced | Syncing | Synced | SyncFailed

text \<open>
  A \<open>startup\<close> that is under way: its token, the number of its attempt, and whether it waits for
  \<open>syncTime\<close> or for the timer of the next attempt. The promise \<open>_startupPromise\<close> is named by the token
  of the startup it tracks.
\<close>

datatype startup_phase = AwaitSync | AwaitBackoff millis

record startup_run =
  su_token :: nat
  su_attempt :: nat
  su_phase :: startup_phase

record clock_sys =
  timeOffset :: rat
  timeSyncRtt :: rat
  timeSyncState :: sync_state
  hasSynced :: bool
  periodicTimer :: bool
  driftTimer :: bool
  lastWallMs :: rat
  lastPerfMs :: rat
  broadcastChannel :: bool
  startupPromise :: "nat option"
  ck_started :: bool
  lifecycleToken :: nat
  startups :: "startup_run list"
  background :: nat
  posted :: "(rat \<times> rat) list"

definition clock_initial :: "rat \<Rightarrow> rat \<Rightarrow> clock_sys" where
  "clock_initial wall perf =
     \<lparr>timeOffset = 0, timeSyncRtt = 0, timeSyncState = Unsynced, hasSynced = False, periodicTimer = False,
      driftTimer = False, lastWallMs = wall, lastPerfMs = perf, broadcastChannel = False, startupPromise = None,
      ck_started = False, lifecycleToken = 0, startups = [], background = 0, posted = []\<rparr>"

definition getServerNow :: "rat \<Rightarrow> rat \<Rightarrow> clock_sys \<Rightarrow> rat" where
  "getServerNow now personalOffsetMs s = now + timeOffset s + personalOffsetMs"

text \<open>The end of \<open>syncTime\<close>, after the last sample has arrived.\<close>

definition syncTime :: "clock_sample list \<Rightarrow> clock_sys \<Rightarrow> clock_sys" where
  "syncTime samples s =
     (let best = best_sample samples; finalOffset = smooth (hasSynced s) (timeOffset s) (sm_offset best)
      in s\<lparr>hasSynced := True, timeOffset := finalOffset, timeSyncRtt := sm_rtt best, timeSyncState := Synced,
           posted := posted s @ (if broadcastChannel s then [(finalOffset, sm_rtt best)] else [])\<rparr>)"

definition startDriftCheck :: "rat \<Rightarrow> rat \<Rightarrow> clock_sys \<Rightarrow> clock_sys" where
  "startDriftCheck wall perf s = s\<lparr>lastWallMs := wall, lastPerfMs := perf, driftTimer := True\<rparr>"

definition stopDriftCheck :: "clock_sys \<Rightarrow> clock_sys" where
  "stopDriftCheck s = s\<lparr>driftTimer := False\<rparr>"

definition startPeriodicSync :: "clock_sys \<Rightarrow> clock_sys" where
  "startPeriodicSync s = s\<lparr>periodicTimer := True\<rparr>"

definition stopPeriodicSync :: "clock_sys \<Rightarrow> clock_sys" where
  "stopPeriodicSync s = s\<lparr>periodicTimer := False\<rparr>"

definition drift_tick :: "rat \<Rightarrow> rat \<Rightarrow> clock_sys \<Rightarrow> clock_sys" where
  "drift_tick wall perf s =
     (if \<not> driftTimer s then s
      else (let drift = wall - lastWallMs s - (perf - lastPerfMs s); s1 = s\<lparr>lastWallMs := wall, lastPerfMs := perf\<rparr>
            in if DRIFT_THRESHOLD_MS < \<bar>drift\<bar> then s1\<lparr>background := background s1 + 1\<rparr> else s1))"

definition periodic_tick :: "clock_sys \<Rightarrow> clock_sys" where
  "periodic_tick s = (if periodicTimer s then s\<lparr>background := background s + 1\<rparr> else s)"

text \<open>A synchronisation nobody waits for ends; a failure is swallowed.\<close>

definition background_done :: "clock_sample option list \<Rightarrow> clock_sys \<Rightarrow> clock_sys" where
  "background_done tries s =
     (if background s = 0 then s
      else (let s1 = s\<lparr>background := background s - 1\<rparr>
            in case gather tries of None \<Rightarrow> s1 | Some samples \<Rightarrow> syncTime samples s1))"

definition broadcast_received :: "jsval \<Rightarrow> clock_sys \<Rightarrow> clock_sys" where
  "broadcast_received data s =
     (if \<not> broadcastChannel s then s
      else if js_get data ''type'' \<noteq> JStr (lit ''offset'') then s
      else (case js_get data ''offset'' of
              JNum (NumFin off) \<Rightarrow>
                s\<lparr>timeOffset := off,
                  timeSyncRtt := (case js_get data ''rtt'' of JNum (NumFin r) \<Rightarrow> r | _ \<Rightarrow> timeSyncRtt s),
                  timeSyncState := Synced, hasSynced := True\<rparr>
            | _ \<Rightarrow> s))"

subsection \<open>Startup and shutdown\<close>

definition backoff_wait :: "nat \<Rightarrow> millis" where
  "backoff_wait attempt = STARTUP_RETRY_BACKOFF_MS ! min attempt (length STARTUP_RETRY_BACKOFF_MS - 1)"

text \<open>\<open>supported\<close> says whether the browser has a broadcast channel that can be opened.\<close>

definition startup :: "bool \<Rightarrow> clock_sys \<Rightarrow> clock_sys" where
  "startup supported s =
     (if ck_started s then s
      else if startupPromise s \<noteq> None then s
      else (let tok = lifecycleToken s + 1
            in s\<lparr>lifecycleToken := tok, broadcastChannel := broadcastChannel s \<or> supported,
                 timeSyncState := Syncing, startupPromise := Some tok,
                 startups := startups s @ [\<lparr>su_token = tok, su_attempt = 0, su_phase = AwaitSync\<rparr>]\<rparr>))"

definition drop_startup :: "nat \<Rightarrow> clock_sys \<Rightarrow> clock_sys" where
  "drop_startup tok s = s\<lparr>startups := filter (\<lambda>r. su_token r \<noteq> tok) (startups s)\<rparr>"

text \<open>The asynchronous function returns: the tracked promise clears itself if it is still the current one.\<close>

definition startup_returns :: "nat \<Rightarrow> clock_sys \<Rightarrow> clock_sys" where
  "startup_returns tok s =
     (let s1 = drop_startup tok s
      in if startupPromise s1 = Some tok then s1\<lparr>startupPromise := None\<rparr> else s1)"

definition set_phase :: "nat \<Rightarrow> nat \<Rightarrow> startup_phase \<Rightarrow> clock_sys \<Rightarrow> clock_sys" where
  "set_phase tok n p s =
     s\<lparr>startups := map (\<lambda>r. if su_token r = tok then r\<lparr>su_attempt := n, su_phase := p\<rparr> else r) (startups s)\<rparr>"

definition find_startup :: "nat \<Rightarrow> clock_sys \<Rightarrow> startup_run option" where
  "find_startup tok s = find (\<lambda>r. su_token r = tok) (startups s)"

text \<open>\<open>syncTime\<close> of a startup ends, and the loop goes on from its \<open>await\<close>.\<close>

definition startup_sync_done ::
    "millis \<Rightarrow> rat \<Rightarrow> rat \<Rightarrow> nat \<Rightarrow> clock_sample option list \<Rightarrow> clock_sys \<Rightarrow> clock_sys" where
  "startup_sync_done now wall perf tok tries s =
     (case find_startup tok s of
        None \<Rightarrow> s
      | Some r \<Rightarrow>
          if su_phase r \<noteq> AwaitSync then s
          else (case gather tries of
                  Some samples \<Rightarrow>
                    (let s1 = syncTime samples s
                     in if tok \<noteq> lifecycleToken s1 then startup_returns tok s1
                        else startup_returns tok ((startDriftCheck wall perf (startPeriodicSync s1))\<lparr>ck_started := True\<rparr>))
                | None \<Rightarrow>
                    if tok \<noteq> lifecycleToken s then startup_returns tok s
                    else set_phase tok (su_attempt r) (AwaitBackoff (now + backoff_wait (su_attempt r)))
                           (s\<lparr>timeSyncState := SyncFailed\<rparr>)))"

definition backoff_fires :: "millis \<Rightarrow> nat \<Rightarrow> clock_sys \<Rightarrow> clock_sys" where
  "backoff_fires now tok s =
     (case find_startup tok s of
        None \<Rightarrow> s
      | Some r \<Rightarrow>
          (case su_phase r of
             AwaitSync \<Rightarrow> s
           | AwaitBackoff due \<Rightarrow>
               if now < due then s
               else if tok \<noteq> lifecycleToken s then startup_returns tok s
               else set_phase tok (su_attempt r + 1) AwaitSync (s\<lparr>timeSyncState := Syncing\<rparr>)))"

definition shutdown :: "clock_sys \<Rightarrow> clock_sys" where
  "shutdown s =
     (stopDriftCheck (stopPeriodicSync
       (s\<lparr>lifecycleToken := lifecycleToken s + 1, ck_started := False, startupPromise := None, hasSynced := False,
          timeSyncState := Unsynced\<rparr>)))\<lparr>broadcastChannel := False\<rparr>"

datatype clock_op =
    CkStartup bool
  | CkShutdown
  | CkSyncNow
  | CkStartupSync nat "clock_sample option list"
  | CkBackoff nat
  | CkPeriodic
  | CkDrift
  | CkBackground "clock_sample option list"
  | CkBroadcast jsval

text \<open>\<open>CkSyncNow\<close> is a call of \<open>syncTime\<close> by the application, on waking up or reconnecting.\<close>

definition clock_exec :: "millis \<times> rat \<Rightarrow> clock_op \<Rightarrow> clock_sys \<Rightarrow> clock_sys" where
  "clock_exec clocks op s =
     (let now = fst clocks; perf = snd clocks
      in case op of
           CkStartup b \<Rightarrow> startup b s
         | CkShutdown \<Rightarrow> shutdown s
         | CkSyncNow \<Rightarrow> s\<lparr>background := background s + 1\<rparr>
         | CkStartupSync tok tries \<Rightarrow> startup_sync_done now (of_int now) perf tok tries s
         | CkBackoff tok \<Rightarrow> backoff_fires now tok s
         | CkPeriodic \<Rightarrow> periodic_tick s
         | CkDrift \<Rightarrow> drift_tick (of_int now) perf s
         | CkBackground tries \<Rightarrow> background_done tries s
         | CkBroadcast d \<Rightarrow> broadcast_received d s)"

fun clock_run :: "((millis \<times> rat) \<times> clock_op) list \<Rightarrow> clock_sys \<Rightarrow> clock_sys" where
  "clock_run [] s = s"
| "clock_run ((c, op) # ops) s = clock_run ops (clock_exec c op s)"

end
