(* ===== verification/ClockRules.thy ===== *)
theory ClockRules
  imports ClockSync
begin

text \<open>
  How exact the client's clock is, and that the life of the synchronisation is in order: one startup at
  a time, the timers exactly while it is started, every failed attempt followed by another.
\<close>

subsection \<open>Accuracy\<close>

text \<open>
  A sample is honest for the difference \<open>theta\<close> of the two clocks when it is at most half a round trip
  off. Every sample taken while the difference stands still is: the request takes \<open>d1\<close>, the server
  answers from \<open>t1\<close> to \<open>t2\<close> of its clock, the answer takes \<open>d2\<close>.
\<close>

definition honest :: "rat \<Rightarrow> clock_sample \<Rightarrow> bool" where
  "honest theta s \<longleftrightarrow> \<bar>sm_offset s - theta\<bar> \<le> sm_rtt s / 2"

lemma four_stamps_honest:
  assumes "t1 = of_int t0 + d1 + theta" and "of_int t3 = t2 - theta + d2" and "0 \<le> d1" "0 \<le> d2"
  shows "honest theta (four_stamps t0 t1 t2 t3)" and "sm_rtt (four_stamps t0 t1 t2 t3) = d1 + d2"
proof -
  have o: "sm_offset (four_stamps t0 t1 t2 t3) - theta = (d1 - d2) / 2"
    unfolding four_stamps_def clock_sample.simps assms(1,2) by (simp add: field_simps)
  show r: "sm_rtt (four_stamps t0 t1 t2 t3) = d1 + d2"
    unfolding four_stamps_def clock_sample.simps of_int_diff assms(1,2) by simp
  show "honest theta (four_stamps t0 t1 t2 t3)" unfolding honest_def o r using assms(3,4) by (auto simp: field_simps)
qed

definition measured :: "rat \<Rightarrow> clock_sample \<Rightarrow> bool" where
  "measured theta s \<longleftrightarrow> (\<exists>t0 t1 t2 t3 d1 d2. s = four_stamps t0 t1 t2 t3 \<and>
     t1 = of_int t0 + d1 + theta \<and> of_int t3 = t2 - theta + d2 \<and> 0 \<le> d1 \<and> 0 \<le> d2)"

lemma measured_honest: "measured theta s \<Longrightarrow> honest theta s"
  unfolding measured_def using four_stamps_honest(1) by blast

lemma sort_key_hd:
  assumes "xs \<noteq> []"
  shows "hd (sort_key f xs) \<in> set xs" and "x \<in> set xs \<Longrightarrow> f (hd (sort_key f xs)) \<le> f x"
proof -
  have ne: "sort_key f xs \<noteq> []" using assms by (metis length_0_conv length_sort)
  then show "hd (sort_key f xs) \<in> set xs" by (metis hd_in_set set_sort)
  show "f (hd (sort_key f xs)) \<le> f x" if "x \<in> set xs"
  proof -
    obtain y ys where c: "sort_key f xs = y # ys" using ne by (cases "sort_key f xs") auto
    have "sorted (map f (sort_key f xs))" by simp
    moreover have "x \<in> set (sort_key f xs)" using that by simp
    ultimately show ?thesis unfolding c by auto
  qed
qed

lemma gather_samples:
  assumes "gather tries = Some samples"
  shows "samples \<noteq> []" and "set (List.map_filter id (take SAMPLE_COUNT tries)) \<subseteq> set samples"
    and "Some ` set samples \<subseteq> set tries" and "length samples \<le> SAMPLE_COUNT + EXTRA_SAMPLE_COUNT"
proof -
  have len: "length (List.map_filter id (take n ts)) \<le> n" for n and ts :: "clock_sample option list"
  proof -
    have "length (List.map_filter id (take n ts)) \<le> length (take n ts)"
      unfolding List.map_filter_def length_map by (rule length_filter_le)
    then show ?thesis by simp
  qed
  have mem: "x \<in> set (List.map_filter id ts) \<Longrightarrow> Some x \<in> set ts" for x and ts :: "clock_sample option list"
    by (auto simp: List.map_filter_def)
  have first: "x \<in> set (List.map_filter id (take n tries)) \<Longrightarrow> Some x \<in> set tries" for x n
    using mem [of x "take n tries"] in_set_takeD [of "Some x" n tries] by blast
  have more: "x \<in> set (List.map_filter id (take n (drop k tries))) \<Longrightarrow> Some x \<in> set tries" for x n k
    using mem [of x "take n (drop k tries)"] in_set_takeD [of "Some x" n "drop k tries"] in_set_dropD [of "Some x" k tries]
    by blast
  show "samples \<noteq> []" "set (List.map_filter id (take SAMPLE_COUNT tries)) \<subseteq> set samples"
    using assms by (auto simp: gather_def Let_def collectSamples_def split: if_splits)
  show "length samples \<le> SAMPLE_COUNT + EXTRA_SAMPLE_COUNT"
    using assms len [of SAMPLE_COUNT tries] len [of EXTRA_SAMPLE_COUNT "drop SAMPLE_COUNT tries"]
    by (auto simp: gather_def Let_def collectSamples_def split: if_splits)
  show "Some ` set samples \<subseteq> set tries"
    using assms by (auto simp: gather_def Let_def collectSamples_def first more split: if_splits)
qed

lemma best_honest:
  assumes "samples \<noteq> []" and "list_all (honest theta) samples" and "x \<in> set samples"
  shows "\<bar>sm_offset (best_sample samples) - theta\<bar> \<le> sm_rtt x / 2"
proof -
  have "honest theta (best_sample samples)"
    using sort_key_hd(1) [OF assms(1)] assms(2) by (auto simp: best_sample_def list_all_iff)
  moreover have "sm_rtt (best_sample samples) \<le> sm_rtt x"
    unfolding best_sample_def by (rule sort_key_hd(2) [OF assms(1,3)])
  ultimately show ?thesis by (auto simp: honest_def)
qed

lemma smooth_error:
  assumes "\<bar>off - theta\<bar> \<le> e" and "hs \<Longrightarrow> \<bar>prev - theta\<bar> \<le> E" and "e \<le> E"
  shows "\<bar>smooth hs prev off - theta\<bar> \<le> (E + e) / 2"
proof (cases "\<not> hs \<or> JUMP_THRESHOLD_MS \<le> \<bar>off - prev\<bar>")
  case True
  then have "smooth hs prev off = off" by (simp add: smooth_def)
  then show ?thesis using assms(1,3) by (simp add: field_simps)
next
  case False
  then have "smooth hs prev off - theta = ((prev - theta) + (off - theta)) / 2"
    by (simp add: smooth_def SMOOTH_OLD_WEIGHT_def SMOOTH_NEW_WEIGHT_def field_simps)
  moreover have "\<bar>(prev - theta) + (off - theta)\<bar> \<le> E + e" using assms(1,2) False by linarith
  ultimately show ?thesis by (simp only: abs_divide) simp
qed

lemma sync_fold_error:
  assumes "list_all (\<lambda>samples. \<bar>sm_offset (best_sample samples) - theta\<bar> \<le> e) rounds"
    and "\<bar>timeOffset s - theta\<bar> \<le> e + d" and "0 \<le> d"
  shows "\<bar>timeOffset (fold syncTime rounds s) - theta\<bar> \<le> e + d / 2 ^ length rounds"
  using assms
proof (induction rounds arbitrary: s d)
  case (Cons samples rounds)
  have "\<bar>timeOffset (syncTime samples s) - theta\<bar> \<le> ((e + d) + e) / 2"
    using smooth_error [of "sm_offset (best_sample samples)" theta e "hasSynced s" "timeOffset s" "e + d"] Cons.prems
    by (simp add: syncTime_def Let_def)
  then have "\<bar>timeOffset (syncTime samples s) - theta\<bar> \<le> e + d / 2" by (simp add: field_simps)
  from Cons.IH [OF _ this] Cons.prems show ?case by (simp add: field_simps)
qed simp

subsection \<open>Startup and shutdown\<close>

definition tokens :: "clock_sys \<Rightarrow> nat list" where
  "tokens s = map su_token (startups s)"

definition clock_inv :: "clock_sys \<Rightarrow> bool" where
  "clock_inv s \<longleftrightarrow>
     distinct (tokens s) \<and> (\<forall>tok\<in>set (tokens s). tok \<le> lifecycleToken s) \<and>
     (lifecycleToken s \<in> set (tokens s) \<longleftrightarrow> startupPromise s = Some (lifecycleToken s)) \<and>
     (startupPromise s = None \<or> startupPromise s = Some (lifecycleToken s)) \<and>
     (ck_started s \<longrightarrow> startupPromise s = None) \<and>
     periodicTimer s = ck_started s \<and> driftTimer s = ck_started s"

lemma clock_inv_initial: "clock_inv (clock_initial wall perf)"
  by (simp add: clock_inv_def clock_initial_def tokens_def)

lemma clock_inv_frame:
  "clock_inv s \<Longrightarrow> startups s' = startups s \<Longrightarrow> lifecycleToken s' = lifecycleToken s \<Longrightarrow>
   startupPromise s' = startupPromise s \<Longrightarrow> ck_started s' = ck_started s \<Longrightarrow> periodicTimer s' = periodicTimer s \<Longrightarrow>
   driftTimer s' = driftTimer s \<Longrightarrow> clock_inv s'"
  by (simp add: clock_inv_def tokens_def)

lemma syncTime_frame [simp]:
  "startups (syncTime x s) = startups s" "lifecycleToken (syncTime x s) = lifecycleToken s"
  "startupPromise (syncTime x s) = startupPromise s" "ck_started (syncTime x s) = ck_started s"
  "periodicTimer (syncTime x s) = periodicTimer s" "driftTimer (syncTime x s) = driftTimer s"
  by (simp_all add: syncTime_def Let_def)

lemma tokens_simps [simp]:
  "tokens (syncTime x s) = tokens s" "tokens (set_phase tok n p s) = tokens s"
  "tokens (drop_startup tok s) = filter (\<lambda>t. t \<noteq> tok) (tokens s)"
  by (simp_all add: tokens_def set_phase_def drop_startup_def filter_map comp_def)

lemma find_startup_token: "find_startup tok s = Some r \<Longrightarrow> tok \<in> set (tokens s)"
  by (auto simp: find_startup_def find_Some_iff tokens_def)

lemma returns_inv: "clock_inv s \<Longrightarrow> clock_inv (startup_returns tok s)"
  by (auto simp: clock_inv_def startup_returns_def drop_startup_def tokens_def Let_def distinct_map_filter)

lemma set_phase_inv: "clock_inv s \<Longrightarrow> clock_inv (set_phase tok n p s)"
  using tokens_simps(2) [of tok n p s] by (simp add: clock_inv_def) (simp add: set_phase_def)

lemma started_inv:
  assumes "clock_inv s" and "tok = lifecycleToken s" and "tok \<in> set (tokens s)"
  shows "clock_inv (startup_returns tok ((startDriftCheck wall perf (startPeriodicSync s))\<lparr>ck_started := True\<rparr>))"
  using assms
  by (auto simp: clock_inv_def startup_returns_def drop_startup_def tokens_def startDriftCheck_def startPeriodicSync_def
      Let_def distinct_map_filter)

lemma startup_sync_done_inv:
  assumes "clock_inv s"
  shows "clock_inv (startup_sync_done now wall perf tok tries s)"
proof -
  have "clock_inv (syncTime x s)" for x by (rule clock_inv_frame [OF assms]) simp_all
  moreover have "clock_inv (s\<lparr>timeSyncState := x\<rparr>)" for x by (rule clock_inv_frame [OF assms]) simp_all
  ultimately show ?thesis using assms find_startup_token [of tok s]
    by (auto simp: startup_sync_done_def Let_def returns_inv set_phase_inv started_inv split: option.splits)
qed

lemma clock_exec_inv:
  assumes "clock_inv s"
  shows "clock_inv (clock_exec c op s)"
proof (cases op)
  case (CkStartup b)
  then show ?thesis using assms by (auto simp: clock_exec_def startup_def clock_inv_def tokens_def Let_def)
next
  case CkShutdown
  then show ?thesis using assms
    by (auto simp: clock_exec_def shutdown_def stopDriftCheck_def stopPeriodicSync_def clock_inv_def tokens_def Let_def)
next
  case (CkStartupSync tok tries)
  then show ?thesis using assms by (simp add: clock_exec_def startup_sync_done_inv Let_def)
next
  case (CkBackoff tok)
  have "clock_inv (s\<lparr>timeSyncState := x\<rparr>)" for x by (rule clock_inv_frame [OF assms]) simp_all
  then show ?thesis using assms CkBackoff
    by (auto simp: clock_exec_def backoff_fires_def Let_def returns_inv set_phase_inv split: option.splits startup_phase.splits)
next
  case (CkBackground tries)
  then show ?thesis
    by (auto simp: clock_exec_def background_done_def Let_def intro!: clock_inv_frame [OF assms] split: option.splits)
next
  case (CkBroadcast d)
  then show ?thesis
    by (auto simp: clock_exec_def broadcast_received_def Let_def assms intro!: clock_inv_frame [OF assms]
        split: jsval.splits jsnum.splits)
qed (auto simp: clock_exec_def periodic_tick_def drift_tick_def Let_def intro!: clock_inv_frame [OF assms])

lemma clock_run_inv: "clock_inv s \<Longrightarrow> clock_inv (clock_run ops s)"
  by (induction ops s rule: clock_run.induct) (simp_all add: clock_exec_inv)

lemma backoff_bounds: "1000 \<le> backoff_wait n \<and> backoff_wait n \<le> 30000"
proof -
  have "min n (length STARTUP_RETRY_BACKOFF_MS - 1) \<in> {0, 1, 2, 3, 4}" by (auto simp: STARTUP_RETRY_BACKOFF_MS_def)
  then show ?thesis unfolding backoff_wait_def by (auto simp: STARTUP_RETRY_BACKOFF_MS_def)
qed

lemma length_filter_distinct:
  "distinct (map f xs) \<Longrightarrow> length (filter (\<lambda>x. f x = n) xs) = (if n \<in> f ` set xs then 1 else 0)"
  by (induction xs) auto

lemma live_startup:
  assumes "clock_inv s"
  shows "length (filter (\<lambda>r. su_token r = lifecycleToken s) (startups s)) = (if startupPromise s = None then 0 else 1) \<and>
    startupPromise s \<in> {None, Some (lifecycleToken s)} \<and>
    periodicTimer s = ck_started s \<and> driftTimer s = ck_started s \<and> \<not> (ck_started s \<and> startupPromise s \<noteq> None)"
  using assms length_filter_distinct [of su_token "startups s" "lifecycleToken s"]
  by (auto simp: clock_inv_def tokens_def)

end
