(* ===== verification/ClockProperties.thy ===== *)
theory ClockProperties
  imports ClockRules
begin

text \<open>The properties of the client's clock, each with a concrete instance.\<close>

text \<open>
  Property C15. While the two clocks keep their difference \<open>theta\<close>, every synchronisation halves what is
  left of the error of the offset, down to half of the shortest round trip of a round: after \<open>n\<close> rounds
  whose best round trip is at most \<open>2 e\<close>, an initial error of at most \<open>e + d\<close> is at most \<open>e + d / 2^n\<close>.
  The time the server takes between its two readings does not enter.
\<close>

theorem sync_converges:
  assumes "list_all (\<lambda>samples. list_all (measured theta) samples \<and> (\<exists>x\<in>set samples. sm_rtt x \<le> 2 * e)) rounds"
    and "\<bar>timeOffset s - theta\<bar> \<le> e + d" and "0 \<le> d"
  shows "\<bar>timeOffset (fold syncTime rounds s) - theta\<bar> \<le> e + d / 2 ^ length rounds"
proof (rule sync_fold_error)
  have "\<bar>sm_offset (best_sample samples) - theta\<bar> \<le> e"
    if "list_all (measured theta) samples" and "x \<in> set samples" and "sm_rtt x \<le> 2 * e" for samples x
  proof -
    have "list_all (honest theta) samples" using that(1) by (auto simp: list_all_iff measured_honest)
    from best_honest [OF _ this that(2)] that(2,3) show ?thesis by force
  qed
  then show "list_all (\<lambda>samples. \<bar>sm_offset (best_sample samples) - theta\<bar> \<le> e) rounds"
    using assms(1) by (fastforce simp: list_all_iff)
qed (use assms in simp_all)

theorem sync_converges_witness:
  "\<bar>timeOffset (fold syncTime [[four_stamps 0 1010 1500 530], [four_stamps 600 1610 1610 620]] (clock_initial 0 0)) - 1000\<bar>
     \<le> 20 + 980 / 2 ^ 2"
proof -
  have "measured 1000 (four_stamps 0 1010 1500 530)" "measured 1000 (four_stamps 600 1610 1610 620)"
    unfolding measured_def by (rule exI, rule exI, rule exI, rule exI, rule exI [of _ 10], rule exI [of _ 30], rule conjI [OF refl], simp)
      (rule exI, rule exI, rule exI, rule exI, rule exI [of _ 10], rule exI [of _ 10], rule conjI [OF refl], simp)
  then have "list_all (\<lambda>samples. list_all (measured 1000) samples \<and> (\<exists>x\<in>set samples. sm_rtt x \<le> 2 * 20))
      [[four_stamps 0 1010 1500 530], [four_stamps 600 1610 1610 620]]"
    by (simp add: four_stamps_def)
  from sync_converges [OF this, of "clock_initial 0 0" 980] show ?thesis by (simp add: clock_initial_def)
qed

text \<open>
  Property C16. However calls of \<open>startup\<close> and \<open>shutdown\<close>, ends of synchronisations and timers follow each
  other, at most one startup loop is alive, it is the one whose promise later callers get, and the
  periodic timer and the drift check run exactly while the synchronisation is started.
\<close>

theorem one_startup:
  "let s = clock_run ops (clock_initial wall perf) in
   length (filter (\<lambda>r. su_token r = lifecycleToken s) (startups s)) = (if startupPromise s = None then 0 else 1) \<and>
   startupPromise s \<in> {None, Some (lifecycleToken s)} \<and>
   periodicTimer s = ck_started s \<and> driftTimer s = ck_started s \<and> \<not> (ck_started s \<and> startupPromise s \<noteq> None)"
  unfolding Let_def by (rule live_startup [OF clock_run_inv [OF clock_inv_initial]])

text \<open>
  A synchronisation that is still under way at \<open>shutdown\<close> is not stopped: when its samples
  arrive it marks the clock as synchronised, and as having synchronised before, although nothing is
  started.
\<close>

theorem shutdown_overwritten:
  assumes "startups s = []" and "lifecycleToken s = n" and "\<not> ck_started s" "startupPromise s = None"
    and "gather tries = Some samples"
  shows "timeSyncState (startup_sync_done now wall perf (n + 1) tries (shutdown (startup True s))) = Synced \<and>
    hasSynced (startup_sync_done now wall perf (n + 1) tries (shutdown (startup True s))) \<and>
    \<not> ck_started (startup_sync_done now wall perf (n + 1) tries (shutdown (startup True s)))"
  using assms
  by (simp add: startup_def shutdown_def stopDriftCheck_def stopPeriodicSync_def startup_sync_done_def find_startup_def
      startup_returns_def drop_startup_def syncTime_def Let_def)

theorem shutdown_overwritten_witness:
  "timeSyncState (startup_sync_done 500 500 500 1 [Some (four_stamps 0 1010 1500 530)]
     (shutdown (startup True (clock_initial 0 0)))) = Synced"
proof -
  have "gather [Some (four_stamps 0 1010 1500 530)] = Some [four_stamps 0 1010 1500 530]"
    by (simp add: gather_def collectSamples_def SAMPLE_COUNT_def List.map_filter_def needs_extra_def rtt_variance_def
        RTT_STDDEV_RESAMPLE_THRESHOLD_MS_def Let_def)
  from shutdown_overwritten [OF _ refl _ _ this, of "clock_initial 0 0" 500 500 500]
  show ?thesis by (simp add: clock_initial_def)
qed

end
