(* ===== verification/AudioPlayer.thy ===== *)
theory AudioPlayer
  imports JsText
begin

text \<open>
  The two players that speak the countdowns, \<open>web/src/components/Battle/countdownPlayer.js\<close> and
  \<open>rallyGroupPlayer.js\<close>. They are the same machine over different slots: the shared definitions take
  what differs as a record of functions and are instantiated twice. A sound stands for its cache key.
  Audio time is rational seconds of the context's clock; \<open>au\<close> holds what the browser reports at a step.
  A promise that is still pending is an entry of the state: a buffer that loads with the slots waiting
  for it, and a schedule that waits for its first buffer or for the context to resume.
\<close>

datatype sound = SNum nat | SMarch | SCaptain int | SRallyStart int

datatype ctx_state = CtxRunning | CtxSuspended | CtxInterrupted | CtxClosed

record audio_now =
  au_time :: rat
  au_wall :: rat
  au_outputLatency :: jsval
  au_baseLatency :: jsval

definition MAX_OUTPUT_LATENCY_SEC :: rat where "MAX_OUTPUT_LATENCY_SEC = 1 / 2"
definition MAX_OFFSET_SEC :: int where "MAX_OFFSET_SEC = 180"
definition PAST_DUE_SEC :: rat where "PAST_DUE_SEC = 1 / 5"

definition positive_number :: "jsval \<Rightarrow> rat" where
  "positive_number v = (case v of JNum (NumFin r) \<Rightarrow> if 0 < r then r else 0 | _ \<Rightarrow> 0)"

definition outputLatencySec :: "audio_now \<Rightarrow> rat" where
  "outputLatencySec au =
     (let raw = (if positive_number (au_outputLatency au) \<noteq> 0 then positive_number (au_outputLatency au)
                 else positive_number (au_baseLatency au))
      in if raw \<le> 0 then 0 else min raw MAX_OUTPUT_LATENCY_SEC)"

definition round_half_up :: "rat \<Rightarrow> int" where
  "round_half_up x = \<lfloor>x + 1 / 2\<rfloor>"

definition getAutoLatencyMs :: "ctx_state option \<Rightarrow> audio_now \<Rightarrow> int" where
  "getAutoLatencyMs c au = (case c of None \<Rightarrow> 0 | Some st \<Rightarrow> round_half_up (outputLatencySec au * 1000))"

text \<open>\<open>Math.max(0, Math.min(1, Number(linear) || 0))\<close> cubed; the callers pass a finite number.\<close>

definition perceptualVolume :: "rat \<Rightarrow> rat" where
  "perceptualVolume x = (let v = max 0 (min 1 x) in v * v * v)"

subsection \<open>The machine\<close>

record play_slot =
  sl_sound :: sound
  sl_at :: rat
  sl_id :: nat

datatype buffer_entry = BufLoading "play_slot list" | BufReady

datatype run_phase = AwaitFirst | AwaitResume

record 'p play_run =
  pr_id :: nat
  pr_params :: 'p
  pr_phase :: run_phase

record 'p player =
  pl_new :: "ctx_state option"
  pl_ctx :: "ctx_state option"
  buffers :: "(string \<times> sound, buffer_entry) jmap"
  activeSources :: "(play_slot \<times> rat) list"
  latestScheduleId :: nat
  pendingSchedule :: "'p option"
  play_runs :: "'p play_run list"
  pl_gain :: rat
  dispatchedLog :: "(play_slot \<times> rat) list"

record 'p player_kind =
  k_valid :: "'p \<Rightarrow> bool"
  k_lang :: "'p \<Rightarrow> string"
  k_sounds :: "'p \<Rightarrow> sound list"
  k_startedAt :: "'p \<Rightarrow> rat"
  k_timeOffset :: "'p \<Rightarrow> rat"
  k_slots :: "'p \<Rightarrow> (sound \<times> rat) list"
  k_volume :: "'p \<Rightarrow> jsval"
  k_muted :: "'p \<Rightarrow> bool"

text \<open>\<open>pl_new\<close> is the state of a context the browser would make, \<open>None\<close> if it cannot.\<close>

definition player_initial :: "ctx_state option \<Rightarrow> 'p player" where
  "player_initial c = \<lparr>pl_new = c, pl_ctx = None, buffers = [], activeSources = [], latestScheduleId = 0,
     pendingSchedule = None, play_runs = [], pl_gain = 3 / 10, dispatchedLog = []\<rparr>"

definition ensureContext :: "'p player \<Rightarrow> 'p player" where
  "ensureContext s = (case pl_ctx s of Some c \<Rightarrow> s | None \<Rightarrow> s\<lparr>pl_ctx := pl_new s\<rparr>)"

definition isClockStopped :: "ctx_state option \<Rightarrow> bool" where
  "isClockStopped c \<longleftrightarrow> c = Some CtxSuspended \<or> c = Some CtxInterrupted"

definition loadBuffer :: "string \<Rightarrow> sound \<Rightarrow> 'p player \<Rightarrow> 'p player" where
  "loadBuffer lang key s =
     (if jm_has (buffers s) (lang, key) then s
      else (let s1 = ensureContext s
            in if pl_ctx s1 = None then s1
               else s1\<lparr>buffers := AList.update (lang, key) (BufLoading []) (buffers s1)\<rparr>))"

definition startSource :: "audio_now \<Rightarrow> play_slot \<Rightarrow> 'p player \<Rightarrow> 'p player" where
  "startSource au slot s =
     (if sl_id slot \<noteq> latestScheduleId s then s
      else if pl_ctx s = None then s
      else if sl_at slot < au_time au - PAST_DUE_SEC then s
      else (let start = max (sl_at slot) (au_time au)
            in s\<lparr>activeSources := activeSources s @ [(slot, start)], dispatchedLog := dispatchedLog s @ [(slot, start)]\<rparr>))"

definition schedulePlay :: "audio_now \<Rightarrow> string \<Rightarrow> play_slot \<Rightarrow> 'p player \<Rightarrow> 'p player" where
  "schedulePlay au lang slot s =
     (if pl_ctx s = None then s
      else (let s1 = loadBuffer lang (sl_sound slot) s
            in case map_of (buffers s1) (lang, sl_sound slot) of
                 Some BufReady \<Rightarrow> startSource au slot s1
               | Some (BufLoading ws) \<Rightarrow>
                   s1\<lparr>buffers := AList.update (lang, sl_sound slot) (BufLoading (ws @ [slot])) (buffers s1)\<rparr>
               | None \<Rightarrow> s1))"

text \<open>A load ends: with audio it is kept and the waiting slots start, otherwise the entry is dropped.\<close>

definition buffer_done :: "audio_now \<Rightarrow> string \<Rightarrow> sound \<Rightarrow> bool \<Rightarrow> 'p player \<Rightarrow> 'p player" where
  "buffer_done au lang key ok s =
     (case map_of (buffers s) (lang, key) of
        Some (BufLoading ws) \<Rightarrow>
          if ok then fold (startSource au) ws (s\<lparr>buffers := AList.update (lang, key) BufReady (buffers s)\<rparr>)
          else s\<lparr>buffers := AList.delete (lang, key) (buffers s)\<rparr>
      | _ \<Rightarrow> s)"

definition player_stop :: "'p player \<Rightarrow> 'p player" where
  "player_stop s = s\<lparr>latestScheduleId := latestScheduleId s + 1, pendingSchedule := None, activeSources := []\<rparr>"

definition player_setVolume :: "jsval \<Rightarrow> bool \<Rightarrow> 'p player \<Rightarrow> 'p player" where
  "player_setVolume volume muted s =
     (if pl_ctx s = None then s
      else (let lin = (case volume of JNum (NumFin v) \<Rightarrow> v | _ \<Rightarrow> 3 / 10)
            in s\<lparr>pl_gain := (if muted then 0 else perceptualVolume lin)\<rparr>))"

definition player_schedule :: "'p player_kind \<Rightarrow> 'p \<Rightarrow> 'p player \<Rightarrow> 'p player" where
  "player_schedule k p s =
     (let s0 = ensureContext s
      in if pl_ctx s0 = None then s0
         else if \<not> k_valid k p then s0
         else (let s1 = player_stop s0;
                   myId = latestScheduleId s1 + 1;
                   s2 = player_setVolume (k_volume k p) (k_muted k p)
                          (s1\<lparr>latestScheduleId := myId, pendingSchedule := Some p\<rparr>);
                   s3 = s2\<lparr>dispatchedLog := []\<rparr>;
                   s4 = fold (loadBuffer (k_lang k p)) (k_sounds k p) s3
               in s4\<lparr>play_runs := play_runs s4 @ [\<lparr>pr_id = myId, pr_params = p, pr_phase = AwaitFirst\<rparr>]\<rparr>))"

definition ctx_anchor :: "'p player_kind \<Rightarrow> audio_now \<Rightarrow> 'p \<Rightarrow> rat" where
  "ctx_anchor k au p =
     au_time au + (k_startedAt k p - (au_wall au + k_timeOffset k p)) / 1000 - outputLatencySec au"

definition slots_at :: "'p player_kind \<Rightarrow> audio_now \<Rightarrow> nat \<Rightarrow> 'p \<Rightarrow> play_slot list" where
  "slots_at k au myId p =
     map (\<lambda>(key, off). \<lparr>sl_sound = key, sl_at = ctx_anchor k au p + off, sl_id = myId\<rparr>) (k_slots k p)"

definition finish_run :: "'p player_kind \<Rightarrow> audio_now \<Rightarrow> 'p play_run \<Rightarrow> 'p player \<Rightarrow> 'p player" where
  "finish_run k au r s =
     (if pl_ctx s \<noteq> Some CtxRunning then s
      else fold (schedulePlay au (k_lang k (pr_params r))) (slots_at k au (pr_id r) (pr_params r)) s)"

definition drop_run :: "nat \<Rightarrow> 'p player \<Rightarrow> 'p player" where
  "drop_run i s = s\<lparr>play_runs := filter (\<lambda>r. pr_id r \<noteq> i) (play_runs s)\<rparr>"

text \<open>An \<open>await\<close> of a schedule ends, by its promise or by its time limit.\<close>

definition run_continues :: "'p player_kind \<Rightarrow> audio_now \<Rightarrow> nat \<Rightarrow> 'p player \<Rightarrow> 'p player" where
  "run_continues k au i s =
     (case find (\<lambda>r. pr_id r = i) (play_runs s) of
        None \<Rightarrow> s
      | Some r \<Rightarrow>
          if i \<noteq> latestScheduleId s then drop_run i s
          else if pr_phase r = AwaitFirst \<and> isClockStopped (pl_ctx s)
          then s\<lparr>play_runs := map (\<lambda>x. if pr_id x = i then x\<lparr>pr_phase := AwaitResume\<rparr> else x) (play_runs s)\<rparr>
          else finish_run k au r (drop_run i s))"

text \<open>The context changes its state; running again, it schedules what is pending anew.\<close>

definition ctx_changes :: "'p player_kind \<Rightarrow> ctx_state \<Rightarrow> 'p player \<Rightarrow> 'p player" where
  "ctx_changes k st s =
     (if pl_ctx s = None then s
      else (let s1 = s\<lparr>pl_ctx := Some st\<rparr>
            in if st \<noteq> CtxRunning then s1
               else (case pendingSchedule s1 of None \<Rightarrow> s1 | Some p \<Rightarrow> player_schedule k p s1)))"

definition source_ended :: "play_slot \<times> rat \<Rightarrow> 'p player \<Rightarrow> 'p player" where
  "source_ended x s = s\<lparr>activeSources := remove1 x (activeSources s)\<rparr>"

definition player_prime :: "string \<Rightarrow> sound list \<Rightarrow> 'p player \<Rightarrow> 'p player" where
  "player_prime lang keys s =
     (let s0 = ensureContext s in if pl_ctx s0 = None then s0 else fold (loadBuffer lang) keys s0)"

subsection \<open>The shared countdown\<close>

record countdown_params =
  cp_totalSeconds :: nat
  cp_startedAt :: rat
  cp_timeOffset :: rat
  cp_lang :: string
  cp_volume :: jsval
  cp_muted :: bool
  cp_marchSeconds :: jsval

definition marchSlotSeconds :: "jsval \<Rightarrow> nat \<Rightarrow> nat option" where
  "marchSlotSeconds marchSeconds totalSeconds =
     (case marchSeconds of
        JNum (NumFin r) \<Rightarrow>
          if r \<noteq> of_int \<lfloor>r\<rfloor> then None
          else if r < 1 \<or> 180 < r then None
          else if of_nat totalSeconds < r then None
          else Some (nat \<lfloor>r\<rfloor>)
      | _ \<Rightarrow> None)"

definition count_down_from :: "nat \<Rightarrow> nat list" where
  "count_down_from n = rev [1..<n + 1]"

definition countdown_slots :: "countdown_params \<Rightarrow> (sound \<times> rat) list" where
  "countdown_slots p =
     map (\<lambda>n. (SNum n, of_nat (cp_totalSeconds p - n))) (count_down_from (cp_totalSeconds p)) @
     (case marchSlotSeconds (cp_marchSeconds p) (cp_totalSeconds p) of
        None \<Rightarrow> [] | Some m \<Rightarrow> [(SMarch, of_nat (cp_totalSeconds p - m))])"

definition countdown_kind :: "countdown_params player_kind" where
  "countdown_kind =
     \<lparr>k_valid = (\<lambda>p. cp_startedAt p \<noteq> 0 \<and> cp_totalSeconds p \<noteq> 0 \<and> 2 \<le> cp_totalSeconds p),
      k_lang = cp_lang,
      k_sounds = (\<lambda>p. map SNum (count_down_from (cp_totalSeconds p)) @
        (case marchSlotSeconds (cp_marchSeconds p) (cp_totalSeconds p) of None \<Rightarrow> [] | Some m \<Rightarrow> [SMarch])),
      k_startedAt = cp_startedAt, k_timeOffset = cp_timeOffset, k_slots = countdown_slots,
      k_volume = cp_volume, k_muted = cp_muted\<rparr>"

definition scheduleCountdown :: "countdown_params \<Rightarrow> countdown_params player \<Rightarrow> countdown_params player" where
  "scheduleCountdown = player_schedule countdown_kind"

subsection \<open>The rally countdown\<close>

record rally_params =
  rp_startedAt :: rat
  rp_fireOffsets :: "(int \<times> int) list option"
  rp_timeOffset :: rat
  rp_lang :: string
  rp_volume :: jsval
  rp_muted :: bool
  rp_displayOrder :: "int option"

definition SUPPORTED_TTS_LANGS :: "string list" where
  "SUPPORTED_TTS_LANGS = [''ko'', ''en'', ''ja'', ''zh'']"

definition safe_lang :: "string \<Rightarrow> string" where
  "safe_lang l = (if l \<in> set SUPPORTED_TTS_LANGS then l else ''ko'')"

definition fire_offsets :: "rally_params \<Rightarrow> (int \<times> int) list" where
  "fire_offsets p = (case rp_fireOffsets p of None \<Rightarrow> [] | Some l \<Rightarrow> l)"

definition fire_second :: "int \<times> int \<Rightarrow> int" where
  "fire_second f = round_half_up (of_int (snd f) / 1000)"

definition max_offset_sec :: "(int \<times> int) list \<Rightarrow> int" where
  "max_offset_sec fs = min (if fs = [] then 0 else Max (set (map fire_second fs))) MAX_OFFSET_SEC"

definition announced_group :: "rally_params \<Rightarrow> int option" where
  "announced_group p = (case rp_displayOrder p of None \<Rightarrow> None | Some d \<Rightarrow> if d = 0 then None else Some d)"

definition counted_seconds :: "(int \<times> int) list \<Rightarrow> int list" where
  "counted_seconds fs = filter (\<lambda>t. t \<notin> set (map fire_second fs)) [1..max_offset_sec fs]"

definition rally_sounds :: "rally_params \<Rightarrow> sound list" where
  "rally_sounds p =
     (case announced_group p of None \<Rightarrow> [] | Some d \<Rightarrow> [SRallyStart d]) @ map SNum [3, 2, 1] @
     map (\<lambda>f. SCaptain (fst f)) (fire_offsets p) @ map (\<lambda>t. SNum (nat t)) (counted_seconds (fire_offsets p))"

definition rally_slots :: "rally_params \<Rightarrow> (sound \<times> rat) list" where
  "rally_slots p =
     (case announced_group p of None \<Rightarrow> [] | Some d \<Rightarrow> [(SRallyStart d, -6)]) @
     map (\<lambda>n. (SNum n, - of_nat n)) [3, 2, 1] @
     map (\<lambda>f. (SCaptain (fst f), of_int (snd f) / 1000)) (fire_offsets p) @
     map (\<lambda>t. (SNum (nat t), of_int t)) (filter (\<lambda>t. \<not> t \<le> 3) (counted_seconds (fire_offsets p)))"

definition rally_kind :: "rally_params player_kind" where
  "rally_kind =
     \<lparr>k_valid = (\<lambda>p. rp_startedAt p \<noteq> 0 \<and> rp_fireOffsets p \<noteq> None), k_lang = (\<lambda>p. safe_lang (rp_lang p)),
      k_sounds = rally_sounds, k_startedAt = rp_startedAt, k_timeOffset = rp_timeOffset, k_slots = rally_slots,
      k_volume = rp_volume, k_muted = rp_muted\<rparr>"

definition scheduleRallyCountdown :: "rally_params \<Rightarrow> rally_params player \<Rightarrow> rally_params player" where
  "scheduleRallyCountdown = player_schedule rally_kind"

definition warmupRallyAudio :: "string \<Rightarrow> 'p player \<Rightarrow> 'p player" where
  "warmupRallyAudio lang =
     player_prime (safe_lang lang)
       (map SRallyStart [1..6] @ map SCaptain [1..6] @ map SNum [3, 2, 1] @ map SNum [4..<nat MAX_OFFSET_SEC + 1])"

definition primeRallyAudio :: "(int \<times> int) list option \<Rightarrow> string \<Rightarrow> int option \<Rightarrow> 'p player \<Rightarrow> 'p player" where
  "primeRallyAudio fireOffsets lang displayOrder =
     (let offsets = (case fireOffsets of None \<Rightarrow> [] | Some l \<Rightarrow> l)
      in player_prime (safe_lang lang)
           ((case displayOrder of None \<Rightarrow> [] | Some d \<Rightarrow> if d = 0 then [] else [SRallyStart d]) @ map SNum [3, 2, 1] @
            map (\<lambda>f. SCaptain (fst f)) offsets @ map (\<lambda>t. SNum (nat t)) (counted_seconds offsets)))"

subsection \<open>Runs of a player\<close>

datatype 'p player_op =
    PlSchedule 'p
  | PlStop
  | PlContinue nat
  | PlBuffer string sound bool
  | PlContext ctx_state
  | PlEnded "play_slot \<times> rat"
  | PlPrime string "sound list"
  | PlVolume jsval bool

definition player_exec :: "'p player_kind \<Rightarrow> audio_now \<Rightarrow> 'p player_op \<Rightarrow> 'p player \<Rightarrow> 'p player" where
  "player_exec k au op s =
     (case op of
        PlSchedule p \<Rightarrow> player_schedule k p s
      | PlStop \<Rightarrow> player_stop s
      | PlContinue i \<Rightarrow> run_continues k au i s
      | PlBuffer lang key ok \<Rightarrow> buffer_done au lang key ok s
      | PlContext st \<Rightarrow> ctx_changes k st s
      | PlEnded x \<Rightarrow> source_ended x s
      | PlPrime lang keys \<Rightarrow> player_prime lang keys s
      | PlVolume v m \<Rightarrow> player_setVolume v m s)"

fun player_run :: "'p player_kind \<Rightarrow> (audio_now \<times> 'p player_op) list \<Rightarrow> 'p player \<Rightarrow> 'p player" where
  "player_run k [] s = s"
| "player_run k ((au, op) # ops) s = player_run k ops (player_exec k au op s)"

end
