(* ===== verification/PlayerRules.thy ===== *)
theory PlayerRules
  imports AudioPlayer
begin

text \<open>
  What is heard: sounds start at their time or up to a fifth of a second late, only sounds of the current
  schedule play, a stopped player stays silent, and the slots of a countdown are heard at the
  server's time for them whatever the latency of the device.
\<close>

subsection \<open>Only the current schedule, and on time\<close>

definition slot_on_time :: "play_slot \<times> rat \<Rightarrow> bool" where
  "slot_on_time x \<longleftrightarrow> sl_at (fst x) \<le> snd x \<and> snd x \<le> sl_at (fst x) + PAST_DUE_SEC"

definition player_inv :: "'p player \<Rightarrow> bool" where
  "player_inv s \<longleftrightarrow>
     list_all (\<lambda>x. slot_on_time x) (dispatchedLog s) \<and>
     list_all (\<lambda>x. slot_on_time x \<and> sl_id (fst x) = latestScheduleId s) (activeSources s) \<and>
     (pl_ctx s = None \<longrightarrow> activeSources s = [])"

lemma player_inv_frame:
  "player_inv s \<Longrightarrow> dispatchedLog s' = dispatchedLog s \<or> dispatchedLog s' = [] \<Longrightarrow> activeSources s' = activeSources s \<Longrightarrow>
   latestScheduleId s' = latestScheduleId s \<Longrightarrow> pl_ctx s' = pl_ctx s \<or> pl_ctx s' \<noteq> None \<or> pl_ctx s = None \<Longrightarrow> player_inv s'"
  by (auto simp: player_inv_def)

lemma loadBuffer_frame [simp]:
  "dispatchedLog (loadBuffer l k s) = dispatchedLog s" "activeSources (loadBuffer l k s) = activeSources s"
  "latestScheduleId (loadBuffer l k s) = latestScheduleId s" "pendingSchedule (loadBuffer l k s) = pendingSchedule s"
  "play_runs (loadBuffer l k s) = play_runs s"
  by (auto simp: loadBuffer_def ensureContext_def Let_def split: option.splits)

lemma ensureContext_frame [simp]:
  "dispatchedLog (ensureContext s) = dispatchedLog s" "activeSources (ensureContext s) = activeSources s"
  "latestScheduleId (ensureContext s) = latestScheduleId s" "pendingSchedule (ensureContext s) = pendingSchedule s"
  "play_runs (ensureContext s) = play_runs s"
  by (auto simp: ensureContext_def split: option.splits)

lemma ctx_kept: "pl_ctx s \<noteq> None \<Longrightarrow> pl_ctx (ensureContext s) = pl_ctx s" "pl_ctx s \<noteq> None \<Longrightarrow> pl_ctx (loadBuffer l k s) = pl_ctx s"
  by (auto simp: loadBuffer_def ensureContext_def Let_def split: option.splits)

lemma loadBuffer_inv: "player_inv s \<Longrightarrow> player_inv (loadBuffer l k s)"
  using ctx_kept(2) [of s l k] by (cases "pl_ctx s") (auto simp: player_inv_def)

lemma load_fold:
  "player_inv s \<Longrightarrow> player_inv (fold (loadBuffer l) ks s)"
  "latestScheduleId (fold (loadBuffer l) ks s) = latestScheduleId s"
  "activeSources (fold (loadBuffer l) ks s) = activeSources s"
  "pendingSchedule (fold (loadBuffer l) ks s) = pendingSchedule s"
  "play_runs (fold (loadBuffer l) ks s) = play_runs s"
  "dispatchedLog (fold (loadBuffer l) ks s) = dispatchedLog s"
proof -
  show "player_inv s \<Longrightarrow> player_inv (fold (loadBuffer l) ks s)" by (induction ks arbitrary: s) (auto simp: loadBuffer_inv)
  show "latestScheduleId (fold (loadBuffer l) ks s) = latestScheduleId s" by (induction ks arbitrary: s) auto
  show "activeSources (fold (loadBuffer l) ks s) = activeSources s" by (induction ks arbitrary: s) auto
  show "pendingSchedule (fold (loadBuffer l) ks s) = pendingSchedule s" by (induction ks arbitrary: s) auto
  show "play_runs (fold (loadBuffer l) ks s) = play_runs s" by (induction ks arbitrary: s) auto
  show "dispatchedLog (fold (loadBuffer l) ks s) = dispatchedLog s" by (induction ks arbitrary: s) auto
qed

lemma startSource_inv: "player_inv s \<Longrightarrow> player_inv (startSource au slot s)"
  by (auto simp: player_inv_def startSource_def slot_on_time_def PAST_DUE_SEC_def Let_def)

lemma startSource_frame [simp]:
  "latestScheduleId (startSource au x s) = latestScheduleId s" "pendingSchedule (startSource au x s) = pendingSchedule s"
  "play_runs (startSource au x s) = play_runs s" "pl_ctx (startSource au x s) = pl_ctx s"
  by (simp_all add: startSource_def Let_def)

lemma start_fold_inv: "player_inv s \<Longrightarrow> player_inv (fold (startSource au) xs s)"
  by (induction xs arbitrary: s) (auto simp: startSource_inv)

lemma schedulePlay_inv: "player_inv s \<Longrightarrow> player_inv (schedulePlay au lang x s)"
proof -
  assume "player_inv s"
  from loadBuffer_inv [OF this] have l: "player_inv (loadBuffer lang (sl_sound x) s)" .
  have "player_inv ((loadBuffer lang (sl_sound x) s)\<lparr>buffers := b\<rparr>)" for b by (rule player_inv_frame [OF l]) auto
  with l \<open>player_inv s\<close> show ?thesis
    by (auto simp: schedulePlay_def Let_def startSource_inv split: option.splits buffer_entry.splits)
qed

lemma schedule_fold_inv: "player_inv s \<Longrightarrow> player_inv (fold (schedulePlay au lang) xs s)"
  by (induction xs arbitrary: s) (auto simp: schedulePlay_inv)

lemma player_stop_inv: "player_inv s \<Longrightarrow> player_inv (player_stop s)"
  by (auto simp: player_inv_def player_stop_def)

lemma setVolume_frame [simp]:
  "latestScheduleId (player_setVolume v m s) = latestScheduleId s" "activeSources (player_setVolume v m s) = activeSources s"
  "dispatchedLog (player_setVolume v m s) = dispatchedLog s" "pl_ctx (player_setVolume v m s) = pl_ctx s"
  "pendingSchedule (player_setVolume v m s) = pendingSchedule s" "play_runs (player_setVolume v m s) = play_runs s"
  by (simp_all add: player_setVolume_def Let_def)

lemma ensure_inv: "player_inv s \<Longrightarrow> player_inv (ensureContext s)"
  by (rule player_inv_frame [of s]) (auto simp: ensureContext_def split: option.splits)

lemma player_schedule_inv: "player_inv s \<Longrightarrow> player_inv (player_schedule k p s)"
proof -
  assume "player_inv s"
  then have e: "player_inv (ensureContext s)" by (rule ensure_inv)
  define s2 where "s2 = (player_setVolume (k_volume k p) (k_muted k p) ((player_stop (ensureContext s))
      \<lparr>latestScheduleId := latestScheduleId (player_stop (ensureContext s)) + 1, pendingSchedule := Some p\<rparr>))\<lparr>dispatchedLog := []\<rparr>"
  have "player_inv s2" by (simp add: s2_def player_inv_def player_stop_def)
  then have "player_inv (fold (loadBuffer (k_lang k p)) (k_sounds k p) s2)" by (rule load_fold)
  then have "player_inv ((fold (loadBuffer (k_lang k p)) (k_sounds k p) s2)\<lparr>play_runs := r\<rparr>)" for r
    by (rule player_inv_frame) auto
  with e show ?thesis by (simp add: player_schedule_def Let_def s2_def)
qed

lemma finish_run_inv: "player_inv s \<Longrightarrow> player_inv (finish_run k au r s)"
  by (simp add: finish_run_def schedule_fold_inv)

lemma drop_run_inv: "player_inv s \<Longrightarrow> player_inv (drop_run i s)"
  by (rule player_inv_frame [of s]) (auto simp: drop_run_def)

lemma player_exec_inv:
  assumes "player_inv s"
  shows "player_inv (player_exec k au op s)"
proof (cases op)
  case (PlContinue i)
  have "player_inv (s\<lparr>play_runs := r\<rparr>)" for r by (rule player_inv_frame [OF assms]) auto
  then show ?thesis using assms PlContinue
    by (auto simp: player_exec_def run_continues_def drop_run_inv finish_run_inv split: option.splits)
next
  case (PlBuffer lang key ok)
  have "player_inv (s\<lparr>buffers := b\<rparr>)" for b by (rule player_inv_frame [OF assms]) auto
  then show ?thesis using assms PlBuffer
    by (auto simp: player_exec_def buffer_done_def start_fold_inv split: option.splits buffer_entry.splits)
next
  case (PlContext st)
  have "player_inv (s\<lparr>pl_ctx := Some st\<rparr>)" if "pl_ctx s \<noteq> None" using that by (intro player_inv_frame [OF assms]) auto
  then show ?thesis using assms PlContext
    by (auto simp: player_exec_def ctx_changes_def Let_def player_schedule_inv split: option.splits)
next
  case (PlEnded x)
  then show ?thesis using assms by (auto simp: player_exec_def source_ended_def player_inv_def list_all_iff dest!: subsetD [OF set_remove1_subset])
next
  case (PlPrime lang keys)
  have "player_inv (ensureContext s)" by (rule ensure_inv [OF assms])
  then show ?thesis using PlPrime by (simp add: player_exec_def player_prime_def Let_def load_fold)
next
  case (PlVolume v m)
  then show ?thesis by (auto simp: player_exec_def intro: player_inv_frame [OF assms])
qed (use assms in \<open>simp_all add: player_exec_def player_schedule_inv player_stop_inv\<close>)

lemma player_run_inv: "player_inv s \<Longrightarrow> player_inv (player_run k ops s)"
  by (induction k ops s rule: player_run.induct) (simp_all add: player_exec_inv)

lemma player_initial_inv: "player_inv (player_initial c)"
  by (simp add: player_inv_def player_initial_def)

subsection \<open>Silence after a stop\<close>

text \<open>
  Nothing that was scheduled before can start: every slot waiting for its buffer and every schedule
  under way carries an older number.
\<close>

definition waiting_slots :: "buffer_entry \<Rightarrow> play_slot list" where
  "waiting_slots b = (case b of BufLoading ws \<Rightarrow> ws | BufReady \<Rightarrow> [])"

definition numbers_le :: "nat \<Rightarrow> 'p player \<Rightarrow> bool" where
  "numbers_le n s \<longleftrightarrow>
     (\<forall>k b. map_of (buffers s) k = Some b \<longrightarrow> (\<forall>x\<in>set (waiting_slots b). sl_id x \<le> n)) \<and>
     (\<forall>r\<in>set (play_runs s). pr_id r \<le> n)"

definition idle :: "'p player \<Rightarrow> bool" where
  "idle s \<longleftrightarrow> 0 < latestScheduleId s \<and> numbers_le (latestScheduleId s - 1) s \<and> pendingSchedule s = None \<and> activeSources s = []"

lemma numbers_simps [simp]:
  "numbers_le n (s\<lparr>latestScheduleId := i\<rparr>) = numbers_le n s" "numbers_le n (s\<lparr>pendingSchedule := p\<rparr>) = numbers_le n s"
  "numbers_le n (s\<lparr>activeSources := a\<rparr>) = numbers_le n s" "numbers_le n (s\<lparr>dispatchedLog := d\<rparr>) = numbers_le n s"
  "numbers_le n (s\<lparr>pl_ctx := c\<rparr>) = numbers_le n s" "numbers_le n (s\<lparr>pl_gain := g\<rparr>) = numbers_le n s"
  by (simp_all add: numbers_le_def)

lemma numbers_ensure [simp]: "numbers_le n (ensureContext s) = numbers_le n s"
  by (simp add: ensureContext_def split: option.split)

lemma numbers_load: "numbers_le n s \<Longrightarrow> numbers_le n (loadBuffer l k s)"
  by (auto simp: loadBuffer_def numbers_le_def ensureContext_def waiting_slots_def Let_def split: option.splits)

lemma numbers_load_fold: "numbers_le n s \<Longrightarrow> numbers_le n (fold (loadBuffer l) ks s)"
  by (induction ks arbitrary: s) (auto simp: numbers_load)

lemma numbers_start [simp]: "numbers_le n (startSource au x s) = numbers_le n s"
  by (simp add: startSource_def Let_def)

lemma numbers_schedulePlay:
  assumes "numbers_le n s" and "sl_id x \<le> n"
  shows "numbers_le n (schedulePlay au lang x s)"
proof -
  note l = numbers_load [OF assms(1), of lang "sl_sound x"]
  have "numbers_le n ((loadBuffer lang (sl_sound x) s)\<lparr>buffers :=
      AList.update (lang, sl_sound x) (BufLoading (ws @ [x])) (buffers (loadBuffer lang (sl_sound x) s))\<rparr>)"
    if "map_of (buffers (loadBuffer lang (sl_sound x) s)) (lang, sl_sound x) = Some (BufLoading ws)" for ws
    using l assms(2) that by (fastforce simp: numbers_le_def waiting_slots_def)
  with l assms(1) show ?thesis by (auto simp: schedulePlay_def Let_def split: option.splits buffer_entry.splits)
qed

lemma numbers_fold_play: "numbers_le n s \<Longrightarrow> list_all (\<lambda>x. sl_id x \<le> n) xs \<Longrightarrow> numbers_le n (fold (schedulePlay au lang) xs s)"
  by (induction xs arbitrary: s) (auto simp: numbers_schedulePlay)

lemma schedulePlay_latest [simp]: "latestScheduleId (schedulePlay au lang x s) = latestScheduleId s"
  by (simp add: schedulePlay_def Let_def split: option.split buffer_entry.split)

lemma fold_play_latest [simp]: "latestScheduleId (fold (schedulePlay au lang) xs s) = latestScheduleId s"
  by (induction xs arbitrary: s) auto

lemma fold_start_latest [simp]:
  "latestScheduleId (fold (startSource au) xs s) = latestScheduleId s" "numbers_le n (fold (startSource au) xs s) = numbers_le n s"
  by (induction xs arbitrary: s) auto

text \<open>In every run the numbers in use are at most the latest one.\<close>

lemma numbers_schedule:
  assumes "numbers_le (latestScheduleId s) s"
  shows "numbers_le (latestScheduleId (player_schedule k p s)) (player_schedule k p s)"
proof -
  define n where "n = latestScheduleId s + 2"
  have le: "numbers_le n s" using assms unfolding numbers_le_def n_def by (meson le_add1 order_trans)
  define s2 where "s2 = (player_setVolume (k_volume k p) (k_muted k p) ((player_stop (ensureContext s))
      \<lparr>latestScheduleId := latestScheduleId (player_stop (ensureContext s)) + 1, pendingSchedule := Some p\<rparr>))\<lparr>dispatchedLog := []\<rparr>"
  have "numbers_le n s2" using le by (simp add: s2_def player_stop_def player_setVolume_def Let_def)
  then have f: "numbers_le n (fold (loadBuffer (k_lang k p)) (k_sounds k p) s2)" by (rule numbers_load_fold)
  have i: "latestScheduleId (fold (loadBuffer (k_lang k p)) (k_sounds k p) s2) = n"
    by (simp add: load_fold s2_def player_stop_def n_def)
  have "numbers_le n ((fold (loadBuffer (k_lang k p)) (k_sounds k p) s2)\<lparr>play_runs :=
      play_runs (fold (loadBuffer (k_lang k p)) (k_sounds k p) s2) @ [\<lparr>pr_id = n, pr_params = p, pr_phase = AwaitFirst\<rparr>]\<rparr>)"
    using f by (auto simp: numbers_le_def)
  with i assms show ?thesis by (simp add: player_schedule_def Let_def s2_def n_def player_stop_def)
qed

lemma slots_at_id: "list_all (\<lambda>x. sl_id x \<le> pr_id r) (slots_at k au (pr_id r) p)"
  by (auto simp: slots_at_def list_all_iff)

lemma numbers_exec:
  assumes "numbers_le (latestScheduleId s) s"
  shows "numbers_le (latestScheduleId (player_exec k au op s)) (player_exec k au op s)"
proof (cases op)
  case PlStop
  then show ?thesis using assms by (fastforce simp: player_exec_def player_stop_def numbers_le_def)
next
  case (PlContinue i)
  have "numbers_le (latestScheduleId s) (s\<lparr>play_runs := map (\<lambda>x. if pr_id x = i then x\<lparr>pr_phase := AwaitResume\<rparr> else x) (play_runs s)\<rparr>)"
    using assms by (auto simp: numbers_le_def)
  moreover have d: "numbers_le (latestScheduleId s) (drop_run i s)" using assms by (auto simp: numbers_le_def drop_run_def)
  moreover have "numbers_le (latestScheduleId s) (finish_run k au r (drop_run i s))" if "pr_id r = latestScheduleId s" for r
    using numbers_fold_play [OF d, of "slots_at k au (pr_id r) (pr_params r)"] slots_at_id [of r k au "pr_params r"] d that
    by (simp add: finish_run_def)
  ultimately show ?thesis using assms PlContinue
    by (auto simp: player_exec_def run_continues_def finish_run_def drop_run_def find_Some_iff split: option.splits)
next
  case (PlBuffer lang key ok)
  have "numbers_le (latestScheduleId s) (s\<lparr>buffers := AList.update (lang, key) BufReady (buffers s)\<rparr>)"
    "numbers_le (latestScheduleId s) (s\<lparr>buffers := AList.delete (lang, key) (buffers s)\<rparr>)"
    using assms by (auto simp: numbers_le_def waiting_slots_def)
  then show ?thesis using assms PlBuffer
    by (simp add: player_exec_def buffer_done_def split: option.split buffer_entry.split)
next
  case (PlContext st)
  have "numbers_le (latestScheduleId (s\<lparr>pl_ctx := Some st\<rparr>)) (s\<lparr>pl_ctx := Some st\<rparr>)" using assms by simp
  from numbers_schedule [OF this] assms PlContext show ?thesis
    by (auto simp: player_exec_def ctx_changes_def Let_def split: option.splits)
next
  case (PlVolume v m)
  then show ?thesis using assms by (simp add: player_exec_def player_setVolume_def Let_def)
next
  case (PlEnded x)
  then show ?thesis using assms by (simp add: player_exec_def source_ended_def)
next
  case (PlPrime lang keys)
  then show ?thesis using assms by (simp add: player_exec_def player_prime_def Let_def numbers_load_fold load_fold)
qed (use assms in \<open>simp_all add: player_exec_def numbers_schedule\<close>)

lemma numbers_run: "numbers_le (latestScheduleId s) s \<Longrightarrow> numbers_le (latestScheduleId (player_run k ops s)) (player_run k ops s)"
  by (induction k ops s rule: player_run.induct) (simp_all add: numbers_exec)

fun is_schedule :: "'p player_op \<Rightarrow> bool" where
  "is_schedule (PlSchedule p) = True"
| "is_schedule _ = False"

lemma stop_idle: "numbers_le (latestScheduleId s) s \<Longrightarrow> idle (player_stop s)"
  by (simp add: idle_def player_stop_def)

lemma stale_starts:
  "\<forall>x\<in>set xs. sl_id x \<noteq> latestScheduleId s \<Longrightarrow> fold (startSource au) xs s = s"
  by (induction xs arbitrary: s) (auto simp: startSource_def)

lemma idle_exec:
  assumes idle: "idle s" and op: "\<not> is_schedule op"
  shows "idle (player_exec k au op s) \<and> dispatchedLog (player_exec k au op s) = dispatchedLog s"
proof (cases op)
  case (PlContinue i)
  have stale: "pr_id r \<noteq> latestScheduleId s" if "r \<in> set (play_runs s)" for r
    using idle that by (fastforce simp: idle_def numbers_le_def)
  have "idle (drop_run i s)" using idle by (auto simp: idle_def numbers_le_def drop_run_def)
  then show ?thesis using idle stale PlContinue
    by (auto simp: player_exec_def run_continues_def drop_run_def find_Some_iff split: option.splits)
next
  case (PlBuffer lang key ok)
  have stale: "\<forall>x\<in>set ws. sl_id x \<noteq> latestScheduleId s" if "map_of (buffers s) (lang, key) = Some (BufLoading ws)" for ws
    using idle that by (fastforce simp: idle_def numbers_le_def waiting_slots_def)
  have "idle (s\<lparr>buffers := AList.update (lang, key) BufReady (buffers s)\<rparr>)" "idle (s\<lparr>buffers := AList.delete (lang, key) (buffers s)\<rparr>)"
    using idle by (auto simp: idle_def numbers_le_def waiting_slots_def)
  then show ?thesis using idle PlBuffer stale
    by (auto simp: player_exec_def buffer_done_def stale_starts split: option.splits buffer_entry.splits)
next
  case (PlContext st)
  then show ?thesis using idle by (auto simp: player_exec_def ctx_changes_def idle_def Let_def split: option.splits)
next
  case (PlPrime lang keys)
  then show ?thesis using idle
    by (auto simp: player_exec_def player_prime_def idle_def Let_def load_fold numbers_load_fold)
next
  case PlStop
  have "numbers_le (latestScheduleId s) s" using idle by (fastforce simp: idle_def numbers_le_def)
  then show ?thesis using PlStop stop_idle by (simp add: player_exec_def player_stop_def idle_def)
next
  case (PlEnded x)
  then show ?thesis using idle by (simp add: player_exec_def source_ended_def idle_def)
next
  case (PlVolume v m)
  then show ?thesis using idle by (simp add: player_exec_def player_setVolume_def idle_def Let_def)
qed (use op in simp)

lemma idle_run:
  "idle s \<Longrightarrow> list_all (\<lambda>x. \<not> is_schedule (snd x)) ops \<Longrightarrow>
   activeSources (player_run k ops s) = [] \<and> dispatchedLog (player_run k ops s) = dispatchedLog s"
  by (induction k ops s rule: player_run.induct) (auto simp: idle_def [of "player_run _ [] _"] idle_exec, simp add: idle_def)

subsection \<open>When a slot is heard\<close>

text \<open>
  The server's clock when what enters the pipeline at audio time \<open>at\<close> comes out of the loudspeaker, the
  audio clock and the device's clock advancing alike.
\<close>

definition heard_at :: "audio_now \<Rightarrow> rat \<Rightarrow> rat \<Rightarrow> rat" where
  "heard_at au timeOffset start = au_wall au + timeOffset + (start - au_time au + outputLatencySec au) * 1000"

lemma heard_slot: "heard_at au (k_timeOffset k p) (ctx_anchor k au p + off) = k_startedAt k p + off * 1000"
  by (simp add: heard_at_def ctx_anchor_def field_simps)

lemma latency_bounds: "0 \<le> outputLatencySec au \<and> outputLatencySec au \<le> 1 / 2"
  by (auto simp: outputLatencySec_def MAX_OUTPUT_LATENCY_SEC_def Let_def min_def)

lemma perceptual_range: "0 \<le> perceptualVolume v \<and> perceptualVolume v \<le> 1"
proof -
  define w where "w = max 0 (min 1 v)"
  have w: "0 \<le> w" "w \<le> 1" by (simp_all add: w_def)
  then have "w * w \<le> 1" by (simp add: mult_le_one)
  then have "w * w * w \<le> 1" using w by (simp add: mult_le_one)
  then show ?thesis using w by (simp add: perceptualVolume_def w_def [symmetric] Let_def)
qed

subsection \<open>The slots\<close>

lemma count_down_from_set: "set (count_down_from n) = {1..n}" "distinct (count_down_from n)"
  by (auto simp: count_down_from_def)

lemma countdown_slot_iff:
  "(SNum n, off) \<in> set (countdown_slots p) \<longleftrightarrow> 1 \<le> n \<and> n \<le> cp_totalSeconds p \<and> off = of_nat (cp_totalSeconds p - n)"
  by (auto simp: countdown_slots_def count_down_from_set split: option.splits)

lemma march_slot_iff:
  "(SMarch, off) \<in> set (countdown_slots p) \<longleftrightarrow>
   (\<exists>m. marchSlotSeconds (cp_marchSeconds p) (cp_totalSeconds p) = Some m \<and> off = of_nat (cp_totalSeconds p - m))"
  by (cases "marchSlotSeconds (cp_marchSeconds p) (cp_totalSeconds p)") (auto simp: countdown_slots_def)

lemma march_seconds:
  assumes "marchSlotSeconds v n = Some m"
  shows "1 \<le> m \<and> m \<le> 180 \<and> m \<le> n"
proof -
  obtain r where r: "r = rat_of_int \<lfloor>r\<rfloor>" "\<not> (r < 1 \<or> 180 < r)" "\<not> rat_of_nat n < r" "m = nat \<lfloor>r\<rfloor>"
    using assms by (auto simp: marchSlotSeconds_def split: jsval.splits jsnum.splits if_splits)
  obtain z where z: "r = rat_of_int z" using r(1) by blast
  have "1 \<le> z" "z \<le> 180" "z \<le> int n" using r(2,3) unfolding z by linarith+
  then show ?thesis using r(4) z by (simp add: nat_le_iff le_nat_iff)
qed

lemma counted_free: "t \<in> set (counted_seconds fs) \<longleftrightarrow> 1 \<le> t \<and> t \<le> max_offset_sec fs \<and> t \<notin> fire_second ` set fs"
  by (auto simp: counted_seconds_def)

lemma rally_number_iff:
  "(SNum n, off) \<in> set (rally_slots p) \<longleftrightarrow>
     (n \<in> {1, 2, 3} \<and> off = - of_nat n) \<or>
     (4 \<le> n \<and> int n \<le> max_offset_sec (fire_offsets p) \<and> int n \<notin> fire_second ` set (fire_offsets p) \<and> off = of_nat n)"
proof -
  have "(SNum n, off) \<in> set (rally_slots p) \<longleftrightarrow> (n \<in> {1, 2, 3} \<and> off = - of_nat n) \<or>
      (\<exists>t. 3 < t \<and> t \<in> set (counted_seconds (fire_offsets p)) \<and> n = nat t \<and> off = of_int t)"
    by (cases "announced_group p") (auto simp: rally_slots_def)
  also have "(\<exists>t. 3 < t \<and> t \<in> set (counted_seconds (fire_offsets p)) \<and> n = nat t \<and> off = of_int t) \<longleftrightarrow>
      4 \<le> n \<and> int n \<in> set (counted_seconds (fire_offsets p)) \<and> off = of_nat n"
    by (auto intro!: exI [of _ "int n"])
  finally show ?thesis by (auto simp: counted_free)
qed

lemma rally_captain_iff:
  "(SCaptain i, off) \<in> set (rally_slots p) \<longleftrightarrow> (\<exists>ms. (i, ms) \<in> set (fire_offsets p) \<and> off = of_int ms / 1000)"
  by (force simp: rally_slots_def split: option.splits)

end
