(* ===== verification/TrustProxy.thy ===== *)
theory TrustProxy
  imports JsText
begin

text \<open>
  How many proxies in front of the server are trusted, \<open>server/src/common/trust-proxy.ts\<close>: the number is
  read from the environment, never more than eight and never a blanket trust, and the first requests
  after the start are compared with it. A log line is recorded by what it reports; its wording is left
  out.
\<close>

definition MAX_HOPS :: nat where "MAX_HOPS = 8"
definition TRUST_PROXY_PROBE_SAMPLE_LIMIT :: nat where "TRUST_PROXY_PROBE_SAMPLE_LIMIT = 5"

record proxy_env =
  node_env :: "jstring option"
  trust_proxy_hops :: "jstring option"

definition parseHops :: "jstring \<Rightarrow> nat option" where
  "parseHops raw =
     (let trimmed = js_trim raw
      in if \<not> js_all_digits trimmed then None
         else if MAX_HOPS < js_decimal trimmed then None
         else Some (js_decimal trimmed))"

definition is_production :: "proxy_env \<Rightarrow> bool" where
  "is_production env \<longleftrightarrow> node_env env = Some (lit ''production'')"

definition resolveTrustProxyHops :: "proxy_env \<Rightarrow> nat" where
  "resolveTrustProxyHops env =
     (let fallback = (if is_production env then 1 else 0)
      in case trust_proxy_hops env of
           None \<Rightarrow> fallback
         | Some raw \<Rightarrow> (case parseHops raw of None \<Rightarrow> fallback | Some hops \<Rightarrow> hops))"

datatype proxy_issue = Unset nat | Invalid jstring nat

definition inspectTrustProxyConfig :: "proxy_env \<Rightarrow> proxy_issue option" where
  "inspectTrustProxyConfig env =
     (let hops = resolveTrustProxyHops env
      in case trust_proxy_hops env of
           None \<Rightarrow> if is_production env then Some (Unset hops) else None
         | Some raw \<Rightarrow> if parseHops raw = None then Some (Invalid raw hops) else None)"

text \<open>The warnings logged, and whether one was.\<close>

definition warnOnTrustProxyConfig :: "proxy_env \<Rightarrow> proxy_issue list \<Rightarrow> bool \<times> proxy_issue list" where
  "warnOnTrustProxyConfig env warnings =
     (case inspectTrustProxyConfig env of None \<Rightarrow> (False, warnings) | Some issue \<Rightarrow> (True, warnings @ [issue]))"

datatype chain_verdict = ChainOk | TooFewHops | TooManyHops

definition evaluateTrustProxyChain :: "nat \<Rightarrow> nat \<Rightarrow> chain_verdict" where
  "evaluateTrustProxyChain chainLength hops =
     (if chainLength = hops then ChainOk else if hops < chainLength then TooFewHops else TooManyHops)"

text \<open>A header that came several times is a list.\<close>

definition readForwardedChain :: "(jstring + jstring list) option \<Rightarrow> jstring list" where
  "readForwardedChain header =
     (case header of
        None \<Rightarrow> []
      | Some h \<Rightarrow>
          (let raw = (case h of Inl s \<Rightarrow> s | Inr l \<Rightarrow> js_join [44] l)
           in filter (\<lambda>entry. 0 < length entry) (map js_trim (js_split 44 raw))))"

definition isLoopbackAddress :: "jstring option \<Rightarrow> bool" where
  "isLoopbackAddress address =
     (case address of
        None \<Rightarrow> False
      | Some a \<Rightarrow>
          if a = [] then False
          else (let bare = (if starts_with a (lit ''::ffff:'') then drop 7 a else a)
                in bare = lit ''::1'' \<or> starts_with bare (lit ''127.'')))"

definition shouldSampleTrustProxyRequest :: "jstring option \<Rightarrow> (jstring + jstring list) option \<Rightarrow> bool" where
  "shouldSampleTrustProxyRequest socketAddress forwardedHeader =
     (if 0 < length (readForwardedChain forwardedHeader) then True else \<not> isLoopbackAddress socketAddress)"

record probe_line =
  pl_number :: nat
  pl_chain :: "jstring list"
  pl_verdict :: chain_verdict
  pl_last :: bool

record proxy_probe =
  pb_limit :: nat
  pb_hops :: nat
  pb_taken :: nat
  pb_log :: "probe_line list"

definition createTrustProxyProbe :: "nat \<Rightarrow> nat option \<Rightarrow> proxy_probe" where
  "createTrustProxyProbe hops limit =
     \<lparr>pb_limit = (case limit of None \<Rightarrow> TRUST_PROXY_PROBE_SAMPLE_LIMIT | Some l \<Rightarrow> l), pb_hops = hops, pb_taken = 0, pb_log = []\<rparr>"

text \<open>One request. Whatever happens it is passed on, so only the state of the probe is the result.\<close>

definition trustProxyProbe :: "jstring option \<Rightarrow> (jstring + jstring list) option \<Rightarrow> proxy_probe \<Rightarrow> proxy_probe" where
  "trustProxyProbe socketAddress forwarded p =
     (if \<not> pb_taken p < pb_limit p then p
      else if \<not> shouldSampleTrustProxyRequest socketAddress forwarded then p
      else (let taken = pb_taken p + 1; chain = readForwardedChain forwarded
            in p\<lparr>pb_taken := taken,
                 pb_log := pb_log p @ [\<lparr>pl_number = taken, pl_chain = chain,
                   pl_verdict = evaluateTrustProxyChain (length chain) (pb_hops p), pl_last = (taken = pb_limit p)\<rparr>]\<rparr>))"

fun probe_run :: "(jstring option \<times> (jstring + jstring list) option) list \<Rightarrow> proxy_probe \<Rightarrow> proxy_probe" where
  "probe_run [] p = p"
| "probe_run ((a, f) # rs) p = probe_run rs (trustProxyProbe a f p)"

subsection \<open>The number of hops\<close>

lemma resolve_bound: "resolveTrustProxyHops env \<le> 8"
  by (auto simp: resolveTrustProxyHops_def parseHops_def MAX_HOPS_def Let_def split: option.splits if_splits)

text \<open>A number written in the environment is the one used.\<close>

lemma js_trim_plain:
  assumes "s \<noteq> []" and "\<not> js_space (hd s)" and "\<not> js_space (last s)"
  shows "js_trim s = s"
proof -
  have hd: "dropWhile js_space t = t" if "t \<noteq> []" "\<not> js_space (hd t)" for t
    using that by (cases t) auto
  have "dropWhile js_space (rev s) = rev s" by (rule hd) (use assms in \<open>simp_all add: hd_rev\<close>)
  then show ?thesis using hd [OF assms(1,2)] by (simp add: js_trim_def)
qed

lemma digit_not_space: "js_digit u \<Longrightarrow> \<not> js_space u"
  by (auto simp: js_digit_def js_space_def)

lemma parse_shown: "parseHops (js_show_nat n) = (if n \<le> 8 then Some n else None)"
proof -
  have d: "js_show_nat n \<noteq> []" "list_all js_digit (js_show_nat n)"
    using js_show_nat_digits [of n] by (auto simp: js_all_digits_def)
  then have "js_digit (hd (js_show_nat n))" "js_digit (last (js_show_nat n))" by (simp_all add: list_all_iff)
  then have "js_trim (js_show_nat n) = js_show_nat n"
    by (intro js_trim_plain d(1) digit_not_space)
  then show ?thesis using js_show_nat_digits [of n] by (auto simp: parseHops_def MAX_HOPS_def)
qed

text \<open>A silent fallback is always reported: the value used is the written one or there is an issue.\<close>

lemma fallback_reported:
  assumes "trust_proxy_hops env = Some raw" and "parseHops raw \<noteq> Some (resolveTrustProxyHops env)"
  shows "inspectTrustProxyConfig env = Some (Invalid raw (resolveTrustProxyHops env))"
  using assms by (auto simp: inspectTrustProxyConfig_def resolveTrustProxyHops_def Let_def split: option.splits)

subsection \<open>The chain of a header\<close>

lemma js_split_plain: "c \<notin> set p \<Longrightarrow> js_split c p = [p]"
  by (induction p) auto

lemma js_split_append: "c \<notin> set p \<Longrightarrow> js_split c (p @ c # rest) = p # js_split c rest"
  by (induction p) auto

lemma chain_split_join:
  "list_all (\<lambda>p. c \<notin> set p) ps \<Longrightarrow> ps \<noteq> [] \<Longrightarrow> c \<notin> set sep \<Longrightarrow>
   js_split c (js_join (c # sep) ps) = hd ps # map (\<lambda>p. sep @ p) (tl ps)"
proof (induction ps)
  case (Cons p ps)
  show ?case
  proof (cases ps)
    case (Cons q qs)
    have "js_split c (js_join (c # sep) (p # ps)) = p # js_split c (sep @ js_join (c # sep) ps)"
      using Cons Cons.prems by (simp add: js_split_append)
    moreover have "js_split c (sep @ js_join (c # sep) ps) = (sep @ q) # map (\<lambda>p. sep @ p) qs"
    proof -
      have pre: "js_split c (sep @ x) = (sep @ hd (js_split c x)) # tl (js_split c x)" for x
        using \<open>c \<notin> set sep\<close>
      proof (induction sep)
        case Nil
        have "js_split c x \<noteq> []" by (cases x) (auto split: list.splits)
        then show ?case by simp
      qed simp
      show ?thesis using Cons.IH Cons.prems Cons by (simp add: pre)
    qed
    ultimately show ?thesis using Cons by simp
  qed (use Cons.prems in \<open>simp add: js_split_plain\<close>)
qed simp

lemma js_trim_space: "js_trim (32 # s) = js_trim s"
  by (simp add: js_trim_def js_space_def)

text \<open>What a proxy joined with a comma and a space is read back entry by entry.\<close>

lemma read_joined:
  assumes "list_all (\<lambda>e. e \<noteq> [] \<and> js_trim e = e \<and> 44 \<notin> set e) entries"
  shows "readForwardedChain (Some (Inl (js_join [44, 32] entries))) = entries"
proof (cases entries)
  case Nil
  then show ?thesis by (simp add: readForwardedChain_def js_trim_def)
next
  case (Cons p ps)
  have "js_split 44 (js_join [44, 32] entries) = hd entries # map (\<lambda>p. [32] @ p) (tl entries)"
    by (rule chain_split_join) (use assms Cons in \<open>auto simp: list_all_iff\<close>)
  moreover have "map js_trim (map (\<lambda>p. [32] @ p) ps) = ps"
    using assms Cons by (auto simp: js_trim_space list_all_iff intro: map_idI)
  moreover have "filter (\<lambda>e. 0 < length e) entries = entries" using assms by (auto simp: list_all_iff)
  ultimately show ?thesis using assms Cons by (simp add: readForwardedChain_def)
qed

subsection \<open>The probe\<close>

definition probe_ok :: "proxy_probe \<Rightarrow> bool" where
  "probe_ok p \<longleftrightarrow> pb_taken p \<le> pb_limit p \<and> map pl_number (pb_log p) = [1..<pb_taken p + 1] \<and>
     list_all (\<lambda>l. (pl_verdict l = ChainOk \<longleftrightarrow> length (pl_chain l) = pb_hops p) \<and>
       (pl_last l \<longleftrightarrow> pl_number l = pb_limit p)) (pb_log p)"

lemma probe_step_ok: "probe_ok p \<Longrightarrow> probe_ok (trustProxyProbe a f p)"
  by (auto simp: probe_ok_def trustProxyProbe_def evaluateTrustProxyChain_def Let_def)

lemma probe_run_ok: "probe_ok p \<Longrightarrow> probe_ok (probe_run rs p)"
  by (induction rs p rule: probe_run.induct) (simp_all add: probe_step_ok)

lemma probe_frames [simp]: "pb_limit (probe_run rs p) = pb_limit p" "pb_hops (probe_run rs p) = pb_hops p"
  by (induction rs p rule: probe_run.induct) (simp_all add: trustProxyProbe_def Let_def)

text \<open>After the last sample nothing changes any more.\<close>

lemma probe_full: "pb_taken p = pb_limit p \<Longrightarrow> probe_run rs p = p"
  by (induction rs p rule: probe_run.induct) (simp_all add: trustProxyProbe_def)

end
