(* ===== verification/PlayerProperties.thy ===== *)
theory PlayerProperties
  imports PlayerRules TrustProxy
begin

text \<open>The properties of the two players and of the trusted proxies, each with a concrete instance.\<close>

text \<open>
  Every device is told to play a slot so that it is heard at one moment of the server's
  clock, whatever its own clock, its estimate of the difference and its output latency are: the
  number \<open>n\<close> of the shared countdown when \<open>n\<close> seconds are left, every captain of a rally group at its
  offset after the start.
\<close>

theorem heard_at_server_time:
  "map (\<lambda>x. (sl_sound x, heard_at au (cp_timeOffset p) (sl_at x))) (slots_at countdown_kind au i p) =
     map (\<lambda>(s, off). (s, cp_startedAt p + off * 1000)) (countdown_slots p) \<and>
   map (\<lambda>x. (sl_sound x, heard_at au (rp_timeOffset q) (sl_at x))) (slots_at rally_kind au i q) =
     map (\<lambda>(s, off). (s, rp_startedAt q + off * 1000)) (rally_slots q)"
  using heard_slot [of au countdown_kind p] heard_slot [of au rally_kind q]
  by (simp add: slots_at_def countdown_kind_def rally_kind_def split_beta)

text \<open>
  Property C17. Whatever happens, a sound never starts before its slot and at most a fifth of a second
  after it, and what plays or is due to play belongs to the latest schedule.
\<close>

theorem sounds_on_time:
  "let s = player_run k ops (player_initial c) in
   list_all (\<lambda>(x, start). sl_at x \<le> start \<and> start \<le> sl_at x + 1 / 5) (dispatchedLog s) \<and>
   list_all (\<lambda>(x, start). sl_at x \<le> start \<and> start \<le> sl_at x + 1 / 5 \<and> sl_id x = latestScheduleId s) (activeSources s)"
proof -
  have "player_inv (player_run k ops (player_initial c))" by (rule player_run_inv [OF player_initial_inv])
  then show ?thesis by (auto simp: player_inv_def slot_on_time_def PAST_DUE_SEC_def Let_def list_all_iff)
qed

text \<open>
  A stopped player is silent: late buffers, resumed contexts and schedules still under way
  start nothing until somebody schedules again.
\<close>

theorem stopped_silent:
  assumes "list_all (\<lambda>x. \<not> is_schedule (snd x)) later"
    and "s = player_stop (player_run k ops (player_initial c))"
  shows "activeSources (player_run k later s) = [] \<and> dispatchedLog (player_run k later s) = dispatchedLog s"
proof -
  have "numbers_le (latestScheduleId (player_initial c :: 'a player)) (player_initial c :: 'a player)"
    by (simp add: numbers_le_def player_initial_def)
  from stop_idle [OF numbers_run [OF this]] show ?thesis unfolding assms(2) by (rule idle_run [OF _ assms(1)])
qed

definition ex_au :: audio_now where
  "ex_au = \<lparr>au_time = 5, au_wall = 1000, au_outputLatency = JUndef, au_baseLatency = JUndef\<rparr>"

definition ex_params :: countdown_params where
  "ex_params = \<lparr>cp_totalSeconds = 2, cp_startedAt = 3000, cp_timeOffset = 0, cp_lang = ''ko'', cp_volume = JUndef,
     cp_muted = False, cp_marchSeconds = JNull\<rparr>"

theorem stopped_silent_witness:
  "activeSources (player_run countdown_kind [(ex_au, PlBuffer ''ko'' (SNum 2) True), (ex_au, PlContext CtxRunning)]
     (player_stop (player_run countdown_kind [(ex_au, PlSchedule ex_params), (ex_au, PlContinue 2)]
       (player_initial (Some CtxRunning))))) = []"
proof -
  have "list_all (\<lambda>x. \<not> is_schedule (snd x))
      [(ex_au, PlBuffer ''ko'' (SNum 2) True), (ex_au, PlContext CtxRunning :: countdown_params player_op)]" by simp
  from stopped_silent [OF this refl] show ?thesis by blast
qed

text \<open>
  The number of trusted hops is at most eight and never a blanket trust; a decimal number up
  to eight in the environment is the one used, anything else falls back to one in production and to
  none elsewhere, and every such fallback is reported, except the silent trust in nobody outside
  production.
\<close>

theorem trusted_hops:
  "resolveTrustProxyHops env \<le> 8 \<and>
   resolveTrustProxyHops (env\<lparr>trust_proxy_hops := Some (js_show_nat n)\<rparr>) =
     (if n \<le> 8 then n else if is_production env then 1 else 0) \<and>
   (inspectTrustProxyConfig env = None) =
     (case trust_proxy_hops env of
        None \<Rightarrow> \<not> is_production env
      | Some raw \<Rightarrow> parseHops raw = Some (resolveTrustProxyHops env))"
proof -
  have "resolveTrustProxyHops (env\<lparr>trust_proxy_hops := Some (js_show_nat n)\<rparr>) =
      (if n \<le> 8 then n else if is_production env then 1 else 0)"
    by (simp add: resolveTrustProxyHops_def parse_shown is_production_def Let_def)
  moreover have "(inspectTrustProxyConfig env = None) =
      (case trust_proxy_hops env of None \<Rightarrow> \<not> is_production env
       | Some raw \<Rightarrow> parseHops raw = Some (resolveTrustProxyHops env))"
    by (auto simp: inspectTrustProxyConfig_def resolveTrustProxyHops_def Let_def split: option.splits)
  ultimately show ?thesis using resolve_bound by blast
qed

end
