(* ===== verification/Glossary.thy ===== *)
theory Glossary
  imports ScriptDetect
begin

text \<open>
  The glossary of the game, \<open>server/src/translate/glossary.ts\<close>: its rows, the rule that recognises an
  alias in a text and the lines that go into the instructions of the translator. The Unicode properties,
  case folding and lower case are the runtime's and hence arguments.
\<close>

record unicode_rt =
  ur_latin :: "nat \<Rightarrow> bool"
  ur_cyrillic :: "nat \<Rightarrow> bool"
  ur_hangul :: "nat \<Rightarrow> bool"
  ur_letter :: "nat \<Rightarrow> bool"
  ur_number :: "nat \<Rightarrow> bool"
  ur_fold :: "nat \<Rightarrow> nat"
  ur_lower :: "jstring \<Rightarrow> jstring"

text \<open>The columns ko, en, ja, zh, ru, each a list of spellings whose first is the one to use.\<close>

datatype glossary_row = GlossaryRow "jstring list" "jstring list" "jstring list" "jstring list" "jstring list"

definition GLOSSARY_MAX_LINES :: nat where "GLOSSARY_MAX_LINES = 12"

definition GLOSSARY :: "glossary_row list" where
  "GLOSSARY = [
     GlossaryRow
       [[0xC9D1, 0xACB0]]
       [lit ''rally'', lit ''rallies'']
       [[0x96C6, 0x7D50]]
       [[0x96C6, 0x7ED3]]
       [[0x441, 0x431, 0x43E, 0x440]],
     GlossaryRow
       [[0xC9D1, 0xACB0, 0xC7A5], [0xC9D1, 0xACB0, 0x20, 0xB9AC, 0xB354]]
       [lit ''rally leader'']
       [[0x96C6, 0x7D50, 0x30EA, 0x30FC, 0x30C0, 0x30FC]]
       [[0x96C6, 0x7ED3, 0x961F, 0x957F]]
       [[0x43B, 0x438, 0x434, 0x435, 0x440, 0x20, 0x441, 0x431, 0x43E, 0x440, 0x430], [0x43B, 0x438, 0x434, 0x435, 0x440, 0x43E, 0x43C, 0x20, 0x441, 0x431, 0x43E, 0x440, 0x430]],
     GlossaryRow
       [[0xC5F0, 0xB9F9]]
       [lit ''alliance'']
       [[0x540C, 0x76DF]]
       [[0x8054, 0x76DF]]
       [[0x430, 0x43B, 0x44C, 0x44F, 0x43D, 0x441]],
     GlossaryRow
       [lit ''SFC'', [0xC36C, 0xD30C, 0xC774, 0xC5B4]]
       [lit ''SFC'', lit ''Sunfire Castle'']
       [[0x30B5, 0x30F3, 0x30D5, 0x30A1, 0x30A4, 0x30A2, 0x57CE]]
       [[0x70C8, 0x65E5, 0x57CE, 0x5821]]
       [[0x417, 0x430, 0x43C, 0x43E, 0x43A, 0x20, 0x421, 0x430, 0x43D, 0x444, 0x430, 0x439, 0x440]],
     GlossaryRow
       [[0xACF0, 0x20, 0xC0AC, 0xB0E5], [0xACF0, 0xC0AC, 0xB0E5], [0xACF0, 0x20, 0xD568, 0xC815]]
       [lit ''Bear Hunt'', lit ''bear trap'']
       [[0x30AF, 0x30DE, 0x72E9, 0x308A]]
       [[0x730E, 0x718A]]
       [[0x41E, 0x445, 0x43E, 0x442, 0x430, 0x20, 0x43D, 0x430, 0x20, 0x43C, 0x435, 0x434, 0x432, 0x435, 0x434, 0x44F], [0x43E, 0x445, 0x43E, 0x442]],
     GlossaryRow
       [[0xC694, 0xC0C8, 0xC804]]
       [lit ''Fortress Battle'']
       [[0x8981, 0x585E, 0x6226]]
       [[0x8981, 0x585E, 0x6218]]
       [[0x411, 0x438, 0x442, 0x432, 0x430, 0x20, 0x437, 0x430, 0x20, 0x43A, 0x440, 0x435, 0x43F, 0x43E, 0x441, 0x442, 0x44C], [0x431, 0x438, 0x442, 0x432]],
     GlossaryRow
       [[0xC694, 0xC0C8]]
       [lit ''fortress'']
       [[0x8981, 0x585E]]
       [[0x8981, 0x585E]]
       [[0x43A, 0x440, 0x435, 0x43F, 0x43E, 0x441, 0x442, 0x44C], [0x43A, 0x440, 0x435, 0x43F, 0x43E, 0x441, 0x442]],
     GlossaryRow
       [[0xC131]]
       [lit ''castle'']
       [[0x57CE]]
       [[0x57CE, 0x5821]]
       [[0x437, 0x430, 0x43C, 0x43E, 0x43A], [0x437, 0x430, 0x43C, 0x43A]],
     GlossaryRow
       [[0xD654, 0xB85C]]
       [lit ''Furnace'']
       [[0x6EB6, 0x9271, 0x7089]]
       [[0x7194, 0x7089]]
       [[0x41F, 0x435, 0x447, 0x44C], [0x43F, 0x435, 0x447]],
     GlossaryRow
       [[0xBCF4, 0xBCD1], [0xBC29, 0xD328, 0xBCD1]]
       [lit ''Infantry'']
       [[0x6B69, 0x5175]]
       [[0x6B65, 0x5175]]
       [[0x41F, 0x435, 0x445, 0x43E, 0x442, 0x430], [0x43F, 0x435, 0x445, 0x43E, 0x442]],
     GlossaryRow
       [[0xCC3D, 0xBCD1], [0xCC3D, 0xAE30, 0xBCD1]]
       [lit ''Lancer'', lit ''lancers'']
       [[0x69CD, 0x5175]]
       [[0x67AA, 0x5175]]
       [[0x41A, 0x43E, 0x43F, 0x435, 0x439, 0x449, 0x438, 0x43A]],
     GlossaryRow
       [[0xC0AC, 0xC218], [0xAD81, 0xBCD1]]
       [lit ''Marksman'', lit ''marksmen'']
       [[0x5C04, 0x624B]]
       [[0x5C04, 0x624B]]
       [[0x421, 0x442, 0x440, 0x435, 0x43B, 0x43E, 0x43A], [0x441, 0x442, 0x440, 0x435, 0x43B, 0x43A]],
     GlossaryRow
       [[0xBCD1, 0xB825]]
       [lit ''troops'']
       [[0x5175, 0x529B]]
       [[0x90E8, 0x961F]]
       [[0x432, 0x43E, 0x439, 0x441, 0x43A, 0x430], [0x432, 0x43E, 0x439, 0x441, 0x43A]],
     GlossaryRow
       [[0xD589, 0xAD70, 0x20, 0xC2DC, 0xAC04], [0xD589, 0xAD70, 0xC2DC, 0xAC04]]
       [lit ''march time'']
       [[0x884C, 0x8ECD, 0x6642, 0x9593]]
       [[0x884C, 0x519B, 0x65F6, 0x95F4]]
       [[0x432, 0x440, 0x435, 0x43C, 0x44F, 0x20, 0x43C, 0x430, 0x440, 0x448, 0x430]],
     GlossaryRow
       [[0xD589, 0xAD70]]
       [lit ''march'']
       [[0x884C, 0x8ECD]]
       [[0x884C, 0x519B]]
       [[0x43C, 0x430, 0x440, 0x448]],
     GlossaryRow
       [[0xC8FC, 0xB454], [0xC218, 0xBE44]]
       [lit ''garrison'']
       [[0x99D0, 0x5C6F]]
       [[0x9A7B, 0x9632]]
       [[0x433, 0x430, 0x440, 0x43D, 0x438, 0x437, 0x43E, 0x43D]],
     GlossaryRow
       [[0xC815, 0xCC30]]
       [lit ''scout'']
       [[0x5075, 0x5BDF]]
       [[0x4FA6, 0x5BDF]]
       [[0x440, 0x430, 0x437, 0x432, 0x435, 0x434, 0x43A, 0x430], [0x440, 0x430, 0x437, 0x432, 0x435, 0x434, 0x43A]],
     GlossaryRow
       [[0xBC29, 0xD328], [0xBCF4, 0xD638, 0xB9C9]]
       [lit ''shield'']
       [[0x30B7, 0x30FC, 0x30EB, 0x30C9]]
       [[0x62A4, 0x76FE]]
       [[0x449, 0x438, 0x442]],
     GlossaryRow
       [[0xD154, 0xD3EC], [0xD154, 0xB808, 0xD3EC, 0xD2B8]]
       [lit ''teleport'']
       [[0x30C6, 0x30EC, 0x30DD, 0x30FC, 0x30C8]]
       [[0x4F20, 0x9001]]
       [[0x442, 0x435, 0x43B, 0x435, 0x43F, 0x43E, 0x440, 0x442]],
     GlossaryRow
       [[0xC88C, 0xD45C]]
       [lit ''coordinates'', lit ''coords'']
       [[0x5EA7, 0x6A19]]
       [[0x5750, 0x6807]]
       [[0x43A, 0x43E, 0x43E, 0x440, 0x434, 0x438, 0x43D, 0x430, 0x442, 0x44B], [0x43A, 0x43E, 0x43E, 0x440, 0x434, 0x438, 0x43D, 0x430, 0x442]],
     GlossaryRow
       [[0xC804, 0xD22C, 0xB825]]
       [lit ''power'']
       [[0x6226, 0x95D8, 0x529B]]
       [[0x6218, 0x529B]]
       [[0x43C, 0x43E, 0x449, 0x44C], [0x43C, 0x43E, 0x449]],
     GlossaryRow
       [[0xC601, 0xC6C5]]
       [lit ''hero'', lit ''heroes'']
       [[0x82F1, 0x96C4]]
       [[0x82F1, 0x96C4]]
       [[0x433, 0x435, 0x440, 0x43E, 0x439], [0x433, 0x435, 0x440, 0x43E]],
     GlossaryRow
       [[0xC11C, 0xBC84]]
       [lit ''state'']
       [[0x30B5, 0x30FC, 0x30D0, 0x30FC]]
       [[0x5DDE]]
       [[0x448, 0x442, 0x430, 0x442]],
     GlossaryRow
       [[0xC774, 0xC8FC]]
       [lit ''transfer'', lit ''migration'']
       [[0x79FB, 0x4F4F]]
       [[0x8FC1, 0x670D]]
       [[0x43F, 0x435, 0x440, 0x435, 0x435, 0x437, 0x434], [0x43F, 0x435, 0x440, 0x435, 0x435, 0x445]],
     GlossaryRow
       [[0xC6E8, 0xC774, 0xBE0C]]
       [lit ''wave'']
       [[0x30A6, 0x30A7, 0x30FC, 0x30D6]]
       [[0x6CE2, 0x6B21]]
       [[0x432, 0x43E, 0x43B, 0x43D, 0x430], [0x432, 0x43E, 0x43B, 0x43D]],
     GlossaryRow
       [[0xB819], [0xB808, 0xBCA8]]
       [lit ''level'', lit ''lvl'']
       [[0x30EC, 0x30D9, 0x30EB]]
       [[0x7EA7]]
       [[0x443, 0x440, 0x43E, 0x432, 0x435, 0x43D, 0x44C], [0x443, 0x440, 0x43E, 0x432, 0x43D]]]"

fun glossary_column :: "glossary_row \<Rightarrow> string \<Rightarrow> jstring list" where
  "glossary_column (GlossaryRow ko en ja zh ru) l =
     (if l = ''ko'' then ko else if l = ''en'' then en else if l = ''ja'' then ja
      else if l = ''zh'' then zh else if l = ''ru'' then ru else [])"

subsection \<open>Recognising an alias\<close>

definition cyrillic_alias :: "unicode_rt \<Rightarrow> jstring \<Rightarrow> bool" where
  "cyrillic_alias u a \<longleftrightarrow> a \<noteq> [] \<and> list_all (\<lambda>c. ur_cyrillic u c \<or> js_space c \<or> c = 45) (code_points a)"

definition latin_alias :: "unicode_rt \<Rightarrow> jstring \<Rightarrow> bool" where
  "latin_alias u a \<longleftrightarrow> a \<noteq> [] \<and> list_all (\<lambda>c. ur_latin u c \<or> js_space c \<or> c \<in> {46, 39, 45}) (code_points a)"

definition hangul_single :: "unicode_rt \<Rightarrow> jstring \<Rightarrow> bool" where
  "hangul_single u a \<longleftrightarrow> (case code_points a of [c] \<Rightarrow> ur_hangul u c | _ \<Rightarrow> False)"

definition word_char :: "unicode_rt \<Rightarrow> nat \<Rightarrow> bool" where
  "word_char u c \<longleftrightarrow> ur_letter u c \<or> ur_number u c"

text \<open>The alias, perhaps in the plural, at this place and no letter or digit behind it, ignoring case.\<close>

definition latin_here :: "unicode_rt \<Rightarrow> nat list \<Rightarrow> nat list \<Rightarrow> bool" where
  "latin_here u alias rest =
     list_ex (\<lambda>suf. map (ur_fold u) (take (length (alias @ suf)) rest) = map (ur_fold u) (alias @ suf) \<and>
                (case drop (length (alias @ suf)) rest of [] \<Rightarrow> True | c # cs \<Rightarrow> \<not> word_char u c))
       [[115], [101, 115], []]"

fun latin_scan :: "unicode_rt \<Rightarrow> nat list \<Rightarrow> bool \<Rightarrow> nat list \<Rightarrow> bool" where
  "latin_scan u alias behind [] = (\<not> behind \<and> latin_here u alias [])"
| "latin_scan u alias behind (c # cs) =
     ((\<not> behind \<and> latin_here u alias (c # cs)) \<or> latin_scan u alias (word_char u c) cs)"

text \<open>What may follow a one-letter Korean alias: the end, white space or a particle.\<close>

definition KO_SINGLE_TRAILING :: "nat list list" where
  "KO_SINGLE_TRAILING = [[0xC5D0], [0xC73C, 0xB85C], [0xC5D0, 0xC11C], [0xC740], [0xB294], [0xC774], [0xAC00],
     [0xC744], [0xB97C], [0xB3C4]]"

definition hangul_here :: "nat list \<Rightarrow> nat list \<Rightarrow> bool" where
  "hangul_here alias rest \<longleftrightarrow>
     starts_with rest alias \<and>
     (case drop (length alias) rest of
        [] \<Rightarrow> True
      | c # cs \<Rightarrow> js_space c \<or> list_ex (starts_with (c # cs)) KO_SINGLE_TRAILING)"

fun hangul_scan :: "nat list \<Rightarrow> bool \<Rightarrow> nat list \<Rightarrow> bool" where
  "hangul_scan alias behind [] = (\<not> behind \<and> hangul_here alias [])"
| "hangul_scan alias behind (c # cs) =
     ((\<not> behind \<and> hangul_here alias (c # cs)) \<or> hangul_scan alias (\<not> js_space c) cs)"

definition aliasMatcher :: "unicode_rt \<Rightarrow> jstring \<Rightarrow> jstring \<Rightarrow> bool" where
  "aliasMatcher u alias text =
     (if cyrillic_alias u alias then js_includes (ur_lower u text) (ur_lower u alias)
      else if latin_alias u alias then latin_scan u (code_points alias) False (code_points text)
      else if hangul_single u alias then hangul_scan (code_points alias) False (code_points text)
      else js_includes text alias)"

definition row_aliases :: "glossary_row \<Rightarrow> (jstring \<times> string) list" where
  "row_aliases row = concat (map (\<lambda>column. map (\<lambda>alias. (alias, column)) (glossary_column row column)) TARGET_LANGS)"

definition row_hit :: "unicode_rt \<Rightarrow> jstring \<Rightarrow> glossary_row \<Rightarrow> (jstring \<times> string) option" where
  "row_hit u text row = find (\<lambda>a. aliasMatcher u (fst a) text) (row_aliases row)"

subsection \<open>The lines\<close>

definition representative :: "glossary_row \<Rightarrow> string \<Rightarrow> jstring" where
  "representative row lang = (case glossary_column row lang of [] \<Rightarrow> lit ''undefined'' | a # as \<Rightarrow> a)"

definition glossary_line :: "glossary_row \<Rightarrow> string list \<Rightarrow> jstring \<times> string \<Rightarrow> jstring" where
  "glossary_line row targets hit =
     fst hit @ [32, 0x2192, 32] @
     js_join (lit ''; '')
       (map (\<lambda>lang. lit lang @ lit '': '' @ (if lang = snd hit then fst hit else representative row lang)) targets)"

fun glossary_loop :: "unicode_rt \<Rightarrow> jstring \<Rightarrow> string list \<Rightarrow> nat \<Rightarrow> glossary_row list \<Rightarrow> jstring list \<Rightarrow> jstring list" where
  "glossary_loop u text targets m [] acc = acc"
| "glossary_loop u text targets m (row # rows) acc =
     (case row_hit u text row of
        None \<Rightarrow> glossary_loop u text targets m rows acc
      | Some hit \<Rightarrow>
          if list_all (\<lambda>lang. lang = snd hit) targets then glossary_loop u text targets m rows acc
          else (let acc' = acc @ [glossary_line row targets hit]
                in if m \<le> length acc' then acc' else glossary_loop u text targets m rows acc'))"

definition selectGlossaryLines :: "unicode_rt \<Rightarrow> jstring \<Rightarrow> string list \<Rightarrow> nat \<Rightarrow> jstring list" where
  "selectGlossaryLines u text targets m =
     (if text = [] \<or> targets = [] \<or> m = 0 then [] else glossary_loop u text targets m GLOSSARY [])"

subsection \<open>What is selected\<close>

definition row_line :: "unicode_rt \<Rightarrow> jstring \<Rightarrow> string list \<Rightarrow> glossary_row \<Rightarrow> jstring list" where
  "row_line u text targets row =
     (case row_hit u text row of
        None \<Rightarrow> []
      | Some hit \<Rightarrow> if set targets \<subseteq> {snd hit} then [] else [glossary_line row targets hit])"

lemma glossary_loop_take:
  "length acc < m \<Longrightarrow>
   glossary_loop u text targets m rows acc = take m (acc @ concat (map (row_line u text targets) rows))"
proof (induction rows arbitrary: acc)
  case (Cons row rows)
  show ?case
  proof (cases "row_line u text targets row")
    case Nil
    then have "glossary_loop u text targets m (row # rows) acc = glossary_loop u text targets m rows acc"
      by (auto simp: row_line_def list_all_iff split: option.splits if_splits)
    with Cons.IH [OF Cons.prems] Nil show ?thesis by simp
  next
    case (Cons l ls)
    then obtain hit where hit: "row_hit u text row = Some hit" "\<not> list_all (\<lambda>lang. lang = snd hit) targets"
      and l: "l = glossary_line row targets hit" "ls = []"
      by (auto simp: row_line_def list_all_iff split: option.splits if_splits)
    show ?thesis
    proof (cases "m \<le> length (acc @ [l])")
      case True
      with \<open>length acc < m\<close> have "m - length acc = Suc 0" by simp
      with hit l Cons True show ?thesis by simp
    next
      case False
      with Cons.IH [of "acc @ [l]"] hit l Cons show ?thesis by simp
    qed
  qed
qed simp

lemma selected_lines:
  "selectGlossaryLines u text targets m =
     (if text = [] then [] else take m (concat (map (row_line u text targets) GLOSSARY)))"
proof -
  have "concat (map (row_line u text []) rows) = []" for rows
    by (induction rows) (auto simp: row_line_def split: option.splits)
  then show ?thesis by (auto simp: selectGlossaryLines_def glossary_loop_take)
qed

lemma selected_bound: "length (selectGlossaryLines u text targets m) \<le> m"
  by (simp add: selected_lines)

lemma glossary_complete: "list_all (\<lambda>row. list_all (\<lambda>l. glossary_column row l \<noteq> []) TARGET_LANGS) GLOSSARY"
  by (simp add: GLOSSARY_def TARGET_LANGS_def)

end
