(* ===== verification/TranslateRules.thy ===== *)
theory TranslateRules
  imports TranslateEngine
begin

text \<open>
  What the engine asks the provider for and what it returns: every wanted language or text is asked
  for, the requests stay within the limit of the output and are few, and a result holds exactly what was
  wanted.
\<close>

declare map_of_eq_Some_iff [simp del]

subsection \<open>Traces of requests\<close>

text \<open>\<open>e'\<close> is \<open>e\<close> after the requests \<open>new\<close>, all of them answered if \<open>ok\<close>.\<close>

definition eng_trace :: "(eng_request \<Rightarrow> bool) \<Rightarrow> bool \<Rightarrow> engine \<Rightarrow> engine \<Rightarrow> eng_request list \<Rightarrow> bool" where
  "eng_trace P ok e e' new \<longleftrightarrow>
     eg_requests e' = eg_requests e @ new \<and> eg_client e' = eg_client e \<and> eg_model e' = eg_model e \<and>
     list_all P new \<and> us_calls (eg_usage e') \<le> us_calls (eg_usage e) + length new \<and>
     (ok \<longrightarrow> us_calls (eg_usage e') = us_calls (eg_usage e) + length new)"

lemma eng_trace_nil [simp]: "eng_trace P ok e e []"
  by (simp add: eng_trace_def)

lemma eng_trace_append:
  "eng_trace P True e e1 n1 \<Longrightarrow> eng_trace P ok e1 e2 n2 \<Longrightarrow> eng_trace P ok e e2 (n1 @ n2)"
  by (auto simp: eng_trace_def)

lemma eng_trace_mono: "eng_trace P ok e e' n \<Longrightarrow> (\<And>rq. P rq \<Longrightarrow> Q rq) \<Longrightarrow> eng_trace Q ok e e' n"
  by (auto simp: eng_trace_def list_all_iff)

lemma eng_trace_weaken: "eng_trace P True e e' n \<Longrightarrow> eng_trace P ok e e' n"
  by (simp add: eng_trace_def)

definition sent :: "engine \<Rightarrow> eng_request \<Rightarrow> eng_request" where
  "sent e rq = rq\<lparr>rq_model := eg_model e, rq_params := modelRequestParams (eg_model e)\<rparr>"

lemma sent_fields [simp]:
  "rq_input (sent e rq) = rq_input rq" "rq_maxOutputTokens (sent e rq) = rq_maxOutputTokens rq"
  "rq_targets (sent e rq) = rq_targets rq" "rq_required (sent e rq) = rq_required rq"
  by (simp_all add: sent_def)

lemma eng_call_trace:
  assumes "eng_call rt rq e = (res, e1)" and "P (sent e rq)"
  shows "eng_trace P (\<not> (\<exists>err. res = Inl err)) e e1 [sent e rq]"
  using assms
  by (auto simp: eng_call_def eng_trace_def Let_def sent_def usage_record_def split: prov_answer.splits)

subsection \<open>One text\<close>

definition asked :: "eng_request \<Rightarrow> string set" where
  "asked rq = (case rq_input rq of InMulti ts x \<Rightarrow> set ts | _ \<Rightarrow> {})"

definition multi_ok :: "jstring \<Rightarrow> string list \<Rightarrow> eng_request \<Rightarrow> bool" where
  "multi_ok text targets rq \<longleftrightarrow>
     (case rq_input rq of
        InMulti ts x \<Rightarrow> x = text \<and> ts \<noteq> [] \<and> length ts \<le> length targets \<and> set ts \<subseteq> set targets \<and>
          rq_maxOutputTokens rq = min (max 1500 (estimateTokens (length text) + 100))
            (length ts * estimateTokens (length text) + 100)
      | _ \<Rightarrow> False)"

lemma multi_request_ok: "targets \<noteq> [] \<Longrightarrow> multi_ok text targets (sent e (multi_request rt text targets))"
  by (simp add: multi_ok_def multi_request_def Let_def MAX_OUTPUT_TOKENS_CAP_def OUTPUT_TOKENS_OVERHEAD_def)

lemma multi_request_asked [simp]: "asked (sent e (multi_request rt text targets)) = set targets"
  by (simp add: asked_def multi_request_def Let_def)

lemma multi_ok_mono:
  "multi_ok text ts rq \<Longrightarrow> set ts \<subseteq> set targets \<Longrightarrow> length ts \<le> length targets \<Longrightarrow> multi_ok text targets rq"
  by (auto simp: multi_ok_def split: call_input.splits)

lemma assign_wf: "jm_wf m \<Longrightarrow> jm_wf (assign m n)"
  unfolding assign_def by (induction n arbitrary: m) auto

lemma map_of_rev: "jm_wf n \<Longrightarrow> map_of (rev n) = map_of n"
  by (subst map_of_inject_set) (simp_all add: rev_map [symmetric])

lemma assign_lookup: "jm_wf n \<Longrightarrow> map_of (assign m n) k = (case map_of n k of None \<Rightarrow> map_of m k | Some v \<Rightarrow> Some v)"
proof -
  have "map_of (assign m n) k = (case map_of (rev n) k of None \<Rightarrow> map_of m k | Some v \<Rightarrow> Some v)"
    unfolding assign_def by (induction n arbitrary: m) (auto simp: map_add_def split: option.splits)
  then show "jm_wf n \<Longrightarrow> ?thesis" by (simp add: map_of_rev)
qed

text \<open>Translations of some of the languages, none empty or with white space around it.\<close>

definition texts_ok :: "string set \<Rightarrow> (string, jstring) jmap \<Rightarrow> bool" where
  "texts_ok ts m \<longleftrightarrow> jm_wf m \<and> (\<forall>l t. map_of m l = Some t \<longrightarrow> l \<in> ts \<and> t \<noteq> [] \<and> js_trim t = t)"

lemma texts_ok_Nil [simp]: "texts_ok ts []"
  by (simp add: texts_ok_def)

lemma texts_ok_assign: "texts_ok ts m \<Longrightarrow> texts_ok ts n \<Longrightarrow> texts_ok ts (assign m n)"
  by (auto simp: texts_ok_def assign_wf assign_lookup split: option.splits)

lemma texts_ok_mono: "texts_ok ts m \<Longrightarrow> ts \<subseteq> ts' \<Longrightarrow> texts_ok ts' m"
  by (auto simp: texts_ok_def)

lemma translated_text_ok: "translated_text v = Some t \<Longrightarrow> t \<noteq> [] \<and> js_trim t = t"
  by (auto simp: translated_text_def split: jsval.splits if_splits)

lemma texts_ok_update: "texts_ok ts m \<Longrightarrow> l \<in> ts \<Longrightarrow> translated_text v = Some t \<Longrightarrow> texts_ok ts (AList.update l t m)"
  using translated_text_ok [of v t] by (auto simp: texts_ok_def)

lemma multi_answer_ok: "texts_ok (set targets) (mt_translations (multi_answer targets parsed))"
proof -
  have "texts_ok ts (fold (\<lambda>lang m. case translated_text (js_field parsed lang) of None \<Rightarrow> m | Some t \<Rightarrow> AList.update lang t m) targets m)"
    if "texts_ok ts m" "set targets \<subseteq> ts" for ts m
    using that
  proof (induction targets arbitrary: m)
    case (Cons l ls)
    then show ?case
      by (cases "translated_text (js_field parsed l)") (simp_all add: texts_ok_update)
  qed simp
  from this [of "set targets" "[]"] show ?thesis by (simp add: multi_answer_def)
qed

lemma find_in_members: "find P xs = Some x \<Longrightarrow> x \<in> set xs"
  by (auto simp: find_Some_iff)

lemma unknown_enum [simp]: "''unknown'' \<in> set SOURCE_ENUM"
  by (simp add: SOURCE_ENUM_def)

lemma normalizeSource_enum: "normalizeSource v \<in> set SOURCE_ENUM"
  by (auto simp: normalizeSource_def dest: find_in_members split: jsval.split option.split)

definition multi_result :: "string list \<Rightarrow> eng_request list \<Rightarrow> provider_error + multi_translation \<Rightarrow> bool" where
  "multi_result targets new res \<longleftrightarrow>
     (case res of
        Inl err \<Rightarrow> True
      | Inr m \<Rightarrow> texts_ok (set targets) (mt_translations m) \<and> mt_source m \<in> set SOURCE_ENUM \<and>
          set targets \<subseteq> \<Union> (asked ` set new))"

definition multi_post :: "jstring \<Rightarrow> string list \<Rightarrow> engine \<Rightarrow> (provider_error + multi_translation) \<times> engine \<Rightarrow> bool" where
  "multi_post text targets e out \<longleftrightarrow>
     (\<exists>new. eng_trace (multi_ok text targets) (case fst out of Inl err \<Rightarrow> False | Inr m \<Rightarrow> True) e (snd out) new \<and>
        length new \<le> 2 * length targets - 1 \<and> multi_result targets new (fst out))"

lemma multi_post_sub:
  assumes "multi_post text lo e (res, e')" and "set lo \<subseteq> set targets" and "length lo \<le> length targets"
  obtains new where "eng_trace (multi_ok text targets) (case res of Inl err \<Rightarrow> False | Inr m \<Rightarrow> True) e e' new"
    and "length new \<le> 2 * length lo - 1" and "multi_result lo new res"
proof -
  obtain new where n: "eng_trace (multi_ok text lo) (case res of Inl err \<Rightarrow> False | Inr m \<Rightarrow> True) e e' new"
    "length new \<le> 2 * length lo - 1" "multi_result lo new res"
    using assms(1) by (auto simp: multi_post_def)
  from eng_trace_mono [OF n(1), where Q = "multi_ok text targets"] multi_ok_mono [OF _ assms(2,3)]
  have "eng_trace (multi_ok text targets) (case res of Inl err \<Rightarrow> False | Inr m \<Rightarrow> True) e e' new" by blast
  then show ?thesis using n(2,3) by (rule that)
qed

lemma multi_chunk_post: "targets \<noteq> [] \<Longrightarrow> multi_post text targets e (translateMultiChunk rt text targets e)"
proof (induction rt "text" targets e rule: translateMultiChunk.induct)
  case (1 rt tx targets e)
  obtain res e1 where c: "eng_call rt (multi_request rt tx targets) e = (res, e1)" by fastforce
  define rq where "rq = sent e (multi_request rt tx targets)"
  have tr: "eng_trace (multi_ok tx targets) (\<not> (\<exists>err. res = Inl err)) e e1 [rq]"
    unfolding rq_def by (rule eng_call_trace [where P = "multi_ok tx targets", OF c multi_request_ok [OF 1(3)]])
  have as: "asked rq = set targets" by (simp add: rq_def)
  have n: "Suc 0 \<le> 2 * length targets - 1" using 1(3) by (cases targets) auto
  show ?case
  proof (cases res)
    case (Inl err)
    then show ?thesis using c tr n
      by (subst translateMultiChunk.simps) (auto simp: multi_post_def multi_result_def intro!: exI [of _ "[rq]"])
  next
    case (Inr r)
    note tr = tr [unfolded Inr, simplified]
    show ?thesis
    proof (cases "isIncomplete r \<and> 1 < length targets")
      case False
      then show ?thesis using c Inr tr n as
        by (subst translateMultiChunk.simps)
          (auto simp: multi_post_def multi_result_def nothing_translated_def multi_answer_ok multi_answer_def [of targets] normalizeSource_enum
             eng_trace_weaken multi_answer_ok [unfolded multi_answer_def, simplified]
             split: option.splits intro!: exI [of _ "[rq]"])
    next
      case True
      define mid where "mid = (length targets + 1) div 2"
      have mid: "0 < mid" "mid < length targets" using True by (auto simp: mid_def)
      define lo hi where "lo = take mid targets" and "hi = drop mid targets"
      have lohi: "lo \<noteq> []" "hi \<noteq> []" "set targets = set lo \<union> set hi" "length lo + length hi = length targets"
        using mid unfolding lo_def hi_def by (auto simp flip: set_append)
      have sub: "set lo \<subseteq> set targets" "length lo \<le> length targets" "set hi \<subseteq> set targets" "length hi \<le> length targets"
        using lohi by auto
      obtain ra e2 where a: "translateMultiChunk rt tx lo e1 = (ra, e2)" by fastforce
      have ia: "multi_post tx lo e1 (ra, e2)"
        using "1.IH"(1) [OF c [symmetric]] Inr True lohi(1) a by (simp add: lo_def mid_def)
      obtain n1 where n1: "eng_trace (multi_ok tx targets) (case ra of Inl err \<Rightarrow> False | Inr m \<Rightarrow> True) e1 e2 n1"
        "length n1 \<le> 2 * length lo - 1" "multi_result lo n1 ra"
        using multi_post_sub [OF ia sub(1,2)] by blast
      show ?thesis
      proof (cases ra)
        case (Inl err)
        have "eng_trace (multi_ok tx targets) False e e2 (rq # n1)" using eng_trace_append [OF tr, of False] n1(1) Inl by fastforce
        moreover have "length (rq # n1) \<le> 2 * length targets - 1" using n1(2) lohi by (cases hi) auto
        ultimately show ?thesis using c Inr True a Inl
          by (subst translateMultiChunk.simps) (auto simp: multi_post_def lo_def mid_def multi_result_def intro!: exI [of _ "rq # n1"])
      next
        case (Inr ma)
        obtain rb e3 where b: "translateMultiChunk rt tx hi e2 = (rb, e3)" by fastforce
        have ib: "multi_post tx hi e2 (rb, e3)"
          using "1.IH"(2) [OF c [symmetric]] \<open>res = Inr r\<close> Inr True lohi(2) a b by (simp add: lo_def hi_def mid_def)
        obtain n2 where n2: "eng_trace (multi_ok tx targets) (case rb of Inl err \<Rightarrow> False | Inr m \<Rightarrow> True) e2 e3 n2"
          "length n2 \<le> 2 * length hi - 1" "multi_result hi n2 rb"
          using multi_post_sub [OF ib sub(3,4)] by blast
        have l: "length (rq # n1 @ n2) \<le> 2 * length targets - 1"
          using n1(2) n2(2) lohi by (cases lo; cases hi) auto
        have "eng_trace (multi_ok tx targets) True e e2 (rq # n1)" using eng_trace_append [OF tr, of True] n1(1) Inr by fastforce
        from eng_trace_append [OF this n2(1)]
        have t3: "eng_trace (multi_ok tx targets) (case rb of Inl err \<Rightarrow> False | Inr m \<Rightarrow> True) e e3 (rq # n1 @ n2)" by simp
        show ?thesis
        proof (cases rb)
          case (Inl err)
          then show ?thesis using c \<open>res = Inr r\<close> True a Inr b t3 l
            by (subst translateMultiChunk.simps)
              (auto simp: multi_post_def lo_def hi_def mid_def multi_result_def intro!: exI [of _ "rq # n1 @ n2"])
        next
          case (Inr mb)
          have "texts_ok (set targets) (assign (mt_translations ma) (mt_translations mb))"
            using n1(3) n2(3) \<open>ra = Inr ma\<close> Inr lohi(3) by (auto simp: multi_result_def intro!: texts_ok_assign elim: texts_ok_mono)
          moreover have "set targets \<subseteq> \<Union> (asked ` set (rq # n1 @ n2))" using as by auto
          ultimately have "multi_result targets (rq # n1 @ n2)
              (Inr \<lparr>mt_source = (if mt_source ma \<noteq> ''unknown'' then mt_source ma else mt_source mb),
                    mt_translations = assign (mt_translations ma) (mt_translations mb)\<rparr>)"
            using n1(3) n2(3) \<open>ra = Inr ma\<close> Inr by (simp add: multi_result_def)
          then show ?thesis using c \<open>res = Inr r\<close> True a \<open>ra = Inr ma\<close> b Inr t3 l
            by (subst translateMultiChunk.simps)
              (auto simp: multi_post_def lo_def hi_def mid_def intro!: exI [of _ "rq # n1 @ n2"])
        qed
      qed
    qed
  qed
qed

lemma chunks_concat: "concat (chunks_of n xs) = xs"
  by (induction n xs rule: chunks_of.induct) auto

lemma chunks_each: "c \<in> set (chunks_of n xs) \<Longrightarrow> c \<noteq> [] \<and> (n = 0 \<or> length c \<le> n) \<and> set c \<subseteq> set xs \<and> length c \<le> length xs"
proof (induction n xs rule: chunks_of.induct)
  case (2 n x xs)
  show ?case
  proof (cases "n = 0 \<or> c = take n (x # xs)")
    case True
    then show ?thesis using "2.prems" set_take_subset [of n "x # xs"] by (cases n) (auto dest!: set_mp)
  next
    case False
    then have "c \<in> set (chunks_of n (drop n (x # xs)))" using "2.prems" by simp
    from "2.IH" [OF _ this] False show ?thesis
      using set_drop_subset [of n "x # xs"] by fastforce
  qed
qed simp

lemma multi_loop_post:
  assumes "\<forall>c\<in>set chunks. c \<noteq> [] \<and> set c \<subseteq> set targets \<and> (\<forall>rq. multi_ok tx c rq \<longrightarrow> Q rq)"
    and "texts_ok (set targets) (mt_translations r)" and "mt_source r \<in> set SOURCE_ENUM"
  shows "\<exists>new. eng_trace Q (case fst (multi_loop rt tx chunks r e) of Inl err \<Rightarrow> False | Inr m \<Rightarrow> True) e
      (snd (multi_loop rt tx chunks r e)) new \<and> length new \<le> 2 * length (concat chunks) \<and>
    (case fst (multi_loop rt tx chunks r e) of
       Inl err \<Rightarrow> True
     | Inr m \<Rightarrow> texts_ok (set targets) (mt_translations m) \<and> mt_source m \<in> set SOURCE_ENUM \<and>
         set (concat chunks) \<subseteq> \<Union> (asked ` set new))"
  using assms
proof (induction chunks arbitrary: r e)
  case Nil
  then show ?case by (auto intro!: exI [of _ "[]"])
next
  case (Cons c cs)
  obtain res e1 where c: "translateMultiChunk rt tx c e = (res, e1)" by fastforce
  have "multi_post tx c e (res, e1)" using multi_chunk_post [of c tx e rt] c Cons.prems(1) by simp
  then obtain n1 where n1: "eng_trace (multi_ok tx c) (case res of Inl err \<Rightarrow> False | Inr m \<Rightarrow> True) e e1 n1"
    "length n1 \<le> 2 * length c - 1" "multi_result c n1 res" by (auto simp: multi_post_def)
  have t1: "eng_trace Q (case res of Inl err \<Rightarrow> False | Inr m \<Rightarrow> True) e e1 n1"
    by (rule eng_trace_mono [OF n1(1)]) (use Cons.prems(1) in simp)
  show ?case
  proof (cases res)
    case (Inl err)
    then show ?thesis using c t1 n1(2) by (auto intro!: exI [of _ n1])
  next
    case (Inr m)
    define r1 where "r1 = \<lparr>mt_source = (if mt_source m \<noteq> ''unknown'' then mt_source m else mt_source r),
        mt_translations = assign (mt_translations r) (mt_translations m)\<rparr>"
    have m: "texts_ok (set targets) (mt_translations m)" "mt_source m \<in> set SOURCE_ENUM" "set c \<subseteq> \<Union> (asked ` set n1)"
      using n1(3) Inr Cons.prems(1) by (auto simp: multi_result_def elim: texts_ok_mono)
    have r1: "texts_ok (set targets) (mt_translations r1)" "mt_source r1 \<in> set SOURCE_ENUM"
      using m Cons.prems(2,3) by (auto simp: r1_def texts_ok_assign)
    have "\<forall>c\<in>set cs. c \<noteq> [] \<and> set c \<subseteq> set targets \<and> (\<forall>rq. multi_ok tx c rq \<longrightarrow> Q rq)" using Cons.prems(1) by simp
    from Cons.IH [OF this r1, of e1] obtain n2 where
      n2: "eng_trace Q (case fst (multi_loop rt tx cs r1 e1) of Inl err \<Rightarrow> False | Inr m \<Rightarrow> True) e1 (snd (multi_loop rt tx cs r1 e1)) n2"
        "length n2 \<le> 2 * length (concat cs)"
        "case fst (multi_loop rt tx cs r1 e1) of
           Inl err \<Rightarrow> True
         | Inr m \<Rightarrow> texts_ok (set targets) (mt_translations m) \<and> mt_source m \<in> set SOURCE_ENUM \<and>
             set (concat cs) \<subseteq> \<Union> (asked ` set n2)" by auto
    have eq: "multi_loop rt tx (c # cs) r e = multi_loop rt tx cs r1 e1" using c Inr by (simp add: r1_def)
    have "eng_trace Q (case fst (multi_loop rt tx cs r1 e1) of Inl err \<Rightarrow> False | Inr m \<Rightarrow> True) e (snd (multi_loop rt tx cs r1 e1)) (n1 @ n2)"
      using t1 Inr by (intro eng_trace_append [OF _ n2(1)]) simp
    moreover have "length (n1 @ n2) \<le> 2 * length (concat (c # cs))" using n1(2) n2(2) by simp
    ultimately show ?thesis unfolding eq using n2(3) m(3)
      by (intro exI [of _ "n1 @ n2"]) (auto split: sum.splits)
  qed
qed

text \<open>The estimate is never cut by the limit: several languages go together only while they fit.\<close>

definition multi_fits :: "jstring \<Rightarrow> string list \<Rightarrow> eng_request \<Rightarrow> bool" where
  "multi_fits text targets rq \<longleftrightarrow>
     (case rq_input rq of
        InMulti ts x \<Rightarrow> x = text \<and> ts \<noteq> [] \<and> set ts \<subseteq> set targets \<and>
          rq_maxOutputTokens rq = length ts * estimateTokens (length text) + 100 \<and>
          (length ts = 1 \<or> rq_maxOutputTokens rq \<le> 1500)
      | _ \<Rightarrow> False)"

lemma multi_ok_fits:
  assumes "multi_ok tx c rq" and "set c \<subseteq> set targets" and "targets_per_call tx = 0 \<or> length c \<le> targets_per_call tx"
  shows "multi_fits tx targets rq"
proof -
  obtain ts where ts: "rq_input rq = InMulti ts tx" "ts \<noteq> []" "length ts \<le> length c" "set ts \<subseteq> set c"
    "rq_maxOutputTokens rq = min (max 1500 (estimateTokens (length tx) + 100)) (length ts * estimateTokens (length tx) + 100)"
    using assms(1) by (auto simp: multi_ok_def split: call_input.splits)
  define per where "per = estimateTokens (length tx)"
  have "length ts = 1 \<or> length ts * per + 100 \<le> 1500"
  proof (cases "per = 0 \<or> length ts = 1")
    case False
    have "1 < length ts" using False ts(2) by (cases ts) auto
    moreover have "length c \<le> max 1 (1400 div per)"
      using assms(3) False by (simp add: targets_per_call_def Let_def per_def MAX_OUTPUT_TOKENS_CAP_def OUTPUT_TOKENS_OVERHEAD_def)
    ultimately have "length ts \<le> 1400 div per" using ts(3) by (auto simp: max_def split: if_splits)
    then have "length ts * per \<le> 1400" using False by (simp add: less_eq_div_iff_mult_less_eq)
    then show ?thesis by simp
  qed auto
  moreover from this have "length ts * per + 100 \<le> max 1500 (per + 100)" by auto
  then have "min (max 1500 (per + 100)) (length ts * per + 100) = length ts * per + 100" by (rule min_absorb2)
  ultimately show ?thesis using ts assms(2) unfolding multi_fits_def per_def [symmetric] by auto
qed

lemma js_unique_set [simp]: "set (js_unique xs) = set xs" "distinct (js_unique xs)"
  by (simp_all add: js_unique_def)

lemma js_unique_empty [simp]: "js_unique xs = [] \<longleftrightarrow> xs = []"
  by (simp add: js_unique_def)

lemma translateMulti_post:
  "\<exists>new. eng_trace (multi_fits tx targets) (case fst (translateMulti rt tx targets e) of Inl err \<Rightarrow> False | Inr m \<Rightarrow> True) e
      (snd (translateMulti rt tx targets e)) new \<and> length new \<le> 2 * card (set targets) \<and>
    (case fst (translateMulti rt tx targets e) of
       Inl err \<Rightarrow> True
     | Inr m \<Rightarrow> texts_ok (set targets) (mt_translations m) \<and> mt_source m \<in> set SOURCE_ENUM \<and>
         set targets \<subseteq> \<Union> (asked ` set new))"
proof (cases "targets = [] \<or> \<not> eg_client e")
  case True
  then show ?thesis
    by (auto simp: translateMulti_def Let_def nothing_translated_def eng_trace_def intro!: exI [of _ "[]"])
next
  case False
  define cs where "cs = chunks_of (targets_per_call tx) (js_unique targets)"
  have cs: "\<forall>c\<in>set cs. c \<noteq> [] \<and> set c \<subseteq> set targets \<and> (\<forall>rq. multi_ok tx c rq \<longrightarrow> multi_fits tx targets rq)"
  proof
    fix c assume "c \<in> set cs"
    from chunks_each [OF this [unfolded cs_def]]
    show "c \<noteq> [] \<and> set c \<subseteq> set targets \<and> (\<forall>rq. multi_ok tx c rq \<longrightarrow> multi_fits tx targets rq)"
      using multi_ok_fits [of tx c _ targets] by auto
  qed
  have len: "length (concat cs) = card (set targets)" unfolding cs_def chunks_concat
    by (metis distinct_card js_unique_set)
  have all: "set (concat cs) = set targets" by (simp add: cs_def chunks_concat del: set_concat)
  show ?thesis
    using multi_loop_post [OF cs, of nothing_translated rt e, unfolded len all] False
    by (simp add: translateMulti_def Let_def nothing_translated_def flip: cs_def)
qed

subsection \<open>Several texts\<close>

definition item_tokens :: "batch_item \<Rightarrow> nat" where
  "item_tokens i = estimateTokens (length (bi_text i))"

definition batch_ok :: "string \<Rightarrow> batch_item list \<Rightarrow> eng_request \<Rightarrow> bool" where
  "batch_ok target items rq \<longleftrightarrow>
     (case rq_input rq of
        InBatch l is \<Rightarrow> l = target \<and> (is = items \<or> (\<exists>i\<in>set items. is = [i])) \<and>
          rq_maxOutputTokens rq = min 1500 (sum_list (map item_tokens is) + 100)
      | _ \<Rightarrow> False)"

lemma batch_request_ok: "batch_ok target items (sent e (batch_request rt items target))"
  by (simp add: batch_ok_def batch_request_def MAX_OUTPUT_TOKENS_CAP_def OUTPUT_TOKENS_OVERHEAD_def item_tokens_def [abs_def])

lemma batch_ok_single: "batch_ok target [i] rq \<Longrightarrow> i \<in> set items \<Longrightarrow> batch_ok target items rq"
  by (auto simp: batch_ok_def split: call_input.splits)

text \<open>A result has an entry for every item and no other, and a text in it is never empty.\<close>

definition batch_res_ok :: "batch_item list \<Rightarrow> batch_result \<Rightarrow> bool" where
  "batch_res_ok items m \<longleftrightarrow>
     jm_wf m \<and> (\<forall>i. jm_has m i \<longleftrightarrow> i \<in> bi_id ` set items) \<and>
     (\<forall>i b. map_of m i = Some b \<longrightarrow> bt_source b \<in> set SOURCE_ENUM \<and> (\<forall>t. bt_text b = Some t \<longrightarrow> t \<noteq> [] \<and> js_trim t = t))"

lemma entry_update:
  "batch_res_ok items m \<Longrightarrow> i \<in> set items \<Longrightarrow> bt_source b \<in> set SOURCE_ENUM \<Longrightarrow>
   (\<And>t. bt_text b = Some t \<Longrightarrow> t \<noteq> [] \<and> js_trim t = t) \<Longrightarrow> batch_res_ok items (AList.update (bi_id i) b m)"
  by (auto simp: batch_res_ok_def)

lemma blank_ok: "batch_res_ok items (blank_results items)"
proof -
  have "batch_res_ok (js @ is) (fold (\<lambda>i m. AList.update (bi_id i) \<lparr>bt_source = ''unknown'', bt_text = None\<rparr> m) is m)"
    if "batch_res_ok js m" for js "is" :: "batch_item list" and m
    using that
  proof (induction "is" arbitrary: js m)
    case (Cons i "is")
    have "batch_res_ok (js @ [i]) (AList.update (bi_id i) \<lparr>bt_source = ''unknown'', bt_text = None\<rparr> m)"
      using Cons.prems by (auto simp: batch_res_ok_def)
    from Cons.IH [OF this] show ?case by simp
  qed simp
  from this [of "[]" "[]" items] show ?thesis by (simp add: batch_res_ok_def blank_results_def)
qed

lemma entry_ok: "batch_res_ok items m \<Longrightarrow> batch_res_ok items (batch_entry items v m)"
  by (auto simp: batch_entry_def normalizeSource_enum
      intro!: entry_update dest: find_in_members translated_text_ok split: jsval.split jsnum.split option.split)

lemma entries_ok: "batch_res_ok items m \<Longrightarrow> batch_res_ok items (fold (batch_entry items) vs m)"
  by (induction vs arbitrary: m) (auto simp: entry_ok)

lemma res_assign:
  assumes m: "batch_res_ok items m" and n: "batch_res_ok js n" and sub: "set js \<subseteq> set items"
  shows "batch_res_ok items (assign m n)"
proof -
  have wf: "jm_wf n" using n by (simp add: batch_res_ok_def)
  have "jm_has n i \<longleftrightarrow> i \<in> bi_id ` set js" for i using n by (simp add: batch_res_ok_def)
  then have "jm_has (assign m n) i \<longleftrightarrow> i \<in> bi_id ` set items" for i
    using m sub wf by (auto simp: batch_res_ok_def assign_lookup split: option.split)
  then show ?thesis using m n wf
    by (auto simp: batch_res_ok_def assign_wf assign_lookup split: option.splits)
qed

definition batch_post :: "(eng_request \<Rightarrow> bool) \<Rightarrow> batch_item list \<Rightarrow> nat \<Rightarrow> engine \<Rightarrow> (provider_error + batch_result) \<times> engine \<Rightarrow> bool" where
  "batch_post P covered n e out \<longleftrightarrow>
     (\<exists>new. eng_trace P (case fst out of Inl err \<Rightarrow> False | Inr m \<Rightarrow> True) e (snd out) new \<and>
        length new \<le> n \<and> (case fst out of Inl err \<Rightarrow> True | Inr m \<Rightarrow> batch_res_ok covered m))"

lemma batch_single:
  assumes "\<not> retry"
  shows "batch_post (batch_ok target [i]) [i] 1 e (translateBatchChunk rt [i] target retry e)"
proof -
  obtain res e1 where c: "eng_call rt (batch_request rt [i] target) e = (res, e1)" by fastforce
  have tr: "eng_trace (batch_ok target [i]) (\<not> (\<exists>err. res = Inl err)) e e1 [sent e (batch_request rt [i] target)]"
    by (rule eng_call_trace [where P = "batch_ok target [i]", OF c batch_request_ok])
  from assms c tr blank_ok entries_ok [OF blank_ok] show ?thesis
    by (subst translateBatchChunk.simps)
      (auto simp: batch_post_def intro!: exI [of _ "[sent e (batch_request rt [i] target)]"] split: sum.split jsval.split)
qed

lemma batch_post_mono:
  assumes "batch_post P cov n e out" and "\<And>rq. P rq \<Longrightarrow> Q rq" and "n \<le> n'"
  shows "batch_post Q cov n' e out"
proof -
  obtain new where new: "eng_trace P (case fst out of Inl err \<Rightarrow> False | Inr m \<Rightarrow> True) e (snd out) new"
    "length new \<le> n" "case fst out of Inl err \<Rightarrow> True | Inr m \<Rightarrow> batch_res_ok cov m"
    using assms(1) by (auto simp: batch_post_def)
  from eng_trace_mono [OF new(1) assms(2)] new(2,3) assms(3) show ?thesis unfolding batch_post_def
    by (intro exI [of _ new]) simp
qed

lemma batch_post_cons:
  assumes "batch_post P cov n e (Inr m, e1)" and "batch_post P cov' k e1 out"
  shows "batch_post P cov' (n + k) e out"
proof -
  obtain n1 where n1: "eng_trace P True e e1 n1" "length n1 \<le> n"
    using assms(1) by (auto simp: batch_post_def)
  obtain n2 where n2: "eng_trace P (case fst out of Inl err \<Rightarrow> False | Inr m \<Rightarrow> True) e1 (snd out) n2"
    "length n2 \<le> k" "case fst out of Inl err \<Rightarrow> True | Inr m \<Rightarrow> batch_res_ok cov' m"
    using assms(2) by (auto simp: batch_post_def)
  show ?thesis using eng_trace_append [OF n1(1) n2(1)] n1(2) n2(2,3) unfolding batch_post_def
    by (intro exI [of _ "n1 @ n2"]) simp
qed

lemma split_post:
  assumes "set items \<subseteq> set all" and "batch_res_ok all result"
  shows "batch_post (batch_ok target all) all (length items) e (splitPerItem rt items target result e)"
  using assms
proof (induction items arbitrary: result e)
  case Nil
  then show ?case by (auto simp: batch_post_def intro!: exI [of _ "[]"])
next
  case (Cons i items)
  obtain res e1 where s: "translateBatchChunk rt [i] target False e = (res, e1)" by fastforce
  have one: "batch_post (batch_ok target all) [i] 1 e (res, e1)"
    using batch_post_mono [OF batch_single [of False target i e rt], of "batch_ok target all" 1] Cons.prems(1) s
    by (simp add: batch_ok_single)
  show ?case
  proof (cases res)
    case (Inl err)
    then show ?thesis using one s by (auto simp: batch_post_def)
  next
    case (Inr part)
    have "batch_res_ok all (assign result part)"
      using one Inr Cons.prems by (intro res_assign [where js = "[i]"]) (auto simp: batch_post_def)
    with Cons.IH Cons.prems(1) have "batch_post (batch_ok target all) all (length items) e1 (splitPerItem rt items target (assign result part) e1)"
      by simp
    from batch_post_cons [OF one [unfolded Inr] this] show ?thesis using s Inr by simp
  qed
qed

text \<open>A chunk is asked for at most once as a whole and once per item.\<close>

lemma batch_chunk_post:
  "batch_post (batch_ok target items) items (1 + length items) e (translateBatchChunk rt items target retry e)"
proof -
  obtain res e1 where c: "eng_call rt (batch_request rt items target) e = (res, e1)" by fastforce
  define rq where "rq = sent e (batch_request rt items target)"
  have tr: "eng_trace (batch_ok target items) (\<not> (\<exists>err. res = Inl err)) e e1 [rq]" unfolding rq_def
    by (rule eng_call_trace [where P = "batch_ok target items", OF c batch_request_ok])
  show ?thesis
  proof (cases res)
    case (Inl err)
    then show ?thesis using c tr by (subst translateBatchChunk.simps) (auto simp: batch_post_def intro!: exI [of _ "[rq]"])
  next
    case (Inr r)
    have first: "batch_post (batch_ok target items) items 1 e (Inr m, e1)" if "batch_res_ok items m" for m
      using tr Inr that by (auto simp: batch_post_def intro!: exI [of _ "[rq]"])
    have whole: "batch_post (batch_ok target items) items (1 + length items) e (Inr m, e1)" if "batch_res_ok items m" for m
      using batch_post_mono [OF first [OF that], of "batch_ok target items" "1 + length items"] by simp
    have split: "batch_post (batch_ok target items) items (1 + length items) e (splitPerItem rt items target (blank_results items) e1)"
      by (rule batch_post_cons [OF first [OF blank_ok] split_post [OF subset_refl blank_ok]])
    have again: "batch_post (batch_ok target items) items (1 + length items) e (translateBatchChunk rt items target False e1)"
      if "length items = 1"
    proof -
      from that obtain i where "items = [i]" by (cases items) auto
      with batch_post_cons [OF first [OF blank_ok], of items 1] batch_single [of False target i e1 rt] show ?thesis by simp
    qed
    show ?thesis using c Inr whole [OF blank_ok] whole [OF entries_ok [OF blank_ok]] split again
      by (subst translateBatchChunk.simps) (auto split: jsval.split)
  qed
qed

lemma batch_chunk_step_inv:
  assumes "list_all (\<lambda>c. c \<noteq> [] \<and> (length c = 1 \<or> sum_list (map item_tokens c) \<le> B)) cs"
    and "n = sum_list (map item_tokens cur)" and "length cur \<le> 1 \<or> n \<le> B"
    and "fold (batch_chunk_step B) items (cs, cur, n) = (cs', cur', n')"
  shows "list_all (\<lambda>c. c \<noteq> [] \<and> (length c = 1 \<or> sum_list (map item_tokens c) \<le> B)) cs' \<and>
    (length cur' \<le> 1 \<or> sum_list (map item_tokens cur') \<le> B) \<and> concat cs' @ cur' = concat cs @ cur @ items"
  using assms
proof (induction items arbitrary: cs cur n)
  case (Cons i items)
  show ?case
  proof (cases "cur \<noteq> [] \<and> B < n + item_tokens i")
    case True
    then have cur: "cur \<noteq> [] \<and> (length cur = 1 \<or> sum_list (map item_tokens cur) \<le> B)"
      using Cons.prems(2,3) by (cases cur) auto
    have "batch_chunk_step B i (cs, cur, n) = (cs @ [cur], [i], item_tokens i)"
      using True by (simp add: batch_chunk_step_def item_tokens_def)
    then have "fold (batch_chunk_step B) items (cs @ [cur], [i], item_tokens i) = (cs', cur', n')"
      using Cons.prems(4) by simp
    from Cons.IH [OF _ _ _ this] Cons.prems(1) cur show ?thesis by simp
  next
    case False
    have "batch_chunk_step B i (cs, cur, n) = (cs, cur @ [i], n + item_tokens i)"
      using False by (auto simp: batch_chunk_step_def item_tokens_def)
    then have "fold (batch_chunk_step B) items (cs, cur @ [i], n + item_tokens i) = (cs', cur', n')"
      using Cons.prems(4) by simp
    from Cons.IH [OF Cons.prems(1) _ _ this] Cons.prems(2) False show ?thesis by auto
  qed
qed simp

lemma batch_chunks_post:
  "concat (batch_chunks items) = items"
  "list_all (\<lambda>c. c \<noteq> [] \<and> (length c = 1 \<or> sum_list (map item_tokens c) \<le> 1400)) (batch_chunks items)"
proof -
  obtain cs cur n where f: "fold (batch_chunk_step 1400) items ([], [], 0) = (cs, cur, n)" by (metis prod_cases3)
  from batch_chunk_step_inv [OF _ _ _ f]
  have "list_all (\<lambda>c. c \<noteq> [] \<and> (length c = 1 \<or> sum_list (map item_tokens c) \<le> 1400)) cs"
    "length cur \<le> 1 \<or> sum_list (map item_tokens cur) \<le> 1400" "concat cs @ cur = items" by simp_all
  moreover have "length cur = 1" if "length cur \<le> 1" "cur \<noteq> []" using that by (cases cur) auto
  moreover have "batch_chunks items = (if cur \<noteq> [] then cs @ [cur] else cs)"
    using f by (simp add: batch_chunks_def MAX_OUTPUT_TOKENS_CAP_def OUTPUT_TOKENS_OVERHEAD_def)
  ultimately show "concat (batch_chunks items) = items"
    "list_all (\<lambda>c. c \<noteq> [] \<and> (length c = 1 \<or> sum_list (map item_tokens c) \<le> 1400)) (batch_chunks items)"
    by auto
qed

text \<open>Several items go together only while their estimates fit.\<close>

definition batch_fits :: "string \<Rightarrow> batch_item list \<Rightarrow> eng_request \<Rightarrow> bool" where
  "batch_fits target items rq \<longleftrightarrow>
     (case rq_input rq of
        InBatch l is \<Rightarrow> l = target \<and> is \<noteq> [] \<and> set is \<subseteq> set items \<and> rq_maxOutputTokens rq \<le> 1500 \<and>
          (length is = 1 \<or> rq_maxOutputTokens rq = sum_list (map item_tokens is) + 100)
      | _ \<Rightarrow> False)"

lemma batch_ok_fits:
  assumes "batch_ok target c rq" and "c \<noteq> [] \<and> (length c = 1 \<or> sum_list (map item_tokens c) \<le> 1400)" and "set c \<subseteq> set items"
  shows "batch_fits target items rq"
  using assms by (auto simp: batch_ok_def batch_fits_def split: call_input.splits)

lemma batch_loop_post:
  assumes "list_all (\<lambda>c. c \<noteq> [] \<and> (length c = 1 \<or> sum_list (map item_tokens c) \<le> 1400) \<and> set c \<subseteq> set items) chunks"
    and "batch_res_ok items result"
  shows "batch_post (batch_fits target items) items (2 * length (concat chunks)) e (batch_loop rt target chunks result e)"
  using assms
proof (induction chunks arbitrary: result e)
  case Nil
  then show ?case by (auto simp: batch_post_def intro!: exI [of _ "[]"])
next
  case (Cons c cs)
  obtain res e1 where s: "translateBatchChunk rt c target True e = (res, e1)" by fastforce
  have c: "c \<noteq> []" "length c = 1 \<or> sum_list (map item_tokens c) \<le> 1400" "set c \<subseteq> set items" using Cons.prems(1) by auto
  then have "1 + length c \<le> 2 * length c" by (cases c) auto
  with batch_post_mono [OF batch_chunk_post [of target c e rt True], of "batch_fits target items" "2 * length c"]
  have one: "batch_post (batch_fits target items) c (2 * length c) e (res, e1)"
    using batch_ok_fits [of target c _ items] c s by auto
  show ?case
  proof (cases res)
    case (Inl err)
    with one have "batch_post (batch_fits target items) items (2 * length c) e (res, e1)" by (simp add: batch_post_def)
    from batch_post_mono [OF this, of "batch_fits target items" "2 * length (concat (c # cs))"] show ?thesis
      using s Inl by simp
  next
    case (Inr part)
    have "batch_res_ok items (assign result part)"
      using one Inr Cons.prems c(3) by (intro res_assign [where js = c]) (auto simp: batch_post_def)
    with Cons.IH Cons.prems(1)
    have "batch_post (batch_fits target items) items (2 * length (concat cs)) e1 (batch_loop rt target cs (assign result part) e1)"
      by simp
    from batch_post_cons [OF one [unfolded Inr] this] show ?thesis using s Inr by simp
  qed
qed

lemma translateBatch_post:
  "batch_post (batch_fits target items) items (2 * length items) e (translateBatch rt items target e)"
proof (cases "items = [] \<or> \<not> eg_client e")
  case True
  then show ?thesis
    by (auto simp: translateBatch_def batch_post_def batch_res_ok_def eng_trace_def intro!: exI [of _ "[]"])
next
  case False
  have "set c \<subseteq> set items" if "c \<in> set (batch_chunks items)" for c
    using that arg_cong [OF batch_chunks_post(1) [of items], of set] by auto
  then have "list_all (\<lambda>c. c \<noteq> [] \<and> (length c = 1 \<or> sum_list (map item_tokens c) \<le> 1400) \<and> set c \<subseteq> set items) (batch_chunks items)"
    using batch_chunks_post(2) [of items] by (simp add: list_all_iff)
  from batch_loop_post [OF this blank_ok, of target e rt] False show ?thesis
    by (simp add: translateBatch_def batch_chunks_post(1))
qed

end
