(* ===== verification/TranslateFlow.thy ===== *)
theory TranslateFlow
  imports TranslateRules Limiters
begin

text \<open>
  The two users of the engine that keep what they get in the table \<open>message_translations\<close>:
  \<open>translate/chat-translation.service.ts\<close> translates a chat message for everybody who is connected, and
  \<open>POST /translate/batch\<close> of \<open>translate/translate.controller.ts\<close> fills what a client is missing. The table
  (\<open>message-translations.service.ts\<close>) is a map with the key (message, language). An access to the
  database may fail, which the flags of \<open>db_io\<close> say; what the queue answers (\<open>tq_run\<close> of \<open>Limiters\<close>) is an
  argument.
\<close>

type_synonym translation_map = "(string, jstring) jmap"
type_synonym message_table = "(int \<times> string, jstring) jmap"

record db_io =
  io_find :: bool
  io_save :: bool

definition getForMessages :: "message_table \<Rightarrow> int list \<Rightarrow> string list \<Rightarrow> (int, translation_map) jmap" where
  "getForMessages table ids langs =
     (if ids = [] \<or> langs = [] then []
      else fold (\<lambda>((i, l), t) result.
               AList.update i (AList.update l t (case map_of result i of None \<Rightarrow> [] | Some entry \<Rightarrow> entry)) result)
             (filter (\<lambda>((i, l), t). i \<in> set ids \<and> l \<in> set langs) table) [])"

definition upsertMany :: "bool \<Rightarrow> ((int \<times> string) \<times> jstring) list \<Rightarrow> message_table \<Rightarrow> message_table" where
  "upsertMany save rows table =
     (if rows = [] then table
      else if save then fold (\<lambda>(k, t). AList.update k t) rows table
      else table)"

text \<open>\<open>queue.run\<close>: a refusal is the error 429 with the time to wait, otherwise the task runs.\<close>

definition queue_run ::
    "tq_result \<Rightarrow> (engine \<Rightarrow> (provider_error + 'a) \<times> engine) \<Rightarrow> engine \<Rightarrow> (provider_error + 'a) \<times> engine" where
  "queue_run adm task e =
     (case adm of TqLimit ms \<Rightarrow> (Inl (ProviderError (Some 429) (Some ms)), e) | _ \<Rightarrow> task e)"

subsection \<open>A chat message\<close>

datatype chat_error = ChatProvider | ChatLimit

record chat_result =
  ct_translations :: translation_map
  ct_failed :: "string list"
  ct_error :: "chat_error option"

record flow =
  fl_engine :: engine
  fl_table :: message_table

definition loadExisting :: "db_io \<Rightarrow> message_table \<Rightarrow> int \<Rightarrow> string list \<Rightarrow> translation_map" where
  "loadExisting io table i targets =
     (if io_find io then (case map_of (getForMessages table [i] targets) i of None \<Rightarrow> [] | Some m \<Rightarrow> m) else [])"

definition with_source :: "jstring \<Rightarrow> string list \<Rightarrow> multi_translation \<Rightarrow> translation_map" where
  "with_source content missing result =
     (if mt_source result \<noteq> ''unknown'' \<and> mt_source result \<in> set missing
      then AList.update (mt_source result) content (mt_translations result) else mt_translations result)"

definition nothing_to_do :: chat_result where
  "nothing_to_do = \<lparr>ct_translations = [], ct_failed = [], ct_error = None\<rparr>"

definition translateForMessage ::
    "script_classes \<Rightarrow> engine_rt \<Rightarrow> db_io \<Rightarrow> tq_result \<Rightarrow> int \<Rightarrow> jstring \<Rightarrow> string list \<Rightarrow> flow \<Rightarrow> chat_result \<times> flow" where
  "translateForMessage cl rt io adm i content targetLangs s =
     (if \<not> hasLetters cl content then (nothing_to_do, s)
      else (let skip = unambiguousLang cl content;
                targets = filter (\<lambda>lang. Some lang \<noteq> skip) targetLangs
            in if targets = [] then (nothing_to_do, s)
               else (let existing = loadExisting io (fl_table s) i targets;
                         missing = filter (\<lambda>lang. \<not> jm_has existing lang) targets
                     in if missing = [] then (\<lparr>ct_translations = existing, ct_failed = [], ct_error = None\<rparr>, s)
                        else (case queue_run adm (translateMulti rt content missing) (fl_engine s) of
                                (Inl err, e) \<Rightarrow>
                                  (\<lparr>ct_translations = existing, ct_failed = missing,
                                    ct_error = Some (if pe_status err = Some 429 then ChatLimit else ChatProvider)\<rparr>,
                                   s\<lparr>fl_engine := e\<rparr>)
                              | (Inr result, e) \<Rightarrow>
                                  (let fresh = with_source content missing result;
                                       rows = map (\<lambda>lang. ((i, lang), the (map_of fresh lang)))
                                                (filter (jm_has fresh) missing)
                                   in (\<lparr>ct_translations = assign existing fresh,
                                        ct_failed = filter (\<lambda>lang. \<not> jm_has fresh lang) missing, ct_error = None\<rparr>,
                                       s\<lparr>fl_engine := e, fl_table := upsertMany (io_save io) rows (fl_table s)\<rparr>))))))"

definition attachHistory :: "db_io \<Rightarrow> message_table \<Rightarrow> int list \<Rightarrow> string list \<Rightarrow> (int, translation_map) jmap" where
  "attachHistory io table ids langs =
     (if ids = [] \<or> langs = [] then [] else if io_find io then getForMessages table ids langs else [])"

subsection \<open>A batch\<close>

definition TRANSLATE_BATCH_MAX_ITEMS :: nat where "TRANSLATE_BATCH_MAX_ITEMS = 20"
definition TRANSLATE_BATCH_MAX_ITEM_LENGTH :: nat where "TRANSLATE_BATCH_MAX_ITEM_LENGTH = 500"
definition TRANSLATE_BATCH_MAX_TOTAL_LENGTH :: nat where "TRANSLATE_BATCH_MAX_TOTAL_LENGTH = 2000"

text \<open>What validation lets through.\<close>

definition batch_dto_ok :: "string \<Rightarrow> batch_item list \<Rightarrow> bool" where
  "batch_dto_ok target items \<longleftrightarrow>
     target \<in> set TARGET_LANGS \<and> 1 \<le> length items \<and> length items \<le> TRANSLATE_BATCH_MAX_ITEMS \<and>
     list_all (\<lambda>i. 1 \<le> length (bi_text i) \<and> length (bi_text i) \<le> TRANSLATE_BATCH_MAX_ITEM_LENGTH) items \<and>
     sum_list (map (\<lambda>i. length (bi_text i)) items) \<le> TRANSLATE_BATCH_MAX_TOTAL_LENGTH"

record batch_reply =
  br_translated :: "(int, jstring) jmap"
  br_skipped :: "int list"
  br_failed :: "int list"

datatype batch_error = RateLimited int | StoreFailed

record batch_sys =
  bs_limits :: tr_limits
  bs_flow :: flow

definition batch_skips :: "script_classes \<Rightarrow> string \<Rightarrow> batch_item \<Rightarrow> bool" where
  "batch_skips cl target item \<longleftrightarrow>
     \<not> hasLetters cl (bi_text item) \<or> unambiguousLang cl (bi_text item) = Some target"

definition existing_text :: "message_table \<Rightarrow> batch_item list \<Rightarrow> string \<Rightarrow> batch_item \<Rightarrow> jstring option" where
  "existing_text table candidates target item =
     (case map_of (getForMessages table (map bi_id candidates) [target]) (bi_id item) of
        None \<Rightarrow> None | Some m \<Rightarrow> map_of m target)"

text \<open>The text for an item: the original if it already is in the wanted language.\<close>

definition fresh_text :: "batch_result \<Rightarrow> string \<Rightarrow> batch_item \<Rightarrow> jstring option" where
  "fresh_text fresh target item =
     (case map_of fresh (bi_id item) of
        None \<Rightarrow> None
      | Some entry \<Rightarrow> (case (if bt_source entry = target then Some (bi_text item) else bt_text entry) of
                        None \<Rightarrow> None | Some t \<Rightarrow> if t \<noteq> [] then Some t else None))"

definition put_text :: "(batch_item \<Rightarrow> jstring option) \<Rightarrow> batch_item \<Rightarrow> (int, jstring) jmap \<Rightarrow> (int, jstring) jmap" where
  "put_text f item m = (case f item of None \<Rightarrow> m | Some t \<Rightarrow> AList.update (bi_id item) t m)"

definition controller_translateBatch ::
    "script_classes \<Rightarrow> engine_rt \<Rightarrow> db_io \<Rightarrow> tq_result \<Rightarrow> millis \<Rightarrow> int \<Rightarrow> string \<Rightarrow> batch_item list \<Rightarrow> batch_sys \<Rightarrow>
     (batch_error + batch_reply) \<times> batch_sys" where
  "controller_translateBatch cl rt io adm now userId target items s =
     (case tr_consume_batch now userId (bs_limits s) of
        (rate, limits) \<Rightarrow>
          (let s1 = s\<lparr>bs_limits := limits\<rparr>;
               skipped = map bi_id (filter (batch_skips cl target) items);
               candidates = filter (\<lambda>i. \<not> batch_skips cl target i) items
           in if \<not> allowed rate then (Inl (RateLimited (retryAfterMs rate)), s1)
              else if candidates = [] then (Inr \<lparr>br_translated = [], br_skipped = skipped, br_failed = []\<rparr>, s1)
              else if \<not> io_find io then (Inl StoreFailed, s1)
              else (let hit = existing_text (fl_table (bs_flow s)) candidates target;
                        translated = fold (put_text hit) candidates [];
                        misses = filter (\<lambda>i. hit i = None) candidates
                    in if misses = [] then (Inr \<lparr>br_translated = translated, br_skipped = skipped, br_failed = []\<rparr>, s1)
                       else (case queue_run adm (translateBatch rt misses target) (fl_engine (bs_flow s)) of
                               (Inl err, e) \<Rightarrow>
                                 (let s2 = s1\<lparr>bs_flow := (bs_flow s)\<lparr>fl_engine := e\<rparr>\<rparr>
                                  in if pe_status err = Some 429
                                     then (Inl (RateLimited (case pe_retryAfterMs err of None \<Rightarrow> 1000 | Some ms \<Rightarrow> ms)), s2)
                                     else (Inr \<lparr>br_translated = translated, br_skipped = skipped,
                                                br_failed = map bi_id misses\<rparr>, s2))
                             | (Inr fresh, e) \<Rightarrow>
                                 (let text = fresh_text fresh target;
                                      rows = map (\<lambda>i. ((bi_id i, target), the (text i))) (filter (\<lambda>i. text i \<noteq> None) misses)
                                  in (Inr \<lparr>br_translated = fold (put_text text) misses translated, br_skipped = skipped,
                                           br_failed = map bi_id (filter (\<lambda>i. text i = None) misses)\<rparr>,
                                      s1\<lparr>bs_flow := (bs_flow s)\<lparr>fl_engine := e,
                                           fl_table := upsertMany (io_save io) rows (fl_table (bs_flow s))\<rparr>\<rparr>))))))"

subsection \<open>The table\<close>

lemma getForMessages_lookup:
  assumes wf: "jm_wf table"
  shows "(case map_of (getForMessages table ids langs) i of None \<Rightarrow> None | Some m \<Rightarrow> map_of m l) =
    (if i \<in> set ids \<and> l \<in> set langs then map_of table (i, l) else None)"
proof -
  define step where "step = (\<lambda>((i, l), t) result :: (int, translation_map) jmap.
      AList.update i (AList.update l t (case map_of result i of None \<Rightarrow> [] | Some entry \<Rightarrow> entry)) result)"
  define look where "look = (\<lambda>r :: (int, translation_map) jmap. \<lambda>i l. case map_of r i of None \<Rightarrow> None | Some m \<Rightarrow> map_of m l)"
  have st: "look (step ((i', l'), t) r) i l = (if i = i' \<and> l = l' then Some t else look r i l)" for i' l' t r i l
    by (auto simp: step_def look_def split: option.splits)
  have fd: "look (fold step rows r) i l = (case map_of rows (i, l) of None \<Rightarrow> look r i l | Some t \<Rightarrow> Some t)"
    if "jm_wf rows" for rows r i l
    using that
  proof (induction rows arbitrary: r)
    case (Cons row rows)
    obtain i' l' t where row: "row = ((i', l'), t)" by (metis prod.exhaust)
    have "map_of rows (i', l') = None" using Cons.prems row by (auto simp: map_of_eq_None_iff)
    then show ?case using Cons row st by (auto split: option.splits)
  qed simp
  have fl: "map_of (filter (\<lambda>((i, l), t). i \<in> set ids \<and> l \<in> set langs) table) (i, l) =
      (if i \<in> set ids \<and> l \<in> set langs then map_of table (i, l) else None)"
    using wf by (induction table) (auto simp: map_of_eq_None_iff split: prod.splits)
  have wf': "jm_wf (filter (\<lambda>((i, l), t). i \<in> set ids \<and> l \<in> set langs) table)"
    using wf by (simp add: distinct_map_filter)
  have nil: "look [] i l = None" by (simp add: look_def)
  show ?thesis
    using fd [OF wf', of "[]" i l] fl nil
    by (auto simp: getForMessages_def look_def step_def [symmetric] split: option.splits)
qed

lemma upsert_lookup:
  assumes "distinct (map fst rows)"
  shows "map_of (upsertMany True rows table) k = (case map_of rows k of None \<Rightarrow> map_of table k | Some t \<Rightarrow> Some t)"
  using assign_lookup [OF assms, of table k] by (auto simp: upsertMany_def assign_def split: option.splits)

lemma upsert_wf: "jm_wf table \<Longrightarrow> jm_wf (upsertMany save rows table)"
  using assign_wf [of table rows] by (auto simp: upsertMany_def assign_def)

end
