(* ===== verification/FlowRules.thy ===== *)
theory FlowRules
  imports TranslateFlow
begin

text \<open>What a chat message and a batch end up with, and what they cost.\<close>

declare map_of_eq_Some_iff [simp del]

subsection \<open>A chat message\<close>

definition wanted_langs :: "script_classes \<Rightarrow> jstring \<Rightarrow> string list \<Rightarrow> string list" where
  "wanted_langs cl content targetLangs =
     (if hasLetters cl content then filter (\<lambda>lang. Some lang \<noteq> unambiguousLang cl content) targetLangs else [])"

lemma existing_lookup:
  "jm_wf table \<Longrightarrow> map_of (loadExisting io table i targets) l =
     (if io_find io \<and> l \<in> set targets then map_of table (i, l) else None)"
  using getForMessages_lookup [where table = table and ids = "[i]" and langs = targets and i = i and l = l]
  by (auto simp: loadExisting_def split: option.splits)

lemma queue_run_cases:
  "queue_run adm task e = (Inl err, e') \<Longrightarrow> (pe_status err = Some 429 \<and> e' = e) \<or> task e = (Inl err, e')"
  "queue_run adm task e = (Inr r, e') \<Longrightarrow> task e = (Inr r, e')"
  by (auto simp: queue_run_def split: tq_result.splits)

text \<open>The keys and texts after the answer of the engine.\<close>

lemma with_source_lookup:
  "map_of (with_source content missing m) l =
     (if mt_source m \<noteq> ''unknown'' \<and> mt_source m \<in> set missing \<and> l = mt_source m then Some content
      else map_of (mt_translations m) l)"
  by (auto simp: with_source_def)

lemma multi_keys: "translateMulti rt tx targets e = (Inr m, e') \<Longrightarrow> texts_ok (set targets) (mt_translations m)"
  using translateMulti_post [of tx targets rt e] by auto

lemma fresh_keys:
  assumes "translateMulti rt tx missing e = (Inr m, e')"
  shows "jm_has (with_source content missing m) l \<Longrightarrow> l \<in> set missing" and "jm_wf (with_source content missing m)"
  using multi_keys [OF assms] by (auto simp: with_source_lookup texts_ok_def with_source_def split: if_splits)

definition chat_outcome :: "string list \<Rightarrow> chat_result \<Rightarrow> bool" where
  "chat_outcome wanted r \<longleftrightarrow>
     (\<forall>l. jm_has (ct_translations r) l \<longrightarrow> l \<in> set wanted) \<and>
     (\<forall>l\<in>set wanted. jm_has (ct_translations r) l \<longleftrightarrow> l \<notin> set (ct_failed r)) \<and> set (ct_failed r) \<subseteq> set wanted"

lemma translateForMessage_outcome:
  assumes wf: "jm_wf (fl_table s)"
  shows "chat_outcome (wanted_langs cl content langs) (fst (translateForMessage cl rt io adm i content langs s))"
proof -
  define targets where "targets = filter (\<lambda>lang. Some lang \<noteq> unambiguousLang cl content) langs"
  define ex where "ex = loadExisting io (fl_table s) i targets"
  define missing where "missing = filter (\<lambda>lang. map_of ex lang = None) targets"
  have ex: "jm_has ex l \<Longrightarrow> l \<in> set targets" for l
    using existing_lookup [OF wf, of io i targets l] by (auto simp: ex_def split: if_splits)
  have w: "wanted_langs cl content langs = (if hasLetters cl content then targets else [])"
    by (simp add: wanted_langs_def targets_def)
  show ?thesis
  proof (cases "hasLetters cl content \<and> targets \<noteq> [] \<and> missing \<noteq> []")
    case False
    then consider "\<not> hasLetters cl content \<or> targets = []" | "hasLetters cl content" "targets \<noteq> []" "missing = []" by blast
    then show ?thesis
    proof cases
      case 1
      then have "fst (translateForMessage cl rt io adm i content langs s) = nothing_to_do"
        by (auto simp: translateForMessage_def Let_def targets_def [symmetric])
      with 1 show ?thesis by (auto simp: chat_outcome_def w nothing_to_do_def)
    next
      case 2
      then have r: "fst (translateForMessage cl rt io adm i content langs s) = \<lparr>ct_translations = ex, ct_failed = [], ct_error = None\<rparr>"
        by (simp add: translateForMessage_def Let_def targets_def [symmetric] ex_def [symmetric] missing_def [symmetric])
      have "\<forall>l\<in>set targets. jm_has ex l" using 2(3) by (simp add: missing_def filter_empty_conv)
      with ex show ?thesis using 2(1) by (simp add: chat_outcome_def r w)
    qed
  next
    case True
    obtain res e where q: "queue_run adm (translateMulti rt content missing) (fl_engine s) = (res, e)" by fastforce
    show ?thesis
    proof (cases res)
      case (Inl err)
      then have r: "fst (translateForMessage cl rt io adm i content langs s) =
          \<lparr>ct_translations = ex, ct_failed = missing, ct_error = Some (if pe_status err = Some 429 then ChatLimit else ChatProvider)\<rparr>"
        using True q
        by (simp add: translateForMessage_def Let_def targets_def [symmetric] ex_def [symmetric] missing_def [symmetric])
      have miss: "l \<in> set missing \<longleftrightarrow> l \<in> set targets \<and> \<not> jm_has ex l" for l by (auto simp: missing_def)
      have w': "wanted_langs cl content langs = targets" using True w by simp
      show ?thesis unfolding chat_outcome_def r w' chat_result.simps using ex miss by blast
    next
      case (Inr m)
      from queue_run_cases(2) [OF q [unfolded Inr]] have m: "translateMulti rt content missing (fl_engine s) = (Inr m, e)" .
      define fresh where "fresh = with_source content missing m"
      have f: "jm_has fresh l \<Longrightarrow> l \<in> set missing" for l unfolding fresh_def by (rule fresh_keys [OF m])
      have r: "fst (translateForMessage cl rt io adm i content langs s) =
          \<lparr>ct_translations = assign ex fresh, ct_failed = filter (\<lambda>lang. \<not> jm_has fresh lang) missing, ct_error = None\<rparr>"
        using True q Inr
        by (simp add: translateForMessage_def Let_def targets_def [symmetric] ex_def [symmetric] missing_def [symmetric] fresh_def)
      have l: "map_of (assign ex fresh) l = (case map_of fresh l of None \<Rightarrow> map_of ex l | Some v \<Rightarrow> Some v)" for l
        by (rule assign_lookup) (simp add: fresh_def fresh_keys [OF m])
      have miss: "l \<in> set missing \<longleftrightarrow> l \<in> set targets \<and> map_of ex l = None" for l by (auto simp: missing_def)
      have has: "jm_has (assign ex fresh) l \<longleftrightarrow> jm_has ex l \<or> jm_has fresh l" for l
        by (auto simp: l split: option.split)
      have w': "wanted_langs cl content langs = targets" using True w by simp
      have "jm_has ex l \<or> jm_has fresh l \<Longrightarrow> l \<in> set targets" for l using f [of l] ex [of l] miss [of l] by blast
      moreover have "jm_has ex l \<or> jm_has fresh l \<longleftrightarrow> \<not> (l \<in> set missing \<and> \<not> jm_has fresh l)" if "l \<in> set targets" for l
        using miss [of l] that by simp
      ultimately show ?thesis unfolding chat_outcome_def r w' chat_result.simps has set_filter
        using miss by simp
    qed
  qed
qed

text \<open>What was translated once and stored is not asked for again.\<close>

lemma translateForMessage_once:
  assumes wf: "jm_wf (fl_table s)" and io: "io_find io" "io_save io" and d: "distinct langs"
    and first: "translateForMessage cl rt io adm i content langs s = (r, s1)" and ok: "ct_failed r = []"
    and second: "translateForMessage cl rt io adm' i content langs s1 = (r2, s2)"
  shows "s2 = s1 \<and> map_of (ct_translations r2) = map_of (ct_translations r) \<and> ct_failed r2 = []"
proof -
  define targets where "targets = filter (\<lambda>lang. Some lang \<noteq> unambiguousLang cl content) langs"
  define ex where "ex = loadExisting io (fl_table s) i targets"
  define missing where "missing = filter (\<lambda>lang. map_of ex lang = None) targets"
  have ex: "map_of ex l = (if l \<in> set targets then map_of (fl_table s) (i, l) else None)" for l
    using existing_lookup [OF wf, of io i targets l] io by (simp add: ex_def)
  show ?thesis
  proof (cases "hasLetters cl content \<and> targets \<noteq> [] \<and> missing \<noteq> []")
    case False
    then have any: "translateForMessage cl rt io a i content langs s = (fst (translateForMessage cl rt io adm i content langs s), s)" for a
      by (auto simp: translateForMessage_def Let_def targets_def [symmetric] ex_def [symmetric] missing_def [symmetric])
    from any [of adm] first have "s1 = s" by simp
    with any [of adm'] first second ok show ?thesis by auto
  next
    case True
    obtain res e where q: "queue_run adm (translateMulti rt content missing) (fl_engine s) = (res, e)" by fastforce
    have "\<exists>m. res = Inr m"
    proof (rule ccontr)
      assume "\<not> ?thesis"
      then obtain err where "res = Inl err" by (cases res) auto
      then have "ct_failed r = missing"
        using first True q
        by (auto simp: translateForMessage_def Let_def targets_def [symmetric] ex_def [symmetric] missing_def [symmetric])
      then show False using ok True by simp
    qed
    then obtain m where m: "res = Inr m" ..
    from queue_run_cases(2) [OF q [unfolded m]] have tm: "translateMulti rt content missing (fl_engine s) = (Inr m, e)" .
    define fresh where "fresh = with_source content missing m"
    define rows where "rows = map (\<lambda>lang. ((i, lang), the (map_of fresh lang))) (filter (jm_has fresh) missing)"
    have r: "r = \<lparr>ct_translations = assign ex fresh, ct_failed = filter (\<lambda>lang. \<not> jm_has fresh lang) missing, ct_error = None\<rparr>"
      and s1: "s1 = s\<lparr>fl_engine := e, fl_table := upsertMany True rows (fl_table s)\<rparr>"
      using first True q m io
      by (auto simp: translateForMessage_def Let_def targets_def [symmetric] ex_def [symmetric] missing_def [symmetric] fresh_def rows_def)
    have has: "jm_has fresh l" if "l \<in> set missing" for l using ok that by (auto simp: r filter_empty_conv)
    have dm: "distinct missing" using d by (simp add: missing_def targets_def)
    have rows_key: "map_of rows (i, l) = (if l \<in> set missing then map_of fresh l else None)" for l
    proof -
      have "map_of (map (\<lambda>lang. ((i, lang), the (map_of fresh lang))) ls) (i, l) =
          (if l \<in> set ls then Some (the (map_of fresh l)) else None)" for ls
        by (induction ls) auto
      then show ?thesis using has [of l] by (auto simp: rows_def)
    qed
    have drows: "distinct (map fst rows)" using dm by (simp add: rows_def distinct_map comp_def inj_on_def)
    have tab: "map_of (fl_table s1) (i, l) = (if l \<in> set missing then map_of fresh l else map_of (fl_table s) (i, l))" for l
      using has [of l] by (auto simp: s1 upsert_lookup [OF drows] rows_key split: option.splits)
    have wf1: "jm_wf (fl_table s1)" by (simp add: s1 upsert_wf [OF wf])
    define ex1 where "ex1 = loadExisting io (fl_table s1) i targets"
    have ex1: "map_of ex1 l = (if l \<in> set targets then map_of (fl_table s1) (i, l) else None)" for l
      using existing_lookup [OF wf1, of io i targets l] io by (simp add: ex1_def)
    have sub: "set missing \<subseteq> set targets" by (auto simp: missing_def)
    have l: "map_of (assign ex fresh) l = (case map_of fresh l of None \<Rightarrow> map_of ex l | Some v \<Rightarrow> Some v)" for l
      by (rule assign_lookup) (simp add: fresh_def fresh_keys [OF tm])
    have all: "jm_has ex1 l" if "l \<in> set targets" for l
      using that has [of l] by (cases "l \<in> set missing") (auto simp: ex1 tab missing_def ex)
    have same: "map_of ex1 l = map_of (assign ex fresh) l" for l
    proof (cases "l \<in> set missing")
      case True
      then show ?thesis using has [of l] sub by (auto simp: ex1 tab l)
    next
      case False
      then have "map_of fresh l = None"
        using fresh_keys(1) [OF tm, of content l] by (cases "map_of fresh l") (auto simp: fresh_def)
      then show ?thesis using False by (simp add: ex1 tab l ex)
    qed
    have "filter (\<lambda>lang. \<not> jm_has ex1 lang) targets = []" using all by (auto simp: filter_empty_conv)
    then have "r2 = \<lparr>ct_translations = ex1, ct_failed = [], ct_error = None\<rparr> \<and> s2 = s1"
      using second True
      by (auto simp: translateForMessage_def Let_def targets_def [symmetric] ex1_def [symmetric])
    then show ?thesis using same by (auto simp: r)
  qed
qed

subsection \<open>A batch\<close>

lemma put_text_has:
  "jm_has (fold (put_text f) items m) k \<longleftrightarrow> jm_has m k \<or> (\<exists>i\<in>set items. bi_id i = k \<and> f i \<noteq> None)"
proof (induction items arbitrary: m)
  case (Cons i items)
  have "jm_has (put_text f i m) k \<longleftrightarrow> jm_has m k \<or> (bi_id i = k \<and> f i \<noteq> None)"
    by (auto simp: put_text_def split: option.split)
  then show ?case using Cons.IH by auto
qed simp

text \<open>How an answered batch splits the items: skipped, translated or failed.\<close>

definition batch_parts :: "script_classes \<Rightarrow> string \<Rightarrow> batch_item list \<Rightarrow> batch_reply \<Rightarrow> (batch_item \<Rightarrow> bool) \<Rightarrow> bool" where
  "batch_parts cl target items r good \<longleftrightarrow>
     br_skipped r = map bi_id (filter (batch_skips cl target) items) \<and>
     (\<forall>k. jm_has (br_translated r) k \<longleftrightarrow> (\<exists>i\<in>set items. bi_id i = k \<and> \<not> batch_skips cl target i \<and> good i)) \<and>
     br_failed r = map bi_id (filter (\<lambda>i. \<not> batch_skips cl target i \<and> \<not> good i) items)"

lemma controller_translateBatch_parts:
  assumes "controller_translateBatch cl rt io adm now u target items s = (Inr r, s')"
  shows "\<exists>good. batch_parts cl target items r good"
proof -
  define cands where "cands = filter (\<lambda>i. \<not> batch_skips cl target i) items"
  define hit where "hit = existing_text (fl_table (bs_flow s)) cands target"
  define misses where "misses = filter (\<lambda>i. hit i = None) cands"
  obtain rate limits where rate: "tr_consume_batch now u (bs_limits s) = (rate, limits)" by fastforce
  have al: "allowed rate" using assms rate by (auto simp: controller_translateBatch_def Let_def split: if_splits)
  show ?thesis
  proof (cases "cands = []")
    case True
    then have r: "r = \<lparr>br_translated = [], br_skipped = map bi_id (filter (batch_skips cl target) items), br_failed = []\<rparr>"
      using assms rate al by (simp add: controller_translateBatch_def cands_def)
    have "\<forall>i\<in>set items. batch_skips cl target i" using True by (simp add: cands_def filter_empty_conv)
    then show ?thesis by (intro exI [of _ "\<lambda>_. True"]) (auto simp: batch_parts_def r filter_empty_conv)
  next
    case False
    have io: "io_find io" using assms rate al False by (auto simp: controller_translateBatch_def cands_def [symmetric] Let_def split: if_splits)
    note eq = assms [unfolded controller_translateBatch_def rate prod.case Let_def, folded cands_def, folded hit_def, folded misses_def]
    show ?thesis
    proof (cases "misses = []")
      case True
      then have r: "r = \<lparr>br_translated = fold (put_text hit) cands [], br_skipped = map bi_id (filter (batch_skips cl target) items), br_failed = []\<rparr>"
        using eq al False io by simp
      have all: "hit i \<noteq> None" if "i \<in> set items" "\<not> batch_skips cl target i" for i
        using True that by (auto simp: misses_def cands_def filter_empty_conv)
      have tr: "jm_has (br_translated r) k \<longleftrightarrow> (\<exists>i\<in>set items. bi_id i = k \<and> \<not> batch_skips cl target i \<and> True)" for k
        unfolding r batch_reply.simps put_text_has cands_def using all by auto
      have "br_failed r = [] \<and> br_skipped r = map bi_id (filter (batch_skips cl target) items)" by (simp add: r)
      then show ?thesis by (intro exI [of _ "\<lambda>_. True"]) (simp only: batch_parts_def tr, simp)
    next
      case ms: False
      obtain res e where q: "queue_run adm (translateBatch rt misses target) (fl_engine (bs_flow s)) = (res, e)" by fastforce
      show ?thesis
      proof (cases res)
        case (Inl err)
        then have r: "r = \<lparr>br_translated = fold (put_text hit) cands [], br_skipped = map bi_id (filter (batch_skips cl target) items),
            br_failed = map bi_id misses\<rparr>"
          using eq al False io ms q by (auto split: if_splits)
        have "misses = filter (\<lambda>i. \<not> batch_skips cl target i \<and> hit i = None) items" by (simp add: misses_def cands_def conj_commute)
        moreover have "jm_has (br_translated r) k \<longleftrightarrow> (\<exists>i\<in>set items. bi_id i = k \<and> \<not> batch_skips cl target i \<and> hit i \<noteq> None)" for k
          unfolding r batch_reply.simps put_text_has cands_def by auto
        moreover have "br_failed r = map bi_id misses \<and> br_skipped r = map bi_id (filter (batch_skips cl target) items)" by (simp add: r)
        ultimately show ?thesis
          by (intro exI [of _ "\<lambda>i. hit i \<noteq> None"]) (simp only: batch_parts_def, simp)
      next
        case (Inr fresh)
        define tx where "tx = fresh_text fresh target"
        have r: "r = \<lparr>br_translated = fold (put_text tx) misses (fold (put_text hit) cands []),
            br_skipped = map bi_id (filter (batch_skips cl target) items), br_failed = map bi_id (filter (\<lambda>i. tx i = None) misses)\<rparr>"
          using eq al False io ms q Inr by (simp add: tx_def)
        have f: "filter (\<lambda>i. tx i = None) misses = filter (\<lambda>i. \<not> batch_skips cl target i \<and> \<not> (hit i \<noteq> None \<or> tx i \<noteq> None)) items"
          by (simp add: misses_def cands_def conj_ac)
        have tr: "jm_has (br_translated r) k \<longleftrightarrow>
            (\<exists>i\<in>set items. bi_id i = k \<and> \<not> batch_skips cl target i \<and> (hit i \<noteq> None \<or> tx i \<noteq> None))" for k
          unfolding r batch_reply.simps put_text_has misses_def cands_def by (auto, metis option.distinct(1))
        show ?thesis
          by (intro exI [of _ "\<lambda>i. hit i \<noteq> None \<or> tx i \<noteq> None"]) (simp only: batch_parts_def tr, simp add: r f)
      qed
    qed
  qed
qed

lemma controller_translateBatch_cost:
  "\<exists>new. eg_requests (fl_engine (bs_flow (snd (controller_translateBatch cl rt io adm now u target items s)))) =
      eg_requests (fl_engine (bs_flow s)) @ new \<and> length new \<le> 2 * length items \<and>
    list_all (\<lambda>rq. rq_maxOutputTokens rq \<le> 1500) new"
proof -
  define cands where "cands = filter (\<lambda>i. \<not> batch_skips cl target i) items"
  define misses where "misses = filter (\<lambda>i. existing_text (fl_table (bs_flow s)) cands target i = None) cands"
  have len: "length misses \<le> length items" unfolding misses_def cands_def by (meson length_filter_le order_trans)
  obtain res e where q: "queue_run adm (translateBatch rt misses target) (fl_engine (bs_flow s)) = (res, e)" by fastforce
  have "\<exists>new. eg_requests e = eg_requests (fl_engine (bs_flow s)) @ new \<and> length new \<le> 2 * length misses \<and>
      list_all (\<lambda>rq. rq_maxOutputTokens rq \<le> 1500) new"
  proof (cases "\<exists>ms. adm = TqLimit ms")
    case True
    then show ?thesis using q by (auto simp: queue_run_def intro!: exI [of _ "[]"])
  next
    case False
    then have t: "translateBatch rt misses target (fl_engine (bs_flow s)) = (res, e)" using q by (cases adm) (auto simp: queue_run_def)
    obtain new where "eng_trace (batch_fits target misses) (case res of Inl err \<Rightarrow> False | Inr m \<Rightarrow> True) (fl_engine (bs_flow s)) e new"
      "length new \<le> 2 * length misses"
      using translateBatch_post [of target misses "fl_engine (bs_flow s)" rt] t by (auto simp: batch_post_def)
    moreover have "batch_fits target misses rq \<Longrightarrow> rq_maxOutputTokens rq \<le> 1500" for rq
      by (simp add: batch_fits_def split: call_input.splits)
    ultimately show ?thesis by (intro exI [of _ new]) (auto simp: eng_trace_def list_all_iff)
  qed
  then obtain new where new: "eg_requests e = eg_requests (fl_engine (bs_flow s)) @ new" "length new \<le> 2 * length items"
    "list_all (\<lambda>rq. rq_maxOutputTokens rq \<le> 1500) new" using len by fastforce
  have "fl_engine (bs_flow (snd (controller_translateBatch cl rt io adm now u target items s))) \<in> {fl_engine (bs_flow s), e}"
    using q by (simp add: controller_translateBatch_def Let_def cands_def [symmetric] misses_def [symmetric] split: prod.split sum.split)
  then show ?thesis
  proof (elim insertE)
    assume "fl_engine (bs_flow (snd (controller_translateBatch cl rt io adm now u target items s))) = fl_engine (bs_flow s)"
    then show ?thesis by (intro exI [of _ "[]"]) simp
  qed (use new in auto)
qed

end
