(* ===== verification/TranslationCache.thy ===== *)
theory TranslationCache
  imports TranslateEngine
begin

text \<open>
  The cache of translated posts, \<open>server/src/translate/translation-cache.service.ts\<close>: a memory of two
  thousand entries that live half an hour, the least recently used dropped first, in front of the table
  \<open>translations\<close> (\<open>translations.service.ts\<close>). The order of the JavaScript map is the order of use. The
  digest is an argument; an operation that waits for the database is two definitions.
\<close>

definition TRANSLATION_MEMORY_CACHE_MAX :: nat where "TRANSLATION_MEMORY_CACHE_MAX = 2000"
definition TRANSLATION_MEMORY_CACHE_TTL_MS :: millis where "TRANSLATION_MEMORY_CACHE_TTL_MS = 30 * 60 * 1000"

lemmas cache_consts = TRANSLATION_MEMORY_CACHE_MAX_def TRANSLATION_MEMORY_CACHE_TTL_MS_def

record memory_entry =
  me_value :: jstring
  me_expiresAt :: millis

type_synonym cache_memory = "(jstring, memory_entry) jmap"

definition makeKey :: "(jstring \<Rightarrow> jstring) \<Rightarrow> engine \<Rightarrow> string \<Rightarrow> jstring \<Rightarrow> jstring" where
  "makeKey sha e lang text =
     lit ''translate:'' @ lit lang @ lit '':'' @ sha (cacheVersion e @ [0] @ lit lang @ [0] @ text)"

definition readMemory :: "millis \<Rightarrow> jstring \<Rightarrow> cache_memory \<Rightarrow> jstring option \<times> cache_memory" where
  "readMemory now key m =
     (case map_of m key of
        None \<Rightarrow> (None, m)
      | Some entry \<Rightarrow>
          if me_expiresAt entry \<le> now then (None, AList.delete key m)
          else (Some (me_value entry), AList.update key entry (AList.delete key m)))"

lemma length_delete_hd: "m \<noteq> [] \<Longrightarrow> length (AList.delete (fst (hd m)) m) < length m"
  by (cases m) (auto simp: length_delete_le le_imp_less_Suc)

function evict_oldest_entries :: "cache_memory \<Rightarrow> cache_memory" where
  "evict_oldest_entries m =
     (if length m \<le> TRANSLATION_MEMORY_CACHE_MAX then m
      else evict_oldest_entries (AList.delete (fst (hd m)) m))"
  by pat_completeness auto
termination
proof (relation "measure length")
  fix m :: cache_memory
  assume "\<not> length m \<le> TRANSLATION_MEMORY_CACHE_MAX"
  then have "m \<noteq> []" by auto
  then show "(AList.delete (fst (hd m)) m, m) \<in> measure length" by (simp add: length_delete_hd)
qed simp

declare evict_oldest_entries.simps [simp del]

definition writeMemory :: "millis \<Rightarrow> jstring \<Rightarrow> jstring \<Rightarrow> cache_memory \<Rightarrow> cache_memory" where
  "writeMemory now key v m =
     evict_oldest_entries
       (AList.update key \<lparr>me_value = v, me_expiresAt = now + TRANSLATION_MEMORY_CACHE_TTL_MS\<rparr> (AList.delete key m))"

record translation_cache =
  tc_memory :: cache_memory
  tc_db :: "(jstring, jstring) jmap"

text \<open>\<open>get\<close>: the memory first; on a miss the row of the table, which then goes into the memory.\<close>

definition cache_lookup :: "millis \<Rightarrow> jstring \<Rightarrow> translation_cache \<Rightarrow> jstring option \<times> translation_cache" where
  "cache_lookup now key c = (case readMemory now key (tc_memory c) of (hit, m) \<Rightarrow> (hit, c\<lparr>tc_memory := m\<rparr>))"

definition cache_stored :: "millis \<Rightarrow> jstring \<Rightarrow> translation_cache \<Rightarrow> jstring option \<times> translation_cache" where
  "cache_stored now key c =
     (case map_of (tc_db c) key of
        None \<Rightarrow> (None, c)
      | Some stored \<Rightarrow> (Some stored, c\<lparr>tc_memory := writeMemory now key stored (tc_memory c)\<rparr>))"

text \<open>\<open>set\<close>: the memory at once, then the row, which the database may refuse.\<close>

definition cache_remember :: "millis \<Rightarrow> jstring \<Rightarrow> jstring \<Rightarrow> translation_cache \<Rightarrow> translation_cache" where
  "cache_remember now key v c = c\<lparr>tc_memory := writeMemory now key v (tc_memory c)\<rparr>"

definition cache_save :: "jstring \<Rightarrow> jstring \<Rightarrow> translation_cache \<Rightarrow> translation_cache" where
  "cache_save key v c = c\<lparr>tc_db := AList.update key v (tc_db c)\<rparr>"

subsection \<open>The order of use\<close>

lemma delete_update_snoc: "AList.update k e (AList.delete k m) = AList.delete k m @ [(k, e)]"
proof -
  have "k \<notin> fst ` set n \<Longrightarrow> AList.update k e n = n @ [(k, e)]" for n
    by (induction n) auto
  from this [OF delete_notin_dom] show ?thesis .
qed

lemma delete_append: "AList.delete k (m @ n) = AList.delete k m @ AList.delete k n"
  by (induction m) auto

lemma delete_hd: "jm_wf m \<Longrightarrow> AList.delete (fst (hd m)) m = tl m"
  by (cases m) auto

lemma evict_drop: "jm_wf m \<Longrightarrow> evict_oldest_entries m = drop (length m - TRANSLATION_MEMORY_CACHE_MAX) m"
proof (induction m rule: evict_oldest_entries.induct)
  case (1 m)
  show ?case
  proof (cases "length m \<le> TRANSLATION_MEMORY_CACHE_MAX")
    case True
    then show ?thesis by (simp add: evict_oldest_entries.simps)
  next
    case False
    then obtain x xs where m: "m = x # xs" by (cases m) auto
    have "evict_oldest_entries m = evict_oldest_entries (tl m)"
      using False delete_hd [OF "1.prems"] by (subst evict_oldest_entries.simps) simp
    also have "\<dots> = drop (length (tl m) - TRANSLATION_MEMORY_CACHE_MAX) (tl m)"
      using "1.IH" [OF False] delete_hd [OF "1.prems"] "1.prems" m by simp
    also have "\<dots> = drop (length m - TRANSLATION_MEMORY_CACHE_MAX) m" using False m by (simp add: Suc_diff_le)
    finally show ?thesis .
  qed
qed

lemma write_eq:
  "jm_wf m \<Longrightarrow> writeMemory now key v m =
     (let n = AList.delete key m @ [(key, \<lparr>me_value = v, me_expiresAt = now + TRANSLATION_MEMORY_CACHE_TTL_MS\<rparr>)]
      in drop (length n - TRANSLATION_MEMORY_CACHE_MAX) n)"
  unfolding writeMemory_def delete_update_snoc Let_def
  by (rule evict_drop) (auto simp flip: delete_update_snoc)

text \<open>Operations on the memory, one after the other.\<close>

datatype cache_op = CoRead millis jstring | CoWrite millis jstring jstring

fun op_key :: "cache_op \<Rightarrow> jstring" where
  "op_key (CoRead now k) = k"
| "op_key (CoWrite now k v) = k"

fun cache_exec :: "cache_op \<Rightarrow> cache_memory \<Rightarrow> cache_memory" where
  "cache_exec (CoRead now k) m = snd (readMemory now k m)"
| "cache_exec (CoWrite now k v) m = writeMemory now k v m"

definition cache_run :: "cache_op list \<Rightarrow> cache_memory \<Rightarrow> cache_memory" where
  "cache_run ops m = fold cache_exec ops m"

definition cache_ok :: "cache_memory \<Rightarrow> bool" where
  "cache_ok m \<longleftrightarrow> jm_wf m \<and> length m \<le> TRANSLATION_MEMORY_CACHE_MAX"

lemma wf_snoc: "jm_wf m \<Longrightarrow> jm_wf (AList.delete k m @ [(k, e)])"
  by (simp flip: delete_update_snoc)

lemma wf_drop: "jm_wf m \<Longrightarrow> jm_wf (drop n m)"
  by (simp flip: drop_map)

lemma length_delete: "jm_wf m \<Longrightarrow> jm_has m k \<Longrightarrow> Suc (length (AList.delete k m)) = length m"
  by (induction m) (auto split: if_splits)

lemma read_ok: "cache_ok m \<Longrightarrow> cache_ok (snd (readMemory now k m))"
proof (cases "map_of m k")
  case (Some e)
  moreover assume "cache_ok m"
  ultimately show ?thesis using length_delete [of m k] wf_snoc [of m k]
    by (simp add: readMemory_def cache_ok_def delete_update_snoc order_trans [OF length_delete_le])
qed (simp add: readMemory_def)

lemma write_ok: "cache_ok m \<Longrightarrow> cache_ok (writeMemory now k v m)"
proof -
  assume "cache_ok m"
  then have wf: "jm_wf m" by (simp add: cache_ok_def)
  have "cache_ok (drop (length n - TRANSLATION_MEMORY_CACHE_MAX) n)" if "jm_wf n" for n :: cache_memory
    using wf_drop [OF that] by (simp add: cache_ok_def)
  from this [OF wf_snoc [OF wf]] show ?thesis unfolding write_eq [OF wf] Let_def .
qed

lemma exec_ok: "cache_ok m \<Longrightarrow> cache_ok (cache_exec op m)"
  by (cases op) (auto simp: read_ok write_ok)

lemma run_ok: "cache_ok m \<Longrightarrow> cache_ok (cache_run ops m)"
  unfolding cache_run_def by (induction ops arbitrary: m) (auto simp: exec_ok)

subsection \<open>The ideal cache\<close>

text \<open>It forgets nothing: the last write of every key.\<close>

fun ideal_exec :: "cache_op \<Rightarrow> (jstring \<Rightarrow> memory_entry option) \<Rightarrow> (jstring \<Rightarrow> memory_entry option)" where
  "ideal_exec (CoRead now k) f = f"
| "ideal_exec (CoWrite now k v) f = f(k \<mapsto> \<lparr>me_value = v, me_expiresAt = now + TRANSLATION_MEMORY_CACHE_TTL_MS\<rparr>)"

definition ideal_run :: "cache_op list \<Rightarrow> (jstring \<Rightarrow> memory_entry option)" where
  "ideal_run ops = fold ideal_exec ops Map.empty"

lemma drop_sub: "jm_wf m \<Longrightarrow> map_of (drop n m) \<subseteq>\<^sub>m map_of m"
proof -
  assume wf: "jm_wf m"
  then have "map_of m k = Some e" if "map_of (drop n m) k = Some e" for k e
    using map_of_SomeD [OF that] set_drop_subset [of n m] by (auto simp: map_of_eq_Some_iff)
  then show ?thesis by (auto simp: map_le_def dom_def)
qed

lemma read_sub: "map_of (snd (readMemory now k m)) \<subseteq>\<^sub>m map_of m"
  by (auto simp: readMemory_def map_le_def split: option.splits if_splits)

lemma write_sub:
  assumes "jm_wf m" and "map_of m \<subseteq>\<^sub>m f"
  shows "map_of (writeMemory now k v m) \<subseteq>\<^sub>m f(k \<mapsto> \<lparr>me_value = v, me_expiresAt = now + TRANSLATION_MEMORY_CACHE_TTL_MS\<rparr>)"
proof -
  define e where "e = \<lparr>me_value = v, me_expiresAt = now + TRANSLATION_MEMORY_CACHE_TTL_MS\<rparr>"
  have "map_of (AList.update k e (AList.delete k m)) \<subseteq>\<^sub>m f(k \<mapsto> e)"
    using assms(2) by (auto simp: map_le_def dom_def)
  with map_le_trans [OF drop_sub [OF wf_snoc [OF assms(1)]]] show ?thesis
    unfolding write_eq [OF assms(1)] Let_def e_def [symmetric] delete_update_snoc by blast
qed

lemma run_sub: "cache_ok m \<Longrightarrow> map_of m \<subseteq>\<^sub>m f \<Longrightarrow> map_of (cache_run ops m) \<subseteq>\<^sub>m fold ideal_exec ops f"
  unfolding cache_run_def
proof (induction ops arbitrary: m f)
  case (Cons op ops)
  have "map_of (cache_exec op m) \<subseteq>\<^sub>m ideal_exec op f"
  proof (cases op)
    case (CoRead now k)
    then show ?thesis using map_le_trans [OF read_sub Cons.prems(2)] by simp
  next
    case (CoWrite now k v)
    then show ?thesis using write_sub [OF _ Cons.prems(2)] Cons.prems(1) by (simp add: cache_ok_def)
  qed
  from Cons.IH [OF exec_ok [OF Cons.prems(1)] this] show ?case by simp
qed simp

subsection \<open>What is recent is kept\<close>

definition kept :: "jstring \<Rightarrow> memory_entry \<Rightarrow> jstring set \<Rightarrow> cache_memory \<Rightarrow> bool" where
  "kept k e T m \<longleftrightarrow> (\<exists>pre post. m = pre @ (k, e) # post \<and> fst ` set post \<subseteq> T)"

lemma kept_delete: "kept k e T m \<Longrightarrow> k' \<noteq> k \<Longrightarrow> kept k e T (AList.delete k' m)"
proof -
  assume "kept k e T m" and ne: "k' \<noteq> k"
  then obtain pre post where "m = pre @ (k, e) # post" "fst ` set post \<subseteq> T" by (auto simp: kept_def)
  then show ?thesis using ne unfolding kept_def
    by (intro exI [of _ "AList.delete k' pre"] exI [of _ "AList.delete k' post"])
      (use dom_delete_subset [of k' post] in \<open>auto simp: delete_append\<close>)
qed

lemma kept_snoc: "kept k e T m \<Longrightarrow> kept k e (insert k' T) (m @ [(k', e')])"
  unfolding kept_def by fastforce

lemma kept_mono: "kept k e T m \<Longrightarrow> T \<subseteq> T' \<Longrightarrow> kept k e T' m"
  unfolding kept_def by fastforce

lemma kept_drop:
  assumes r: "kept k e T m" and wf: "jm_wf m" and T: "finite T" "card T < TRANSLATION_MEMORY_CACHE_MAX"
  shows "kept k e T (drop (length m - TRANSLATION_MEMORY_CACHE_MAX) m)"
proof -
  obtain pre post where m: "m = pre @ (k, e) # post" "fst ` set post \<subseteq> T" using r by (auto simp: kept_def)
  have "distinct (map fst post)" using wf m(1) by simp
  from distinct_card [OF this] have "length post = card (fst ` set post)" by simp
  also have "\<dots> \<le> card T" by (rule card_mono [OF T(1) m(2)])
  finally have "length m - TRANSLATION_MEMORY_CACHE_MAX \<le> length pre" using T(2) m(1) by simp
  then show ?thesis unfolding kept_def using m
    by (intro exI [of _ "drop (length m - TRANSLATION_MEMORY_CACHE_MAX) pre"] exI [of _ post]) simp
qed

lemma kept_exec:
  assumes "kept k e T m" and "cache_ok m" and "op_key op \<noteq> k" and "finite T"
    and "card (insert (op_key op) T) < TRANSLATION_MEMORY_CACHE_MAX"
  shows "kept k e (insert (op_key op) T) (cache_exec op m)"
proof (cases op)
  case (CoRead now k')
  have "kept k e (insert k' T) (AList.delete k' m @ [(k', e')])" for e'
    using assms(3) CoRead by (intro kept_snoc kept_delete [OF assms(1)]) auto
  moreover have "kept k e (insert k' T) (AList.delete k' m)"
    using kept_mono [OF kept_delete [OF assms(1)], of k' "insert k' T"] assms(3) CoRead by auto
  ultimately show ?thesis using kept_mono [OF assms(1), of "insert k' T"] CoRead
    by (auto simp: readMemory_def delete_update_snoc split: option.splits)
next
  case (CoWrite now k' v)
  have wf: "jm_wf m" using assms(2) by (simp add: cache_ok_def)
  have "kept k e (insert k' T) (AList.delete k' m @ [(k', e')])" for e'
    using assms(3) CoWrite by (intro kept_snoc kept_delete [OF assms(1)]) auto
  from kept_drop [OF this wf_snoc [OF wf]] assms(4,5) CoWrite show ?thesis
    by (simp add: write_eq [OF wf] Let_def)
qed

lemma kept_run:
  "kept k e T m \<Longrightarrow> cache_ok m \<Longrightarrow> k \<notin> op_key ` set ops \<Longrightarrow> finite T \<Longrightarrow>
   card (T \<union> op_key ` set ops) < TRANSLATION_MEMORY_CACHE_MAX \<Longrightarrow> kept k e (T \<union> op_key ` set ops) (cache_run ops m)"
  unfolding cache_run_def
proof (induction ops arbitrary: m T)
  case (Cons op ops)
  have "card (insert (op_key op) T) < TRANSLATION_MEMORY_CACHE_MAX"
    by (rule le_less_trans [OF card_mono Cons.prems(5)]) (use Cons.prems(4) in auto)
  from kept_exec [OF Cons.prems(1,2) _ Cons.prems(4) this]
  have "kept k e (insert (op_key op) T) (cache_exec op m)" using Cons.prems(3) by auto
  from Cons.IH [OF this exec_ok [OF Cons.prems(2)]] Cons.prems(3-5) show ?case by simp
qed simp

lemma kept_lookup: "kept k e T m \<Longrightarrow> jm_wf m \<Longrightarrow> map_of m k = Some e"
  by (auto simp: kept_def map_of_eq_Some_iff)

lemma write_kept: "cache_ok m \<Longrightarrow> kept k \<lparr>me_value = v, me_expiresAt = now + TRANSLATION_MEMORY_CACHE_TTL_MS\<rparr> {} (writeMemory now k v m)"
proof -
  assume ok: "cache_ok m"
  then have wf: "jm_wf m" by (simp add: cache_ok_def)
  have "kept k e {} (AList.delete k m @ [(k, e)])" for e by (auto simp: kept_def)
  from kept_drop [OF this wf_snoc [OF wf]] show ?thesis by (simp add: write_eq [OF wf] Let_def cache_consts)
qed

end
