(* ===== verification/TranslateDesk.thy ===== *)
theory TranslateDesk
  imports TranslationCache TranslateRules Limiters
begin

text \<open>
  \<open>POST /translate\<close>: one post for one reader, \<open>translate/translate.controller.ts\<close> over
  \<open>translate/translate.service.ts\<close>. A request passes the request limit, then the cache; a miss joins a
  translation of the same text that is under way or, within the provider limit, starts one. Between two
  waits each part is one definition, so requests interleave at the database and at the provider. A
  request is numbered in the order of arrival; what it is answered is logged.
\<close>

type_synonym post_key = "string \<times> jstring"

datatype desk_reply = ReplyText jstring | ReplyLimited millis | ReplyFailed

record lookup =
  lk_id :: nat
  lk_user :: int
  lk_key :: post_key

record desk =
  dk_limits :: tr_limits
  dk_cache :: translation_cache
  dk_engine :: engine
  dk_next :: nat
  dk_lookups :: "lookup list"
  dk_pending :: "(post_key, nat list) jmap"
  dk_saving :: "(post_key \<times> jstring) list"
  dk_replies :: "(nat \<times> desk_reply) list"
  dk_started :: "(millis \<times> int) list"

definition desk_initial :: "engine \<Rightarrow> (jstring, jstring) jmap \<Rightarrow> desk" where
  "desk_initial e db =
     \<lparr>dk_limits = \<lparr>requestBuckets = [], providerBuckets = [], batchBuckets = [], globalProviderBucket = []\<rparr>,
      dk_cache = \<lparr>tc_memory = [], tc_db = db\<rparr>, dk_engine = e, dk_next = 0, dk_lookups = [], dk_pending = [],
      dk_saving = [], dk_replies = [], dk_started = []\<rparr>"

definition reply :: "nat \<Rightarrow> desk_reply \<Rightarrow> desk \<Rightarrow> desk" where
  "reply i r s = s\<lparr>dk_replies := dk_replies s @ [(i, r)]\<rparr>"

definition reply_all :: "nat list \<Rightarrow> desk_reply \<Rightarrow> desk \<Rightarrow> desk" where
  "reply_all is r s = s\<lparr>dk_replies := dk_replies s @ map (\<lambda>i. (i, r)) is\<rparr>"

definition desk_key :: "(jstring \<Rightarrow> jstring) \<Rightarrow> desk \<Rightarrow> post_key \<Rightarrow> jstring" where
  "desk_key sha s k = makeKey sha (dk_engine s) (fst k) (snd k)"

text \<open>A request arrives; the memory of the cache is asked at once.\<close>

definition desk_request :: "(jstring \<Rightarrow> jstring) \<Rightarrow> millis \<Rightarrow> int \<Rightarrow> post_key \<Rightarrow> desk \<Rightarrow> desk" where
  "desk_request sha now user k s =
     (let i = dk_next s;
          (rate, limits) = tr_consume_request now user (dk_limits s);
          s1 = s\<lparr>dk_next := i + 1, dk_limits := limits\<rparr>
      in if \<not> allowed rate then reply i (ReplyLimited (retryAfterMs rate)) s1
         else (case cache_lookup now (desk_key sha s k) (dk_cache s1) of
                 (Some v, c) \<Rightarrow> reply i (ReplyText v) (s1\<lparr>dk_cache := c\<rparr>)
               | (None, c) \<Rightarrow> s1\<lparr>dk_cache := c, dk_lookups := dk_lookups s1 @ [\<lparr>lk_id = i, lk_user = user, lk_key = k\<rparr>]\<rparr>))"

text \<open>The database answers a request, or fails.\<close>

definition desk_found :: "(jstring \<Rightarrow> jstring) \<Rightarrow> millis \<Rightarrow> bool \<Rightarrow> nat \<Rightarrow> desk \<Rightarrow> desk" where
  "desk_found sha now ok i s =
     (case find (\<lambda>l. lk_id l = i) (dk_lookups s) of
        None \<Rightarrow> s
      | Some l \<Rightarrow>
          (let s1 = s\<lparr>dk_lookups := remove1 l (dk_lookups s)\<rparr>; k = lk_key l
           in if \<not> ok then reply i ReplyFailed s1
              else (case cache_stored now (desk_key sha s k) (dk_cache s1) of
                      (Some v, c) \<Rightarrow> reply i (ReplyText v) (s1\<lparr>dk_cache := c\<rparr>)
                    | (None, c) \<Rightarrow>
                        (case map_of (dk_pending s1) k of
                           Some ws \<Rightarrow> s1\<lparr>dk_pending := AList.update k (ws @ [i]) (dk_pending s1)\<rparr>
                         | None \<Rightarrow>
                             (case tr_consume_provider_miss now (lk_user l) (dk_limits s1) of
                                (rate, limits) \<Rightarrow>
                                  (let s2 = s1\<lparr>dk_limits := limits\<rparr>
                                   in if \<not> allowed rate then reply i (ReplyLimited (retryAfterMs rate)) s2
                                      else s2\<lparr>dk_pending := AList.update k [i] (dk_pending s2),
                                              dk_started := dk_started s2 @ [(now, lk_user l)]\<rparr>))))))"

definition desk_finish :: "post_key \<Rightarrow> desk_reply \<Rightarrow> desk \<Rightarrow> desk" where
  "desk_finish k r s =
     (case map_of (dk_pending s) k of
        None \<Rightarrow> s
      | Some ws \<Rightarrow> reply_all ws r (s\<lparr>dk_pending := AList.delete k (dk_pending s)\<rparr>))"

text \<open>The engine is done: the text goes into the memory and then, waiting, into the table.\<close>

definition desk_translated :: "engine_rt \<Rightarrow> (jstring \<Rightarrow> jstring) \<Rightarrow> millis \<Rightarrow> post_key \<Rightarrow> desk \<Rightarrow> desk" where
  "desk_translated rt sha now k s =
     (if \<not> jm_has (dk_pending s) k \<or> k \<in> fst ` set (dk_saving s) then s
      else (case translateMulti rt (snd k) [fst k] (dk_engine s) of
              (Inl err, e) \<Rightarrow> desk_finish k ReplyFailed (s\<lparr>dk_engine := e\<rparr>)
            | (Inr m, e) \<Rightarrow>
                (case map_of (mt_translations m) (fst k) of
                   None \<Rightarrow> desk_finish k ReplyFailed (s\<lparr>dk_engine := e\<rparr>)
                 | Some t \<Rightarrow>
                     if t = [] then desk_finish k ReplyFailed (s\<lparr>dk_engine := e\<rparr>)
                     else s\<lparr>dk_engine := e, dk_cache := cache_remember now (desk_key sha s k) t (dk_cache s),
                            dk_saving := dk_saving s @ [(k, t)]\<rparr>)))"

text \<open>The row is written, or the database refuses it: the text is the answer either way.\<close>

definition desk_saved :: "(jstring \<Rightarrow> jstring) \<Rightarrow> bool \<Rightarrow> post_key \<Rightarrow> desk \<Rightarrow> desk" where
  "desk_saved sha ok k s =
     (case map_of (dk_saving s) k of
        None \<Rightarrow> s
      | Some t \<Rightarrow>
          desk_finish k (ReplyText t)
            (s\<lparr>dk_saving := AList.delete k (dk_saving s),
               dk_cache := (if ok then cache_save (desk_key sha s k) t (dk_cache s) else dk_cache s)\<rparr>))"

text \<open>A run: every step comes some time after the one before.\<close>

datatype desk_op =
    DoRequest int post_key
  | DoFound bool nat
  | DoTranslated post_key
  | DoSaved bool post_key

definition desk_exec :: "engine_rt \<Rightarrow> (jstring \<Rightarrow> jstring) \<Rightarrow> millis \<Rightarrow> desk_op \<Rightarrow> desk \<Rightarrow> desk" where
  "desk_exec rt sha now op s =
     (case op of
        DoRequest user k \<Rightarrow> desk_request sha now user k s
      | DoFound ok i \<Rightarrow> desk_found sha now ok i s
      | DoTranslated k \<Rightarrow> desk_translated rt sha now k s
      | DoSaved ok k \<Rightarrow> desk_saved sha ok k s)"

fun desk_run :: "engine_rt \<Rightarrow> (jstring \<Rightarrow> jstring) \<Rightarrow> millis \<Rightarrow> (nat \<times> desk_op) list \<Rightarrow> desk \<Rightarrow> millis \<times> desk" where
  "desk_run rt sha now [] s = (now, s)"
| "desk_run rt sha now ((dt, op) # ops) s = desk_run rt sha (now + int dt) ops (desk_exec rt sha (now + int dt) op s)"

subsection \<open>Every request is in one place\<close>

definition waiting_ids :: "(post_key, nat list) jmap \<Rightarrow> nat multiset" where
  "waiting_ids p = sum_list (map (\<lambda>e. mset (snd e)) p)"

definition desk_ids :: "desk \<Rightarrow> nat multiset" where
  "desk_ids s = mset (map fst (dk_replies s)) + mset (map lk_id (dk_lookups s)) + waiting_ids (dk_pending s)"

definition desk_inv :: "desk \<Rightarrow> bool" where
  "desk_inv s \<longleftrightarrow> desk_ids s = mset [0..<dk_next s] \<and> jm_wf (dk_pending s) \<and> jm_wf (dk_saving s) \<and>
     fst ` set (dk_saving s) \<subseteq> fst ` set (dk_pending s)"

lemma waiting_delete: "jm_wf p \<Longrightarrow> map_of p k = Some ws \<Longrightarrow> waiting_ids p = mset ws + waiting_ids (AList.delete k p)"
proof (induction p)
  case (Cons e p)
  then show ?case by (cases "fst e = k") (auto simp: waiting_ids_def image_iff)
qed simp

lemma waiting_absent: "map_of p k = None \<Longrightarrow> waiting_ids (AList.update k ws p) = waiting_ids p + mset ws"
  by (induction p) (auto simp: waiting_ids_def map_of_eq_None_iff split: if_splits)

lemma waiting_extend: "map_of p k = Some ws \<Longrightarrow> waiting_ids (AList.update k (ws @ [i]) p) = add_mset i (waiting_ids p)"
  by (induction p) (auto simp: waiting_ids_def split: if_splits)

lemma keys_update: "fst ` set (AList.update k v p) = insert k (fst ` set p)"
  using dom_update [of k v p] by simp

lemma keys_has: "jm_has p k \<longleftrightarrow> k \<in> fst ` set p"
  by (induction p) (auto split: if_splits)

lemma keys_delete: "fst ` set (AList.delete k p) = fst ` set p - {k}"
  by (induction p) auto

declare map_of_eq_Some_iff [simp del]

lemma fst_image [simp]: "image_mset fst (image_mset (\<lambda>i. (i, r)) M) = M"
  by (simp add: image_mset.compositionality comp_def)

lemma upto_Suc [simp]: "mset_set {0..<Suc n} = add_mset n (mset_set {0..<n})"
  by (simp add: atLeast0_lessThan_Suc)

lemma reply_ids [simp]:
  "desk_ids (reply i r s) = add_mset i (desk_ids s)" "desk_ids (reply_all is r s) = mset is + desk_ids s"
  by (simp_all add: desk_ids_def reply_def reply_all_def comp_def)

lemma reply_frame [simp]:
  "dk_next (reply i r s) = dk_next s" "dk_pending (reply i r s) = dk_pending s" "dk_saving (reply i r s) = dk_saving s"
  "dk_limits (reply i r s) = dk_limits s" "dk_started (reply i r s) = dk_started s"
  "dk_next (reply_all is r s) = dk_next s" "dk_pending (reply_all is r s) = dk_pending s" "dk_saving (reply_all is r s) = dk_saving s"
  "dk_limits (reply_all is r s) = dk_limits s" "dk_started (reply_all is r s) = dk_started s"
  by (simp_all add: reply_def reply_all_def)

lemma ids_update [simp]:
  "desk_ids (s\<lparr>dk_limits := a\<rparr>) = desk_ids s" "desk_ids (s\<lparr>dk_cache := c\<rparr>) = desk_ids s"
  "desk_ids (s\<lparr>dk_engine := e\<rparr>) = desk_ids s" "desk_ids (s\<lparr>dk_next := n\<rparr>) = desk_ids s"
  "desk_ids (s\<lparr>dk_saving := v\<rparr>) = desk_ids s" "desk_ids (s\<lparr>dk_started := w\<rparr>) = desk_ids s"
  by (simp_all add: desk_ids_def)

lemma finish_ids [simp]: "jm_wf (dk_pending s) \<Longrightarrow> desk_ids (desk_finish k r s) = desk_ids s"
  by (auto simp: desk_finish_def desk_ids_def reply_all_def comp_def waiting_delete split: option.split)

lemma finish_frame [simp]:
  "dk_next (desk_finish k r s) = dk_next s" "dk_saving (desk_finish k r s) = dk_saving s"
  "dk_limits (desk_finish k r s) = dk_limits s" "dk_started (desk_finish k r s) = dk_started s"
  "dk_pending (desk_finish k r s) = AList.delete k (dk_pending s)"
  by (auto simp: desk_finish_def map_of_eq_None_iff split: option.split)

lemma desk_request_inv:
  assumes "desk_inv s"
  shows "desk_inv (desk_request sha now u k s)"
proof -
  obtain rate limits where r: "tr_consume_request now u (dk_limits s) = (rate, limits)" by fastforce
  obtain hit c where c: "cache_lookup now (desk_key sha s k) (dk_cache s) = (hit, c)" by fastforce
  have "desk_ids (s\<lparr>dk_next := n, dk_limits := limits, dk_cache := c, dk_lookups := dk_lookups s @ [l]\<rparr>) = add_mset (lk_id l) (desk_ids s)" for l n
    by (simp add: desk_ids_def)
  then show ?thesis using assms r c by (auto simp: desk_request_def desk_inv_def Let_def split: option.split)
qed

lemma desk_found_inv:
  assumes "desk_inv s"
  shows "desk_inv (desk_found sha now ok i s)"
proof (cases "find (\<lambda>l. lk_id l = i) (dk_lookups s)")
  case None
  then show ?thesis using assms by (simp add: desk_found_def)
next
  case (Some l)
  then have l: "l \<in> set (dk_lookups s)" "lk_id l = i" by (auto simp: find_Some_iff)
  define s1 where "s1 = s\<lparr>dk_lookups := remove1 l (dk_lookups s)\<rparr>"
  have "mset (map lk_id (dk_lookups s)) = add_mset i (mset (map lk_id (remove1 l (dk_lookups s))))"
    using l by (metis mset_map image_mset_add_mset insert_DiffM mset_remove1 set_mset_mset)
  then have ids: "add_mset i (desk_ids s1) = mset [0..<dk_next s1]" and wf: "jm_wf (dk_pending s1)" "jm_wf (dk_saving s1)"
    "fst ` set (dk_saving s1) \<subseteq> fst ` set (dk_pending s1)"
    using assms by (auto simp: desk_inv_def desk_ids_def s1_def)
  obtain hit c where c: "cache_stored now (desk_key sha s (lk_key l)) (dk_cache s1) = (hit, c)" by fastforce
  obtain rate limits where r: "tr_consume_provider_miss now (lk_user l) (dk_limits s1) = (rate, limits)" by fastforce
  have ext: "desk_ids (s1\<lparr>dk_pending := AList.update (lk_key l) (ws @ [i]) (dk_pending s1)\<rparr>) = add_mset i (desk_ids s1)"
    if "map_of (dk_pending s1) (lk_key l) = Some ws" for ws
    using waiting_extend [OF that, of i] by (simp add: desk_ids_def)
  have new: "desk_ids (s1\<lparr>dk_limits := limits, dk_pending := AList.update (lk_key l) [i] (dk_pending s1), dk_started := w\<rparr>) =
      add_mset i (desk_ids s1)" if "map_of (dk_pending s1) (lk_key l) = None" for w
    using waiting_absent [OF that, of "[i]"] by (simp add: desk_ids_def)
  show ?thesis using Some c r ids wf ext new
    by (auto simp: desk_found_def desk_inv_def keys_update s1_def [symmetric] Let_def split: option.split)
qed

lemma desk_translated_inv:
  assumes "desk_inv s"
  shows "desk_inv (desk_translated rt sha now k s)"
proof (cases "\<not> jm_has (dk_pending s) k \<or> k \<in> fst ` set (dk_saving s)")
  case True
  then show ?thesis using assms by (simp only: desk_translated_def if_True)
next
  case False
  then have k: "k \<in> fst ` set (dk_pending s)" "k \<notin> fst ` set (dk_saving s)" using keys_has [of "dk_pending s" k] by auto
  have "fst ` set (dk_saving s) \<subseteq> fst ` set (dk_pending s) - {k}" using assms k(2) unfolding desk_inv_def by blast
  then have fin: "desk_inv (desk_finish k ReplyFailed (s\<lparr>dk_engine := e\<rparr>))" for e
    using assms by (simp add: desk_inv_def keys_delete)
  have kept: "desk_inv (s\<lparr>dk_engine := e, dk_cache := c, dk_saving := dk_saving s @ [(k, t)]\<rparr>)" for e c t
    using assms k unfolding desk_inv_def by simp
  show ?thesis using False fin kept
    by (simp add: desk_translated_def split: prod.split sum.split option.split del: not_None_eq)
qed

lemma desk_saved_inv:
  assumes "desk_inv s"
  shows "desk_inv (desk_saved sha ok k s)"
proof -
  have "fst ` set (AList.delete k (dk_saving s)) \<subseteq> fst ` set (dk_pending s) - {k}"
    using assms by (auto simp: keys_delete desk_inv_def)
  then show ?thesis using assms by (auto simp: desk_saved_def desk_inv_def keys_delete split: option.split)
qed

lemma desk_exec_inv: "desk_inv s \<Longrightarrow> desk_inv (desk_exec rt sha now op s)"
  by (simp add: desk_exec_def desk_request_inv desk_found_inv desk_translated_inv desk_saved_inv split: desk_op.split)

lemma desk_run_inv: "desk_inv s \<Longrightarrow> desk_inv (snd (desk_run rt sha now ops s))"
  by (induction rt sha now ops s rule: desk_run.induct) (simp_all add: desk_exec_inv)

lemma desk_initial_inv: "desk_inv (desk_initial e db)"
  by (simp add: desk_inv_def desk_initial_def desk_ids_def waiting_ids_def)

subsection \<open>How many translations start\<close>

definition desk_rate :: "millis \<Rightarrow> desk \<Rightarrow> bool" where
  "desk_rate now s \<longleftrightarrow> tr_provider_inv now (dk_started s) (dk_limits s)"

lemma provider_inv_request:
  "tr_provider_inv now past st \<Longrightarrow> tr_consume_request now u st = (r, st') \<Longrightarrow> tr_provider_inv now past st'"
  by (auto simp: tr_provider_inv_def tr_consume_request_def split: prod.splits)

lemma desk_exec_rate:
  assumes "desk_rate now s"
  shows "desk_rate now (desk_exec rt sha now op s)"
proof (cases op)
  case (DoRequest u k)
  obtain r limits where "tr_consume_request now u (dk_limits s) = (r, limits)" by fastforce
  with provider_inv_request [OF assms [unfolded desk_rate_def] this] DoRequest show ?thesis
    by (simp add: desk_exec_def desk_request_def desk_rate_def Let_def split: prod.split option.split)
next
  case (DoFound ok i)
  have "tr_provider_inv now (dk_started s @ (if allowed r then [(now, u)] else [])) limits"
    if "tr_consume_provider_miss now u (dk_limits s) = (r, limits)" for u r limits
    by (rule tr_provider_step_inv [OF assms [unfolded desk_rate_def] that])
  then show ?thesis using assms DoFound
    by (fastforce simp: desk_exec_def desk_found_def desk_rate_def Let_def split: prod.split option.split)
next
  case (DoTranslated k)
  then show ?thesis using assms
    by (simp add: desk_exec_def desk_translated_def desk_rate_def split: prod.split sum.split option.split)
next
  case (DoSaved ok k)
  then show ?thesis using assms by (simp add: desk_exec_def desk_saved_def desk_rate_def split: option.split)
qed

lemma desk_run_rate: "desk_rate now s \<Longrightarrow> case desk_run rt sha now ops s of (now', s') \<Rightarrow> desk_rate now' s'"
proof (induction rt sha now ops s rule: desk_run.induct)
  case (2 rt sha now dt op ops s)
  have "desk_rate (now + int dt) s" using "2.prems" unfolding desk_rate_def by (rule tr_provider_inv_later) simp
  from "2.IH" [OF desk_exec_rate [OF this]] show ?case by simp
qed simp

lemma desk_initial_rate: "desk_rate now (desk_initial e db)"
  by (simp add: desk_rate_def desk_initial_def tr_provider_inv_def tr_log.log_inv_start tr_times_def)

end
