(* ===== verification/TranslateProperties.thy ===== *)
theory TranslateProperties
  imports FlowRules TranslateDesk
begin

text \<open>The properties of the translations on the server, each with a concrete instance.\<close>

text \<open>
  One text into several languages: every request asks for room that is exactly its estimate,
  at most 1500 tokens unless it is for one language; there are at most two requests per language; and when
  there is a result, every wanted language was asked for and what came back is a text that is not empty,
  for a wanted language.
\<close>

theorem multi_requests_fit:
  "\<exists>new. eg_requests (snd (translateMulti rt tx targets e)) = eg_requests e @ new \<and>
     length new \<le> 2 * card (set targets) \<and>
     list_all (\<lambda>rq. case rq_input rq of
         InMulti ts x \<Rightarrow> x = tx \<and> set ts \<subseteq> set targets \<and>
           rq_maxOutputTokens rq = length ts * estimateTokens (length tx) + 100 \<and>
           rq_maxOutputTokens rq \<le> (if length ts = 1 then estimateTokens (length tx) + 100 else 1500)
       | _ \<Rightarrow> False) new \<and>
     (case fst (translateMulti rt tx targets e) of
        Inl err \<Rightarrow> True
      | Inr m \<Rightarrow> set targets \<subseteq> \<Union> (asked ` set new) \<and>
          list_all (\<lambda>(l, t). l \<in> set targets \<and> t \<noteq> []) (mt_translations m))"
proof -
  obtain new where n: "eng_trace (multi_fits tx targets) (case fst (translateMulti rt tx targets e) of Inl err \<Rightarrow> False | Inr m \<Rightarrow> True) e
      (snd (translateMulti rt tx targets e)) new" "length new \<le> 2 * card (set targets)"
    "case fst (translateMulti rt tx targets e) of
       Inl err \<Rightarrow> True
     | Inr m \<Rightarrow> texts_ok (set targets) (mt_translations m) \<and> mt_source m \<in> set SOURCE_ENUM \<and>
         set targets \<subseteq> \<Union> (asked ` set new)"
    using translateMulti_post [of tx targets rt e] by blast
  have fit: "case rq_input rq of
         InMulti ts x \<Rightarrow> x = tx \<and> set ts \<subseteq> set targets \<and>
           rq_maxOutputTokens rq = length ts * estimateTokens (length tx) + 100 \<and>
           rq_maxOutputTokens rq \<le> (if length ts = 1 then estimateTokens (length tx) + 100 else 1500)
       | _ \<Rightarrow> False" if "multi_fits tx targets rq" for rq
    using that by (auto simp: multi_fits_def split: call_input.splits)
  have texts: "list_all (\<lambda>(l, t). l \<in> set targets \<and> t \<noteq> []) m" if "texts_ok (set targets) m" for m
    using that unfolding texts_ok_def list_all_iff by (fastforce simp: map_of_eq_Some_iff)
  have reqs: "eg_requests (snd (translateMulti rt tx targets e)) = eg_requests e @ new" "list_all (multi_fits tx targets) new"
    using n(1) by (auto simp: eng_trace_def)
  have fits: "list_all (\<lambda>rq. case rq_input rq of
         InMulti ts x \<Rightarrow> x = tx \<and> set ts \<subseteq> set targets \<and>
           rq_maxOutputTokens rq = length ts * estimateTokens (length tx) + 100 \<and>
           rq_maxOutputTokens rq \<le> (if length ts = 1 then estimateTokens (length tx) + 100 else 1500)
       | _ \<Rightarrow> False) new" using reqs(2) fit unfolding list_all_iff by blast
  show ?thesis
  proof (cases "fst (translateMulti rt tx targets e)")
    case (Inl err)
    then show ?thesis using reqs(1) n(2) fits by (intro exI [of _ new]) simp
  next
    case (Inr m)
    then show ?thesis using reqs(1) n(2,3) fits texts [of "mt_translations m"] by (intro exI [of _ new]) simp
  qed
qed

text \<open>
  Property C18. Several texts into one language: the retries end, with at most two requests per text, each
  within 1500 tokens, and a result has exactly one entry for every text, a translation that is not empty or
  none.
\<close>

theorem batch_retries_end:
  "\<exists>new. eg_requests (snd (translateBatch rt items target e)) = eg_requests e @ new \<and>
     length new \<le> 2 * length items \<and> list_all (\<lambda>rq. rq_maxOutputTokens rq \<le> 1500) new \<and>
     (case fst (translateBatch rt items target e) of
        Inl err \<Rightarrow> True
      | Inr m \<Rightarrow> distinct (map fst m) \<and> set (map fst m) = bi_id ` set items \<and>
          list_all (\<lambda>(i, b). bt_source b \<in> set SOURCE_ENUM \<and> bt_text b \<noteq> Some []) m)"
proof -
  obtain new where n: "eng_trace (batch_fits target items) (case fst (translateBatch rt items target e) of Inl err \<Rightarrow> False | Inr m \<Rightarrow> True) e
      (snd (translateBatch rt items target e)) new" "length new \<le> 2 * length items"
    "case fst (translateBatch rt items target e) of Inl err \<Rightarrow> True | Inr m \<Rightarrow> batch_res_ok items m"
    using translateBatch_post [of target items e rt] unfolding batch_post_def by blast
  have fit: "rq_maxOutputTokens rq \<le> 1500" if "batch_fits target items rq" for rq
    using that by (simp add: batch_fits_def split: call_input.splits)
  have res: "distinct (map fst m) \<and> set (map fst m) = bi_id ` set items \<and>
      list_all (\<lambda>(i, b). bt_source b \<in> set SOURCE_ENUM \<and> bt_text b \<noteq> Some []) m" if "batch_res_ok items m" for m
  proof -
    have wf: "jm_wf m" using that by (simp add: batch_res_ok_def)
    have "set (map fst m) = bi_id ` set items" using that by (auto simp: batch_res_ok_def keys_has simp del: not_None_eq)
    moreover have "list_all (\<lambda>(i, b). bt_source b \<in> set SOURCE_ENUM \<and> bt_text b \<noteq> Some []) m"
      using that wf by (auto simp: batch_res_ok_def list_all_iff map_of_eq_Some_iff)
    ultimately show ?thesis using wf by blast
  qed
  show ?thesis using n fit res
    by (intro exI [of _ new]) (auto simp: eng_trace_def list_all_iff split: sum.splits)
qed

text \<open>
  A chat message ends up with exactly one thing for every language that is wanted for it, a
  translation or a place in the list of failures, and with nothing for any other language; a text without
  letters and the language a text is certainly in are not wanted.
\<close>

theorem chat_message_outcome:
  assumes "distinct (map fst (fl_table s))"
    and "r = fst (translateForMessage cl rt io adm i content langs s)"
    and "wanted = (if hasLetters cl content then filter (\<lambda>lang. Some lang \<noteq> unambiguousLang cl content) langs else [])"
  shows "list_all (\<lambda>l. (map_of (ct_translations r) l \<noteq> None) \<noteq> (l \<in> set (ct_failed r))) wanted \<and>
    (\<forall>l. l \<notin> set wanted \<longrightarrow> map_of (ct_translations r) l = None \<and> l \<notin> set (ct_failed r))"
proof -
  have "chat_outcome wanted r"
    using translateForMessage_outcome [OF assms(1), of cl content langs rt io adm i] by (simp add: assms(2,3) wanted_langs_def)
  then show ?thesis unfolding chat_outcome_def list_all_iff by blast
qed

definition ex_classes :: script_classes where
  "ex_classes = \<lparr>is_hangul = w_hangul, is_kana = w_kana, is_han = w_han, is_cyrillic = w_cyrillic, is_latin = w_latin,
     is_letter = (\<lambda>c. w_hangul c \<or> w_latin c)\<rparr>"

definition ex_unicode :: unicode_rt where
  "ex_unicode = \<lparr>ur_latin = w_latin, ur_cyrillic = w_cyrillic, ur_hangul = w_hangul, ur_letter = w_latin,
     ur_number = js_digit, ur_fold = ascii_lower, ur_lower = map ascii_lower\<rparr>"

text \<open>A provider that answers every request with Japanese \<open>x\<close> and English \<open>y\<close>.\<close>

definition ex_response :: eng_response where
  "ex_response = \<lparr>rs_status = lit ''completed'', rs_reason = None, rs_output_text = Some (lit ''J''), rs_output = [],
     rs_input_tokens = Some 1, rs_cached_tokens = None, rs_output_tokens = Some 1, rs_ms = 400\<rparr>"

definition ex_rt :: engine_rt where
  "ex_rt = \<lparr>rt_unicode = ex_unicode,
     rt_json = (\<lambda>_. Some (JObj [(lit ''source'', JStr (lit ''ko'')), (lit ''ja'', JStr (lit ''x'')), (lit ''en'', JStr (lit ''y''))])),
     rt_number = (\<lambda>_. NumNaN), rt_provider = (\<lambda>_ _. PrAnswer ex_response)\<rparr>"

definition ex_flow :: flow where
  "ex_flow = \<lparr>fl_engine = engine_new (Some (lit ''key'')) None, fl_table = [((7, ''en''), lit ''old'')]\<rparr>"

theorem chat_message_outcome_witness:
  "list_all (\<lambda>l. (map_of (ct_translations (fst (translateForMessage ex_classes ex_rt \<lparr>io_find = True, io_save = True\<rparr> TqStarted 8
       [97, 98] [''ko'', ''ja''] ex_flow))) l \<noteq> None) \<noteq>
     (l \<in> set (ct_failed (fst (translateForMessage ex_classes ex_rt \<lparr>io_find = True, io_save = True\<rparr> TqStarted 8
       [97, 98] [''ko'', ''ja''] ex_flow)))))
     (if hasLetters ex_classes [97, 98] then filter (\<lambda>lang. Some lang \<noteq> unambiguousLang ex_classes [97, 98]) [''ko'', ''ja''] else [])"
proof -
  have "distinct (map fst (fl_table ex_flow))" by (simp add: ex_flow_def)
  from chat_message_outcome [OF this refl refl] show ?thesis by blast
qed

text \<open>
  What is translated and stored is not paid for twice: the same message for the same
  languages gives the same translations again and asks nobody.
\<close>

theorem translated_once:
  assumes "distinct (map fst (fl_table s))" and "distinct langs" and "io_find io" and "io_save io"
    and "translateForMessage cl rt io adm i content langs s = (r, s1)" and "ct_failed r = []"
  shows "snd (translateForMessage cl rt io adm' i content langs s1) = s1 \<and>
    map_of (ct_translations (fst (translateForMessage cl rt io adm' i content langs s1))) = map_of (ct_translations r)"
proof -
  obtain r2 s2 where "translateForMessage cl rt io adm' i content langs s1 = (r2, s2)" by fastforce
  with translateForMessage_once [OF assms(1,3,4,2,5,6) this] show ?thesis by simp
qed

lemmas ex_script = ex_classes_def hasLetters_def unambiguousLang_def detectScript_def count_matches_def script_lang_def
  is_hi_surrogate_def is_lo_surrogate_def w_classes

lemma ex_letters [simp]: "hasLetters ex_classes [97, 98]" "hasLetters ex_classes [99]" "\<not> hasLetters ex_classes [49]"
  by (simp_all add: ex_script)

lemma ex_lang [simp]: "unambiguousLang ex_classes [97, 98] = None" "unambiguousLang ex_classes [99] = None"
  by (simp_all add: ex_script)

theorem translated_once_witness:
  "snd (translateForMessage ex_classes ex_rt \<lparr>io_find = True, io_save = True\<rparr> TqWaiting 7 [97, 98] [''en''] ex_flow) = ex_flow"
proof -
  have s: "translateForMessage ex_classes ex_rt \<lparr>io_find = True, io_save = True\<rparr> TqStarted 7 [97, 98] [''en''] ex_flow =
      (\<lparr>ct_translations = [(''en'', lit ''old'')], ct_failed = [], ct_error = None\<rparr>, ex_flow)"
    by (simp add: translateForMessage_def loadExisting_def getForMessages_def ex_flow_def)
  have d: "distinct (map fst (fl_table ex_flow))" by (simp add: ex_flow_def)
  show ?thesis using translated_once [OF d _ _ _ s, of TqWaiting] by simp
qed

text \<open>
  An answered batch divides its items: each is skipped, translated or failed and never two of
  these, when the identifiers are distinct; nothing that was not asked for is in the answer.
\<close>

theorem batch_divides_items:
  assumes "distinct (map bi_id items)"
    and "fst (controller_translateBatch cl rt io adm now u target items s) = Inr r"
  shows "list_all (\<lambda>i. length (filter id [bi_id i \<in> set (br_skipped r), map_of (br_translated r) (bi_id i) \<noteq> None,
      bi_id i \<in> set (br_failed r)]) = 1) items \<and>
    (\<forall>k. k \<notin> bi_id ` set items \<longrightarrow> k \<notin> set (br_skipped r) \<and> map_of (br_translated r) k = None \<and> k \<notin> set (br_failed r))"
proof -
  obtain s' where "controller_translateBatch cl rt io adm now u target items s = (Inr r, s')"
    using assms(2) by (metis prod.collapse)
  then obtain good where parts: "batch_parts cl target items r good" using controller_translateBatch_parts by blast
  have inj: "j = i" if "i \<in> set items" "j \<in> set items" "bi_id j = bi_id i" for i j
    by (rule distinct_map_eqD [OF assms(1)]) (use that in auto)
  have sk: "bi_id i \<in> set (br_skipped r) \<longleftrightarrow> batch_skips cl target i" if "i \<in> set items" for i
    using parts inj that unfolding batch_parts_def by auto
  have tr: "map_of (br_translated r) (bi_id i) \<noteq> None \<longleftrightarrow> \<not> batch_skips cl target i \<and> good i" if "i \<in> set items" for i
    using parts inj that unfolding batch_parts_def by blast
  have fa: "bi_id i \<in> set (br_failed r) \<longleftrightarrow> \<not> batch_skips cl target i \<and> \<not> good i" if "i \<in> set items" for i
    using parts inj that unfolding batch_parts_def by auto
  have "length (filter id [bi_id i \<in> set (br_skipped r), map_of (br_translated r) (bi_id i) \<noteq> None, bi_id i \<in> set (br_failed r)]) = 1"
    if "i \<in> set items" for i
    unfolding sk [OF that] tr [OF that] fa [OF that] by auto
  moreover have "k \<notin> set (br_skipped r) \<and> map_of (br_translated r) k = None \<and> k \<notin> set (br_failed r)" if "k \<notin> bi_id ` set items" for k
  proof -
    have "\<not> (\<exists>i\<in>set items. bi_id i = k \<and> \<not> batch_skips cl target i \<and> good i)" using that by auto
    then have "\<not> map_of (br_translated r) k \<noteq> None" using parts unfolding batch_parts_def by simp
    then show ?thesis using parts that unfolding batch_parts_def by auto
  qed
  ultimately show ?thesis by (simp add: list_all_iff)
qed

definition ex_batch :: batch_sys where
  "ex_batch = \<lparr>bs_limits = \<lparr>requestBuckets = [], providerBuckets = [], batchBuckets = [], globalProviderBucket = []\<rparr>, bs_flow = ex_flow\<lparr>fl_engine := engine_new None None\<rparr>\<rparr>"

definition ex_items :: "batch_item list" where
  "ex_items = [\<lparr>bi_id = 7, bi_text = [97, 98]\<rparr>, \<lparr>bi_id = 8, bi_text = [49]\<rparr>, \<lparr>bi_id = 9, bi_text = [99]\<rparr>]"

theorem batch_divides_items_witness:
  "\<exists>r. fst (controller_translateBatch ex_classes ex_rt \<lparr>io_find = True, io_save = True\<rparr> TqStarted 0 1 ''en'' ex_items ex_batch) = Inr r \<and>
     9 \<notin> set (br_skipped r) \<and> 10 \<notin> set (br_failed r)"
proof -
  have d: "distinct (map bi_id ex_items)" by (simp add: ex_items_def)
  have r: "fst (controller_translateBatch ex_classes ex_rt \<lparr>io_find = True, io_save = True\<rparr> TqStarted 0 1 ''en'' ex_items ex_batch) =
      Inr \<lparr>br_translated = [(7, lit ''old'')], br_skipped = [8], br_failed = [9]\<rparr>"
    by (simp add: controller_translateBatch_def ex_items_def ex_batch_def ex_flow_def Let_def batch_skips_def tr_consume_batch_def
        tr_consume_bucket_def tr_times_def tr_consts existing_text_def getForMessages_def put_text_def queue_run_def
        translateBatch_def engine_new_def no_client_def)
  from batch_divides_items [OF d r] r show ?thesis by (simp add: ex_items_def)
qed


text \<open>
  What was written is found again for half an hour as long as fewer than two thousand other
  keys were used since.
\<close>

theorem recent_is_found:
  assumes "key \<notin> op_key ` set later" and "card (op_key ` set later) < 2000" and "now' < now + 30 * 60 * 1000"
  shows "fst (readMemory now' key (cache_run later (writeMemory now key v (cache_run before [])))) = Some v"
proof -
  have ok: "cache_ok (cache_run before [])" by (rule run_ok) (simp add: cache_ok_def)
  have ok': "cache_ok (cache_run later (writeMemory now key v (cache_run before [])))" by (rule run_ok [OF write_ok [OF ok]])
  have "kept key \<lparr>me_value = v, me_expiresAt = now + TRANSLATION_MEMORY_CACHE_TTL_MS\<rparr> ({} \<union> op_key ` set later)
      (cache_run later (writeMemory now key v (cache_run before [])))"
    by (rule kept_run [OF write_kept [OF ok] write_ok [OF ok] assms(1)])
      (use assms(2) in \<open>simp_all add: TRANSLATION_MEMORY_CACHE_MAX_def\<close>)
  from kept_lookup [OF this] ok' assms(3) show ?thesis
    by (simp add: readMemory_def cache_ok_def TRANSLATION_MEMORY_CACHE_TTL_MS_def)
qed

theorem recent_is_found_witness:
  "fst (readMemory 100 [1] (cache_run [CoRead 10 [2], CoWrite 20 [3] [7]] (writeMemory 5 [1] [9] (cache_run [CoWrite 0 [4] [4]] [])))) = Some [9]"
  by (rule recent_is_found) simp_all


text \<open>
  However many ask, at most sixty translations of posts start in a minute and at most ten for
  one reader.
\<close>

theorem translations_started:
  "let s = snd (desk_run rt sha now ops (desk_initial e db)) in
   length (filter (\<lambda>(t, u). T - 60000 < t \<and> t \<le> T) (dk_started s)) \<le> 60 \<and>
   length (filter (\<lambda>(t, u'). u' = u \<and> T - 60000 < t \<and> t \<le> T) (dk_started s)) \<le> 10"
proof -
  obtain now' s where r: "desk_run rt sha now ops (desk_initial e db) = (now', s)" by fastforce
  have "desk_rate now' s" using desk_run_rate [OF desk_initial_rate [of now e db], of rt sha ops] r by simp
  then have g: "length (tr_log.in_window T (map fst (dk_started s))) \<le> TRANSLATION_GLOBAL_PROVIDER_RATE_LIMIT"
    and p: "length (tr_log.in_window T (map fst (filter (\<lambda>(t, u'). u' = u) (dk_started s)))) \<le> TRANSLATION_PROVIDER_RATE_LIMIT"
    by (simp_all add: desk_rate_def tr_provider_inv_def tr_log.log_inv_def)
  have "length (tr_log.in_window T (map fst xs)) = length (filter (\<lambda>(t, u). T - 60000 < t \<and> t \<le> T) xs)" for xs :: "(millis \<times> int) list"
    unfolding tr_log.in_window_def by (induction xs) (auto simp: tr_consts)
  moreover have "filter (\<lambda>(t, u'). u' = u \<and> T - 60000 < t \<and> t \<le> T) xs =
      filter (\<lambda>(t, u). T - 60000 < t \<and> t \<le> T) (filter (\<lambda>(t, u'). u' = u) xs)" for xs :: "(millis \<times> int) list"
    by (induction xs) auto
  ultimately show ?thesis using g p r
    by (simp add: Let_def TRANSLATION_GLOBAL_PROVIDER_RATE_LIMIT_def TRANSLATION_PROVIDER_RATE_LIMIT_def)
qed

end
