(* ===== verification/ChatServer.thy ===== *)
theory ChatServer
  imports TranslateFlow
begin

text \<open>
  The chat of the server: \<open>chat/chat.gateway.ts\<close> over \<open>saveMessage\<close> and \<open>getRecentMessages\<close> of
  \<open>chat/chat.service.ts\<close>. All sockets share one state. A handler that waits (for the user, the history, the
  insert, the translation) is cut at its waits: what it still has to do is kept in a list of the state, and
  the operation that resumes it names the position in that list, so handlers of different sockets interleave
  freely. The insert and its answer are two operations, because the order of the ids and the order of the
  broadcasts need not agree.

  The table \<open>users\<close> is an argument; rows of the table \<open>messages\<close> get increasing ids. Which of two messages
  with the same time the history has first is the database's choice; here it is the newer row.
\<close>

definition CHAT_MESSAGE_MAX_LENGTH :: nat where "CHAT_MESSAGE_MAX_LENGTH = 500"
definition CHAT_MESSAGE_RATE_LIMIT :: nat where "CHAT_MESSAGE_RATE_LIMIT = 30"
definition CHAT_MESSAGE_RATE_WINDOW_MS :: millis where "CHAT_MESSAGE_RATE_WINDOW_MS = 60000"
definition CHAT_HISTORY_DAYS :: int where "CHAT_HISTORY_DAYS = 7"
definition CHAT_HISTORY_LIMIT :: nat where "CHAT_HISTORY_LIMIT = 200"

subsection \<open>State\<close>

record chat_user =
  cu_id :: int
  cu_nickname :: jstring
  cu_allianceName :: jstring
  cu_language :: string
  cu_role :: string

record connected_user =
  cn_nickname :: jstring
  cn_language :: string
  cn_targetLang :: "string option"

text \<open>\<open>client.connected\<close> and \<open>client.data\<close>; \<open>None\<close> is \<open>undefined\<close>, \<open>Some None\<close> is \<open>null\<close>.\<close>

record socket_data =
  sd_connected :: bool
  sd_user :: "chat_user option"
  sd_pendingTargetLang :: "string option option"

record message_row =
  mr_id :: int
  mr_userId :: int
  mr_content :: jstring
  mr_createdAt :: millis

record chat_payload =
  cp_id :: int
  cp_nickname :: jstring
  cp_allianceName :: jstring
  cp_language :: string
  cp_content :: jstring
  cp_createdAt :: millis

record translation_payload =
  tp_id :: int
  tp_translations :: translation_map
  tp_failed :: "string list option"
  tp_error :: "chat_error option"

datatype chat_ack = AckOk | AckInvalid | AckRateLimit | AckFailed

datatype chat_out =
    OutDisconnect socket_id
  | OutHistory socket_id "(chat_payload \<times> translation_map) list"
  | OutHistoryError socket_id
  | OutAck socket_id chat_ack
  | OutMessage chat_payload
  | OutTranslation translation_payload

text \<open>What the handlers that wait still hold.\<close>

record save_task =
  sv_socket :: socket_id
  sv_user :: chat_user
  sv_content :: jstring
  sv_createdAt :: millis

record chat_server =
  cg_connectedUsers :: "(socket_id, connected_user) jmap"
  cg_data :: "(socket_id, socket_data) jmap"
  cg_limits :: ws_buckets
  cg_messages :: "message_row list"
  cg_nextId :: int
  cg_flow :: flow
  cg_resolving :: "socket_id list"
  cg_reading :: "(socket_id \<times> string option) list"
  cg_attaching :: "(socket_id \<times> message_row list \<times> string list) list"
  cg_saving :: "save_task list"
  cg_inserted :: "(save_task \<times> message_row) list"
  cg_translating :: "(int \<times> jstring \<times> string list) list"
  cg_out :: "chat_out list"

definition chat_start :: "flow \<Rightarrow> chat_server" where
  "chat_start fl =
     \<lparr>cg_connectedUsers = [], cg_data = [], cg_limits = [], cg_messages = [], cg_nextId = 1, cg_flow = fl,
      cg_resolving = [], cg_reading = [], cg_attaching = [], cg_saving = [], cg_inserted = [],
      cg_translating = [], cg_out = []\<rparr>"

definition chat_emit :: "chat_out \<Rightarrow> chat_server \<Rightarrow> chat_server" where
  "chat_emit o' s = s\<lparr>cg_out := cg_out s @ [o']\<rparr>"

definition chat_connected :: "chat_server \<Rightarrow> socket_id \<Rightarrow> bool" where
  "chat_connected s sid = (case map_of (cg_data s) sid of None \<Rightarrow> False | Some d \<Rightarrow> sd_connected d)"

subsection \<open>Connecting\<close>

definition lang_set_add :: "string option \<Rightarrow> string list \<Rightarrow> string list" where
  "lang_set_add l langs = (case l of None \<Rightarrow> langs | Some x \<Rightarrow> List.insert x langs)"

definition onlineTargetLangs :: "chat_server \<Rightarrow> string list" where
  "onlineTargetLangs s = fold (\<lambda>e. lang_set_add (cn_targetLang (snd e))) (cg_connectedUsers s) []"

text \<open>The transport accepts a socket (its id was never used before) and \<open>handleConnection\<close> asks for the user.\<close>

definition chat_open :: "socket_id \<Rightarrow> chat_server \<Rightarrow> chat_server" where
  "chat_open sid s =
     (if jm_has (cg_data s) sid then s
      else s\<lparr>cg_data := AList.update sid \<lparr>sd_connected = True, sd_user = None, sd_pendingTargetLang = None\<rparr> (cg_data s),
             cg_resolving := cg_resolving s @ [sid]\<rparr>)"

text \<open>The socket goes down, by itself or by \<open>client.disconnect()\<close>, and \<open>handleDisconnect\<close> runs.\<close>

definition chat_close :: "socket_id \<Rightarrow> chat_server \<Rightarrow> chat_server" where
  "chat_close sid s =
     (case map_of (cg_data s) sid of None \<Rightarrow> s
      | Some d \<Rightarrow> s\<lparr>cg_data := AList.update sid (d\<lparr>sd_connected := False\<rparr>) (cg_data s),
                   cg_connectedUsers := AList.delete sid (cg_connectedUsers s)\<rparr>)"

definition initial_lang :: "socket_data \<Rightarrow> chat_user \<Rightarrow> string option" where
  "initial_lang d user =
     (case sd_pendingTargetLang d of Some l \<Rightarrow> l | None \<Rightarrow> Some (effectiveLang (Some (cu_language user))))"

text \<open>\<open>handleConnection\<close> after \<open>resolveUser\<close>.\<close>

definition chat_resolved :: "nat \<Rightarrow> chat_user option \<Rightarrow> chat_server \<Rightarrow> chat_server" where
  "chat_resolved i user s =
     (if i \<ge> length (cg_resolving s) then s
      else (let sid = cg_resolving s ! i; s = s\<lparr>cg_resolving := without_nth i (cg_resolving s)\<rparr>
            in if \<not> chat_connected s sid then s
               else (case user of
                       None \<Rightarrow> chat_close sid (chat_emit (OutDisconnect sid) s)
                     | Some u \<Rightarrow>
                         (let d = the (map_of (cg_data s) sid); targetLang = initial_lang d u
                          in s\<lparr>cg_data := AList.update sid (d\<lparr>sd_user := Some u, sd_pendingTargetLang := None\<rparr>) (cg_data s),
                               cg_connectedUsers := AList.update sid
                                 \<lparr>cn_nickname = cu_nickname u, cn_language = cu_language u, cn_targetLang = targetLang\<rparr>
                                 (cg_connectedUsers s),
                               cg_reading := cg_reading s @ [(sid, targetLang)]\<rparr>))))"

text \<open>\<open>getRecentMessages\<close>: inner join with the users, the newest 200 of the last week, oldest first.\<close>

definition getRecentMessages :: "(int \<Rightarrow> chat_user option) \<Rightarrow> millis \<Rightarrow> message_row list \<Rightarrow> message_row list" where
  "getRecentMessages users now table =
     (let since = now - CHAT_HISTORY_DAYS * 86400000;
          rows = filter (\<lambda>m. users (mr_userId m) \<noteq> None \<and> since < mr_createdAt m) table;
          newestFirst = take CHAT_HISTORY_LIMIT (rev (sort_key mr_createdAt rows))
      in rev newestFirst)"

definition message_payload :: "message_row \<Rightarrow> chat_user \<Rightarrow> chat_payload" where
  "message_payload m u =
     \<lparr>cp_id = mr_id m, cp_nickname = cu_nickname u, cp_allianceName = cu_allianceName u,
      cp_language = cu_language u, cp_content = mr_content m, cp_createdAt = mr_createdAt m\<rparr>"

text \<open>The history has been read, or reading failed.\<close>

definition chat_rows :: "(int \<Rightarrow> chat_user option) \<Rightarrow> millis \<Rightarrow> bool \<Rightarrow> nat \<Rightarrow> chat_server \<Rightarrow> chat_server" where
  "chat_rows users now ok i s =
     (if i \<ge> length (cg_reading s) then s
      else (case cg_reading s ! i of
              (sid, targetLang) \<Rightarrow>
                (let s = s\<lparr>cg_reading := without_nth i (cg_reading s)\<rparr>
                 in if \<not> chat_connected s sid then s
                    else if \<not> ok then chat_emit (OutHistoryError sid) s
                    else s\<lparr>cg_attaching := cg_attaching s @
                             [(sid, getRecentMessages users now (cg_messages s),
                               lang_set_add targetLang (onlineTargetLangs s))]\<rparr>)))"

text \<open>Its translations have been read too.\<close>

definition chat_attached :: "(int \<Rightarrow> chat_user option) \<Rightarrow> db_io \<Rightarrow> nat \<Rightarrow> chat_server \<Rightarrow> chat_server" where
  "chat_attached users io i s =
     (if i \<ge> length (cg_attaching s) then s
      else (case cg_attaching s ! i of
              (sid, history, langs) \<Rightarrow>
                (let s = s\<lparr>cg_attaching := without_nth i (cg_attaching s)\<rparr>;
                     translations = attachHistory io (fl_table (cg_flow s)) (map mr_id history) langs
                 in if \<not> chat_connected s sid then s
                    else chat_emit (OutHistory sid
                           (map (\<lambda>m. (message_payload m (the (users (mr_userId m))),
                                     case map_of translations (mr_id m) of None \<Rightarrow> [] | Some t \<Rightarrow> t)) history)) s)))"

subsection \<open>The language of a socket\<close>

text \<open>What a report says: nothing valid, \<open>null\<close>, or a language.\<close>

definition reported_lang :: "jsval \<Rightarrow> string option option" where
  "reported_lang body =
     (case body of
        JObj m \<Rightarrow> (case map_of m (lit ''lang'') of
                    Some JNull \<Rightarrow> Some None
                  | Some (JStr l) \<Rightarrow> map_option Some (List.find (\<lambda>t. lit t = l) TARGET_LANGS)
                  | _ \<Rightarrow> None)
      | _ \<Rightarrow> None)"

definition handleLanguage :: "socket_id \<Rightarrow> jsval \<Rightarrow> chat_server \<Rightarrow> chat_server" where
  "handleLanguage sid body s =
     (case reported_lang body of
        None \<Rightarrow> s
      | Some targetLang \<Rightarrow>
          (case map_of (cg_connectedUsers s) sid of
             Some entry \<Rightarrow>
               s\<lparr>cg_connectedUsers := AList.update sid (entry\<lparr>cn_targetLang := targetLang\<rparr>) (cg_connectedUsers s)\<rparr>
           | None \<Rightarrow>
               s\<lparr>cg_data := AList.update sid
                  ((the (map_of (cg_data s) sid))\<lparr>sd_pendingTargetLang := Some targetLang\<rparr>) (cg_data s)\<rparr>))"

subsection \<open>A message\<close>

definition chat_rate_key :: "int \<Rightarrow> socket_id" where
  "chat_rate_key userId = ''chat-user:'' @ map char_of (js_show_int userId)"

definition message_rejects :: "jstring \<Rightarrow> bool" where
  "message_rejects normalized \<longleftrightarrow> normalized = [] \<or> CHAT_MESSAGE_MAX_LENGTH < length (code_points normalized)"

definition handleMessage :: "millis \<Rightarrow> socket_id \<Rightarrow> jsval \<Rightarrow> chat_server \<Rightarrow> chat_server" where
  "handleMessage now sid content s =
     (case (sd_user (the (map_of (cg_data s) sid)), content) of
        (Some user, JStr raw) \<Rightarrow>
          (let normalized = js_trim raw
           in if message_rejects normalized then chat_emit (OutAck sid AckInvalid) s
              else (case ws_check now (chat_rate_key (cu_id user)) ''chat:message'' CHAT_MESSAGE_RATE_LIMIT
                           CHAT_MESSAGE_RATE_WINDOW_MS (cg_limits s) of
                      (ok, limits) \<Rightarrow>
                        (let s = s\<lparr>cg_limits := limits\<rparr>
                         in if \<not> ok then chat_emit (OutAck sid AckRateLimit) s
                            else s\<lparr>cg_saving := cg_saving s @
                                   [\<lparr>sv_socket = sid, sv_user = user, sv_content = normalized, sv_createdAt = now\<rparr>]\<rparr>)))
      | _ \<Rightarrow> chat_emit (OutAck sid AckInvalid) s)"

text \<open>The insert of \<open>saveMessage\<close>: the database runs it, or refuses.\<close>

definition chat_insert :: "bool \<Rightarrow> nat \<Rightarrow> chat_server \<Rightarrow> chat_server" where
  "chat_insert ok i s =
     (if i \<ge> length (cg_saving s) then s
      else (let task = cg_saving s ! i; s = s\<lparr>cg_saving := without_nth i (cg_saving s)\<rparr>
            in if \<not> ok then chat_emit (OutAck (sv_socket task) AckFailed) s
               else (let row = \<lparr>mr_id = cg_nextId s, mr_userId = cu_id (sv_user task),
                                mr_content = sv_content task, mr_createdAt = sv_createdAt task\<rparr>
                     in s\<lparr>cg_messages := cg_messages s @ [row], cg_nextId := cg_nextId s + 1,
                          cg_inserted := cg_inserted s @ [(task, row)]\<rparr>)))"

text \<open>Its answer: the broadcast, the start of the translation, and the acknowledgement.\<close>

definition chat_saved :: "nat \<Rightarrow> chat_server \<Rightarrow> chat_server" where
  "chat_saved i s =
     (if i \<ge> length (cg_inserted s) then s
      else (case cg_inserted s ! i of
              (task, row) \<Rightarrow>
                (let s = chat_emit (OutMessage (message_payload row (sv_user task)))
                           (s\<lparr>cg_inserted := without_nth i (cg_inserted s)\<rparr>)
                 in chat_emit (OutAck (sv_socket task) AckOk)
                      (s\<lparr>cg_translating := cg_translating s @ [(mr_id row, mr_content row, onlineTargetLangs s)]\<rparr>))))"

definition translation_message :: "int \<Rightarrow> chat_result \<Rightarrow> translation_payload" where
  "translation_message i result =
     \<lparr>tp_id = i, tp_translations = ct_translations result,
      tp_failed = (if ct_failed result \<noteq> [] then Some (ct_failed result) else None),
      tp_error = (if ct_failed result \<noteq> [] then ct_error result else None)\<rparr>"

text \<open>\<open>translateAndPush\<close>.\<close>

definition chat_translated ::
    "script_classes \<Rightarrow> engine_rt \<Rightarrow> db_io \<Rightarrow> tq_result \<Rightarrow> nat \<Rightarrow> chat_server \<Rightarrow> chat_server" where
  "chat_translated cl rt io adm i s =
     (if i \<ge> length (cg_translating s) then s
      else (case cg_translating s ! i of
              (mid, content, langs) \<Rightarrow>
                (case translateForMessage cl rt io adm mid content langs (cg_flow s) of
                   (result, fl) \<Rightarrow>
                     chat_emit (OutTranslation (translation_message mid result))
                       (s\<lparr>cg_translating := without_nth i (cg_translating s), cg_flow := fl\<rparr>))))"

subsection \<open>Runs\<close>

datatype chat_op =
    CoOpen socket_id
  | CoClose socket_id
  | CoResolved nat "chat_user option"
  | CoRows bool nat
  | CoAttached db_io nat
  | CoLanguage socket_id jsval
  | CoMessage socket_id jsval
  | CoInsert bool nat
  | CoSaved nat
  | CoTranslated db_io tq_result nat

record chat_env =
  ce_classes :: script_classes
  ce_engine :: engine_rt
  ce_users :: "int \<Rightarrow> chat_user option"

text \<open>A socket that is down sends nothing.\<close>

definition chat_exec :: "chat_env \<Rightarrow> millis \<Rightarrow> chat_op \<Rightarrow> chat_server \<Rightarrow> chat_server" where
  "chat_exec env now op s =
     (case op of
        CoOpen sid \<Rightarrow> chat_open sid s
      | CoClose sid \<Rightarrow> chat_close sid s
      | CoResolved i user \<Rightarrow> chat_resolved i user s
      | CoRows ok i \<Rightarrow> chat_rows (ce_users env) now ok i s
      | CoAttached io i \<Rightarrow> chat_attached (ce_users env) io i s
      | CoLanguage sid body \<Rightarrow> if chat_connected s sid then handleLanguage sid body s else s
      | CoMessage sid content \<Rightarrow> if chat_connected s sid then handleMessage now sid content s else s
      | CoInsert ok i \<Rightarrow> chat_insert ok i s
      | CoSaved i \<Rightarrow> chat_saved i s
      | CoTranslated io adm i \<Rightarrow> chat_translated (ce_classes env) (ce_engine env) io adm i s)"

fun chat_run :: "chat_env \<Rightarrow> millis \<Rightarrow> (nat \<times> chat_op) list \<Rightarrow> chat_server \<Rightarrow> millis \<times> chat_server" where
  "chat_run env now [] s = (now, s)"
| "chat_run env now ((dt, op) # ops) s = chat_run env (now + int dt) ops (chat_exec env (now + int dt) op s)"

lemma chat_run_append:
  "chat_run env now (a @ b) s = (case chat_run env now a s of (now', s') \<Rightarrow> chat_run env now' b s')"
  by (induction env now a s rule: chat_run.induct) auto

text \<open>An invariant of every operation holds after every run.\<close>

lemma chat_run_invariant:
  assumes "P now s" and "\<And>now dt op s. P now s \<Longrightarrow> P (now + int dt) (chat_exec env (now + int dt) op s)"
    and "chat_run env now ops s = (now', s')"
  shows "P now' s'"
  using assms(1,3)
proof (induction ops arbitrary: now s)
  case (Cons o' ops)
  obtain dt op where o': "o' = (dt, op)" by (cases o')
  show ?case
    by (rule Cons.IH [OF assms(2) [where dt = dt and op = op, OF Cons.prems(1)]]) (use Cons.prems(2) o' in simp)
qed simp

end
