(* ===== verification/ChatServerRules.thy ===== *)
theory ChatServerRules
  imports ChatServer FlowRules
begin

text \<open>
  What the chat server keeps: the bookkeeping of the sockets and their languages, the way of a message from the
  insert over the broadcast to its translation, the rate of a user, and the history.
\<close>

declare map_of_eq_Some_iff [simp del]

subsection \<open>Sockets\<close>

text \<open>
  A socket is waiting for its user, or it is down, or it is registered with a user and a valid language.
\<close>

definition valid_lang :: "string option \<Rightarrow> bool" where
  "valid_lang l \<longleftrightarrow> (case l of None \<Rightarrow> True | Some x \<Rightarrow> x \<in> set TARGET_LANGS)"

definition socket_ok :: "connected_user option \<Rightarrow> bool \<Rightarrow> socket_data \<Rightarrow> bool" where
  "socket_ok entry waits d \<longleftrightarrow>
     (\<forall>l. sd_pendingTargetLang d = Some l \<longrightarrow> valid_lang l) \<and>
     (entry = None \<longrightarrow> sd_connected d \<longrightarrow> waits \<and> sd_user d = None) \<and>
     (\<forall>e. entry = Some e \<longrightarrow> sd_connected d \<and> \<not> waits \<and> sd_user d \<noteq> None \<and> valid_lang (cn_targetLang e))"

definition chat_inv :: "chat_server \<Rightarrow> bool" where
  "chat_inv s \<longleftrightarrow> jm_wf (cg_connectedUsers s) \<and> distinct (cg_resolving s) \<and>
     (\<forall>sid\<in>set (cg_resolving s). jm_has (cg_data s) sid) \<and>
     (\<forall>sid. jm_has (cg_connectedUsers s) sid \<longrightarrow> jm_has (cg_data s) sid) \<and>
     (\<forall>sid d. map_of (cg_data s) sid = Some d \<longrightarrow>
       socket_ok (map_of (cg_connectedUsers s) sid) (sid \<in> set (cg_resolving s)) d)"

definition socket_view where
  "socket_view s = (cg_connectedUsers s, cg_resolving s, cg_data s)"

lemma chat_inv_view: "socket_view s = socket_view s' \<Longrightarrow> chat_inv s = chat_inv s'"
  by (auto simp: socket_view_def chat_inv_def)

lemma chat_connected_view: "socket_view s = socket_view s' \<Longrightarrow> chat_connected s sid = chat_connected s' sid"
  by (simp add: socket_view_def chat_connected_def)

lemma socket_view_emit [simp]: "socket_view (chat_emit o' s) = socket_view s"
  by (simp add: socket_view_def chat_emit_def)

lemma socket_view_frame:
  "socket_view (chat_rows us now ok i s) = socket_view s"
  "socket_view (chat_attached us io i s) = socket_view s"
  "socket_view (handleMessage now sid content s) = socket_view s"
  "socket_view (chat_insert ok i s) = socket_view s"
  "socket_view (chat_saved i s) = socket_view s"
  "socket_view (chat_translated cl rt io adm i s) = socket_view s"
  by (auto simp: socket_view_def chat_emit_def chat_rows_def chat_attached_def handleMessage_def chat_insert_def
      chat_saved_def chat_translated_def Let_def split: prod.splits option.splits jsval.splits)

lemma effective_valid: "valid_lang (Some (effectiveLang l))"
  by (auto simp: valid_lang_def effectiveLang_def TARGET_LANGS_def split: option.splits)

lemma reported_valid: "reported_lang body = Some l \<Longrightarrow> valid_lang l"
  by (auto simp: reported_lang_def valid_lang_def find_Some_iff dest: nth_mem split: jsval.splits option.splits)

lemma socket_okI:
  "socket_ok None True \<lparr>sd_connected = True, sd_user = None, sd_pendingTargetLang = None\<rparr>"
  "socket_ok e' w d \<Longrightarrow> socket_ok None w' (d\<lparr>sd_connected := False\<rparr>)"
  "socket_ok (Some e) w d \<Longrightarrow> valid_lang l \<Longrightarrow> socket_ok (Some (e\<lparr>cn_targetLang := l\<rparr>)) w d"
  "socket_ok None w d \<Longrightarrow> valid_lang l \<Longrightarrow> socket_ok None w (d\<lparr>sd_pendingTargetLang := Some l\<rparr>)"
  "sd_connected d \<Longrightarrow> valid_lang (cn_targetLang e) \<Longrightarrow>
     socket_ok (Some e) False (d\<lparr>sd_user := Some u, sd_pendingTargetLang := None\<rparr>)"
  by (auto simp: socket_ok_def)

lemma chat_inv_socket:
  assumes "chat_inv s" "map_of (cg_data s) sid = Some d"
  shows "socket_ok (map_of (cg_connectedUsers s) sid) (sid \<in> set (cg_resolving s)) d"
  using assms unfolding chat_inv_def by blast

lemma chat_inv_absent: "chat_inv s \<Longrightarrow> map_of (cg_data s) sid = None \<Longrightarrow> map_of (cg_connectedUsers s) sid = None"
  unfolding chat_inv_def by blast

lemma chat_inv_open: "chat_inv s \<Longrightarrow> chat_inv (chat_open sid s)"
  using chat_inv_absent [of s sid] by (auto simp: chat_inv_def chat_open_def socket_okI)

lemma chat_inv_close: "chat_inv s \<Longrightarrow> chat_inv (chat_close sid s)"
  using chat_inv_socket [of s sid, THEN socket_okI(2)]
  by (auto simp: chat_inv_def chat_close_def split: option.splits)

lemma chat_inv_language:
  "chat_inv s \<Longrightarrow> chat_connected s sid \<Longrightarrow> chat_inv (handleLanguage sid body s)"
  by (auto simp: chat_inv_def handleLanguage_def chat_connected_def reported_valid intro!: socket_okI split: option.splits)
    (metis option.distinct(1))+

text \<open>Taking a socket out of the list of those that wait.\<close>

lemma initial_valid: "socket_ok e w d \<Longrightarrow> valid_lang (initial_lang d u)"
  by (auto simp: socket_ok_def initial_lang_def effective_valid split: option.splits)

lemma chat_inv_resolved:
  assumes inv: "chat_inv s"
  shows "chat_inv (chat_resolved i user s)"
proof (cases "i < length (cg_resolving s)")
  case True
  define sid where "sid = cg_resolving s ! i"
  define rest where "rest = without_nth i (cg_resolving s)"
  have mem: "sid \<in> set (cg_resolving s)" using True by (simp add: sid_def)
  obtain d where d: "map_of (cg_data s) sid = Some d" using inv mem by (auto simp: chat_inv_def)
  have wn: "distinct rest" "sid \<notin> set rest"
    using without_nth_distinct [of "cg_resolving s" i] inv True by (auto simp: chat_inv_def sid_def rest_def)
  have sub: "set (cg_resolving s) = insert sid (set rest)"
    using without_nth_mset [OF True] by (metis set_mset_add_mset_insert set_mset_mset sid_def rest_def)
  have sd: "socket_ok (map_of (cg_connectedUsers s) sid) True d" using chat_inv_socket [OF inv d] mem by simp
  have closed: "socket_ok None w (d\<lparr>sd_connected := False\<rparr>)" for w using sd by (rule socket_okI)
  have other: "socket_ok (map_of (cg_connectedUsers s) x) (x \<in> set rest) d'"
    if "x \<noteq> sid" "map_of (cg_data s) x = Some d'" for x d'
    using chat_inv_socket [OF inv that(2)] that(1) by (simp add: sub)
  have off: "socket_ok (map_of (cg_connectedUsers s) sid) False d" if "\<not> sd_connected d"
    using sd that by (auto simp: socket_ok_def)
  have base: "jm_wf (cg_connectedUsers s)" "\<forall>x\<in>set rest. jm_has (cg_data s) x"
    "\<forall>x. jm_has (cg_connectedUsers s) x \<longrightarrow> jm_has (cg_data s) x"
    using inv by (auto simp: chat_inv_def sub)
  consider (down) "\<not> sd_connected d" | (none) "sd_connected d" "user = None" | (some) u where "sd_connected d" "user = Some u"
    by (cases user) auto
  then show ?thesis
  proof cases
    case down
    then have "chat_resolved i user s = s\<lparr>cg_resolving := rest\<rparr>"
      using True d by (simp add: chat_resolved_def Let_def sid_def rest_def chat_connected_def)
    moreover have "socket_ok (map_of (cg_connectedUsers s) x) (x \<in> set rest) d'" if "map_of (cg_data s) x = Some d'" for x d'
      using that other [of x d'] off d wn(2) down by (cases "x = sid") auto
    ultimately show ?thesis using base wn by (auto simp: chat_inv_def)
  next
    case none
    then have "chat_resolved i user s = chat_close sid (chat_emit (OutDisconnect sid) (s\<lparr>cg_resolving := rest\<rparr>))"
      using True d by (simp add: chat_resolved_def Let_def sid_def rest_def chat_connected_def)
    then show ?thesis using base wn other closed d by (auto simp: chat_inv_def chat_close_def chat_emit_def)
  next
    case some
    define e where "e = \<lparr>cn_nickname = cu_nickname u, cn_language = cu_language u, cn_targetLang = initial_lang d u\<rparr>"
    have "chat_resolved i user s =
        s\<lparr>cg_resolving := rest, cg_data := AList.update sid (d\<lparr>sd_user := Some u, sd_pendingTargetLang := None\<rparr>) (cg_data s),
          cg_connectedUsers := AList.update sid e (cg_connectedUsers s),
          cg_reading := cg_reading s @ [(sid, initial_lang d u)]\<rparr>"
      using True d some by (simp add: chat_resolved_def Let_def sid_def rest_def chat_connected_def e_def)
    moreover have "socket_ok (Some e) False (d\<lparr>sd_user := Some u, sd_pendingTargetLang := None\<rparr>)"
      using some(1) initial_valid [OF sd] by (intro socket_okI) (auto simp: e_def)
    ultimately show ?thesis using base wn other by (auto simp: chat_inv_def)
  qed
qed (simp add: chat_resolved_def assms)

lemma chat_inv_exec: "chat_inv s \<Longrightarrow> chat_inv (chat_exec env now op s)"
  by (cases op)
    (auto simp: chat_exec_def chat_inv_open chat_inv_close chat_inv_resolved chat_inv_language
      chat_inv_view [OF socket_view_frame(1)] chat_inv_view [OF socket_view_frame(2)]
      chat_inv_view [OF socket_view_frame(3)] chat_inv_view [OF socket_view_frame(4)]
      chat_inv_view [OF socket_view_frame(5)] chat_inv_view [OF socket_view_frame(6)])

lemma chat_inv_start: "chat_inv (chat_start fl)"
  by (simp add: chat_inv_def chat_start_def)

lemma chat_inv_run: "chat_run env now ops (chat_start fl) = (now', s) \<Longrightarrow> chat_inv s"
  by (rule chat_run_invariant [where P = "\<lambda>_. chat_inv"]) (auto simp: chat_inv_start chat_inv_exec)

lemma online_set: "set (onlineTargetLangs s) = {l. \<exists>e\<in>set (cg_connectedUsers s). cn_targetLang (snd e) = Some l}"
proof -
  have "set (fold (\<lambda>e. lang_set_add (cn_targetLang (snd e))) m acc) =
      set acc \<union> {l. \<exists>e\<in>set m. cn_targetLang (snd e) = Some l}" for m :: "(socket_id, connected_user) jmap" and acc
    by (induction m arbitrary: acc) (auto simp: lang_set_add_def split: option.splits)
  then show ?thesis by (simp add: onlineTargetLangs_def)
qed


lemma online_distinct: "distinct (onlineTargetLangs s)"
proof -
  have "distinct acc \<Longrightarrow> distinct (fold (\<lambda>e. lang_set_add (cn_targetLang (snd e))) m acc)"
    for m :: "(socket_id, connected_user) jmap" and acc
    by (induction m arbitrary: acc) (auto simp: lang_set_add_def split: option.splits)
  then show ?thesis by (simp add: onlineTargetLangs_def)
qed

lemma registered_connected:
  assumes "chat_inv s" "map_of (cg_connectedUsers s) sid = Some e"
  shows "chat_connected s sid \<and> valid_lang (cn_targetLang e)"
proof -
  obtain d where d: "map_of (cg_data s) sid = Some d" using assms chat_inv_absent by fastforce
  show ?thesis using chat_inv_socket [OF assms(1) d] assms(2) d by (auto simp: socket_ok_def chat_connected_def)
qed

subsection \<open>The way of a message\<close>

definition sent_messages :: "chat_server \<Rightarrow> chat_payload list" where
  "sent_messages s = List.map_filter (\<lambda>x. case x of OutMessage p \<Rightarrow> Some p | _ \<Rightarrow> None) (cg_out s)"

definition sent_translations :: "chat_server \<Rightarrow> translation_payload list" where
  "sent_translations s = List.map_filter (\<lambda>x. case x of OutTranslation p \<Rightarrow> Some p | _ \<Rightarrow> None) (cg_out s)"

lemma map_filter_snoc: "List.map_filter f (xs @ [x]) = List.map_filter f xs @ (case f x of None \<Rightarrow> [] | Some y \<Rightarrow> [y])"
  by (simp add: List.map_filter_def split: option.splits)

lemma sent_emit [simp]:
  "sent_messages (chat_emit x s) = sent_messages s @ (case x of OutMessage p \<Rightarrow> [p] | _ \<Rightarrow> [])"
  "sent_translations (chat_emit x s) = sent_translations s @ (case x of OutTranslation p \<Rightarrow> [p] | _ \<Rightarrow> [])"
  by (auto simp: sent_messages_def sent_translations_def chat_emit_def map_filter_snoc split: chat_out.splits)

lemma sent_eq: "cg_out s = cg_out s' \<Longrightarrow> sent_messages s = sent_messages s' \<and> sent_translations s = sent_translations s'"
  by (simp add: sent_messages_def sent_translations_def)

definition delivery_view where
  "delivery_view s = (cg_messages s, cg_nextId s, cg_inserted s, cg_translating s, sent_messages s, sent_translations s)"

text \<open>A payload shows its row, and the row belongs to the author.\<close>

definition shows_row :: "message_row list \<Rightarrow> chat_payload \<Rightarrow> bool" where
  "shows_row table p \<longleftrightarrow> (\<exists>m\<in>set table. \<exists>u. mr_userId m = cu_id u \<and> p = message_payload m u)"

definition delivery_inv :: "chat_server \<Rightarrow> bool" where
  "delivery_inv s \<longleftrightarrow>
     mset (map mr_id (cg_messages s)) =
       mset (map cp_id (sent_messages s)) + mset (map (mr_id \<circ> snd) (cg_inserted s)) \<and>
     mset (map cp_id (sent_messages s)) =
       mset (map tp_id (sent_translations s)) + mset (map fst (cg_translating s)) \<and>
     distinct (map mr_id (cg_messages s)) \<and> (\<forall>m\<in>set (cg_messages s). mr_id m < cg_nextId s) \<and>
     (\<forall>p\<in>set (cg_inserted s). snd p \<in> set (cg_messages s) \<and> mr_userId (snd p) = cu_id (sv_user (fst p))) \<and>
     (\<forall>p\<in>set (sent_messages s). shows_row (cg_messages s) p)"

lemma delivery_inv_view: "delivery_view s = delivery_view s' \<Longrightarrow> delivery_inv s = delivery_inv s'"
  by (simp add: delivery_view_def delivery_inv_def)

lemma delivery_view_emit:
  "(case x of OutMessage _ \<Rightarrow> False | OutTranslation _ \<Rightarrow> False | _ \<Rightarrow> True) \<Longrightarrow>
   delivery_view (chat_emit x s) = delivery_view s"
  by (auto simp: delivery_view_def split: chat_out.splits) (auto simp: chat_emit_def)

lemma delivery_view_cong:
  "cg_messages s = cg_messages s' \<Longrightarrow> cg_nextId s = cg_nextId s' \<Longrightarrow> cg_inserted s = cg_inserted s' \<Longrightarrow>
   cg_translating s = cg_translating s' \<Longrightarrow> cg_out s = cg_out s' \<Longrightarrow> delivery_view s = delivery_view s'"
  by (simp add: delivery_view_def sent_messages_def sent_translations_def)

lemma delivery_view_close: "delivery_view (chat_close sid s) = delivery_view s"
  by (auto simp: chat_close_def intro!: delivery_view_cong split: option.splits)

lemma delivery_view_frame:
  "delivery_view (chat_open sid s) = delivery_view s"
  "delivery_view (chat_resolved i user s) = delivery_view s"
  "delivery_view (chat_rows us now ok i s) = delivery_view s"
  "delivery_view (chat_attached us io i s) = delivery_view s"
  "delivery_view (handleLanguage sid body s) = delivery_view s"
  "delivery_view (handleMessage now sid content s) = delivery_view s"
  by (auto simp: chat_open_def chat_resolved_def chat_rows_def chat_attached_def handleLanguage_def handleMessage_def
      Let_def delivery_view_close delivery_view_emit intro!: delivery_view_cong
      split: prod.splits option.splits jsval.splits)

lemma delivery_insert:
  assumes inv: "delivery_inv s"
  shows "delivery_inv (chat_insert ok i s)"
proof (cases "ok \<and> i < length (cg_saving s)")
  case True
  define row where "row = \<lparr>mr_id = cg_nextId s, mr_userId = cu_id (sv_user (cg_saving s ! i)),
      mr_content = sv_content (cg_saving s ! i), mr_createdAt = sv_createdAt (cg_saving s ! i)\<rparr>"
  define t where "t = chat_insert ok i s"
  have t: "cg_messages t = cg_messages s @ [row]" "cg_nextId t = cg_nextId s + 1"
    "cg_inserted t = cg_inserted s @ [(cg_saving s ! i, row)]" "cg_translating t = cg_translating s"
    "sent_messages t = sent_messages s" "sent_translations t = sent_translations s"
    using True by (simp_all add: t_def chat_insert_def Let_def row_def sent_messages_def sent_translations_def)
  have "shows_row (cg_messages t) p" if "shows_row (cg_messages s) p" for p
    using that by (auto simp: shows_row_def t(1))
  then show ?thesis using inv unfolding t_def [symmetric] delivery_inv_def t by (auto simp: row_def)
next
  case False
  then have "delivery_view (chat_insert ok i s) = delivery_view s"
    by (auto simp: chat_insert_def Let_def delivery_view_emit intro!: delivery_view_cong)
  then show ?thesis using inv delivery_inv_view by blast
qed

lemma delivery_saved:
  assumes inv: "delivery_inv s"
  shows "delivery_inv (chat_saved i s)"
proof (cases "i < length (cg_inserted s)")
  case True
  obtain task row where tr: "cg_inserted s ! i = (task, row)" by (cases "cg_inserted s ! i") auto
  have mem: "(task, row) \<in> set (cg_inserted s)" using True tr by (metis nth_mem)
  define t where "t = chat_saved i s"
  have t: "cg_messages t = cg_messages s" "cg_nextId t = cg_nextId s"
    "cg_inserted t = without_nth i (cg_inserted s)"
    "map fst (cg_translating t) = map fst (cg_translating s) @ [mr_id row]"
    "sent_messages t = sent_messages s @ [message_payload row (sv_user task)]"
    "sent_translations t = sent_translations s"
    using True tr
    by (simp_all add: t_def chat_saved_def Let_def chat_emit_def sent_messages_def sent_translations_def
        List.map_filter_def)
  have ms: "mset (map (mr_id \<circ> snd) (cg_inserted s)) =
      add_mset (mr_id row) (mset (map (mr_id \<circ> snd) (without_nth i (cg_inserted s))))"
    using without_nth_mset [OF True] tr by simp
  have row: "row \<in> set (cg_messages s)" "mr_userId row = cu_id (sv_user task)"
    using inv mem by (auto simp: delivery_inv_def)
  have "shows_row (cg_messages s) (message_payload row (sv_user task))"
    using row by (auto simp: shows_row_def)
  moreover have "cp_id (message_payload row (sv_user task)) = mr_id row" by (simp add: message_payload_def)
  ultimately show ?thesis
    using inv ms unfolding t_def [symmetric] delivery_inv_def t by (auto dest: without_nth_set)
qed (simp add: chat_saved_def inv)

lemma delivery_translated:
  assumes inv: "delivery_inv s"
  shows "delivery_inv (chat_translated cl rt io adm i s)"
proof (cases "i < length (cg_translating s)")
  case True
  obtain mid content langs where tr: "cg_translating s ! i = (mid, content, langs)"
    by (cases "cg_translating s ! i") auto
  obtain r fl where fl: "translateForMessage cl rt io adm mid content langs (cg_flow s) = (r, fl)"
    by (cases "translateForMessage cl rt io adm mid content langs (cg_flow s)") auto
  define t where "t = chat_translated cl rt io adm i s"
  have t: "cg_messages t = cg_messages s" "cg_nextId t = cg_nextId s" "cg_inserted t = cg_inserted s"
    "cg_translating t = without_nth i (cg_translating s)" "sent_messages t = sent_messages s"
    "sent_translations t = sent_translations s @ [translation_message mid r]"
    using True tr fl
    by (simp_all add: t_def chat_translated_def chat_emit_def sent_messages_def sent_translations_def map_filter_snoc)
  have "mset (map fst (cg_translating s)) = add_mset mid (mset (map fst (without_nth i (cg_translating s))))"
    using without_nth_mset [OF True] tr by simp
  moreover have "tp_id (translation_message mid r) = mid" by (simp add: translation_message_def)
  ultimately show ?thesis using inv unfolding t_def [symmetric] delivery_inv_def t by auto
qed (simp add: chat_translated_def inv)

lemma delivery_exec: "delivery_inv s \<Longrightarrow> delivery_inv (chat_exec env now op s)"
  by (cases op)
    (auto simp: chat_exec_def delivery_insert delivery_saved delivery_translated
      delivery_inv_view [OF delivery_view_close] delivery_inv_view [OF delivery_view_frame(1)]
      delivery_inv_view [OF delivery_view_frame(2)] delivery_inv_view [OF delivery_view_frame(3)]
      delivery_inv_view [OF delivery_view_frame(4)] delivery_inv_view [OF delivery_view_frame(5)]
      delivery_inv_view [OF delivery_view_frame(6)])

lemma delivery_start: "delivery_inv (chat_start fl)"
  by (simp add: chat_start_def delivery_inv_def sent_messages_def sent_translations_def List.map_filter_def)

lemma delivery_run: "chat_run env now ops (chat_start fl) = (now', s) \<Longrightarrow> delivery_inv s"
  by (rule chat_run_invariant [where P = "\<lambda>_. delivery_inv"]) (auto simp: delivery_exec delivery_start)


subsection \<open>The rate of a user\<close>

lemma js_show_int_inject: "js_show_int a = js_show_int b \<Longrightarrow> a = b"
proof -
  have hd: "hd (js_show_nat n) \<noteq> 45" for n
  proof -
    have "js_digit (hd (js_show_nat n))" using js_show_nat_digits [of n] by (cases "js_show_nat n") (auto simp: js_all_digits_def)
    then show ?thesis by (auto simp: js_digit_def)
  qed
  assume "js_show_int a = js_show_int b"
  then show ?thesis using hd [of "nat a"] hd [of "nat b"]
    by (auto simp: js_show_int_def split: if_splits) (metis list.sel(1))+
qed

lemma js_show_int_small: "u \<in> set (js_show_int i) \<Longrightarrow> u < 256"
  using js_show_nat_digits [of "nat i"] js_show_nat_digits [of "nat (- i)"]
  by (auto simp: js_show_int_def js_all_digits_def list_all_iff js_digit_def split: if_splits)

lemma chat_rate_key_inject: "chat_rate_key a = chat_rate_key b \<longleftrightarrow> a = b"
proof
  assume "chat_rate_key a = chat_rate_key b"
  then have "map (char_of :: nat \<Rightarrow> char) (js_show_int a) = map char_of (js_show_int b)" by (simp add: chat_rate_key_def)
  then have "map (of_char \<circ> (char_of :: nat \<Rightarrow> char)) (js_show_int a) = (map (of_char \<circ> char_of) (js_show_int b) :: nat list)"
    by (metis list.map_comp)
  moreover have "map (of_char \<circ> (char_of :: nat \<Rightarrow> char)) (js_show_int i) = js_show_int i" for i
    using js_show_int_small [of _ i] by (intro map_idI) (simp add: of_char_of)
  ultimately show "a = b" using js_show_int_inject by metis
qed simp

definition user_times :: "int \<Rightarrow> chat_server \<Rightarrow> millis multiset" where
  "user_times u s =
     mset (map mr_createdAt (filter (\<lambda>m. mr_userId m = u) (cg_messages s))) +
     mset (map sv_createdAt (filter (\<lambda>t. cu_id (sv_user t) = u) (cg_saving s)))"

abbreviation chat_log_inv where
  "chat_log_inv \<equiv> ws_log.log_inv CHAT_MESSAGE_RATE_WINDOW_MS CHAT_MESSAGE_RATE_LIMIT"

definition rate_inv :: "millis \<Rightarrow> chat_server \<Rightarrow> bool" where
  "rate_inv now s \<longleftrightarrow>
     (\<forall>u. \<exists>past. chat_log_inv now past (ws_times (cg_limits s) (chat_rate_key u) ''chat:message'') \<and>
        user_times u s \<subseteq># mset past)"

definition rate_view where
  "rate_view s = (cg_limits s, cg_messages s, cg_saving s)"

lemma rate_inv_frame:
  assumes "rate_inv now s" "rate_view s' = rate_view s" "now \<le> now'"
  shows "rate_inv now' s'"
proof -
  have "cg_limits s' = cg_limits s" "user_times u s' = user_times u s" for u
    using assms(2) by (simp_all add: rate_view_def user_times_def)
  then show ?thesis using assms(1) ws_log.log_inv_later [OF _ assms(3)] unfolding rate_inv_def by metis
qed

lemma rate_view_emit [simp]: "rate_view (chat_emit x s) = rate_view s"
  by (simp add: rate_view_def chat_emit_def)

lemma rate_view_frame:
  "rate_view (chat_open sid s) = rate_view s"
  "rate_view (chat_close sid s) = rate_view s"
  "rate_view (chat_resolved i user s) = rate_view s"
  "rate_view (chat_rows us now ok i s) = rate_view s"
  "rate_view (chat_attached us io i s) = rate_view s"
  "rate_view (handleLanguage sid body s) = rate_view s"
  "rate_view (chat_saved i s) = rate_view s"
  "rate_view (chat_translated cl rt io adm i s) = rate_view s"
  by (auto simp: rate_view_def chat_emit_def chat_rows_def chat_attached_def chat_open_def chat_close_def
      chat_resolved_def handleLanguage_def chat_saved_def chat_translated_def Let_def split: prod.splits option.splits)

lemma rate_inv_less:
  assumes "rate_inv now s" "cg_limits s' = cg_limits s" "\<And>u. user_times u s' \<subseteq># user_times u s"
  shows "rate_inv now s'"
proof -
  have "\<exists>past. chat_log_inv now past (ws_times (cg_limits s') (chat_rate_key u) ''chat:message'') \<and> user_times u s' \<subseteq># mset past" for u
  proof -
    obtain past where "chat_log_inv now past (ws_times (cg_limits s) (chat_rate_key u) ''chat:message'')"
      "user_times u s \<subseteq># mset past" using assms(1) unfolding rate_inv_def by blast
    then show ?thesis using assms(2) subset_mset.order_trans [OF assms(3)] by auto
  qed
  then show ?thesis unfolding rate_inv_def by blast
qed

lemma rate_insert:
  assumes inv: "rate_inv now s"
  shows "rate_inv now (chat_insert ok i s)"
proof (cases "i < length (cg_saving s)")
  case True
  define rest where "rest = without_nth i (cg_saving s)"
  have ms: "mset (cg_saving s) = add_mset (cg_saving s ! i) (mset rest)"
    unfolding rest_def by (rule without_nth_mset [OF True])
  have less: "mset (map sv_createdAt (filter (\<lambda>t. cu_id (sv_user t) = u) (cg_saving s))) =
      (if cu_id (sv_user (cg_saving s ! i)) = u then {#sv_createdAt (cg_saving s ! i)#} else {#}) +
      mset (map sv_createdAt (filter (\<lambda>t. cu_id (sv_user t) = u) rest))" for u
    by (simp only: mset_map mset_filter ms) simp
  have "user_times u (chat_insert ok i s) \<subseteq># user_times u s" for u
    using True unfolding user_times_def less
    by (cases ok) (simp_all add: chat_insert_def Let_def chat_emit_def rest_def [symmetric])
  moreover have "cg_limits (chat_insert ok i s) = cg_limits s"
    by (simp add: chat_insert_def Let_def chat_emit_def)
  ultimately show ?thesis using rate_inv_less [OF inv] by blast
qed (simp add: chat_insert_def inv)

lemma rate_message:
  assumes inv: "rate_inv now s"
  shows "rate_inv now (handleMessage now sid content s)"
proof -
  have keep: ?thesis if "rate_view (handleMessage now sid content s) = rate_view s"
    using rate_inv_frame [OF inv that] by simp
  show ?thesis
  proof (cases "\<exists>user raw. sd_user (the (map_of (cg_data s) sid)) = Some user \<and> content = JStr raw \<and> \<not> message_rejects (js_trim raw)")
    case False
    then show ?thesis
      by (intro keep) (auto simp: handleMessage_def Let_def split: option.splits jsval.splits)
  next
    case True
    then obtain user raw where u: "sd_user (the (map_of (cg_data s) sid)) = Some user" "content = JStr raw"
      "\<not> message_rejects (js_trim raw)" by blast
    define key where "key = chat_rate_key (cu_id user)"
    obtain ok limits where ck: "ws_check now key ''chat:message'' CHAT_MESSAGE_RATE_LIMIT CHAT_MESSAGE_RATE_WINDOW_MS
        (cg_limits s) = (ok, limits)" by force
    note st = ws_check_step [OF ck]
    define t where "t = handleMessage now sid content s"
    have t: "cg_limits t = limits" "cg_messages t = cg_messages s"
      "cg_saving t = cg_saving s @ (if ok then [\<lparr>sv_socket = sid, sv_user = user, sv_content = js_trim raw, sv_createdAt = now\<rparr>] else [])"
      using u ck by (simp_all add: t_def handleMessage_def key_def Let_def chat_emit_def)
    show ?thesis unfolding t_def [symmetric] rate_inv_def
    proof
      fix v
      obtain past where past: "chat_log_inv now past (ws_times (cg_limits s) (chat_rate_key v) ''chat:message'')"
        "user_times v s \<subseteq># mset past" using inv unfolding rate_inv_def by blast
      show "\<exists>past. chat_log_inv now past (ws_times (cg_limits t) (chat_rate_key v) ''chat:message'') \<and> user_times v t \<subseteq># mset past"
      proof (cases "v = cu_id user")
        case True
        have "chat_log_inv now (past @ (if ok then [now] else [])) (ws_times limits key ''chat:message'')"
          using ws_log.log_step_inv [OF _ st(1)] past(1) True by (simp add: key_def)
        moreover have "user_times v t \<subseteq># mset (past @ (if ok then [now] else []))"
          using past(2) True by (auto simp: user_times_def t)
        ultimately show ?thesis using True t(1) by (auto simp: key_def)
      next
        case False
        then have "ws_times limits (chat_rate_key v) ''chat:message'' = ws_times (cg_limits s) (chat_rate_key v) ''chat:message''"
          by (intro st(2)) (simp add: key_def chat_rate_key_inject)
        moreover have "user_times v t = user_times v s" using False by (simp add: user_times_def t)
        ultimately show ?thesis using past by (auto simp: t(1))
      qed
    qed
  qed
qed

lemma rate_exec:
  assumes "rate_inv now s"
  shows "rate_inv (now + int dt) (chat_exec env (now + int dt) op s)"
proof -
  have inv: "rate_inv (now + int dt) s" using assms by (rule rate_inv_frame) auto
  show ?thesis
    using rate_inv_frame [OF inv _ order_refl] rate_insert [OF inv] rate_message [OF inv] inv
    by (cases op) (simp_all add: chat_exec_def rate_view_frame)
qed

lemma rate_start: "rate_inv now (chat_start fl)"
  unfolding rate_inv_def
  by (intro allI exI [of _ "[]"])
    (simp add: chat_start_def user_times_def ws_times_def ws_bucket_def ws_event_map_def ws_log.log_inv_start)

lemma rate_run: "chat_run env now ops (chat_start fl) = (now', s) \<Longrightarrow> rate_inv now' s"
  by (rule chat_run_invariant [where P = rate_inv]) (auto simp: rate_exec rate_start)

lemma length_filter_window:
  "length (filter (\<lambda>m. P m \<and> w (f m)) xs) = size (filter_mset w (mset (map f (filter P xs))))"
  by (induction xs) auto

lemma rate_bound:
  assumes "rate_inv now s"
  shows "length (filter (\<lambda>m. mr_userId m = u \<and> T - CHAT_MESSAGE_RATE_WINDOW_MS < mr_createdAt m \<and> mr_createdAt m \<le> T)
    (cg_messages s)) \<le> CHAT_MESSAGE_RATE_LIMIT"
proof -
  define w where "w = (\<lambda>t. T - CHAT_MESSAGE_RATE_WINDOW_MS < t \<and> t \<le> T)"
  obtain past where past: "chat_log_inv now past (ws_times (cg_limits s) (chat_rate_key u) ''chat:message'')"
    "user_times u s \<subseteq># mset past" using assms unfolding rate_inv_def by blast
  have "mset (map mr_createdAt (filter (\<lambda>m. mr_userId m = u) (cg_messages s))) \<subseteq># mset past"
    by (rule subset_mset.order_trans [OF _ past(2)]) (simp add: user_times_def)
  then have "size (filter_mset w (mset (map mr_createdAt (filter (\<lambda>m. mr_userId m = u) (cg_messages s))))) \<le> size (filter_mset w (mset past))"
    by (intro size_mset_mono multiset_filter_mono)
  also have "\<dots> = length (filter w past)" by (metis mset_filter size_mset)
  also have "\<dots> \<le> CHAT_MESSAGE_RATE_LIMIT"
    using past(1) unfolding ws_log.log_inv_def ws_log.in_window_def w_def by blast
  finally show ?thesis unfolding length_filter_window [where w = w, symmetric] by (simp add: w_def)
qed


subsection \<open>The language of a socket\<close>

definition report_step :: "socket_id \<Rightarrow> nat \<times> chat_op \<Rightarrow> string option option \<Rightarrow> string option option" where
  "report_step sid x r =
     (case snd x of
        CoLanguage sid' body \<Rightarrow> if sid' = sid \<and> reported_lang body \<noteq> None then reported_lang body else r
      | _ \<Rightarrow> r)"

text \<open>The last valid report of a socket among some operations.\<close>

definition last_report :: "socket_id \<Rightarrow> (nat \<times> chat_op) list \<Rightarrow> string option option" where
  "last_report sid ops = fold (report_step sid) ops None"

definition lang_or_account :: "string option option \<Rightarrow> chat_user \<Rightarrow> string option" where
  "lang_or_account r u = (case r of Some l \<Rightarrow> l | None \<Rightarrow> Some (effectiveLang (Some (cu_language u))))"

definition lang_ok :: "string option option \<Rightarrow> socket_data \<Rightarrow> connected_user option \<Rightarrow> bool" where
  "lang_ok r d entry \<longleftrightarrow>
     (sd_connected d \<longrightarrow>
        (case entry of
           None \<Rightarrow> sd_pendingTargetLang d = r
         | Some e \<Rightarrow> (\<exists>u. sd_user d = Some u \<and> cn_targetLang e = lang_or_account r u)))"

definition lang_inv :: "socket_id \<Rightarrow> string option option \<Rightarrow> chat_server \<Rightarrow> bool" where
  "lang_inv sid r s \<longleftrightarrow>
     chat_inv s \<and> (\<exists>d. map_of (cg_data s) sid = Some d \<and> lang_ok r d (map_of (cg_connectedUsers s) sid))"

lemma lang_inv_view:
  assumes "socket_view s' = socket_view s"
  shows "lang_inv sid r s' = lang_inv sid r s"
proof -
  have "cg_data s' = cg_data s" "cg_connectedUsers s' = cg_connectedUsers s" using assms by (simp_all add: socket_view_def)
  then show ?thesis using chat_inv_view [OF assms] by (simp add: lang_inv_def)
qed

lemma lang_inv_close: "lang_inv sid r s \<Longrightarrow> lang_inv sid r (chat_close x s)"
  using chat_inv_close [of s x]
  by (cases "x = sid") (auto simp: lang_inv_def chat_close_def lang_ok_def split: option.split)

lemma lang_inv_open: "lang_inv sid r s \<Longrightarrow> lang_inv sid r (chat_open x s)"
  using chat_inv_open [of s x] by (cases "x = sid") (auto simp: lang_inv_def chat_open_def)

lemma lang_inv_language:
  assumes inv: "lang_inv sid r s" and up: "chat_connected s x"
  shows "lang_inv sid (report_step sid (dt, CoLanguage x body) r) (handleLanguage x body s)"
proof (cases "reported_lang body")
  case None
  then show ?thesis using inv by (simp add: handleLanguage_def report_step_def)
next
  case (Some l)
  have ci: "chat_inv (handleLanguage x body s)" using inv up chat_inv_language by (simp add: lang_inv_def)
  obtain d where d: "map_of (cg_data s) sid = Some d" "lang_ok r d (map_of (cg_connectedUsers s) sid)"
    using inv by (auto simp: lang_inv_def)
  show ?thesis
  proof (cases "x = sid")
    case False
    then have "map_of (cg_data (handleLanguage x body s)) sid = Some d"
      "map_of (cg_connectedUsers (handleLanguage x body s)) sid = map_of (cg_connectedUsers s) sid"
      "report_step sid (dt, CoLanguage x body) r = r"
      using d(1) by (simp_all add: handleLanguage_def Some report_step_def split: option.split)
    then show ?thesis using ci d(2) by (simp add: lang_inv_def)
  next
    case True
    then have r: "report_step sid (dt, CoLanguage x body) r = Some l" by (simp add: report_step_def Some)
    show ?thesis
    proof (cases "map_of (cg_connectedUsers s) sid")
      case None
      then have "map_of (cg_data (handleLanguage x body s)) sid = Some (d\<lparr>sd_pendingTargetLang := Some l\<rparr>)"
        "map_of (cg_connectedUsers (handleLanguage x body s)) sid = None"
        using d(1) True by (simp_all add: handleLanguage_def Some)
      then show ?thesis using ci r by (simp add: lang_inv_def lang_ok_def)
    next
      case e: (Some e)
      then have "map_of (cg_data (handleLanguage x body s)) sid = Some d"
        "map_of (cg_connectedUsers (handleLanguage x body s)) sid = Some (e\<lparr>cn_targetLang := l\<rparr>)"
        using d(1) True by (simp_all add: handleLanguage_def Some)
      then show ?thesis using ci r d(2) e by (auto simp: lang_inv_def lang_ok_def lang_or_account_def)
    qed
  qed
qed

lemma lang_inv_resolved:
  assumes inv: "lang_inv sid r s"
  shows "lang_inv sid r (chat_resolved i user s)"
proof (cases "i < length (cg_resolving s)")
  case True
  define x where "x = cg_resolving s ! i"
  have ci: "chat_inv s" using inv by (simp add: lang_inv_def)
  have mem: "x \<in> set (cg_resolving s)" using True by (simp add: x_def)
  then obtain dx where dx: "map_of (cg_data s) x = Some dx" using ci by (auto simp: chat_inv_def)
  have none: "map_of (cg_connectedUsers s) x = None"
    using chat_inv_socket [OF ci dx] mem by (cases "map_of (cg_connectedUsers s) x") (auto simp: socket_ok_def)
  obtain d where d: "map_of (cg_data s) sid = Some d" "lang_ok r d (map_of (cg_connectedUsers s) sid)"
    using inv by (auto simp: lang_inv_def)
  define t where "t = chat_resolved i user s"
  have "chat_inv t" unfolding t_def by (rule chat_inv_resolved [OF ci])
  moreover have "map_of (cg_data t) sid = Some d \<and> map_of (cg_connectedUsers t) sid = map_of (cg_connectedUsers s) sid"
    if "x \<noteq> sid"
    using that d(1) True dx
    by (cases user) (simp_all add: t_def chat_resolved_def Let_def x_def [symmetric] chat_close_def chat_emit_def chat_connected_def)
  moreover have "\<exists>d'. map_of (cg_data t) sid = Some d' \<and> lang_ok r d' (map_of (cg_connectedUsers t) sid)" if "x = sid"
  proof (cases "sd_connected d")
    case False
    then have "map_of (cg_data t) sid = Some d"
      using that d(1) True by (simp add: t_def chat_resolved_def Let_def x_def [symmetric] chat_connected_def)
    then show ?thesis using False by (simp add: lang_ok_def)
  next
    case True
    have "sd_pendingTargetLang d = r" using d(2) none that True by (simp add: lang_ok_def)
    then show ?thesis using that d(1) True \<open>i < length _\<close>
      by (cases user)
        (simp_all add: t_def chat_resolved_def Let_def x_def [symmetric] chat_close_def chat_emit_def chat_connected_def
          lang_ok_def initial_lang_def lang_or_account_def)
  qed
  ultimately show ?thesis using d unfolding lang_inv_def t_def [symmetric] by (cases "x = sid") auto
qed (simp add: chat_resolved_def inv)

lemma lang_inv_down:
  assumes inv: "lang_inv sid r s" and down: "\<not> chat_connected s x"
  shows "lang_inv sid (report_step sid (dt, CoLanguage x body) r) s"
  using assms by (auto simp: lang_inv_def lang_ok_def chat_connected_def report_step_def split: option.splits)

lemma lang_inv_exec:
  assumes inv: "lang_inv sid r s"
  shows "lang_inv sid (report_step sid (dt, op) r) (chat_exec env now op s)"
proof (cases "\<exists>x body. op = CoLanguage x body")
  case True
  then obtain x body where "op = CoLanguage x body" by blast
  then show ?thesis using lang_inv_language [OF inv] lang_inv_down [OF inv] by (simp add: chat_exec_def)
next
  case False
  then have "report_step sid (dt, op) r = r" by (cases op) (simp_all add: report_step_def)
  then show ?thesis
    using False inv lang_inv_close [OF inv] lang_inv_open [OF inv] lang_inv_resolved [OF inv]
    by (cases op) (simp_all add: chat_exec_def lang_inv_view [OF socket_view_frame(1)]
      lang_inv_view [OF socket_view_frame(2)] lang_inv_view [OF socket_view_frame(3)]
      lang_inv_view [OF socket_view_frame(4)] lang_inv_view [OF socket_view_frame(5)]
      lang_inv_view [OF socket_view_frame(6)])
qed

lemma lang_inv_run:
  "lang_inv sid r s \<Longrightarrow> chat_run env now ops s = (now', s') \<Longrightarrow> lang_inv sid (fold (report_step sid) ops r) s'"
proof (induction ops arbitrary: now s r)
  case (Cons x ops)
  obtain dt op where x: "x = (dt, op)" by (cases x)
  show ?case
    using Cons.IH [OF lang_inv_exec [OF Cons.prems(1), of dt op]] Cons.prems(2) by (simp add: x)
qed simp

lemma data_view: "socket_view t = socket_view s \<Longrightarrow> cg_data t = cg_data s"
  by (simp add: socket_view_def)

lemmas data_frame = socket_view_frame [THEN data_view]

lemma data_exec:
  assumes none: "map_of (cg_data s) sid = None" and op: "op \<noteq> CoOpen sid" and inv: "chat_inv s"
  shows "map_of (cg_data (chat_exec env now op s)) sid = None"
proof (cases op)
  case (CoResolved i user)
  have "sid \<noteq> cg_resolving s ! i" if "i < length (cg_resolving s)"
    using inv none nth_mem [OF that] unfolding chat_inv_def by metis
  then show ?thesis using none
    by (cases user) (simp_all add: CoResolved chat_exec_def chat_resolved_def Let_def chat_close_def chat_emit_def split: option.split)
next
  case (CoLanguage y body)
  then show ?thesis using none by (auto simp: chat_exec_def handleLanguage_def chat_connected_def split: option.split)
next
  case (CoOpen y)
  then show ?thesis using none op by (simp add: chat_exec_def chat_open_def)
next
  case (CoClose y)
  then show ?thesis using none by (auto simp: chat_exec_def chat_close_def split: option.split)
qed (simp_all add: chat_exec_def data_frame none)

lemma data_only_opened:
  "chat_run env now ops s = (now', s') \<Longrightarrow> map_of (cg_data s) sid = None \<Longrightarrow> list_all (\<lambda>x. snd x \<noteq> CoOpen sid) ops \<Longrightarrow>
   chat_inv s \<Longrightarrow> map_of (cg_data s') sid = None"
proof (induction ops arbitrary: now s)
  case (Cons x ops)
  obtain dt op where x: "x = (dt, op)" by (cases x)
  show ?case
  proof (rule Cons.IH)
    show "chat_run env (now + int dt) ops (chat_exec env (now + int dt) op s) = (now', s')" using Cons.prems(1) by (simp add: x)
    show "map_of (cg_data (chat_exec env (now + int dt) op s)) sid = None"
      using Cons.prems(2,3,4) by (intro data_exec) (simp_all add: x)
    show "list_all (\<lambda>x. snd x \<noteq> CoOpen sid) ops" using Cons.prems(3) by simp
    show "chat_inv (chat_exec env (now + int dt) op s)" using Cons.prems(4) by (rule chat_inv_exec)
  qed
qed simp

definition since_open :: "socket_id \<Rightarrow> (nat \<times> chat_op) list \<Rightarrow> (nat \<times> chat_op) list" where
  "since_open sid ops = dropWhile (\<lambda>x. snd x \<noteq> CoOpen sid) ops"

lemma lang_from_start:
  assumes run: "chat_run env now ops (chat_start fl) = (now', s)"
  shows "map_of (cg_data s) sid = None \<or> lang_inv sid (last_report sid (since_open sid ops)) s"
proof -
  define a where "a = takeWhile (\<lambda>x. snd x \<noteq> CoOpen sid) ops"
  have ops: "ops = a @ since_open sid ops" by (simp add: a_def since_open_def)
  obtain now1 s1 where s1: "chat_run env now a (chat_start fl) = (now1, s1)" by (cases "chat_run env now a (chat_start fl)")
  have inv1: "chat_inv s1" by (rule chat_inv_run [OF s1])
  have none: "map_of (cg_data s1) sid = None"
    by (rule data_only_opened [OF s1]) (auto simp: chat_start_def a_def list_all_iff chat_inv_start [unfolded chat_start_def] dest: set_takeWhileD)
  have run2: "chat_run env now1 (since_open sid ops) s1 = (now', s)"
    using run s1 by (subst (asm) ops) (simp add: chat_run_append)
  show ?thesis
  proof (cases "since_open sid ops")
    case Nil
    then show ?thesis using run2 none by simp
  next
    case (Cons x b)
    have "snd x = CoOpen sid" using Cons hd_dropWhile [of "\<lambda>x. snd x \<noteq> CoOpen sid" ops] by (simp add: since_open_def)
    then obtain dt where x: "x = (dt, CoOpen sid)" by (cases x) auto
    define s2 where "s2 = chat_open sid s1"
    have "map_of (cg_connectedUsers s1) sid = None" using chat_inv_absent [OF inv1 none] .
    then have "lang_inv sid None s2"
      using chat_inv_open [OF inv1, of sid] none by (simp add: lang_inv_def s2_def chat_open_def lang_ok_def)
    moreover have "chat_run env (now1 + int dt) b s2 = (now', s)" using run2 by (simp add: Cons x chat_exec_def s2_def)
    ultimately have "lang_inv sid (fold (report_step sid) b None) s" by (rule lang_inv_run)
    then show ?thesis by (simp add: last_report_def Cons x report_step_def)
  qed
qed

subsection \<open>The history\<close>

lemma recent_rows:
  defines "fresh \<equiv> \<lambda>users now m. users (mr_userId m) \<noteq> None \<and> now - CHAT_HISTORY_DAYS * 86400000 < mr_createdAt m"
  shows "sorted (map mr_createdAt (getRecentMessages users now table))"
    and "length (getRecentMessages users now table) \<le> CHAT_HISTORY_LIMIT"
    and "\<exists>older. mset (filter (fresh users now) table) = mset (older @ getRecentMessages users now table) \<and>
      (\<forall>x\<in>set older. \<forall>y\<in>set (getRecentMessages users now table). mr_createdAt x \<le> mr_createdAt y) \<and>
      (older \<noteq> [] \<longrightarrow> length (getRecentMessages users now table) = CHAT_HISTORY_LIMIT)"
proof -
  define rows where "rows = sort_key mr_createdAt (filter (fresh users now) table)"
  define k where "k = length rows - CHAT_HISTORY_LIMIT"
  have r: "getRecentMessages users now table = drop k rows"
    by (simp add: getRecentMessages_def rows_def fresh_def k_def Let_def rev_take)
  have so: "sorted (map mr_createdAt rows)" by (simp add: rows_def)
  show "sorted (map mr_createdAt (getRecentMessages users now table))"
    unfolding r drop_map [symmetric] using so by (rule sorted_wrt_drop)
  show "length (getRecentMessages users now table) \<le> CHAT_HISTORY_LIMIT" by (simp add: r k_def)
  have "mset (filter (fresh users now) table) = mset (take k rows @ drop k rows)" by (simp add: rows_def)
  moreover have "\<forall>x\<in>set (take k rows). \<forall>y\<in>set (drop k rows). mr_createdAt x \<le> mr_createdAt y"
  proof -
    have "sorted (map mr_createdAt (take k rows @ drop k rows))" using so by simp
    then show ?thesis unfolding map_append sorted_append by simp
  qed
  moreover have "take k rows \<noteq> [] \<longrightarrow> length (drop k rows) = CHAT_HISTORY_LIMIT" by (auto simp: k_def)
  ultimately show "\<exists>older. mset (filter (fresh users now) table) = mset (older @ getRecentMessages users now table) \<and>
      (\<forall>x\<in>set older. \<forall>y\<in>set (getRecentMessages users now table). mr_createdAt x \<le> mr_createdAt y) \<and>
      (older \<noteq> [] \<longrightarrow> length (getRecentMessages users now table) = CHAT_HISTORY_LIMIT)"
    unfolding r by blast
qed

end
