(* ===== verification/ChatRetention.thy ===== *)
theory ChatRetention
  imports ChatServer
begin

text \<open>
  The retention of chat messages (\<open>chat/chat.service.ts\<close>): how \<open>CHAT_RETENTION_DAYS\<close> is read, the timers, and
  the deletion in batches. The database finds the rows of a \<open>DELETE \<dots> LIMIT\<close> in an order of its own, which is
  the argument \<open>scan\<close>; a deleted message takes its translations with it (\<open>ON DELETE CASCADE\<close>). The n-th query
  of a clean-up fails where \<open>ok n\<close> is false. \<open>setDate\<close> counts in local days, so the zone of the server is an
  argument too; a date outside the range of \<open>Date\<close> and the rounding of a number of days above \<open>2 ^ 53\<close> are not
  modelled.
\<close>

definition MESSAGE_RETENTION_DELETE_BATCH :: nat where "MESSAGE_RETENTION_DELETE_BATCH = 1000"
definition MESSAGE_RETENTION_FIRST_RUN_MS :: millis where "MESSAGE_RETENTION_FIRST_RUN_MS = 60000"
definition MESSAGE_RETENTION_INTERVAL_MS :: millis where "MESSAGE_RETENTION_INTERVAL_MS = 6 * 60 * 60 * 1000"

text \<open>\<open>String(raw).trim()\<close> where it can consist of digits, and \<open>Number\<close> of the digits unless it is infinite.\<close>

definition retention_text :: "jsval \<Rightarrow> jstring option" where
  "retention_text raw =
     (case raw of
        JStr s \<Rightarrow> Some (js_trim s)
      | JNum (NumFin r) \<Rightarrow> if r = of_int \<lfloor>r\<rfloor> \<and> 0 \<le> r \<and> r < 10 ^ 21 then Some (js_show_nat (nat \<lfloor>r\<rfloor>)) else None
      | _ \<Rightarrow> None)"

definition parseRetentionDays :: "jsval \<Rightarrow> nat option" where
  "parseRetentionDays raw =
     (case retention_text raw of
        None \<Rightarrow> None
      | Some t \<Rightarrow>
          if \<not> js_all_digits t then None
          else (let days = js_decimal t in if days < 1 \<or> 2 ^ 1024 - 2 ^ 970 \<le> days then None else Some days))"

record time_zone =
  to_local :: "millis \<Rightarrow> millis"
  from_local :: "millis \<Rightarrow> millis"

definition cutoffDate :: "time_zone \<Rightarrow> millis \<Rightarrow> nat \<Rightarrow> millis" where
  "cutoffDate z now days = from_local z (to_local z now - int days * 86400000)"

subsection \<open>The deletion\<close>

type_synonym message_store = "message_row list \<times> message_table"

definition is_old :: "millis \<Rightarrow> message_row \<Rightarrow> bool" where
  "is_old cutoff m \<longleftrightarrow> mr_createdAt m < cutoff"

definition countOldMessages :: "millis \<Rightarrow> message_store \<Rightarrow> nat" where
  "countOldMessages cutoff st = length (filter (is_old cutoff) (fst st))"

definition delete_batch :: "(message_row list \<Rightarrow> message_row list) \<Rightarrow> millis \<Rightarrow> message_store \<Rightarrow> nat \<times> message_store" where
  "delete_batch scan cutoff st =
     (let hit = take MESSAGE_RETENTION_DELETE_BATCH (scan (filter (is_old cutoff) (fst st)))
      in (length hit,
          (filter (\<lambda>m. m \<notin> set hit) (fst st), filter (\<lambda>((i, l), t). i \<notin> mr_id ` set hit) (snd st))))"

text \<open>The loop of \<open>deleteOldMessages\<close>: \<open>None\<close> is a loop that does not end, \<open>Inl\<close> a query that failed.\<close>

partial_function (option) delete_loop ::
    "(message_row list \<Rightarrow> message_row list) \<Rightarrow> (nat \<Rightarrow> bool) \<Rightarrow> millis \<Rightarrow> nat \<Rightarrow> nat \<Rightarrow> message_store \<Rightarrow>
     ((unit + nat) \<times> message_store) option" where
  "delete_loop scan ok cutoff n deleted st =
     (if \<not> ok n then Some (Inl (), st)
      else (case delete_batch scan cutoff st of
              (affected, st') \<Rightarrow>
                if affected < MESSAGE_RETENTION_DELETE_BATCH then Some (Inr (deleted + affected), st')
                else delete_loop scan ok cutoff (Suc n) (deleted + affected) st'))"

definition deleteOldMessages ::
    "(message_row list \<Rightarrow> message_row list) \<Rightarrow> (nat \<Rightarrow> bool) \<Rightarrow> millis \<Rightarrow> message_store \<Rightarrow>
     ((unit + nat) \<times> message_store) option" where
  "deleteOldMessages scan ok cutoff st = delete_loop scan ok cutoff 1 0 st"

text \<open>\<open>runRetentionCleanup\<close>: the count comes first, and every failure is swallowed. The result is what is logged.\<close>

datatype cleanup_log = CleanupDone nat nat | CleanupFailed

definition runRetentionCleanup ::
    "time_zone \<Rightarrow> (message_row list \<Rightarrow> message_row list) \<Rightarrow> (nat \<Rightarrow> bool) \<Rightarrow> millis \<Rightarrow> nat \<Rightarrow> message_store \<Rightarrow>
     (cleanup_log \<times> message_store) option" where
  "runRetentionCleanup z scan ok now days st =
     (let cutoff = cutoffDate z now days
      in if \<not> ok 0 then Some (CleanupFailed, st)
         else map_option (\<lambda>(r, st'). (case r of Inl _ \<Rightarrow> CleanupFailed | Inr n \<Rightarrow> CleanupDone (countOldMessages cutoff st) n, st'))
                (deleteOldMessages scan ok cutoff st))"

subsection \<open>The timers\<close>

record retention =
  rn_days :: nat
  rn_firstRun :: "millis option"
  rn_interval :: "millis option"

definition no_retention :: retention where
  "no_retention = \<lparr>rn_days = 0, rn_firstRun = None, rn_interval = None\<rparr>"

definition retention_onModuleInit :: "millis \<Rightarrow> jsval \<Rightarrow> retention" where
  "retention_onModuleInit now raw =
     (case parseRetentionDays raw of
        None \<Rightarrow> no_retention
      | Some days \<Rightarrow> \<lparr>rn_days = days, rn_firstRun = Some (now + MESSAGE_RETENTION_FIRST_RUN_MS), rn_interval = None\<rparr>)"

definition retention_onModuleDestroy :: "retention \<Rightarrow> retention" where
  "retention_onModuleDestroy r = r\<lparr>rn_firstRun := None, rn_interval := None\<rparr>"

text \<open>The event loop looks at its timers; the result says whether a clean-up starts.\<close>

definition timer_due :: "millis \<Rightarrow> millis option \<Rightarrow> bool" where
  "timer_due now t = (case t of None \<Rightarrow> False | Some d \<Rightarrow> d \<le> now)"

definition retention_tick :: "millis \<Rightarrow> retention \<Rightarrow> bool \<times> retention" where
  "retention_tick now r =
     (if timer_due now (rn_firstRun r)
      then (True, r\<lparr>rn_firstRun := None, rn_interval := Some (now + MESSAGE_RETENTION_INTERVAL_MS)\<rparr>)
      else if timer_due now (rn_interval r)
      then (True, r\<lparr>rn_interval := Some (now + MESSAGE_RETENTION_INTERVAL_MS)\<rparr>)
      else (False, r))"

fun retention_runs :: "millis list \<Rightarrow> retention \<Rightarrow> millis list" where
  "retention_runs [] r = []"
| "retention_runs (now # ticks) r =
     (case retention_tick now r of (start, r') \<Rightarrow> (if start then [now] else []) @ retention_runs ticks r')"

subsection \<open>Lemmas\<close>

lemma parse_positive: "parseRetentionDays raw = Some days \<Longrightarrow> 1 \<le> days"
  by (auto simp: parseRetentionDays_def Let_def split: option.splits if_splits)

lemma runs_disabled: "rn_firstRun r = None \<Longrightarrow> rn_interval r = None \<Longrightarrow> retention_runs ticks r = []"
  by (induction ticks) (auto simp: retention_tick_def timer_due_def)

text \<open>Clean-ups are six hours apart.\<close>

lemma runs_interval:
  "rn_firstRun r = None \<Longrightarrow> rn_interval r = Some d \<Longrightarrow> sorted ticks \<Longrightarrow>
   (case retention_runs ticks r of [] \<Rightarrow> True | t # _ \<Rightarrow> d \<le> t) \<and>
   successively (\<lambda>t t'. t + MESSAGE_RETENTION_INTERVAL_MS \<le> t') (retention_runs ticks r)"
proof (induction ticks arbitrary: r d)
  case (Cons now ticks)
  show ?case
  proof (cases "d \<le> now")
    case True
    define r' where "r' = r\<lparr>rn_interval := Some (now + MESSAGE_RETENTION_INTERVAL_MS)\<rparr>"
    have "retention_runs (now # ticks) r = now # retention_runs ticks r'"
      using Cons.prems True by (simp add: retention_tick_def timer_due_def r'_def)
    moreover have "(case retention_runs ticks r' of [] \<Rightarrow> True | t # _ \<Rightarrow> now + MESSAGE_RETENTION_INTERVAL_MS \<le> t) \<and>
        successively (\<lambda>t t'. t + MESSAGE_RETENTION_INTERVAL_MS \<le> t') (retention_runs ticks r')"
      using Cons.prems by (intro Cons.IH) (auto simp: r'_def)
    ultimately show ?thesis using True by (auto simp: successively_Cons split: list.splits)
  next
    case False
    then show ?thesis using Cons by (simp add: retention_tick_def timer_due_def)
  qed
qed simp

lemma runs_first:
  "rn_firstRun r = Some d \<Longrightarrow> rn_interval r = None \<Longrightarrow> sorted ticks \<Longrightarrow>
   (case retention_runs ticks r of [] \<Rightarrow> True | t # _ \<Rightarrow> d \<le> t) \<and>
   successively (\<lambda>t t'. t + MESSAGE_RETENTION_INTERVAL_MS \<le> t') (retention_runs ticks r)"
proof (induction ticks)
  case (Cons now ticks)
  show ?case
  proof (cases "d \<le> now")
    case True
    define r' where "r' = r\<lparr>rn_firstRun := None, rn_interval := Some (now + MESSAGE_RETENTION_INTERVAL_MS)\<rparr>"
    have "retention_runs (now # ticks) r = now # retention_runs ticks r'"
      using Cons.prems True by (simp add: retention_tick_def timer_due_def r'_def)
    moreover have "(case retention_runs ticks r' of [] \<Rightarrow> True | t # _ \<Rightarrow> now + MESSAGE_RETENTION_INTERVAL_MS \<le> t) \<and>
        successively (\<lambda>t t'. t + MESSAGE_RETENTION_INTERVAL_MS \<le> t') (retention_runs ticks r')"
      using Cons.prems by (intro runs_interval) (auto simp: r'_def)
    ultimately show ?thesis using True by (auto simp: successively_Cons split: list.splits)
  next
    case False
    then show ?thesis using Cons by (simp add: retention_tick_def timer_due_def)
  qed
qed simp

text \<open>What one batch does.\<close>

definition scans :: "(message_row list \<Rightarrow> message_row list) \<Rightarrow> bool" where
  "scans scan \<longleftrightarrow> (\<forall>rows. mset (scan rows) = mset rows)"

text \<open>A store between the whole one and the one without the old messages.\<close>

definition part_deleted :: "millis \<Rightarrow> message_store \<Rightarrow> message_store \<Rightarrow> bool" where
  "part_deleted cutoff st st' \<longleftrightarrow>
     (\<exists>gone. (\<forall>m\<in>set (fst st). m \<in> gone \<longrightarrow> is_old cutoff m) \<and> gone \<subseteq> set (fst st) \<and>
        fst st' = filter (\<lambda>m. m \<notin> gone) (fst st) \<and>
        snd st' = filter (\<lambda>((i, l), t). i \<notin> mr_id ` gone) (snd st))"

lemma part_deleted_refl: "part_deleted cutoff st st"
  unfolding part_deleted_def by (rule exI [of _ "{}"]) (auto simp: split_def)

lemma part_deleted_trans:
  assumes "part_deleted cutoff st st'" "part_deleted cutoff st' st''"
  shows "part_deleted cutoff st st''"
proof -
  obtain g where g: "\<forall>m\<in>set (fst st). m \<in> g \<longrightarrow> is_old cutoff m" "g \<subseteq> set (fst st)"
    "fst st' = filter (\<lambda>m. m \<notin> g) (fst st)" "snd st' = filter (\<lambda>((i, l), t). i \<notin> mr_id ` g) (snd st)"
    using assms(1) unfolding part_deleted_def by blast
  obtain h where h: "\<forall>m\<in>set (fst st'). m \<in> h \<longrightarrow> is_old cutoff m" "h \<subseteq> set (fst st')"
    "fst st'' = filter (\<lambda>m. m \<notin> h) (fst st')" "snd st'' = filter (\<lambda>((i, l), t). i \<notin> mr_id ` h) (snd st')"
    using assms(2) unfolding part_deleted_def by blast
  have "fst st'' = filter (\<lambda>m. m \<notin> g \<union> h) (fst st)" by (simp add: g(3) h(3) conj_commute)
  moreover have "snd st'' = filter (\<lambda>((i, l), t). i \<notin> mr_id ` (g \<union> h)) (snd st)"
    unfolding g(4) h(4) filter_filter by (rule filter_cong) (auto simp: split_def)
  moreover have "\<forall>m\<in>set (fst st). m \<in> g \<union> h \<longrightarrow> is_old cutoff m" "g \<union> h \<subseteq> set (fst st)"
    using g h by auto
  ultimately show ?thesis unfolding part_deleted_def by blast
qed

lemma batch_part:
  assumes "scans scan" "delete_batch scan cutoff st = (n, st')"
  shows "part_deleted cutoff st st'"
proof -
  define hit where "hit = take MESSAGE_RETENTION_DELETE_BATCH (scan (filter (is_old cutoff) (fst st)))"
  have "set (scan (filter (is_old cutoff) (fst st))) = set (filter (is_old cutoff) (fst st))"
    using assms(1) unfolding scans_def by (metis set_mset_mset)
  then have sub: "set hit \<subseteq> set (filter (is_old cutoff) (fst st))" unfolding hit_def by (metis set_take_subset)
  have "fst st' = filter (\<lambda>m. m \<notin> set hit) (fst st)" "snd st' = filter (\<lambda>((i, l), t). i \<notin> mr_id ` set hit) (snd st)"
    using assms(2) by (auto simp: delete_batch_def Let_def hit_def)
  then show ?thesis using sub unfolding part_deleted_def by (intro exI [of _ "set hit"]) auto
qed

text \<open>A batch removes as many old messages as it reports.\<close>

lemma batch_count:
  assumes sc: "scans scan" and d: "distinct (fst st)" and b: "delete_batch scan cutoff st = (n, st')"
  shows "countOldMessages cutoff st = n + countOldMessages cutoff st'"
    and "distinct (fst st')" and "n < MESSAGE_RETENTION_DELETE_BATCH \<Longrightarrow> countOldMessages cutoff st' = 0"
proof -
  define old where "old = filter (is_old cutoff) (fst st)"
  define hit where "hit = take MESSAGE_RETENTION_DELETE_BATCH (scan old)"
  have ms: "mset (scan old) = mset old" using sc by (simp add: scans_def)
  have do: "distinct old" using d by (simp add: old_def)
  then have ds: "distinct (scan old)" using ms by (metis mset_eq_imp_distinct_iff)
  have n: "n = length hit" and st': "fst st' = filter (\<lambda>m. m \<notin> set hit) (fst st)"
    using b by (auto simp: delete_batch_def Let_def hit_def old_def)
  have sub: "set hit \<subseteq> set old" using ms unfolding hit_def by (metis set_mset_mset set_take_subset)
  have dh: "distinct hit" using ds by (simp add: hit_def)
  have rest: "filter (is_old cutoff) (fst st') = filter (\<lambda>m. m \<notin> set hit) old"
    by (simp add: st' old_def conj_commute)
  have "length (filter (\<lambda>m. m \<in> set hit) old) = length hit"
  proof -
    have "set (filter (\<lambda>m. m \<in> set hit) old) = set hit" using sub by auto
    then show ?thesis using do dh distinct_card distinct_filter by metis
  qed
  then show "countOldMessages cutoff st = n + countOldMessages cutoff st'"
    using list_all_filter_length [of "\<lambda>m. m \<in> set hit" old]
    unfolding countOldMessages_def rest n by (simp add: old_def)
  show "distinct (fst st')" using d by (simp add: st')
  assume "n < MESSAGE_RETENTION_DELETE_BATCH"
  then have "hit = scan old" by (auto simp: n hit_def)
  then have "set hit = set old" using ms by (metis set_mset_mset)
  then show "countOldMessages cutoff st' = 0" unfolding countOldMessages_def rest by simp
qed

lemma batch_pos: "MESSAGE_RETENTION_DELETE_BATCH > 0"
  by (simp add: MESSAGE_RETENTION_DELETE_BATCH_def)

lemma delete_loop_total:
  assumes sc: "scans scan"
  shows "distinct (fst st) \<Longrightarrow> \<exists>r st'. delete_loop scan ok cutoff n deleted st = Some (r, st') \<and> part_deleted cutoff st st' \<and>
    (case r of Inl _ \<Rightarrow> \<exists>k. \<not> ok k | Inr c \<Rightarrow> c = deleted + countOldMessages cutoff st \<and> countOldMessages cutoff st' = 0)"
proof (induction "countOldMessages cutoff st" arbitrary: n deleted st rule: less_induct)
  case less
  obtain affected st1 where b: "delete_batch scan cutoff st = (affected, st1)" by (cases "delete_batch scan cutoff st")
  note c = batch_count [OF sc less.prems b]
  note p = batch_part [OF sc b]
  show ?case
  proof (cases "ok n \<and> MESSAGE_RETENTION_DELETE_BATCH \<le> affected")
    case False
    then have "delete_loop scan ok cutoff n deleted st =
        (if \<not> ok n then Some (Inl (), st) else Some (Inr (deleted + affected), st1))"
      using b by (subst delete_loop.simps) auto
    moreover have "ok n \<Longrightarrow> countOldMessages cutoff st1 = 0 \<and> affected = countOldMessages cutoff st"
      using False c(1,3) by simp
    ultimately show ?thesis using p part_deleted_refl [of cutoff st] by (cases "ok n") auto
  next
    case True
    then have "countOldMessages cutoff st1 < countOldMessages cutoff st" using c(1) batch_pos by simp
    from less.hyps [OF this c(2), of "Suc n" "deleted + affected"]
    obtain r st' where r: "delete_loop scan ok cutoff (Suc n) (deleted + affected) st1 = Some (r, st')"
      "part_deleted cutoff st1 st'"
      "case r of Inl _ \<Rightarrow> \<exists>k. \<not> ok k
         | Inr c \<Rightarrow> c = deleted + affected + countOldMessages cutoff st1 \<and> countOldMessages cutoff st' = 0" by blast
    have "delete_loop scan ok cutoff n deleted st = Some (r, st')"
      using True b r(1) by (subst delete_loop.simps) auto
    then show ?thesis using r(2,3) part_deleted_trans [OF p] c(1) by (auto split: sum.splits)
  qed
qed

text \<open>A store without old messages.\<close>

definition without_old :: "millis \<Rightarrow> message_store \<Rightarrow> message_store" where
  "without_old cutoff st =
     (filter (\<lambda>m. \<not> is_old cutoff m) (fst st),
      filter (\<lambda>((i, l), t). i \<notin> mr_id ` set (filter (is_old cutoff) (fst st))) (snd st))"

lemma part_deleted_all:
  assumes "part_deleted cutoff st st'" "countOldMessages cutoff st' = 0"
  shows "st' = without_old cutoff st"
proof -
  obtain g where g: "\<forall>m\<in>set (fst st). m \<in> g \<longrightarrow> is_old cutoff m" "g \<subseteq> set (fst st)"
    "fst st' = filter (\<lambda>m. m \<notin> g) (fst st)" "snd st' = filter (\<lambda>((i, l), t). i \<notin> mr_id ` g) (snd st)"
    using assms(1) unfolding part_deleted_def by blast
  have "\<forall>m\<in>set (fst st). is_old cutoff m \<longrightarrow> m \<in> g"
    using assms(2) by (auto simp: countOldMessages_def g(3) filter_empty_conv)
  then have ge: "g = set (filter (is_old cutoff) (fst st))" using g(1,2) by auto
  have "fst st' = filter (\<lambda>m. \<not> is_old cutoff m) (fst st)" unfolding g(3) ge by (rule filter_cong) auto
  moreover have "snd st' = snd (without_old cutoff st)" unfolding g(4) ge without_old_def by simp
  ultimately show ?thesis by (simp add: without_old_def prod_eq_iff)
qed

end
