(* ===== verification/ChatServerProperties.thy ===== *)
theory ChatServerProperties
  imports ChatServerRules ChatRetention
begin

text \<open>What the chat of the server does over any run of its handlers, and what its retention deletes.\<close>

text \<open>
  Property C21. Whatever the order in which the handlers of all sockets resume, every message row that was inserted
  is broadcast once or its broadcast is still to come, a broadcast shows its row, and every broadcast is followed
  by one \<open>chat:translation\<close> or that translation is still under way. No id is used twice.
\<close>

theorem messages_delivered:
  "let s = snd (chat_run env now ops (chat_start fl));
       rows = map mr_id (cg_messages s);
       sent = map cp_id (sent_messages s);
       pushed = map tp_id (sent_translations s)
   in distinct rows \<and> mset rows = mset sent + mset (map (mr_id \<circ> snd) (cg_inserted s)) \<and>
      mset sent = mset pushed + mset (map fst (cg_translating s)) \<and>
      list_all (shows_row (cg_messages s)) (sent_messages s)"
proof -
  obtain now' s where r: "chat_run env now ops (chat_start fl) = (now', s)" by (cases "chat_run env now ops (chat_start fl)")
  show ?thesis using delivery_run [OF r] unfolding r delivery_inv_def by (simp add: Let_def list_all_iff)
qed

text \<open>
  However many sockets and tabs an account uses, at most 30 of its messages that were ever saved have
  been sent within any 60 seconds.
\<close>

theorem user_message_rate:
  "length (filter (\<lambda>m. mr_userId m = u \<and> T - CHAT_MESSAGE_RATE_WINDOW_MS < mr_createdAt m \<and> mr_createdAt m \<le> T)
     (cg_messages (snd (chat_run env now ops (chat_start fl))))) \<le> CHAT_MESSAGE_RATE_LIMIT"
proof -
  obtain now' s where r: "chat_run env now ops (chat_start fl) = (now', s)" by (cases "chat_run env now ops (chat_start fl)")
  show ?thesis using rate_bound [OF rate_run [OF r], of u T] unfolding r by simp
qed

text \<open>
  A registered socket is translated for in the language of its last valid \<open>chat:language\<close> report,
  also when that report came before the user of the socket was known; without a report it is the language of the
  account.
\<close>

theorem last_report_wins:
  "let s = snd (chat_run env now ops (chat_start fl))
   in (case (map_of (cg_connectedUsers s) sid, map_of (cg_data s) sid) of
         (None, _) \<Rightarrow> True
       | (Some e, None) \<Rightarrow> False
       | (Some e, Some d) \<Rightarrow> sd_connected d \<and>
           (\<exists>u. sd_user d = Some u \<and> cn_targetLang e = lang_or_account (last_report sid (since_open sid ops)) u))"
proof -
  obtain now' s where r: "chat_run env now ops (chat_start fl) = (now', s)" by (cases "chat_run env now ops (chat_start fl)")
  have inv: "chat_inv s" by (rule chat_inv_run [OF r])
  show ?thesis
  proof (cases "map_of (cg_connectedUsers s) sid")
    case (Some e)
    then have "chat_connected s sid" using registered_connected [OF inv] by blast
    then obtain d where d: "map_of (cg_data s) sid = Some d" "sd_connected d"
      by (auto simp: chat_connected_def split: option.splits)
    then have "lang_inv sid (last_report sid (since_open sid ops)) s" using lang_from_start [OF r, of sid] by simp
    then show ?thesis using d Some unfolding r lang_inv_def by (auto simp: Let_def lang_ok_def)
  qed (simp add: r Let_def)
qed

text \<open>
  The languages a message is translated into are exactly those of the sockets that are connected and
  registered with automatic translation on, each once, and all of them are supported: a socket that is gone or was
  never authenticated costs no translation.
\<close>

theorem online_languages:
  "let s = snd (chat_run env now ops (chat_start fl))
   in distinct (onlineTargetLangs s) \<and> set (onlineTargetLangs s) \<subseteq> set TARGET_LANGS \<and>
      set (onlineTargetLangs s) =
        {l. \<exists>sid e. chat_connected s sid \<and> map_of (cg_connectedUsers s) sid = Some e \<and> cn_targetLang e = Some l}"
proof -
  obtain now' s where r: "chat_run env now ops (chat_start fl) = (now', s)" by (cases "chat_run env now ops (chat_start fl)")
  have inv: "chat_inv s" by (rule chat_inv_run [OF r])
  then have wf: "jm_wf (cg_connectedUsers s)" by (simp add: chat_inv_def)
  have "set (onlineTargetLangs s) =
      {l. \<exists>sid e. chat_connected s sid \<and> map_of (cg_connectedUsers s) sid = Some e \<and> cn_targetLang e = Some l}"
  proof (intro equalityI subsetI)
    fix l assume "l \<in> set (onlineTargetLangs s)"
    then obtain sid e where "(sid, e) \<in> set (cg_connectedUsers s)" "cn_targetLang e = Some l" by (auto simp: online_set)
    then show "l \<in> {l. \<exists>sid e. chat_connected s sid \<and> map_of (cg_connectedUsers s) sid = Some e \<and> cn_targetLang e = Some l}"
      using map_of_is_SomeI [OF wf] registered_connected [OF inv] by blast
  next
    fix l assume "l \<in> {l. \<exists>sid e. chat_connected s sid \<and> map_of (cg_connectedUsers s) sid = Some e \<and> cn_targetLang e = Some l}"
    then obtain sid e where "map_of (cg_connectedUsers s) sid = Some e" "cn_targetLang e = Some l" by blast
    then show "l \<in> set (onlineTargetLangs s)" unfolding online_set by (metis (mono_tags, lifting) map_of_SomeD mem_Collect_eq snd_conv)
  qed
  moreover have "set (onlineTargetLangs s) \<subseteq> set TARGET_LANGS"
  proof (intro subsetI)
    fix l assume "l \<in> set (onlineTargetLangs s)"
    then obtain sid e where e: "map_of (cg_connectedUsers s) sid = Some e" "cn_targetLang e = Some l" using calculation by blast
    from registered_connected [OF inv e(1)] e(2) show "l \<in> set TARGET_LANGS" by (simp add: valid_lang_def)
  qed
  ultimately show ?thesis unfolding r Let_def snd_conv using online_distinct by blast
qed

text \<open>
  The history a socket gets is in the order of time, has at most 200 messages, all of the last seven
  days and with an author, and what is left out of those is not newer than what is sent and only left out when 200
  are sent.
\<close>

theorem history_newest:
  "let sent = getRecentMessages users now table
   in sorted (map mr_createdAt sent) \<and> length sent \<le> CHAT_HISTORY_LIMIT \<and>
      (\<exists>older. mset (filter (\<lambda>m. users (mr_userId m) \<noteq> None \<and> now - CHAT_HISTORY_DAYS * 86400000 < mr_createdAt m) table) =
          mset (older @ sent) \<and>
        list_all (\<lambda>x. list_all (\<lambda>y. mr_createdAt x \<le> mr_createdAt y) sent) older \<and>
        (older = [] \<or> length sent = CHAT_HISTORY_LIMIT))"
  using recent_rows [of users now table] unfolding Let_def list_all_iff by blast

text \<open>
  Property C22. The deletion of old messages ends, whatever rows the database picks for a batch and whichever query
  fails. When no query fails it reports the number of messages older than the cut-off and leaves exactly the
  others, with their translations; when one fails, only messages older than the cut-off are gone.
\<close>

theorem retention_ends:
  assumes "scans scan" and "distinct (fst st)"
  shows "\<exists>r st'. deleteOldMessages scan ok cutoff st = Some (r, st') \<and>
    (case r of
       Inl _ \<Rightarrow> (\<exists>k. \<not> ok k) \<and> part_deleted cutoff st st'
     | Inr n \<Rightarrow> n = countOldMessages cutoff st \<and> st' = without_old cutoff st)"
proof -
  obtain r st' where r: "delete_loop scan ok cutoff 1 0 st = Some (r, st')" "part_deleted cutoff st st'"
    "case r of Inl _ \<Rightarrow> \<exists>k. \<not> ok k | Inr c \<Rightarrow> c = 0 + countOldMessages cutoff st \<and> countOldMessages cutoff st' = 0"
    using delete_loop_total [OF assms, of ok cutoff 1 0] by blast
  then show ?thesis using part_deleted_all [OF r(2)] unfolding deleteOldMessages_def by (auto split: sum.splits)
qed

theorem retention_ends_witness:
  "deleteOldMessages rev (\<lambda>_. True) 1000
     ([\<lparr>mr_id = 1, mr_userId = 7, mr_content = [104], mr_createdAt = 500\<rparr>,
       \<lparr>mr_id = 2, mr_userId = 7, mr_content = [105], mr_createdAt = 1000\<rparr>],
      [((1, ''en''), [72]), ((2, ''en''), [73])]) =
   Some (Inr 1, ([\<lparr>mr_id = 2, mr_userId = 7, mr_content = [105], mr_createdAt = 1000\<rparr>], [((2, ''en''), [73])]))"
  (is "deleteOldMessages _ _ _ ?st = _")
proof -
  have "scans rev" "distinct (fst ?st)" by (simp_all add: scans_def)
  from retention_ends [OF this, of "\<lambda>_. True" 1000]
  obtain r st' where r: "deleteOldMessages rev (\<lambda>_. True) 1000 ?st = Some (r, st')"
    "case r of Inl _ \<Rightarrow> (\<exists>k :: nat. \<not> True) \<and> part_deleted 1000 ?st st' | Inr n \<Rightarrow> n = countOldMessages 1000 ?st \<and> st' = without_old 1000 ?st"
    by blast
  have "countOldMessages 1000 ?st = 1"
    "without_old 1000 ?st = ([\<lparr>mr_id = 2, mr_userId = 7, mr_content = [105], mr_createdAt = 1000\<rparr>], [((2, ''en''), [73])])"
    by (simp_all add: countOldMessages_def without_old_def is_old_def)
  with r show ?thesis by (cases r) simp_all
qed

text \<open>
  Nothing is deleted unless \<open>CHAT_RETENTION_DAYS\<close> is a whole number of at least one day; then the first
  clean-up starts no sooner than a minute after the start, and any other six hours or more after the one before.
\<close>

theorem retention_opt_in:
  assumes "sorted ticks"
  shows "case parseRetentionDays raw of
      None \<Rightarrow> retention_runs ticks (retention_onModuleInit now raw) = []
    | Some days \<Rightarrow> 1 \<le> days \<and>
        (let runs = retention_runs ticks (retention_onModuleInit now raw)
         in (case runs of [] \<Rightarrow> True | t # _ \<Rightarrow> now + MESSAGE_RETENTION_FIRST_RUN_MS \<le> t) \<and>
            successively (\<lambda>t t'. t + MESSAGE_RETENTION_INTERVAL_MS \<le> t') runs)"
proof (cases "parseRetentionDays raw")
  case None
  then show ?thesis by (simp add: retention_onModuleInit_def no_retention_def runs_disabled)
next
  case (Some days)
  define r where "r = \<lparr>rn_days = days, rn_firstRun = Some (now + MESSAGE_RETENTION_FIRST_RUN_MS), rn_interval = None\<rparr>"
  have "retention_onModuleInit now raw = r" by (simp add: retention_onModuleInit_def Some r_def)
  moreover note runs_first [of r "now + MESSAGE_RETENTION_FIRST_RUN_MS", OF _ _ assms]
  ultimately show ?thesis using Some parse_positive [OF Some] by (simp add: r_def Let_def)
qed

theorem retention_opt_in_witness:
  "parseRetentionDays (JStr [32, 51, 48]) = Some 30 \<and> parseRetentionDays (JStr [48]) = None \<and>
   (case retention_runs [50000, 70000, 80000, 30000000] (retention_onModuleInit 0 (JStr [51, 48])) of
      [] \<Rightarrow> False | t # _ \<Rightarrow> 60000 \<le> t)"
proof -
  have p: "parseRetentionDays (JStr [32, 51, 48]) = Some 30" "parseRetentionDays (JStr [51, 48]) = Some 30"
    "parseRetentionDays (JStr [48]) = None"
    by (simp_all add: parseRetentionDays_def retention_text_def js_trim_def js_space_def js_all_digits_def js_digit_def
        js_decimal_def)
  have "sorted [50000 :: int, 70000, 80000, 30000000]" by simp
  from retention_opt_in [OF this, where raw = "JStr [51, 48]" and now = 0]
  have "case retention_runs [50000, 70000, 80000, 30000000] (retention_onModuleInit 0 (JStr [51, 48])) of
      [] \<Rightarrow> True | t # _ \<Rightarrow> 60000 \<le> t"
    by (auto simp: p MESSAGE_RETENTION_FIRST_RUN_MS_def Let_def simp del: retention_runs.simps split: list.splits)
  moreover have "retention_runs [50000, 70000, 80000, 30000000] (retention_onModuleInit 0 (JStr [51, 48])) \<noteq> []"
    by (simp add: retention_onModuleInit_def p retention_tick_def timer_due_def MESSAGE_RETENTION_FIRST_RUN_MS_def)
  ultimately show ?thesis using p by (simp split: list.splits)
qed

end
