(* ===== verification/Accounts.thy ===== *)
theory Accounts
  imports RallySchedule JsText
begin

text \<open>
  Accounts and their sessions: \<open>auth/auth.service.ts\<close>, \<open>auth/refresh-tokens.service.ts\<close>,
  \<open>users/users.service.ts\<close>, \<open>auth/jwt.strategy.ts\<close> and the account operations of \<open>admin/admin.service.ts\<close>. A
  request runs one database query at a time and waits in between, so the queries of different requests
  interleave; what a waiting request will ask next is in the list \<open>as_tasks\<close>.

  Tokens, password hashing, the digest of a session key, lower-casing and the collation of the nickname
  column come from libraries, the runtime and the database: they are the fields of \<open>auth_env\<close>. A token is a value of
  any type; its claims are a \<open>sub\<close> that may fail to be a number of an account, an optional \<open>jti\<close> and an optional
  \<open>type\<close>.
\<close>

definition REFRESH_TOKEN_TTL_MS :: millis where "REFRESH_TOKEN_TTL_MS = 7 * 24 * 60 * 60 * 1000"
definition MAX_SESSIONS_PER_USER :: nat where "MAX_SESSIONS_PER_USER = 10"
definition ACCESS_TOKEN_TTL_MS :: millis where "ACCESS_TOKEN_TTL_MS = 60 * 60 * 1000"

record claims =
  cm_sub :: "int option"
  cm_jti :: "jstring option"
  cm_type :: "string option"

record 'tok auth_env =
  ae_sign :: "millis \<Rightarrow> millis \<Rightarrow> claims \<Rightarrow> 'tok"
  ae_verify :: "millis \<Rightarrow> 'tok \<Rightarrow> claims option"
  ae_decode :: "'tok \<Rightarrow> claims option"
  ae_digest :: "jstring \<Rightarrow> jstring"
  ae_bcrypt :: "nat \<Rightarrow> jstring \<Rightarrow> jstring"
  ae_compare :: "jstring \<Rightarrow> jstring \<Rightarrow> bool"
  ae_lower :: "jstring \<Rightarrow> jstring"
  ae_collate :: "jstring \<Rightarrow> jstring"
  ae_serverCode :: "jstring option"

record session_row =
  rs_id :: int
  rs_userId :: int
  rs_tokenHash :: jstring
  rs_expiresAt :: millis

subsection \<open>The table of sessions\<close>

definition sessions_of :: "int \<Rightarrow> session_row list \<Rightarrow> session_row list" where
  "sessions_of userId rows = filter (\<lambda>r. rs_userId r = userId) rows"

definition delete_expired :: "int \<Rightarrow> millis \<Rightarrow> session_row list \<Rightarrow> session_row list" where
  "delete_expired userId now rows = filter (\<lambda>r. \<not> (rs_userId r = userId \<and> rs_expiresAt r < now)) rows"

text \<open>The ids of a user's sessions after the newest ten.\<close>

definition surplus_sessions :: "int \<Rightarrow> session_row list \<Rightarrow> int list" where
  "surplus_sessions userId rows = drop MAX_SESSIONS_PER_USER (rev (sort (map rs_id (sessions_of userId rows))))"

definition delete_ids :: "int list \<Rightarrow> session_row list \<Rightarrow> session_row list" where
  "delete_ids ids rows = filter (\<lambda>r. rs_id r \<notin> set ids) rows"

definition find_session :: "'tok auth_env \<Rightarrow> int \<Rightarrow> jstring \<Rightarrow> session_row list \<Rightarrow> session_row option" where
  "find_session env userId jti rows = List.find (\<lambda>r. rs_userId r = userId \<and> rs_tokenHash r = ae_digest env jti) rows"

text \<open>The update of a rotation: \<open>None\<close> when the unique key of the hash refuses it; a row that is gone is no error.\<close>

definition update_session :: "int \<Rightarrow> jstring \<Rightarrow> millis \<Rightarrow> session_row list \<Rightarrow> session_row list option" where
  "update_session rowId hash expires rows =
     (if list_ex (\<lambda>r. rs_id r = rowId) rows \<and> list_ex (\<lambda>r. rs_id r \<noteq> rowId \<and> rs_tokenHash r = hash) rows then None
      else Some (map (\<lambda>r. if rs_id r = rowId then r\<lparr>rs_tokenHash := hash, rs_expiresAt := expires\<rparr> else r) rows))"

definition revoke_session :: "'tok auth_env \<Rightarrow> int \<Rightarrow> jstring \<Rightarrow> session_row list \<Rightarrow> session_row list" where
  "revoke_session env userId jti rows =
     filter (\<lambda>r. \<not> (rs_userId r = userId \<and> rs_tokenHash r = ae_digest env jti)) rows"

subsection \<open>Users\<close>

definition QUARANTINED_LEGACY_ACCOUNT_NICKNAMES :: "string list" where
  "QUARANTINED_LEGACY_ACCOUNT_NICKNAMES =
     [''devdevko'', ''devadminko'', ''devadminzh'', ''devadminen'', ''devadminja'',
      ''devmemberko'', ''devmemberzh'', ''devmemberen'', ''devmemberja'']"

definition isQuarantinedLegacyAccount :: "'tok auth_env \<Rightarrow> jstring \<Rightarrow> bool" where
  "isQuarantinedLegacyAccount env nickname \<longleftrightarrow>
     ae_lower env nickname \<in> lit ` set QUARANTINED_LEGACY_ACCOUNT_NICKNAMES"

definition same_nickname :: "'tok auth_env \<Rightarrow> jstring \<Rightarrow> user_row \<Rightarrow> bool" where
  "same_nickname env nickname u \<longleftrightarrow> ae_collate env (u_nickname u) = ae_collate env nickname"

definition unless_quarantined :: "'tok auth_env \<Rightarrow> user_row option \<Rightarrow> user_row option" where
  "unless_quarantined env found =
     (case found of None \<Rightarrow> None | Some u \<Rightarrow> if isQuarantinedLegacyAccount env (u_nickname u) then None else Some u)"

definition findByNickname :: "'tok auth_env \<Rightarrow> jstring \<Rightarrow> user_row list \<Rightarrow> user_row option" where
  "findByNickname env nickname users = unless_quarantined env (List.find (same_nickname env nickname) users)"

definition findById :: "'tok auth_env \<Rightarrow> int \<Rightarrow> user_row list \<Rightarrow> user_row option" where
  "findById env i users = unless_quarantined env (List.find (\<lambda>u. u_id u = i) users)"

subsection \<open>Tokens\<close>

definition createAccessToken :: "'tok auth_env \<Rightarrow> millis \<Rightarrow> user_row \<Rightarrow> 'tok" where
  "createAccessToken env now u =
     ae_sign env now ACCESS_TOKEN_TTL_MS \<lparr>cm_sub = Some (u_id u), cm_jti = None, cm_type = None\<rparr>"

definition signRefreshToken :: "'tok auth_env \<Rightarrow> millis \<Rightarrow> int \<Rightarrow> jstring \<Rightarrow> 'tok" where
  "signRefreshToken env now userId jti =
     ae_sign env now REFRESH_TOKEN_TTL_MS \<lparr>cm_sub = Some userId, cm_jti = Some jti, cm_type = Some ''refresh''\<rparr>"

text \<open>What \<open>refreshTokens\<close> and \<open>logout\<close> accept of the claims of a refresh cookie.\<close>

definition refresh_claims :: "claims option \<Rightarrow> (int \<times> jstring) option" where
  "refresh_claims payload =
     (case payload of
        None \<Rightarrow> None
      | Some c \<Rightarrow>
          (case (cm_sub c, cm_jti c) of
             (Some sub, Some jti) \<Rightarrow> if cm_type c = Some ''refresh'' then Some (sub, jti) else None
           | _ \<Rightarrow> None))"

text \<open>The guard of every route behind \<open>AuthGuard('jwt')\<close>: the token of the access cookie, then \<open>validate\<close>.\<close>

definition jwt_validate :: "'tok auth_env \<Rightarrow> millis \<Rightarrow> 'tok \<Rightarrow> user_row list \<Rightarrow> user_row option" where
  "jwt_validate env now token users =
     (case ae_verify env now token of
        None \<Rightarrow> None
      | Some c \<Rightarrow> (case cm_sub c of None \<Rightarrow> None | Some sub \<Rightarrow> findById env sub users))"

subsection \<open>State\<close>

record signup =
  su_nickname :: jstring
  su_password :: jstring
  su_allianceName :: jstring
  su_language :: string
  su_serverCode :: jstring


text \<open>A login or signup that opens a session: the user, the access token signed already, and \<open>now\<close> of \<open>issue\<close>.\<close>

record 'tok session_opening =
  op_request :: nat
  op_user :: user_row
  op_access :: 'tok
  op_now :: millis

datatype 'tok auth_task =
    QLogin nat jstring jstring
  | QExists nat signup
  | QSaveUser nat signup
  | QDeleteExpired "'tok session_opening"
  | QInsert "'tok session_opening"
  | QList "'tok session_opening" jstring
  | QTrim "'tok session_opening" jstring "int list"
  | QFindSession nat int jstring millis
  | QUpdateSession nat int int millis
  | QFindUser nat int jstring
  | QRevoke nat int jstring

datatype 'tok auth_reply =
    ReTokens 'tok 'tok user_row
  | ReDone
  | ReUnauthorized
  | ReForbidden
  | ReConflict
  | ReFailed

record 'tok auth_sys =
  as_users :: "user_row list"
  as_nextUser :: int
  as_sessions :: "session_row list"
  as_nextSession :: int
  as_next :: nat
  as_tasks :: "'tok auth_task list"
  as_replies :: "(nat \<times> 'tok auth_reply) list"

definition auth_start :: "'tok auth_sys" where
  "auth_start = \<lparr>as_users = [], as_nextUser = 1, as_sessions = [], as_nextSession = 1, as_next = 0, as_tasks = [], as_replies = []\<rparr>"

definition auth_answer :: "nat \<Rightarrow> 'tok auth_reply \<Rightarrow> 'tok auth_sys \<Rightarrow> 'tok auth_sys" where
  "auth_answer rid r s = s\<lparr>as_replies := as_replies s @ [(rid, r)]\<rparr>"

definition auth_wait :: "'tok auth_task \<Rightarrow> 'tok auth_sys \<Rightarrow> 'tok auth_sys" where
  "auth_wait t s = s\<lparr>as_tasks := as_tasks s @ [t]\<rparr>"

subsection \<open>Requests\<close>

text \<open>\<open>login\<close> and \<open>signup\<close> up to their first query.\<close>

definition auth_login :: "nat \<Rightarrow> jstring \<Rightarrow> jstring \<Rightarrow> 'tok auth_sys \<Rightarrow> 'tok auth_sys" where
  "auth_login rid nickname password s = auth_wait (QLogin rid nickname password) s"

definition auth_signup :: "'tok auth_env \<Rightarrow> nat \<Rightarrow> signup \<Rightarrow> 'tok auth_sys \<Rightarrow> 'tok auth_sys" where
  "auth_signup env rid dto s =
     (if Some (su_serverCode dto) \<noteq> ae_serverCode env then auth_answer rid ReForbidden s
      else if isQuarantinedLegacyAccount env (su_nickname dto) then auth_answer rid ReConflict s
      else auth_wait (QExists rid dto) s)"

text \<open>\<open>POST /auth/refresh\<close> and \<open>refreshTokens\<close> up to the query of \<open>rotate\<close>.\<close>

definition refreshTokens :: "'tok auth_env \<Rightarrow> millis \<Rightarrow> nat \<Rightarrow> 'tok option \<Rightarrow> 'tok auth_sys \<Rightarrow> 'tok auth_sys" where
  "refreshTokens env now rid cookie s =
     (case cookie of
        None \<Rightarrow> auth_answer rid ReUnauthorized s
      | Some token \<Rightarrow>
          (case refresh_claims (ae_verify env now token) of
             None \<Rightarrow> auth_answer rid ReUnauthorized s
           | Some (sub, jti) \<Rightarrow> auth_wait (QFindSession rid sub jti now) s))"

text \<open>\<open>logout\<close> of an authenticated user.\<close>

definition auth_logout :: "'tok auth_env \<Rightarrow> nat \<Rightarrow> int \<Rightarrow> 'tok option \<Rightarrow> 'tok auth_sys \<Rightarrow> 'tok auth_sys" where
  "auth_logout env rid userId cookie s =
     (case cookie of
        None \<Rightarrow> auth_answer rid ReDone s
      | Some token \<Rightarrow>
          (case refresh_claims (ae_decode env token) of
             None \<Rightarrow> auth_answer rid ReDone s
           | Some (sub, jti) \<Rightarrow> if sub \<noteq> userId then auth_answer rid ReDone s else auth_wait (QRevoke rid userId jti) s))"

subsection \<open>Queries\<close>

text \<open>After the user of a login or a signup is known: sign the access token and start \<open>issue\<close>.\<close>

definition open_session :: "'tok auth_env \<Rightarrow> millis \<Rightarrow> nat \<Rightarrow> user_row \<Rightarrow> 'tok auth_sys \<Rightarrow> 'tok auth_sys" where
  "open_session env now rid u s =
     auth_wait (QDeleteExpired \<lparr>op_request = rid, op_user = u, op_access = createAccessToken env now u, op_now = now\<rparr>) s"

definition login_query :: "'tok auth_env \<Rightarrow> millis \<Rightarrow> nat \<Rightarrow> jstring \<Rightarrow> jstring \<Rightarrow> 'tok auth_sys \<Rightarrow> 'tok auth_sys" where
  "login_query env now rid nickname password s =
     (case findByNickname env nickname (as_users s) of
        None \<Rightarrow> auth_answer rid ReUnauthorized s
      | Some u \<Rightarrow>
          if \<not> ae_compare env password (u_passwordHash u) then auth_answer rid ReUnauthorized s
          else open_session env now rid u s)"

definition exists_query :: "'tok auth_env \<Rightarrow> nat \<Rightarrow> signup \<Rightarrow> 'tok auth_sys \<Rightarrow> 'tok auth_sys" where
  "exists_query env rid dto s =
     (if list_ex (same_nickname env (su_nickname dto)) (as_users s) then auth_answer rid ReConflict s
      else auth_wait (QSaveUser rid dto) s)"

text \<open>The insert of a new user; the unique key of the nickname may refuse it.\<close>

definition new_user :: "'tok auth_env \<Rightarrow> nat \<Rightarrow> int \<Rightarrow> signup \<Rightarrow> user_row" where
  "new_user env salt i dto =
     \<lparr>u_id = i, u_nickname = su_nickname dto, u_passwordHash = ae_bcrypt env salt (su_password dto),
      u_allianceName = su_allianceName dto, u_role = ''member'', u_language = su_language dto,
      u_marchSeconds = None, u_isLeader = False\<rparr>"

definition save_user_query :: "'tok auth_env \<Rightarrow> millis \<Rightarrow> nat \<Rightarrow> nat \<Rightarrow> signup \<Rightarrow> 'tok auth_sys \<Rightarrow> 'tok auth_sys" where
  "save_user_query env now salt rid dto s =
     (if list_ex (same_nickname env (su_nickname dto)) (as_users s) then auth_answer rid ReFailed s
      else (let u = new_user env salt (as_nextUser s) dto
            in open_session env now rid u (s\<lparr>as_users := as_users s @ [u], as_nextUser := as_nextUser s + 1\<rparr>)))"

text \<open>The four queries of \<open>issue\<close>. The insert needs its user and a hash that is not in the table.\<close>

definition delete_expired_query :: "'tok session_opening \<Rightarrow> 'tok auth_sys \<Rightarrow> 'tok auth_sys" where
  "delete_expired_query p s =
     auth_wait (QInsert p) (s\<lparr>as_sessions := delete_expired (u_id (op_user p)) (op_now p) (as_sessions s)\<rparr>)"

definition insert_query :: "'tok auth_env \<Rightarrow> jstring \<Rightarrow> 'tok session_opening \<Rightarrow> 'tok auth_sys \<Rightarrow> 'tok auth_sys" where
  "insert_query env jti p s =
     (let userId = u_id (op_user p); hash = ae_digest env jti
      in if list_ex (\<lambda>r. rs_tokenHash r = hash) (as_sessions s) \<or> \<not> list_ex (\<lambda>u. u_id u = userId) (as_users s)
         then auth_answer (op_request p) ReFailed s
         else auth_wait (QList p jti)
                (s\<lparr>as_sessions := as_sessions s @
                     [\<lparr>rs_id = as_nextSession s, rs_userId = userId, rs_tokenHash = hash,
                       rs_expiresAt = op_now p + REFRESH_TOKEN_TTL_MS\<rparr>],
                   as_nextSession := as_nextSession s + 1\<rparr>))"

definition session_opened :: "'tok auth_env \<Rightarrow> millis \<Rightarrow> 'tok session_opening \<Rightarrow> jstring \<Rightarrow> 'tok auth_sys \<Rightarrow> 'tok auth_sys" where
  "session_opened env now p jti s =
     auth_answer (op_request p)
       (ReTokens (op_access p) (signRefreshToken env now (u_id (op_user p)) jti) (op_user p)) s"

definition list_query :: "'tok auth_env \<Rightarrow> millis \<Rightarrow> 'tok session_opening \<Rightarrow> jstring \<Rightarrow> 'tok auth_sys \<Rightarrow> 'tok auth_sys" where
  "list_query env now p jti s =
     (let surplus = surplus_sessions (u_id (op_user p)) (as_sessions s)
      in if surplus \<noteq> [] then auth_wait (QTrim p jti surplus) s else session_opened env now p jti s)"

definition trim_query ::
    "'tok auth_env \<Rightarrow> millis \<Rightarrow> 'tok session_opening \<Rightarrow> jstring \<Rightarrow> int list \<Rightarrow> 'tok auth_sys \<Rightarrow> 'tok auth_sys" where
  "trim_query env now p jti surplus s =
     session_opened env now p jti (s\<lparr>as_sessions := delete_ids surplus (as_sessions s)\<rparr>)"

text \<open>\<open>rotate\<close> and the rest of \<open>refreshTokens\<close>.\<close>

definition find_session_query ::
    "'tok auth_env \<Rightarrow> nat \<Rightarrow> int \<Rightarrow> jstring \<Rightarrow> millis \<Rightarrow> 'tok auth_sys \<Rightarrow> 'tok auth_sys" where
  "find_session_query env rid sub jti now s =
     (case find_session env sub jti (as_sessions s) of
        None \<Rightarrow> auth_answer rid ReUnauthorized s
      | Some row \<Rightarrow>
          if rs_expiresAt row \<le> now then auth_answer rid ReUnauthorized s
          else auth_wait (QUpdateSession rid sub (rs_id row) now) s)"

definition update_session_query ::
    "'tok auth_env \<Rightarrow> jstring \<Rightarrow> nat \<Rightarrow> int \<Rightarrow> int \<Rightarrow> millis \<Rightarrow> 'tok auth_sys \<Rightarrow> 'tok auth_sys" where
  "update_session_query env next rid sub rowId now s =
     (case update_session rowId (ae_digest env next) (now + REFRESH_TOKEN_TTL_MS) (as_sessions s) of
        None \<Rightarrow> auth_answer rid ReFailed s
      | Some rows \<Rightarrow> auth_wait (QFindUser rid sub next) (s\<lparr>as_sessions := rows\<rparr>))"

definition find_user_query :: "'tok auth_env \<Rightarrow> millis \<Rightarrow> nat \<Rightarrow> int \<Rightarrow> jstring \<Rightarrow> 'tok auth_sys \<Rightarrow> 'tok auth_sys" where
  "find_user_query env now rid sub next s =
     (case findById env sub (as_users s) of
        None \<Rightarrow> auth_answer rid ReUnauthorized s
      | Some u \<Rightarrow> auth_answer rid (ReTokens (createAccessToken env now u) (signRefreshToken env now (u_id u) next) u) s)"

definition revoke_query :: "'tok auth_env \<Rightarrow> nat \<Rightarrow> int \<Rightarrow> jstring \<Rightarrow> 'tok auth_sys \<Rightarrow> 'tok auth_sys" where
  "revoke_query env rid userId jti s =
     auth_answer rid ReDone (s\<lparr>as_sessions := revoke_session env userId jti (as_sessions s)\<rparr>)"

definition task_request :: "'tok auth_task \<Rightarrow> nat" where
  "task_request t =
     (case t of
        QLogin rid _ _ \<Rightarrow> rid | QExists rid _ \<Rightarrow> rid | QSaveUser rid _ \<Rightarrow> rid
      | QDeleteExpired p \<Rightarrow> op_request p | QInsert p \<Rightarrow> op_request p | QList p _ \<Rightarrow> op_request p | QTrim p _ _ \<Rightarrow> op_request p
      | QFindSession rid _ _ _ \<Rightarrow> rid | QUpdateSession rid _ _ _ \<Rightarrow> rid | QFindUser rid _ _ \<Rightarrow> rid | QRevoke rid _ _ \<Rightarrow> rid)"

text \<open>One query with the random values drawn for it, a salt and a new \<open>jti\<close>.\<close>

definition auth_query :: "'tok auth_env \<Rightarrow> millis \<Rightarrow> nat \<Rightarrow> jstring \<Rightarrow> 'tok auth_task \<Rightarrow> 'tok auth_sys \<Rightarrow> 'tok auth_sys" where
  "auth_query env now salt uuid t s =
     (case t of
        QLogin rid nickname password \<Rightarrow> login_query env now rid nickname password s
      | QExists rid dto \<Rightarrow> exists_query env rid dto s
      | QSaveUser rid dto \<Rightarrow> save_user_query env now salt rid dto s
      | QDeleteExpired p \<Rightarrow> delete_expired_query p s
      | QInsert p \<Rightarrow> insert_query env uuid p s
      | QList p jti \<Rightarrow> list_query env now p jti s
      | QTrim p jti surplus \<Rightarrow> trim_query env now p jti surplus s
      | QFindSession rid sub jti t0 \<Rightarrow> find_session_query env rid sub jti t0 s
      | QUpdateSession rid sub rowId t0 \<Rightarrow> update_session_query env uuid rid sub rowId t0 s
      | QFindUser rid sub jti \<Rightarrow> find_user_query env now rid sub jti s
      | QRevoke rid userId jti \<Rightarrow> revoke_query env rid userId jti s)"

subsection \<open>Administration\<close>

text \<open>A change of a user gives the nickname whose sockets are closed, if the operation closes any.\<close>

definition admin_update :: "int \<Rightarrow> (user_row \<Rightarrow> user_row) \<Rightarrow> 'tok auth_sys \<Rightarrow> 'tok auth_sys" where
  "admin_update i f s = s\<lparr>as_users := map (\<lambda>u. if u_id u = i then f u else u) (as_users s)\<rparr>"

definition changeRole :: "int \<Rightarrow> string \<Rightarrow> 'tok auth_sys \<Rightarrow> jstring option \<times> 'tok auth_sys" where
  "changeRole i role s =
     (case List.find (\<lambda>u. u_id u = i) (as_users s) of
        None \<Rightarrow> (None, s)
      | Some u \<Rightarrow> (Some (u_nickname u), admin_update i (\<lambda>u. u\<lparr>u_role := role\<rparr>) s))"

definition setLeader :: "int \<Rightarrow> bool \<Rightarrow> 'tok auth_sys \<Rightarrow> 'tok auth_sys" where
  "setLeader i isLeader s = admin_update i (\<lambda>u. u\<lparr>u_isLeader := isLeader\<rparr>) s"

text \<open>\<open>banUser\<close>: the row goes and its sessions with it (\<open>ON DELETE CASCADE\<close>).\<close>

definition banUser :: "int \<Rightarrow> int \<Rightarrow> 'tok auth_sys \<Rightarrow> jstring option \<times> 'tok auth_sys" where
  "banUser i requesterId s =
     (if i = requesterId then (None, s)
      else (case List.find (\<lambda>u. u_id u = i) (as_users s) of
              None \<Rightarrow> (None, s)
            | Some u \<Rightarrow>
                (Some (u_nickname u),
                 s\<lparr>as_users := filter (\<lambda>v. u_id v \<noteq> i) (as_users s),
                   as_sessions := filter (\<lambda>r. rs_userId r \<noteq> i) (as_sessions s)\<rparr>)))"

subsection \<open>Runs\<close>

datatype 'tok auth_op =
    AoLogin jstring jstring
  | AoSignup signup
  | AoRefresh "'tok option"
  | AoLogout int "'tok option"
  | AoQuery nat nat jstring
  | AoQueryFails nat
  | AoRole int string
  | AoLeader int bool
  | AoBan int int

definition auth_exec :: "'tok auth_env \<Rightarrow> millis \<Rightarrow> 'tok auth_op \<Rightarrow> 'tok auth_sys \<Rightarrow> 'tok auth_sys" where
  "auth_exec env now op s =
     (let rid = as_next s; s' = s\<lparr>as_next := Suc (as_next s)\<rparr>
      in case op of
           AoLogin nickname password \<Rightarrow> auth_login rid nickname password s'
         | AoSignup dto \<Rightarrow> auth_signup env rid dto s'
         | AoRefresh cookie \<Rightarrow> refreshTokens env now rid cookie s'
         | AoLogout userId cookie \<Rightarrow> auth_logout env rid userId cookie s'
         | AoQuery i salt uuid \<Rightarrow>
             if i < length (as_tasks s)
             then auth_query env now salt uuid (as_tasks s ! i) (s\<lparr>as_tasks := without_nth i (as_tasks s)\<rparr>) else s
         | AoQueryFails i \<Rightarrow>
             if i < length (as_tasks s)
             then auth_answer (task_request (as_tasks s ! i)) ReFailed (s\<lparr>as_tasks := without_nth i (as_tasks s)\<rparr>) else s
         | AoRole i role \<Rightarrow> snd (changeRole i role s)
         | AoLeader i isLeader \<Rightarrow> setLeader i isLeader s
         | AoBan i requester \<Rightarrow> snd (banUser i requester s))"

fun auth_run :: "'tok auth_env \<Rightarrow> millis \<Rightarrow> (nat \<times> 'tok auth_op) list \<Rightarrow> 'tok auth_sys \<Rightarrow> millis \<times> 'tok auth_sys" where
  "auth_run env now [] s = (now, s)"
| "auth_run env now ((dt, op) # ops) s = auth_run env (now + int dt) ops (auth_exec env (now + int dt) op s)"

end
