(* ===== verification/AccountRules.thy ===== *)
theory AccountRules
  imports Accounts
begin

text \<open>What every run of the account requests keeps of the tables, and how many sessions a user has.\<close>

subsection \<open>What a query does to the tables\<close>

named_theorems auth_simps "fields after an answer or a wait"

lemma auth_answer_fields [simp, auth_simps]:
  "as_next (auth_answer rid r s) = as_next s" "as_users (auth_answer rid r s) = as_users s" "as_nextUser (auth_answer rid r s) = as_nextUser s"
  "as_sessions (auth_answer rid r s) = as_sessions s" "as_nextSession (auth_answer rid r s) = as_nextSession s"
  "as_tasks (auth_answer rid r s) = as_tasks s" "as_replies (auth_answer rid r s) = as_replies s @ [(rid, r)]"
  by (simp_all add: auth_answer_def)

lemma auth_wait_fields [simp, auth_simps]:
  "as_next (auth_wait t s) = as_next s" "as_users (auth_wait t s) = as_users s" "as_nextUser (auth_wait t s) = as_nextUser s"
  "as_sessions (auth_wait t s) = as_sessions s" "as_nextSession (auth_wait t s) = as_nextSession s"
  "as_tasks (auth_wait t s) = as_tasks s @ [t]" "as_replies (auth_wait t s) = as_replies s"
  by (simp_all add: auth_wait_def)

lemma session_opened_fields [simp, auth_simps]:
  "as_next (session_opened env now p jti s) = as_next s" "as_users (session_opened env now p jti s) = as_users s" "as_nextUser (session_opened env now p jti s) = as_nextUser s"
  "as_sessions (session_opened env now p jti s) = as_sessions s"
  "as_nextSession (session_opened env now p jti s) = as_nextSession s"
  "as_tasks (session_opened env now p jti s) = as_tasks s"
  by (simp_all add: session_opened_def)

lemmas query_defs = auth_query_def login_query_def exists_query_def save_user_query_def delete_expired_query_def
  insert_query_def list_query_def trim_query_def find_session_query_def update_session_query_def find_user_query_def
  revoke_query_def open_session_def

lemmas request_defs = auth_login_def auth_signup_def refreshTokens_def auth_logout_def

text \<open>The changes of the table of sessions.\<close>

definition shrunk :: "'tok auth_sys \<Rightarrow> 'tok auth_sys \<Rightarrow> bool" where
  "shrunk s s' \<longleftrightarrow> (\<exists>P. as_sessions s' = filter P (as_sessions s)) \<and> as_nextSession s' = as_nextSession s"

definition grown :: "'tok auth_sys \<Rightarrow> jstring \<Rightarrow> 'tok auth_sys \<Rightarrow> bool" where
  "grown s hash s' \<longleftrightarrow>
     (\<exists>row. as_sessions s' = as_sessions s @ [row] \<and> rs_id row = as_nextSession s \<and> rs_tokenHash row = hash \<and>
        hash \<notin> rs_tokenHash ` set (as_sessions s) \<and> rs_userId row \<in> u_id ` set (as_users s)) \<and>
     as_nextSession s' = as_nextSession s + 1"

definition rotated :: "'tok auth_sys \<Rightarrow> jstring \<Rightarrow> 'tok auth_sys \<Rightarrow> bool" where
  "rotated s hash s' \<longleftrightarrow>
     (\<exists>rowId t. update_session rowId hash t (as_sessions s) = Some (as_sessions s')) \<and> as_nextSession s' = as_nextSession s"

lemma shrunk_refl: "as_sessions s' = as_sessions s \<Longrightarrow> as_nextSession s' = as_nextSession s \<Longrightarrow> shrunk s s'"
  unfolding shrunk_def by (intro conjI exI [of _ "\<lambda>_. True"]) simp_all

lemma shrunk_filter: "as_sessions s' = filter P (as_sessions s) \<Longrightarrow> as_nextSession s' = as_nextSession s \<Longrightarrow> shrunk s s'"
  unfolding shrunk_def by blast

lemma query_sessions:
  "shrunk s (auth_query env now salt uuid t s) \<or> grown s (ae_digest env uuid) (auth_query env now salt uuid t s) \<or>
   rotated s (ae_digest env uuid) (auth_query env now salt uuid t s)"
proof (cases t)
  case (QDeleteExpired p)
  then have "shrunk s (auth_query env now salt uuid t s)"
    by (intro shrunk_filter) (simp_all add: query_defs delete_expired_def)
  then show ?thesis by blast
next
  case (QTrim p jti surplus)
  then have "shrunk s (auth_query env now salt uuid t s)" by (intro shrunk_filter) (simp_all add: query_defs delete_ids_def)
  then show ?thesis by blast
next
  case (QRevoke rid u jti)
  then have "shrunk s (auth_query env now salt uuid t s)" by (intro shrunk_filter) (simp_all add: query_defs revoke_session_def)
  then show ?thesis by blast
next
  case (QInsert p)
  show ?thesis
  proof (cases "list_ex (\<lambda>r. rs_tokenHash r = ae_digest env uuid) (as_sessions s) \<or> \<not> list_ex (\<lambda>u. u_id u = u_id (op_user p)) (as_users s)")
    case True
    then have "shrunk s (auth_query env now salt uuid t s)" by (intro shrunk_refl) (simp_all add: QInsert query_defs Let_def)
    then show ?thesis by blast
  next
    case False
    then have "grown s (ae_digest env uuid) (auth_query env now salt uuid t s)"
      by (auto simp: QInsert query_defs Let_def grown_def list_ex_iff image_iff) metis+
    then show ?thesis by blast
  qed
next
  case (QUpdateSession rid sub rowId t0)
  show ?thesis
  proof (cases "update_session rowId (ae_digest env uuid) (t0 + REFRESH_TOKEN_TTL_MS) (as_sessions s)")
    case None
    then have "shrunk s (auth_query env now salt uuid t s)" by (intro shrunk_refl) (simp_all add: QUpdateSession query_defs)
    then show ?thesis by blast
  next
    case (Some rows)
    then have "rotated s (ae_digest env uuid) (auth_query env now salt uuid t s)"
      by (auto simp: QUpdateSession query_defs rotated_def)
    then show ?thesis by blast
  qed
next
  case (QLogin rid nickname password)
  then have "shrunk s (auth_query env now salt uuid t s)"
    by (intro shrunk_refl) (simp_all add: query_defs split: option.split)
  then show ?thesis by blast
next
  case (QExists rid dto)
  then have "shrunk s (auth_query env now salt uuid t s)" by (intro shrunk_refl) (simp_all add: query_defs)
  then show ?thesis by blast
next
  case (QSaveUser rid dto)
  then have "shrunk s (auth_query env now salt uuid t s)" by (intro shrunk_refl) (simp_all add: query_defs Let_def)
  then show ?thesis by blast
next
  case (QList p jti)
  then have "shrunk s (auth_query env now salt uuid t s)" by (intro shrunk_refl) (simp_all add: query_defs Let_def)
  then show ?thesis by blast
next
  case (QFindSession rid sub jti t0)
  then have "shrunk s (auth_query env now salt uuid t s)"
    by (intro shrunk_refl) (simp_all add: query_defs split: option.split)
  then show ?thesis by blast
next
  case (QFindUser rid sub jti)
  then have "shrunk s (auth_query env now salt uuid t s)"
    by (intro shrunk_refl) (simp_all add: query_defs split: option.split)
  then show ?thesis by blast
qed

text \<open>The random value an operation uses.\<close>

definition op_uuid :: "'tok auth_op \<Rightarrow> jstring option" where
  "op_uuid op = (case op of AoQuery _ _ uuid \<Rightarrow> Some uuid | _ \<Rightarrow> None)"

lemma exec_sessions:
  "shrunk s (auth_exec env now op s) \<or>
   (\<exists>uuid. op_uuid op = Some uuid \<and>
      (grown s (ae_digest env uuid) (auth_exec env now op s) \<or> rotated s (ae_digest env uuid) (auth_exec env now op s)))"
proof (cases op)
  case (AoQuery i salt uuid)
  define s0 where "s0 = s\<lparr>as_tasks := without_nth i (as_tasks s)\<rparr>"
  show ?thesis
  proof (cases "i < length (as_tasks s)")
    case True
    then have e: "auth_exec env now op s = auth_query env now salt uuid (as_tasks s ! i) s0"
      by (simp add: AoQuery auth_exec_def Let_def s0_def)
    have "shrunk s0 s' = shrunk s s'" "grown s0 h s' = grown s h s'" "rotated s0 h s' = rotated s h s'" for s' h
      by (simp_all add: s0_def shrunk_def grown_def rotated_def)
    then show ?thesis using query_sessions [of s0 env now salt uuid "as_tasks s ! i"] unfolding e by (simp add: AoQuery op_uuid_def)
  next
    case False
    then show ?thesis by (simp add: AoQuery auth_exec_def Let_def shrunk_refl)
  qed
next
  case (AoBan i requester)
  have "shrunk s (snd (banUser i requester s))"
  proof (cases "i = requester \<or> List.find (\<lambda>u. u_id u = i) (as_users s) = None")
    case True
    then show ?thesis by (intro shrunk_refl) (auto simp: banUser_def)
  next
    case False
    then show ?thesis by (intro shrunk_filter) (auto simp: banUser_def)
  qed
  then show ?thesis by (simp add: AoBan auth_exec_def Let_def)
qed (auto simp: auth_exec_def Let_def request_defs changeRole_def setLeader_def admin_update_def
      intro!: shrunk_refl split: option.split prod.split)

subsection \<open>Ids and hashes\<close>

definition table_inv :: "'tok auth_sys \<Rightarrow> bool" where
  "table_inv s \<longleftrightarrow> distinct (map rs_id (as_sessions s)) \<and> (\<forall>r\<in>set (as_sessions s). rs_id r < as_nextSession s) \<and>
     distinct (map rs_tokenHash (as_sessions s))"

lemma update_session_hashes:
  assumes "distinct (map rs_id rows)" "distinct (map rs_tokenHash rows)" "update_session rowId hash t rows = Some rows'"
  shows "map rs_id rows' = map rs_id rows" "map rs_userId rows' = map rs_userId rows" "distinct (map rs_tokenHash rows')"
    and "set (map rs_tokenHash rows') \<subseteq> insert hash (set (map rs_tokenHash rows))"
proof -
  define f :: "session_row \<Rightarrow> session_row" where "f = (\<lambda>r. if rs_id r = rowId then r\<lparr>rs_tokenHash := hash, rs_expiresAt := t\<rparr> else r)"
  have rows': "rows' = map f rows" and no: "list_ex (\<lambda>r. rs_id r = rowId) rows \<Longrightarrow> \<not> list_ex (\<lambda>r. rs_id r \<noteq> rowId \<and> rs_tokenHash r = hash) rows"
    using assms(3) by (auto simp: update_session_def f_def split: if_splits)
  show "map rs_id rows' = map rs_id rows" "map rs_userId rows' = map rs_userId rows" by (auto simp: rows' f_def)
  show "set (map rs_tokenHash rows') \<subseteq> insert hash (set (map rs_tokenHash rows))" by (auto simp: rows' f_def)
  have "inj_on (rs_tokenHash \<circ> f) (set rows)"
  proof (rule inj_onI)
    fix x y assume xy: "x \<in> set rows" "y \<in> set rows" "(rs_tokenHash \<circ> f) x = (rs_tokenHash \<circ> f) y"
    have "rs_id x = rs_id y"
    proof (rule ccontr)
      assume ne: "rs_id x \<noteq> rs_id y"
      show False
        using xy ne no distinct_map_eqD [OF assms(2) xy(1,2)] by (auto simp: f_def list_ex_iff split: if_splits)
    qed
    then show "x = y" using distinct_map_eqD [OF assms(1) xy(1,2)] by blast
  qed
  moreover have "distinct rows" using assms(1) by (simp add: distinct_map)
  ultimately show "distinct (map rs_tokenHash rows')" by (simp add: rows' distinct_map)
qed

lemma table_inv_grown:
  assumes inv: "table_inv s" and g: "grown s h s'"
  shows "table_inv s'"
proof -
  obtain row where r: "as_sessions s' = as_sessions s @ [row]" "rs_id row = as_nextSession s" "rs_tokenHash row = h"
    "h \<notin> rs_tokenHash ` set (as_sessions s)" "as_nextSession s' = as_nextSession s + 1"
    using g by (auto simp: grown_def)
  have "as_nextSession s \<notin> rs_id ` set (as_sessions s)" using inv by (auto simp: table_inv_def)
  then show ?thesis using inv r by (auto simp: table_inv_def)
qed

lemma table_inv_rotated:
  assumes inv: "table_inv s" and g: "rotated s h s'"
  shows "table_inv s'" "set (map rs_tokenHash (as_sessions s')) \<subseteq> insert h (set (map rs_tokenHash (as_sessions s)))"
proof -
  obtain rowId t where u: "update_session rowId h t (as_sessions s) = Some (as_sessions s')" "as_nextSession s' = as_nextSession s"
    using g by (auto simp: rotated_def)
  have d: "distinct (map rs_id (as_sessions s))" "distinct (map rs_tokenHash (as_sessions s))" using inv by (simp_all add: table_inv_def)
  note h = update_session_hashes [OF d u(1)]
  have "rs_id ` set (as_sessions s') = rs_id ` set (as_sessions s)" using h(1) by (metis image_set)
  then have "\<forall>r\<in>set (as_sessions s'). rs_id r < as_nextSession s'"
    using inv u(2) unfolding table_inv_def by (metis (no_types, lifting) image_iff)
  then show "table_inv s'" using h(1,3) d by (simp add: table_inv_def)
  show "set (map rs_tokenHash (as_sessions s')) \<subseteq> insert h (set (map rs_tokenHash (as_sessions s)))" by (rule h(4))
qed

lemma table_inv_shrunk: "table_inv s \<Longrightarrow> shrunk s s' \<Longrightarrow> table_inv s'"
  by (auto simp: table_inv_def shrunk_def distinct_map_filter)

lemma table_inv_exec: "table_inv s \<Longrightarrow> table_inv (auth_exec env now op s)"
  using exec_sessions [of s env now op] table_inv_grown table_inv_rotated(1) table_inv_shrunk by metis

lemma auth_run_invariant:
  assumes "P s" and "\<And>now op s. P s \<Longrightarrow> P (auth_exec env now op s)" and "auth_run env now ops s = (now', s')"
  shows "P s'"
  using assms(1,3)
proof (induction ops arbitrary: now s)
  case (Cons o' ops)
  obtain dt op where o': "o' = (dt, op)" by (cases o')
  show ?case
    by (rule Cons.IH [OF assms(2) [where now = "now + int dt" and op = op, OF Cons.prems(1)]]) (use Cons.prems(2) o' in simp)
qed simp

lemma table_inv_run: "auth_run env now ops auth_start = (now', s) \<Longrightarrow> table_inv s"
  by (rule auth_run_invariant [where P = table_inv]) (auto simp: table_inv_exec, simp add: table_inv_def auth_start_def)

text \<open>A hash that is not in the table stays out while its key is not drawn again.\<close>

lemma hash_stays_out:
  assumes out: "h \<notin> rs_tokenHash ` set (as_sessions s)" and inv: "table_inv s"
    and new: "\<And>uuid. op_uuid op = Some uuid \<Longrightarrow> ae_digest env uuid \<noteq> h"
  shows "h \<notin> rs_tokenHash ` set (as_sessions (auth_exec env now op s))"
  using exec_sessions [of s env now op]
proof (elim disjE exE conjE)
  assume "shrunk s (auth_exec env now op s)"
  then show ?thesis using out by (auto simp: shrunk_def)
next
  fix uuid assume u: "op_uuid op = Some uuid" "grown s (ae_digest env uuid) (auth_exec env now op s)"
  then show ?thesis using out new [OF u(1)] by (auto simp: grown_def)
next
  fix uuid assume u: "op_uuid op = Some uuid" "rotated s (ae_digest env uuid) (auth_exec env now op s)"
  show ?thesis using table_inv_rotated(2) [OF inv u(2)] new [OF u(1)] out by auto
qed

definition draws :: "'tok auth_env \<Rightarrow> jstring \<Rightarrow> 'tok auth_op \<Rightarrow> bool" where
  "draws env h op = (case op_uuid op of None \<Rightarrow> False | Some uuid \<Rightarrow> ae_digest env uuid = h)"

lemma hash_stays_out_run:
  "h \<notin> rs_tokenHash ` set (as_sessions s) \<Longrightarrow> table_inv s \<Longrightarrow>
   list_all (\<lambda>x. \<not> draws env h (snd x)) ops \<Longrightarrow> auth_run env now ops s = (now', s') \<Longrightarrow>
   h \<notin> rs_tokenHash ` set (as_sessions s')"
proof (induction ops arbitrary: now s)
  case (Cons x ops)
  obtain dt op where x: "x = (dt, op)" by (cases x)
  have "h \<notin> rs_tokenHash ` set (as_sessions (auth_exec env (now + int dt) op s))"
    using Cons.prems(3) by (intro hash_stays_out [OF Cons.prems(1,2)]) (simp add: x draws_def)
  from Cons.IH [OF this table_inv_exec [OF Cons.prems(2)]] Cons.prems(3,4) show ?case by (simp add: x)
qed simp


subsection \<open>Users\<close>

definition users_inv :: "'tok auth_env \<Rightarrow> 'tok auth_sys \<Rightarrow> bool" where
  "users_inv env s \<longleftrightarrow> distinct (map (ae_collate env \<circ> u_nickname) (as_users s)) \<and> distinct (map u_id (as_users s)) \<and>
     (\<forall>u\<in>set (as_users s). u_id u < as_nextUser s) \<and> rs_userId ` set (as_sessions s) \<subseteq> u_id ` set (as_users s)"

definition users_kept :: "'tok auth_sys \<Rightarrow> 'tok auth_sys \<Rightarrow> bool" where
  "users_kept s s' \<longleftrightarrow> map u_id (as_users s') = map u_id (as_users s) \<and>
     map u_nickname (as_users s') = map u_nickname (as_users s) \<and> as_nextUser s' = as_nextUser s"

definition user_saved :: "'tok auth_env \<Rightarrow> 'tok auth_sys \<Rightarrow> 'tok auth_sys \<Rightarrow> bool" where
  "user_saved env s s' \<longleftrightarrow> (\<exists>u. as_users s' = as_users s @ [u] \<and> u_id u = as_nextUser s \<and>
       \<not> list_ex (same_nickname env (u_nickname u)) (as_users s)) \<and>
     as_nextUser s' = as_nextUser s + 1 \<and> as_sessions s' = as_sessions s"

definition user_removed :: "int \<Rightarrow> 'tok auth_sys \<Rightarrow> 'tok auth_sys \<Rightarrow> bool" where
  "user_removed i s s' \<longleftrightarrow> as_users s' = filter (\<lambda>v. u_id v \<noteq> i) (as_users s) \<and>
     as_sessions s' = filter (\<lambda>r. rs_userId r \<noteq> i) (as_sessions s) \<and> as_nextUser s' = as_nextUser s"

lemma users_kept_same: "as_users s' = as_users s \<Longrightarrow> as_nextUser s' = as_nextUser s \<Longrightarrow> users_kept s s'"
  by (simp add: users_kept_def)

lemma query_users:
  "users_kept s (auth_query env now salt uuid t s) \<or> user_saved env s (auth_query env now salt uuid t s)"
proof (cases t)
  case (QSaveUser rid dto)
  show ?thesis
  proof (cases "list_ex (same_nickname env (su_nickname dto)) (as_users s)")
    case True
    then have "users_kept s (auth_query env now salt uuid t s)"
      by (intro users_kept_same) (simp_all add: QSaveUser query_defs Let_def)
    then show ?thesis ..
  next
    case False
    then have "user_saved env s (auth_query env now salt uuid t s)"
      by (simp add: QSaveUser query_defs Let_def user_saved_def new_user_def)
    then show ?thesis ..
  qed
next
  case (QUpdateSession rid sub rowId t0)
  then have "users_kept s (auth_query env now salt uuid t s)"
    by (intro users_kept_same) (simp_all add: query_defs split: option.split)
  then show ?thesis ..
next
  case (QLogin rid nickname password)
  then have "users_kept s (auth_query env now salt uuid t s)"
    by (intro users_kept_same) (simp_all add: query_defs split: option.split)
  then show ?thesis ..
next
  case (QFindSession rid sub jti t0)
  then have "users_kept s (auth_query env now salt uuid t s)"
    by (intro users_kept_same) (simp_all add: query_defs split: option.split)
  then show ?thesis ..
next
  case (QFindUser rid sub jti)
  then have "users_kept s (auth_query env now salt uuid t s)"
    by (intro users_kept_same) (simp_all add: query_defs split: option.split)
  then show ?thesis ..
qed (use users_kept_same in \<open>auto simp: query_defs Let_def intro!: users_kept_same\<close>)

lemma exec_users:
  "users_kept s (auth_exec env now op s) \<or> user_saved env s (auth_exec env now op s) \<or>
   (\<exists>i. user_removed i s (auth_exec env now op s))"
proof (cases op)
  case (AoQuery i salt uuid)
  define s0 where "s0 = s\<lparr>as_tasks := without_nth i (as_tasks s)\<rparr>"
  show ?thesis
  proof (cases "i < length (as_tasks s)")
    case True
    then have e: "auth_exec env now op s = auth_query env now salt uuid (as_tasks s ! i) s0"
      by (simp add: AoQuery auth_exec_def Let_def s0_def)
    have "users_kept s0 s' = users_kept s s'" "user_saved env s0 s' = user_saved env s s'" for s'
      by (simp_all add: s0_def users_kept_def user_saved_def)
    then show ?thesis using query_users [of s0 env now salt uuid "as_tasks s ! i"] unfolding e by auto
  next
    case False
    then show ?thesis by (simp add: AoQuery auth_exec_def Let_def users_kept_same)
  qed
next
  case (AoBan i requester)
  show ?thesis
  proof (cases "i = requester \<or> List.find (\<lambda>u. u_id u = i) (as_users s) = None")
    case True
    then have "auth_exec env now op s = s" by (auto simp: AoBan auth_exec_def Let_def banUser_def)
    then show ?thesis by (simp add: users_kept_same)
  next
    case False
    then have "user_removed i s (auth_exec env now op s)" by (auto simp: AoBan auth_exec_def Let_def banUser_def user_removed_def)
    then show ?thesis by blast
  qed
next
  case (AoRole i role)
  have "users_kept s (auth_exec env now op s)"
    by (auto simp: AoRole auth_exec_def Let_def changeRole_def admin_update_def users_kept_def split: option.split)
  then show ?thesis ..
next
  case (AoLeader i isLeader)
  have "users_kept s (auth_exec env now op s)"
    by (auto simp: AoLeader auth_exec_def Let_def setLeader_def admin_update_def users_kept_def)
  then show ?thesis ..
qed (auto simp: auth_exec_def Let_def request_defs intro!: users_kept_same split: option.split prod.split)

lemma update_session_users: "update_session rowId hash t rows = Some rows' \<Longrightarrow> map rs_userId rows' = map rs_userId rows"
  by (auto simp: update_session_def split: if_splits)

lemma users_inv_exec:
  assumes inv: "users_inv env s"
  shows "users_inv env (auth_exec env now op s)"
  using exec_users [of s env now op]
proof (elim disjE exE)
  assume k: "users_kept s (auth_exec env now op s)"
  have ids: "u_id ` set (as_users (auth_exec env now op s)) = u_id ` set (as_users s)"
    using k unfolding users_kept_def by (metis image_set)
  have "rs_userId ` set (as_sessions (auth_exec env now op s)) \<subseteq> u_id ` set (as_users s)"
    using exec_sessions [of s env now op]
  proof (elim disjE exE conjE)
    assume "shrunk s (auth_exec env now op s)"
    then show ?thesis using inv by (auto simp: shrunk_def users_inv_def)
  next
    fix uuid assume "grown s (ae_digest env uuid) (auth_exec env now op s)"
    then obtain row where "as_sessions (auth_exec env now op s) = as_sessions s @ [row]" "rs_userId row \<in> u_id ` set (as_users s)"
      by (auto simp: grown_def)
    then show ?thesis using inv by (simp add: users_inv_def)
  next
    fix uuid assume "rotated s (ae_digest env uuid) (auth_exec env now op s)"
    then have "rs_userId ` set (as_sessions (auth_exec env now op s)) = rs_userId ` set (as_sessions s)"
      unfolding rotated_def using update_session_users by (metis image_set)
    then show ?thesis using inv by (simp add: users_inv_def)
  qed
  moreover have "\<forall>u\<in>set (as_users (auth_exec env now op s)). u_id u < as_nextUser (auth_exec env now op s)"
    using inv k ids unfolding users_inv_def users_kept_def by (metis image_iff)
  moreover have "map (ae_collate env \<circ> u_nickname) (as_users (auth_exec env now op s)) = map (ae_collate env \<circ> u_nickname) (as_users s)"
    using k unfolding users_kept_def by (metis list.map_comp)
  ultimately show ?thesis using inv k ids by (simp add: users_inv_def users_kept_def)
next
  assume k: "user_saved env s (auth_exec env now op s)"
  then obtain u where u: "as_users (auth_exec env now op s) = as_users s @ [u]" "u_id u = as_nextUser s"
    "\<not> list_ex (same_nickname env (u_nickname u)) (as_users s)" by (auto simp: user_saved_def)
  have "ae_collate env (u_nickname u) \<notin> (ae_collate env \<circ> u_nickname) ` set (as_users s)"
    using u(3) by (force simp: list_ex_iff same_nickname_def)
  then show ?thesis using inv k u(1,2) by (auto simp: users_inv_def user_saved_def)
next
  fix i assume "user_removed i s (auth_exec env now op s)"
  then show ?thesis using inv by (auto simp: users_inv_def user_removed_def distinct_map_filter)
qed

lemma users_inv_run: "auth_run env now ops auth_start = (now', s) \<Longrightarrow> users_inv env s"
  by (rule auth_run_invariant [where P = "users_inv env"]) (auto simp: users_inv_exec, simp add: users_inv_def auth_start_def)

text \<open>An id that is not in use any more is not used again.\<close>

definition gone :: "int \<Rightarrow> 'tok auth_sys \<Rightarrow> bool" where
  "gone i s \<longleftrightarrow> i < as_nextUser s \<and> i \<notin> u_id ` set (as_users s)"

lemma gone_exec: "gone i s \<Longrightarrow> gone i (auth_exec env now op s)"
  using exec_users [of s env now op]
proof (elim disjE exE)
  assume "gone i s" and k: "users_kept s (auth_exec env now op s)"
  moreover have "u_id ` set (as_users (auth_exec env now op s)) = u_id ` set (as_users s)"
    using k unfolding users_kept_def by (metis image_set)
  ultimately show ?thesis by (simp add: gone_def users_kept_def)
qed (auto simp: gone_def user_saved_def user_removed_def)

lemma gone_run: "gone i s \<Longrightarrow> auth_run env now ops s = (now', s') \<Longrightarrow> gone i s'"
  by (rule auth_run_invariant [where P = "gone i"]) (auto simp: gone_exec)

subsection \<open>How many sessions a user has\<close>

definition newer_sessions :: "int \<Rightarrow> int \<Rightarrow> session_row list \<Rightarrow> nat" where
  "newer_sessions u x rows = length (filter (\<lambda>r. x < rs_id r) (sessions_of u rows))"

lemma drop_descending:
  "sorted_wrt (>) xs \<Longrightarrow> x \<in> set (drop n xs) \<longleftrightarrow> x \<in> set xs \<and> n \<le> length (filter (\<lambda>y. x < y) (xs :: int list))"
proof (induction xs arbitrary: n)
  case (Cons a xs)
  have none: "filter (\<lambda>y. a < y) xs = []" using Cons.prems by (auto simp: filter_empty_conv)
  show ?case
  proof (cases n)
    case (Suc m)
    have "x \<in> set (drop m xs) \<longleftrightarrow> x \<in> set xs \<and> m \<le> length (filter (\<lambda>y. x < y) xs)" using Cons by simp
    then show ?thesis using Suc Cons.prems none by auto
  qed simp
qed simp

lemma surplus_iff:
  assumes "distinct (map rs_id rows)"
  shows "x \<in> set (surplus_sessions u rows) \<longleftrightarrow> x \<in> rs_id ` set (sessions_of u rows) \<and> MAX_SESSIONS_PER_USER \<le> newer_sessions u x rows"
proof -
  define ids where "ids = map rs_id (sessions_of u rows)"
  have d: "distinct ids" using assms by (simp add: ids_def sessions_of_def distinct_map_filter)
  have "sorted_wrt (>) (rev (sort ids))" using d by (simp add: sorted_wrt_rev strict_sorted_iff)
  from drop_descending [OF this]
  have "x \<in> set (surplus_sessions u rows) \<longleftrightarrow> x \<in> set ids \<and> MAX_SESSIONS_PER_USER \<le> length (filter (\<lambda>y. x < y) (rev (sort ids)))"
    by (simp add: surplus_sessions_def ids_def)
  also have "length (filter (\<lambda>y. x < y) (rev (sort ids))) = newer_sessions u x rows"
  proof -
    have "length (filter (\<lambda>y. x < y) (rev (sort ids))) = size (filter_mset (\<lambda>y. x < y) (mset ids))"
      by (metis mset_filter mset_rev mset_sort size_mset)
    also have "\<dots> = length (filter (\<lambda>y. x < y) ids)" by (metis mset_filter size_mset)
    finally show ?thesis by (simp add: ids_def newer_sessions_def filter_map comp_def)
  qed
  finally show ?thesis by (simp add: ids_def)
qed

definition listing :: "int \<Rightarrow> 'tok auth_task set \<Rightarrow> bool" where
  "listing u T \<longleftrightarrow> (\<exists>p jti. QList p jti \<in> T \<and> u_id (op_user p) = u)"

definition to_trim :: "int \<Rightarrow> int \<Rightarrow> 'tok auth_task set \<Rightarrow> bool" where
  "to_trim u x T \<longleftrightarrow> (\<exists>p jti surplus. QTrim p jti surplus \<in> T \<and> u_id (op_user p) = u \<and> x \<in> set surplus)"

lemma listing_mono:
  "listing u T \<Longrightarrow> (\<And>p jti. QList p jti \<in> T \<Longrightarrow> u_id (op_user p) = u \<Longrightarrow> QList p jti \<in> T') \<Longrightarrow> listing u T'"
  unfolding listing_def by blast

lemma to_trim_mono:
  "to_trim u x T \<Longrightarrow> (\<And>p jti surplus. QTrim p jti surplus \<in> T \<Longrightarrow> x \<in> set surplus \<Longrightarrow> QTrim p jti surplus \<in> T') \<Longrightarrow>
   to_trim u x T'"
  unfolding to_trim_def by blast

text \<open>A user's session that is not among the newest ten is about to be found or to be deleted.\<close>

definition trim_ok :: "int \<Rightarrow> 'tok auth_task set \<Rightarrow> session_row list \<Rightarrow> bool" where
  "trim_ok u T rows \<longleftrightarrow> listing u T \<or>
     (\<forall>r\<in>set rows. rs_userId r = u \<longrightarrow> MAX_SESSIONS_PER_USER \<le> newer_sessions u (rs_id r) rows \<longrightarrow> to_trim u (rs_id r) T)"

definition thinner :: "session_row list \<Rightarrow> session_row list \<Rightarrow> bool" where
  "thinner rows rows' \<longleftrightarrow> (\<forall>r'\<in>set rows'. \<exists>r\<in>set rows. rs_id r = rs_id r' \<and> rs_userId r = rs_userId r') \<and>
     (\<forall>u x. newer_sessions u x rows' \<le> newer_sessions u x rows)"

lemma thinner_refl: "thinner rows rows"
  by (auto simp: thinner_def)

lemma thinner_filter: "thinner rows (filter P rows)"
proof -
  have "newer_sessions u x (filter P rows) \<le> newer_sessions u x rows" for u x
    by (simp add: newer_sessions_def sessions_of_def) (rule length_filter_mono, simp)
  then show ?thesis by (auto simp: thinner_def)
qed

lemma thinner_update: "update_session rowId hash t rows = Some rows' \<Longrightarrow> thinner rows rows'"
proof -
  define f :: "session_row \<Rightarrow> session_row" where "f = (\<lambda>r. if rs_id r = rowId then r\<lparr>rs_tokenHash := hash, rs_expiresAt := t\<rparr> else r)"
  assume "update_session rowId hash t rows = Some rows'"
  then have r: "rows' = map f rows" by (auto simp: update_session_def f_def split: if_splits)
  have f: "rs_id (f x) = rs_id x" "rs_userId (f x) = rs_userId x" for x by (simp_all add: f_def)
  have "newer_sessions u x rows' = newer_sessions u x rows" for u x
    by (simp add: r newer_sessions_def sessions_of_def filter_map comp_def f)
  then show ?thesis by (auto simp: thinner_def r f)
qed

lemma trim_ok_mono:
  assumes "trim_ok u T rows" "thinner rows rows'" "\<And>x. listing u T \<Longrightarrow> listing u T'"
    "\<And>x. x \<in> rs_id ` set rows' \<Longrightarrow> to_trim u x T \<Longrightarrow> to_trim u x T'"
  shows "trim_ok u T' rows'"
  using assms unfolding trim_ok_def thinner_def by (metis (no_types, lifting) image_eqI le_trans)


definition bound_inv :: "'tok auth_sys \<Rightarrow> bool" where
  "bound_inv s \<longleftrightarrow> table_inv s \<and> (\<forall>u. trim_ok u (set (as_tasks s)) (as_sessions s))"

lemma in_without_nth: "x \<in> set xs \<Longrightarrow> i < length xs \<Longrightarrow> x \<noteq> xs ! i \<Longrightarrow> x \<in> set (without_nth i xs)"
  using without_nth_mset [of i xs] by (metis insert_iff set_mset_add_mset_insert set_mset_mset)

lemma exec_thinner:
  assumes "\<not> (\<exists>uuid. op_uuid op = Some uuid \<and> grown s (ae_digest env uuid) (auth_exec env now op s))"
  shows "thinner (as_sessions s) (as_sessions (auth_exec env now op s))"
  using assms exec_sessions [of s env now op] thinner_filter thinner_update unfolding shrunk_def rotated_def by metis

text \<open>Operations that neither list nor trim keep all of that.\<close>

lemma bound_keep:
  assumes inv: "bound_inv s" and th: "thinner (as_sessions s) (as_sessions s')" and t: "table_inv s'"
    and tasks: "\<And>x. x \<in> set (as_tasks s) \<Longrightarrow> (case x of QList _ _ \<Rightarrow> True | QTrim _ _ _ \<Rightarrow> True | _ \<Rightarrow> False) \<Longrightarrow> x \<in> set (as_tasks s')"
  shows "bound_inv s'"
proof -
  have "trim_ok u (set (as_tasks s')) (as_sessions s')" for u
  proof (rule trim_ok_mono [OF _ th])
    show "trim_ok u (set (as_tasks s)) (as_sessions s)" using inv by (simp add: bound_inv_def)
    show "listing u (set (as_tasks s)) \<Longrightarrow> listing u (set (as_tasks s'))"
      unfolding listing_def using tasks by fastforce
    show "to_trim u x (set (as_tasks s)) \<Longrightarrow> to_trim u x (set (as_tasks s'))" for x
      unfolding to_trim_def using tasks by fastforce
  qed
  then show ?thesis using t by (simp add: bound_inv_def)
qed

text \<open>The queries of \<open>issue\<close>.\<close>

lemma bound_insert:
  assumes inv: "bound_inv s" and i: "i < length (as_tasks s)" and t: "as_tasks s ! i = QInsert p"
  shows "bound_inv (auth_exec env now (AoQuery i salt uuid) s)"
proof -
  define s' where "s' = auth_exec env now (AoQuery i salt uuid) s"
  have tab: "table_inv s'" using inv table_inv_exec by (auto simp: bound_inv_def s'_def)
  define s0 where "s0 = s\<lparr>as_tasks := without_nth i (as_tasks s)\<rparr>"
  have s': "s' = insert_query env uuid p s0" using i t by (simp add: s'_def auth_exec_def Let_def auth_query_def s0_def)
  have keep: "x \<in> set (without_nth i (as_tasks s))" if "x \<in> set (as_tasks s)" "x \<noteq> QInsert p" for x
    using in_without_nth [OF that(1) i] that(2) t by simp
  show ?thesis
  proof (cases "list_ex (\<lambda>r. rs_tokenHash r = ae_digest env uuid) (as_sessions s) \<or> \<not> list_ex (\<lambda>u. u_id u = u_id (op_user p)) (as_users s)")
    case True
    then have e: "as_sessions s' = as_sessions s" "as_tasks s' = without_nth i (as_tasks s)"
      by (simp_all add: s' insert_query_def Let_def s0_def)
    show ?thesis unfolding s'_def [symmetric]
    proof (rule bound_keep [OF inv _ tab])
      show "thinner (as_sessions s) (as_sessions s')" by (simp add: e(1) thinner_refl)
      fix x assume "x \<in> set (as_tasks s)" "case x of QList _ _ \<Rightarrow> True | QTrim _ _ _ \<Rightarrow> True | _ \<Rightarrow> False"
      then show "x \<in> set (as_tasks s')" unfolding e(2) by (intro keep) auto
    qed
  next
    case False
    define row where "row = \<lparr>rs_id = as_nextSession s, rs_userId = u_id (op_user p), rs_tokenHash = ae_digest env uuid,
        rs_expiresAt = op_now p + REFRESH_TOKEN_TTL_MS\<rparr>"
    have r: "as_sessions s' = as_sessions s @ [row]" "rs_userId row = u_id (op_user p)"
      and ta: "as_tasks s' = without_nth i (as_tasks s) @ [QList p uuid]"
      using False by (simp_all add: s' insert_query_def Let_def s0_def row_def)
    have "trim_ok u (set (as_tasks s')) (as_sessions s')" for u
    proof (cases "u = u_id (op_user p)")
      case True
      then have "listing u (set (as_tasks s'))" unfolding listing_def ta by auto
      then show ?thesis by (simp add: trim_ok_def)
    next
      case False
      then have n: "newer_sessions u x (as_sessions s') = newer_sessions u x (as_sessions s)" for x
        by (simp add: newer_sessions_def sessions_of_def r)
      have "trim_ok u (set (as_tasks s)) (as_sessions s)" using inv by (simp add: bound_inv_def)
      moreover have "listing u (set (as_tasks s)) \<Longrightarrow> listing u (set (as_tasks s'))"
        by (erule listing_mono) (simp add: ta keep)
      moreover have "to_trim u x (set (as_tasks s)) \<Longrightarrow> to_trim u x (set (as_tasks s'))" for x
        by (erule to_trim_mono) (simp add: ta keep)
      moreover have "\<forall>r\<in>set (as_sessions s'). rs_userId r = u \<longrightarrow> r \<in> set (as_sessions s)" using False r by auto
      ultimately show ?thesis unfolding trim_ok_def n by blast
    qed
    then show ?thesis using tab by (simp add: bound_inv_def s'_def)
  qed
qed

lemma bound_list:
  assumes inv: "bound_inv s" and i: "i < length (as_tasks s)" and t: "as_tasks s ! i = QList p jti"
  shows "bound_inv (auth_exec env now (AoQuery i salt uuid) s)"
proof -
  define s' where "s' = auth_exec env now (AoQuery i salt uuid) s"
  define u0 where "u0 = u_id (op_user p)"
  have tab: "table_inv s'" "distinct (map rs_id (as_sessions s))" using inv table_inv_exec by (auto simp: bound_inv_def s'_def table_inv_def)
  define s0 where "s0 = s\<lparr>as_tasks := without_nth i (as_tasks s)\<rparr>"
  have s': "s' = list_query env now p jti s0" using i t by (simp add: s'_def auth_exec_def Let_def auth_query_def s0_def)
  have keep: "x \<in> set (without_nth i (as_tasks s))" if "x \<in> set (as_tasks s)" "x \<noteq> QList p jti" for x
    using in_without_nth [OF that(1) i] that(2) t by simp
  have rows: "as_sessions s' = as_sessions s" by (simp add: s' list_query_def Let_def s0_def)
  have sub: "set (without_nth i (as_tasks s)) \<subseteq> set (as_tasks s')" by (auto simp: s' list_query_def Let_def s0_def)
  have trim: "QTrim p jti (surplus_sessions u0 (as_sessions s)) \<in> set (as_tasks s')" if "surplus_sessions u0 (as_sessions s) \<noteq> []"
    using that by (simp add: s' list_query_def Let_def s0_def u0_def)
  have "trim_ok u (set (as_tasks s')) (as_sessions s')" for u
  proof (cases "u = u0")
    case True
    have "to_trim u (rs_id r) (set (as_tasks s'))"
      if "r \<in> set (as_sessions s')" "rs_userId r = u" "MAX_SESSIONS_PER_USER \<le> newer_sessions u (rs_id r) (as_sessions s')" for r
    proof -
      have "rs_id r \<in> set (surplus_sessions u0 (as_sessions s))"
        using that True unfolding rows by (simp add: surplus_iff [OF tab(2)] sessions_of_def)
      then show ?thesis using trim True unfolding to_trim_def u0_def by (metis empty_iff list.set(1))
    qed
    then show ?thesis by (auto simp: trim_ok_def)
  next
    case False
    have "trim_ok u (set (as_tasks s)) (as_sessions s)" using inv by (simp add: bound_inv_def)
    moreover have "listing u (set (as_tasks s)) \<Longrightarrow> listing u (set (as_tasks s'))"
      by (erule listing_mono) (use keep sub False u0_def in blast)
    moreover have "to_trim u x (set (as_tasks s)) \<Longrightarrow> to_trim u x (set (as_tasks s'))" for x
      by (erule to_trim_mono) (use keep sub in blast)
    ultimately show ?thesis unfolding trim_ok_def rows by blast
  qed
  then show ?thesis using tab(1) by (simp add: bound_inv_def s'_def)
qed

lemma bound_trim:
  assumes inv: "bound_inv s" and i: "i < length (as_tasks s)" and t: "as_tasks s ! i = QTrim p jti surplus"
  shows "bound_inv (auth_exec env now (AoQuery i salt uuid) s)"
proof -
  define s' where "s' = auth_exec env now (AoQuery i salt uuid) s"
  have tab: "table_inv s'" using inv table_inv_exec by (auto simp: bound_inv_def s'_def)
  have f: "as_sessions s' = delete_ids surplus (as_sessions s)" "as_tasks s' = without_nth i (as_tasks s)"
    using i t by (simp_all add: s'_def auth_exec_def Let_def auth_query_def trim_query_def)
  have keep: "x \<in> set (as_tasks s')" if "x \<in> set (as_tasks s)" "x \<noteq> QTrim p jti surplus" for x
    using in_without_nth [OF that(1) i] that(2) t f(2) by simp
  have "trim_ok u (set (as_tasks s')) (as_sessions s')" for u
  proof (rule trim_ok_mono)
    show "trim_ok u (set (as_tasks s)) (as_sessions s)" using inv by (simp add: bound_inv_def)
    show "thinner (as_sessions s) (as_sessions s')" unfolding f(1) delete_ids_def by (rule thinner_filter)
    show "listing u (set (as_tasks s)) \<Longrightarrow> listing u (set (as_tasks s'))"
      by (erule listing_mono) (simp add: keep)
    fix x assume "x \<in> rs_id ` set (as_sessions s')" and "to_trim u x (set (as_tasks s))"
    then have "x \<notin> set surplus" by (auto simp: f(1) delete_ids_def)
    then show "to_trim u x (set (as_tasks s'))"
      using \<open>to_trim u x (set (as_tasks s))\<close> by (elim to_trim_mono) (auto intro: keep)
  qed
  then show ?thesis using tab by (simp add: bound_inv_def s'_def)
qed

text \<open>Every operation but a failing query.\<close>

definition op_fails :: "'tok auth_op \<Rightarrow> bool" where
  "op_fails op = (case op of AoQueryFails _ \<Rightarrow> True | _ \<Rightarrow> False)"

lemma query_tasks: "set (as_tasks s) \<subseteq> set (as_tasks (auth_query env now salt uuid t s))"
  by (cases t) (auto simp: query_defs Let_def split: option.split)

lemma bound_exec:
  assumes inv: "bound_inv s" and ok: "\<not> op_fails op"
  shows "bound_inv (auth_exec env now op s)"
proof -
  have tab: "table_inv (auth_exec env now op s)" using inv table_inv_exec by (auto simp: bound_inv_def)
  show ?thesis
  proof (cases op)
    case (AoQuery i salt uuid)
    show ?thesis
    proof (cases "i < length (as_tasks s)")
      case False
      then have "auth_exec env now op s = s" by (simp add: AoQuery auth_exec_def Let_def)
      then show ?thesis using inv by simp
    next
      case True
      define t where "t = as_tasks s ! i"
      define s0 where "s0 = s\<lparr>as_tasks := without_nth i (as_tasks s)\<rparr>"
      consider (ins) p where "t = QInsert p" | (lst) p jti where "t = QList p jti" | (trm) p jti sur where "t = QTrim p jti sur"
        | (other) "\<not> (case t of QList _ _ \<Rightarrow> True | QTrim _ _ _ \<Rightarrow> True | QInsert _ \<Rightarrow> True | _ \<Rightarrow> False)"
        by (cases t) auto
      then show ?thesis
      proof cases
        case other
        have e: "auth_exec env now op s = auth_query env now salt uuid t s0"
          using True by (simp add: AoQuery auth_exec_def Let_def s0_def t_def)
        have "as_nextSession (auth_query env now salt uuid t s0) = as_nextSession s"
          using other by (cases t) (auto simp: query_defs Let_def s0_def split: option.split)
        then have "\<not> grown s h (auth_exec env now op s)" for h by (simp add: e grown_def)
        then have th: "thinner (as_sessions s) (as_sessions (auth_exec env now op s))" by (intro exec_thinner) blast
        show ?thesis
        proof (rule bound_keep [OF inv th tab])
          fix x assume x: "x \<in> set (as_tasks s)" "case x of QList _ _ \<Rightarrow> True | QTrim _ _ _ \<Rightarrow> True | _ \<Rightarrow> False"
          have "x \<noteq> t" using x(2) other by (cases t) auto
          then have "x \<in> set (as_tasks s0)" using in_without_nth [OF x(1) True] by (simp add: s0_def t_def)
          then show "x \<in> set (as_tasks (auth_exec env now op s))" unfolding e using query_tasks by blast
        qed
      qed (use bound_insert [OF inv True] bound_list [OF inv True] bound_trim [OF inv True] in \<open>auto simp: AoQuery t_def\<close>)
    qed
  next
    case (AoQueryFails i)
    then show ?thesis using ok by (simp add: op_fails_def)
  qed (rule bound_keep [OF inv exec_thinner tab];
      force simp: op_uuid_def auth_exec_def Let_def request_defs changeRole_def setLeader_def admin_update_def banUser_def
        split: option.split prod.split)+
qed

lemma bound_run:
  "bound_inv s \<Longrightarrow> \<not> list_ex (\<lambda>x. op_fails (snd x)) ops \<Longrightarrow> auth_run env now ops s = (now', s') \<Longrightarrow> bound_inv s'"
proof (induction ops arbitrary: now s)
  case (Cons x ops)
  obtain dt op where x: "x = (dt, op)" by (cases x)
  show ?case
    using Cons.IH [OF bound_exec [OF Cons.prems(1), of op]] Cons.prems(2,3) by (simp add: x)
qed simp

lemma bound_start: "bound_inv auth_start"
  by (simp add: bound_inv_def table_inv_def auth_start_def trim_ok_def)

text \<open>A user none of whose sessions is being found or deleted has at most ten.\<close>

definition issuing :: "int \<Rightarrow> 'tok auth_task \<Rightarrow> bool" where
  "issuing u t = (case t of QList p _ \<Rightarrow> u_id (op_user p) = u | QTrim p _ _ \<Rightarrow> u_id (op_user p) = u | _ \<Rightarrow> False)"

lemma quiet_bound:
  assumes inv: "bound_inv s" and quiet: "\<not> list_ex (issuing u) (as_tasks s)"
  shows "length (sessions_of u (as_sessions s)) \<le> MAX_SESSIONS_PER_USER"
proof (rule ccontr)
  assume many: "\<not> length (sessions_of u (as_sessions s)) \<le> MAX_SESSIONS_PER_USER"
  have d: "distinct (map rs_id (as_sessions s))" using inv by (simp add: bound_inv_def table_inv_def)
  have "surplus_sessions u (as_sessions s) \<noteq> []" using many by (simp add: surplus_sessions_def)
  then obtain x where "x \<in> set (surplus_sessions u (as_sessions s))" by (meson last_in_set)
  then obtain r where r: "r \<in> set (as_sessions s)" "rs_userId r = u" "MAX_SESSIONS_PER_USER \<le> newer_sessions u (rs_id r) (as_sessions s)"
    by (auto simp: surplus_iff [OF d] sessions_of_def)
  have "trim_ok u (set (as_tasks s)) (as_sessions s)" using inv by (simp add: bound_inv_def)
  then have "listing u (set (as_tasks s)) \<or> to_trim u (rs_id r) (set (as_tasks s))" using r unfolding trim_ok_def by blast
  then show False using quiet unfolding listing_def to_trim_def list_ex_iff issuing_def by force
qed

end
