(* ===== verification/SocketAuth.thy ===== *)
theory SocketAuth
  imports Accounts
begin

text \<open>
  Who a socket belongs to: \<open>realtime/socket-auth.service.ts\<close>. Four gateways share the sockets and each of them asks;
  the cache keeps, per socket, the verified id and the one lookup, which those who ask later wait for. The
  decoding of percent signs is the argument \<open>decode\<close>, a verified token gives its \<open>sub\<close>.
\<close>

definition cookie_at :: "jstring \<Rightarrow> jstring option" where
  "cookie_at s =
     (if starts_with s (lit ''access_token='')
      then (let v = takeWhile (\<lambda>u. u \<noteq> 59) (drop 13 s) in if v \<noteq> [] then Some v else None) else None)"

fun cookie_scan :: "jstring \<Rightarrow> jstring option" where
  "cookie_scan [] = None"
| "cookie_scan (u # us) =
     (if u = 59 then (case cookie_at (dropWhile js_space us) of Some v \<Rightarrow> Some v | None \<Rightarrow> cookie_scan us)
      else cookie_scan us)"

text \<open>The first match of \<open>/(?:^|;\s*)access_token=([^;]+)/\<close>.\<close>

definition access_cookie :: "jstring \<Rightarrow> jstring option" where
  "access_cookie s = (case cookie_at s of Some v \<Rightarrow> Some v | None \<Rightarrow> cookie_scan s)"

definition verifyCookieToken ::
    "(jstring \<Rightarrow> 'tok option) \<Rightarrow> 'tok auth_env \<Rightarrow> millis \<Rightarrow> jstring option \<Rightarrow> int option" where
  "verifyCookieToken decode env now cookie =
     (case access_cookie (case cookie of None \<Rightarrow> [] | Some c \<Rightarrow> c) of
        None \<Rightarrow> None
      | Some raw \<Rightarrow>
          (case decode raw of
             None \<Rightarrow> None
           | Some token \<Rightarrow> (case ae_verify env now token of None \<Rightarrow> None | Some c \<Rightarrow> cm_sub c)))"

datatype lookup_state = LookupWaits int "nat list" | LookupDone "user_row option"

record socket_entry =
  se_userId :: "int option option"
  se_lookup :: "lookup_state option"

record socket_auth =
  sa_cache :: "(string, socket_entry) jmap"
  sa_cookies :: "string \<Rightarrow> jstring option"
  sa_verified :: "string list"
  sa_queried :: "string list"
  sa_answers :: "(nat \<times> string \<times> user_row option) list"

definition socket_auth_start :: "(string \<Rightarrow> jstring option) \<Rightarrow> socket_auth" where
  "socket_auth_start cookies = \<lparr>sa_cache = [], sa_cookies = cookies, sa_verified = [], sa_queried = [], sa_answers = []\<rparr>"

definition entryFor :: "string \<Rightarrow> socket_auth \<Rightarrow> socket_entry" where
  "entryFor sid s = (case map_of (sa_cache s) sid of Some e \<Rightarrow> e | None \<Rightarrow> \<lparr>se_userId = None, se_lookup = None\<rparr>)"

definition put_entry :: "string \<Rightarrow> socket_entry \<Rightarrow> socket_auth \<Rightarrow> socket_auth" where
  "put_entry sid e s = s\<lparr>sa_cache := AList.update sid e (sa_cache s)\<rparr>"

text \<open>\<open>verifyUserId\<close>: the id, and the verification is logged.\<close>

definition verifyUserId ::
    "(jstring \<Rightarrow> 'tok option) \<Rightarrow> 'tok auth_env \<Rightarrow> millis \<Rightarrow> string \<Rightarrow> socket_auth \<Rightarrow> int option \<times> socket_auth" where
  "verifyUserId decode env now sid s =
     (case se_userId (entryFor sid s) of
        Some userId \<Rightarrow> (userId, s)
      | None \<Rightarrow>
          (let userId = verifyCookieToken decode env now (sa_cookies s sid)
           in (userId, put_entry sid ((entryFor sid s)\<lparr>se_userId := Some userId\<rparr>) (s\<lparr>sa_verified := sa_verified s @ [sid]\<rparr>))))"

text \<open>\<open>resolveUser\<close> for the call \<open>n\<close>; a lookup without an id is settled at once.\<close>

definition resolveUser ::
    "(jstring \<Rightarrow> 'tok option) \<Rightarrow> 'tok auth_env \<Rightarrow> millis \<Rightarrow> nat \<Rightarrow> string \<Rightarrow> socket_auth \<Rightarrow> socket_auth" where
  "resolveUser decode env now n sid s =
     (case se_lookup (entryFor sid s) of
        Some (LookupDone u) \<Rightarrow> s\<lparr>sa_answers := sa_answers s @ [(n, sid, u)]\<rparr>
      | Some (LookupWaits userId ns) \<Rightarrow>
          put_entry sid ((entryFor sid s)\<lparr>se_lookup := Some (LookupWaits userId (ns @ [n]))\<rparr>) s
      | None \<Rightarrow>
          (case verifyUserId decode env now sid s of
             (None, s') \<Rightarrow>
               put_entry sid ((entryFor sid s')\<lparr>se_lookup := Some (LookupDone None)\<rparr>)
                 (s'\<lparr>sa_answers := sa_answers s' @ [(n, sid, None)]\<rparr>)
           | (Some userId, s') \<Rightarrow>
               put_entry sid ((entryFor sid s')\<lparr>se_lookup := Some (LookupWaits userId [n])\<rparr>)
                 (s'\<lparr>sa_queried := sa_queried s' @ [sid]\<rparr>)))"

text \<open>The query of the lookup comes back or fails.\<close>

definition lookup_settled :: "'tok auth_env \<Rightarrow> bool \<Rightarrow> user_row list \<Rightarrow> string \<Rightarrow> socket_auth \<Rightarrow> socket_auth" where
  "lookup_settled env ok users sid s =
     (case se_lookup (entryFor sid s) of
        Some (LookupWaits userId ns) \<Rightarrow>
          (let u = (if ok then findById env userId users else None)
           in put_entry sid ((entryFor sid s)\<lparr>se_lookup := Some (LookupDone u)\<rparr>)
                (s\<lparr>sa_answers := sa_answers s @ map (\<lambda>n. (n, sid, u)) ns\<rparr>))
      | _ \<Rightarrow> s)"

datatype sauth_op = SaVerify string | SaResolve nat string | SaSettled bool "user_row list" string

definition sauth_exec :: "(jstring \<Rightarrow> 'tok option) \<Rightarrow> 'tok auth_env \<Rightarrow> millis \<Rightarrow> sauth_op \<Rightarrow> socket_auth \<Rightarrow> socket_auth" where
  "sauth_exec decode env now op s =
     (case op of
        SaVerify sid \<Rightarrow> snd (verifyUserId decode env now sid s)
      | SaResolve n sid \<Rightarrow> resolveUser decode env now n sid s
      | SaSettled ok users sid \<Rightarrow> lookup_settled env ok users sid s)"

fun sauth_run :: "(jstring \<Rightarrow> 'tok option) \<Rightarrow> 'tok auth_env \<Rightarrow> millis \<Rightarrow> (nat \<times> sauth_op) list \<Rightarrow> socket_auth \<Rightarrow> socket_auth" where
  "sauth_run decode env now [] s = s"
| "sauth_run decode env now ((dt, op) # ops) s = sauth_run decode env (now + int dt) ops (sauth_exec decode env (now + int dt) op s)"

subsection \<open>Once per socket\<close>

definition entry_ok :: "string \<Rightarrow> socket_auth \<Rightarrow> bool" where
  "entry_ok sid s \<longleftrightarrow>
     (sid \<in> set (sa_verified s) \<longleftrightarrow> se_userId (entryFor sid s) \<noteq> None) \<and>
     (sid \<in> set (sa_queried s) \<longrightarrow> se_lookup (entryFor sid s) \<noteq> None) \<and>
     (\<forall>n u. (n, sid, u) \<in> set (sa_answers s) \<longrightarrow> se_lookup (entryFor sid s) = Some (LookupDone u))"

definition sauth_inv :: "socket_auth \<Rightarrow> bool" where
  "sauth_inv s \<longleftrightarrow> distinct (sa_verified s) \<and> distinct (sa_queried s) \<and> (\<forall>sid. entry_ok sid s)"

lemma entryFor_put [simp]: "entryFor x (put_entry sid e s) = (if x = sid then e else entryFor x s)"
  by (simp add: entryFor_def put_entry_def)

lemma put_entry_fields [simp]:
  "sa_verified (put_entry sid e s) = sa_verified s" "sa_queried (put_entry sid e s) = sa_queried s"
  "sa_answers (put_entry sid e s) = sa_answers s" "sa_cookies (put_entry sid e s) = sa_cookies s"
  by (simp_all add: put_entry_def)

lemma entryFor_fields [simp]:
  "entryFor x (s\<lparr>sa_verified := v\<rparr>) = entryFor x s" "entryFor x (s\<lparr>sa_queried := q\<rparr>) = entryFor x s"
  "entryFor x (s\<lparr>sa_answers := a\<rparr>) = entryFor x s"
  by (simp_all add: entryFor_def)

lemma verify_frame:
  assumes "verifyUserId decode env now sid s = (r, s')"
  shows "sa_queried s' = sa_queried s" "sa_answers s' = sa_answers s" "se_lookup (entryFor x s') = se_lookup (entryFor x s)"
  using assms by (auto simp: verifyUserId_def Let_def split: option.splits)

lemma verify_inv:
  assumes inv: "sauth_inv s" and v: "verifyUserId decode env now sid s = (r, s')"
  shows "sauth_inv s'"
proof (cases "se_userId (entryFor sid s)")
  case None
  have "entry_ok x s'" for x
    using inv v None unfolding sauth_inv_def
    by (cases "x = sid") (auto simp: verifyUserId_def Let_def entry_ok_def)
  moreover have "sid \<notin> set (sa_verified s)" using inv None unfolding sauth_inv_def entry_ok_def by blast
  ultimately show ?thesis using inv v None by (auto simp: verifyUserId_def Let_def sauth_inv_def)
next
  case (Some userId)
  then show ?thesis using inv v by (simp add: verifyUserId_def)
qed

lemma resolve_inv:
  assumes inv: "sauth_inv s"
  shows "sauth_inv (resolveUser decode env now n sid s)"
proof (cases "se_lookup (entryFor sid s)")
  case (Some l)
  have ok: "entry_ok x s" for x using inv by (simp add: sauth_inv_def)
  have "entry_ok x (resolveUser decode env now n sid s)" for x
    using ok [of x] Some by (cases l; cases "x = sid") (auto simp: resolveUser_def entry_ok_def)
  moreover have "sa_verified (resolveUser decode env now n sid s) = sa_verified s"
    "sa_queried (resolveUser decode env now n sid s) = sa_queried s"
    using Some by (cases l; simp add: resolveUser_def)+
  ultimately show ?thesis using inv by (simp add: sauth_inv_def)
next
  case None
  obtain r s' where v: "verifyUserId decode env now sid s = (r, s')" by (cases "verifyUserId decode env now sid s")
  have inv': "sauth_inv s'" by (rule verify_inv [OF inv v])
  then have ok: "entry_ok x s'" for x by (simp add: sauth_inv_def)
  have l: "se_lookup (entryFor sid s') = None" using verify_frame(3) [OF v] None by simp
  then have q: "sid \<notin> set (sa_queried s')" using ok [of sid] by (auto simp: entry_ok_def)
  have none: "(m, sid, u) \<notin> set (sa_answers s')" for m u using ok [of sid] l by (auto simp: entry_ok_def)
  have "entry_ok x (resolveUser decode env now n sid s)" for x
    using ok [of x] none v None
    by (cases r; cases "x = sid") (auto simp: resolveUser_def entry_ok_def)
  then show ?thesis using inv' q v None
    by (cases r) (auto simp: resolveUser_def sauth_inv_def)
qed

lemma settled_inv:
  assumes inv: "sauth_inv s"
  shows "sauth_inv (lookup_settled env ok users sid s)"
proof (cases "\<exists>userId ns. se_lookup (entryFor sid s) = Some (LookupWaits userId ns)")
  case True
  then obtain userId ns where w: "se_lookup (entryFor sid s) = Some (LookupWaits userId ns)" by blast
  have ok: "entry_ok x s" for x using inv by (simp add: sauth_inv_def)
  have "entry_ok x (lookup_settled env ok users sid s)" for x
    using ok [of x] w by (cases "x = sid") (auto simp: lookup_settled_def entry_ok_def Let_def)
  then show ?thesis using inv w by (simp add: sauth_inv_def lookup_settled_def Let_def)
next
  case False
  then show ?thesis using inv by (auto simp: lookup_settled_def split: option.split lookup_state.split)
qed

lemma sauth_exec_inv: "sauth_inv s \<Longrightarrow> sauth_inv (sauth_exec decode env now op s)"
  by (cases op) (auto simp: sauth_exec_def resolve_inv settled_inv intro: verify_inv prod.collapse [symmetric])

lemma sauth_run_inv: "sauth_inv s \<Longrightarrow> sauth_inv (sauth_run decode env now ops s)"
  by (induction decode env now ops s rule: sauth_run.induct) (auto simp: sauth_exec_inv)

lemma sauth_start_inv: "sauth_inv (socket_auth_start cookies)"
  by (simp add: sauth_inv_def entry_ok_def socket_auth_start_def entryFor_def)

end
