(* ===== verification/AccountProperties.thy ===== *)
theory AccountProperties
  imports AccountRules SocketAuth
begin

text \<open>What holds of accounts and sessions, whatever the interleaving of the queries.\<close>

text \<open>An environment for concrete inputs: a token is what was signed.\<close>

definition ex_auth_env :: "(millis \<times> millis \<times> claims) auth_env" where
  "ex_auth_env =
     \<lparr>ae_sign = (\<lambda>now ttl c. (now, ttl, c)), ae_verify = (\<lambda>now (t, ttl, c). if now < t + ttl then Some c else None),
      ae_decode = (\<lambda>(t, ttl, c). Some c), ae_digest = (\<lambda>j. j), ae_bcrypt = (\<lambda>salt p. salt # p),
      ae_compare = (\<lambda>p h. h \<noteq> [] \<and> tl h = p), ae_lower = (\<lambda>n. n), ae_collate = (\<lambda>n. n), ae_serverCode = Some [1]\<rparr>"

definition ex_user :: user_row where
  "ex_user = \<lparr>u_id = 5, u_nickname = [65, 66], u_passwordHash = [0, 9], u_allianceName = [], u_role = ''member'',
     u_language = ''ko'', u_marchSeconds = None, u_isLeader = False\<rparr>"

definition ex_session :: session_row where
  "ex_session = \<lparr>rs_id = 3, rs_userId = 5, rs_tokenHash = [7], rs_expiresAt = 1000\<rparr>"

definition ex_accounts :: "(millis \<times> millis \<times> claims) auth_sys" where
  "ex_accounts = \<lparr>as_users = [ex_user], as_nextUser = 6, as_sessions = [ex_session], as_nextSession = 4, as_next = 0,
     as_tasks = [], as_replies = []\<rparr>"

lemma short_not_quarantined: "length (ae_lower env n) < 8 \<Longrightarrow> \<not> isQuarantinedLegacyAccount env n"
  by (auto simp: isQuarantinedLegacyAccount_def QUARANTINED_LEGACY_ACCOUNT_NICKNAMES_def)

lemma find_session_None: "ae_digest env jti \<notin> rs_tokenHash ` set rows \<Longrightarrow> find_session env u jti rows = None"
  unfolding find_session_def find_None_iff by (metis imageI)

lemma find_last: "\<not> list_ex P xs \<Longrightarrow> P y \<Longrightarrow> List.find P (xs @ [y]) = Some y"
  by (induction xs) auto

text \<open>
  Property C23. However logins interleave, a user for whom no login or signup is just finding or deleting the
  surplus sessions has at most ten sessions, unless some query has failed.
\<close>

theorem sessions_bounded:
  "let s = snd (auth_run env now ops auth_start)
   in list_ex (\<lambda>x. op_fails (snd x)) ops \<or> list_ex (issuing u) (as_tasks s) \<or>
      length (sessions_of u (as_sessions s)) \<le> MAX_SESSIONS_PER_USER"
proof -
  obtain t s where r: "auth_run env now ops auth_start = (t, s)" by (cases "auth_run env now ops auth_start")
  show ?thesis using bound_run [OF bound_start _ r] quiet_bound [of s u] unfolding r by (auto simp: Let_def)
qed

text \<open>
  Concurrent signups never create two users whose nicknames are the same for the database, user ids are
  unique, and every session belongs to a user that exists.
\<close>

theorem one_account_per_name:
  "let s = snd (auth_run env now ops auth_start)
   in distinct (map (ae_collate env \<circ> u_nickname) (as_users s)) \<and> distinct (map u_id (as_users s)) \<and>
      rs_userId ` set (as_sessions s) \<subseteq> u_id ` set (as_users s)"
proof -
  obtain t s where r: "auth_run env now ops auth_start = (t, s)" by (cases "auth_run env now ops auth_start")
  show ?thesis using users_inv_run [OF r] unfolding r by (simp add: Let_def users_inv_def)
qed

text \<open>
  Property C24. Once a refresh token has been exchanged for a new one, no later refresh finds its session, whatever
  happens in between, as long as its random key is not drawn again.
\<close>

theorem rotated_token_dead:
  assumes "table_inv s" and "i < length (as_tasks s)" and "as_tasks s ! i = QUpdateSession rid sub (rs_id row) t0"
    and "row \<in> set (as_sessions s)" and "rs_tokenHash row = ae_digest env jti"
    and "ae_digest env uuid \<notin> rs_tokenHash ` set (as_sessions s)"
    and "list_all (\<lambda>x. \<not> draws env (ae_digest env jti) (snd x)) later"
  shows "find_session env u jti
    (as_sessions (snd (auth_run env now' later (auth_exec env now (AoQuery i salt uuid) s)))) = None"
proof -
  define s1 where "s1 = auth_exec env now (AoQuery i salt uuid) s"
  have inv1: "table_inv s1" unfolding s1_def by (rule table_inv_exec [OF assms(1)])
  have ids: "distinct (map rs_id (as_sessions s))" "distinct (map rs_tokenHash (as_sessions s))"
    using assms(1) by (simp_all add: table_inv_def)
  have rows: "as_sessions s1 = map (\<lambda>r. if rs_id r = rs_id row then r\<lparr>rs_tokenHash := ae_digest env uuid,
      rs_expiresAt := t0 + REFRESH_TOKEN_TTL_MS\<rparr> else r) (as_sessions s)"
  proof -
    have "\<not> list_ex (\<lambda>r. rs_id r \<noteq> rs_id row \<and> rs_tokenHash r = ae_digest env uuid) (as_sessions s)"
      using assms(6) by (force simp: list_ex_iff)
    then show ?thesis using assms(2,3)
      by (simp add: s1_def auth_exec_def Let_def auth_query_def update_session_query_def update_session_def)
  qed
  have "ae_digest env jti \<notin> rs_tokenHash ` set (as_sessions s1)"
  proof
    assume "ae_digest env jti \<in> rs_tokenHash ` set (as_sessions s1)"
    then obtain r where r: "r \<in> set (as_sessions s)" "rs_id r \<noteq> rs_id row" "rs_tokenHash r = rs_tokenHash row"
      using assms(4,5,6) by (auto simp: rows split: if_splits) (metis image_eqI)+
    then show False using distinct_map_eqD [OF ids(2) r(1) assms(4)] by simp
  qed
  then have "ae_digest env jti \<notin> rs_tokenHash ` set (as_sessions (snd (auth_run env now' later s1)))"
    using hash_stays_out_run [OF _ inv1 assms(7)] by (metis prod.collapse)
  then show ?thesis unfolding s1_def by (rule find_session_None)
qed

theorem rotated_token_dead_witness:
  "find_session ex_auth_env 5 [7]
     (as_sessions (snd (auth_run ex_auth_env 20 [(5, AoRefresh None)]
        (auth_exec ex_auth_env 20 (AoQuery 0 0 [8]) (ex_accounts\<lparr>as_tasks := [QUpdateSession 0 5 3 10]\<rparr>))))) = None"
proof -
  define s where "s = ex_accounts\<lparr>as_tasks := [QUpdateSession 0 5 3 10]\<rparr>"
  have "table_inv s" by (simp add: s_def table_inv_def ex_accounts_def ex_session_def)
  moreover have "0 < length (as_tasks s)" "as_tasks s ! 0 = QUpdateSession 0 5 (rs_id ex_session) 10"
    "ex_session \<in> set (as_sessions s)" "rs_tokenHash ex_session = ae_digest ex_auth_env [7]"
    "ae_digest ex_auth_env [8] \<notin> rs_tokenHash ` set (as_sessions s)"
    "list_all (\<lambda>x. \<not> draws ex_auth_env (ae_digest ex_auth_env [7]) (snd x)) [(5, AoRefresh None)]"
    by (simp_all add: s_def ex_accounts_def ex_session_def ex_auth_env_def draws_def op_uuid_def)
  ultimately show ?thesis unfolding s_def [symmetric] by (rule rotated_token_dead)
qed

text \<open>
  Property C25. Who has signed up logs in with the same nickname, written in any way the database takes for the same,
  and the same password, and opens a session as the user that was created; with a password that the hash does not
  match he is refused.
\<close>

theorem signup_then_login:
  assumes "as_tasks s = []" and "Some (su_serverCode dto) = ae_serverCode env"
    and "\<not> isQuarantinedLegacyAccount env (su_nickname dto)"
    and "\<not> list_ex (same_nickname env (su_nickname dto)) (as_users s)"
    and "ae_collate env nickname = ae_collate env (su_nickname dto)"
  shows "let s1 = snd (auth_run env now [(da, AoSignup dto), (db, AoQuery 0 salt x), (dc, AoQuery 0 salt y)] s);
             u = new_user env salt (as_nextUser s) dto
         in login_query env t rid nickname password s1 =
              (if ae_compare env password (ae_bcrypt env salt (su_password dto)) then open_session env t rid u s1
               else auth_answer rid ReUnauthorized s1)"
proof -
  define s1 where "s1 = snd (auth_run env now [(da, AoSignup dto), (db, AoQuery 0 salt x), (dc, AoQuery 0 salt y)] s)"
  define u where "u = new_user env salt (as_nextUser s) dto"
  have users: "as_users s1 = as_users s @ [u]"
    using assms
    by (simp add: s1_def u_def auth_exec_def Let_def auth_signup_def auth_query_def exists_query_def save_user_query_def
        open_session_def without_nth_def)
  have "same_nickname env nickname v = same_nickname env (su_nickname dto) v" for v
    using assms(5) by (simp add: same_nickname_def)
  moreover have "same_nickname env (su_nickname dto) u" by (simp add: u_def new_user_def same_nickname_def)
  ultimately have "List.find (same_nickname env nickname) (as_users s1) = Some u"
    using assms(4) unfolding users by (intro find_last) (auto simp: list_ex_iff)
  then have "findByNickname env nickname (as_users s1) = Some u"
    using assms(3) by (simp add: findByNickname_def unless_quarantined_def u_def new_user_def)
  then show ?thesis unfolding Let_def s1_def [symmetric] u_def [symmetric]
    by (simp add: login_query_def u_def new_user_def)
qed

theorem signup_then_login_witness:
  "(let dto = \<lparr>su_nickname = [70, 71], su_password = [1, 2], su_allianceName = [], su_language = ''ko'', su_serverCode = [1]\<rparr>;
        s1 = snd (auth_run ex_auth_env 0 [(0, AoSignup dto), (1, AoQuery 0 4 []), (1, AoQuery 0 4 [])] ex_accounts);
        u = new_user ex_auth_env 4 6 dto
    in login_query ex_auth_env 9 1 [70, 71] [1, 2] s1 = open_session ex_auth_env 9 1 u s1 \<and>
       login_query ex_auth_env 9 1 [70, 71] [1, 3] s1 = auth_answer 1 ReUnauthorized s1)"
proof -
  define dto where "dto = \<lparr>su_nickname = [70, 71], su_password = [1, 2], su_allianceName = [], su_language = ''ko'', su_serverCode = [1]\<rparr>"
  have h: "as_tasks ex_accounts = []" "Some (su_serverCode dto) = ae_serverCode ex_auth_env"
    "\<not> isQuarantinedLegacyAccount ex_auth_env (su_nickname dto)"
    "\<not> list_ex (same_nickname ex_auth_env (su_nickname dto)) (as_users ex_accounts)"
    "ae_collate ex_auth_env [70, 71] = ae_collate ex_auth_env (su_nickname dto)"
    by (simp_all add: dto_def ex_accounts_def ex_auth_env_def ex_user_def same_nickname_def short_not_quarantined)
  have n: "as_nextUser ex_accounts = 6" by (simp add: ex_accounts_def)
  have c: "ae_compare ex_auth_env [1, 2] (ae_bcrypt ex_auth_env 4 (su_password dto))"
    "\<not> ae_compare ex_auth_env [1, 3] (ae_bcrypt ex_auth_env 4 (su_password dto))"
    by (simp_all add: ex_auth_env_def dto_def)
  show ?thesis
    using signup_then_login [OF h, where now = 0 and da = 0 and db = 1 and dc = 1 and salt = 4 and x = "[]" and y = "[]"
        and t = 9 and rid = 1 and password = "[1, 2]"]
      signup_then_login [OF h, where now = 0 and da = 0 and db = 1 and dc = 1 and salt = 4 and x = "[]" and y = "[]"
        and t = 9 and rid = 1 and password = "[1, 3]"]
    unfolding Let_def n dto_def [symmetric] using c by (simp del: auth_run.simps)
qed



text \<open>
  Property C27. The routes behind the access token do not look at the type of a token: a refresh token, put in the
  cookie of the access token, opens them for seven days, whether or not its session has been revoked, rotated or
  trimmed away. (The access token is meant to last an hour.)
\<close>

theorem refresh_token_opens_routes:
  assumes "ae_verify env t (signRefreshToken env now i jti) =
      (if t < now + REFRESH_TOKEN_TTL_MS then Some \<lparr>cm_sub = Some i, cm_jti = Some jti, cm_type = Some ''refresh''\<rparr> else None)"
    and "findById env i (as_users s) = Some u"
  shows "let s2 = revoke_query env rid i jti s
    in find_session env i jti (as_sessions s2) = None \<and>
       jwt_validate env t (signRefreshToken env now i jti) (as_users s2) = (if t < now + 7 * 86400000 then Some u else None)"
proof -
  have "find_session env i jti (revoke_session env i jti (as_sessions s)) = None"
    by (auto simp: find_session_def revoke_session_def find_None_iff)
  then show ?thesis using assms by (simp add: revoke_query_def jwt_validate_def REFRESH_TOKEN_TTL_MS_def)
qed

theorem refresh_token_opens_routes_witness:
  "let token = signRefreshToken ex_auth_env 10 5 [7]; s2 = revoke_query ex_auth_env 0 5 [7] ex_accounts
   in find_session ex_auth_env 5 [7] (as_sessions s2) = None \<and> jwt_validate ex_auth_env 500000000 token (as_users s2) = Some ex_user"
proof -
  have q: "\<not> isQuarantinedLegacyAccount ex_auth_env (u_nickname ex_user)"
    by (rule short_not_quarantined) (simp add: ex_auth_env_def ex_user_def)
  have "findById ex_auth_env 5 (as_users ex_accounts) = Some ex_user"
    using q by (simp add: findById_def unless_quarantined_def ex_accounts_def) (simp add: ex_user_def)
  moreover have "ae_verify ex_auth_env 500000000 (signRefreshToken ex_auth_env 10 5 [7]) =
      (if 500000000 < 10 + REFRESH_TOKEN_TTL_MS then Some \<lparr>cm_sub = Some 5, cm_jti = Some [7], cm_type = Some ''refresh''\<rparr> else None)"
    by (simp add: ex_auth_env_def signRefreshToken_def)
  ultimately show ?thesis using refresh_token_opens_routes [of ex_auth_env 500000000 10 5 "[7]" ex_accounts ex_user 0]
    by (simp add: Let_def)
qed

text \<open>
  Two refreshes with the same token that both find the session before either of them has replaced its key
  are both answered with new tokens, and the refresh token of the first is dead on arrival.
\<close>

theorem double_refresh:
  assumes "as_tasks s = []" and "table_inv s" and "row \<in> set (as_sessions s)" and "rs_userId row = i"
    and "rs_tokenHash row = ae_digest env jti" and "now < rs_expiresAt row" and "findById env i (as_users s) = Some u" and "u_id u = i"
    and "refresh_claims (ae_verify env now token) = Some (i, jti)"
    and "ae_digest env a \<notin> rs_tokenHash ` set (as_sessions s)" and "ae_digest env b \<notin> rs_tokenHash ` set (as_sessions s)"
    and "ae_digest env a \<noteq> ae_digest env b"
  shows "let s2 = snd (auth_run env now
        [(0, AoRefresh (Some token)), (0, AoRefresh (Some token)), (0, AoQuery 0 0 []), (0, AoQuery 0 0 []),
         (0, AoQuery 0 0 a), (0, AoQuery 0 0 b), (0, AoQuery 0 0 []), (0, AoQuery 0 0 [])] s);
      reply = (\<lambda>j. ReTokens (createAccessToken env now u) (signRefreshToken env now i j) u)
    in as_replies s2 = as_replies s @ [(as_next s, reply a), (Suc (as_next s), reply b)] \<and>
       find_session env i a (as_sessions s2) = None \<and> find_session env i b (as_sessions s2) \<noteq> None"
proof -
  have ids: "distinct (map rs_id (as_sessions s))" "distinct (map rs_tokenHash (as_sessions s))"
    using assms(2) by (simp_all add: table_inv_def)
  have nofind: "find_session env i j rows = None \<longleftrightarrow> \<not> list_ex (\<lambda>r. rs_userId r = i \<and> rs_tokenHash r = ae_digest env j) rows" for j rows
    by (auto simp: find_session_def find_None_iff list_ex_iff)
  have found: "find_session env i jti (as_sessions s) = Some row"
  proof (cases "find_session env i jti (as_sessions s)")
    case None
    then show ?thesis using assms(3,4,5) by (auto simp: nofind list_ex_iff)
  next
    case (Some r)
    then have "r \<in> set (as_sessions s)" "rs_tokenHash r = rs_tokenHash row"
      using assms(5) by (auto simp: find_session_def find_Some_iff)
    then show ?thesis using distinct_map_eqD [OF ids(2) _ assms(3)] Some by simp
  qed
  define put :: "jstring \<Rightarrow> session_row list \<Rightarrow> session_row list" where "put = (\<lambda>h. map (\<lambda>r. if rs_id r = rs_id row then r\<lparr>rs_tokenHash := h, rs_expiresAt := now + REFRESH_TOKEN_TTL_MS\<rparr> else r))"
  define rows1 where "rows1 = put (ae_digest env a) (as_sessions s)"
  define rows2 where "rows2 = put (ae_digest env b) rows1"
  have up1: "update_session (rs_id row) (ae_digest env a) (now + REFRESH_TOKEN_TTL_MS) (as_sessions s) = Some rows1"
    using assms(10) by (force simp: update_session_def rows1_def put_def list_ex_iff)
  have "\<not> list_ex (\<lambda>r. rs_id r \<noteq> rs_id row \<and> rs_tokenHash r = ae_digest env b) rows1"
    using assms(11) by (force simp: rows1_def put_def list_ex_iff split: if_splits)
  then have up2: "update_session (rs_id row) (ae_digest env b) (now + REFRESH_TOKEN_TTL_MS) rows1 = Some rows2"
    by (simp add: update_session_def rows2_def put_def)
  define s2 where "s2 = snd (auth_run env now
        [(0, AoRefresh (Some token)), (0, AoRefresh (Some token)), (0, AoQuery 0 0 []), (0, AoQuery 0 0 []),
         (0, AoQuery 0 0 a), (0, AoQuery 0 0 b), (0, AoQuery 0 0 []), (0, AoQuery 0 0 [])] s)"
  have run: "as_sessions s2 = rows2 \<and> as_replies s2 = as_replies s @
      [(as_next s, ReTokens (createAccessToken env now u) (signRefreshToken env now i a) u),
       (Suc (as_next s), ReTokens (createAccessToken env now u) (signRefreshToken env now i b) u)]"
    using assms(1,6-9) found up1 up2
    by (simp add: s2_def auth_exec_def Let_def refreshTokens_def auth_query_def find_session_query_def
        update_session_query_def find_user_query_def without_nth_def)
  have "find_session env i a rows2 = None"
    unfolding nofind using assms(10,12) by (force simp: rows2_def rows1_def put_def list_ex_iff split: if_splits)
  moreover have "find_session env i b rows2 \<noteq> None"
  proof -
    define e where "e = (\<lambda>h (r :: session_row). r\<lparr>rs_tokenHash := h, rs_expiresAt := now + REFRESH_TOKEN_TTL_MS\<rparr>)"
    have put: "rs_id r = rs_id row \<Longrightarrow> r \<in> set rows \<Longrightarrow> e h r \<in> set (put h rows)" for r rows h
      by (force simp: put_def e_def)
    have "e (ae_digest env b) (e (ae_digest env a) row) \<in> set rows2"
      unfolding rows2_def rows1_def by (intro put) (use assms(3) in \<open>simp_all add: e_def\<close>)
    then show ?thesis unfolding nofind using assms(4) by (force simp: list_ex_iff e_def)
  qed
  ultimately show ?thesis using run unfolding s2_def [symmetric] by (simp add: Let_def)
qed

theorem double_refresh_witness:
  "let token = signRefreshToken ex_auth_env 10 5 [7];
       s2 = snd (auth_run ex_auth_env 20
        [(0, AoRefresh (Some token)), (0, AoRefresh (Some token)), (0, AoQuery 0 0 []), (0, AoQuery 0 0 []),
         (0, AoQuery 0 0 [8]), (0, AoQuery 0 0 [9]), (0, AoQuery 0 0 []), (0, AoQuery 0 0 [])] ex_accounts)
   in length (as_replies s2) = 2 \<and> find_session ex_auth_env 5 [8] (as_sessions s2) = None"
proof -
  have q: "\<not> isQuarantinedLegacyAccount ex_auth_env (u_nickname ex_user)"
    by (rule short_not_quarantined) (simp add: ex_auth_env_def ex_user_def)
  have h: "as_tasks ex_accounts = []" "table_inv ex_accounts" "ex_session \<in> set (as_sessions ex_accounts)" "rs_userId ex_session = 5"
    "rs_tokenHash ex_session = ae_digest ex_auth_env [7]" "20 < rs_expiresAt ex_session" "u_id ex_user = 5"
    "refresh_claims (ae_verify ex_auth_env 20 (signRefreshToken ex_auth_env 10 5 [7])) = Some (5, [7])"
    "ae_digest ex_auth_env [8] \<notin> rs_tokenHash ` set (as_sessions ex_accounts)"
    "ae_digest ex_auth_env [9] \<notin> rs_tokenHash ` set (as_sessions ex_accounts)"
    "ae_digest ex_auth_env [8] \<noteq> ae_digest ex_auth_env [9]" "as_replies ex_accounts = []"
    by (simp_all add: ex_accounts_def ex_session_def ex_user_def ex_auth_env_def table_inv_def signRefreshToken_def
        refresh_claims_def REFRESH_TOKEN_TTL_MS_def)
  have f: "findById ex_auth_env 5 (as_users ex_accounts) = Some ex_user"
    using q h(7) by (simp add: findById_def unless_quarantined_def ex_accounts_def)
  from double_refresh [OF h(1-6) f h(7-11)] show ?thesis unfolding Let_def h(12) by (simp del: auth_run.simps)
qed

text \<open>
  Property C28. However often the gateways ask, the token of a socket is verified at most once and its user is looked
  up at most once, and everybody who has an answer for a socket has the same one.
\<close>

theorem socket_resolved_once:
  "let s = sauth_run decode env now ops (socket_auth_start cookies)
   in distinct (sa_verified s) \<and> distinct (sa_queried s) \<and>
      list_all (\<lambda>(n, sid, u). se_lookup (entryFor sid s) = Some (LookupDone u)) (sa_answers s)"
  using sauth_run_inv [OF sauth_start_inv, of decode env now ops cookies]
  by (auto simp: Let_def sauth_inv_def entry_ok_def list_all_iff)

end
