(* ===== verification/HttpClient.thy ===== *)
theory HttpClient
  imports JsText
begin

text \<open>
  The client's requests and its socket, \<open>web/src/api/index.js\<close>: \<open>fetchWithTimeout\<close>, the shared refresh of the session,
  \<open>apiFetch\<close> and the two uploads, and the socket that asks for a refresh when the server closes it. The endpoints of
  \<open>api\<close> only name their paths. \<open>JSON.parse\<close>, \<open>Number\<close> and the answers of the network are arguments; a promise and
  what waits for it settle in one step.
\<close>

definition API_TIMEOUT_MS :: millis where "API_TIMEOUT_MS = 35000"
definition SOCKET_STABLE_MS :: millis where "SOCKET_STABLE_MS = 10000"

record http_env =
  he_parse :: "jstring \<Rightarrow> jsval option"
  he_number :: "jsval \<Rightarrow> jsnum"

record http_response =
  hr_status :: nat
  hr_text :: jstring
  hr_retryAfter :: jsval

datatype http_result =
    HrNull
  | HrValue jsval
  | HrHttp jsval nat "rat option"
  | HrExpired
  | HrRejected
  | HrTypeError

text \<open>A call of the client: an upload is sent by \<open>doUpload\<close>, everything else by \<open>apiFetch\<close>.\<close>

record http_call =
  hc_id :: nat
  hc_path :: jstring
  hc_upload :: bool
  hc_allowRefresh :: bool
  hc_aborted :: bool

datatype fetch_purpose = FtCall http_call | FtRefresh

record http_fetch =
  ft_id :: nat
  ft_due :: millis
  ft_purpose :: fetch_purpose

datatype refresh_waiter = RwCall http_call | RwSocket nat

record http_client =
  ac_nextCall :: nat
  ac_nextFetch :: nat
  ac_fetches :: "http_fetch list"
  ac_refreshPromise :: "nat option"
  ac_waiters :: "refresh_waiter list"
  ac_sent :: "nat list"
  ac_results :: "(nat \<times> http_result) list"
  ac_expired :: nat
  ac_nextSocket :: nat
  ac_socket :: "nat option"
  ac_connects :: "nat list"
  ac_authRetried :: bool
  ac_stableTimer :: "millis option"

definition http_start :: http_client where
  "http_start =
     \<lparr>ac_nextCall = 0, ac_nextFetch = 0, ac_fetches = [], ac_refreshPromise = None, ac_waiters = [], ac_sent = [],
      ac_results = [], ac_expired = 0, ac_nextSocket = 0, ac_socket = None, ac_connects = [], ac_authRetried = False,
      ac_stableTimer = None\<rparr>"

definition http_answer :: "http_call \<Rightarrow> http_result \<Rightarrow> http_client \<Rightarrow> http_client" where
  "http_answer c r s = s\<lparr>ac_results := ac_results s @ [(hc_id c, r)]\<rparr>"

definition auth_expired :: "http_client \<Rightarrow> http_client" where
  "auth_expired s = s\<lparr>ac_expired := ac_expired s + 1\<rparr>"

text \<open>\<open>fetchWithTimeout\<close>: a caller who has aborted already gets a rejection and nothing is sent.\<close>

definition fetchWithTimeout :: "millis \<Rightarrow> fetch_purpose \<Rightarrow> http_client \<Rightarrow> http_client" where
  "fetchWithTimeout now p s =
     s\<lparr>ac_nextFetch := ac_nextFetch s + 1,
       ac_fetches := ac_fetches s @ [\<lparr>ft_id = ac_nextFetch s, ft_due = now + API_TIMEOUT_MS, ft_purpose = p\<rparr>]\<rparr>"

definition send_call :: "millis \<Rightarrow> http_call \<Rightarrow> http_client \<Rightarrow> http_client" where
  "send_call now c s =
     (if hc_aborted c then http_answer c HrRejected s
      else fetchWithTimeout now (FtCall c) (s\<lparr>ac_sent := ac_sent s @ [hc_id c]\<rparr>))"

definition http_request :: "millis \<Rightarrow> jstring \<Rightarrow> bool \<Rightarrow> http_client \<Rightarrow> http_client" where
  "http_request now path upload s =
     send_call now \<lparr>hc_id = ac_nextCall s, hc_path = path, hc_upload = upload, hc_allowRefresh = True, hc_aborted = False\<rparr>
       (s\<lparr>ac_nextCall := ac_nextCall s + 1\<rparr>)"

text \<open>\<open>refreshSession\<close>: join the refresh that is under way or start one.\<close>

definition refreshSession :: "millis \<Rightarrow> refresh_waiter \<Rightarrow> http_client \<Rightarrow> http_client" where
  "refreshSession now w s =
     (let s' = s\<lparr>ac_waiters := ac_waiters s @ [w]\<rparr>
      in case ac_refreshPromise s of
           Some _ \<Rightarrow> s'
         | None \<Rightarrow> fetchWithTimeout now FtRefresh (s'\<lparr>ac_refreshPromise := Some (ac_nextFetch s)\<rparr>))"

text \<open>What waited for the refresh goes on: a call is sent once more, a socket that is still the current one connects.\<close>

definition refresh_continues :: "millis \<Rightarrow> refresh_waiter \<Rightarrow> http_client \<Rightarrow> http_client" where
  "refresh_continues now w s =
     (case w of
        RwCall c \<Rightarrow> send_call now (c\<lparr>hc_allowRefresh := False\<rparr>) s
      | RwSocket k \<Rightarrow> if ac_socket s = Some k then s\<lparr>ac_connects := ac_connects s @ [k]\<rparr> else s)"

definition refresh_fails :: "refresh_waiter \<Rightarrow> http_client \<Rightarrow> http_client" where
  "refresh_fails w s =
     (case w of
        RwCall c \<Rightarrow> http_answer c HrExpired s
      | RwSocket k \<Rightarrow> if ac_socket s = Some k then s\<lparr>ac_socket := None\<rparr> else s)"

text \<open>The promise of the refresh settles; \<open>auth:expired\<close> comes before the callers hear of the failure.\<close>

definition refresh_settled :: "millis \<Rightarrow> bool \<Rightarrow> http_client \<Rightarrow> http_client" where
  "refresh_settled now ok s =
     (let s' = s\<lparr>ac_refreshPromise := None, ac_waiters := []\<rparr>
      in if ok then fold (refresh_continues now) (ac_waiters s) s'
         else fold refresh_fails (ac_waiters s) (auth_expired s'))"

subsection \<open>The answer of a call\<close>

definition is_finite_positive :: "jsnum \<Rightarrow> rat option" where
  "is_finite_positive n = (case n of NumFin r \<Rightarrow> if 0 < r then Some r else None | _ \<Rightarrow> None)"

text \<open>The error of \<open>apiFetch\<close>. A body that is the JSON \<open>null\<close> makes \<open>err.message\<close> throw.\<close>

definition retry_after :: "http_env \<Rightarrow> jsval \<Rightarrow> http_response \<Rightarrow> rat option" where
  "retry_after env err res =
     (case is_finite_positive (he_number env (js_get err ''retryAfterMs'')) of
        Some ms \<Rightarrow> Some ms
      | None \<Rightarrow> map_option (\<lambda>sec. sec * 1000) (is_finite_positive (he_number env (hr_retryAfter res))))"

definition http_status_text :: "nat \<Rightarrow> jstring" where
  "http_status_text n = lit ''HTTP '' @ js_show_nat n"

definition or_status :: "jsval \<Rightarrow> nat \<Rightarrow> jsval" where
  "or_status m status = (if js_falsy m then JStr (http_status_text status) else m)"

definition call_error :: "http_env \<Rightarrow> http_response \<Rightarrow> http_result" where
  "call_error env res =
     (let err = (case he_parse env (hr_text res) of None \<Rightarrow> JObj [] | Some v \<Rightarrow> v)
      in if err = JNull then HrTypeError
         else HrHttp (or_status (js_get err ''message'') (hr_status res)) (hr_status res) (retry_after env err res))"

text \<open>An upload reads the message in a \<open>try\<close> and gives no delay.\<close>

definition upload_error :: "http_env \<Rightarrow> http_response \<Rightarrow> http_result" where
  "upload_error env res =
     (case he_parse env (hr_text res) of
        None \<Rightarrow> HrHttp (JStr (http_status_text (hr_status res))) (hr_status res) None
      | Some v \<Rightarrow> HrHttp (or_status (js_get v ''message'') (hr_status res)) (hr_status res) None)"

definition http_ok :: "nat \<Rightarrow> bool" where
  "http_ok status \<longleftrightarrow> 200 \<le> status \<and> status \<le> 299"

definition call_value :: "http_env \<Rightarrow> http_call \<Rightarrow> http_response \<Rightarrow> http_result" where
  "call_value env c res =
     (if \<not> hc_upload c \<and> hr_status res = 204 then HrNull
      else if hr_text res = [] then HrNull
      else (case he_parse env (hr_text res) of None \<Rightarrow> HrNull | Some v \<Rightarrow> HrValue v))"

definition never_refreshed :: "jstring list" where
  "never_refreshed = [lit ''/auth/refresh'', lit ''/auth/login'', lit ''/auth/logout'']"

text \<open>\<open>apiFetch\<close> and the uploads after their fetch.\<close>

definition call_response :: "http_env \<Rightarrow> millis \<Rightarrow> http_call \<Rightarrow> http_response \<Rightarrow> http_client \<Rightarrow> http_client" where
  "call_response env now c res s =
     (if hr_status res = 401 \<and> \<not> hc_upload c \<and> hc_path c \<notin> set never_refreshed
      then (if \<not> hc_allowRefresh c then http_answer c HrExpired (auth_expired s) else refreshSession now (RwCall c) s)
      else if hr_status res = 401 \<and> hc_upload c \<and> hc_allowRefresh c then refreshSession now (RwCall c) s
      else if http_ok (hr_status res) then http_answer c (call_value env c res) s
      else http_answer c (if hc_upload c then upload_error env res else call_error env res) s)"

definition without_fetch :: "nat \<Rightarrow> http_client \<Rightarrow> http_client" where
  "without_fetch n s = s\<lparr>ac_fetches := filter (\<lambda>f. ft_id f \<noteq> n) (ac_fetches s)\<rparr>"

definition fetch_response :: "http_env \<Rightarrow> millis \<Rightarrow> nat \<Rightarrow> http_response \<Rightarrow> http_client \<Rightarrow> http_client" where
  "fetch_response env now n res s =
     (case List.find (\<lambda>f. ft_id f = n) (ac_fetches s) of
        None \<Rightarrow> s
      | Some f \<Rightarrow>
          (case ft_purpose f of
             FtRefresh \<Rightarrow> refresh_settled now (http_ok (hr_status res)) (without_fetch n s)
           | FtCall c \<Rightarrow> call_response env now c res (without_fetch n s)))"

text \<open>The network fails, the timeout of the fetch fires or the caller aborts it.\<close>

definition fetch_rejected :: "millis \<Rightarrow> nat \<Rightarrow> http_client \<Rightarrow> http_client" where
  "fetch_rejected now n s =
     (case List.find (\<lambda>f. ft_id f = n) (ac_fetches s) of
        None \<Rightarrow> s
      | Some f \<Rightarrow>
          (case ft_purpose f of
             FtRefresh \<Rightarrow> refresh_settled now False (without_fetch n s)
           | FtCall c \<Rightarrow> http_answer c HrRejected (without_fetch n s)))"

text \<open>The first fetch whose time is over.\<close>

definition fetch_timeout :: "millis \<Rightarrow> http_client \<Rightarrow> http_client" where
  "fetch_timeout now s =
     (case List.find (\<lambda>f. ft_due f \<le> now) (ac_fetches s) of None \<Rightarrow> s | Some f \<Rightarrow> fetch_rejected now (ft_id f) s)"

definition call_fetch :: "nat \<Rightarrow> http_fetch \<Rightarrow> bool" where
  "call_fetch k f = (case ft_purpose f of FtCall c \<Rightarrow> hc_id c = k | FtRefresh \<Rightarrow> False)"

definition mark_aborted :: "nat \<Rightarrow> refresh_waiter \<Rightarrow> refresh_waiter" where
  "mark_aborted k w = (case w of RwCall c \<Rightarrow> if hc_id c = k then RwCall (c\<lparr>hc_aborted := True\<rparr>) else w | _ \<Rightarrow> w)"

text \<open>The caller of \<open>k\<close> aborts: its fetch is rejected; while it waits for a refresh only the signal is set.\<close>

definition call_abort :: "millis \<Rightarrow> nat \<Rightarrow> http_client \<Rightarrow> http_client" where
  "call_abort now k s =
     (case List.find (call_fetch k) (ac_fetches s) of
        Some f \<Rightarrow> fetch_rejected now (ft_id f) s
      | None \<Rightarrow> s\<lparr>ac_waiters := map (mark_aborted k) (ac_waiters s)\<rparr>)"

subsection \<open>The socket\<close>

definition connectSocket :: "http_client \<Rightarrow> http_client" where
  "connectSocket s =
     (case ac_socket s of
        Some _ \<Rightarrow> s
      | None \<Rightarrow> s\<lparr>ac_socket := Some (ac_nextSocket s), ac_nextSocket := ac_nextSocket s + 1,
                  ac_connects := ac_connects s @ [ac_nextSocket s]\<rparr>)"

definition disconnectSocket :: "http_client \<Rightarrow> http_client" where
  "disconnectSocket s = s\<lparr>ac_stableTimer := None, ac_authRetried := False, ac_socket := None\<rparr>"

definition on_connect :: "millis \<Rightarrow> nat \<Rightarrow> http_client \<Rightarrow> http_client" where
  "on_connect now k s = (if ac_socket s \<noteq> Some k then s else s\<lparr>ac_stableTimer := Some (now + SOCKET_STABLE_MS)\<rparr>)"

definition stable_timer_fires :: "millis \<Rightarrow> http_client \<Rightarrow> http_client" where
  "stable_timer_fires now s =
     (case ac_stableTimer s of
        None \<Rightarrow> s
      | Some due \<Rightarrow> if due \<le> now then s\<lparr>ac_stableTimer := None, ac_authRetried := False\<rparr> else s)"

text \<open>\<open>serverClosed\<close> says whether the reason is \<open>'io server disconnect'\<close>.\<close>

definition on_disconnect :: "millis \<Rightarrow> bool \<Rightarrow> nat \<Rightarrow> http_client \<Rightarrow> http_client" where
  "on_disconnect now serverClosed k s =
     (if \<not> serverClosed \<or> ac_socket s \<noteq> Some k then s
      else (let s' = s\<lparr>ac_stableTimer := None\<rparr>
            in if ac_authRetried s then auth_expired (s'\<lparr>ac_socket := None\<rparr>)
               else refreshSession now (RwSocket k) (s'\<lparr>ac_authRetried := True\<rparr>)))"

subsection \<open>Runs\<close>

datatype http_op =
    HoRequest jstring bool
  | HoResponse nat http_response
  | HoNetworkError nat
  | HoTimeout
  | HoAbort nat
  | HoConnectSocket
  | HoDisconnectSocket
  | HoConnected nat
  | HoDown bool nat
  | HoStable

definition http_exec :: "http_env \<Rightarrow> millis \<Rightarrow> http_op \<Rightarrow> http_client \<Rightarrow> http_client" where
  "http_exec env now op s =
     (case op of
        HoRequest path upload \<Rightarrow> http_request now path upload s
      | HoResponse n res \<Rightarrow> fetch_response env now n res s
      | HoNetworkError n \<Rightarrow> fetch_rejected now n s
      | HoTimeout \<Rightarrow> fetch_timeout now s
      | HoAbort k \<Rightarrow> call_abort now k s
      | HoConnectSocket \<Rightarrow> connectSocket s
      | HoDisconnectSocket \<Rightarrow> disconnectSocket s
      | HoConnected k \<Rightarrow> on_connect now k s
      | HoDown serverClosed k \<Rightarrow> on_disconnect now serverClosed k s
      | HoStable \<Rightarrow> stable_timer_fires now s)"

fun http_run :: "http_env \<Rightarrow> millis \<Rightarrow> (nat \<times> http_op) list \<Rightarrow> http_client \<Rightarrow> http_client" where
  "http_run env now [] s = s"
| "http_run env now ((dt, op) # ops) s = http_run env (now + int dt) ops (http_exec env (now + int dt) op s)"

end
