(* ===== verification/HttpRules.thy ===== *)
theory HttpRules
  imports HttpClient
begin

text \<open>
  The bookkeeping of the client's calls: one refresh at a time, every call in one place, and no call sent more than
  twice. The steps that answer or send are shown to keep it for the list of waiters that is still to be served.
\<close>

subsection \<open>One refresh\<close>

definition is_refresh :: "http_fetch \<Rightarrow> bool" where
  "is_refresh f \<longleftrightarrow> ft_purpose f = FtRefresh"

definition refresh_inv :: "http_client \<Rightarrow> bool" where
  "refresh_inv s \<longleftrightarrow> distinct (map ft_id (ac_fetches s)) \<and> (\<forall>f\<in>set (ac_fetches s). ft_id f < ac_nextFetch s) \<and>
     map ft_id (filter is_refresh (ac_fetches s)) = (case ac_refreshPromise s of None \<Rightarrow> [] | Some n \<Rightarrow> [n]) \<and>
     (ac_refreshPromise s = None \<longrightarrow> ac_waiters s = [])"

lemma refresh_inv_frame:
  "refresh_inv s \<Longrightarrow> ac_fetches s' = ac_fetches s \<Longrightarrow> ac_nextFetch s' = ac_nextFetch s \<Longrightarrow>
   ac_refreshPromise s' = ac_refreshPromise s \<Longrightarrow> (ac_waiters s = [] \<longrightarrow> ac_waiters s' = []) \<Longrightarrow> refresh_inv s'"
  by (simp add: refresh_inv_def)

lemma http_answer_fields [simp]:
  "ac_fetches (http_answer c r s) = ac_fetches s" "ac_nextFetch (http_answer c r s) = ac_nextFetch s"
  "ac_refreshPromise (http_answer c r s) = ac_refreshPromise s" "ac_waiters (http_answer c r s) = ac_waiters s"
  "ac_results (http_answer c r s) = ac_results s @ [(hc_id c, r)]" "ac_nextCall (http_answer c r s) = ac_nextCall s"
  "ac_sent (http_answer c r s) = ac_sent s"
  by (simp_all add: http_answer_def)

lemma auth_expired_fields [simp]:
  "ac_fetches (auth_expired s) = ac_fetches s" "ac_nextFetch (auth_expired s) = ac_nextFetch s"
  "ac_refreshPromise (auth_expired s) = ac_refreshPromise s" "ac_waiters (auth_expired s) = ac_waiters s"
  "ac_results (auth_expired s) = ac_results s" "ac_nextCall (auth_expired s) = ac_nextCall s" "ac_sent (auth_expired s) = ac_sent s"
  by (simp_all add: auth_expired_def)

lemma fetch_fields [simp]:
  "ac_waiters (fetchWithTimeout now p s) = ac_waiters s" "ac_refreshPromise (fetchWithTimeout now p s) = ac_refreshPromise s"
  "ac_results (fetchWithTimeout now p s) = ac_results s" "ac_nextCall (fetchWithTimeout now p s) = ac_nextCall s"
  "ac_sent (fetchWithTimeout now p s) = ac_sent s"
  by (simp_all add: fetchWithTimeout_def)

lemma fetch_call_inv: "refresh_inv s \<Longrightarrow> refresh_inv (fetchWithTimeout now (FtCall c) s)"
  by (force simp: refresh_inv_def fetchWithTimeout_def is_refresh_def)

lemma answer_inv: "refresh_inv s \<Longrightarrow> refresh_inv (http_answer c r s)"
  by (rule refresh_inv_frame) auto

lemma expired_inv: "refresh_inv s \<Longrightarrow> refresh_inv (auth_expired s)"
  by (rule refresh_inv_frame) auto

lemma send_call_inv: "refresh_inv s \<Longrightarrow> refresh_inv (send_call now c s)"
proof -
  assume inv: "refresh_inv s"
  then have "refresh_inv (s\<lparr>ac_sent := ac_sent s @ [hc_id c]\<rparr>)" by (rule refresh_inv_frame) auto
  then show ?thesis using inv by (simp add: send_call_def fetch_call_inv answer_inv)
qed

lemma refreshSession_inv:
  assumes inv: "refresh_inv s"
  shows "refresh_inv (refreshSession now w s)"
proof (cases "ac_refreshPromise s")
  case None
  have "filter is_refresh (ac_fetches s) = []" using inv None by (simp add: refresh_inv_def)
  then show ?thesis using inv None
    by (auto simp: refreshSession_def refresh_inv_def fetchWithTimeout_def is_refresh_def)
qed (use inv in \<open>simp add: refreshSession_def refresh_inv_def\<close>)

lemma fold_refresh_inv:
  assumes "\<And>w s. refresh_inv s \<Longrightarrow> refresh_inv (f w s)"
  shows "refresh_inv s \<Longrightarrow> refresh_inv (fold f ws s)"
  by (induction ws arbitrary: s) (auto simp: assms)

lemma refresh_fails_inv: "refresh_inv s \<Longrightarrow> refresh_inv (refresh_fails w s)"
  by (erule refresh_inv_frame) (auto simp: refresh_fails_def split: refresh_waiter.split)

lemma refresh_continues_inv: "refresh_inv s \<Longrightarrow> refresh_inv (refresh_continues now w s)"
proof (cases w)
  case (RwSocket k)
  then show "refresh_inv s \<Longrightarrow> ?thesis" by (elim refresh_inv_frame) (auto simp: refresh_continues_def)
qed (simp add: refresh_continues_def send_call_inv)

lemma refresh_settled_inv:
  assumes "distinct (map ft_id (ac_fetches s))" "\<forall>f\<in>set (ac_fetches s). ft_id f < ac_nextFetch s" "filter is_refresh (ac_fetches s) = []"
  shows "refresh_inv (refresh_settled now ok s)"
proof -
  have start: "refresh_inv (s\<lparr>ac_refreshPromise := None, ac_waiters := []\<rparr>)" using assms by (simp add: refresh_inv_def)
  then have e: "refresh_inv (auth_expired (s\<lparr>ac_refreshPromise := None, ac_waiters := []\<rparr>))" by (rule expired_inv)
  show ?thesis
    using fold_refresh_inv [where f = "refresh_continues now" and ws = "ac_waiters s", OF refresh_continues_inv start]
      fold_refresh_inv [where f = refresh_fails and ws = "ac_waiters s", OF refresh_fails_inv e]
    by (simp add: refresh_settled_def Let_def)
qed

lemma find_fetch: "List.find (\<lambda>f. ft_id f = n) fs = Some f \<Longrightarrow> f \<in> set fs \<and> ft_id f = n"
  by (auto simp: find_Some_iff)

lemma other_fetch: "distinct (map ft_id fs) \<Longrightarrow> f \<in> set fs \<Longrightarrow> g \<in> set fs \<Longrightarrow> ft_id f = ft_id g \<Longrightarrow> f = g"
  by (rule distinct_map_eqD)

text \<open>Taking the fetch of a call, or of the refresh, out.\<close>

lemma without_call_inv:
  assumes inv: "refresh_inv s" and f: "f \<in> set (ac_fetches s)" "ft_id f = n" "ft_purpose f = FtCall c"
  shows "refresh_inv (without_fetch n s)"
proof -
  have d: "distinct (map ft_id (ac_fetches s))" using inv by (simp add: refresh_inv_def)
  have "filter is_refresh (filter (\<lambda>f. ft_id f \<noteq> n) (ac_fetches s)) = filter is_refresh (ac_fetches s)"
    unfolding filter_filter
  proof (intro filter_cong refl)
    fix g assume g: "g \<in> set (ac_fetches s)"
    show "(ft_id g \<noteq> n \<and> is_refresh g) = is_refresh g"
      using other_fetch [OF d g f(1)] f(2,3) by (cases "g = f") (auto simp: is_refresh_def)
  qed
  then show ?thesis using inv by (simp add: refresh_inv_def without_fetch_def distinct_map_filter)
qed

lemma without_refresh:
  assumes inv: "refresh_inv s" and f: "f \<in> set (ac_fetches s)" "ft_id f = n" "ft_purpose f = FtRefresh"
  shows "filter is_refresh (ac_fetches (without_fetch n s)) = []"
proof -
  have "f \<in> set (filter is_refresh (ac_fetches s))" using f by (simp add: is_refresh_def)
  then have "n \<in> set (map ft_id (filter is_refresh (ac_fetches s)))" using f(2) by force
  then have m: "map ft_id (filter is_refresh (ac_fetches s)) = [n]"
    using inv unfolding refresh_inv_def by (cases "ac_refreshPromise s") simp_all
  have "g \<notin> set (ac_fetches (without_fetch n s))" if "is_refresh g" for g
  proof
    assume "g \<in> set (ac_fetches (without_fetch n s))"
    then have "ft_id g \<in> set (map ft_id (filter is_refresh (ac_fetches s)))" "ft_id g \<noteq> n"
      using that by (auto simp: without_fetch_def)
    then show False by (simp add: m)
  qed
  then show ?thesis by (auto simp: filter_empty_conv)
qed

lemma settled_without_inv:
  assumes inv: "refresh_inv s" and f: "f \<in> set (ac_fetches s)" "ft_id f = n" "ft_purpose f = FtRefresh"
  shows "refresh_inv (refresh_settled now ok (without_fetch n s))"
  using inv without_refresh [OF assms]
  by (intro refresh_settled_inv) (auto simp: refresh_inv_def without_fetch_def distinct_map_filter)

lemma call_response_inv: "refresh_inv s \<Longrightarrow> refresh_inv (call_response env now c res s)"
  by (simp add: call_response_def refreshSession_inv answer_inv expired_inv)

lemma fetch_response_inv:
  assumes inv: "refresh_inv s"
  shows "refresh_inv (fetch_response env now n res s)"
proof (cases "List.find (\<lambda>f. ft_id f = n) (ac_fetches s)")
  case (Some f)
  note f = find_fetch [OF Some]
  show ?thesis
  proof (cases "ft_purpose f")
    case (FtCall c)
    have "refresh_inv (without_fetch n s)" using without_call_inv [OF inv _ _ FtCall] f by blast
    then show ?thesis using Some FtCall by (simp add: fetch_response_def call_response_inv)
  next
    case FtRefresh
    then show ?thesis using Some settled_without_inv [OF inv _ _ FtRefresh, of n] f by (simp add: fetch_response_def)
  qed
qed (simp add: fetch_response_def inv)

lemma fetch_rejected_inv:
  assumes inv: "refresh_inv s"
  shows "refresh_inv (fetch_rejected now n s)"
proof (cases "List.find (\<lambda>f. ft_id f = n) (ac_fetches s)")
  case (Some f)
  note f = find_fetch [OF Some]
  show ?thesis
  proof (cases "ft_purpose f")
    case (FtCall c)
    have "refresh_inv (without_fetch n s)" using without_call_inv [OF inv _ _ FtCall] f by blast
    then show ?thesis using Some FtCall by (simp add: fetch_rejected_def answer_inv)
  next
    case FtRefresh
    then show ?thesis using Some settled_without_inv [OF inv _ _ FtRefresh, of n] f by (simp add: fetch_rejected_def)
  qed
qed (simp add: fetch_rejected_def inv)

lemma on_disconnect_inv:
  assumes inv: "refresh_inv s"
  shows "refresh_inv (on_disconnect now serverClosed k s)"
proof -
  have "refresh_inv (s\<lparr>ac_stableTimer := None, ac_authRetried := True\<rparr>)" "refresh_inv (s\<lparr>ac_stableTimer := None, ac_socket := None\<rparr>)"
    by (rule refresh_inv_frame [OF inv]; simp)+
  then show ?thesis using inv by (simp add: on_disconnect_def Let_def refreshSession_inv expired_inv)
qed

lemma refresh_inv_exec:
  assumes inv: "refresh_inv s"
  shows "refresh_inv (http_exec env now op s)"
proof (cases op)
  case (HoRequest path upload)
  have "refresh_inv (s\<lparr>ac_nextCall := ac_nextCall s + 1\<rparr>)" by (rule refresh_inv_frame [OF inv]) auto
  then show ?thesis by (simp add: HoRequest http_exec_def http_request_def send_call_inv)
next
  case (HoAbort k)
  have "refresh_inv (s\<lparr>ac_waiters := map (mark_aborted k) (ac_waiters s)\<rparr>)" by (rule refresh_inv_frame [OF inv]) auto
  then show ?thesis using fetch_rejected_inv [OF inv] by (simp add: HoAbort http_exec_def call_abort_def split: option.split)
next
  case (HoDown serverClosed k)
  then show ?thesis by (simp add: http_exec_def on_disconnect_inv inv)
next
  case (HoResponse n res)
  then show ?thesis by (simp add: http_exec_def fetch_response_inv inv)
next
  case (HoNetworkError n)
  then show ?thesis by (simp add: http_exec_def fetch_rejected_inv inv)
next
  case HoTimeout
  then show ?thesis using fetch_rejected_inv [OF inv] by (simp add: http_exec_def fetch_timeout_def inv split: option.split)
next
  case HoConnectSocket
  show ?thesis by (rule refresh_inv_frame [OF inv]) (auto simp: HoConnectSocket http_exec_def connectSocket_def split: option.split)
next
  case HoDisconnectSocket
  show ?thesis by (rule refresh_inv_frame [OF inv]) (auto simp: HoDisconnectSocket http_exec_def disconnectSocket_def)
next
  case (HoConnected k)
  show ?thesis by (rule refresh_inv_frame [OF inv]) (auto simp: HoConnected http_exec_def on_connect_def)
next
  case HoStable
  show ?thesis by (rule refresh_inv_frame [OF inv]) (auto simp: HoStable http_exec_def stable_timer_fires_def split: option.split)
qed

lemma http_run_invariant:
  assumes "P s" and "\<And>now op s. P s \<Longrightarrow> P (http_exec env now op s)"
  shows "P (http_run env now ops s)"
  using assms(1)
proof (induction ops arbitrary: now s)
  case (Cons o' ops)
  then show ?case using assms(2) by (cases o') simp
qed simp

lemma refresh_inv_run: "refresh_inv (http_run env now ops http_start)"
  by (rule http_run_invariant) (auto simp: refresh_inv_exec, simp add: refresh_inv_def http_start_def)

subsection \<open>Every call is in one place\<close>

definition fetch_calls :: "http_fetch list \<Rightarrow> http_call list" where
  "fetch_calls fs = List.map_filter (\<lambda>f. case ft_purpose f of FtCall c \<Rightarrow> Some c | FtRefresh \<Rightarrow> None) fs"

definition waiter_calls :: "refresh_waiter list \<Rightarrow> http_call list" where
  "waiter_calls ws = List.map_filter (\<lambda>w. case w of RwCall c \<Rightarrow> Some c | RwSocket _ \<Rightarrow> None) ws"

definition sent_times :: "http_client \<Rightarrow> nat \<Rightarrow> nat" where
  "sent_times s k = count_list (ac_sent s) k"

definition calls_inv :: "refresh_waiter list \<Rightarrow> http_client \<Rightarrow> bool" where
  "calls_inv ws s \<longleftrightarrow>
     mset (map fst (ac_results s)) + mset (map hc_id (fetch_calls (ac_fetches s))) + mset (map hc_id (waiter_calls ws)) =
       mset [0..<ac_nextCall s] \<and>
     (\<forall>c\<in>set (fetch_calls (ac_fetches s)). hc_allowRefresh c \<longrightarrow> sent_times s (hc_id c) \<le> 1) \<and>
     (\<forall>c\<in>set (waiter_calls ws). sent_times s (hc_id c) \<le> 1) \<and>
     (\<forall>k. sent_times s k \<le> 2) \<and> (\<forall>k\<ge>ac_nextCall s. sent_times s k = 0)"

lemma fetch_calls_simps [simp]:
  "fetch_calls [] = []" "fetch_calls (fs @ gs) = fetch_calls fs @ fetch_calls gs"
  "fetch_calls (f # fs) = (case ft_purpose f of FtCall c \<Rightarrow> c # fetch_calls fs | FtRefresh \<Rightarrow> fetch_calls fs)"
  by (auto simp: fetch_calls_def List.map_filter_def split: fetch_purpose.splits)

lemma waiter_calls_simps [simp]:
  "waiter_calls [] = []" "waiter_calls (ws @ vs) = waiter_calls ws @ waiter_calls vs"
  "waiter_calls (w # ws) = (case w of RwCall c \<Rightarrow> c # waiter_calls ws | RwSocket _ \<Rightarrow> waiter_calls ws)"
  by (auto simp: waiter_calls_def List.map_filter_def split: refresh_waiter.splits)

lemma calls_inv_frame:
  "calls_inv ws s \<Longrightarrow> ac_results s' = ac_results s \<Longrightarrow> fetch_calls (ac_fetches s') = fetch_calls (ac_fetches s) \<Longrightarrow>
   ac_nextCall s' = ac_nextCall s \<Longrightarrow> ac_sent s' = ac_sent s \<Longrightarrow> calls_inv ws s'"
  by (simp add: calls_inv_def sent_times_def)

text \<open>A call that comes out of the list of waiters is answered or sent again.\<close>

definition loose_inv :: "http_call \<Rightarrow> refresh_waiter list \<Rightarrow> http_client \<Rightarrow> bool" where
  "loose_inv c ws s \<longleftrightarrow>
     mset (map fst (ac_results s)) + mset (map hc_id (fetch_calls (ac_fetches s))) + mset (map hc_id (waiter_calls (RwCall c # ws))) =
       mset [0..<ac_nextCall s] \<and>
     (\<forall>c\<in>set (fetch_calls (ac_fetches s)). hc_allowRefresh c \<longrightarrow> sent_times s (hc_id c) \<le> 1) \<and>
     (\<forall>c\<in>set (waiter_calls ws). sent_times s (hc_id c) \<le> 1) \<and>
     (\<forall>k. sent_times s k \<le> 2) \<and> (\<forall>k\<ge>ac_nextCall s. sent_times s k = 0)"

lemma loose_waiter: "calls_inv (RwCall c # ws) s \<Longrightarrow> loose_inv c ws s"
  by (simp add: calls_inv_def loose_inv_def)

lemma loose_waits: "loose_inv c ws s \<Longrightarrow> sent_times s (hc_id c) \<le> 1 \<Longrightarrow> calls_inv (ws @ [RwCall c]) s"
  by (simp add: calls_inv_def loose_inv_def add_ac)

lemma answer_calls: "loose_inv c ws s \<Longrightarrow> calls_inv ws (http_answer c r s)"
  by (auto simp: calls_inv_def loose_inv_def sent_times_def)

lemma send_calls:
  assumes inv: "calls_inv (RwCall c # ws) s" and again: "\<not> hc_allowRefresh c"
  shows "calls_inv ws (send_call now c s)"
proof (cases "hc_aborted c")
  case True
  then show ?thesis using answer_calls [OF loose_waiter [OF inv]] by (simp add: send_call_def)
next
  case False
  define s' where "s' = send_call now c s"
  have s': "ac_results s' = ac_results s" "fetch_calls (ac_fetches s') = fetch_calls (ac_fetches s) @ [c]"
    "ac_nextCall s' = ac_nextCall s" "ac_sent s' = ac_sent s @ [hc_id c]"
    using False by (simp_all add: s'_def send_call_def fetchWithTimeout_def)
  have t: "sent_times s' k = sent_times s k + (if k = hc_id c then 1 else 0)" for k by (simp add: sent_times_def s')
  have ms: "mset (map fst (ac_results s)) + mset (map hc_id (fetch_calls (ac_fetches s))) + add_mset (hc_id c) (mset (map hc_id (waiter_calls ws))) =
      mset [0..<ac_nextCall s]" using inv by (simp add: calls_inv_def)
  have nd: "hc_id c \<notin> hc_id ` set (fetch_calls (ac_fetches s))" "hc_id c \<notin> hc_id ` set (waiter_calls ws)" "hc_id c < ac_nextCall s"
  proof -
    define k where "k = hc_id c"
    have u: "count (mset [0..<ac_nextCall s]) k \<le> 1"
      using distinct_upt [of 0 "ac_nextCall s"] unfolding distinct_count_atmost_1 by simp
    have cnt: "count (mset (map fst (ac_results s))) k + count (mset (map hc_id (fetch_calls (ac_fetches s)))) k +
        Suc (count (mset (map hc_id (waiter_calls ws))) k) = count (mset [0..<ac_nextCall s]) k"
      unfolding ms [symmetric] by (simp only: count_union count_add_mset k_def refl if_True)
    have z: "count (mset (map hc_id (fetch_calls (ac_fetches s)))) k = 0" "count (mset (map hc_id (waiter_calls ws))) k = 0"
      using cnt u by linarith+
    have "0 < count (mset [0..<ac_nextCall s]) k" using cnt by linarith
    then have "k \<in># mset [0..<ac_nextCall s]" by (simp only: count_greater_zero_iff)
    then show "hc_id c < ac_nextCall s" by (simp add: k_def)
    show "hc_id c \<notin> hc_id ` set (fetch_calls (ac_fetches s))" "hc_id c \<notin> hc_id ` set (waiter_calls ws)"
      using z unfolding count_eq_zero_iff set_mset_mset set_map k_def by blast+
  qed
  have "sent_times s (hc_id c) \<le> 1" using inv by (simp add: calls_inv_def)
  then have two: "sent_times s' j \<le> 2" for j using inv by (simp add: calls_inv_def t)
  have zero: "sent_times s' j = 0" if "ac_nextCall s' \<le> j" for j
    using inv that nd(3) by (simp add: calls_inv_def t s'(3))
  have one: "sent_times s' (hc_id d) = sent_times s (hc_id d)" if "hc_id d \<noteq> hc_id c" for d using that by (simp add: t)
  have f: "\<forall>d\<in>set (fetch_calls (ac_fetches s')). hc_allowRefresh d \<longrightarrow> sent_times s' (hc_id d) \<le> 1"
  proof (intro ballI impI)
    fix d assume d: "d \<in> set (fetch_calls (ac_fetches s'))" "hc_allowRefresh d"
    then have "d \<in> set (fetch_calls (ac_fetches s))" using again by (auto simp: s'(2))
    moreover from this have "hc_id d \<noteq> hc_id c" using nd(1) by (metis image_eqI)
    ultimately show "sent_times s' (hc_id d) \<le> 1" using one [of d] inv d(2) by (simp add: calls_inv_def)
  qed
  have w: "\<forall>d\<in>set (waiter_calls ws). sent_times s' (hc_id d) \<le> 1"
  proof
    fix d assume d: "d \<in> set (waiter_calls ws)"
    then have "hc_id d \<noteq> hc_id c" using nd(2) by (metis image_eqI)
    then show "sent_times s' (hc_id d) \<le> 1" using one [of d] inv d by (simp add: calls_inv_def)
  qed
  have "mset (map fst (ac_results s')) + mset (map hc_id (fetch_calls (ac_fetches s'))) + mset (map hc_id (waiter_calls ws)) =
      mset [0..<ac_nextCall s']" using ms by (simp add: s')
  then show ?thesis unfolding s'_def [symmetric] calls_inv_def using f w two zero by blast
qed


text \<open>The waiters are served one after the other.\<close>

lemma continue_calls:
  assumes inv: "calls_inv (w # ws) s"
  shows "calls_inv ws (refresh_continues now w s)"
proof (cases w)
  case (RwCall c)
  then have "calls_inv (RwCall (c\<lparr>hc_allowRefresh := False\<rparr>) # ws) s" using inv by (simp add: calls_inv_def)
  then show ?thesis using send_calls [of "c\<lparr>hc_allowRefresh := False\<rparr>"] by (simp add: RwCall refresh_continues_def)
next
  case (RwSocket k)
  then have "calls_inv ws s" using inv by (simp add: calls_inv_def)
  then show ?thesis by (rule calls_inv_frame) (simp_all add: RwSocket refresh_continues_def)
qed

lemma fail_calls:
  assumes inv: "calls_inv (w # ws) s"
  shows "calls_inv ws (refresh_fails w s)"
proof (cases w)
  case (RwCall c)
  then show ?thesis using inv answer_calls [OF loose_waiter] by (simp add: refresh_fails_def)
next
  case (RwSocket k)
  then have "calls_inv ws s" using inv by (simp add: calls_inv_def)
  then show ?thesis by (rule calls_inv_frame) (simp_all add: RwSocket refresh_fails_def)
qed

lemma fold_calls:
  assumes "\<And>w ws s. calls_inv (w # ws) s \<Longrightarrow> calls_inv ws (f w s)"
  shows "calls_inv ws s \<Longrightarrow> calls_inv [] (fold f ws s)"
proof (induction ws arbitrary: s)
  case (Cons w ws)
  then show ?case using assms [of w ws s] by simp
qed simp

lemma waiters_send: "ac_waiters (send_call now c s) = ac_waiters s"
  by (simp add: send_call_def)

lemma waiters_serve:
  "ac_waiters (refresh_continues now w s) = ac_waiters s" "ac_waiters (refresh_fails w s) = ac_waiters s"
  by (auto simp: refresh_continues_def refresh_fails_def waiters_send split: refresh_waiter.split)

lemma waiters_fold:
  "ac_waiters (fold (refresh_continues now) ws s) = ac_waiters s" "ac_waiters (fold refresh_fails ws s) = ac_waiters s"
  by (induction ws arbitrary: s) (auto simp: waiters_serve)

lemma settled_calls:
  assumes inv: "calls_inv (ac_waiters s) s"
  shows "calls_inv (ac_waiters (refresh_settled now ok s)) (refresh_settled now ok s)"
proof -
  define s' where "s' = s\<lparr>ac_refreshPromise := None, ac_waiters := []\<rparr>"
  have i: "calls_inv (ac_waiters s) s'" "calls_inv (ac_waiters s) (auth_expired s')"
    by (rule calls_inv_frame [OF inv]; simp add: s'_def)+
  have "ac_waiters s' = []" by (simp add: s'_def)
  then show ?thesis
    using fold_calls [where f = "refresh_continues now", OF continue_calls i(1)] fold_calls [where f = refresh_fails, OF fail_calls i(2)]
    by (simp add: refresh_settled_def Let_def s'_def [symmetric] waiters_fold)
qed

text \<open>The fetch of a call ends: the call is loose; the fetch of the refresh ends: no call is.\<close>

lemma mset_fetch_calls: "mset (fetch_calls fs) = sum_mset (image_mset (\<lambda>f. case ft_purpose f of FtCall c \<Rightarrow> {#c#} | FtRefresh \<Rightarrow> {#}) (mset fs))"
  by (induction fs) (auto split: fetch_purpose.splits)

lemma without_call_calls:
  assumes inv: "calls_inv ws s" and d: "distinct (map ft_id (ac_fetches s))" and f: "f \<in> set (ac_fetches s)" "ft_id f = n" "ft_purpose f = FtCall c"
  shows "mset (fetch_calls (ac_fetches s)) = add_mset c (mset (fetch_calls (ac_fetches (without_fetch n s))))"
    and "\<not> hc_allowRefresh c \<or> sent_times s (hc_id c) \<le> 1"
proof -
  have sp: "mset (ac_fetches s) = add_mset f (mset (ac_fetches (without_fetch n s)))"
    using mset_without [OF d f(1)] f(2) unfolding without_fetch_def by simp
  show ms: "mset (fetch_calls (ac_fetches s)) = add_mset c (mset (fetch_calls (ac_fetches (without_fetch n s))))"
    unfolding mset_fetch_calls sp using f(3) by simp
  have "c \<in> set (fetch_calls (ac_fetches s))" unfolding set_mset_mset [symmetric] ms by simp
  then show "\<not> hc_allowRefresh c \<or> sent_times s (hc_id c) \<le> 1" using inv by (auto simp: calls_inv_def)
qed

lemma without_refresh_calls:
  assumes inv: "calls_inv ws s" and d: "distinct (map ft_id (ac_fetches s))" and f: "f \<in> set (ac_fetches s)" "ft_id f = n" "ft_purpose f = FtRefresh"
  shows "calls_inv ws (without_fetch n s)"
proof -
  have sp: "mset (ac_fetches s) = add_mset f (mset (ac_fetches (without_fetch n s)))"
    using mset_without [OF d f(1)] f(2) unfolding without_fetch_def by simp
  have "mset (fetch_calls (ac_fetches s)) = mset (fetch_calls (ac_fetches (without_fetch n s)))"
    unfolding mset_fetch_calls sp using f(3) by simp
  note e = this
  have "mset (map hc_id (fetch_calls (ac_fetches (without_fetch n s)))) = mset (map hc_id (fetch_calls (ac_fetches s)))"
    unfolding mset_map e ..
  moreover have "set (fetch_calls (ac_fetches (without_fetch n s))) = set (fetch_calls (ac_fetches s))"
    unfolding set_mset_mset [symmetric] e ..
  moreover have "ac_results (without_fetch n s) = ac_results s" "ac_nextCall (without_fetch n s) = ac_nextCall s"
    "ac_sent (without_fetch n s) = ac_sent s" by (simp_all add: without_fetch_def)
  ultimately show ?thesis using inv by (simp add: calls_inv_def sent_times_def)
qed


lemma response_calls:
  assumes inv: "loose_inv c (ac_waiters s) s" and once: "hc_allowRefresh c \<Longrightarrow> sent_times s (hc_id c) \<le> 1"
  shows "calls_inv (ac_waiters (call_response env now c res s)) (call_response env now c res s)"
proof -
  have answer: "calls_inv (ac_waiters (http_answer c r s)) (http_answer c r s)" for r using answer_calls [OF inv] by simp
  have "loose_inv c (ac_waiters s) (auth_expired s)" using inv by (simp add: loose_inv_def sent_times_def)
  then have expired: "calls_inv (ac_waiters (http_answer c r (auth_expired s))) (http_answer c r (auth_expired s))" for r
    using answer_calls by simp
  have refresh: "calls_inv (ac_waiters (refreshSession now (RwCall c) s)) (refreshSession now (RwCall c) s)" if "hc_allowRefresh c"
    using loose_waits [OF inv once [OF that]]
    by (auto simp: refreshSession_def Let_def fetchWithTimeout_def elim!: calls_inv_frame split: option.split)
  show ?thesis using answer expired refresh by (simp add: call_response_def)
qed

definition http_inv :: "http_client \<Rightarrow> bool" where
  "http_inv s \<longleftrightarrow> refresh_inv s \<and> calls_inv (ac_waiters s) s"

text \<open>A call whose fetch has ended.\<close>

lemma loose_calls:
  assumes inv: "http_inv s" and f: "List.find (\<lambda>f. ft_id f = n) (ac_fetches s) = Some f" "ft_purpose f = FtCall c"
  shows "loose_inv c (ac_waiters (without_fetch n s)) (without_fetch n s)"
    and "hc_allowRefresh c \<Longrightarrow> sent_times (without_fetch n s) (hc_id c) \<le> 1"
proof -
  have d: "distinct (map ft_id (ac_fetches s))" using inv by (simp add: http_inv_def refresh_inv_def)
  have ci: "calls_inv (ac_waiters s) s" using inv by (simp add: http_inv_def)
  note w = without_call_calls [OF ci d conjunct1 [OF find_fetch [OF f(1)]] conjunct2 [OF find_fetch [OF f(1)]] f(2)]
  have e: "ac_results (without_fetch n s) = ac_results s" "ac_nextCall (without_fetch n s) = ac_nextCall s"
    "ac_sent (without_fetch n s) = ac_sent s" "ac_waiters (without_fetch n s) = ac_waiters s" by (simp_all add: without_fetch_def)
  have t: "sent_times (without_fetch n s) k = sent_times s k" for k by (simp add: sent_times_def e)
  show "hc_allowRefresh c \<Longrightarrow> sent_times (without_fetch n s) (hc_id c) \<le> 1" using w(2) t by simp
  have ids: "mset (map hc_id (fetch_calls (ac_fetches s))) = add_mset (hc_id c) (mset (map hc_id (fetch_calls (ac_fetches (without_fetch n s)))))"
    unfolding mset_map w(1) by simp
  have sub: "set (fetch_calls (ac_fetches (without_fetch n s))) \<subseteq> set (fetch_calls (ac_fetches s))"
    unfolding set_mset_mset [symmetric] w(1) by auto
  have "mset (map fst (ac_results s)) + mset (map hc_id (fetch_calls (ac_fetches (without_fetch n s)))) +
      mset (map hc_id (waiter_calls (RwCall c # ac_waiters s))) = mset [0..<ac_nextCall s]"
    using ci unfolding calls_inv_def ids by simp
  then show "loose_inv c (ac_waiters (without_fetch n s)) (without_fetch n s)"
    using ci sub unfolding loose_inv_def calls_inv_def t e by blast
qed

lemma calls_response:
  assumes inv: "http_inv s"
  shows "calls_inv (ac_waiters (fetch_response env now n res s)) (fetch_response env now n res s)"
    and "calls_inv (ac_waiters (fetch_rejected now n s)) (fetch_rejected now n s)"
proof -
  have ci: "calls_inv (ac_waiters s) s" using inv by (simp add: http_inv_def)
  have both: "calls_inv (ac_waiters (fetch_response env now n res s)) (fetch_response env now n res s) \<and>
      calls_inv (ac_waiters (fetch_rejected now n s)) (fetch_rejected now n s)"
  proof (cases "List.find (\<lambda>f. ft_id f = n) (ac_fetches s)")
    case None
    then show ?thesis using ci by (simp add: fetch_response_def fetch_rejected_def)
  next
    case (Some f)
    show ?thesis
    proof (cases "ft_purpose f")
      case (FtCall c)
      note l = loose_calls [OF inv Some FtCall]
      have "calls_inv (ac_waiters (call_response env now c res (without_fetch n s))) (call_response env now c res (without_fetch n s))"
        by (rule response_calls [OF l])
      then show ?thesis using answer_calls [OF l(1)] Some FtCall by (simp add: fetch_response_def fetch_rejected_def)
    next
      case FtRefresh
      have d: "distinct (map ft_id (ac_fetches s))" using inv by (simp add: http_inv_def refresh_inv_def)
      have w: "ac_waiters (without_fetch n s) = ac_waiters s" by (simp add: without_fetch_def)
      have "calls_inv (ac_waiters s) (without_fetch n s)"
        using without_refresh_calls [OF ci d _ _ FtRefresh] find_fetch [OF Some] by blast
      then have "calls_inv (ac_waiters (without_fetch n s)) (without_fetch n s)" by (simp add: w)
      from settled_calls [OF this] show ?thesis using Some FtRefresh by (simp add: fetch_response_def fetch_rejected_def)
    qed
  qed
  then show "calls_inv (ac_waiters (fetch_response env now n res s)) (fetch_response env now n res s)"
    "calls_inv (ac_waiters (fetch_rejected now n s)) (fetch_rejected now n s)" by blast+
qed

lemma aborted_waiters: "waiter_calls (map (mark_aborted k) ws) = map (\<lambda>c. if hc_id c = k then c\<lparr>hc_aborted := True\<rparr> else c) (waiter_calls ws)"
  by (induction ws) (auto simp: mark_aborted_def split: refresh_waiter.splits)

lemma request_calls:
  assumes inv: "calls_inv ws s"
  shows "calls_inv ws (http_request now path upload s)"
proof -
  have z: "sent_times s (ac_nextCall s) = 0" using inv by (simp add: calls_inv_def)
  have t: "sent_times (http_request now path upload s) k = sent_times s k + (if k = ac_nextCall s then 1 else 0)" for k
    by (simp add: http_request_def send_call_def fetchWithTimeout_def sent_times_def)
  have e: "ac_results (http_request now path upload s) = ac_results s"
    "ac_nextCall (http_request now path upload s) = Suc (ac_nextCall s)"
    "fetch_calls (ac_fetches (http_request now path upload s)) = fetch_calls (ac_fetches s) @
      [\<lparr>hc_id = ac_nextCall s, hc_path = path, hc_upload = upload, hc_allowRefresh = True, hc_aborted = False\<rparr>]"
    by (simp_all add: http_request_def send_call_def fetchWithTimeout_def)
  have ms: "mset (map fst (ac_results s)) + mset (map hc_id (fetch_calls (ac_fetches s))) + mset (map hc_id (waiter_calls ws)) =
      mset [0..<ac_nextCall s]" using inv by (simp add: calls_inv_def)
  have below: "hc_id c < ac_nextCall s" if "c \<in> set (fetch_calls (ac_fetches s)) \<union> set (waiter_calls ws)" for c
  proof -
    have "hc_id c \<in># mset [0..<ac_nextCall s]" unfolding ms [symmetric] using that by auto
    then show ?thesis by simp
  qed
  have two: "sent_times (http_request now path upload s) k \<le> 2" for k
    using inv z by (auto simp: calls_inv_def t)
  have one: "sent_times (http_request now path upload s) (hc_id c) = sent_times s (hc_id c)"
    if "c \<in> set (fetch_calls (ac_fetches s)) \<union> set (waiter_calls ws)" for c using below [OF that] by (simp add: t)
  have "mset (map fst (ac_results s)) + mset (map hc_id (fetch_calls (ac_fetches s)) @ [ac_nextCall s]) + mset (map hc_id (waiter_calls ws)) =
      mset [0..<Suc (ac_nextCall s)]" using ms by simp
  then show ?thesis unfolding calls_inv_def e using inv one two z by (auto simp: calls_inv_def t)
qed

lemma disconnect_calls:
  assumes inv: "calls_inv (ac_waiters s) s"
  shows "calls_inv (ac_waiters (on_disconnect now serverClosed k s)) (on_disconnect now serverClosed k s)"
proof -
  have "calls_inv (ac_waiters s @ [RwSocket k]) s" using inv by (simp add: calls_inv_def)
  then show ?thesis using inv
    by (auto simp: on_disconnect_def Let_def refreshSession_def fetchWithTimeout_def elim!: calls_inv_frame split: option.split)
qed

lemma http_inv_exec:
  assumes inv: "http_inv s"
  shows "http_inv (http_exec env now op s)"
proof -
  have ri: "refresh_inv (http_exec env now op s)" using inv refresh_inv_exec by (simp add: http_inv_def)
  have ci: "calls_inv (ac_waiters s) s" using inv by (simp add: http_inv_def)
  have "calls_inv (ac_waiters (http_exec env now op s)) (http_exec env now op s)"
  proof (cases op)
    case (HoRequest path upload)
    have "ac_waiters (http_request now path upload s) = ac_waiters s" by (simp add: http_request_def waiters_send)
    then show ?thesis using request_calls [OF ci] by (simp add: HoRequest http_exec_def)
  next
    case (HoAbort k)
    have "calls_inv (map (mark_aborted k) (ac_waiters s)) s"
      using ci by (auto simp: calls_inv_def aborted_waiters comp_def if_distrib [of hc_id] cong: if_cong)
    then have "calls_inv (map (mark_aborted k) (ac_waiters s)) (s\<lparr>ac_waiters := map (mark_aborted k) (ac_waiters s)\<rparr>)"
      by (rule calls_inv_frame) simp_all
    then show ?thesis using calls_response(2) [OF inv] by (simp add: HoAbort http_exec_def call_abort_def split: option.split)
  next
    case (HoResponse n res)
    then show ?thesis using calls_response(1) [OF inv] by (simp add: http_exec_def)
  next
    case (HoNetworkError n)
    then show ?thesis using calls_response(2) [OF inv] by (simp add: http_exec_def)
  next
    case HoTimeout
    then show ?thesis using calls_response(2) [OF inv] ci by (simp add: http_exec_def fetch_timeout_def split: option.split)
  next
    case (HoDown serverClosed k)
    then show ?thesis using disconnect_calls [OF ci] by (simp add: http_exec_def)
  qed (use ci in \<open>auto simp: http_exec_def connectSocket_def disconnectSocket_def on_connect_def stable_timer_fires_def
      elim!: calls_inv_frame split: option.split\<close>)
  with ri show ?thesis by (simp add: http_inv_def)
qed

lemma http_inv_run: "http_inv (http_run env now ops http_start)"
  by (rule http_run_invariant) (auto simp: http_inv_exec, simp add: http_inv_def refresh_inv_def calls_inv_def http_start_def sent_times_def)

end
