(* ===== verification/TtsCache.thy ===== *)
theory TtsCache
  imports JsText "HOL-Library.List_Lexorder"
begin

text \<open>
  The cache of the spoken countdown: \<open>tts/tts.constants.ts\<close> and \<open>tts/tts.cache-meta.ts\<close>. Every file of the cache belongs to a
  language and a key; a meta file keeps digests of the settings the files were made with, and at the start the files
  whose settings have changed are deleted. The digest of a value (\<open>sha12\<close> of its JSON) is an argument; what can be digested is a
  datatype. The meta file is the value that \<open>JSON.parse\<close> gives for it, \<open>null\<close> when it cannot be read.
\<close>

subsection \<open>The constants\<close>

record tts_voice =
  tv_languageCode :: jstring
  tv_name :: jstring

definition LANGS :: "jstring list" where
  "LANGS = [lit ''ko'', lit ''en'', lit ''ja'', lit ''zh'']"

definition GOOGLE_VOICES :: "(jstring, tts_voice) jmap" where
  "GOOGLE_VOICES =
     [(lit ''ko'', \<lparr>tv_languageCode = lit ''ko-KR'', tv_name = lit ''ko-KR-Wavenet-A''\<rparr>),
      (lit ''en'', \<lparr>tv_languageCode = lit ''en-US'', tv_name = lit ''en-US-Wavenet-F''\<rparr>),
      (lit ''ja'', \<lparr>tv_languageCode = lit ''ja-JP'', tv_name = lit ''ja-JP-Wavenet-B''\<rparr>),
      (lit ''zh'', \<lparr>tv_languageCode = lit ''cmn-CN'', tv_name = lit ''cmn-CN-Wavenet-A''\<rparr>)]"

definition SPEAKING_RATE :: rat where "SPEAKING_RATE = 3 / 2"
definition MIN_MP3_BYTES :: nat where "MIN_MP3_BYTES = 1000"

definition PHRASES :: "(jstring, (jstring, jstring) jmap) jmap" where
  "PHRASES =
     [(lit ''start'', [(lit ''ko'', [51456, 48708, 54644, 51452, 49464, 50836, 46]), (lit ''en'', lit ''Get ready.''),
        (lit ''ja'', [28310, 20633, 12375, 12390, 12367, 12384, 12373, 12356, 12290]), (lit ''zh'', [35831, 20934,
        22791, 12290])]),
      (lit ''stop'', [(lit ''ko'', [52852, 50868, 53944, 45796, 50868, 51060, 32, 51473, 51648, 46104, 50632, 49845,
        45768, 45796, 46]), (lit ''en'', lit ''Countdown stopped.''), (lit ''ja'', [12459, 12454, 12531, 12488, 12480,
        12454, 12531, 12364, 20013, 27490, 12373, 12428, 12414, 12375, 12383, 12290]), (lit ''zh'', [20498, 35745,
        26102, 24050, 20572, 27490, 12290])]),
      (lit ''march'', [(lit ''ko'', [52636, 48156, 54616, 49464, 50836, 46]), (lit ''en'', lit ''March now.''), (lit
        ''ja'', [20986, 30330, 12375, 12390, 12367, 12384, 12373, 12356, 12290]), (lit ''zh'', [35831, 20986, 21457,
        12290])]),
      (lit ''captain_1'', [(lit ''ko'', [49, 48264, 32, 51665, 44208, 51109]), (lit ''en'', lit ''Captain 1''), (lit
        ''ja'', [38598, 32080, 22580, 49, 30058]), (lit ''zh'', [38598, 32467, 22330, 49, 21495])]),
      (lit ''captain_2'', [(lit ''ko'', [50, 48264, 32, 51665, 44208, 51109]), (lit ''en'', lit ''Captain 2''), (lit
        ''ja'', [38598, 32080, 22580, 50, 30058]), (lit ''zh'', [38598, 32467, 22330, 50, 21495])]),
      (lit ''captain_3'', [(lit ''ko'', [51, 48264, 32, 51665, 44208, 51109]), (lit ''en'', lit ''Captain 3''), (lit
        ''ja'', [38598, 32080, 22580, 51, 30058]), (lit ''zh'', [38598, 32467, 22330, 51, 21495])]),
      (lit ''captain_4'', [(lit ''ko'', [52, 48264, 32, 51665, 44208, 51109]), (lit ''en'', lit ''Captain 4''), (lit
        ''ja'', [38598, 32080, 22580, 52, 30058]), (lit ''zh'', [38598, 32467, 22330, 52, 21495])]),
      (lit ''captain_5'', [(lit ''ko'', [53, 48264, 32, 51665, 44208, 51109]), (lit ''en'', lit ''Captain 5''), (lit
        ''ja'', [38598, 32080, 22580, 53, 30058]), (lit ''zh'', [38598, 32467, 22330, 53, 21495])]),
      (lit ''captain_6'', [(lit ''ko'', [54, 48264, 32, 51665, 44208, 51109]), (lit ''en'', lit ''Captain 6''), (lit
        ''ja'', [38598, 32080, 22580, 54, 30058]), (lit ''zh'', [38598, 32467, 22330, 54, 21495])]),
      (lit ''captain_7'', [(lit ''ko'', [55, 48264, 32, 51665, 44208, 51109]), (lit ''en'', lit ''Captain 7''), (lit
        ''ja'', [38598, 32080, 22580, 55, 30058]), (lit ''zh'', [38598, 32467, 22330, 55, 21495])]),
      (lit ''captain_8'', [(lit ''ko'', [56, 48264, 32, 51665, 44208, 51109]), (lit ''en'', lit ''Captain 8''), (lit
        ''ja'', [38598, 32080, 22580, 56, 30058]), (lit ''zh'', [38598, 32467, 22330, 56, 21495])]),
      (lit ''captain_9'', [(lit ''ko'', [57, 48264, 32, 51665, 44208, 51109]), (lit ''en'', lit ''Captain 9''), (lit
        ''ja'', [38598, 32080, 22580, 57, 30058]), (lit ''zh'', [38598, 32467, 22330, 57, 21495])]),
      (lit ''captain_10'', [(lit ''ko'', [49, 48, 48264, 32, 51665, 44208, 51109]), (lit ''en'', lit ''Captain 10''),
        (lit ''ja'', [38598, 32080, 22580, 49, 48, 30058]), (lit ''zh'', [38598, 32467, 22330, 49, 48, 21495])]),
      (lit ''rally_start_1'', [(lit ''ko'', [49, 48264, 32, 51665, 44208, 44536, 47353, 32, 51665, 44208, 32, 49884,
        51089, 54633, 45768, 45796, 46]), (lit ''en'', lit ''Rally group 1 starting.''), (lit ''ja'', [38598, 32080,
        12464, 12523, 12540, 12503, 49, 30058, 12289, 38598, 32080, 38283, 22987, 12375, 12414, 12377, 12290]), (lit
        ''zh'', [38598, 32467, 32452, 49, 21495, 24320, 22987, 38598, 32467, 12290])]),
      (lit ''rally_start_2'', [(lit ''ko'', [50, 48264, 32, 51665, 44208, 44536, 47353, 32, 51665, 44208, 32, 49884,
        51089, 54633, 45768, 45796, 46]), (lit ''en'', lit ''Rally group 2 starting.''), (lit ''ja'', [38598, 32080,
        12464, 12523, 12540, 12503, 50, 30058, 12289, 38598, 32080, 38283, 22987, 12375, 12414, 12377, 12290]), (lit
        ''zh'', [38598, 32467, 32452, 50, 21495, 24320, 22987, 38598, 32467, 12290])]),
      (lit ''rally_start_3'', [(lit ''ko'', [51, 48264, 32, 51665, 44208, 44536, 47353, 32, 51665, 44208, 32, 49884,
        51089, 54633, 45768, 45796, 46]), (lit ''en'', lit ''Rally group 3 starting.''), (lit ''ja'', [38598, 32080,
        12464, 12523, 12540, 12503, 51, 30058, 12289, 38598, 32080, 38283, 22987, 12375, 12414, 12377, 12290]), (lit
        ''zh'', [38598, 32467, 32452, 51, 21495, 24320, 22987, 38598, 32467, 12290])]),
      (lit ''rally_start_4'', [(lit ''ko'', [52, 48264, 32, 51665, 44208, 44536, 47353, 32, 51665, 44208, 32, 49884,
        51089, 54633, 45768, 45796, 46]), (lit ''en'', lit ''Rally group 4 starting.''), (lit ''ja'', [38598, 32080,
        12464, 12523, 12540, 12503, 52, 30058, 12289, 38598, 32080, 38283, 22987, 12375, 12414, 12377, 12290]), (lit
        ''zh'', [38598, 32467, 32452, 52, 21495, 24320, 22987, 38598, 32467, 12290])]),
      (lit ''rally_start_5'', [(lit ''ko'', [53, 48264, 32, 51665, 44208, 44536, 47353, 32, 51665, 44208, 32, 49884,
        51089, 54633, 45768, 45796, 46]), (lit ''en'', lit ''Rally group 5 starting.''), (lit ''ja'', [38598, 32080,
        12464, 12523, 12540, 12503, 53, 30058, 12289, 38598, 32080, 38283, 22987, 12375, 12414, 12377, 12290]), (lit
        ''zh'', [38598, 32467, 32452, 53, 21495, 24320, 22987, 38598, 32467, 12290])]),
      (lit ''rally_start_6'', [(lit ''ko'', [54, 48264, 32, 51665, 44208, 44536, 47353, 32, 51665, 44208, 32, 49884,
        51089, 54633, 45768, 45796, 46]), (lit ''en'', lit ''Rally group 6 starting.''), (lit ''ja'', [38598, 32080,
        12464, 12523, 12540, 12503, 54, 30058, 12289, 38598, 32080, 38283, 22987, 12375, 12414, 12377, 12290]), (lit
        ''zh'', [38598, 32467, 32452, 54, 21495, 24320, 22987, 38598, 32467, 12290])])]"

definition TTS_NUM_MIN :: nat where "TTS_NUM_MIN = 1"
definition TTS_NUM_MAX :: nat where "TTS_NUM_MAX = 180"
definition TTS_PREGEN_MAX :: nat where "TTS_PREGEN_MAX = 180"

definition TTS_KEYS :: "jstring list" where
  "TTS_KEYS = map fst PHRASES @ map (\<lambda>i. js_show_nat (i + TTS_NUM_MIN)) [0..<TTS_NUM_MAX - TTS_NUM_MIN + 1]"

definition parseTtsLang :: "jstring \<Rightarrow> jstring option" where
  "parseTtsLang v = map_of (map (\<lambda>l. (l, l)) LANGS) v"

definition parseTtsKey :: "jstring \<Rightarrow> jstring option" where
  "parseTtsKey v = map_of (map (\<lambda>k. (k, k)) TTS_KEYS) v"

definition isValidTtsKey :: "jstring \<Rightarrow> bool" where
  "isValidTtsKey key \<longleftrightarrow> parseTtsKey key \<noteq> None"

text \<open>\<open>map[lang] || map['en']\<close>; the empty string where neither is there.\<close>

definition text_or :: "(jstring, jstring) jmap \<Rightarrow> jstring \<Rightarrow> jstring option" where
  "text_or m lang = (case map_of m lang of Some t \<Rightarrow> if t = [] then None else Some t | None \<Rightarrow> None)"

definition phrase_text :: "(jstring, jstring) jmap \<Rightarrow> jstring \<Rightarrow> jstring" where
  "phrase_text m lang =
     (case text_or m lang of Some t \<Rightarrow> t
      | None \<Rightarrow> (case text_or m (lit ''en'') of Some t \<Rightarrow> t | None \<Rightarrow> []))"

definition text_in :: "(jstring, (jstring, jstring) jmap) jmap \<Rightarrow> jstring \<Rightarrow> jstring \<Rightarrow> jstring" where
  "text_in phrases lang key = (case map_of phrases key of Some m \<Rightarrow> phrase_text m lang | None \<Rightarrow> key)"

definition getTtsText :: "jstring \<Rightarrow> jstring \<Rightarrow> jstring" where
  "getTtsText lang key = text_in PHRASES lang key"

text \<open>What is sent to the synthesis: numbers are read as cardinals.\<close>

definition buildSsmlInput :: "jstring \<Rightarrow> jstring \<Rightarrow> jstring" where
  "buildSsmlInput key txt =
     (let body = (if js_all_digits key then lit ''<say-as interpret-as=\"cardinal\">'' @ txt @ lit ''</say-as>'' else txt)
      in lit ''<speak><prosody pitch=\"0st\" rate=\"1.0\" volume=\"medium\">'' @ body @ lit ''</prosody></speak>'')"

definition cache_file :: "jstring \<Rightarrow> jstring \<Rightarrow> jstring" where
  "cache_file lang key = lang @ lit ''-'' @ key @ lit ''.mp3''"

definition allowedCacheFileNames :: "jstring list" where
  "allowedCacheFileNames = concat (map (\<lambda>lang. map (cache_file lang) TTS_KEYS) LANGS)"

subsection \<open>The digests\<close>

datatype digest_input =
    DigestVoice "tts_voice option"
  | DigestText jstring
  | DigestSsml jstring jstring
  | DigestGlobal rat jstring

record meta_input =
  mi_speakingRate :: rat
  mi_voices :: "(jstring, tts_voice) jmap"
  mi_langs :: "jstring list"
  mi_phrases :: "(jstring, (jstring, jstring) jmap) jmap"
  mi_ssmlFingerprint :: "jstring option"

record cache_meta =
  cm_speakingRate :: rat
  cm_voices :: "(jstring, tts_voice) jmap"
  cm_global :: jstring
  cm_langs :: "(jstring, jstring) jmap"
  cm_phrases :: "(jstring, (jstring, jstring) jmap) jmap"

definition TTS_CACHE_META_VERSION :: rat where "TTS_CACHE_META_VERSION = 2"

definition DEFAULT_SSML_FINGERPRINT :: "(digest_input \<Rightarrow> jstring) \<Rightarrow> jstring" where
  "DEFAULT_SSML_FINGERPRINT sha12 =
     sha12 (DigestSsml (buildSsmlInput (lit ''1'') (lit ''1'')) (buildSsmlInput (lit ''start'') (lit ''SAMPLE'')))"

definition input_ssml :: "(digest_input \<Rightarrow> jstring) \<Rightarrow> meta_input \<Rightarrow> jstring" where
  "input_ssml sha12 inp = (case mi_ssmlFingerprint inp of Some f \<Rightarrow> f | None \<Rightarrow> DEFAULT_SSML_FINGERPRINT sha12)"

definition voice_of :: "(jstring, tts_voice) jmap \<Rightarrow> jstring \<Rightarrow> tts_voice option" where
  "voice_of voices lang = (case map_of voices lang of Some v \<Rightarrow> Some v | None \<Rightarrow> map_of voices (lit ''ko''))"

definition phrase_digests :: "(digest_input \<Rightarrow> jstring) \<Rightarrow> (jstring, (jstring, jstring) jmap) jmap \<Rightarrow> jstring \<Rightarrow> (jstring, jstring) jmap" where
  "phrase_digests sha12 phrases lang = map (\<lambda>(key, byLang). (key, sha12 (DigestText (phrase_text byLang lang)))) phrases"

definition buildCacheMetaFrom :: "(digest_input \<Rightarrow> jstring) \<Rightarrow> meta_input \<Rightarrow> cache_meta" where
  "buildCacheMetaFrom sha12 inp =
     \<lparr>cm_speakingRate = mi_speakingRate inp, cm_voices = mi_voices inp,
      cm_global = sha12 (DigestGlobal (mi_speakingRate inp) (input_ssml sha12 inp)),
      cm_langs = fold (\<lambda>lang. AList.update lang (sha12 (DigestVoice (voice_of (mi_voices inp) lang)))) (mi_langs inp) [],
      cm_phrases = fold (\<lambda>lang. AList.update lang (phrase_digests sha12 (mi_phrases inp) lang)) (mi_langs inp) []\<rparr>"

definition source_input :: meta_input where
  "source_input =
     \<lparr>mi_speakingRate = SPEAKING_RATE, mi_voices = GOOGLE_VOICES, mi_langs = LANGS, mi_phrases = PHRASES, mi_ssmlFingerprint = None\<rparr>"

definition buildCacheMeta :: "(digest_input \<Rightarrow> jstring) \<Rightarrow> cache_meta" where
  "buildCacheMeta sha12 = buildCacheMetaFrom sha12 source_input"

text \<open>A meta as the value of its JSON.\<close>

definition voices_value :: "(jstring, tts_voice) jmap \<Rightarrow> jsval" where
  "voices_value voices =
     JObj (map (\<lambda>(lang, v). (lang, JObj [(lit ''languageCode'', JStr (tv_languageCode v)), (lit ''name'', JStr (tv_name v))])) voices)"

definition digests_value :: "(jstring, jstring) jmap \<Rightarrow> jsval" where
  "digests_value m = JObj (map (\<lambda>(k, h). (k, JStr h)) m)"

definition meta_value :: "cache_meta \<Rightarrow> jsval" where
  "meta_value m =
     JObj [(lit ''version'', JNum (NumFin TTS_CACHE_META_VERSION)), (lit ''speakingRate'', JNum (NumFin (cm_speakingRate m))),
       (lit ''voices'', voices_value (cm_voices m)), (lit ''global'', JStr (cm_global m)), (lit ''langs'', digests_value (cm_langs m)),
       (lit ''phrases'', JObj (map (\<lambda>(lang, p). (lang, digests_value p)) (cm_phrases m)))]"

subsection \<open>The plan\<close>

definition js_prop :: "jsval \<Rightarrow> jstring \<Rightarrow> jsval" where
  "js_prop v k = (case v of JObj m \<Rightarrow> (case map_of m k of None \<Rightarrow> JUndef | Some x \<Rightarrow> x) | _ \<Rightarrow> JUndef)"

definition is_JStr :: "jsval \<Rightarrow> bool" where
  "is_JStr v = (case v of JStr _ \<Rightarrow> True | _ \<Rightarrow> False)"

definition asV2 :: "jsval \<Rightarrow> bool" where
  "asV2 saved \<longleftrightarrow> js_get saved ''version'' = JNum (NumFin TTS_CACHE_META_VERSION) \<and> is_JStr (js_get saved ''global'') \<and>
     \<not> js_falsy (js_get saved ''langs'') \<and> \<not> js_falsy (js_get saved ''phrases'')"

definition asV1 :: "jsval \<Rightarrow> bool" where
  "asV1 saved \<longleftrightarrow> is_JStr (js_get saved ''phrasesHash'')"

datatype plan_reason =
    ReOrphans nat
  | ReGlobal
  | ReVoice jstring
  | RePhrase jstring jstring
  | ReV1Rate
  | ReV1Voices
  | ReMigration
  | ReUnknownMeta
  | ReNoMeta

record cache_plan =
  cp_deleteFiles :: "jstring list"
  cp_fullWipe :: bool
  cp_reasons :: "plan_reason list"

type_synonym doomed = "jstring list \<times> plan_reason list"

text \<open>One phrase of a language; one language; all of them.\<close>

definition phrase_step :: "jsval \<Rightarrow> jstring list \<Rightarrow> jstring \<Rightarrow> jstring \<times> jstring \<Rightarrow> doomed \<Rightarrow> doomed" where
  "phrase_step saved existing lang e d =
     (case e of (key, hash) \<Rightarrow>
        if js_prop (js_prop (js_get saved ''phrases'') lang) key = JStr hash then d
        else if cache_file lang key \<in> set existing then (fst d @ [cache_file lang key], snd d @ [RePhrase lang key])
        else d)"

definition lang_step :: "jsval \<Rightarrow> cache_meta \<Rightarrow> jstring list \<Rightarrow> jstring \<times> jstring \<Rightarrow> doomed \<Rightarrow> doomed" where
  "lang_step saved current existing e d =
     (case e of (lang, hash) \<Rightarrow>
        if js_prop (js_get saved ''langs'') lang \<noteq> JStr hash
        then (fst d @ filter (\<lambda>f. starts_with f (lang @ lit ''-'')) existing, snd d @ [ReVoice lang])
        else fold (phrase_step saved existing lang) ((case map_of (cm_phrases current) lang of None \<Rightarrow> [] | Some p \<Rightarrow> p)) d)"

definition v1_doomed :: "cache_meta \<Rightarrow> jstring list \<Rightarrow> jstring list" where
  "v1_doomed current existing =
     filter (\<lambda>f. f \<in> set existing) (concat (map (\<lambda>(lang, p). map (\<lambda>(key, _). cache_file lang key) p) (cm_phrases current)))"

definition planCacheInvalidation :: "jsval \<Rightarrow> cache_meta \<Rightarrow> jstring list \<Rightarrow> cache_plan" where
  "planCacheInvalidation saved current existing =
     (let orphans = filter (\<lambda>f. f \<notin> set allowedCacheFileNames) existing;
          d = (orphans, if orphans = [] then [] else [ReOrphans (length orphans)]);
          wipeAll = (\<lambda>r. \<lparr>cp_deleteFiles = sort existing, cp_fullWipe = True, cp_reasons = snd d @ [r]\<rparr>);
          some = (\<lambda>d. \<lparr>cp_deleteFiles = sort (remdups (fst d)), cp_fullWipe = False, cp_reasons = snd d\<rparr>)
      in if asV2 saved
         then (if js_get saved ''global'' \<noteq> JStr (cm_global current) then wipeAll ReGlobal
               else some (fold (lang_step saved current existing) (cm_langs current) d))
         else if asV1 saved
         then (if js_get saved ''speakingRate'' \<noteq> JNum (NumFin (cm_speakingRate current)) then wipeAll ReV1Rate
               else if js_get saved ''voices'' \<noteq> voices_value (cm_voices current) then wipeAll ReV1Voices
               else some (fst d @ v1_doomed current existing, snd d @ [ReMigration]))
         else wipeAll (if js_falsy saved then ReNoMeta else ReUnknownMeta))"

subsection \<open>Bringing a directory up to date\<close>

record cache_dir =
  cd_files :: "jstring list"
  cd_meta :: jsval

record reconcile_result =
  rr_deleted :: nat
  rr_fullWipe :: bool
  rr_reasons :: "plan_reason list"
  rr_metaChanged :: bool

text \<open>\<open>unlinked\<close> says whether a file could be deleted; a failure is swallowed.\<close>

definition reconcile_with :: "cache_meta \<Rightarrow> (jstring \<Rightarrow> bool) \<Rightarrow> cache_dir \<Rightarrow> cache_dir \<times> reconcile_result" where
  "reconcile_with current unlinked dir =
     (let plan = planCacheInvalidation (cd_meta dir) current (filter (\<lambda>f. ends_with f (lit ''.mp3'')) (cd_files dir));
          metaChanged = (cd_meta dir \<noteq> meta_value current)
      in (dir\<lparr>cd_files := filter (\<lambda>f. f \<notin> set (cp_deleteFiles plan) \<or> \<not> unlinked f) (cd_files dir),
              cd_meta := (if metaChanged then meta_value current else cd_meta dir)\<rparr>,
          \<lparr>rr_deleted = length (cp_deleteFiles plan), rr_fullWipe = cp_fullWipe plan, rr_reasons = cp_reasons plan,
           rr_metaChanged = metaChanged\<rparr>))"

definition reconcileCache :: "(digest_input \<Rightarrow> jstring) \<Rightarrow> (jstring \<Rightarrow> bool) \<Rightarrow> cache_dir \<Rightarrow> cache_dir \<times> reconcile_result" where
  "reconcileCache sha12 = reconcile_with (buildCacheMeta sha12)"

end
