(* ===== verification/TtsService.thy ===== *)
theory TtsService
  imports TtsCache
begin

text \<open>
  Making and serving the files: \<open>tts/tts.service.ts\<close> and the route of \<open>tts/tts.controller.ts\<close>. A request waits for
  \<open>lstat\<close>, \<open>unlink\<close> and the promise of the file; a file that is being made waits for the semaphore, the synthesis, the
  temporary file, the renaming and the pauses between attempts. Each wait ends in a step of its own, so runs interleave them.
  The directory holds regular files, each with its size; what the operating system answers is an argument of the step. The \<open>ETag\<close>
  and the stream of the answer are left out.
\<close>

definition SEMAPHORE_MAX :: nat where "SEMAPHORE_MAX = 3"
definition MAX_TTS_RETRIES :: nat where "MAX_TTS_RETRIES = 3"

datatype tts_reply = TrServed nat | TrDone | TrUnavailable | TrFailed | TrBadLang | TrNotFound

record tts_req =
  rq_id :: nat
  rq_lang :: jstring
  rq_key :: jstring
  rq_serve :: bool

datatype req_phase = RqStat | RqUnlink | RqWait | RqSecondStat

datatype job_phase =
    JbQueued
  | JbFetching nat
  | JbWriting nat nat
  | JbRenaming nat nat
  | JbCleaning nat
  | JbBackoff nat millis

record tts_job =
  jb_lang :: jstring
  jb_key :: jstring
  jb_phase :: job_phase

record tts =
  tt_apiKey :: bool
  tt_files :: "(jstring, nat) jmap"
  tt_tmp :: "(jstring, nat) jmap"
  tt_count :: nat
  tt_queue :: "jstring list"
  tt_pending :: "(jstring, tts_job) jmap"
  tt_reqs :: "(tts_req \<times> req_phase) list"
  tt_next :: nat
  tt_replies :: "(nat \<times> tts_reply) list"
  tt_calls :: "(jstring \<times> jstring) list"

definition tts_start :: "bool \<Rightarrow> (jstring, nat) jmap \<Rightarrow> tts" where
  "tts_start apiKey files =
     \<lparr>tt_apiKey = apiKey, tt_files = files, tt_tmp = [], tt_count = SEMAPHORE_MAX, tt_queue = [], tt_pending = [], tt_reqs = [],
      tt_next = 0, tt_replies = [], tt_calls = []\<rparr>"

definition lock_key :: "jstring \<Rightarrow> jstring \<Rightarrow> jstring" where
  "lock_key lang key = lang @ lit ''-'' @ key"

definition req_lock :: "tts_req \<Rightarrow> jstring" where
  "req_lock r = lock_key (rq_lang r) (rq_key r)"

definition req_file :: "tts_req \<Rightarrow> jstring" where
  "req_file r = cache_file (rq_lang r) (rq_key r)"

definition job_file :: "tts_job \<Rightarrow> jstring" where
  "job_file j = cache_file (jb_lang j) (jb_key j)"

definition tts_answer :: "tts_req \<Rightarrow> tts_reply \<Rightarrow> tts \<Rightarrow> tts" where
  "tts_answer r x s = s\<lparr>tt_replies := tt_replies s @ [(rq_id r, x)]\<rparr>"

text \<open>Taking a request out of its wait, and putting it into the next one.\<close>

definition req_out :: "nat \<Rightarrow> tts \<Rightarrow> tts" where
  "req_out i s = s\<lparr>tt_reqs := filter (\<lambda>e. rq_id (fst e) \<noteq> i) (tt_reqs s)\<rparr>"

definition req_in :: "tts_req \<Rightarrow> req_phase \<Rightarrow> tts \<Rightarrow> tts" where
  "req_in r p s = s\<lparr>tt_reqs := tt_reqs s @ [(r, p)]\<rparr>"

definition find_req :: "req_phase \<Rightarrow> nat \<Rightarrow> tts \<Rightarrow> tts_req option" where
  "find_req p i s = map_option fst (List.find (\<lambda>e. rq_id (fst e) = i \<and> snd e = p) (tt_reqs s))"

text \<open>\<open>ensureFile\<close> begins; \<open>serve\<close> with its two checks.\<close>

definition ensureFile :: "bool \<Rightarrow> jstring \<Rightarrow> jstring \<Rightarrow> tts \<Rightarrow> tts" where
  "ensureFile serve lang key s =
     req_in \<lparr>rq_id = tt_next s, rq_lang = lang, rq_key = key, rq_serve = serve\<rparr> RqStat (s\<lparr>tt_next := tt_next s + 1\<rparr>)"

definition refuse :: "tts_reply \<Rightarrow> tts \<Rightarrow> tts" where
  "refuse x s = s\<lparr>tt_next := tt_next s + 1, tt_replies := tt_replies s @ [(tt_next s, x)]\<rparr>"

definition tts_serve :: "jstring \<Rightarrow> jstring \<Rightarrow> tts \<Rightarrow> tts" where
  "tts_serve lang key s =
     (case parseTtsLang lang of
        None \<Rightarrow> refuse TrBadLang s
      | Some l \<Rightarrow> (case parseTtsKey key of None \<Rightarrow> refuse TrNotFound s | Some k \<Rightarrow> ensureFile True l k s))"

text \<open>\<open>ensureFile\<close> has returned: a served file is looked at once more, the others are done.\<close>

definition ensure_done :: "tts_req \<Rightarrow> tts \<Rightarrow> tts" where
  "ensure_done r s = (if rq_serve r then req_in r RqSecondStat s else tts_answer r TrDone s)"

definition healthy :: "tts \<Rightarrow> jstring \<Rightarrow> bool" where
  "healthy s f = (case map_of (tt_files s) f of Some n \<Rightarrow> MIN_MP3_BYTES \<le> n | None \<Rightarrow> False)"

definition stat_settled :: "nat \<Rightarrow> tts \<Rightarrow> tts" where
  "stat_settled i s =
     (case find_req RqStat i s of
        None \<Rightarrow> s
      | Some r \<Rightarrow>
          if healthy s (req_file r) then ensure_done r (req_out i s)
          else if \<not> tt_apiKey s then tts_answer r TrUnavailable (req_out i s)
          else req_in r RqUnlink (req_out i s))"

text \<open>The semaphore. A job that gets a place calls the synthesis at once.\<close>

definition start_call :: "jstring \<Rightarrow> nat \<Rightarrow> tts_job \<Rightarrow> tts \<Rightarrow> tts" where
  "start_call lk a j s =
     s\<lparr>tt_pending := AList.update lk (j\<lparr>jb_phase := JbFetching a\<rparr>) (tt_pending s), tt_calls := tt_calls s @ [(jb_lang j, jb_key j)]\<rparr>"

definition sem_run :: "jstring \<Rightarrow> tts_job \<Rightarrow> tts \<Rightarrow> tts" where
  "sem_run lk j s =
     (if 0 < tt_count s then start_call lk 1 j (s\<lparr>tt_count := tt_count s - 1\<rparr>)
      else s\<lparr>tt_queue := tt_queue s @ [lk], tt_pending := AList.update lk (j\<lparr>jb_phase := JbQueued\<rparr>) (tt_pending s)\<rparr>)"

definition sem_release :: "tts \<Rightarrow> tts" where
  "sem_release s =
     (case tt_queue s of
        [] \<Rightarrow> s\<lparr>tt_count := tt_count s + 1\<rparr>
      | lk # q \<Rightarrow>
          (case map_of (tt_pending s) lk of
             None \<Rightarrow> s\<lparr>tt_queue := q\<rparr>
           | Some j \<Rightarrow> start_call lk 1 j (s\<lparr>tt_queue := q\<rparr>)))"

text \<open>The damaged file is gone (a failure is ignored): join the promise of the file or make one.\<close>

definition unlink_settled :: "bool \<Rightarrow> nat \<Rightarrow> tts \<Rightarrow> tts" where
  "unlink_settled ok i s =
     (case find_req RqUnlink i s of
        None \<Rightarrow> s
      | Some r \<Rightarrow>
          (let s1 = req_in r RqWait (req_out i s);
               s2 = (if ok then s1\<lparr>tt_files := AList.delete (req_file r) (tt_files s1)\<rparr> else s1)
           in if jm_has (tt_pending s) (req_lock r) then s2
              else sem_run (req_lock r) \<lparr>jb_lang = rq_lang r, jb_key = rq_key r, jb_phase = JbQueued\<rparr> s2))"

definition waiter_done :: "bool \<Rightarrow> tts_req \<Rightarrow> tts \<Rightarrow> tts" where
  "waiter_done ok r s = (if ok then ensure_done r s else tts_answer r TrFailed s)"

text \<open>The promise of a file settles: the place goes on, the entry goes, and who waited goes on.\<close>

definition waits_for :: "jstring \<Rightarrow> tts_req \<times> req_phase \<Rightarrow> bool" where
  "waits_for lk e \<longleftrightarrow> snd e = RqWait \<and> req_lock (fst e) = lk"

definition job_settled :: "bool \<Rightarrow> jstring \<Rightarrow> tts \<Rightarrow> tts" where
  "job_settled ok lk s =
     (let s1 = sem_release (s\<lparr>tt_pending := AList.delete lk (tt_pending s)\<rparr>);
          s2 = s1\<lparr>tt_reqs := filter (\<lambda>e. \<not> waits_for lk e) (tt_reqs s1)\<rparr>
      in fold (waiter_done ok) (map fst (filter (waits_for lk) (tt_reqs s1))) s2)"

definition job_goes :: "jstring \<Rightarrow> tts_job \<Rightarrow> job_phase \<Rightarrow> tts \<Rightarrow> tts" where
  "job_goes lk j p s = s\<lparr>tt_pending := AList.update lk (j\<lparr>jb_phase := p\<rparr>) (tt_pending s)\<rparr>"

text \<open>After a failed attempt: a pause that grows, or the end.\<close>

definition attempt_failed :: "millis \<Rightarrow> jstring \<Rightarrow> tts_job \<Rightarrow> nat \<Rightarrow> tts \<Rightarrow> tts" where
  "attempt_failed now lk j a s =
     (if a < MAX_TTS_RETRIES then job_goes lk j (JbBackoff a (now + 500 * int a)) s else job_settled False lk s)"

text \<open>The synthesis answers with so many bytes, or fails.\<close>

definition fetch_settled :: "millis \<Rightarrow> nat option \<Rightarrow> jstring \<Rightarrow> tts \<Rightarrow> tts" where
  "fetch_settled now res lk s =
     (case map_of (tt_pending s) lk of
        None \<Rightarrow> s
      | Some j \<Rightarrow>
          (case jb_phase j of
             JbFetching a \<Rightarrow>
               (case res of
                  None \<Rightarrow> job_goes lk j (JbCleaning a) s
                | Some n \<Rightarrow> if n < MIN_MP3_BYTES then attempt_failed now lk j a s else job_goes lk j (JbWriting a n) s)
           | _ \<Rightarrow> s))"

definition write_settled :: "bool \<Rightarrow> jstring \<Rightarrow> tts \<Rightarrow> tts" where
  "write_settled ok lk s =
     (case map_of (tt_pending s) lk of
        None \<Rightarrow> s
      | Some j \<Rightarrow>
          (case jb_phase j of
             JbWriting a n \<Rightarrow>
               if ok then job_goes lk j (JbRenaming a n) (s\<lparr>tt_tmp := AList.update (job_file j) n (tt_tmp s)\<rparr>)
               else job_goes lk j (JbCleaning a) s
           | _ \<Rightarrow> s))"

definition rename_settled :: "bool \<Rightarrow> jstring \<Rightarrow> tts \<Rightarrow> tts" where
  "rename_settled ok lk s =
     (case map_of (tt_pending s) lk of
        None \<Rightarrow> s
      | Some j \<Rightarrow>
          (case jb_phase j of
             JbRenaming a n \<Rightarrow>
               if ok then job_settled True lk (s\<lparr>tt_tmp := AList.delete (job_file j) (tt_tmp s), tt_files := AList.update (job_file j) n (tt_files s)\<rparr>)
               else job_goes lk j (JbCleaning a) s
           | _ \<Rightarrow> s))"

definition clean_settled :: "millis \<Rightarrow> jstring \<Rightarrow> tts \<Rightarrow> tts" where
  "clean_settled now lk s =
     (case map_of (tt_pending s) lk of
        None \<Rightarrow> s
      | Some j \<Rightarrow>
          (case jb_phase j of
             JbCleaning a \<Rightarrow> attempt_failed now lk j a (s\<lparr>tt_tmp := AList.delete (job_file j) (tt_tmp s)\<rparr>)
           | _ \<Rightarrow> s))"

definition backoff_over :: "millis \<Rightarrow> jstring \<Rightarrow> tts \<Rightarrow> tts" where
  "backoff_over now lk s =
     (case map_of (tt_pending s) lk of
        None \<Rightarrow> s
      | Some j \<Rightarrow>
          (case jb_phase j of
             JbBackoff a due \<Rightarrow> if due \<le> now then start_call lk (a + 1) j s else s
           | _ \<Rightarrow> s))"

text \<open>\<open>prepareAudio\<close> after \<open>ensureFile\<close>: without a file the route answers 500.\<close>

definition second_stat_settled :: "nat \<Rightarrow> tts \<Rightarrow> tts" where
  "second_stat_settled i s =
     (case find_req RqSecondStat i s of
        None \<Rightarrow> s
      | Some r \<Rightarrow>
          (case map_of (tt_files s) (req_file r) of
             Some n \<Rightarrow> tts_answer r (TrServed n) (req_out i s)
           | None \<Rightarrow> tts_answer r TrFailed (req_out i s)))"

subsection \<open>Making everything in advance\<close>

definition pregenKeys :: "jstring list" where
  "pregenKeys = map fst PHRASES @ map (\<lambda>i. js_show_nat (i + 1)) [0..<TTS_PREGEN_MAX]"

record cache_status =
  st_ready :: bool
  st_total :: nat
  st_missing :: "(jstring \<times> jstring) list"

definition collectCacheStatus :: "tts \<Rightarrow> cache_status" where
  "collectCacheStatus s =
     (let missing = filter (\<lambda>(lang, key). \<not> jm_has (tt_files s) (cache_file lang key)) (List.product LANGS pregenKeys)
      in \<lparr>st_ready = (missing = []), st_total = length LANGS * length pregenKeys, st_missing = missing\<rparr>)"

text \<open>The stages of \<open>preGenerateAll\<close>; a stage begins when the one before is answered.\<close>

definition pregen_lang :: "jstring \<Rightarrow> (jstring \<times> jstring) list list" where
  "pregen_lang lang =
     map (\<lambda>i. [(lang, js_show_nat i)]) [1..<11] @
     [map (\<lambda>k. (lang, k)) (map fst PHRASES) @ map (\<lambda>i. (lang, js_show_nat (i + 11))) [0..<20]]"

definition preGenerateAll :: "(jstring \<times> jstring) list list" where
  "preGenerateAll =
     concat (map pregen_lang LANGS) @ [concat (map (\<lambda>lang. map (\<lambda>i. (lang, js_show_nat i)) [31..<TTS_PREGEN_MAX + 1]) LANGS)]"

definition pregen_stage :: "(jstring \<times> jstring) list \<Rightarrow> tts \<Rightarrow> tts" where
  "pregen_stage items s = fold (\<lambda>(lang, key). ensureFile False lang key) items s"

definition pregen_outstanding :: "tts \<Rightarrow> bool" where
  "pregen_outstanding s \<longleftrightarrow> list_ex (\<lambda>e. \<not> rq_serve (fst e)) (tt_reqs s)"

definition pregen_next :: "(jstring \<times> jstring) list list \<times> tts \<Rightarrow> (jstring \<times> jstring) list list \<times> tts" where
  "pregen_next x =
     (case x of
        ([], s) \<Rightarrow> ([], s)
      | (st # sts, s) \<Rightarrow> if pregen_outstanding s then (st # sts, s) else (sts, pregen_stage st s))"

text \<open>\<open>onModuleInit\<close>: nothing without a key, nothing when every file is there.\<close>

definition tts_onModuleInit :: "tts \<Rightarrow> (jstring \<times> jstring) list list" where
  "tts_onModuleInit s = (if \<not> tt_apiKey s \<or> st_ready (collectCacheStatus s) then [] else preGenerateAll)"

subsection \<open>Runs\<close>

datatype tts_op =
    ToServe jstring jstring
  | ToPregen
  | ToStat nat
  | ToUnlink bool nat
  | ToFetched "nat option" jstring
  | ToWritten bool jstring
  | ToRenamed bool jstring
  | ToCleaned jstring
  | ToBackoff jstring
  | ToSecondStat nat

type_synonym tts_sys = "(jstring \<times> jstring) list list \<times> tts"

definition tts_exec :: "millis \<Rightarrow> tts_op \<Rightarrow> tts_sys \<Rightarrow> tts_sys" where
  "tts_exec now op x =
     (case op of
        ToServe lang key \<Rightarrow> apsnd (tts_serve lang key) x
      | ToPregen \<Rightarrow> pregen_next x
      | ToStat i \<Rightarrow> apsnd (stat_settled i) x
      | ToUnlink ok i \<Rightarrow> apsnd (unlink_settled ok i) x
      | ToFetched res lk \<Rightarrow> apsnd (fetch_settled now res lk) x
      | ToWritten ok lk \<Rightarrow> apsnd (write_settled ok lk) x
      | ToRenamed ok lk \<Rightarrow> apsnd (rename_settled ok lk) x
      | ToCleaned lk \<Rightarrow> apsnd (clean_settled now lk) x
      | ToBackoff lk \<Rightarrow> apsnd (backoff_over now lk) x
      | ToSecondStat i \<Rightarrow> apsnd (second_stat_settled i) x)"

fun tts_run :: "millis \<Rightarrow> (nat \<times> tts_op) list \<Rightarrow> tts_sys \<Rightarrow> tts_sys" where
  "tts_run now [] x = x"
| "tts_run now ((dt, op) # ops) x = tts_run (now + int dt) ops (tts_exec (now + int dt) op x)"

definition tts_boot :: "bool \<Rightarrow> (jstring, nat) jmap \<Rightarrow> tts_sys" where
  "tts_boot apiKey files = (tts_onModuleInit (tts_start apiKey files), tts_start apiKey files)"

end
