(* ===== verification/TtsCacheRules.thy ===== *)
theory TtsCacheRules
  imports TtsCache
begin

text \<open>
  What the plan of a start deletes: with the digests taken apart, the files whose settings have changed. The loops over
  languages and phrases become one list of names; a name of the cache belongs to one language and one key.
\<close>

subsection \<open>Names\<close>

lemma LANGS_length: "l \<in> set LANGS \<Longrightarrow> length l = 2"
  by (auto simp: LANGS_def)

lemma LANGS_distinct: "distinct LANGS"
  by (simp add: LANGS_def)

lemma cache_file_inject:
  "l \<in> set LANGS \<Longrightarrow> l' \<in> set LANGS \<Longrightarrow> cache_file l k = cache_file l' k' \<longleftrightarrow> l = l' \<and> k = k'"
  using LANGS_length [of l] LANGS_length [of l'] by (auto simp: cache_file_def)

lemma cache_file_starts:
  "l \<in> set LANGS \<Longrightarrow> l' \<in> set LANGS \<Longrightarrow> starts_with (cache_file l k) (l' @ lit ''-'') \<longleftrightarrow> l = l'"
  using LANGS_length [of l] LANGS_length [of l'] by (auto simp: cache_file_def starts_with_def)

lemma allowed_iff: "f \<in> set allowedCacheFileNames \<longleftrightarrow> (\<exists>l\<in>set LANGS. \<exists>k\<in>set TTS_KEYS. f = cache_file l k)"
  by (auto simp: allowedCacheFileNames_def)

lemma TTS_KEYS_iff: "k \<in> set TTS_KEYS \<longleftrightarrow> k \<in> fst ` set PHRASES \<or> (\<exists>i\<in>{1..180}. k = js_show_nat i)"
proof -
  have "(\<lambda>i. js_show_nat (i + 1)) ` {0..<180} = js_show_nat ` {1..180}"
    unfolding image_image [symmetric, of js_show_nat "\<lambda>i. i + 1"] image_add_atLeastLessThan'
    by (simp add: atLeastLessThanSuc_atLeastAtMost [symmetric] numeral_eq_Suc del: image_Suc_atLeastAtMost)
  then show ?thesis
    unfolding TTS_KEYS_def TTS_NUM_MIN_def TTS_NUM_MAX_def by (auto simp del: upt_conv_Cons)
qed

lemma update_new: "k \<notin> fst ` set m \<Longrightarrow> AList.update k v m = m @ [(k, v)]"
  by (induction m) auto

lemma fold_update_map:
  "distinct ks \<Longrightarrow> set ks \<inter> fst ` set m = {} \<Longrightarrow> fold (\<lambda>k. AList.update k (g k)) ks m = m @ map (\<lambda>k. (k, g k)) ks"
proof (induction ks arbitrary: m)
  case (Cons k ks)
  have "AList.update k (g k) m = m @ [(k, g k)]" using Cons.prems(2) by (intro update_new) auto
  then show ?case using Cons by auto
qed simp

subsection \<open>The loops of the plan\<close>

definition doomed_phrases :: "jsval \<Rightarrow> jstring list \<Rightarrow> jstring \<Rightarrow> (jstring, jstring) jmap \<Rightarrow> jstring list" where
  "doomed_phrases saved existing lang es =
     map (cache_file lang \<circ> fst)
       (filter (\<lambda>e. js_prop (js_prop (js_get saved ''phrases'') lang) (fst e) \<noteq> JStr (snd e) \<and> cache_file lang (fst e) \<in> set existing) es)"

definition doomed_lang :: "jsval \<Rightarrow> cache_meta \<Rightarrow> jstring list \<Rightarrow> jstring \<times> jstring \<Rightarrow> jstring list" where
  "doomed_lang saved current existing e =
     (if js_prop (js_get saved ''langs'') (fst e) \<noteq> JStr (snd e) then filter (\<lambda>f. starts_with f (fst e @ lit ''-'')) existing
      else doomed_phrases saved existing (fst e) (case map_of (cm_phrases current) (fst e) of None \<Rightarrow> [] | Some p \<Rightarrow> p))"

lemma doomed_phrases_Nil [simp]: "doomed_phrases saved existing lang [] = []"
  by (simp add: doomed_phrases_def)

lemma phrase_fold: "fst (fold (phrase_step saved existing lang) es d) = fst d @ doomed_phrases saved existing lang es"
  by (induction es arbitrary: d) (auto simp: phrase_step_def doomed_phrases_def)

lemma lang_fold: "fst (fold (lang_step saved current existing) es d) = fst d @ concat (map (doomed_lang saved current existing) es)"
  by (induction es arbitrary: d) (auto simp: lang_step_def doomed_lang_def phrase_fold split: option.split)

lemma plan_v2:
  "asV2 saved \<Longrightarrow> js_get saved ''global'' = JStr (cm_global current) \<Longrightarrow>
   set (cp_deleteFiles (planCacheInvalidation saved current existing)) =
     set (filter (\<lambda>f. f \<notin> set allowedCacheFileNames) existing) \<union> (\<Union>e\<in>set (cm_langs current). set (doomed_lang saved current existing e))"
  by (simp add: planCacheInvalidation_def Let_def lang_fold)

lemma doomed_sub: "set (doomed_lang saved current existing e) \<subseteq> set existing"
  by (auto simp: doomed_lang_def doomed_phrases_def)

lemma plan_sub: "set (cp_deleteFiles (planCacheInvalidation saved current existing)) \<subseteq> set existing"
proof -
  have "set (fst (fold (lang_step saved current existing) (cm_langs current) d)) \<subseteq> set existing" if "set (fst d) \<subseteq> set existing" for d
    using that doomed_sub by (fastforce simp: lang_fold)
  then show ?thesis by (auto simp: planCacheInvalidation_def Let_def v1_doomed_def)
qed

lemma plan_orphans:
  "f \<in> set existing \<Longrightarrow> f \<notin> set allowedCacheFileNames \<Longrightarrow> f \<in> set (cp_deleteFiles (planCacheInvalidation saved current existing))"
  by (auto simp: planCacheInvalidation_def Let_def lang_fold)

subsection \<open>A meta that was written\<close>

lemma meta_value_v2 [simp]: "asV2 (meta_value m)"
  by (simp add: asV2_def meta_value_def js_get_def js_field_def is_JStr_def js_falsy_def digests_value_def)

lemma meta_value_fields [simp]:
  "js_get (meta_value m) ''global'' = JStr (cm_global m)"
  "js_get (meta_value m) ''langs'' = digests_value (cm_langs m)"
  "js_get (meta_value m) ''phrases'' = JObj (map (\<lambda>(lang, p). (lang, digests_value p)) (cm_phrases m))"
  by (simp_all add: meta_value_def js_get_def js_field_def)

lemma digests_prop: "js_prop (digests_value m) k = (case map_of m k of None \<Rightarrow> JUndef | Some h \<Rightarrow> JStr h)"
  by (auto simp: js_prop_def digests_value_def map_of_map split: option.split)

lemma phrases_prop:
  "js_prop (JObj (map (\<lambda>(lang, p). (lang, digests_value p)) ps)) lang = (case map_of ps lang of None \<Rightarrow> JUndef | Some p \<Rightarrow> digests_value p)"
  by (auto simp: js_prop_def map_of_map split: option.split)

lemma built_fields:
  assumes "mi_langs inp = LANGS"
  shows "cm_langs (buildCacheMetaFrom sha12 inp) = map (\<lambda>l. (l, sha12 (DigestVoice (voice_of (mi_voices inp) l)))) LANGS"
    and "cm_phrases (buildCacheMetaFrom sha12 inp) = map (\<lambda>l. (l, phrase_digests sha12 (mi_phrases inp) l)) LANGS"
  using assms LANGS_distinct by (simp_all add: buildCacheMetaFrom_def fold_update_map)

lemma map_of_keyed: "l \<in> set ls \<Longrightarrow> map_of (map (\<lambda>l. (l, g l)) ls) l = Some (g l)"
  by (induction ls) auto

lemma built_langs_of:
  assumes "mi_langs inp = LANGS" "l \<in> set LANGS"
  shows "map_of (cm_langs (buildCacheMetaFrom sha12 inp)) l = Some (sha12 (DigestVoice (voice_of (mi_voices inp) l)))"
    and "map_of (cm_phrases (buildCacheMetaFrom sha12 inp)) l = Some (phrase_digests sha12 (mi_phrases inp) l)"
  using map_of_keyed [OF assms(2)] by (simp_all add: built_fields [OF assms(1)])

lemma phrase_digests_of:
  "map_of (phrase_digests sha12 phrases lang) key = map_option (\<lambda>m. sha12 (DigestText (phrase_text m lang))) (map_of phrases key)"
  by (simp add: phrase_digests_def map_of_map)

text \<open>The settings a file is made with.\<close>

definition audio_of :: "(digest_input \<Rightarrow> jstring) \<Rightarrow> meta_input \<Rightarrow> jstring \<Rightarrow> jstring \<Rightarrow> rat \<times> jstring \<times> tts_voice option \<times> jstring" where
  "audio_of sha12 inp lang key =
     (mi_speakingRate inp, input_ssml sha12 inp, voice_of (mi_voices inp) lang, text_in (mi_phrases inp) lang key)"

lemma doomed_phrases_iff:
  "l \<in> set LANGS \<Longrightarrow> l' \<in> set LANGS \<Longrightarrow> cache_file l k \<in> set existing \<Longrightarrow>
   cache_file l k \<in> set (doomed_phrases saved existing l' es) \<longleftrightarrow>
     l' = l \<and> (\<exists>h. (k, h) \<in> set es \<and> js_prop (js_prop (js_get saved ''phrases'') l') k \<noteq> JStr h)"
  by (force simp: doomed_phrases_def cache_file_inject)

lemma digest_in:
  "jm_wf phrases \<Longrightarrow> (k, h) \<in> set (phrase_digests sha12 phrases l) \<longleftrightarrow>
   (\<exists>m. map_of phrases k = Some m \<and> h = sha12 (DigestText (phrase_text m l)))"
  by (force simp: phrase_digests_def map_of_eq_Some_iff)

lemma digest_differs:
  "inj sha12 \<Longrightarrow> js_prop (digests_value (phrase_digests sha12 phrases l)) k \<noteq> JStr (sha12 (DigestText t)) \<longleftrightarrow>
   map_option (\<lambda>m. phrase_text m l) (map_of phrases k) \<noteq> Some t"
  by (auto simp: digests_prop phrase_digests_of dest: injD split: option.split)

lemma doomed_built:
  assumes langs: "mi_langs old = LANGS" "mi_langs new = LANGS" and wf: "jm_wf (mi_phrases new)" and inj: "inj sha12"
    and f: "l \<in> set LANGS" "cache_file l k \<in> set existing"
  shows "cache_file l k \<in> (\<Union>e\<in>set (cm_langs (buildCacheMetaFrom sha12 new)).
        set (doomed_lang (meta_value (buildCacheMetaFrom sha12 old)) (buildCacheMetaFrom sha12 new) existing e)) \<longleftrightarrow>
    voice_of (mi_voices old) l \<noteq> voice_of (mi_voices new) l \<or>
    (\<exists>m. map_of (mi_phrases new) k = Some m \<and> map_option (\<lambda>m. phrase_text m l) (map_of (mi_phrases old) k) \<noteq> Some (phrase_text m l))"
    (is "?L \<longleftrightarrow> ?R")
proof -
  define saved where "saved = meta_value (buildCacheMetaFrom sha12 old)"
  have lang: "js_prop (js_get saved ''langs'') l' = JStr (sha12 (DigestVoice (voice_of (mi_voices old) l')))" if "l' \<in> set LANGS" for l'
    unfolding saved_def using built_langs_of(1) [OF langs(1) that] by (simp add: digests_prop)
  have phrases: "js_prop (js_get saved ''phrases'') l' = digests_value (phrase_digests sha12 (mi_phrases old) l')" if "l' \<in> set LANGS" for l'
    unfolding saved_def using built_langs_of(2) [OF langs(1) that] by (simp add: phrases_prop)
  have eq: "sha12 a = sha12 b \<longleftrightarrow> a = b" for a b using inj by (auto dest: injD)
  have one: "cache_file l k \<in> set (doomed_lang saved (buildCacheMetaFrom sha12 new) existing (l', sha12 (DigestVoice (voice_of (mi_voices new) l')))) \<longleftrightarrow>
      l' = l \<and> ?R" if l': "l' \<in> set LANGS" for l'
  proof (cases "voice_of (mi_voices old) l' = voice_of (mi_voices new) l'")
    case False
    then show ?thesis using l' f cache_file_starts [OF f(1) l'] by (auto simp: doomed_lang_def lang eq)
  next
    case True
    have "doomed_lang saved (buildCacheMetaFrom sha12 new) existing (l', sha12 (DigestVoice (voice_of (mi_voices new) l'))) =
        doomed_phrases saved existing l' (phrase_digests sha12 (mi_phrases new) l')"
      using True by (simp add: doomed_lang_def lang [OF l'] built_langs_of(2) [OF langs(2) l'])
    then have "cache_file l k \<in> set (doomed_lang saved (buildCacheMetaFrom sha12 new) existing (l', sha12 (DigestVoice (voice_of (mi_voices new) l')))) \<longleftrightarrow>
        l' = l \<and> (\<exists>h. (k, h) \<in> set (phrase_digests sha12 (mi_phrases new) l) \<and>
          js_prop (digests_value (phrase_digests sha12 (mi_phrases old) l)) k \<noteq> JStr h)"
      using doomed_phrases_iff [OF f(1) l' f(2), of saved] phrases [OF l'] by (cases "l' = l") simp_all
    then show ?thesis using digest_in [OF wf] digest_differs [OF inj] True by (cases "l' = l") auto
  qed
  have "?L \<longleftrightarrow> (\<exists>l'\<in>set LANGS. cache_file l k \<in>
      set (doomed_lang saved (buildCacheMetaFrom sha12 new) existing (l', sha12 (DigestVoice (voice_of (mi_voices new) l')))))"
    by (auto simp: saved_def built_fields [OF langs(2)])
  also have "\<dots> \<longleftrightarrow> ?R" using one f(1) by blast
  finally show ?thesis .
qed

text \<open>Nothing is deleted twice: a directory that was brought up to date stays as it is.\<close>

lemma phrases_same:
  "\<forall>(k, h)\<in>set es. js_prop (js_prop (js_get saved ''phrases'') lang) k = JStr h \<Longrightarrow> fold (phrase_step saved existing lang) es d = d"
  by (induction es arbitrary: d) (auto simp: phrase_step_def)

lemma langs_same: "(\<And>e d. e \<in> set es \<Longrightarrow> lang_step saved current existing e d = d) \<Longrightarrow> fold (lang_step saved current existing) es d = d"
  by (induction es arbitrary: d) auto

lemma plan_same:
  assumes "\<forall>f\<in>set existing. f \<in> set allowedCacheFileNames \<or> f \<in> D" and "mi_langs inp = LANGS" and "jm_wf (mi_phrases inp)"
  shows "set (cp_deleteFiles (planCacheInvalidation (meta_value (buildCacheMetaFrom sha12 inp)) (buildCacheMetaFrom sha12 inp) existing)) \<subseteq> D"
    and "D = {} \<Longrightarrow> planCacheInvalidation (meta_value (buildCacheMetaFrom sha12 inp)) (buildCacheMetaFrom sha12 inp) existing =
      \<lparr>cp_deleteFiles = [], cp_fullWipe = False, cp_reasons = []\<rparr>"
proof -
  define m where "m = buildCacheMetaFrom sha12 inp"
  have o: "set (filter (\<lambda>f. f \<notin> set allowedCacheFileNames) existing) \<subseteq> D" using assms(1) by auto
  have "lang_step (meta_value m) m existing e d = d" if "e \<in> set (cm_langs m)" for e d
  proof -
    have "e \<in> set (map (\<lambda>l. (l, sha12 (DigestVoice (voice_of (mi_voices inp) l)))) LANGS)"
      using that unfolding m_def built_fields [OF assms(2)] .
    then obtain l where l: "l \<in> set LANGS" "e = (l, sha12 (DigestVoice (voice_of (mi_voices inp) l)))" by auto
    have v: "js_prop (js_get (meta_value m) ''langs'') l = JStr (snd e)"
      using l built_langs_of(1) [OF assms(2) l(1)] by (simp add: digests_prop m_def)
    have p: "js_prop (js_get (meta_value m) ''phrases'') l = digests_value (phrase_digests sha12 (mi_phrases inp) l)"
      using built_langs_of(2) [OF assms(2) l(1)] by (simp add: phrases_prop m_def)
    have "\<forall>(k, h)\<in>set (phrase_digests sha12 (mi_phrases inp) l). js_prop (js_prop (js_get (meta_value m) ''phrases'') l) k = JStr h"
      unfolding p using digest_in [OF assms(3)] by (auto simp: digests_prop phrase_digests_of)
    from phrases_same [OF this] show ?thesis
      using l v built_langs_of(2) [OF assms(2) l(1)] by (simp add: lang_step_def m_def)
  qed
  note same = langs_same [OF this, of "cm_langs m"]
  have plan: "planCacheInvalidation (meta_value m) m existing =
      (let orphans = filter (\<lambda>f. f \<notin> set allowedCacheFileNames) existing
       in \<lparr>cp_deleteFiles = sort (remdups orphans), cp_fullWipe = False,
           cp_reasons = (if orphans = [] then [] else [ReOrphans (length orphans)])\<rparr>)"
    by (simp add: planCacheInvalidation_def same)
  show "set (cp_deleteFiles (planCacheInvalidation (meta_value (buildCacheMetaFrom sha12 inp)) (buildCacheMetaFrom sha12 inp) existing)) \<subseteq> D"
    using o unfolding m_def [symmetric] plan by (simp add: Let_def)
  assume "D = {}"
  then have "filter (\<lambda>f. f \<notin> set allowedCacheFileNames) existing = []" using o by (simp add: filter_empty_conv)
  then show "planCacheInvalidation (meta_value (buildCacheMetaFrom sha12 inp)) (buildCacheMetaFrom sha12 inp) existing =
      \<lparr>cp_deleteFiles = [], cp_fullWipe = False, cp_reasons = []\<rparr>"
    unfolding m_def [symmetric] plan by simp
qed

subsection \<open>A directory\<close>

lemma ends_with_append [simp]: "ends_with (s @ p) p"
  by (simp add: ends_with_def)

lemma cache_file_mp3 [simp]: "ends_with (cache_file l k) (lit ''.mp3'')"
  unfolding cache_file_def append_assoc [symmetric] by (rule ends_with_append)

lemma reconcile_files:
  "set (cd_files (fst (reconcile_with current unlinked dir))) =
     {f \<in> set (cd_files dir). \<not> (f \<in> set (cp_deleteFiles (planCacheInvalidation (cd_meta dir) current
        (filter (\<lambda>f. ends_with f (lit ''.mp3'')) (cd_files dir)))) \<and> unlinked f)}"
  by (auto simp: reconcile_with_def Let_def)

lemma reconcile_meta: "cd_meta (fst (reconcile_with current unlinked dir)) = meta_value current"
  by (simp add: reconcile_with_def Let_def)

lemma reconcile_allowed:
  "f \<in> set (cd_files (fst (reconcile_with current unlinked dir))) \<Longrightarrow> ends_with f (lit ''.mp3'') \<Longrightarrow>
   f \<in> set allowedCacheFileNames \<or> \<not> unlinked f"
  using plan_orphans unfolding reconcile_files by fastforce

lemma source_wf: "jm_wf PHRASES" "mi_langs source_input = LANGS" "mi_phrases source_input = PHRASES"
  by (simp_all add: PHRASES_def source_input_def)

end
