(* ===== verification/TtsRules.thy ===== *)
theory TtsRules
  imports TtsService TtsCacheRules
begin

text \<open>
  The invariants of the making of files: the places of the semaphore and its queue against the files under way, the
  attempts, the sizes of what is written, and where every request is.
\<close>

declare map_of_eq_Some_iff [simp del]

subsection \<open>Files under way\<close>

definition running_keys :: "(jstring, tts_job) jmap \<Rightarrow> jstring set" where
  "running_keys p = {lk. \<exists>j. map_of p lk = Some j \<and> jb_phase j \<noteq> JbQueued}"

definition queued_keys :: "(jstring, tts_job) jmap \<Rightarrow> jstring set" where
  "queued_keys p = {lk. \<exists>j. map_of p lk = Some j \<and> jb_phase j = JbQueued}"

lemma finite_running: "finite (running_keys p)"
proof (rule finite_subset)
  show "running_keys p \<subseteq> dom (map_of p)" by (auto simp: running_keys_def)
qed (rule finite_dom_map_of)

lemma running_update:
  "running_keys (AList.update lk j p) = (if jb_phase j = JbQueued then running_keys p - {lk} else insert lk (running_keys p))"
  by (auto simp: running_keys_def)

lemma queued_update:
  "queued_keys (AList.update lk j p) = (if jb_phase j = JbQueued then insert lk (queued_keys p) else queued_keys p - {lk})"
  by (auto simp: queued_keys_def)

lemma keys_delete_job:
  "running_keys (AList.delete lk p) = running_keys p - {lk}" "queued_keys (AList.delete lk p) = queued_keys p - {lk}"
  by (auto simp: running_keys_def queued_keys_def)

lemma queued_not_running: "lk \<in> queued_keys p \<Longrightarrow> lk \<notin> running_keys p"
  by (auto simp: running_keys_def queued_keys_def)

definition tts_allowed :: "jstring \<Rightarrow> jstring \<Rightarrow> bool" where
  "tts_allowed lang key \<longleftrightarrow> lang \<in> set LANGS \<and> key \<in> set TTS_KEYS"

definition attempt_ok :: "job_phase \<Rightarrow> bool" where
  "attempt_ok p =
     (case p of
        JbQueued \<Rightarrow> True
      | JbFetching a \<Rightarrow> 1 \<le> a \<and> a \<le> MAX_TTS_RETRIES
      | JbWriting a n \<Rightarrow> 1 \<le> a \<and> a \<le> MAX_TTS_RETRIES \<and> MIN_MP3_BYTES \<le> n
      | JbRenaming a n \<Rightarrow> 1 \<le> a \<and> a \<le> MAX_TTS_RETRIES \<and> MIN_MP3_BYTES \<le> n
      | JbCleaning a \<Rightarrow> 1 \<le> a \<and> a \<le> MAX_TTS_RETRIES
      | JbBackoff a _ \<Rightarrow> 1 \<le> a \<and> a < MAX_TTS_RETRIES)"

definition job_ok :: "jstring \<Rightarrow> tts_job \<Rightarrow> bool" where
  "job_ok lk j \<longleftrightarrow> lk = lock_key (jb_lang j) (jb_key j) \<and> tts_allowed (jb_lang j) (jb_key j) \<and> attempt_ok (jb_phase j)"

definition files_ok :: "(jstring, nat) jmap \<Rightarrow> tts \<Rightarrow> bool" where
  "files_ok files s \<longleftrightarrow> (\<forall>f n. map_of (tt_files s) f = Some n \<longrightarrow> MIN_MP3_BYTES \<le> n \<or> map_of files f = Some n)"

text \<open>With \<open>d\<close> places that are neither free nor taken.\<close>

definition jobs_inv :: "(jstring, nat) jmap \<Rightarrow> nat \<Rightarrow> tts \<Rightarrow> bool" where
  "jobs_inv files d s \<longleftrightarrow> jm_wf (tt_pending s) \<and> tt_count s + card (running_keys (tt_pending s)) + d = SEMAPHORE_MAX \<and>
     distinct (tt_queue s) \<and> set (tt_queue s) = queued_keys (tt_pending s) \<and> (tt_queue s = [] \<or> tt_count s = 0) \<and>
     (\<forall>lk j. map_of (tt_pending s) lk = Some j \<longrightarrow> job_ok lk j) \<and> files_ok files s"

lemma jobs_inv_frame:
  "jobs_inv files d s \<Longrightarrow> tt_pending s' = tt_pending s \<Longrightarrow> tt_count s' = tt_count s \<Longrightarrow> tt_queue s' = tt_queue s \<Longrightarrow>
   files_ok files s' \<Longrightarrow> jobs_inv files d s'"
  by (simp add: jobs_inv_def)

lemma jobs_files: "jobs_inv files d s \<Longrightarrow> files_ok files s"
  by (simp add: jobs_inv_def)

lemma jobs_job: "jobs_inv files d s \<Longrightarrow> map_of (tt_pending s) lk = Some j \<Longrightarrow> job_ok lk j"
  by (simp add: jobs_inv_def)

lemma files_frame: "files_ok files s \<Longrightarrow> tt_files s' = tt_files s \<Longrightarrow> files_ok files s'"
  by (simp add: files_ok_def)

lemma running_stays:
  assumes inv: "jobs_inv files d s" and j: "map_of (tt_pending s) lk = Some j0" "jb_phase j0 \<noteq> JbQueued"
    and j': "job_ok lk j'" "jb_phase j' \<noteq> JbQueued"
    and s': "tt_pending s' = AList.update lk j' (tt_pending s)" "tt_count s' = tt_count s" "tt_queue s' = tt_queue s" "files_ok files s'"
  shows "jobs_inv files d s'"
proof -
  have "lk \<in> running_keys (tt_pending s)" using j by (auto simp: running_keys_def)
  moreover have "lk \<notin> queued_keys (tt_pending s)" using j by (auto simp: queued_keys_def)
  ultimately show ?thesis using inv s' j' by (auto simp: jobs_inv_def running_update queued_update insert_absorb)
qed

lemma goes_inv:
  assumes inv: "jobs_inv files d s" and j: "map_of (tt_pending s) lk = Some j" "jb_phase j \<noteq> JbQueued" and p: "attempt_ok p" "p \<noteq> JbQueued"
  shows "jobs_inv files d (job_goes lk j p s)"
proof (rule running_stays [OF inv j])
  show "job_ok lk (j\<lparr>jb_phase := p\<rparr>)" using jobs_job [OF inv j(1)] p by (simp add: job_ok_def)
qed (use p jobs_files [OF inv] in \<open>simp_all add: job_goes_def files_ok_def\<close>)

lemma call_inv:
  assumes inv: "jobs_inv files d s" and j: "map_of (tt_pending s) lk = Some j" "jb_phase j \<noteq> JbQueued" and a: "1 \<le> a" "a \<le> MAX_TTS_RETRIES"
  shows "jobs_inv files d (start_call lk a j s)"
proof (rule running_stays [OF inv j])
  show "job_ok lk (j\<lparr>jb_phase := JbFetching a\<rparr>)" using jobs_job [OF inv j(1)] a by (simp add: job_ok_def attempt_ok_def)
qed (use jobs_files [OF inv] in \<open>simp_all add: start_call_def files_ok_def\<close>)

lemma sem_run_inv:
  assumes inv: "jobs_inv files 0 s" and new: "map_of (tt_pending s) lk = None" and j: "job_ok lk j" "jb_phase j = JbQueued"
  shows "jobs_inv files 0 (sem_run lk j s)"
proof -
  have n: "lk \<notin> running_keys (tt_pending s)" "lk \<notin> queued_keys (tt_pending s)" using new by (auto simp: running_keys_def queued_keys_def)
  have j1: "job_ok lk (j\<lparr>jb_phase := JbFetching 1\<rparr>)" using j(1) by (simp add: job_ok_def attempt_ok_def MAX_TTS_RETRIES_def)
  have f: "files_ok files (sem_run lk j s)" by (rule files_frame [OF jobs_files [OF inv]]) (simp add: sem_run_def start_call_def)
  show ?thesis
  proof (cases "0 < tt_count s")
    case True
    then have "tt_queue s = []" using inv by (auto simp: jobs_inv_def)
    then show ?thesis using inv True n j1 f finite_running
      by (auto simp: jobs_inv_def sem_run_def start_call_def running_update queued_update)
  next
    case False
    have "job_ok lk (j\<lparr>jb_phase := JbQueued\<rparr>)" using j by (simp add: job_ok_def attempt_ok_def)
    then show ?thesis using inv n f False by (auto simp: jobs_inv_def sem_run_def running_update queued_update)
  qed
qed

lemma sem_release_inv:
  assumes inv: "jobs_inv files 1 s"
  shows "jobs_inv files 0 (sem_release s)"
proof (cases "tt_queue s")
  case Nil
  then show ?thesis using inv by (auto simp: jobs_inv_def sem_release_def files_ok_def)
next
  case (Cons lk q)
  then have "lk \<in> queued_keys (tt_pending s)" using inv by (auto simp: jobs_inv_def)
  then obtain j where j: "map_of (tt_pending s) lk = Some j" "jb_phase j = JbQueued" by (auto simp: queued_keys_def)
  have n: "lk \<notin> running_keys (tt_pending s)" using j by (auto simp: running_keys_def)
  have ok: "job_ok lk (j\<lparr>jb_phase := JbFetching 1\<rparr>)"
    using jobs_job [OF inv j(1)] by (simp add: job_ok_def attempt_ok_def MAX_TTS_RETRIES_def)
  have "queued_keys (tt_pending s) - {lk} = set q" using inv Cons by (auto simp: jobs_inv_def)
  then show ?thesis using inv Cons j n ok finite_running
    by (auto simp: jobs_inv_def sem_release_def start_call_def running_update queued_update files_ok_def)
qed

lemma files_release: "tt_files (sem_release s) = tt_files s"
  by (auto simp: sem_release_def start_call_def split: list.split option.split)

lemma fields_req [simp]:
  "tt_pending (req_in r p s) = tt_pending s" "tt_count (req_in r p s) = tt_count s" "tt_queue (req_in r p s) = tt_queue s"
  "tt_files (req_in r p s) = tt_files s" "tt_pending (req_out i s) = tt_pending s" "tt_count (req_out i s) = tt_count s"
  "tt_queue (req_out i s) = tt_queue s" "tt_files (req_out i s) = tt_files s" "tt_pending (tts_answer r x s) = tt_pending s"
  "tt_count (tts_answer r x s) = tt_count s" "tt_queue (tts_answer r x s) = tt_queue s" "tt_files (tts_answer r x s) = tt_files s"
  by (simp_all add: req_in_def req_out_def tts_answer_def)

lemma fields_done [simp]:
  "tt_pending (ensure_done r s) = tt_pending s" "tt_count (ensure_done r s) = tt_count s" "tt_queue (ensure_done r s) = tt_queue s"
  "tt_files (ensure_done r s) = tt_files s" "tt_pending (waiter_done ok r s) = tt_pending s"
  "tt_count (waiter_done ok r s) = tt_count s" "tt_queue (waiter_done ok r s) = tt_queue s" "tt_files (waiter_done ok r s) = tt_files s"
  by (simp_all add: ensure_done_def waiter_done_def)

lemma fields_fold_done [simp]:
  "tt_pending (fold (waiter_done ok) rs s) = tt_pending s" "tt_count (fold (waiter_done ok) rs s) = tt_count s"
  "tt_queue (fold (waiter_done ok) rs s) = tt_queue s" "tt_files (fold (waiter_done ok) rs s) = tt_files s"
  by (induction rs arbitrary: s) simp_all

lemma job_settled_inv:
  assumes inv: "jobs_inv files 0 s" and j: "map_of (tt_pending s) lk = Some j" "jb_phase j \<noteq> JbQueued"
  shows "jobs_inv files 0 (job_settled ok lk s)"
proof -
  define s0 where "s0 = s\<lparr>tt_pending := AList.delete lk (tt_pending s)\<rparr>"
  have r: "lk \<in> running_keys (tt_pending s)" using j by (auto simp: running_keys_def)
  have q: "lk \<notin> queued_keys (tt_pending s)" using j by (auto simp: queued_keys_def)
  have "0 < card (running_keys (tt_pending s))" using r finite_running card_gt_0_iff by blast
  then have "jobs_inv files 1 s0" using inv r q finite_running
    by (auto simp: jobs_inv_def s0_def keys_delete_job files_ok_def)
  from sem_release_inv [OF this] show ?thesis
    by (elim jobs_inv_frame) (use jobs_files [OF inv] in \<open>simp_all add: job_settled_def Let_def s0_def [symmetric] files_ok_def files_release,
      simp add: s0_def\<close>)
qed

lemma failed_inv:
  assumes inv: "jobs_inv files 0 s" and j: "map_of (tt_pending s) lk = Some j" "jb_phase j \<noteq> JbQueued" and a: "1 \<le> a"
  shows "jobs_inv files 0 (attempt_failed now lk j a s)"
  using job_settled_inv [OF inv j] goes_inv [OF inv j, of "JbBackoff a (now + 500 * int a)"] a by (simp add: attempt_failed_def attempt_ok_def)

lemma jobs_phase: "jobs_inv files d s \<Longrightarrow> map_of (tt_pending s) lk = Some j \<Longrightarrow> attempt_ok (jb_phase j)"
  using jobs_job by (simp add: job_ok_def)

lemma fetch_settled_inv:
  assumes inv: "jobs_inv files 0 s"
  shows "jobs_inv files 0 (fetch_settled now res lk s)"
proof (cases "map_of (tt_pending s) lk")
  case (Some j)
  note ok = jobs_phase [OF inv Some]
  show ?thesis
  proof (cases "jb_phase j")
    case (JbFetching a)
    then have nq: "jb_phase j \<noteq> JbQueued" by simp
    have a: "1 \<le> a" "a \<le> MAX_TTS_RETRIES" using ok JbFetching by (simp_all add: attempt_ok_def)
    show ?thesis using JbFetching Some a failed_inv [OF inv Some nq a(1)] goes_inv [OF inv Some nq]
      by (auto simp: fetch_settled_def attempt_ok_def split: option.split)
  qed (simp_all add: fetch_settled_def Some inv)
qed (simp add: fetch_settled_def inv)

lemma write_settled_inv:
  assumes inv: "jobs_inv files 0 s"
  shows "jobs_inv files 0 (write_settled ok lk s)"
proof (cases "map_of (tt_pending s) lk")
  case (Some j)
  note p = jobs_phase [OF inv Some]
  show ?thesis
  proof (cases "jb_phase j")
    case (JbWriting a n)
    have inv': "jobs_inv files 0 (s\<lparr>tt_tmp := t\<rparr>)" for t
      by (rule jobs_inv_frame [OF inv]) (use jobs_files [OF inv] in \<open>simp_all add: files_ok_def\<close>)
    show ?thesis using JbWriting Some p goes_inv [OF inv Some] goes_inv [OF inv', where lk = lk and j = j and p = "JbRenaming a n"]
      by (auto simp: write_settled_def attempt_ok_def)
  qed (simp_all add: write_settled_def Some inv)
qed (simp add: write_settled_def inv)

lemma rename_settled_inv:
  assumes inv: "jobs_inv files 0 s"
  shows "jobs_inv files 0 (rename_settled ok lk s)"
proof (cases "map_of (tt_pending s) lk")
  case (Some j)
  note p = jobs_phase [OF inv Some]
  show ?thesis
  proof (cases "jb_phase j")
    case (JbRenaming a n)
    define s' where "s' = s\<lparr>tt_tmp := AList.delete (job_file j) (tt_tmp s), tt_files := AList.update (job_file j) n (tt_files s)\<rparr>"
    have "MIN_MP3_BYTES \<le> n" using p JbRenaming by (simp add: attempt_ok_def)
    then have inv': "jobs_inv files 0 s'"
      by (intro jobs_inv_frame [OF inv]) (use jobs_files [OF inv] in \<open>auto simp: files_ok_def s'_def\<close>)
    have "map_of (tt_pending s') lk = Some j" using Some by (simp add: s'_def)
    from job_settled_inv [OF inv' this] show ?thesis using JbRenaming Some p goes_inv [OF inv Some]
      by (auto simp: rename_settled_def attempt_ok_def s'_def)
  qed (simp_all add: rename_settled_def Some inv)
qed (simp add: rename_settled_def inv)

lemma clean_settled_inv:
  assumes inv: "jobs_inv files 0 s"
  shows "jobs_inv files 0 (clean_settled now lk s)"
proof (cases "map_of (tt_pending s) lk")
  case (Some j)
  note p = jobs_phase [OF inv Some]
  show ?thesis
  proof (cases "jb_phase j")
    case (JbCleaning a)
    define s' where "s' = s\<lparr>tt_tmp := AList.delete (job_file j) (tt_tmp s)\<rparr>"
    have inv': "jobs_inv files 0 s'"
      by (rule jobs_inv_frame [OF inv]) (use jobs_files [OF inv] in \<open>simp_all add: files_ok_def s'_def\<close>)
    have "map_of (tt_pending s') lk = Some j" using Some by (simp add: s'_def)
    from failed_inv [OF inv' this] show ?thesis using JbCleaning Some p
      by (simp add: clean_settled_def attempt_ok_def s'_def)
  qed (simp_all add: clean_settled_def Some inv)
qed (simp add: clean_settled_def inv)

lemma backoff_inv:
  assumes inv: "jobs_inv files 0 s"
  shows "jobs_inv files 0 (backoff_over now lk s)"
proof (cases "map_of (tt_pending s) lk")
  case (Some j)
  note p = jobs_phase [OF inv Some]
  show ?thesis
  proof (cases "jb_phase j")
    case (JbBackoff a due)
    then show ?thesis using Some p inv call_inv [OF inv Some, of "Suc a"] by (simp add: backoff_over_def attempt_ok_def)
  qed (simp_all add: backoff_over_def Some inv)
qed (simp add: backoff_over_def inv)

subsection \<open>Requests\<close>

text \<open>With the requests \<open>M\<close> taken out of their wait and not yet put anywhere.\<close>

definition req_ids :: "(tts_req \<times> req_phase) list \<Rightarrow> nat multiset" where
  "req_ids rs = mset (map (\<lambda>e. rq_id (fst e)) rs)"

definition reqs_inv :: "nat multiset \<Rightarrow> tts \<Rightarrow> bool" where
  "reqs_inv M s \<longleftrightarrow> mset (map fst (tt_replies s)) + req_ids (tt_reqs s) + M = mset [0..<tt_next s] \<and>
     (\<forall>e\<in>set (tt_reqs s). tts_allowed (rq_lang (fst e)) (rq_key (fst e)) \<and> (snd e = RqWait \<longrightarrow> jm_has (tt_pending s) (req_lock (fst e))))"

definition req_allowed :: "tts_req \<Rightarrow> bool" where
  "req_allowed r \<longleftrightarrow> tts_allowed (rq_lang r) (rq_key r)"

lemma reqs_frame:
  "reqs_inv M s \<Longrightarrow> tt_replies s' = tt_replies s \<Longrightarrow> tt_reqs s' = tt_reqs s \<Longrightarrow> tt_next s' = tt_next s \<Longrightarrow>
   (\<And>lk. jm_has (tt_pending s) lk \<Longrightarrow> jm_has (tt_pending s') lk) \<Longrightarrow> reqs_inv M s'"
  by (simp add: reqs_inv_def)

lemma reqs_answer: "reqs_inv (add_mset (rq_id r) M) s \<Longrightarrow> reqs_inv M (tts_answer r x s)"
  by (simp add: reqs_inv_def tts_answer_def)

lemma reqs_in:
  "reqs_inv (add_mset (rq_id r) M) s \<Longrightarrow> req_allowed r \<Longrightarrow> (p = RqWait \<Longrightarrow> jm_has (tt_pending s) (req_lock r)) \<Longrightarrow>
   reqs_inv M (req_in r p s)"
  by (auto simp: reqs_inv_def req_in_def req_ids_def req_allowed_def)

lemma reqs_done: "reqs_inv (add_mset (rq_id r) M) s \<Longrightarrow> req_allowed r \<Longrightarrow> reqs_inv M (ensure_done r s)"
  using reqs_in [of r M s RqSecondStat] by (simp add: ensure_done_def reqs_answer)

lemma reqs_waiter: "reqs_inv (add_mset (rq_id r) M) s \<Longrightarrow> req_allowed r \<Longrightarrow> reqs_inv M (waiter_done ok r s)"
  by (simp add: waiter_done_def reqs_answer reqs_done)

lemma reqs_waiters:
  "reqs_inv (mset (map rq_id rs) + M) s \<Longrightarrow> \<forall>r\<in>set rs. req_allowed r \<Longrightarrow> reqs_inv M (fold (waiter_done ok) rs s)"
proof (induction rs arbitrary: s)
  case (Cons r rs)
  then have "reqs_inv (mset (map rq_id rs) + M) (waiter_done ok r s)" by (intro reqs_waiter) auto
  then show ?case using Cons by simp
qed simp

lemma ids_distinct:
  assumes "reqs_inv M s"
  shows "distinct (map (\<lambda>e. rq_id (fst e)) (tt_reqs s))"
proof -
  have "req_ids (tt_reqs s) \<subseteq># mset [0..<tt_next s]"
    using assms unfolding reqs_inv_def by (metis mset_subset_eq_add_left mset_subset_eq_add_right subset_mset.order_trans)
  then have "count (req_ids (tt_reqs s)) x \<le> 1" for x
    using mset_subset_eq_count [of "req_ids (tt_reqs s)" "mset [0..<tt_next s]" x] distinct_count_atmost_1 [of "[0..<tt_next s]"]
    by (auto split: if_splits)
  then show ?thesis unfolding req_ids_def distinct_count_atmost_1
    by (metis (no_types, lifting) count_mset_0_iff gr0I le_less_Suc_eq less_Suc_eq_le less_one nat_less_le One_nat_def set_mset_mset count_greater_eq_one_iff le_antisym)
qed

lemma reqs_out:
  assumes inv: "reqs_inv {#} s" and r: "find_req p i s = Some r"
  shows "reqs_inv {#rq_id r#} (req_out i s)" and "req_allowed r" and "rq_id r = i"
proof -
  obtain e where e: "List.find (\<lambda>e. rq_id (fst e) = i \<and> snd e = p) (tt_reqs s) = Some e" "r = fst e" using r by (auto simp: find_req_def)
  then have m: "e \<in> set (tt_reqs s)" "rq_id r = i" by (auto simp: find_Some_iff)
  show "rq_id r = i" by (rule m(2))
  show "req_allowed r" using inv m(1) by (simp add: reqs_inv_def req_allowed_def e(2))
  have "mset (tt_reqs s) = add_mset e (mset (filter (\<lambda>y. rq_id (fst y) \<noteq> rq_id (fst e)) (tt_reqs s)))"
    by (rule mset_without [OF ids_distinct [OF inv] m(1)])
  from arg_cong [OF this, of "image_mset (\<lambda>e. rq_id (fst e))"]
  have "req_ids (tt_reqs s) = add_mset (rq_id r) (req_ids (tt_reqs (req_out i s)))"
    using m(2) by (simp add: req_ids_def req_out_def e(2))
  moreover have "set (tt_reqs (req_out i s)) \<subseteq> set (tt_reqs s)" "tt_replies (req_out i s) = tt_replies s"
    "tt_next (req_out i s) = tt_next s" by (auto simp: req_out_def)
  ultimately show "reqs_inv {#rq_id r#} (req_out i s)" using inv unfolding reqs_inv_def by (auto simp: subset_eq)
qed

lemma reqs_ensure: "reqs_inv M s \<Longrightarrow> tts_allowed lang key \<Longrightarrow> reqs_inv M (ensureFile serve lang key s)"
  unfolding ensureFile_def
  by (rule reqs_in) (simp_all add: reqs_inv_def req_allowed_def)

lemma reqs_refuse: "reqs_inv M s \<Longrightarrow> reqs_inv M (refuse x s)"
  by (simp add: reqs_inv_def refuse_def)

lemma parse_allowed: "parseTtsLang lang = Some l \<Longrightarrow> parseTtsKey key = Some k \<Longrightarrow> tts_allowed l k"
  by (auto simp: parseTtsLang_def parseTtsKey_def tts_allowed_def dest!: map_of_SomeD)

lemma reqs_serve: "reqs_inv M s \<Longrightarrow> reqs_inv M (tts_serve lang key s)"
  by (auto simp: tts_serve_def reqs_refuse intro: reqs_ensure parse_allowed split: option.split)

lemma reqs_stat:
  assumes inv: "reqs_inv {#} s"
  shows "reqs_inv {#} (stat_settled i s)"
proof (cases "find_req RqStat i s")
  case (Some r)
  note o = reqs_out [OF inv Some]
  show ?thesis using Some reqs_done [OF o(1,2)] reqs_answer [OF o(1)] reqs_in [OF o(1,2), of RqUnlink] by (simp add: stat_settled_def)
qed (simp add: stat_settled_def inv)

lemma reqs_second:
  assumes inv: "reqs_inv {#} s"
  shows "reqs_inv {#} (second_stat_settled i s)"
proof (cases "find_req RqSecondStat i s")
  case (Some r)
  show ?thesis using Some reqs_answer [OF reqs_out(1) [OF inv Some]] by (simp add: second_stat_settled_def split: option.split)
qed (simp add: second_stat_settled_def inv)

lemma reqs_fields [simp]:
  "tt_reqs (start_call lk a j s) = tt_reqs s" "tt_replies (start_call lk a j s) = tt_replies s" "tt_next (start_call lk a j s) = tt_next s"
  "tt_reqs (sem_run lk j s) = tt_reqs s" "tt_replies (sem_run lk j s) = tt_replies s" "tt_next (sem_run lk j s) = tt_next s"
  "tt_reqs (sem_release s) = tt_reqs s" "tt_replies (sem_release s) = tt_replies s" "tt_next (sem_release s) = tt_next s"
  "tt_reqs (job_goes lk j p s) = tt_reqs s" "tt_replies (job_goes lk j p s) = tt_replies s" "tt_next (job_goes lk j p s) = tt_next s"
  by (auto simp: start_call_def sem_run_def sem_release_def job_goes_def split: list.split option.split)

lemma has_sem:
  "jm_has (tt_pending s) lk' \<Longrightarrow> jm_has (tt_pending (start_call lk a j s)) lk'"
  "jm_has (tt_pending s) lk' \<Longrightarrow> jm_has (tt_pending (sem_release s)) lk'"
  "jm_has (tt_pending s) lk' \<Longrightarrow> jm_has (tt_pending (job_goes lk j p s)) lk'"
  "jm_has (tt_pending (sem_run lk j s)) lk' \<longleftrightarrow> lk' = lk \<or> jm_has (tt_pending s) lk'"
  by (auto simp: start_call_def sem_run_def sem_release_def job_goes_def split: list.split option.split)

lemma reqs_call: "reqs_inv M s \<Longrightarrow> reqs_inv M (start_call lk a j s)"
  by (erule reqs_frame; simp add: has_sem del: not_None_eq)

lemma reqs_goes: "reqs_inv M s \<Longrightarrow> reqs_inv M (job_goes lk j p s)"
  by (erule reqs_frame; simp add: has_sem del: not_None_eq)

lemma reqs_unlink:
  assumes inv: "reqs_inv {#} s"
  shows "reqs_inv {#} (unlink_settled ok i s)"
proof (cases "find_req RqUnlink i s")
  case (Some r)
  note o = reqs_out [OF inv Some]
  define s1 where "s1 = req_in r RqWait (req_out i s)"
  define s2 where "s2 = (if ok then s1\<lparr>tt_files := AList.delete (req_file r) (tt_files s1)\<rparr> else s1)"
  define s3 where "s3 = (if jm_has (tt_pending s) (req_lock r) then s2
    else sem_run (req_lock r) \<lparr>jb_lang = rq_lang r, jb_key = rq_key r, jb_phase = JbQueued\<rparr> s2)"
  have p: "tt_pending s2 = tt_pending s" by (simp add: s2_def s1_def)
  have has: "jm_has (tt_pending s3) (req_lock r)" "jm_has (tt_pending s) lk \<Longrightarrow> jm_has (tt_pending s3) lk" for lk
    by (auto simp: s3_def p has_sem(4) simp del: not_None_eq)
  have out: "reqs_inv {#rq_id r#} (s3\<lparr>tt_reqs := tt_reqs (req_out i s)\<rparr>)"
    using o(1) by (rule reqs_frame) (use has(2) in \<open>auto simp: s3_def s2_def s1_def req_in_def req_out_def simp del: not_None_eq\<close>)
  have "reqs_inv {#} (req_in r RqWait (s3\<lparr>tt_reqs := tt_reqs (req_out i s)\<rparr>))" by (rule reqs_in [OF _ o(2)]) (use out has in auto)
  then have "reqs_inv {#} s3" by (rule reqs_frame) (auto simp: s3_def s2_def s1_def req_in_def)
  moreover have "unlink_settled ok i s = s3"
    unfolding unlink_settled_def Some option.case Let_def s3_def s2_def s1_def ..
  ultimately show ?thesis by simp
qed (simp add: unlink_settled_def inv)

lemma req_ids_split: "req_ids rs = req_ids (filter P rs) + req_ids (filter (\<lambda>e. \<not> P e) rs)"
  by (induction rs) (auto simp: req_ids_def)

lemma reqs_settled:
  assumes inv: "reqs_inv {#} s"
  shows "reqs_inv {#} (job_settled ok lk s)"
proof -
  define s1 where "s1 = sem_release (s\<lparr>tt_pending := AList.delete lk (tt_pending s)\<rparr>)"
  define ws where "ws = map fst (filter (waits_for lk) (tt_reqs s1))"
  define s2 where "s2 = s1\<lparr>tt_reqs := filter (\<lambda>e. \<not> waits_for lk e) (tt_reqs s1)\<rparr>"
  have e: "tt_reqs s1 = tt_reqs s" "tt_replies s1 = tt_replies s" "tt_next s1 = tt_next s" by (simp_all add: s1_def)
  have has: "jm_has (tt_pending s1) lk'" if "jm_has (tt_pending s) lk'" "lk' \<noteq> lk" for lk'
    unfolding s1_def by (rule has_sem(2)) (use that in simp)
  have ids: "mset (map fst (tt_replies s)) + req_ids (tt_reqs s) = mset [0..<tt_next s]" using inv by (simp add: reqs_inv_def)
  have ws: "mset (map rq_id ws) = req_ids (filter (waits_for lk) (tt_reqs s))" by (simp add: ws_def e(1) req_ids_def comp_def)
  have "mset (map fst (tt_replies s2)) + req_ids (tt_reqs s2) + (mset (map rq_id ws) + {#}) = mset [0..<tt_next s2]"
    unfolding ws s2_def using ids unfolding req_ids_split [of "tt_reqs s" "waits_for lk"] by (simp add: e add_ac)
  moreover have "\<forall>x\<in>set (tt_reqs s2). tts_allowed (rq_lang (fst x)) (rq_key (fst x)) \<and> (snd x = RqWait \<longrightarrow> jm_has (tt_pending s2) (req_lock (fst x)))"
  proof
    fix x assume "x \<in> set (tt_reqs s2)"
    then have x: "x \<in> set (tt_reqs s)" "\<not> waits_for lk x" by (auto simp: s2_def e(1))
    have "jm_has (tt_pending s2) (req_lock (fst x))" if w: "snd x = RqWait"
    proof -
      have "jm_has (tt_pending s) (req_lock (fst x))" using inv x(1) w unfolding reqs_inv_def by blast
      then have "jm_has (tt_pending s1) (req_lock (fst x))" by (rule has) (use x(2) w in \<open>simp add: waits_for_def\<close>)
      then show ?thesis by (simp add: s2_def)
    qed
    then show "tts_allowed (rq_lang (fst x)) (rq_key (fst x)) \<and> (snd x = RqWait \<longrightarrow> jm_has (tt_pending s2) (req_lock (fst x)))"
      using inv x(1) unfolding reqs_inv_def by blast
  qed
  ultimately have "reqs_inv (mset (map rq_id ws) + {#}) s2" unfolding reqs_inv_def by blast
  note loose = this
  have "\<forall>r\<in>set ws. req_allowed r" using inv by (auto simp: ws_def e reqs_inv_def req_allowed_def)
  from reqs_waiters [OF loose this] have "reqs_inv {#} (fold (waiter_done ok) ws s2)" .
  then show ?thesis by (simp add: job_settled_def Let_def s1_def s2_def ws_def)
qed

lemma reqs_failed: "reqs_inv {#} s \<Longrightarrow> reqs_inv {#} (attempt_failed now lk j a s)"
  by (simp add: attempt_failed_def reqs_goes reqs_settled)

lemma reqs_disk: "reqs_inv M s \<Longrightarrow> reqs_inv M (s\<lparr>tt_tmp := t\<rparr>)" "reqs_inv M s \<Longrightarrow> reqs_inv M (s\<lparr>tt_tmp := t, tt_files := f\<rparr>)"
  by (simp_all add: reqs_inv_def)

lemma reqs_job_steps:
  assumes "reqs_inv {#} s"
  shows "reqs_inv {#} (fetch_settled now res lk s)" "reqs_inv {#} (write_settled ok lk s)" "reqs_inv {#} (rename_settled ok lk s)"
    "reqs_inv {#} (clean_settled now lk s)" "reqs_inv {#} (backoff_over now lk s)"
  using assms by (auto simp: fetch_settled_def write_settled_def rename_settled_def clean_settled_def backoff_over_def reqs_goes reqs_failed
      reqs_settled reqs_call reqs_disk split: option.split job_phase.split)

subsection \<open>Every run\<close>

lemma jobs_req_frame:
  "jobs_inv files d s \<Longrightarrow> jobs_inv files d (req_in r p s)" "jobs_inv files d s \<Longrightarrow> jobs_inv files d (req_out i s)"
  "jobs_inv files d s \<Longrightarrow> jobs_inv files d (tts_answer r x s)" "jobs_inv files d s \<Longrightarrow> jobs_inv files d (ensure_done r s)"
  "jobs_inv files d s \<Longrightarrow> jobs_inv files d (ensureFile b lang key s)" "jobs_inv files d s \<Longrightarrow> jobs_inv files d (refuse x s)"
  by (simp_all add: jobs_inv_def files_ok_def ensureFile_def refuse_def)

lemma jobs_serve: "jobs_inv files d s \<Longrightarrow> jobs_inv files d (tts_serve lang key s)"
  by (simp add: tts_serve_def jobs_req_frame split: option.split)

lemma jobs_stat:
  "jobs_inv files d s \<Longrightarrow> jobs_inv files d (stat_settled i s)" "jobs_inv files d s \<Longrightarrow> jobs_inv files d (second_stat_settled i s)"
  by (simp_all add: stat_settled_def second_stat_settled_def jobs_req_frame split: option.split)

lemma jobs_unlink:
  assumes inv: "jobs_inv files 0 s" and rinv: "reqs_inv {#} s"
  shows "jobs_inv files 0 (unlink_settled ok i s)"
proof (cases "find_req RqUnlink i s")
  case (Some r)
  define s1 where "s1 = req_in r RqWait (req_out i s)"
  define s2 where "s2 = (if ok then s1\<lparr>tt_files := AList.delete (req_file r) (tt_files s1)\<rparr> else s1)"
  have "jobs_inv files 0 s1" using inv by (simp add: s1_def jobs_req_frame)
  then have i2: "jobs_inv files 0 s2"
    unfolding s2_def by (auto elim!: jobs_inv_frame simp: files_ok_def jobs_inv_def)
  have p: "tt_pending s2 = tt_pending s" by (simp add: s2_def s1_def)
  have "req_allowed r" by (rule reqs_out(2) [OF rinv Some])
  then have j: "job_ok (req_lock r) \<lparr>jb_lang = rq_lang r, jb_key = rq_key r, jb_phase = JbQueued\<rparr>"
    by (simp add: job_ok_def req_allowed_def attempt_ok_def req_lock_def)
  have "unlink_settled ok i s = (if jm_has (tt_pending s) (req_lock r) then s2
      else sem_run (req_lock r) \<lparr>jb_lang = rq_lang r, jb_key = rq_key r, jb_phase = JbQueued\<rparr> s2)"
    unfolding unlink_settled_def Some option.case Let_def s2_def s1_def ..
  then show ?thesis using i2 sem_run_inv [OF i2 _ j] p by auto
qed (simp add: unlink_settled_def inv)

definition stages_ok :: "(jstring \<times> jstring) list list \<Rightarrow> bool" where
  "stages_ok sts \<longleftrightarrow> (\<forall>st\<in>set sts. \<forall>e\<in>set st. tts_allowed (fst e) (snd e))"

definition tts_inv :: "(jstring, nat) jmap \<Rightarrow> tts_sys \<Rightarrow> bool" where
  "tts_inv files x \<longleftrightarrow> jobs_inv files 0 (snd x) \<and> reqs_inv {#} (snd x) \<and> stages_ok (fst x)"

lemma stage_inv:
  "jobs_inv files 0 s \<Longrightarrow> reqs_inv {#} s \<Longrightarrow> \<forall>e\<in>set st. tts_allowed (fst e) (snd e) \<Longrightarrow>
   jobs_inv files 0 (pregen_stage st s) \<and> reqs_inv {#} (pregen_stage st s)"
  unfolding pregen_stage_def
proof (induction st arbitrary: s)
  case (Cons e st)
  then show ?case by (cases e) (simp add: jobs_req_frame reqs_ensure)
qed simp

lemma tts_inv_exec:
  assumes inv: "tts_inv files x"
  shows "tts_inv files (tts_exec now op x)"
proof -
  obtain sts s where x: "x = (sts, s)" by (cases x)
  have j: "jobs_inv files 0 s" and r: "reqs_inv {#} s" and st: "stages_ok sts" using inv by (simp_all add: tts_inv_def x)
  show ?thesis
  proof (cases op)
    case ToPregen
    then show ?thesis using j r st stage_inv [OF j r]
      by (cases sts) (auto simp: x tts_inv_def tts_exec_def pregen_next_def stages_ok_def)
  qed (use j r st in \<open>simp_all add: x tts_inv_def tts_exec_def reqs_serve jobs_serve reqs_stat jobs_stat reqs_unlink jobs_unlink reqs_second
      reqs_job_steps fetch_settled_inv write_settled_inv rename_settled_inv clean_settled_inv backoff_inv\<close>)
qed

text \<open>The keys made in advance are the keys that may be asked for, each once per language.\<close>

lemma pregen_keys: "pregenKeys = TTS_KEYS"
  unfolding pregenKeys_def TTS_KEYS_def TTS_PREGEN_MAX_def TTS_NUM_MAX_def TTS_NUM_MIN_def by (simp del: upt_rec_numeral)

lemma upt_shift: "map (\<lambda>i. f (i + k)) [0..<n] = map f [k..<k + n]"
  by (rule nth_equalityI) (simp_all add: add.commute)

lemma concat_singletons: "concat (map (\<lambda>i. [f i]) xs) = map f xs"
  by (induction xs) simp_all

lemma pregen_lang_keys: "concat (pregen_lang lang) = map (\<lambda>i. (lang, js_show_nat i)) [1..<11] @ map (\<lambda>k. (lang, k)) (map fst PHRASES) @
    map (\<lambda>i. (lang, js_show_nat i)) [11..<31]"
  unfolding pregen_lang_def concat_append concat_singletons
  using upt_shift [of "\<lambda>i. (lang, js_show_nat i)" 11 20] by (simp del: upt_conv_Cons upt_rec_numeral map_map)

lemma numbers_split: "mset (map g [1..<11]) + mset (map g [11..<31]) + mset (map g [31..<181]) = mset (map g [1..<181])"
proof -
  have "[1..<181] = [1..<11] @ [11..<31] @ [31..<181]"
    using upt_add_eq_append [of 1 11 170] upt_add_eq_append [of 11 31 150] by (simp del: upt_rec_numeral)
  then show ?thesis by (simp del: upt_rec_numeral)
qed

lemma pregen_lang_all:
  "mset (concat (pregen_lang lang)) + mset (map (\<lambda>i. (lang, js_show_nat i)) [31..<TTS_PREGEN_MAX + 1]) = mset (map (Pair lang) TTS_KEYS)"
proof -
  have k: "map (Pair lang) TTS_KEYS = map (\<lambda>k. (lang, k)) (map fst PHRASES) @ map (\<lambda>i. (lang, js_show_nat i)) [1..<181]"
    unfolding TTS_KEYS_def TTS_NUM_MAX_def TTS_NUM_MIN_def map_append map_map comp_def
    using upt_shift [of "\<lambda>i. (lang, js_show_nat i)" 1 180] by (simp del: upt_conv_Cons upt_rec_numeral)
  show ?thesis
    unfolding pregen_lang_keys k TTS_PREGEN_MAX_def mset_append numbers_split [symmetric] by (simp add: add_ac del: upt_conv_Cons upt_rec_numeral mset_map)
qed

lemma concat_concat_map: "concat (concat (map f xs)) = concat (map (\<lambda>x. concat (f x)) xs)"
  by (induction xs) simp_all

lemma mset_concat_add: "mset (concat (map f xs)) + mset (concat (map g xs)) = sum_list (map (\<lambda>x. mset (f x) + mset (g x)) xs)"
  by (induction xs) (simp_all add: add_ac)

lemma product_concat: "List.product xs ys = concat (map (\<lambda>x. map (Pair x) ys) xs)"
  by (induction xs) simp_all

lemma pregen_all: "mset (concat preGenerateAll) = mset (List.product LANGS TTS_KEYS)"
proof -
  have "mset (concat preGenerateAll) = mset (concat (map (\<lambda>l. concat (pregen_lang l)) LANGS)) +
      mset (concat (map (\<lambda>lang. map (\<lambda>i. (lang, js_show_nat i)) [31..<TTS_PREGEN_MAX + 1]) LANGS))"
    unfolding preGenerateAll_def concat_append concat_concat_map by simp
  also have "\<dots> = sum_list (map (\<lambda>l. mset (map (Pair l) TTS_KEYS)) LANGS)"
    unfolding mset_concat_add pregen_lang_all ..
  also have "\<dots> = mset (List.product LANGS TTS_KEYS)" unfolding product_concat mset_concat map_map comp_def ..
  finally show ?thesis .
qed

lemma pregen_stages_ok: "stages_ok preGenerateAll"
  unfolding stages_ok_def
proof (intro ballI)
  fix st e assume "st \<in> set preGenerateAll" "e \<in> set st"
  then have "e \<in># mset (concat preGenerateAll)" by auto
  then show "tts_allowed (fst e) (snd e)" unfolding pregen_all by (auto simp: tts_allowed_def)
qed

lemma tts_inv_boot: "tts_inv files (tts_boot apiKey files)"
  using pregen_stages_ok
  by (simp add: tts_inv_def tts_boot_def tts_start_def jobs_inv_def reqs_inv_def req_ids_def files_ok_def running_keys_def queued_keys_def
      tts_onModuleInit_def stages_ok_def)

lemma tts_inv_run: "tts_inv files x \<Longrightarrow> tts_inv files (tts_run now ops x)"
proof (induction ops arbitrary: now x)
  case (Cons o' ops)
  then show ?case by (cases o') (simp add: tts_inv_exec)
qed simp

end
