(* ===== verification/TtsProperties.thy ===== *)
theory TtsProperties
  imports TtsRules "HOL-Library.Countable"
begin











text \<open>
  Whatever the meta file holds, also nothing, the format of an earlier version or something else, and whatever
  is in the directory: when the deletions succeed, a second start deletes nothing, changes nothing and gives no reason. So a
  cache is never made again and again.
\<close>

theorem second_start_idle:
  fixes sha12 dir unlinked
  defines "dir' \<equiv> fst (reconcileCache sha12 (\<lambda>_. True) dir)"
  shows "reconcileCache sha12 unlinked dir' = (dir', \<lparr>rr_deleted = 0, rr_fullWipe = False, rr_reasons = [], rr_metaChanged = False\<rparr>)"
proof -
  define existing where "existing = filter (\<lambda>f. ends_with f (lit ''.mp3'')) (cd_files dir')"
  have "\<forall>f\<in>set existing. f \<in> set allowedCacheFileNames \<or> f \<in> {}"
    using reconcile_allowed by (fastforce simp: existing_def dir'_def reconcileCache_def)
  note p = plan_same(2) [OF this source_wf(2) _ refl, unfolded source_wf(3), OF source_wf(1), of sha12]
  have m: "cd_meta dir' = meta_value (buildCacheMeta sha12)" by (simp add: dir'_def reconcileCache_def reconcile_meta)
  then show ?thesis using p
    by (simp add: reconcileCache_def reconcile_with_def Let_def existing_def buildCacheMeta_def)
qed

text \<open>
  A file that could not be deleted at a start is never deleted by a later one: the meta already says that it is current, so it
  keeps speaking with the old settings.
\<close>

theorem failed_deletion_survives:
  assumes "f \<in> set (cd_files dir)" "f \<in> set allowedCacheFileNames" "\<not> unlinked f"
  shows "f \<in> set (cd_files (fst (reconcileCache sha12 (\<lambda>_. True) (fst (reconcileCache sha12 unlinked dir)))))"
proof -
  define dir' where "dir' = fst (reconcileCache sha12 unlinked dir)"
  define existing where "existing = filter (\<lambda>f. ends_with f (lit ''.mp3'')) (cd_files dir')"
  have "\<forall>f\<in>set existing. f \<in> set allowedCacheFileNames \<or> f \<in> - set allowedCacheFileNames" by simp
  note p = plan_same(1) [OF this source_wf(2), unfolded source_wf(3), OF source_wf(1), of sha12]
  have "f \<in> set (cd_files dir')" using assms(1,3) by (auto simp: dir'_def reconcileCache_def reconcile_files)
  moreover have "cd_meta dir' = meta_value (buildCacheMetaFrom sha12 source_input)"
    by (simp add: dir'_def reconcileCache_def reconcile_meta buildCacheMeta_def)
  ultimately show ?thesis using p assms(2)
    unfolding dir'_def [symmetric] by (auto simp: reconcileCache_def reconcile_files buildCacheMeta_def existing_def)
qed

subsection \<open>Making and serving\<close>

text \<open>
  Property C32. Whatever is asked and whatever the disk and the synthesis answer, a call concerns only one of the four languages and
  one of the allowed keys: no request of a client makes the service pay for another text, and the look-up of a path never
  fails.
\<close>

theorem only_allowed_texts:
  fixes now ops apiKey files
  defines "s \<equiv> snd (tts_run now ops (tts_boot apiKey files))"
  shows "list_all (\<lambda>(lk, j). lk = lock_key (jb_lang j) (jb_key j) \<and> jb_lang j \<in> set LANGS \<and> jb_key j \<in> set TTS_KEYS) (tt_pending s) \<and>
    list_all (\<lambda>(r, p). rq_lang r \<in> set LANGS \<and> rq_key r \<in> set TTS_KEYS) (tt_reqs s)"
proof -
  have inv: "tts_inv files (tts_run now ops (tts_boot apiKey files))" by (intro tts_inv_run tts_inv_boot)
  then have "job_ok (fst e) (snd e)" if "e \<in> set (tt_pending s)" for e
    using that unfolding tts_inv_def jobs_inv_def s_def by (metis map_of_is_SomeI prod.collapse)
  moreover have "tts_allowed (rq_lang (fst e)) (rq_key (fst e))" if "e \<in> set (tt_reqs s)" for e
    using inv that unfolding tts_inv_def reqs_inv_def s_def by blast
  ultimately show ?thesis by (force simp: list_all_iff job_ok_def tts_allowed_def)
qed

text \<open>
  Property C33. In any interleaving at most three files are being made at a time and none waits while there is a free place; a
  file is made once at a time, in at most three attempts; and no file that the service writes is shorter than the thousand bytes
  below which a file counts as silent.
\<close>

theorem making_bounded:
  fixes now ops apiKey files
  defines "s \<equiv> snd (tts_run now ops (tts_boot apiKey files))"
  shows "tt_count s + card (running_keys (tt_pending s)) = 3 \<and> jm_wf (tt_pending s) \<and>
    distinct (tt_queue s) \<and> set (tt_queue s) = queued_keys (tt_pending s) \<and> (tt_queue s = [] \<or> tt_count s = 0) \<and>
    list_all (\<lambda>e. attempt_ok (jb_phase (snd e))) (tt_pending s) \<and>
    (\<forall>f. map_of (tt_files s) f = None \<or> map_of (tt_files s) f = map_of files f \<or> MIN_MP3_BYTES \<le> the (map_of (tt_files s) f))"
proof -
  have inv: "jobs_inv files 0 s" using tts_inv_run [OF tts_inv_boot] by (simp add: tts_inv_def s_def)
  then have "attempt_ok (jb_phase (snd e))" if "e \<in> set (tt_pending s)" for e
    using that jobs_phase [OF inv] unfolding jobs_inv_def by (metis map_of_is_SomeI prod.collapse)
  moreover have "map_of (tt_files s) f = None \<or> map_of (tt_files s) f = map_of files f \<or> MIN_MP3_BYTES \<le> the (map_of (tt_files s) f)" for f
    using jobs_files [OF inv] unfolding files_ok_def by (cases "map_of (tt_files s) f") (simp, metis option.sel)
  ultimately show ?thesis using inv by (simp add: jobs_inv_def SEMAPHORE_MAX_def list_all_iff)
qed

text \<open>
  No request is lost: each is answered once or waits in exactly one place, and who waits for a file waits for one that
  is being made or has its place in the queue.
\<close>

theorem audio_requests_settle:
  fixes now ops apiKey files
  defines "s \<equiv> snd (tts_run now ops (tts_boot apiKey files))"
  shows "mset (map fst (tt_replies s)) + mset (map (\<lambda>e. rq_id (fst e)) (tt_reqs s)) = mset [0..<tt_next s] \<and>
    list_all (\<lambda>(r, p). p \<noteq> RqWait \<or> jm_has (tt_pending s) (req_lock r)) (tt_reqs s)"
proof -
  have "reqs_inv {#} s" using tts_inv_run [OF tts_inv_boot] by (simp add: tts_inv_def s_def)
  then show ?thesis by (auto simp: reqs_inv_def req_ids_def list_all_iff)
qed

text \<open>
  What is made in advance is every allowed key in every language, each once, and a server that finds all of it on its disk makes
  nothing.
\<close>

theorem pregeneration_complete:
  "mset (concat preGenerateAll) = mset (List.product LANGS TTS_KEYS) \<and>
   ((\<forall>lang\<in>set LANGS. \<forall>key\<in>set TTS_KEYS. jm_has files (cache_file lang key)) \<longleftrightarrow> st_ready (collectCacheStatus (tts_start apiKey files)))"
proof -
  have "st_ready (collectCacheStatus (tts_start apiKey files)) \<longleftrightarrow> (\<forall>e\<in>set (List.product LANGS TTS_KEYS). jm_has files (cache_file (fst e) (snd e)))"
    by (auto simp: collectCacheStatus_def tts_start_def pregen_keys filter_empty_conv)
  then show ?thesis using pregen_all by auto
qed

text \<open>
  Property C34. The deletion of a damaged file is not safe against a file that has just been made: a second request that looked before the
  renaming and deletes after it removes the good file. The first request is then answered with an error although
  its synthesis succeeded, and the text is paid for a second time. The comment at the deletion says that it is safe.
\<close>

theorem fresh_file_deleted:
  assumes "parseTtsLang lang = Some lang" "parseTtsKey key = Some key" "MIN_MP3_BYTES \<le> n"
  shows "let s = snd (tts_run now
        [(0, ToServe lang key), (0, ToStat 0), (1, ToUnlink True 0), (200, ToFetched (Some n) (lock_key lang key)),
         (0, ToServe lang key), (1, ToWritten True (lock_key lang key)), (0, ToStat 1),
         (1, ToRenamed True (lock_key lang key)), (0, ToUnlink True 1), (1, ToSecondStat 0)] ([], tts_start True []))
    in tt_replies s = [(0, TrFailed)] \<and> tt_calls s = [(lang, key), (lang, key)] \<and> tt_files s = []"
  using assms
  by (simp add: tts_exec_def tts_start_def tts_serve_def ensureFile_def req_in_def req_out_def find_req_def stat_settled_def healthy_def
      unlink_settled_def sem_run_def start_call_def SEMAPHORE_MAX_def fetch_settled_def job_goes_def write_settled_def rename_settled_def
      job_settled_def sem_release_def waits_for_def waiter_done_def ensure_done_def second_stat_settled_def tts_answer_def
      req_file_def req_lock_def job_file_def Let_def)

theorem fresh_file_deleted_witness:
  "tt_replies (snd (tts_run 0
        [(0, ToServe (lit ''en'') (lit ''march'')), (0, ToStat 0), (1, ToUnlink True 0), (200, ToFetched (Some 2000) (lock_key (lit ''en'') (lit ''march''))),
         (0, ToServe (lit ''en'') (lit ''march'')), (1, ToWritten True (lock_key (lit ''en'') (lit ''march''))), (0, ToStat 1),
         (1, ToRenamed True (lock_key (lit ''en'') (lit ''march''))), (0, ToUnlink True 1), (1, ToSecondStat 0)] ([], tts_start True []))) =
    [(0, TrFailed)]"
proof -
  have "parseTtsLang (lit ''en'') = Some (lit ''en'')" by (simp add: parseTtsLang_def LANGS_def)
  moreover have "parseTtsKey (lit ''march'') = Some (lit ''march'')" by (simp add: parseTtsKey_def TTS_KEYS_def PHRASES_def)
  moreover have "MIN_MP3_BYTES \<le> 2000" by (simp add: MIN_MP3_BYTES_def)
  ultimately show ?thesis using fresh_file_deleted [of "lit ''en''" "lit ''march''" 2000 0] unfolding Let_def by blast
qed

end
