(* ===== verification/UploadQuota.thy ===== *)
theory UploadQuota
  imports JsText Limiters
begin

text \<open>
  The quota of uploaded pictures, \<open>boards/board-upload-quota.service.ts\<close>, with the guard (\<open>board-upload-rate.guard.ts\<close>), the
  clean-up after a disconnection and the interceptor. The used bytes come from a walk over the directory that waits at every
  \<open>readdir\<close> and \<open>stat\<close>, so uploads and deletions go on during it. Directories are those that hold a file; what the disk
  answers is an argument of the step. A token of a reservation is a number; who writes a file is kept as its owner.
\<close>

type_synonym upload_path = "jstring list"

definition BOARD_UPLOAD_FILE_SIZE :: nat where "BOARD_UPLOAD_FILE_SIZE = 5 * 1024 * 1024"
definition BOARD_UPLOAD_TOTAL_QUOTA_BYTES :: nat where "BOARD_UPLOAD_TOTAL_QUOTA_BYTES = 1024 * 1024 * 1024"
definition BOARD_UPLOAD_QUOTA_SCAN_INTERVAL_MS :: millis where "BOARD_UPLOAD_QUOTA_SCAN_INTERVAL_MS = 5000"
definition BOARD_UPLOADS_PER_USER_PER_DAY :: nat where "BOARD_UPLOADS_PER_USER_PER_DAY = 12"
definition BOARD_UPLOAD_RATE_WINDOW_MS :: millis where "BOARD_UPLOAD_RATE_WINDOW_MS = 24 * 60 * 60 * 1000"

definition BACKGROUND_FILE_SIZE :: nat where "BACKGROUND_FILE_SIZE = 8 * 1024 * 1024"
definition BACKGROUND_UPLOADS_PER_USER_PER_DAY :: nat where "BACKGROUND_UPLOADS_PER_USER_PER_DAY = 12"
definition BACKGROUND_RATE_WINDOW_MS :: millis where "BACKGROUND_RATE_WINDOW_MS = 24 * 60 * 60 * 1000"
definition OPERATION_BOARD_ADMIN_ROLES :: "string list" where "OPERATION_BOARD_ADMIN_ROLES = [''admin'', ''developer'']"

record disk_file =
  df_path :: upload_path
  df_size :: nat
  df_owner :: "nat option"

datatype scan_entry = ScDir upload_path | ScFile upload_path

text \<open>A walk: the directories being read, innermost first, each with what is left of it and its bytes so far.\<close>

type_synonym scan_frames = "(scan_entry list \<times> nat) list"

record quota_scan =
  qs_version :: int
  qs_frames :: scan_frames

record upload_req =
  ur_id :: nat
  ur_bytes :: nat
  ur_gone :: bool

datatype upload_answer = UaForbidden | UaLimited | UaFull | UaUnavailable | UaTimeout | UaUploading nat

record upload_quota =
  uq_buckets :: ws_buckets
  uq_disk :: "disk_file list"
  uq_diskBytes :: nat
  uq_reservedBytes :: nat
  uq_lastScanAt :: millis
  uq_invalidationVersion :: int
  uq_lastScannedVersion :: int
  uq_scanPromise :: "quota_scan option"
  uq_reservations :: "(nat, nat) jmap"
  uq_waiting :: "upload_req list"
  uq_next :: nat
  uq_nextToken :: nat
  uq_answers :: "(nat \<times> upload_answer) list"

definition quota_start :: "disk_file list \<Rightarrow> upload_quota" where
  "quota_start disk =
     \<lparr>uq_buckets = [], uq_disk = disk, uq_diskBytes = 0, uq_reservedBytes = 0, uq_lastScanAt = 0, uq_invalidationVersion = 0,
      uq_lastScannedVersion = - 1, uq_scanPromise = None, uq_reservations = [], uq_waiting = [], uq_next = 0, uq_nextToken = 0,
      uq_answers = []\<rparr>"

definition quota_answer :: "nat \<Rightarrow> upload_answer \<Rightarrow> upload_quota \<Rightarrow> upload_quota" where
  "quota_answer i a s = s\<lparr>uq_answers := uq_answers s @ [(i, a)]\<rparr>"

subsection \<open>Reservations\<close>

definition quota_invalidate :: "upload_quota \<Rightarrow> upload_quota" where
  "quota_invalidate s = s\<lparr>uq_invalidationVersion := uq_invalidationVersion s + 1, uq_lastScanAt := 0\<rparr>"

definition quota_release :: "nat option \<Rightarrow> upload_quota \<Rightarrow> upload_quota" where
  "quota_release token s =
     (case token of
        None \<Rightarrow> s
      | Some t \<Rightarrow>
          (case map_of (uq_reservations s) t of
             None \<Rightarrow> s
           | Some bytes \<Rightarrow>
               quota_invalidate (s\<lparr>uq_reservations := AList.delete t (uq_reservations s), uq_reservedBytes := uq_reservedBytes s - bytes\<rparr>)))"

text \<open>\<open>refreshQuotaIfNeeded\<close>: the condition of its loop, and what a caller for whom it does not hold does.\<close>

definition quota_stale :: "millis \<Rightarrow> upload_quota \<Rightarrow> bool" where
  "quota_stale now s \<longleftrightarrow> uq_lastScannedVersion s \<noteq> uq_invalidationVersion s \<or> BOARD_UPLOAD_QUOTA_SCAN_INTERVAL_MS \<le> now - uq_lastScanAt s"

definition wait_for_scan :: "upload_req \<Rightarrow> upload_quota \<Rightarrow> upload_quota" where
  "wait_for_scan r s =
     s\<lparr>uq_waiting := uq_waiting s @ [r],
       uq_scanPromise := (case uq_scanPromise s of
          Some sc \<Rightarrow> Some sc
        | None \<Rightarrow> Some \<lparr>qs_version = uq_invalidationVersion s, qs_frames = [([ScDir []], 0)]\<rparr>)\<rparr>"

text \<open>\<open>reserve\<close> after the loop, and \<open>reserveUploadQuotaForRequest\<close> after \<open>reserve\<close>.\<close>

definition reserve_bytes :: "upload_req \<Rightarrow> upload_quota \<Rightarrow> nat option \<times> upload_quota" where
  "reserve_bytes r s =
     (if BOARD_UPLOAD_TOTAL_QUOTA_BYTES < uq_diskBytes s + uq_reservedBytes s + ur_bytes r then (None, s)
      else (Some (uq_nextToken s),
            s\<lparr>uq_nextToken := uq_nextToken s + 1, uq_reservations := AList.update (uq_nextToken s) (ur_bytes r) (uq_reservations s),
              uq_reservedBytes := uq_reservedBytes s + ur_bytes r\<rparr>))"

definition reserve_answer :: "upload_req \<times> nat option \<Rightarrow> upload_quota \<Rightarrow> upload_quota" where
  "reserve_answer rt s =
     (case rt of
        (r, None) \<Rightarrow> quota_answer (ur_id r) UaFull s
      | (r, Some t) \<Rightarrow>
          if ur_gone r then quota_answer (ur_id r) UaTimeout (quota_release (Some t) s)
          else quota_answer (ur_id r) (UaUploading t) s)"

definition quota_reserve :: "millis \<Rightarrow> upload_req \<Rightarrow> upload_quota \<Rightarrow> upload_quota" where
  "quota_reserve now r s =
     (if quota_stale now s then wait_for_scan r s else (case reserve_bytes r s of (t, s1) \<Rightarrow> reserve_answer (r, t) s1))"

text \<open>Those who waited together look at the loop's condition together, then reserve together, and only then go on.\<close>

fun reserve_all :: "upload_req list \<Rightarrow> upload_quota \<Rightarrow> (upload_req \<times> nat option) list \<times> upload_quota" where
  "reserve_all [] s = ([], s)"
| "reserve_all (r # rs) s = (case reserve_bytes r s of (t, s1) \<Rightarrow> (case reserve_all rs s1 of (ts, s2) \<Rightarrow> ((r, t) # ts, s2)))"

definition resume_all :: "millis \<Rightarrow> upload_req list \<Rightarrow> upload_quota \<Rightarrow> upload_quota" where
  "resume_all now rs s =
     (if quota_stale now s then fold wait_for_scan rs s else (case reserve_all rs s of (ts, s1) \<Rightarrow> fold reserve_answer ts s1))"

text \<open>The guards of the two kinds of uploads: the limit of the user, then the reservation of the largest size.\<close>

definition upload_guard :: "millis \<Rightarrow> socket_id \<Rightarrow> event_name \<Rightarrow> nat \<Rightarrow> nat \<Rightarrow> millis \<Rightarrow> upload_quota \<Rightarrow> upload_quota" where
  "upload_guard now key event bytes limit width s =
     (let i = uq_next s; s1 = s\<lparr>uq_next := i + 1\<rparr>
      in case ws_check now key event limit width (uq_buckets s) of
           (False, buckets) \<Rightarrow> quota_answer i UaLimited (s1\<lparr>uq_buckets := buckets\<rparr>)
         | (True, buckets) \<Rightarrow> quota_reserve now \<lparr>ur_id = i, ur_bytes = bytes, ur_gone = False\<rparr> (s1\<lparr>uq_buckets := buckets\<rparr>))"

definition board_upload_guard :: "millis \<Rightarrow> int option \<Rightarrow> upload_quota \<Rightarrow> upload_quota" where
  "board_upload_guard now userId s =
     (case userId of
        None \<Rightarrow> quota_answer (uq_next s) UaForbidden (s\<lparr>uq_next := uq_next s + 1\<rparr>)
      | Some user \<Rightarrow>
          upload_guard now (''board-upload-user:'' @ map char_of (js_show_int user)) ''board:upload''
            BOARD_UPLOAD_FILE_SIZE BOARD_UPLOADS_PER_USER_PER_DAY BOARD_UPLOAD_RATE_WINDOW_MS s)"

definition background_upload_guard :: "millis \<Rightarrow> (int \<times> string) option \<Rightarrow> upload_quota \<Rightarrow> upload_quota" where
  "background_upload_guard now user s =
     (case user of
        Some (userId, role) \<Rightarrow>
          if role \<in> set OPERATION_BOARD_ADMIN_ROLES
          then upload_guard now (''operation-background-upload-user:'' @ map char_of (js_show_int userId)) ''operation-board:background-upload''
                 BACKGROUND_FILE_SIZE BACKGROUND_UPLOADS_PER_USER_PER_DAY BACKGROUND_RATE_WINDOW_MS s
          else quota_answer (uq_next s) UaForbidden (s\<lparr>uq_next := uq_next s + 1\<rparr>)
      | None \<Rightarrow> quota_answer (uq_next s) UaForbidden (s\<lparr>uq_next := uq_next s + 1\<rparr>))"

text \<open>The client goes while its request waits: nothing is reserved yet, so only the flag is set.\<close>

definition upload_gone :: "nat \<Rightarrow> upload_quota \<Rightarrow> upload_quota" where
  "upload_gone i s = s\<lparr>uq_waiting := map (\<lambda>r. if ur_id r = i then r\<lparr>ur_gone := True\<rparr> else r) (uq_waiting s)\<rparr>"

subsection \<open>The walk\<close>

definition below :: "upload_path \<Rightarrow> upload_path \<Rightarrow> jstring list option" where
  "below d p = (if take (length d) p = d then Some (drop (length d) p) else None)"

definition dir_entry :: "upload_path \<Rightarrow> disk_file \<Rightarrow> scan_entry option" where
  "dir_entry d f =
     (case below d (df_path f) of
        Some [name] \<Rightarrow> Some (ScFile (d @ [name]))
      | Some (name # _ # _) \<Rightarrow> Some (ScDir (d @ [name]))
      | _ \<Rightarrow> None)"

definition dir_entries :: "upload_path \<Rightarrow> disk_file list \<Rightarrow> scan_entry list" where
  "dir_entries d fs = remdups (List.map_filter (dir_entry d) fs)"

definition file_size :: "upload_path \<Rightarrow> disk_file list \<Rightarrow> nat option" where
  "file_size p fs = map_option df_size (List.find (\<lambda>f. df_path f = p) fs)"

datatype scan_result = ScGoes scan_frames | ScDone nat | ScFailed

definition add_bytes :: "scan_entry list \<Rightarrow> nat \<Rightarrow> scan_entry list \<times> nat" where
  "add_bytes es b = (if BOARD_UPLOAD_TOTAL_QUOTA_BYTES < b then [] else es, b)"

text \<open>One wait of the walk: the next entry is read, or a directory is done. A file that has vanished is an error.\<close>

fun scan_advance :: "disk_file list \<Rightarrow> scan_frames \<Rightarrow> scan_result" where
  "scan_advance fs [] = ScDone 0"
| "scan_advance fs [([], b)] = ScDone b"
| "scan_advance fs (([], b) # (es, b') # rest) = ScGoes (add_bytes es (b' + b) # rest)"
| "scan_advance fs ((ScDir d # es, b) # rest) = ScGoes ((dir_entries d fs, 0) # (es, b) # rest)"
| "scan_advance fs ((ScFile p # es, b) # rest) =
     (case file_size p fs of None \<Rightarrow> ScFailed | Some n \<Rightarrow> ScGoes (add_bytes es (b + n) # rest))"

definition scan_failed :: "upload_quota \<Rightarrow> upload_quota" where
  "scan_failed s = fold (\<lambda>r. quota_answer (ur_id r) UaUnavailable) (uq_waiting s) (s\<lparr>uq_scanPromise := None, uq_waiting := []\<rparr>)"

definition scan_finished :: "millis \<Rightarrow> int \<Rightarrow> nat \<Rightarrow> upload_quota \<Rightarrow> upload_quota" where
  "scan_finished now v b s =
     resume_all now (uq_waiting s)
       (s\<lparr>uq_diskBytes := b, uq_lastScannedVersion := v, uq_lastScanAt := (if v = uq_invalidationVersion s then now else 0),
          uq_scanPromise := None, uq_waiting := []\<rparr>)"

text \<open>\<open>ok\<close> says whether the disk answered.\<close>

definition scan_step :: "millis \<Rightarrow> bool \<Rightarrow> upload_quota \<Rightarrow> upload_quota" where
  "scan_step now ok s =
     (case uq_scanPromise s of
        None \<Rightarrow> s
      | Some sc \<Rightarrow>
          if \<not> ok then scan_failed s
          else (case scan_advance (uq_disk s) (qs_frames sc) of
                  ScGoes fr \<Rightarrow> s\<lparr>uq_scanPromise := Some (sc\<lparr>qs_frames := fr\<rparr>)\<rparr>
                | ScDone b \<Rightarrow> scan_finished now (qs_version sc) b s
                | ScFailed \<Rightarrow> scan_failed s))"

subsection \<open>Files\<close>

text \<open>
  An upload writes its one file, within the size it reserved, under a name that is not taken; deleting a file is always
  possible. Nothing is written once the reservation has ended. The interceptor and a disconnection both end the reservation.
\<close>

definition upload_write :: "nat \<Rightarrow> upload_path \<Rightarrow> nat \<Rightarrow> upload_quota \<Rightarrow> upload_quota" where
  "upload_write t p n s =
     (case map_of (uq_reservations s) t of
        None \<Rightarrow> s
      | Some bytes \<Rightarrow>
          if bytes < n then s
          else if list_ex (\<lambda>f. df_owner f = Some t) (uq_disk s)
          then s\<lparr>uq_disk := map (\<lambda>f. if df_owner f = Some t then f\<lparr>df_size := n\<rparr> else f) (uq_disk s)\<rparr>
          else if p = [] \<or> list_ex (\<lambda>f. df_path f = p) (uq_disk s) then s
          else s\<lparr>uq_disk := uq_disk s @ [\<lparr>df_path = p, df_size = n, df_owner = Some t\<rparr>]\<rparr>)"

definition upload_delete :: "upload_path \<Rightarrow> upload_quota \<Rightarrow> upload_quota" where
  "upload_delete p s = s\<lparr>uq_disk := filter (\<lambda>f. df_path f \<noteq> p) (uq_disk s)\<rparr>"

definition upload_end :: "nat \<Rightarrow> upload_quota \<Rightarrow> upload_quota" where
  "upload_end t s = quota_release (Some t) s"

datatype quota_op =
    QoBoardUpload "int option"
  | QoBackgroundUpload "(int \<times> string) option"
  | QoGone nat
  | QoScan bool
  | QoWrite nat upload_path nat
  | QoEnd nat
  | QoDelete upload_path
  | QoInvalidate

definition quota_exec :: "millis \<Rightarrow> quota_op \<Rightarrow> upload_quota \<Rightarrow> upload_quota" where
  "quota_exec now op s =
     (case op of
        QoBoardUpload user \<Rightarrow> board_upload_guard now user s
      | QoBackgroundUpload user \<Rightarrow> background_upload_guard now user s
      | QoGone i \<Rightarrow> upload_gone i s
      | QoScan ok \<Rightarrow> scan_step now ok s
      | QoWrite t p n \<Rightarrow> upload_write t p n s
      | QoEnd t \<Rightarrow> upload_end t s
      | QoDelete p \<Rightarrow> upload_delete p s
      | QoInvalidate \<Rightarrow> quota_invalidate s)"

fun quota_run :: "millis \<Rightarrow> (nat \<times> quota_op) list \<Rightarrow> upload_quota \<Rightarrow> upload_quota" where
  "quota_run now [] s = s"
| "quota_run now ((dt, op) # ops) s = quota_run (now + int dt) ops (quota_exec (now + int dt) op s)"

end
