(* ===== verification/UploadQuotaRules.thy ===== *)
theory UploadQuotaRules
  imports UploadQuota
begin

text \<open>
  What a walk that goes on during uploads and deletions can promise: unless an upload has ended since it began, it has seen at
  least the bytes of the files that nobody is writing any more. With that the bytes on the disk and the bytes promised stay
  within the quota.
\<close>

declare map_of_eq_Some_iff [simp del]

subsection \<open>Bytes\<close>

definition bytes_of :: "disk_file list \<Rightarrow> nat" where
  "bytes_of fs = sum_list (map df_size fs)"

lemma bytes_of_simps [simp]: "bytes_of [] = 0" "bytes_of (f # fs) = df_size f + bytes_of fs" "bytes_of (fs @ gs) = bytes_of fs + bytes_of gs"
  by (simp_all add: bytes_of_def)

lemma bytes_of_mono: "(\<And>f. f \<in> set fs \<Longrightarrow> P f \<Longrightarrow> Q f) \<Longrightarrow> bytes_of (filter P fs) \<le> bytes_of (filter Q fs)"
proof (induction fs)
  case (Cons f fs)
  then have "bytes_of (filter P fs) \<le> bytes_of (filter Q fs)" by simp
  then show ?case using Cons.prems [of f] by auto
qed simp

lemma bytes_of_or: "bytes_of (filter (\<lambda>f. P f \<or> Q f) fs) \<le> bytes_of (filter P fs) + bytes_of (filter Q fs)"
  by (induction fs) auto

lemma bytes_of_sub: "bytes_of (filter P (filter Q fs)) \<le> bytes_of (filter P fs)"
  unfolding filter_filter by (rule bytes_of_mono) simp

lemma length_sub: "length (filter P (filter Q fs)) \<le> length (filter P fs)"
  by (induction fs) auto

lemma bytes_of_split: "bytes_of (filter P fs) + bytes_of (filter (\<lambda>f. \<not> P f) fs) = bytes_of fs"
  by (induction fs) auto

definition settled :: "(nat, nat) jmap \<Rightarrow> disk_file \<Rightarrow> bool" where
  "settled res f = (case df_owner f of None \<Rightarrow> True | Some t \<Rightarrow> map_of res t = None)"

definition reserved_sum :: "(nat, nat) jmap \<Rightarrow> nat" where
  "reserved_sum res = sum_list (map snd res)"

lemma reserved_delete: "jm_wf res \<Longrightarrow> map_of res t = Some b \<Longrightarrow> reserved_sum res = b + reserved_sum (AList.delete t res)"
proof (induction res)
  case (Cons e res)
  then show ?case by (cases "fst e = t") (auto simp: reserved_sum_def delete_conv')
qed simp

lemma reserved_new: "map_of res t = None \<Longrightarrow> reserved_sum (AList.update t b res) = reserved_sum res + b"
  by (induction res) (auto simp: reserved_sum_def split: if_splits)

definition owned_by :: "nat \<Rightarrow> disk_file \<Rightarrow> bool" where
  "owned_by t f \<longleftrightarrow> df_owner f = Some t"

lemma unsettled_sum:
  "jm_wf res \<Longrightarrow> \<forall>(t, b)\<in>set res. bytes_of (filter (owned_by t) fs) \<le> b \<Longrightarrow>
   bytes_of (filter (\<lambda>f. \<not> settled res f) fs) \<le> reserved_sum res"
proof (induction res)
  case Nil
  then show ?case by (simp add: settled_def reserved_sum_def split: option.split)
next
  case (Cons e res)
  have "bytes_of (filter (\<lambda>f. \<not> settled (e # res) f) fs) \<le> bytes_of (filter (\<lambda>f. owned_by (fst e) f \<or> \<not> settled res f) fs)"
    by (rule bytes_of_mono) (auto simp: settled_def owned_by_def split: option.splits if_splits)
  also have "\<dots> \<le> bytes_of (filter (owned_by (fst e)) fs) + bytes_of (filter (\<lambda>f. \<not> settled res f) fs)" by (rule bytes_of_or)
  also have "\<dots> \<le> snd e + reserved_sum res" using Cons by (intro add_mono) auto
  finally show ?case by (simp add: reserved_sum_def)
qed

subsection \<open>The walk\<close>

definition entry_covers :: "scan_entry \<Rightarrow> disk_file \<Rightarrow> bool" where
  "entry_covers e f =
     (case e of ScFile p \<Rightarrow> df_path f = p
      | ScDir d \<Rightarrow> (case below d (df_path f) of Some (_ # _) \<Rightarrow> True | _ \<Rightarrow> False))"

definition covers :: "scan_frames \<Rightarrow> disk_file \<Rightarrow> bool" where
  "covers fr f \<longleftrightarrow> (\<exists>x\<in>set fr. \<exists>e\<in>set (fst x). entry_covers e f)"

definition frames_bytes :: "scan_frames \<Rightarrow> nat" where
  "frames_bytes fr = sum_list (map snd fr)"

definition missed :: "(disk_file \<Rightarrow> bool) \<Rightarrow> scan_frames \<Rightarrow> disk_file list \<Rightarrow> nat" where
  "missed P fr fs = bytes_of (filter (\<lambda>f. P f \<and> \<not> covers fr f) fs)"

definition seen_enough :: "(disk_file \<Rightarrow> bool) \<Rightarrow> scan_frames \<Rightarrow> disk_file list \<Rightarrow> bool" where
  "seen_enough P fr fs \<longleftrightarrow> BOARD_UPLOAD_TOTAL_QUOTA_BYTES < frames_bytes fr \<or> missed P fr fs \<le> frames_bytes fr"

lemma below_split: "below d p = Some r \<longleftrightarrow> p = d @ r"
  by (auto simp: below_def) (metis append_take_drop_id)

lemma dir_entries_cover:
  assumes f: "f \<in> set fs" and c: "entry_covers (ScDir d) f"
  shows "\<exists>e\<in>set (dir_entries d fs). entry_covers e f"
proof -
  obtain name r where b: "below d (df_path f) = Some (name # r)" using c by (auto simp: entry_covers_def split: option.splits list.splits)
  then have p: "df_path f = d @ name # r" by (simp add: below_split)
  obtain e where e: "dir_entry d f = Some e" "entry_covers e f"
  proof (cases r)
    case Nil
    then show thesis using that [of "ScFile (d @ [name])"] b p by (simp add: dir_entry_def entry_covers_def)
  next
    case (Cons n' r')
    then have "below (d @ [name]) (df_path f) = Some (n' # r')" using p by (simp add: below_split)
    then show thesis using that [of "ScDir (d @ [name])"] b Cons by (simp add: dir_entry_def entry_covers_def)
  qed
  have "e \<in> set (dir_entries d fs)" using e(1) f by (force simp: dir_entries_def List.map_filter_def)
  then show ?thesis using e(2) by blast
qed

lemma missed_mono: "(\<And>f. f \<in> set fs \<Longrightarrow> covers fr f \<Longrightarrow> covers fr' f) \<Longrightarrow> missed P fr' fs \<le> missed P fr fs"
  unfolding missed_def by (rule bytes_of_mono) auto

lemma file_size_bytes: "distinct (map df_path fs) \<Longrightarrow> file_size p fs = Some n \<Longrightarrow> bytes_of (filter (\<lambda>f. df_path f = p) fs) = n"
proof (induction fs)
  case (Cons f fs)
  show ?case
  proof (cases "df_path f = p")
    case True
    have "filter (\<lambda>f. df_path f = p) fs = []" using Cons.prems(1) True unfolding filter_empty_conv by (metis distinct.simps(2) image_eqI list.map(2) list.set_map)
    then show ?thesis using Cons.prems(2) True by (simp add: file_size_def)
  qed (use Cons in \<open>simp add: file_size_def\<close>)
qed (simp add: file_size_def)

lemma add_bytes_enough:
  assumes "seen_enough P ((es, b) # rest) fs"
  shows "seen_enough P (add_bytes es b # rest) fs"
proof (cases "BOARD_UPLOAD_TOTAL_QUOTA_BYTES < b")
  case True
  then show ?thesis by (simp add: seen_enough_def add_bytes_def frames_bytes_def)
qed (use assms in \<open>simp add: add_bytes_def\<close>)

lemma scan_goes:
  assumes d: "distinct (map df_path fs)" and go: "scan_advance fs fr = ScGoes fr'" and e: "seen_enough P fr fs"
  shows "seen_enough P fr' fs"
  using go e
proof (cases "(fs, fr)" rule: scan_advance.cases)
  case (3 fs' b es b' rest)
  have "seen_enough P ((es, b' + b) # rest) fs"
    using e 3 by (simp add: seen_enough_def frames_bytes_def missed_def covers_def add_ac)
  then show ?thesis using go 3 add_bytes_enough by auto
next
  case (4 fs' dir es b rest)
  then have fr': "fr' = (dir_entries dir fs, 0) # (es, b) # rest" using go by simp
  have "missed P fr' fs \<le> missed P fr fs"
    by (rule missed_mono) (use 4 dir_entries_cover in \<open>auto simp: covers_def fr'\<close>)
  moreover have "frames_bytes fr' = frames_bytes fr" using 4 by (simp add: frames_bytes_def fr')
  ultimately show ?thesis using e by (auto simp: seen_enough_def)
next
  case (5 fs' p es b rest)
  then obtain n where n: "file_size p fs = Some n" "fr' = add_bytes es (b + n) # rest" using go by (auto split: option.splits)
  have "missed P ((es, b + n) # rest) fs \<le> bytes_of (filter (\<lambda>f. P f \<and> \<not> covers fr f \<or> df_path f = p) fs)"
    unfolding missed_def by (rule bytes_of_mono) (use 5 in \<open>auto simp: covers_def entry_covers_def\<close>)
  also have "\<dots> \<le> missed P fr fs + n"
    unfolding missed_def file_size_bytes [OF d n(1), symmetric] by (rule bytes_of_or)
  finally have "missed P ((es, b + n) # rest) fs \<le> missed P fr fs + n" .
  moreover have "frames_bytes ((es, b + n) # rest) = frames_bytes fr + n" using 5 by (simp add: frames_bytes_def)
  ultimately have "seen_enough P ((es, b + n) # rest) fs" using e by (auto simp: seen_enough_def)
  then show ?thesis unfolding n(2) by (rule add_bytes_enough)
qed auto

lemma scan_done: "scan_advance fs fr = ScDone b \<Longrightarrow> seen_enough P fr fs \<Longrightarrow>
  BOARD_UPLOAD_TOTAL_QUOTA_BYTES < b \<or> bytes_of (filter P fs) \<le> b"
  by (cases "(fs, fr)" rule: scan_advance.cases) (auto simp: seen_enough_def missed_def frames_bytes_def covers_def split: option.splits)

lemma scan_starts: "\<forall>f\<in>set fs. df_path f \<noteq> [] \<Longrightarrow> seen_enough P [([ScDir []], 0)] fs"
proof -
  assume "\<forall>f\<in>set fs. df_path f \<noteq> []"
  then have "filter (\<lambda>f. P f \<and> \<not> covers [([ScDir []], 0)] f) fs = []"
    by (auto simp: filter_empty_conv covers_def entry_covers_def below_def neq_Nil_conv)
  then show ?thesis by (simp add: seen_enough_def missed_def)
qed

subsection \<open>The quota\<close>

definition owners_ok :: "upload_quota \<Rightarrow> bool" where
  "owners_ok s \<longleftrightarrow> jm_wf (uq_reservations s) \<and> distinct (map df_path (uq_disk s)) \<and> (\<forall>f\<in>set (uq_disk s). df_path f \<noteq> []) \<and>
     (\<forall>t b. map_of (uq_reservations s) t = Some b \<longrightarrow> t < uq_nextToken s) \<and>
     (\<forall>f\<in>set (uq_disk s). \<forall>t. df_owner f = Some t \<longrightarrow> t < uq_nextToken s) \<and>
     (\<forall>t b. map_of (uq_reservations s) t = Some b \<longrightarrow> bytes_of (filter (owned_by t) (uq_disk s)) \<le> b) \<and>
     (\<forall>t. length (filter (owned_by t) (uq_disk s)) \<le> 1)"

definition settled_bytes :: "upload_quota \<Rightarrow> nat" where
  "settled_bytes s = bytes_of (filter (settled (uq_reservations s)) (uq_disk s))"

definition scans_ok :: "upload_quota \<Rightarrow> bool" where
  "scans_ok s \<longleftrightarrow> uq_lastScannedVersion s \<le> uq_invalidationVersion s \<and>
     (uq_lastScannedVersion s = uq_invalidationVersion s \<longrightarrow>
        BOARD_UPLOAD_TOTAL_QUOTA_BYTES < uq_diskBytes s \<or> settled_bytes s \<le> uq_diskBytes s) \<and>
     (\<forall>sc. uq_scanPromise s = Some sc \<longrightarrow> qs_version sc \<le> uq_invalidationVersion s \<and>
        (qs_version sc = uq_invalidationVersion s \<longrightarrow> seen_enough (settled (uq_reservations s)) (qs_frames sc) (uq_disk s)))"

definition quota_inv :: "nat \<Rightarrow> upload_quota \<Rightarrow> bool" where
  "quota_inv m s \<longleftrightarrow> owners_ok s \<and> scans_ok s \<and> uq_reservedBytes s = reserved_sum (uq_reservations s) \<and>
     settled_bytes s + uq_reservedBytes s \<le> max m BOARD_UPLOAD_TOTAL_QUOTA_BYTES"

lemma quota_frame:
  "quota_inv m s \<Longrightarrow> uq_disk s' = uq_disk s \<Longrightarrow> uq_reservations s' = uq_reservations s \<Longrightarrow> uq_reservedBytes s' = uq_reservedBytes s \<Longrightarrow>
   uq_nextToken s' = uq_nextToken s \<Longrightarrow> scans_ok s' \<Longrightarrow> quota_inv m s'"
  by (simp add: quota_inv_def owners_ok_def settled_bytes_def)

lemma scans_frame:
  "scans_ok s \<Longrightarrow> uq_disk s' = uq_disk s \<Longrightarrow> uq_reservations s' = uq_reservations s \<Longrightarrow> uq_diskBytes s' = uq_diskBytes s \<Longrightarrow>
   uq_lastScannedVersion s' = uq_lastScannedVersion s \<Longrightarrow> uq_invalidationVersion s' = uq_invalidationVersion s \<Longrightarrow>
   uq_scanPromise s' = uq_scanPromise s \<Longrightarrow> scans_ok s'"
  by (simp add: scans_ok_def settled_bytes_def)

lemma quota_scans: "quota_inv m s \<Longrightarrow> scans_ok s"
  by (simp add: quota_inv_def)

lemma quota_same:
  "quota_inv m s \<Longrightarrow> uq_disk s' = uq_disk s \<Longrightarrow> uq_reservations s' = uq_reservations s \<Longrightarrow> uq_reservedBytes s' = uq_reservedBytes s \<Longrightarrow>
   uq_nextToken s' = uq_nextToken s \<Longrightarrow> uq_diskBytes s' = uq_diskBytes s \<Longrightarrow>
   uq_lastScannedVersion s' = uq_lastScannedVersion s \<Longrightarrow> uq_invalidationVersion s' = uq_invalidationVersion s \<Longrightarrow>
   uq_scanPromise s' = uq_scanPromise s \<Longrightarrow> quota_inv m s'"
  by (rule quota_frame, assumption+, rule scans_frame [OF quota_scans], assumption+)

lemma quota_owners: "quota_inv m s \<Longrightarrow> owners_ok s"
  by (simp add: quota_inv_def)

lemma answer_quota: "quota_inv m s \<Longrightarrow> quota_inv m (quota_answer i a s)"
  by (erule quota_same) (simp_all add: quota_answer_def)

text \<open>A new version: what is known of the disk no longer counts.\<close>

lemma scans_older:
  "scans_ok s \<Longrightarrow> uq_lastScannedVersion s' = uq_lastScannedVersion s \<Longrightarrow> uq_scanPromise s' = uq_scanPromise s \<Longrightarrow>
   uq_invalidationVersion s' = uq_invalidationVersion s + 1 \<Longrightarrow> scans_ok s'"
  by (auto simp: scans_ok_def)

lemma invalidate_quota: "quota_inv m s \<Longrightarrow> quota_inv m (quota_invalidate s)"
  by (rule quota_frame, assumption) (simp_all add: quota_invalidate_def scans_older [OF quota_scans])

lemma release_quota:
  assumes inv: "quota_inv m s"
  shows "quota_inv m (quota_release token s)"
proof (cases "\<exists>t b. token = Some t \<and> map_of (uq_reservations s) t = Some b")
  case False
  then show ?thesis using inv by (auto simp: quota_release_def split: option.split)
next
  case True
  then obtain t b where t: "token = Some t" "map_of (uq_reservations s) t = Some b" by blast
  define s' where "s' = quota_release token s"
  have o: "owners_ok s" by (rule quota_owners [OF inv])
  have e: "uq_disk s' = uq_disk s" "uq_reservations s' = AList.delete t (uq_reservations s)" "uq_nextToken s' = uq_nextToken s"
    "uq_reservedBytes s' = uq_reservedBytes s - b" "uq_lastScannedVersion s' = uq_lastScannedVersion s"
    "uq_scanPromise s' = uq_scanPromise s" "uq_invalidationVersion s' = uq_invalidationVersion s + 1"
    using t by (simp_all add: s'_def quota_release_def quota_invalidate_def)
  have wf: "jm_wf (uq_reservations s)" using o by (simp add: owners_ok_def)
  have own: "bytes_of (filter (owned_by t) (uq_disk s)) \<le> b" using o t(2) by (simp add: owners_ok_def)
  have "settled_bytes s' \<le> bytes_of (filter (\<lambda>f. settled (uq_reservations s) f \<or> owned_by t f) (uq_disk s))"
    unfolding settled_bytes_def e by (rule bytes_of_mono) (auto simp: settled_def owned_by_def split: option.splits if_splits)
  also have "\<dots> \<le> settled_bytes s + bytes_of (filter (owned_by t) (uq_disk s))" unfolding settled_bytes_def by (rule bytes_of_or)
  finally have sb: "settled_bytes s' \<le> settled_bytes s + b" using own by simp
  have rs: "reserved_sum (uq_reservations s) = b + reserved_sum (uq_reservations s')"
    unfolding e(2) by (rule reserved_delete [OF wf t(2)])
  have "scans_ok s'" by (rule scans_older [OF quota_scans [OF inv]]) (simp_all add: e)
  moreover have "owners_ok s'" using o by (auto simp: owners_ok_def e)
  ultimately have "quota_inv m s'" using inv sb rs by (auto simp: quota_inv_def e)
  then show ?thesis by (simp add: s'_def)
qed

lemma settled_new:
  assumes o: "owners_ok s" and f: "f \<in> set (uq_disk s)"
  shows "settled (AList.update (uq_nextToken s) b (uq_reservations s)) f = settled (uq_reservations s) f"
proof -
  have "df_owner f \<noteq> Some (uq_nextToken s)" using o f by (auto simp: owners_ok_def)
  then show ?thesis by (auto simp: settled_def split: option.split)
qed

lemma reserve_quota:
  assumes inv: "quota_inv m s" and fresh: "\<not> quota_stale now s"
  shows "quota_inv m (snd (reserve_bytes r s)) \<and> quota_stale now (snd (reserve_bytes r s)) = quota_stale now s"
proof (cases "BOARD_UPLOAD_TOTAL_QUOTA_BYTES < uq_diskBytes s + uq_reservedBytes s + ur_bytes r")
  case True
  then show ?thesis using inv by (simp add: reserve_bytes_def)
next
  case False
  define s1 where "s1 = s\<lparr>uq_nextToken := uq_nextToken s + 1, uq_reservations := AList.update (uq_nextToken s) (ur_bytes r) (uq_reservations s),
      uq_reservedBytes := uq_reservedBytes s + ur_bytes r\<rparr>"
  have o: "owners_ok s" by (rule quota_owners [OF inv])
  have none: "map_of (uq_reservations s) (uq_nextToken s) = None" using o by (cases "map_of (uq_reservations s) (uq_nextToken s)") (auto simp: owners_ok_def)
  have unowned: "filter (owned_by (uq_nextToken s)) (uq_disk s) = []" using o by (auto simp: owners_ok_def owned_by_def filter_empty_conv)
  have eq: "filter (settled (uq_reservations s1)) (uq_disk s) = filter (settled (uq_reservations s)) (uq_disk s)"
    by (rule filter_cong [OF refl]) (simp add: s1_def settled_new [OF o])
  have sb: "settled_bytes s1 = settled_bytes s" unfolding settled_bytes_def eq [symmetric] by (simp add: s1_def)
  have enough: "seen_enough (settled (uq_reservations s1)) fr (uq_disk s) = seen_enough (settled (uq_reservations s)) fr (uq_disk s)" for fr
  proof -
    have "filter (\<lambda>f. settled (uq_reservations s1) f \<and> \<not> covers fr f) (uq_disk s) = filter (\<lambda>f. settled (uq_reservations s) f \<and> \<not> covers fr f) (uq_disk s)"
      by (rule filter_cong [OF refl]) (simp add: s1_def settled_new [OF o])
    then show ?thesis by (simp add: seen_enough_def missed_def)
  qed
  have "settled_bytes s \<le> uq_diskBytes s"
    using quota_scans [OF inv] fresh False by (auto simp: quota_stale_def scans_ok_def)
  then have "settled_bytes s1 + uq_reservedBytes s1 \<le> max m BOARD_UPLOAD_TOTAL_QUOTA_BYTES" using False by (simp add: sb) (simp add: s1_def)
  moreover have "scans_ok s1" using quota_scans [OF inv] enough sb by (simp add: scans_ok_def) (simp add: s1_def)
  moreover have "owners_ok s1" using o unowned by (auto simp: owners_ok_def s1_def less_Suc_eq)
  moreover have "uq_reservedBytes s1 = reserved_sum (uq_reservations s1)" using inv reserved_new [OF none] by (simp add: quota_inv_def s1_def)
  ultimately have i1: "quota_inv m s1" by (simp add: quota_inv_def)
  show ?thesis using False i1 by (simp add: reserve_bytes_def s1_def quota_stale_def)
qed

lemma wait_quota:
  assumes inv: "quota_inv m s"
  shows "quota_inv m (wait_for_scan r s)"
proof (rule quota_frame [OF inv])
  have "\<forall>f\<in>set (uq_disk s). df_path f \<noteq> []" using quota_owners [OF inv] by (simp add: owners_ok_def)
  then show "scans_ok (wait_for_scan r s)"
    using quota_scans [OF inv] scan_starts by (auto simp: scans_ok_def wait_for_scan_def settled_bytes_def split: option.split)
qed (simp_all add: wait_for_scan_def)

lemma reserve_answer_quota: "quota_inv m s \<Longrightarrow> quota_inv m (reserve_answer rt s)"
  by (cases rt) (auto simp: reserve_answer_def answer_quota release_quota split: option.split)

lemma quota_reserve_inv: "quota_inv m s \<Longrightarrow> quota_inv m (quota_reserve now r s)"
  using reserve_quota [of m s now r] by (auto simp: quota_reserve_def wait_quota reserve_answer_quota split: prod.split)

lemma reserve_all_quota:
  "quota_inv m s \<Longrightarrow> \<not> quota_stale now s \<Longrightarrow> quota_inv m (snd (reserve_all rs s))"
proof (induction rs arbitrary: s)
  case (Cons r rs)
  obtain t s1 where r: "reserve_bytes r s = (t, s1)" by (cases "reserve_bytes r s")
  have "quota_inv m s1 \<and> quota_stale now s1 = quota_stale now s" using reserve_quota [OF Cons.prems, of r] by (simp add: r)
  then have "quota_inv m (snd (reserve_all rs s1))" using Cons by simp
  then show ?case by (auto simp: r split: prod.split)
qed simp

lemma waits_quota: "quota_inv m s \<Longrightarrow> quota_inv m (fold wait_for_scan rs s)"
  by (induction rs arbitrary: s) (simp_all add: wait_quota)

lemma reserve_answers_quota: "quota_inv m s \<Longrightarrow> quota_inv m (fold reserve_answer ts s)"
  by (induction ts arbitrary: s) (simp_all add: reserve_answer_quota)

lemma reserves_quota: "quota_inv m s \<Longrightarrow> quota_inv m (resume_all now rs s)"
  using reserve_all_quota [of m s now rs] by (auto simp: resume_all_def waits_quota reserve_answers_quota split: prod.split)

lemma answers_quota: "quota_inv m s \<Longrightarrow> quota_inv m (fold (\<lambda>r. quota_answer (ur_id r) a) rs s)"
  by (induction rs arbitrary: s) (simp_all add: answer_quota)

lemma guard_quota:
  assumes inv: "quota_inv m s"
  shows "quota_inv m (upload_guard now key event bytes limit width s)"
proof -
  have "quota_inv m (s\<lparr>uq_next := uq_next s + 1, uq_buckets := b\<rparr>)" for b by (rule quota_same [OF inv]) simp_all
  then show ?thesis by (auto simp: upload_guard_def Let_def answer_quota quota_reserve_inv split: prod.split bool.split)
qed

lemma scan_failed_quota:
  assumes inv: "quota_inv m s"
  shows "quota_inv m (scan_failed s)"
  unfolding scan_failed_def
  by (rule answers_quota, rule quota_frame [OF inv]) (use quota_scans [OF inv] in \<open>simp_all add: scans_ok_def settled_bytes_def\<close>)

lemma scan_step_quota:
  assumes inv: "quota_inv m s"
  shows "quota_inv m (scan_step now ok s)"
proof (cases "uq_scanPromise s")
  case (Some sc)
  have d: "distinct (map df_path (uq_disk s))" using quota_owners [OF inv] by (simp add: owners_ok_def)
  have e: "qs_version sc \<le> uq_invalidationVersion s"
    "qs_version sc = uq_invalidationVersion s \<Longrightarrow> seen_enough (settled (uq_reservations s)) (qs_frames sc) (uq_disk s)"
    using quota_scans [OF inv] Some by (simp_all add: scans_ok_def)
  show ?thesis
  proof (cases "scan_advance (uq_disk s) (qs_frames sc)")
    case (ScGoes fr)
    have "quota_inv m (s\<lparr>uq_scanPromise := Some (sc\<lparr>qs_frames := fr\<rparr>)\<rparr>)"
      by (rule quota_frame [OF inv])
        (use quota_scans [OF inv] e scan_goes [OF d ScGoes] in \<open>simp_all add: scans_ok_def settled_bytes_def\<close>)
    then show ?thesis using Some ScGoes scan_failed_quota [OF inv] by (simp add: scan_step_def)
  next
    case (ScDone b)
    have "quota_inv m (s\<lparr>uq_diskBytes := b, uq_lastScannedVersion := qs_version sc,
        uq_lastScanAt := (if qs_version sc = uq_invalidationVersion s then now else 0), uq_scanPromise := None, uq_waiting := []\<rparr>)"
      by (rule quota_frame [OF inv]) (use e scan_done [OF ScDone] in \<open>simp_all add: scans_ok_def settled_bytes_def\<close>)
    then show ?thesis using Some ScDone scan_failed_quota [OF inv] by (simp add: scan_step_def scan_finished_def reserves_quota)
  next
    case ScFailed
    then show ?thesis using Some scan_failed_quota [OF inv] by (simp add: scan_step_def)
  qed
qed (simp add: scan_step_def inv)

text \<open>The disk changes: files that nobody writes only go.\<close>

lemma disk_quota:
  assumes inv: "quota_inv m s" and o: "owners_ok (s\<lparr>uq_disk := fs\<rparr>)"
    and less: "\<And>P. (\<And>f. P f \<Longrightarrow> settled (uq_reservations s) f) \<Longrightarrow> (\<And>f n. P (f\<lparr>df_size := n\<rparr>) = P f) \<Longrightarrow>
      bytes_of (filter P fs) \<le> bytes_of (filter P (uq_disk s))"
  shows "quota_inv m (s\<lparr>uq_disk := fs\<rparr>)"
proof -
  have sized: "settled res (f\<lparr>df_size := n\<rparr>) = settled res f" "covers fr (f\<lparr>df_size := n\<rparr>) = covers fr f" for res fr f n
    by (auto simp: settled_def covers_def entry_covers_def split: scan_entry.split)
  have sb: "settled_bytes (s\<lparr>uq_disk := fs\<rparr>) \<le> settled_bytes s"
    using less [of "settled (uq_reservations s)"] by (simp add: settled_bytes_def sized)
  have "missed (settled (uq_reservations s)) fr fs \<le> missed (settled (uq_reservations s)) fr (uq_disk s)" for fr
    unfolding missed_def by (rule less) (simp_all add: sized)
  then have "seen_enough (settled (uq_reservations s)) fr (uq_disk s) \<Longrightarrow> seen_enough (settled (uq_reservations s)) fr fs" for fr
    by (auto simp: seen_enough_def intro: order_trans)
  then have "scans_ok (s\<lparr>uq_disk := fs\<rparr>)" using quota_scans [OF inv] sb by (auto simp: scans_ok_def)
  then show ?thesis using inv o sb by (simp add: quota_inv_def)
qed

lemma delete_quota:
  assumes inv: "quota_inv m s"
  shows "quota_inv m (upload_delete p s)"
  unfolding upload_delete_def
proof (rule disk_quota [OF inv])
  have o: "owners_ok s" by (rule quota_owners [OF inv])
  have "length (filter (owned_by t) (filter (\<lambda>f. df_path f \<noteq> p) (uq_disk s))) \<le> length (filter (owned_by t) (uq_disk s))" for t
    by (rule length_sub)
  then have one: "length (filter (owned_by t) (filter (\<lambda>f. df_path f \<noteq> p) (uq_disk s))) \<le> 1" for t
    using o unfolding owners_ok_def by (meson order_trans)
  have "bytes_of (filter (owned_by t) (filter (\<lambda>f. df_path f \<noteq> p) (uq_disk s))) \<le> b" if "map_of (uq_reservations s) t = Some b" for t b
    using o that bytes_of_sub [of "owned_by t" "\<lambda>f. df_path f \<noteq> p" "uq_disk s"] unfolding owners_ok_def by (meson order_trans)
  then show "owners_ok (s\<lparr>uq_disk := filter (\<lambda>f. df_path f \<noteq> p) (uq_disk s)\<rparr>)"
    using o one by (auto simp: owners_ok_def distinct_map_filter)
qed (rule bytes_of_sub)

lemma filter_resize: "(\<And>f n. P (f\<lparr>df_size := n\<rparr>) = P f) \<Longrightarrow> (\<And>f. P f \<Longrightarrow> \<not> owned_by t f) \<Longrightarrow>
  filter P (map (\<lambda>f. if owned_by t f then f\<lparr>df_size := n\<rparr> else f) fs) = filter P fs"
  by (induction fs) auto

lemma owned_resize: "owned_by t' (f\<lparr>df_size := n\<rparr>) = owned_by t' f"
  by (simp add: owned_by_def)

lemma write_quota:
  assumes inv: "quota_inv m s"
  shows "quota_inv m (upload_write t p n s)"
proof (cases "map_of (uq_reservations s) t")
  case None
  then show ?thesis using inv by (simp add: upload_write_def)
next
  case (Some b)
  have o: "owners_ok s" by (rule quota_owners [OF inv])
  have live: "settled (uq_reservations s) f \<Longrightarrow> \<not> owned_by t f" for f using Some by (auto simp: settled_def owned_by_def)
  have grow: "quota_inv m (s\<lparr>uq_disk := map (\<lambda>f. if owned_by t f then f\<lparr>df_size := n\<rparr> else f) (uq_disk s)\<rparr>)" if n: "n \<le> b"
  proof (rule disk_quota [OF inv])
    let ?g = "\<lambda>f. if owned_by t f then f\<lparr>df_size := n\<rparr> else f"
    have f: "filter (owned_by t') (map ?g fs) = map ?g (filter (owned_by t') fs)" for t' fs
      by (induction fs) (auto simp: owned_resize)
    have bytes: "bytes_of (filter (owned_by t') (map ?g (uq_disk s))) \<le> b'" if b': "map_of (uq_reservations s) t' = Some b'" for t' b'
    proof (cases "t' = t")
      case True
      have "length (filter (owned_by t) (uq_disk s)) \<le> 1" using o by (simp add: owners_ok_def)
      then have "bytes_of (map ?g (filter (owned_by t) (uq_disk s))) \<le> n"
        by (cases "filter (owned_by t) (uq_disk s)") (use filter_set [of "owned_by t" "uq_disk s"] in \<open>auto simp: owned_by_def\<close>)
      then show ?thesis unfolding f using True b' n Some by simp
    next
      case False
      then have "map ?g (filter (owned_by t') (uq_disk s)) = filter (owned_by t') (uq_disk s)"
        by (intro map_idI) (auto simp: owned_by_def)
      then show ?thesis unfolding f using o b' by (simp add: owners_ok_def)
    qed
    have "map df_path (map ?g (uq_disk s)) = map df_path (uq_disk s)" by simp
    then show "owners_ok (s\<lparr>uq_disk := map ?g (uq_disk s)\<rparr>)"
      using o bytes f by (auto simp: owners_ok_def simp del: map_map)
  next
    fix P assume P: "\<And>f. P f \<Longrightarrow> settled (uq_reservations s) f" "\<And>f n. P (f\<lparr>df_size := n\<rparr>) = P f"
    show "bytes_of (filter P (map (\<lambda>f. if owned_by t f then f\<lparr>df_size := n\<rparr> else f) (uq_disk s))) \<le> bytes_of (filter P (uq_disk s))"
      using filter_resize [of P t n "uq_disk s", OF P(2)] P(1) live by simp
  qed
  have new: "quota_inv m (s\<lparr>uq_disk := uq_disk s @ [\<lparr>df_path = p, df_size = n, df_owner = Some t\<rparr>]\<rparr>)"
    if n: "n \<le> b" and p: "p \<noteq> []" "\<not> list_ex (\<lambda>f. df_path f = p) (uq_disk s)" and own: "\<not> list_ex (owned_by t) (uq_disk s)"
  proof (rule disk_quota [OF inv])
    have "filter (owned_by t) (uq_disk s) = []" using own by (simp add: list_ex_iff filter_empty_conv)
    moreover have "t < uq_nextToken s" using o Some by (simp add: owners_ok_def)
    ultimately show "owners_ok (s\<lparr>uq_disk := uq_disk s @ [\<lparr>df_path = p, df_size = n, df_owner = Some t\<rparr>]\<rparr>)"
      using o n p Some by (auto simp: owners_ok_def list_ex_iff owned_by_def)
  next
    fix P :: "disk_file \<Rightarrow> bool" assume P: "\<And>f. P f \<Longrightarrow> settled (uq_reservations s) f"
    have "owned_by t \<lparr>df_path = p, df_size = n, df_owner = Some t\<rparr>" by (simp add: owned_by_def)
    then have "\<not> P \<lparr>df_path = p, df_size = n, df_owner = Some t\<rparr>" using live P by blast
    then show "bytes_of (filter P (uq_disk s @ [\<lparr>df_path = p, df_size = n, df_owner = Some t\<rparr>])) \<le> bytes_of (filter P (uq_disk s))" by simp
  qed
  show ?thesis using Some inv grow new by (auto simp: upload_write_def owned_by_def [abs_def])
qed

lemma quota_exec_inv:
  assumes inv: "quota_inv m s"
  shows "quota_inv m (quota_exec now op s)"
proof (cases op)
  case (QoBoardUpload user)
  have "quota_inv m (s\<lparr>uq_next := uq_next s + 1\<rparr>)" by (rule quota_same [OF inv]) simp_all
  then show ?thesis using guard_quota [OF inv] by (simp add: QoBoardUpload quota_exec_def board_upload_guard_def answer_quota split: option.split)
next
  case (QoBackgroundUpload user)
  have "quota_inv m (s\<lparr>uq_next := uq_next s + 1\<rparr>)" by (rule quota_same [OF inv]) simp_all
  then show ?thesis using guard_quota [OF inv]
    by (simp add: QoBackgroundUpload quota_exec_def background_upload_guard_def answer_quota split: option.split)
next
  case (QoGone i)
  show ?thesis by (rule quota_same [OF inv]) (simp_all add: QoGone quota_exec_def upload_gone_def)
qed (use inv in \<open>simp_all add: quota_exec_def scan_step_quota write_quota release_quota delete_quota invalidate_quota upload_end_def\<close>)

lemma quota_inv_run: "quota_inv m s \<Longrightarrow> quota_inv m (quota_run now ops s)"
proof (induction ops arbitrary: now s)
  case (Cons o' ops)
  then show ?case by (cases o') (simp add: quota_exec_inv)
qed simp

end
