(* ===== verification/UploadFiles.thy ===== *)
theory UploadFiles
  imports OperationElements
begin

text \<open>
  The names of uploaded files: \<open>boards/board-upload.options.ts\<close>, \<open>board-image-files.ts\<close>,
  \<open>operation-boards/operation-board-background-files.ts\<close> and the pure part of \<open>boards/upload-orphan-scan.ts\<close>. What is deleted
  is recognised strictly, what protects a file is recognised generously. \<open>path.resolve\<close> of a name without a separator that is
  not a dot name is the name in the directory.
\<close>

datatype upload_folder = FoBoards | FoBackgrounds

definition BOARD_UPLOAD_URL_PREFIX :: string where
  "BOARD_UPLOAD_URL_PREFIX = ''/uploads/boards/''"

definition upload_exts :: "upload_folder \<Rightarrow> string list" where
  "upload_exts fo = (case fo of FoBoards \<Rightarrow> [''jpg'', ''png'', ''gif'', ''webp''] | FoBackgrounds \<Rightarrow> [''jpg'', ''png'', ''webp''])"

definition upload_prefix :: "upload_folder \<Rightarrow> string" where
  "upload_prefix fo = (case fo of FoBoards \<Rightarrow> BOARD_UPLOAD_URL_PREFIX | FoBackgrounds \<Rightarrow> OPERATION_BOARD_BACKGROUND_URL_PREFIX)"

definition upload_name_ok :: "upload_folder \<Rightarrow> jstring \<Rightarrow> bool" where
  "upload_name_ok fo s \<longleftrightarrow> list_ex (\<lambda>ext. list_all2 (\<lambda>p u. p u) (background_file_name ext) s) (upload_exts fo)"

definition upload_url_ok :: "upload_folder \<Rightarrow> jstring \<Rightarrow> bool" where
  "upload_url_ok fo s \<longleftrightarrow> list_ex (\<lambda>ext. list_all2 (\<lambda>p u. p u) (fold_lit (upload_prefix fo) @ background_file_name ext) s) (upload_exts fo)"

text \<open>The two layers of \<open>resolveBoardImageFilePath\<close> and its counterpart: the pattern, and the parent of the resolved path.\<close>

definition direct_child :: "jstring \<Rightarrow> bool" where
  "direct_child s \<longleftrightarrow> s \<noteq> [] \<and> 47 \<notin> set s \<and> s \<noteq> lit ''.'' \<and> s \<noteq> lit ''..''"

definition resolve_upload :: "upload_folder \<Rightarrow> jsval \<Rightarrow> jstring option" where
  "resolve_upload fo v =
     (case v of JStr s \<Rightarrow> if \<not> upload_name_ok fo s then None else if \<not> direct_child s then None else Some s | _ \<Rightarrow> None)"

text \<open>\<open>boardImageFileNameFromUrl\<close>, \<open>operationBoardBackgroundFileNameFromUrl\<close>.\<close>

definition name_from_url :: "upload_folder \<Rightarrow> jsval \<Rightarrow> jstring option" where
  "name_from_url fo v =
     (case v of JStr s \<Rightarrow> if upload_url_ok fo s then Some (drop (length (upload_prefix fo)) s) else None | _ \<Rightarrow> None)"

text \<open>The generous reading: before the query, trimmed, after the last separator.\<close>

definition after_last :: "(nat \<Rightarrow> bool) \<Rightarrow> jstring \<Rightarrow> jstring" where
  "after_last sep s = rev (takeWhile (\<lambda>u. \<not> sep u) (rev s))"

definition is_path_sep :: "nat \<Rightarrow> bool" where
  "is_path_sep u \<longleftrightarrow> u = 47 \<or> u = 92"

definition referencedUploadFileName :: "jsval \<Rightarrow> jstring option" where
  "referencedUploadFileName v =
     (case v of
        JStr s \<Rightarrow>
          (let withoutQuery = js_trim (takeWhile (\<lambda>u. u \<noteq> 63 \<and> u \<noteq> 35) s);
               fileName = after_last is_path_sep withoutQuery
           in if fileName = [] then None else Some fileName)
      | _ \<Rightarrow> None)"

subsection \<open>Reports\<close>

record deletion_summary =
  ds_deleted :: "jstring list"
  ds_missing :: "jstring list"
  ds_failed :: "jstring list"
  ds_rejected :: "jsval list"

definition emptyUploadDeletionSummary :: deletion_summary where
  "emptyUploadDeletionSummary = \<lparr>ds_deleted = [], ds_missing = [], ds_failed = [], ds_rejected = []\<rparr>"

record upload_orphan =
  uo_fileName :: jstring
  uo_bytes :: nat
  uo_modifiedAt :: millis

record orphan_report =
  or_graceMs :: millis
  or_scannedFiles :: nat
  or_referencedFiles :: nat
  or_skippedRecent :: nat
  or_skippedUnrecognized :: "jstring list"
  or_orphans :: "upload_orphan list"
  or_orphanBytes :: nat

definition UPLOAD_ORPHAN_GRACE_MS :: millis where "UPLOAD_ORPHAN_GRACE_MS = 30 * 60 * 1000"

definition emptyUploadOrphanReport :: orphan_report where
  "emptyUploadOrphanReport =
     \<lparr>or_graceMs = UPLOAD_ORPHAN_GRACE_MS, or_scannedFiles = 0, or_referencedFiles = 0, or_skippedRecent = 0,
      or_skippedUnrecognized = [], or_orphans = [], or_orphanBytes = 0\<rparr>"

subsection \<open>Names that pass are names in the directory\<close>

definition plain_name :: "jstring \<Rightarrow> bool" where
  "plain_name s \<longleftrightarrow> s \<noteq> [] \<and> list_all (\<lambda>u. js_digit u \<or> u = 45 \<or> u = 46 \<or> (97 \<le> ascii_lower u \<and> ascii_lower u \<le> 122)) s"

lemma matched_units:
  "list_all2 (\<lambda>p u. p u) ps s \<Longrightarrow> (\<And>p u. p \<in> set ps \<Longrightarrow> p u \<Longrightarrow> Q u) \<Longrightarrow> list_all Q s"
  by (induction ps s rule: list_all2_induct) auto

lemma fold_lit_unit: "p \<in> set (fold_lit s) \<Longrightarrow> p u \<Longrightarrow> \<exists>c\<in>set s. ascii_lower u = ascii_lower (of_char c)"
  by (auto simp: fold_lit_def lit_def)

lemma name_classes: "p \<in> set (background_file_name ext) \<Longrightarrow> p = js_digit \<or> p = hex_digit \<or> p \<in> set (fold_lit (''-.'' @ ext))"
  by (auto simp: background_file_name_def fold_lit_def lit_def)

lemma name_units:
  assumes p: "p \<in> set (background_file_name ext)" "p u" and ext: "ext \<in> {''jpg'', ''png'', ''gif'', ''webp''}"
  shows "js_digit u \<or> u = 45 \<or> u = 46 \<or> (97 \<le> ascii_lower u \<and> ascii_lower u \<le> 122)"
proof -
  consider "js_digit u" | "hex_digit u" | "p \<in> set (fold_lit (''-.'' @ ext))" using name_classes [OF p(1)] p(2) by blast
  then show ?thesis
  proof cases
    case 2
    then show ?thesis by (auto simp: hex_digit_def)
  next
    case 3
    then obtain c where c: "c \<in> set (''-.'' @ ext)" "ascii_lower u = ascii_lower (of_char c)" using fold_lit_unit p(2) by blast
    have "ascii_lower (of_char c) \<in> {45, 46} \<or> (97 \<le> ascii_lower (of_char c) \<and> ascii_lower (of_char c) \<le> (122 :: nat))"
      using c(1) ext by (elim insertE emptyE) (auto simp: ascii_lower_def)
    then show ?thesis using c(2) by (auto simp: ascii_lower_def split: if_splits)
  qed auto
qed

lemma exts_known: "ext \<in> set (upload_exts fo) \<Longrightarrow> ext \<in> {''jpg'', ''png'', ''gif'', ''webp''}"
  by (auto simp: upload_exts_def split: upload_folder.splits)

lemma name_plain:
  assumes "upload_name_ok fo s"
  shows "plain_name s \<and> 30 < length s"
proof -
  obtain ext where e: "ext \<in> set (upload_exts fo)" "list_all2 (\<lambda>p u. p u) (background_file_name ext) s"
    using assms by (auto simp: upload_name_ok_def list_ex_iff)
  have "30 < length (background_file_name ext)" by (simp add: background_file_name_def fold_lit_def)
  then have "30 < length s" using e(2) by (simp add: list_all2_lengthD)
  moreover have "list_all (\<lambda>u. js_digit u \<or> u = 45 \<or> u = 46 \<or> (97 \<le> ascii_lower u \<and> ascii_lower u \<le> 122)) s"
    by (rule matched_units [OF e(2)]) (rule name_units [OF _ _ exts_known [OF e(1)]])
  ultimately show ?thesis by (auto simp: plain_name_def)
qed

lemma plain_chars: "plain_name s \<Longrightarrow> u \<in> set s \<Longrightarrow> u \<noteq> 47 \<and> u \<noteq> 92 \<and> u \<noteq> 63 \<and> u \<noteq> 35 \<and> \<not> js_space u"
  by (auto simp: plain_name_def list_all_iff js_digit_def ascii_lower_def js_space_def split: if_splits)

lemma resolve_name: "resolve_upload fo (JStr s) = (if upload_name_ok fo s then Some s else None)"
proof -
  have "direct_child s" if "upload_name_ok fo s"
  proof -
    have "plain_name s" "30 < length s" using name_plain [OF that] by auto
    then show ?thesis using plain_chars by (auto simp: direct_child_def)
  qed
  then show ?thesis by (simp add: resolve_upload_def)
qed

lemma url_split:
  assumes "upload_url_ok fo s"
  obtains pre n where "s = pre @ n" "length pre = length (upload_prefix fo)" "upload_name_ok fo n" "last pre = 47" "hd pre = 47" "pre \<noteq> []"
    "list_all (\<lambda>u. u \<noteq> 63 \<and> u \<noteq> 35) pre"
proof -
  obtain ext where e: "ext \<in> set (upload_exts fo)" "list_all2 (\<lambda>p u. p u) (fold_lit (upload_prefix fo) @ background_file_name ext) s"
    using assms by (auto simp: upload_url_ok_def list_ex_iff)
  then obtain pre n where s: "s = pre @ n" "list_all2 (\<lambda>p u. p u) (fold_lit (upload_prefix fo)) pre" "list_all2 (\<lambda>p u. p u) (background_file_name ext) n"
    by (auto simp: list_all2_append1)
  have "length pre = length (upload_prefix fo)" using s(2) by (simp add: list_all2_lengthD [symmetric] fold_lit_def)
  moreover have "upload_name_ok fo n" using e(1) s(3) by (auto simp: upload_name_ok_def list_ex_iff)
  moreover have "last pre = 47 \<and> hd pre = 47 \<and> pre \<noteq> [] \<and> list_all (\<lambda>u. u \<noteq> 63 \<and> u \<noteq> 35) pre"
  proof -
    have ends: "last (upload_prefix fo) = CHR ''/''" "hd (upload_prefix fo) = CHR ''/''" "upload_prefix fo \<noteq> []"
      "list_all (\<lambda>c. of_char c \<noteq> (63 :: nat) \<and> of_char c \<noteq> (35 :: nat)) (upload_prefix fo)"
      by (auto simp: upload_prefix_def BOARD_UPLOAD_URL_PREFIX_def OPERATION_BOARD_BACKGROUND_URL_PREFIX_def split: upload_folder.split)
    have l: "length pre = length (upload_prefix fo)" using s(2) by (simp add: list_all2_lengthD [symmetric] fold_lit_def)
    have at: "ascii_lower (pre ! i) = ascii_lower (of_char (upload_prefix fo ! i))" if "i < length pre" for i
      using list_all2_nthD [OF s(2), of i] that l by (simp add: fold_lit_def lit_def)
    have slash: "ascii_lower u = ascii_lower (of_char (CHR ''/'')) \<Longrightarrow> u = 47" for u by (auto simp: ascii_lower_def split: if_splits)
    have ne: "pre \<noteq> []" using l ends(3) by auto
    have "last pre = 47"
      using at [of "length pre - 1"] ends(1) slash unfolding last_conv_nth [OF ne] last_conv_nth [OF ends(3)] l using ends(3) by simp
    moreover have "hd pre = 47" using at [of 0] ends(2,3) ne slash by (simp add: hd_conv_nth)
    moreover have "u \<noteq> 63 \<and> u \<noteq> 35" if u: "u \<in> set pre" for u
    proof -
      obtain i where i: "i < length pre" "u = pre ! i" using u by (auto simp: in_set_conv_nth)
      have "of_char (upload_prefix fo ! i) \<noteq> (63 :: nat) \<and> of_char (upload_prefix fo ! i) \<noteq> (35 :: nat)"
        using ends(4) i(1) l by (simp add: list_all_length)
      then show ?thesis using at [OF i(1)] i(2) by (auto simp: ascii_lower_def split: if_splits)
    qed
    ultimately show ?thesis using ne by (simp add: list_all_iff)
  qed
  ultimately show thesis using that s(1) by blast
qed

lemma dropWhile_not: "s \<noteq> [] \<Longrightarrow> \<not> P (hd s) \<Longrightarrow> dropWhile P s = s"
  by (cases s) simp_all

text \<open>Whatever the strict reading takes for a file, the generous reading takes for the same file.\<close>

lemma strict_within_generous:
  assumes "name_from_url fo v = Some n"
  shows "referencedUploadFileName v = Some n \<and> resolve_upload fo (JStr n) = Some n"
proof -
  obtain s where s: "v = JStr s" "upload_url_ok fo s" "n = drop (length (upload_prefix fo)) s"
    using assms by (auto simp: name_from_url_def split: jsval.splits if_splits)
  obtain pre m where p: "s = pre @ m" "length pre = length (upload_prefix fo)" "upload_name_ok fo m" "last pre = 47" "hd pre = 47" "pre \<noteq> []"
    "list_all (\<lambda>u. u \<noteq> 63 \<and> u \<noteq> 35) pre" by (rule url_split [OF s(2)])
  have m: "m = n" using s(3) p(1,2) by simp
  have pl: "plain_name m" "m \<noteq> []" using name_plain [OF p(3)] by (auto simp: plain_name_def)
  have q: "takeWhile (\<lambda>u. u \<noteq> 63 \<and> u \<noteq> 35) s = s"
    unfolding takeWhile_eq_all_conv p(1) using p(7) plain_chars [OF pl(1)] by (auto simp: list_all_iff)
  have "last s \<in> set m" unfolding p(1) using pl(2) by simp
  then have "\<not> js_space (last s)" "\<not> js_space (hd s)" using plain_chars [OF pl(1)] p(1,5,6) by (auto simp: js_space_def)
  moreover have "s \<noteq> []" using p(1,6) by simp
  ultimately have trim: "js_trim s = s" by (simp add: js_trim_def dropWhile_not hd_rev)
  have stop: "rev s = rev m @ 47 # rev (butlast pre)" unfolding p(1) using p(4,6) by (metis append_butlast_last_id rev_append rev.simps(2) append_Cons append_Nil append_assoc rev_rev_ident)
  have "takeWhile (\<lambda>u. \<not> is_path_sep u) (rev s) = rev m"
    unfolding stop using plain_chars [OF pl(1)] by (subst takeWhile_append2) (auto simp: is_path_sep_def)
  then have "after_last is_path_sep s = m" by (simp add: after_last_def)
  then show ?thesis using pl(2) m p(3) by (simp add: s(1) referencedUploadFileName_def q trim resolve_name Let_def)
qed

end
