(* ===== verification/UploadCleanup.thy ===== *)
theory UploadCleanup
  imports UploadFiles OperationBoard
begin

text \<open>
  Who refers to uploaded files and who deletes them: posts (\<open>boards/boards.service.ts\<close>), saved boards
  (\<open>operation-boards/operation-boards.service.ts\<close>), the live board, and the collection of orphans
  (\<open>boards/board-image-cleanup.service.ts\<close>, \<open>operation-board-background-cleanup.service.ts\<close>, \<open>admin/upload-orphan.service.ts\<close> over
  \<open>boards/upload-orphan-scan.ts\<close>). A request is a task; each of its waits for the database or the disk ends in a step, so
  requests interleave at every wait. The live board is the picture of the gateway, which any of its handlers may change. \<open>save\<close> writes
  the entity and inserts it when its row has gone, as TypeORM does.
\<close>

subsection \<open>Tables and files\<close>

record stored_file =
  sf_name :: jstring
  sf_bytes :: nat
  sf_mtime :: millis

record post_dto =
  pd_alliance :: string
  pd_content :: jstring
  pd_lang :: "jstring option"
  pd_imageUrls :: "jstring list option"

record board_post =
  bp_id :: nat
  bp_alliance :: string
  bp_nickname :: jstring
  bp_userAlliance :: jstring
  bp_content :: jstring
  bp_lang :: jstring
  bp_imageUrls :: "jstring list option"
  bp_createdAt :: millis

record acting_user =
  au_id :: int
  au_nickname :: jstring
  au_alliance :: jstring
  au_role :: string
  au_createdAt :: "millis option"

datatype background_type = BtGrid | BtImage

record save_dto =
  sd_title :: jstring
  sd_backgroundType :: background_type
  sd_backgroundImageUrl :: "jstring option"
  sd_elements :: jsval

record saved_board =
  sb_id :: nat
  sb_title :: jstring
  sb_backgroundType :: background_type
  sb_backgroundImageUrl :: "jstring option"
  sb_elements :: "op_element list"
  sb_createdBy :: "int \<times> jstring"
  sb_updatedBy :: "int \<times> jstring"
  sb_createdAt :: millis
  sb_updatedAt :: millis

datatype live_check = LiveNone | LiveOk "jstring option" | LiveUnavailable

record folder_report =
  fr_folder :: upload_folder
  fr_report :: orphan_report
  fr_live :: live_check
  fr_deletion :: "deletion_summary option"

datatype orphan_phase =
    PhRefs1 "jstring option"
  | PhReaddir "jstring list" millis
  | PhStat "jstring list" millis "jstring list" orphan_report
  | PhRefs2 "jstring option" orphan_report
  | PhUnlink "jstring list" orphan_report deletion_summary

record orphan_task =
  ot_purge :: bool
  ot_folder :: upload_folder
  ot_rest :: "upload_folder list"
  ot_live :: live_check
  ot_done :: "folder_report list"

datatype upload_task =
    TkInsertPost board_post
  | TkPostAdded
  | TkFindPost nat acting_user
  | TkDropPost board_post
  | TkPostDropped board_post
  | TkImages "jstring list" deletion_summary
  | TkInsertBoard saved_board
  | TkFindRename nat acting_user jstring
  | TkSaveRename saved_board
  | TkFindBoard nat
  | TkDropBoard nat "jstring option"
  | TkCount jstring
  | TkBackground jstring
  | TkOrphans orphan_phase orphan_task

datatype upload_reply = UrDone | UrNotFound | UrForbidden | UrBadRequest | UrFailed | UrReport "folder_report list"

record uploads =
  us_posts :: "board_post list"
  us_boards :: "saved_board list"
  us_live :: op_background
  us_images :: "stored_file list"
  us_backgrounds :: "stored_file list"
  us_nextRow :: nat
  us_tasks :: "(nat \<times> upload_task) list"
  us_nextTask :: nat
  us_replies :: "(nat \<times> upload_reply) list"
  us_invalidations :: nat

definition files_in :: "upload_folder \<Rightarrow> uploads \<Rightarrow> stored_file list" where
  "files_in fo s = (case fo of FoBoards \<Rightarrow> us_images s | FoBackgrounds \<Rightarrow> us_backgrounds s)"

definition put_files :: "upload_folder \<Rightarrow> stored_file list \<Rightarrow> uploads \<Rightarrow> uploads" where
  "put_files fo fs s = (case fo of FoBoards \<Rightarrow> s\<lparr>us_images := fs\<rparr> | FoBackgrounds \<Rightarrow> s\<lparr>us_backgrounds := fs\<rparr>)"

definition upload_reply_to :: "nat \<Rightarrow> upload_reply \<Rightarrow> uploads \<Rightarrow> uploads" where
  "upload_reply_to i r s = s\<lparr>us_replies := us_replies s @ [(i, r)]\<rparr>"

definition task_goes :: "nat \<Rightarrow> upload_task \<Rightarrow> uploads \<Rightarrow> uploads" where
  "task_goes i t s = s\<lparr>us_tasks := us_tasks s @ [(i, t)]\<rparr>"

definition quota_invalidated :: "uploads \<Rightarrow> uploads" where
  "quota_invalidated s = s\<lparr>us_invalidations := us_invalidations s + 1\<rparr>"

text \<open>\<open>unlinkOne\<close>: a file that is not there counts as missing.\<close>

definition unlinkOne :: "upload_folder \<Rightarrow> bool \<Rightarrow> jstring \<Rightarrow> deletion_summary \<Rightarrow> uploads \<Rightarrow> deletion_summary \<times> uploads" where
  "unlinkOne fo ok name sm s =
     (if \<not> list_ex (\<lambda>f. sf_name f = name) (files_in fo s) then (sm\<lparr>ds_missing := ds_missing sm @ [name]\<rparr>, s)
      else if \<not> ok then (sm\<lparr>ds_failed := ds_failed sm @ [name]\<rparr>, s)
      else (sm\<lparr>ds_deleted := ds_deleted sm @ [name]\<rparr>, put_files fo (filter (\<lambda>f. sf_name f \<noteq> name) (files_in fo s)) s))"

text \<open>One turn of the loop of \<open>deleteUploadFiles\<close>.\<close>

definition deleteUploadFile :: "upload_folder \<Rightarrow> bool \<Rightarrow> jstring \<Rightarrow> deletion_summary \<Rightarrow> uploads \<Rightarrow> deletion_summary \<times> uploads" where
  "deleteUploadFile fo ok name sm s =
     (case resolve_upload fo (JStr name) of
        None \<Rightarrow> (sm\<lparr>ds_rejected := ds_rejected sm @ [JStr name]\<rparr>, s)
      | Some n \<Rightarrow> unlinkOne fo ok n sm s)"

subsection \<open>Posts\<close>

definition BOARD_ALLIANCES :: "string list" where
  "BOARD_ALLIANCES = [''KOR'', ''NSL'', ''JKY'', ''GPX'', ''UFO'']"

text \<open>\<open>chars\<close> is how \<open>class-validator\<close> counts the characters of a text.\<close>

definition post_dto_ok :: "(jstring \<Rightarrow> nat) \<Rightarrow> post_dto \<Rightarrow> bool" where
  "post_dto_ok chars d \<longleftrightarrow> pd_alliance d \<in> set BOARD_ALLIANCES \<and> chars (pd_content d) \<le> 1000 \<and>
     (case pd_lang d of None \<Rightarrow> True | Some l \<Rightarrow> chars l \<le> 10) \<and>
     (case pd_imageUrls d of None \<Rightarrow> True
      | Some us \<Rightarrow> length us \<le> 3 \<and> list_all (\<lambda>u. chars u \<le> 120 \<and> upload_url_ok FoBoards u) us)"

definition hasOriginalNicknameOwnership :: "acting_user \<Rightarrow> jstring \<Rightarrow> millis \<Rightarrow> bool" where
  "hasOriginalNicknameOwnership u author authoredAt \<longleftrightarrow>
     au_nickname u = author \<and> (case au_createdAt u of None \<Rightarrow> False | Some t \<Rightarrow> t < authoredAt)"

definition new_post :: "acting_user \<Rightarrow> post_dto \<Rightarrow> board_post" where
  "new_post u d =
     \<lparr>bp_id = 0, bp_alliance = pd_alliance d, bp_nickname = au_nickname u, bp_userAlliance = au_alliance u,
      bp_content = pd_content d, bp_lang = (case pd_lang d of Some l \<Rightarrow> if l = [] then lit ''ko'' else l | None \<Rightarrow> lit ''ko''),
      bp_imageUrls = pd_imageUrls d, bp_createdAt = 0\<rparr>"

definition may_remove_post :: "acting_user \<Rightarrow> board_post \<Rightarrow> bool" where
  "may_remove_post u p \<longleftrightarrow> hasOriginalNicknameOwnership u (bp_nickname p) (bp_createdAt p) \<or> au_role u \<in> {''admin'', ''developer''}"

definition findByAlliance :: "string \<Rightarrow> uploads \<Rightarrow> board_post list" where
  "findByAlliance a s = take 50 (sort_key (\<lambda>p. - bp_createdAt p) (filter (\<lambda>p. bp_alliance p = a) (us_posts s)))"

definition findAllGrouped :: "uploads \<Rightarrow> (string \<times> board_post list) list" where
  "findAllGrouped s = map (\<lambda>a. (a, findByAlliance a s)) BOARD_ALLIANCES"

text \<open>\<open>deleteBoardImagesByUrl\<close>: the names that are read strictly, and what is refused.\<close>

definition image_names :: "jstring list \<Rightarrow> jstring list" where
  "image_names us = List.map_filter (\<lambda>u. name_from_url FoBoards (JStr u)) us"

definition image_rejects :: "jstring list \<Rightarrow> jsval list" where
  "image_rejects us = map JStr (filter (\<lambda>u. name_from_url FoBoards (JStr u) = None) us)"

definition post_images :: "board_post \<Rightarrow> jstring list" where
  "post_images p = (case bp_imageUrls p of None \<Rightarrow> [] | Some us \<Rightarrow> us)"

definition images_step :: "nat \<Rightarrow> jstring list \<Rightarrow> deletion_summary \<Rightarrow> uploads \<Rightarrow> uploads" where
  "images_step i names sm s =
     (case names of [] \<Rightarrow> upload_reply_to i UrDone (quota_invalidated s) | _ \<Rightarrow> task_goes i (TkImages names sm) s)"

subsection \<open>Saved boards\<close>

definition title_dto_ok :: "(jstring \<Rightarrow> nat) \<Rightarrow> jstring \<Rightarrow> bool" where
  "title_dto_ok chars t \<longleftrightarrow> t \<noteq> [] \<and> chars t \<le> 80"

definition save_dto_ok :: "(jstring \<Rightarrow> nat) \<Rightarrow> save_dto \<Rightarrow> bool" where
  "save_dto_ok chars d \<longleftrightarrow> title_dto_ok chars (sd_title d) \<and>
     (case sd_backgroundImageUrl d of None \<Rightarrow> True | Some u \<Rightarrow> chars u \<le> 255) \<and>
     (case sd_elements d of JArr es \<Rightarrow> length es \<le> 500 | _ \<Rightarrow> False)"

definition assertAdmin :: "acting_user \<Rightarrow> bool" where
  "assertAdmin u \<longleftrightarrow> au_role u \<in> {''admin'', ''developer''}"

definition normalizeTitle :: "jstring \<Rightarrow> jstring option" where
  "normalizeTitle t = (let trimmed = js_trim t in if trimmed = [] then None else Some trimmed)"

definition normalizeBackgroundImageUrl :: "save_dto \<Rightarrow> jstring option option" where
  "normalizeBackgroundImageUrl d =
     (case sd_backgroundType d of
        BtGrid \<Rightarrow> Some None
      | BtImage \<Rightarrow>
          (case sd_backgroundImageUrl d of
             None \<Rightarrow> None
           | Some u \<Rightarrow> if isOperationBoardBackgroundUrl (JStr (js_trim u)) then Some (Some (js_trim u)) else None))"

definition assertElementsBounded :: "(rat \<Rightarrow> nat) \<Rightarrow> jsval \<Rightarrow> op_element list option" where
  "assertElementsBounded nc v = (case validateOperationElements nc v of (es, _, None) \<Rightarrow> Some es | _ \<Rightarrow> None)"

definition snapshot_row :: "(rat \<Rightarrow> nat) \<Rightarrow> millis \<Rightarrow> acting_user \<Rightarrow> save_dto \<Rightarrow> saved_board option" where
  "snapshot_row nc now u d =
     (case (assertElementsBounded nc (sd_elements d), normalizeTitle (sd_title d), normalizeBackgroundImageUrl d) of
        (Some es, Some title, Some bg) \<Rightarrow>
          Some \<lparr>sb_id = 0, sb_title = title, sb_backgroundType = sd_backgroundType d, sb_backgroundImageUrl = bg, sb_elements = es,
            sb_createdBy = (au_id u, au_nickname u), sb_updatedBy = (au_id u, au_nickname u), sb_createdAt = now, sb_updatedAt = now\<rparr>
      | _ \<Rightarrow> None)"

definition list_boards :: "uploads \<Rightarrow> saved_board list" where
  "list_boards s = take 50 (map (\<lambda>r. r\<lparr>sb_elements := []\<rparr>) (sort_key (\<lambda>r. - sb_updatedAt r) (us_boards s)))"

definition getOne :: "nat \<Rightarrow> uploads \<Rightarrow> saved_board option" where
  "getOne i s = List.find (\<lambda>r. sb_id r = i) (us_boards s)"

definition live_shows :: "jstring \<Rightarrow> uploads \<Rightarrow> bool" where
  "live_shows url s \<longleftrightarrow> us_live s = BgImage url"

definition live_shown :: "uploads \<Rightarrow> jstring option" where
  "live_shown s = (case us_live s of BgImage u \<Rightarrow> Some u | BgGrid \<Rightarrow> None)"

definition isBackgroundStillReferenced :: "jstring \<Rightarrow> uploads \<Rightarrow> bool" where
  "isBackgroundStillReferenced url s \<longleftrightarrow>
     list_ex (\<lambda>r. sb_backgroundImageUrl r = Some url) (us_boards s) \<or> live_shows url s"

text \<open>\<open>save\<close> of an entity that was read before.\<close>

definition save_board :: "saved_board \<Rightarrow> saved_board list \<Rightarrow> saved_board list" where
  "save_board row rows =
     (if list_ex (\<lambda>r. sb_id r = sb_id row) rows then map (\<lambda>r. if sb_id r = sb_id row then row else r) rows else rows @ [row])"

subsection \<open>Orphans\<close>

definition UPLOAD_ORPHAN_FOLDERS :: "upload_folder list" where
  "UPLOAD_ORPHAN_FOLDERS = [FoBoards, FoBackgrounds]"

definition post_refs :: "uploads \<Rightarrow> jstring list" where
  "post_refs s = List.map_filter (\<lambda>u. referencedUploadFileName (JStr u)) (concat (map post_images (us_posts s)))"

definition opt_ref :: "jstring option \<Rightarrow> jstring list" where
  "opt_ref u = (case u of None \<Rightarrow> [] | Some x \<Rightarrow> (case referencedUploadFileName (JStr x) of None \<Rightarrow> [] | Some n \<Rightarrow> [n]))"

definition board_refs :: "jstring option \<Rightarrow> uploads \<Rightarrow> jstring list" where
  "board_refs live s = concat (map (\<lambda>r. opt_ref (sb_backgroundImageUrl r)) (us_boards s)) @ opt_ref live"

definition loadReferences :: "upload_folder \<Rightarrow> jstring option \<Rightarrow> uploads \<Rightarrow> jstring list" where
  "loadReferences fo live s = (case fo of FoBoards \<Rightarrow> post_refs s | FoBackgrounds \<Rightarrow> board_refs live s)"

text \<open>One entry of the directory; \<open>ok\<close> says whether \<open>stat\<close> answers.\<close>

definition orphan_entry :: "bool \<Rightarrow> upload_folder \<Rightarrow> jstring list \<Rightarrow> millis \<Rightarrow> jstring \<Rightarrow> uploads \<Rightarrow> orphan_report \<Rightarrow> orphan_report" where
  "orphan_entry ok fo refs now name s rp =
     (let rp = rp\<lparr>or_scannedFiles := or_scannedFiles rp + 1\<rparr>
      in if name \<in> set refs then rp\<lparr>or_referencedFiles := or_referencedFiles rp + 1\<rparr>
         else (case resolve_upload fo (JStr name) of
                 None \<Rightarrow> rp\<lparr>or_skippedUnrecognized := or_skippedUnrecognized rp @ [name]\<rparr>
               | Some _ \<Rightarrow>
                   (case List.find (\<lambda>f. sf_name f = name) (files_in fo s) of
                      None \<Rightarrow> rp
                    | Some f \<Rightarrow>
                        if \<not> ok then rp
                        else if now - sf_mtime f < UPLOAD_ORPHAN_GRACE_MS then rp\<lparr>or_skippedRecent := or_skippedRecent rp + 1\<rparr>
                        else rp\<lparr>or_orphans := or_orphans rp @ [\<lparr>uo_fileName = name, uo_bytes = sf_bytes f, uo_modifiedAt = sf_mtime f\<rparr>],
                                or_orphanBytes := or_orphanBytes rp + sf_bytes f\<rparr>)))"

text \<open>A folder begins: the live picture is read at once, the tables later.\<close>

definition read_live :: "bool \<Rightarrow> upload_folder \<Rightarrow> uploads \<Rightarrow> live_check" where
  "read_live liveOk fo s =
     (case fo of FoBoards \<Rightarrow> LiveNone | FoBackgrounds \<Rightarrow> if liveOk then LiveOk (live_shown s) else LiveUnavailable)"

definition live_url :: "live_check \<Rightarrow> jstring option" where
  "live_url l = (case l of LiveOk u \<Rightarrow> u | _ \<Rightarrow> None)"

fun start_folders :: "bool \<Rightarrow> nat \<Rightarrow> bool \<Rightarrow> upload_folder list \<Rightarrow> folder_report list \<Rightarrow> uploads \<Rightarrow> uploads" where
  "start_folders liveOk i purge [] dn s = upload_reply_to i (UrReport dn) s"
| "start_folders liveOk i purge (fo # rest) dn s =
     (case read_live liveOk fo s of
        LiveUnavailable \<Rightarrow>
          start_folders liveOk i purge rest
            (dn @ [\<lparr>fr_folder = fo, fr_report = emptyUploadOrphanReport, fr_live = LiveUnavailable,
                    fr_deletion = (if purge then Some emptyUploadDeletionSummary else None)\<rparr>]) s
      | l \<Rightarrow> task_goes i (TkOrphans (PhRefs1 (live_url l)) \<lparr>ot_purge = purge, ot_folder = fo, ot_rest = rest, ot_live = l, ot_done = dn\<rparr>) s)"

definition folder_done :: "bool \<Rightarrow> nat \<Rightarrow> orphan_task \<Rightarrow> live_check \<Rightarrow> orphan_report \<Rightarrow> deletion_summary option \<Rightarrow> uploads \<Rightarrow> uploads" where
  "folder_done liveOk i t l rp del s =
     start_folders liveOk i (ot_purge t) (ot_rest t)
       (ot_done t @ [\<lparr>fr_folder = ot_folder t, fr_report = rp, fr_live = l, fr_deletion = del\<rparr>]) s"

definition purge_step :: "bool \<Rightarrow> nat \<Rightarrow> orphan_task \<Rightarrow> jstring list \<Rightarrow> orphan_report \<Rightarrow> deletion_summary \<Rightarrow> uploads \<Rightarrow> uploads" where
  "purge_step liveOk i t names rp sm s =
     (case names of
        [] \<Rightarrow> folder_done liveOk i t (ot_live t) rp (Some sm) (if ds_deleted sm = [] then s else quota_invalidated s)
      | _ \<Rightarrow> task_goes i (TkOrphans (PhUnlink names rp sm) t) s)"

text \<open>The end of the scan of a folder: the answer, or the second reading of the references.\<close>

definition scan_end :: "bool \<Rightarrow> nat \<Rightarrow> orphan_task \<Rightarrow> orphan_report \<Rightarrow> uploads \<Rightarrow> uploads" where
  "scan_end liveOk i t rp s =
     (if \<not> ot_purge t then folder_done liveOk i t (ot_live t) rp None s
      else (case read_live liveOk (ot_folder t) s of
              LiveUnavailable \<Rightarrow> folder_done liveOk i t LiveUnavailable emptyUploadOrphanReport (Some emptyUploadDeletionSummary) s
            | l \<Rightarrow> task_goes i (TkOrphans (PhRefs2 (live_url l) rp) t) s))"

definition orphan_step :: "millis \<Rightarrow> bool \<Rightarrow> bool \<Rightarrow> nat \<Rightarrow> orphan_phase \<Rightarrow> orphan_task \<Rightarrow> uploads \<Rightarrow> uploads" where
  "orphan_step now ok liveOk i ph t s =
     (case ph of
        PhRefs1 live \<Rightarrow>
          if \<not> ok then upload_reply_to i UrFailed s
          else task_goes i (TkOrphans (PhReaddir (loadReferences (ot_folder t) live s) now) t) s
      | PhReaddir refs began \<Rightarrow>
          if \<not> ok then upload_reply_to i UrFailed s
          else (case map sf_name (files_in (ot_folder t) s) of
                  [] \<Rightarrow> scan_end liveOk i t emptyUploadOrphanReport s
                | names \<Rightarrow> task_goes i (TkOrphans (PhStat refs began names emptyUploadOrphanReport) t) s)
      | PhStat refs began names rp \<Rightarrow>
          (case names of
             [] \<Rightarrow> scan_end liveOk i t rp s
           | n # ns \<Rightarrow>
               (let rp' = orphan_entry ok (ot_folder t) refs began n s rp
                in if ns = [] then scan_end liveOk i t rp' s else task_goes i (TkOrphans (PhStat refs began ns rp') t) s))
      | PhRefs2 live rp \<Rightarrow>
          if \<not> ok then upload_reply_to i UrFailed s
          else purge_step liveOk i t
                 (filter (\<lambda>n. n \<notin> set (loadReferences (ot_folder t) live s)) (map uo_fileName (or_orphans rp))) rp emptyUploadDeletionSummary s
      | PhUnlink names rp sm \<Rightarrow>
          (case names of
             [] \<Rightarrow> purge_step liveOk i t [] rp sm s
           | n # ns \<Rightarrow> (case deleteUploadFile (ot_folder t) ok n sm s of (sm', s') \<Rightarrow> purge_step liveOk i t ns rp sm' s')))"

subsection \<open>Steps\<close>

text \<open>\<open>ok\<close> says whether the database or the disk did what it was asked for.\<close>

definition insert_post_settled :: "millis \<Rightarrow> bool \<Rightarrow> nat \<Rightarrow> board_post \<Rightarrow> uploads \<Rightarrow> uploads" where
  "insert_post_settled now ok i p s =
     (if ok then task_goes i TkPostAdded
                   (s\<lparr>us_posts := us_posts s @ [p\<lparr>bp_id := us_nextRow s, bp_createdAt := now\<rparr>], us_nextRow := us_nextRow s + 1\<rparr>)
      else upload_reply_to i UrFailed s)"

definition post_added :: "bool \<Rightarrow> nat \<Rightarrow> uploads \<Rightarrow> uploads" where
  "post_added ok i s =
     upload_reply_to i (if ok then UrDone else UrFailed) s"

definition find_post_settled :: "bool \<Rightarrow> nat \<Rightarrow> nat \<Rightarrow> acting_user \<Rightarrow> uploads \<Rightarrow> uploads" where
  "find_post_settled ok i pid u s =
     (if \<not> ok then upload_reply_to i UrFailed s
      else (case List.find (\<lambda>p. bp_id p = pid) (us_posts s) of
              None \<Rightarrow> upload_reply_to i UrNotFound s
            | Some p \<Rightarrow> if may_remove_post u p then task_goes i (TkDropPost p) s else upload_reply_to i UrForbidden s))"

definition drop_post_settled :: "bool \<Rightarrow> nat \<Rightarrow> board_post \<Rightarrow> uploads \<Rightarrow> uploads" where
  "drop_post_settled ok i p s =
     (if ok then task_goes i (TkPostDropped p) (s\<lparr>us_posts := filter (\<lambda>q. bp_id q \<noteq> bp_id p) (us_posts s)\<rparr>)
      else upload_reply_to i UrFailed s)"

definition post_dropped :: "bool \<Rightarrow> nat \<Rightarrow> board_post \<Rightarrow> uploads \<Rightarrow> uploads" where
  "post_dropped ok i p s =
     (if \<not> ok then upload_reply_to i UrFailed s
      else if post_images p = [] then upload_reply_to i UrDone s
      else images_step i (image_names (post_images p)) (emptyUploadDeletionSummary\<lparr>ds_rejected := image_rejects (post_images p)\<rparr>) s)"

definition image_unlinked :: "bool \<Rightarrow> nat \<Rightarrow> jstring list \<Rightarrow> deletion_summary \<Rightarrow> uploads \<Rightarrow> uploads" where
  "image_unlinked ok i names sm s =
     (case names of
         [] \<Rightarrow> images_step i [] sm s
       | n # ns \<Rightarrow> (case deleteUploadFile FoBoards ok n sm s of (sm', s') \<Rightarrow> images_step i ns sm' s'))"

definition insert_board_settled :: "bool \<Rightarrow> nat \<Rightarrow> saved_board \<Rightarrow> uploads \<Rightarrow> uploads" where
  "insert_board_settled ok i r s =
     (if ok then upload_reply_to i UrDone (s\<lparr>us_boards := us_boards s @ [r\<lparr>sb_id := us_nextRow s\<rparr>], us_nextRow := us_nextRow s + 1\<rparr>)
      else upload_reply_to i UrFailed s)"

definition find_rename_settled :: "millis \<Rightarrow> bool \<Rightarrow> nat \<Rightarrow> nat \<Rightarrow> acting_user \<Rightarrow> jstring \<Rightarrow> uploads \<Rightarrow> uploads" where
  "find_rename_settled now ok i bid u title s =
     (if \<not> ok then upload_reply_to i UrFailed s
      else (case getOne bid s of
              None \<Rightarrow> upload_reply_to i UrNotFound s
            | Some r \<Rightarrow>
                (case normalizeTitle title of
                   None \<Rightarrow> upload_reply_to i UrBadRequest s
                 | Some tt \<Rightarrow>
                     task_goes i (TkSaveRename (r\<lparr>sb_title := tt, sb_updatedBy := (au_id u, au_nickname u), sb_updatedAt := now\<rparr>)) s)))"

definition save_rename_settled :: "bool \<Rightarrow> nat \<Rightarrow> saved_board \<Rightarrow> uploads \<Rightarrow> uploads" where
  "save_rename_settled ok i r s =
     (if ok then upload_reply_to i UrDone (s\<lparr>us_boards := save_board r (us_boards s)\<rparr>) else upload_reply_to i UrFailed s)"

definition find_board_settled :: "bool \<Rightarrow> nat \<Rightarrow> nat \<Rightarrow> uploads \<Rightarrow> uploads" where
  "find_board_settled ok i bid s =
     (if \<not> ok then upload_reply_to i UrFailed s
      else (case getOne bid s of
              None \<Rightarrow> upload_reply_to i UrNotFound s
            | Some r \<Rightarrow> task_goes i (TkDropBoard bid (sb_backgroundImageUrl r)) s))"

definition drop_board_settled :: "bool \<Rightarrow> nat \<Rightarrow> nat \<Rightarrow> jstring option \<Rightarrow> uploads \<Rightarrow> uploads" where
  "drop_board_settled ok i bid bg s =
     (if \<not> ok then upload_reply_to i UrFailed s
      else if getOne bid s = None then upload_reply_to i UrNotFound s
      else (let s1 = s\<lparr>us_boards := filter (\<lambda>r. sb_id r \<noteq> bid) (us_boards s)\<rparr>
            in case bg of None \<Rightarrow> upload_reply_to i UrDone s1
               | Some url \<Rightarrow> if url = [] then upload_reply_to i UrDone s1 else task_goes i (TkCount url) s1))"

definition count_settled :: "bool \<Rightarrow> nat \<Rightarrow> jstring \<Rightarrow> uploads \<Rightarrow> uploads" where
  "count_settled ok i url s =
     (if \<not> ok \<or> isBackgroundStillReferenced url s then upload_reply_to i UrDone s
      else (case name_from_url FoBackgrounds (JStr url) of
              None \<Rightarrow> upload_reply_to i UrDone s
            | Some n \<Rightarrow> task_goes i (TkBackground n) s))"

definition background_unlinked :: "bool \<Rightarrow> nat \<Rightarrow> jstring \<Rightarrow> uploads \<Rightarrow> uploads" where
  "background_unlinked ok i n s =
     (case deleteUploadFile FoBackgrounds ok n emptyUploadDeletionSummary s of
         (sm, s') \<Rightarrow> upload_reply_to i UrDone (if ds_deleted sm = [] then s' else quota_invalidated s'))"

definition task_step :: "millis \<Rightarrow> bool \<Rightarrow> bool \<Rightarrow> nat \<Rightarrow> upload_task \<Rightarrow> uploads \<Rightarrow> uploads" where
  "task_step now ok liveOk i t s =
     (case t of
        TkInsertPost p \<Rightarrow> insert_post_settled now ok i p s
      | TkPostAdded \<Rightarrow> post_added ok i s
      | TkFindPost pid u \<Rightarrow> find_post_settled ok i pid u s
      | TkDropPost p \<Rightarrow> drop_post_settled ok i p s
      | TkPostDropped p \<Rightarrow> post_dropped ok i p s
      | TkImages names sm \<Rightarrow> image_unlinked ok i names sm s
      | TkInsertBoard r \<Rightarrow> insert_board_settled ok i r s
      | TkFindRename bid u title \<Rightarrow> find_rename_settled now ok i bid u title s
      | TkSaveRename r \<Rightarrow> save_rename_settled ok i r s
      | TkFindBoard bid \<Rightarrow> find_board_settled ok i bid s
      | TkDropBoard bid bg \<Rightarrow> drop_board_settled ok i bid bg s
      | TkCount url \<Rightarrow> count_settled ok i url s
      | TkBackground n \<Rightarrow> background_unlinked ok i n s
      | TkOrphans ph ot \<Rightarrow> orphan_step now ok liveOk i ph ot s)"

lemmas task_defs = task_step_def insert_post_settled_def post_added_def find_post_settled_def drop_post_settled_def
  post_dropped_def image_unlinked_def insert_board_settled_def find_rename_settled_def save_rename_settled_def
  find_board_settled_def drop_board_settled_def count_settled_def background_unlinked_def

definition settle_task :: "millis \<Rightarrow> bool \<Rightarrow> bool \<Rightarrow> nat \<Rightarrow> uploads \<Rightarrow> uploads" where
  "settle_task now ok liveOk i s =
     (case map_of (us_tasks s) i of
        None \<Rightarrow> s
      | Some t \<Rightarrow> task_step now ok liveOk i t (s\<lparr>us_tasks := AList.delete i (us_tasks s)\<rparr>))"

datatype upload_op =
    UoAddPost acting_user post_dto
  | UoRemovePost acting_user nat
  | UoSaveBoard acting_user save_dto
  | UoRenameBoard acting_user nat jstring
  | UoRemoveBoard acting_user nat
  | UoOrphans bool bool
  | UoStore upload_folder jstring nat
  | UoLive op_background
  | UoSettle bool bool nat

definition post_add :: "(jstring \<Rightarrow> nat) \<Rightarrow> acting_user \<Rightarrow> post_dto \<Rightarrow> nat \<Rightarrow> uploads \<Rightarrow> uploads" where
  "post_add chars u d i s =
     (if post_dto_ok chars d then task_goes i (TkInsertPost (new_post u d)) s else upload_reply_to i UrBadRequest s)"

definition saveSnapshot ::
  "(rat \<Rightarrow> nat) \<Rightarrow> (jstring \<Rightarrow> nat) \<Rightarrow> millis \<Rightarrow> acting_user \<Rightarrow> save_dto \<Rightarrow> nat \<Rightarrow> uploads \<Rightarrow> uploads" where
  "saveSnapshot nc chars now u d i s =
     (if \<not> save_dto_ok chars d then upload_reply_to i UrBadRequest s
      else if \<not> assertAdmin u then upload_reply_to i UrForbidden s
      else (case snapshot_row nc now u d of None \<Rightarrow> upload_reply_to i UrBadRequest s | Some r \<Rightarrow> task_goes i (TkInsertBoard r) s))"

definition board_rename :: "(jstring \<Rightarrow> nat) \<Rightarrow> acting_user \<Rightarrow> nat \<Rightarrow> jstring \<Rightarrow> nat \<Rightarrow> uploads \<Rightarrow> uploads" where
  "board_rename chars u bid title i s =
     (if \<not> title_dto_ok chars title then upload_reply_to i UrBadRequest s
      else if assertAdmin u then task_goes i (TkFindRename bid u title) s else upload_reply_to i UrForbidden s)"

definition board_remove :: "acting_user \<Rightarrow> nat \<Rightarrow> nat \<Rightarrow> uploads \<Rightarrow> uploads" where
  "board_remove u bid i s = (if assertAdmin u then task_goes i (TkFindBoard bid) s else upload_reply_to i UrForbidden s)"

definition upload_request :: "(rat \<Rightarrow> nat) \<Rightarrow> (jstring \<Rightarrow> nat) \<Rightarrow> millis \<Rightarrow> upload_op \<Rightarrow> nat \<Rightarrow> uploads \<Rightarrow> uploads" where
  "upload_request nc chars now op i s =
     (case op of
        UoAddPost u d \<Rightarrow> post_add chars u d i s
      | UoRemovePost u pid \<Rightarrow> task_goes i (TkFindPost pid u) s
      | UoSaveBoard u d \<Rightarrow> saveSnapshot nc chars now u d i s
      | UoRenameBoard u bid title \<Rightarrow> board_rename chars u bid title i s
      | UoRemoveBoard u bid \<Rightarrow> board_remove u bid i s
      | UoOrphans purge liveOk \<Rightarrow> start_folders liveOk i purge UPLOAD_ORPHAN_FOLDERS [] s
      | _ \<Rightarrow> s)"

lemmas request_defs = upload_request_def post_add_def saveSnapshot_def board_rename_def board_remove_def

definition store_file :: "millis \<Rightarrow> upload_folder \<Rightarrow> jstring \<Rightarrow> nat \<Rightarrow> uploads \<Rightarrow> uploads" where
  "store_file now fo name bytes s =
     (if list_ex (\<lambda>f. sf_name f = name) (files_in fo s) then s
      else put_files fo (files_in fo s @ [\<lparr>sf_name = name, sf_bytes = bytes, sf_mtime = now\<rparr>]) s)"

definition uploads_exec :: "(rat \<Rightarrow> nat) \<Rightarrow> (jstring \<Rightarrow> nat) \<Rightarrow> millis \<Rightarrow> upload_op \<Rightarrow> uploads \<Rightarrow> uploads" where
  "uploads_exec nc chars now op s =
     (case op of
        UoSettle ok liveOk i \<Rightarrow> settle_task now ok liveOk i s
      | UoStore fo name bytes \<Rightarrow> store_file now fo name bytes s
      | UoLive bg \<Rightarrow> s\<lparr>us_live := bg\<rparr>
      | _ \<Rightarrow> upload_request nc chars now op (us_nextTask s) (s\<lparr>us_nextTask := us_nextTask s + 1\<rparr>))"

fun uploads_run :: "(rat \<Rightarrow> nat) \<Rightarrow> (jstring \<Rightarrow> nat) \<Rightarrow> millis \<Rightarrow> (nat \<times> upload_op) list \<Rightarrow> uploads \<Rightarrow> uploads" where
  "uploads_run nc chars now [] s = s"
| "uploads_run nc chars now ((dt, op) # ops) s = uploads_run nc chars (now + int dt) ops (uploads_exec nc chars (now + int dt) op s)"

end
