(* ===== verification/UploadRules.thy ===== *)
theory UploadRules
  imports UploadCleanup
begin

text \<open>
  Why a file that is in use stays: no task that is under way threatens it. In use means that a row refers to it, that the live
  board shows it, or that it is younger than the time of grace.
\<close>

declare map_of_eq_Some_iff [simp del]

datatype hold = HoldRow | HoldLive | HoldYoung millis

definition young_at :: "hold \<Rightarrow> millis \<Rightarrow> bool" where
  "young_at h t = (case h of HoldYoung m \<Rightarrow> t - m < UPLOAD_ORPHAN_GRACE_MS | _ \<Rightarrow> True)"

definition young :: "hold \<Rightarrow> bool" where
  "young h = (case h of HoldYoung _ \<Rightarrow> True | _ \<Rightarrow> False)"

text \<open>\<open>n\<close> is the name of the file and \<open>u\<close> its URL.\<close>

definition in_use :: "upload_folder \<Rightarrow> hold \<Rightarrow> jstring \<Rightarrow> jstring \<Rightarrow> millis \<Rightarrow> uploads \<Rightarrow> bool" where
  "in_use fo h u n now s =
     (case h of
        HoldRow \<Rightarrow> (case fo of FoBoards \<Rightarrow> list_ex (\<lambda>p. u \<in> set (post_images p)) (us_posts s)
                     | FoBackgrounds \<Rightarrow> list_ex (\<lambda>r. sb_backgroundImageUrl r = Some u) (us_boards s))
      | HoldLive \<Rightarrow> fo = FoBackgrounds \<and> us_live s = BgImage u
      | HoldYoung m \<Rightarrow> list_all (\<lambda>f. sf_name f = n \<longrightarrow> sf_mtime f = m) (files_in fo s) \<and> now - m < UPLOAD_ORPHAN_GRACE_MS)"

definition spells :: "jstring \<Rightarrow> jstring \<Rightarrow> jstring \<Rightarrow> bool" where
  "spells u n url \<longleftrightarrow> name_from_url FoBackgrounds (JStr url) = Some n \<longrightarrow> url = u"

definition one_spelling :: "jstring \<Rightarrow> jstring \<Rightarrow> uploads \<Rightarrow> bool" where
  "one_spelling u n s \<longleftrightarrow> list_all (\<lambda>r. case sb_backgroundImageUrl r of None \<Rightarrow> True | Some url \<Rightarrow> spells u n url) (us_boards s)"

definition spares :: "hold \<Rightarrow> jstring \<Rightarrow> orphan_report \<Rightarrow> bool" where
  "spares h n rp \<longleftrightarrow> (young h \<longrightarrow> n \<notin> uo_fileName ` set (or_orphans rp))"

definition safe_phase :: "hold \<Rightarrow> jstring \<Rightarrow> jstring \<Rightarrow> orphan_phase \<Rightarrow> bool" where
  "safe_phase h u n ph =
     (case ph of
        PhRefs1 _ \<Rightarrow> True
      | PhReaddir _ began \<Rightarrow> young_at h began
      | PhStat _ began _ rp \<Rightarrow> young_at h began \<and> spares h n rp
      | PhRefs2 live rp \<Rightarrow> spares h n rp \<and> (h = HoldLive \<longrightarrow> live = Some u)
      | PhUnlink names _ _ \<Rightarrow> n \<notin> set names)"

definition safe_task :: "upload_folder \<Rightarrow> hold \<Rightarrow> jstring \<Rightarrow> jstring \<Rightarrow> upload_task \<Rightarrow> bool" where
  "safe_task fo h u n t =
     (case t of
        TkFindPost _ _ \<Rightarrow> fo \<noteq> FoBoards
      | TkDropPost _ \<Rightarrow> fo \<noteq> FoBoards
      | TkPostDropped _ \<Rightarrow> fo \<noteq> FoBoards
      | TkImages _ _ \<Rightarrow> fo \<noteq> FoBoards
      | TkFindBoard _ \<Rightarrow> fo \<noteq> FoBackgrounds \<or> \<not> young h
      | TkDropBoard _ bg \<Rightarrow> fo \<noteq> FoBackgrounds \<or> \<not> young h \<and> (case bg of None \<Rightarrow> True | Some url \<Rightarrow> spells u n url)
      | TkCount url \<Rightarrow> fo \<noteq> FoBackgrounds \<or> \<not> young h \<and> spells u n url
      | TkBackground m \<Rightarrow> fo \<noteq> FoBackgrounds \<or> \<not> young h \<and> m \<noteq> n
      | TkOrphans ph t \<Rightarrow> ot_folder t \<noteq> fo \<or> safe_phase h u n ph
      | _ \<Rightarrow> True)"

definition file_kept :: "upload_folder \<Rightarrow> hold \<Rightarrow> jstring \<Rightarrow> jstring \<Rightarrow> uploads \<Rightarrow> bool" where
  "file_kept fo h u n s \<longleftrightarrow> (\<forall>e\<in>set (us_tasks s). safe_task fo h u n (snd e)) \<and> n \<in> sf_name ` set (files_in fo s)"

lemma stays_same: "file_kept fo h u n s \<Longrightarrow> us_tasks s' = us_tasks s \<Longrightarrow> files_in fo s' = files_in fo s \<Longrightarrow> file_kept fo h u n s'"
  by (simp add: file_kept_def)

lemma files_put [simp]: "files_in fo (put_files fo' fs s) = (if fo = fo' then fs else files_in fo s)"
  by (cases fo; cases fo') (simp_all add: files_in_def put_files_def)

lemma put_fields [simp]:
  "us_tasks (put_files fo fs s) = us_tasks s" "us_posts (put_files fo fs s) = us_posts s" "us_boards (put_files fo fs s) = us_boards s"
  by (cases fo; simp add: put_files_def)+

lemma stays_goes: "file_kept fo h u n s \<Longrightarrow> safe_task fo h u n t \<Longrightarrow> file_kept fo h u n (task_goes i t s)"
  by (auto simp: file_kept_def task_goes_def files_in_def split: upload_folder.splits)

lemma stays_reply: "file_kept fo h u n s \<Longrightarrow> file_kept fo h u n (upload_reply_to i r s)"
  by (erule stays_same) (simp_all add: upload_reply_to_def files_in_def split: upload_folder.split)

lemma stays_invalidated: "file_kept fo h u n s \<Longrightarrow> file_kept fo h u n (quota_invalidated s)"
  by (erule stays_same) (simp_all add: quota_invalidated_def files_in_def split: upload_folder.split)

lemma stays_delete:
  "file_kept fo h u n s \<Longrightarrow> fo' \<noteq> fo \<or> m \<noteq> n \<Longrightarrow> deleteUploadFile fo' ok m sm s = (sm', s') \<Longrightarrow> file_kept fo h u n s'"
  by (auto simp: deleteUploadFile_def unlinkOne_def resolve_name file_kept_def split: option.splits if_splits)

lemma stays_other: "file_kept fo h u n s \<Longrightarrow> deleteUploadFile fo' ok m sm s = (sm', s') \<Longrightarrow> fo' \<noteq> fo \<Longrightarrow> file_kept fo h u n s'"
  by (rule stays_delete) auto

lemma stays_start:
  "file_kept fo h u n s \<Longrightarrow> file_kept fo h u n (start_folders liveOk i purge fos dn s)"
  by (induction fos arbitrary: dn) (auto simp: stays_reply safe_task_def safe_phase_def intro!: stays_goes split: live_check.split)

lemma stays_done: "file_kept fo h u n s \<Longrightarrow> file_kept fo h u n (folder_done liveOk i t l rp del s)"
  by (simp add: folder_done_def stays_start)

lemma stays_purge: "file_kept fo h u n s \<Longrightarrow> ot_folder t \<noteq> fo \<or> n \<notin> set names \<Longrightarrow> file_kept fo h u n (purge_step liveOk i t names rp sm s)"
  by (auto simp: purge_step_def stays_done stays_invalidated safe_task_def safe_phase_def intro!: stays_goes split: list.split)

lemma stays_scan_end:
  assumes k: "file_kept fo h u n s" and use: "in_use fo h u n now s" and sp: "ot_folder t \<noteq> fo \<or> spares h n rp"
  shows "file_kept fo h u n (scan_end liveOk i t rp s)"
proof (cases "read_live liveOk (ot_folder t) s")
  case (LiveOk x)
  then have "h = HoldLive \<Longrightarrow> x = Some u" if "ot_folder t = fo"
    using use that by (auto simp: in_use_def read_live_def live_shown_def split: upload_folder.splits if_splits)
  then have "safe_task fo h u n (TkOrphans (PhRefs2 x rp) t)" using sp by (auto simp: safe_task_def safe_phase_def)
  then show ?thesis using LiveOk k by (simp add: scan_end_def stays_done stays_goes live_url_def)
next
  case LiveNone
  then have "h = HoldLive \<Longrightarrow> ot_folder t \<noteq> fo" using use by (auto simp: in_use_def read_live_def split: upload_folder.splits if_splits)
  then have "safe_task fo h u n (TkOrphans (PhRefs2 None rp) t)" using sp by (auto simp: safe_task_def safe_phase_def)
  then show ?thesis using LiveNone k by (simp add: scan_end_def stays_done stays_goes live_url_def)
qed (simp add: scan_end_def stays_done k)

text \<open>A file in use that is not young is among the references that are read.\<close>

lemma in_refs:
  assumes use: "in_use fo h u n now s" and name: "name_from_url fo (JStr u) = Some n" and h: "\<not> young h"
    and live: "h = HoldLive \<Longrightarrow> live = Some u"
  shows "n \<in> set (loadReferences fo live s)"
proof -
  have r: "referencedUploadFileName (JStr u) = Some n" using strict_within_generous [OF name] by simp
  show ?thesis
  proof (cases h)
    case HoldRow
    show ?thesis
    proof (cases fo)
      case FoBoards
      then obtain p where p: "p \<in> set (us_posts s)" "u \<in> set (post_images p)" using use HoldRow by (auto simp: in_use_def list_ex_iff)
      then have "u \<in> set (concat (map post_images (us_posts s)))" by auto
      then show ?thesis using r FoBoards by (force simp: loadReferences_def post_refs_def List.map_filter_def)
    next
      case FoBackgrounds
      then obtain q where "q \<in> set (us_boards s)" "sb_backgroundImageUrl q = Some u" using use HoldRow by (auto simp: in_use_def list_ex_iff)
      then show ?thesis using r FoBackgrounds by (force simp: loadReferences_def board_refs_def opt_ref_def)
    qed
  next
    case HoldLive
    then show ?thesis using use live r by (auto simp: in_use_def loadReferences_def board_refs_def opt_ref_def)
  qed (use h in \<open>simp add: young_def\<close>)
qed

lemma entry_spares:
  assumes "spares h n rp" and "young_at h began" and use: "in_use fo h u n now s"
  shows "spares h n (orphan_entry ok fo refs began name s rp)"
proof (cases h)
  case (HoldYoung m)
  have old: "began - sf_mtime f < UPLOAD_ORPHAN_GRACE_MS" if "List.find (\<lambda>f. sf_name f = n) (files_in fo s) = Some f" for f
    using that use assms(2) HoldYoung by (auto simp: in_use_def young_at_def find_Some_iff list_all_iff)
  show ?thesis using assms(1) old by (auto simp: spares_def orphan_entry_def Let_def split: option.split)
qed (simp_all add: spares_def young_def)

lemma stays_orphan:
  assumes k: "file_kept fo h u n s" and use: "in_use fo h u n now0 s" and now: "young_at h now" and name: "name_from_url fo (JStr u) = Some n"
    and safe: "safe_task fo h u n (TkOrphans ph t)"
  shows "file_kept fo h u n (orphan_step now ok liveOk i ph t s)"
proof (cases "ot_folder t = fo")
  case False
  then have ph: "safe_task fo h u n (TkOrphans ph' t)" for ph' by (simp add: safe_task_def)
  have purge: "file_kept fo h u n s' \<Longrightarrow> file_kept fo h u n (purge_step liveOk i t names rp sm s')" for names rp sm s'
    by (rule stays_purge) (use False in auto)
  show ?thesis
  proof (cases ph)
    case (PhUnlink names rp sm)
    then show ?thesis using purge [OF k] purge [OF stays_other [OF k _ False]]
      by (auto simp: orphan_step_def split: list.split prod.split)
  qed (auto simp: orphan_step_def Let_def False stays_reply stays_goes [OF k ph] stays_scan_end [OF k use] purge k split: list.split)
next
  case True
  then have sp: "safe_phase h u n ph" using safe by (simp add: safe_task_def)
  show ?thesis
  proof (cases ph)
    case (PhRefs1 live)
    then show ?thesis using now k by (auto simp: orphan_step_def stays_reply safe_task_def safe_phase_def intro!: stays_goes)
  next
    case (PhReaddir refs began)
    have e: "spares h n emptyUploadOrphanReport" by (simp add: spares_def emptyUploadOrphanReport_def)
    show ?thesis using PhReaddir sp k e stays_scan_end [OF k use]
      by (auto simp: orphan_step_def stays_reply safe_task_def safe_phase_def intro!: stays_goes split: list.split)
  next
    case (PhStat refs began names rp)
    have e: "spares h n (orphan_entry ok fo refs began m s rp)" for m
      by (rule entry_spares [OF _ _ use]) (use sp PhStat in \<open>simp_all add: safe_phase_def\<close>)
    show ?thesis using PhStat sp k e stays_scan_end [OF k use] True
      by (auto simp: orphan_step_def Let_def safe_task_def safe_phase_def intro!: stays_goes split: list.split)
  next
    case (PhRefs2 live rp)
    have "n \<notin> set (filter (\<lambda>m. m \<notin> set (loadReferences fo live s)) (map uo_fileName (or_orphans rp)))"
    proof (cases "young h")
      case False
      then show ?thesis using in_refs [OF use name False, of live] sp PhRefs2 by (simp add: safe_phase_def)
    qed (use sp PhRefs2 in \<open>simp add: safe_phase_def spares_def\<close>)
    then show ?thesis using PhRefs2 stays_purge [OF k] True by (simp add: orphan_step_def stays_reply k)
  next
    case (PhUnlink names rp sm)
    then have nn: "n \<notin> set names" using sp by (simp add: safe_phase_def)
    show ?thesis
    proof (cases names)
      case (Cons m ns)
      obtain sm' s' where d: "deleteUploadFile (ot_folder t) ok m sm s = (sm', s')" by fastforce
      have "file_kept fo h u n s'" by (rule stays_delete [OF k _ d]) (use nn Cons in auto)
      then show ?thesis using PhUnlink Cons d nn by (simp add: orphan_step_def stays_purge)
    qed (use PhUnlink stays_purge [OF k] in \<open>simp add: orphan_step_def\<close>)
  qed
qed

subsection \<open>Every step\<close>

definition safe_op :: "upload_folder \<Rightarrow> hold \<Rightarrow> upload_op \<Rightarrow> bool" where
  "safe_op fo h op =
     (case op of
        UoRemovePost _ _ \<Rightarrow> fo \<noteq> FoBoards
      | UoRemoveBoard _ _ \<Rightarrow> fo \<noteq> FoBackgrounds \<or> \<not> young h
      | _ \<Rightarrow> True)"

lemma stays_images: "file_kept fo h u n s \<Longrightarrow> fo \<noteq> FoBoards \<Longrightarrow> file_kept fo h u n (images_step i names sm s)"
  by (auto simp: images_step_def stays_reply stays_invalidated safe_task_def intro!: stays_goes split: list.split)

lemma files_rows [simp]:
  "files_in fo (s\<lparr>us_posts := p\<rparr>) = files_in fo s" "files_in fo (s\<lparr>us_boards := b\<rparr>) = files_in fo s"
  "files_in fo (s\<lparr>us_posts := p, us_nextRow := k\<rparr>) = files_in fo s" "files_in fo (s\<lparr>us_boards := b, us_nextRow := k\<rparr>) = files_in fo s"
  "files_in fo (s\<lparr>us_tasks := ts\<rparr>) = files_in fo s" "files_in fo (s\<lparr>us_nextTask := k\<rparr>) = files_in fo s"
  "files_in fo (s\<lparr>us_live := bg\<rparr>) = files_in fo s"
  by (auto simp: files_in_def split: upload_folder.split)

lemma stays_rows:
  assumes "file_kept fo h u n s"
  shows "file_kept fo h u n (s\<lparr>us_posts := p\<rparr>)" "file_kept fo h u n (s\<lparr>us_boards := b\<rparr>)" "file_kept fo h u n (s\<lparr>us_posts := p, us_nextRow := k\<rparr>)"
    "file_kept fo h u n (s\<lparr>us_boards := b, us_nextRow := k\<rparr>)" "file_kept fo h u n (s\<lparr>us_nextTask := k\<rparr>)" "file_kept fo h u n (s\<lparr>us_live := bg\<rparr>)"
  using assms by (simp_all add: file_kept_def)

lemma row_spells: "one_spelling u n s \<Longrightarrow> getOne bid s = Some r \<Longrightarrow> sb_backgroundImageUrl r = Some url \<Longrightarrow> spells u n url"
proof -
  assume one: "one_spelling u n s" and r: "getOne bid s = Some r" and url: "sb_backgroundImageUrl r = Some url"
  have "r \<in> set (us_boards s)" using r by (auto simp: getOne_def find_Some_iff)
  then have "case sb_backgroundImageUrl r of None \<Rightarrow> True | Some url \<Rightarrow> spells u n url"
    using one unfolding one_spelling_def list_all_iff by blast
  then show ?thesis using url by simp
qed

lemma stays_task:
  assumes k: "file_kept fo h u n s" and use: "in_use fo h u n now0 s" and now: "young_at h now" and name: "name_from_url fo (JStr u) = Some n"
    and one: "one_spelling u n s" and safe: "safe_task fo h u n t"
  shows "file_kept fo h u n (task_step now ok liveOk i t s)"
proof (cases t)
  case (TkOrphans ph ot)
  then show ?thesis using stays_orphan [OF k use now name] safe by (simp add: task_defs)
next
  case (TkImages names sm)
  then have fo: "fo \<noteq> FoBoards" using safe by (simp add: safe_task_def)
  show ?thesis using TkImages fo stays_images [OF k fo]
    by (auto simp: task_defs intro: stays_images [OF stays_other [OF k]] split: list.split prod.split)
next
  case (TkFindBoard bid)
  have "safe_task fo h u n (TkDropBoard bid (sb_backgroundImageUrl r))" if "getOne bid s = Some r" for r
    using safe TkFindBoard row_spells [OF one that] by (auto simp: safe_task_def split: option.split)
  then show ?thesis using TkFindBoard k by (auto simp: task_defs stays_reply intro!: stays_goes split: option.split)
next
  case (TkDropBoard bid bg)
  then show ?thesis using safe k
    by (auto simp: task_defs Let_def stays_reply stays_rows safe_task_def intro!: stays_goes split: option.split)
next
  case (TkCount url)
  have "m \<noteq> n" if "fo = FoBackgrounds" "\<not> isBackgroundStillReferenced url s" "name_from_url FoBackgrounds (JStr url) = Some m" for m
  proof
    assume "m = n"
    moreover have sp: "\<not> young h" "spells u n url" using safe TkCount that(1) by (simp_all add: safe_task_def)
    ultimately have "url = u" using that(3) by (simp add: spells_def)
    moreover have "isBackgroundStillReferenced u s"
      using use that(1) sp(1) by (cases h) (auto simp: in_use_def isBackgroundStillReferenced_def live_shows_def young_def)
    ultimately show False using that(2) by simp
  qed
  then show ?thesis using TkCount safe k by (auto simp: task_defs stays_reply safe_task_def intro!: stays_goes split: option.split)
next
  case (TkBackground m)
  obtain sm s' where d: "deleteUploadFile FoBackgrounds ok m emptyUploadDeletionSummary s = (sm, s')" by fastforce
  have "file_kept fo h u n s'" by (rule stays_delete [OF k _ d]) (use safe TkBackground in \<open>auto simp: safe_task_def\<close>)
  then show ?thesis using TkBackground d by (simp add: task_defs stays_reply stays_invalidated)
qed (use safe k in \<open>auto simp: task_defs stays_reply stays_rows stays_images safe_task_def intro!: stays_goes split: option.split\<close>)

lemma stays_settle:
  assumes k: "file_kept fo h u n s" and use: "in_use fo h u n now0 s" and now: "young_at h now" and name: "name_from_url fo (JStr u) = Some n"
    and one: "one_spelling u n s"
  shows "file_kept fo h u n (settle_task now ok liveOk i s)"
proof (cases "map_of (us_tasks s) i")
  case (Some t)
  define s' where "s' = s\<lparr>us_tasks := AList.delete i (us_tasks s)\<rparr>"
  have "(i, t) \<in> set (us_tasks s)" using Some by (rule map_of_SomeD)
  then have safe: "safe_task fo h u n t" using k by (auto simp: file_kept_def)
  have "set (AList.delete i (us_tasks s)) \<subseteq> set (us_tasks s)" by (auto simp: AList.delete_eq)
  then have k': "file_kept fo h u n s'" using k by (auto simp: file_kept_def s'_def)
  have use': "in_use fo h u n now0 s'" using use by (auto simp: in_use_def s'_def split: hold.splits upload_folder.splits)
  have "one_spelling u n s'" using one by (simp add: one_spelling_def s'_def)
  from stays_task [OF k' use' now name this safe] show ?thesis using Some by (simp add: settle_task_def s'_def)
qed (simp add: settle_task_def k)

lemma stays_exec:
  assumes k: "file_kept fo h u n s" and use: "in_use fo h u n now0 s" and now: "young_at h now" and name: "name_from_url fo (JStr u) = Some n"
    and one: "one_spelling u n s" and op: "safe_op fo h op"
  shows "file_kept fo h u n (uploads_exec nc chars now op s)"
proof (cases op)
  case (UoSettle ok liveOk i)
  then show ?thesis using stays_settle [OF k use now name one] by (simp add: uploads_exec_def)
next
  case (UoStore fo' m bytes)
  then show ?thesis using k by (auto simp: uploads_exec_def store_file_def file_kept_def)
next
  case (UoLive bg)
  then show ?thesis using k by (simp add: uploads_exec_def stays_rows)
qed (use op stays_rows(5) [OF k] in \<open>auto simp: uploads_exec_def request_defs stays_reply stays_start safe_op_def safe_task_def
    intro!: stays_goes split: option.split\<close>)

text \<open>What holds before every step, and at the end.\<close>

fun uploads_always :: "(millis \<Rightarrow> uploads \<Rightarrow> bool) \<Rightarrow> (rat \<Rightarrow> nat) \<Rightarrow> (jstring \<Rightarrow> nat) \<Rightarrow> millis \<Rightarrow> (nat \<times> upload_op) list \<Rightarrow> uploads \<Rightarrow> bool" where
  "uploads_always P nc chars now [] s = P now s"
| "uploads_always P nc chars now ((dt, op) # ops) s \<longleftrightarrow> P now s \<and> uploads_always P nc chars (now + int dt) ops (uploads_exec nc chars (now + int dt) op s)"

lemma always_first: "uploads_always P nc chars now ops s \<Longrightarrow> P now s"
  by (cases ops) auto

lemma in_use_young: "in_use fo h u n now s \<Longrightarrow> young_at h now"
  by (auto simp: in_use_def young_at_def split: hold.splits)

lemma stays_run:
  assumes name: "name_from_url fo (JStr u) = Some n"
  shows "file_kept fo h u n s \<Longrightarrow> uploads_always (\<lambda>t s. in_use fo h u n t s \<and> one_spelling u n s) nc chars now ops s \<Longrightarrow>
    list_all (\<lambda>x. safe_op fo h (snd x)) ops \<Longrightarrow> file_kept fo h u n (uploads_run nc chars now ops s)"
proof (induction ops arbitrary: now s)
  case (Cons o' ops)
  obtain dt op where o': "o' = (dt, op)" by (cases o')
  have a: "in_use fo h u n now s" "one_spelling u n s"
    "uploads_always (\<lambda>t s. in_use fo h u n t s \<and> one_spelling u n s) nc chars (now + int dt) ops (uploads_exec nc chars (now + int dt) op s)"
    using Cons.prems(2) by (simp_all add: o')
  have "young_at h (now + int dt)" using always_first [OF a(3)] in_use_young by blast
  from stays_exec [OF Cons.prems(1) a(1) this name a(2), of op nc chars] Cons.prems(3)
  have "file_kept fo h u n (uploads_exec nc chars (now + int dt) op s)" by (simp add: o')
  from Cons.IH [OF this a(3)] Cons.prems(3) show ?case by (simp add: o')
qed simp

end
