(* ===== verification/UploadProperties.thy ===== *)
theory UploadProperties
  imports UploadQuotaRules UploadRules
begin

text \<open>
  The properties of uploads: the quota of the disk, and that no file in use is deleted.
\<close>

subsection \<open>The quota\<close>

text \<open>
  Property C35. Uploads never fill the disk beyond the quota: whatever requests, walks, disconnections, deletions and answers of
  the disk interleave, the bytes in the directory stay within one gigabyte, or within what was there at the start if that was
  more. It is assumed that the files of the start have distinct names and nobody writes them.
\<close>

theorem quota_kept:
  assumes "distinct (map df_path disk)" and "\<forall>f\<in>set disk. df_path f \<noteq> [] \<and> df_owner f = None"
  shows "bytes_of (uq_disk (quota_run now ops (quota_start disk))) \<le> max (bytes_of disk) BOARD_UPLOAD_TOTAL_QUOTA_BYTES"
proof -
  define s where "s = quota_run now ops (quota_start disk)"
  have none: "filter (owned_by t) disk = []" for t using assms(2) by (auto simp: filter_empty_conv owned_by_def)
  have "quota_inv (bytes_of disk) (quota_start disk)"
    using assms bytes_of_mono [of disk "settled []" "\<lambda>_. True"]
    by (simp add: quota_inv_def owners_ok_def scans_ok_def quota_start_def settled_bytes_def reserved_sum_def none)
  then have inv: "quota_inv (bytes_of disk) s" unfolding s_def by (rule quota_inv_run)
  have o: "owners_ok s" by (rule quota_owners [OF inv])
  then have "\<forall>(t, b)\<in>set (uq_reservations s). bytes_of (filter (owned_by t) (uq_disk s)) \<le> b"
    unfolding owners_ok_def by (metis (mono_tags, lifting) case_prodI2 map_of_is_SomeI)
  then have "bytes_of (filter (\<lambda>f. \<not> settled (uq_reservations s) f) (uq_disk s)) \<le> uq_reservedBytes s"
    using unsettled_sum [of "uq_reservations s" "uq_disk s"] o inv by (simp add: owners_ok_def quota_inv_def)
  moreover have "settled_bytes s + uq_reservedBytes s \<le> max (bytes_of disk) BOARD_UPLOAD_TOTAL_QUOTA_BYTES"
    using inv by (simp add: quota_inv_def)
  ultimately show ?thesis
    using bytes_of_split [of "settled (uq_reservations s)" "uq_disk s"] unfolding s_def [symmetric] settled_bytes_def by linarith
qed

theorem quota_kept_witness:
  "bytes_of (uq_disk (quota_run 0
      [(6000, QoBoardUpload (Some 1)), (0, QoScan True), (0, QoScan True), (0, QoScan True), (0, QoScan True), (0, QoScan True),
       (10, QoWrite 0 [[98], [49]] 700)] (quota_start [\<lparr>df_path = [[97]], df_size = 3, df_owner = None\<rparr>])))
    \<le> max 3 BOARD_UPLOAD_TOTAL_QUOTA_BYTES"
  using quota_kept [of "[\<lparr>df_path = [[97]], df_size = 3, df_owner = None\<rparr>]" 0
      "[(6000, QoBoardUpload (Some 1)), (0, QoScan True), (0, QoScan True), (0, QoScan True), (0, QoScan True), (0, QoScan True),
       (10, QoWrite 0 [[98], [49]] 700)]"] by simp

text \<open>
  A picture that is deleted while the walk is on its way makes every upload that waits for the walk fail, although nothing is
  wrong with the disk: \<open>scanDirectory\<close> accepts a directory that has gone, \<open>readFileSize\<close> does not accept such a file.
\<close>

theorem vanished_file_refuses:
  "uq_answers (quota_run 0
      [(6000, QoBoardUpload (Some 1)), (1, QoScan True), (1, QoScan True), (1, QoDelete [[98], [49]]), (1, QoInvalidate), (1, QoScan True)]
      (quota_start [\<lparr>df_path = [[98], [49]], df_size = 3, df_owner = None\<rparr>])) = [(0, UaUnavailable)]"
  by (simp add: ws_event_map_def BOARD_UPLOAD_RATE_WINDOW_MS_def quota_exec_def board_upload_guard_def upload_guard_def Let_def ws_check_def ws_bucket_def ws_prune_def quota_start_def
      BOARD_UPLOADS_PER_USER_PER_DAY_def quota_reserve_def quota_stale_def wait_for_scan_def scan_step_def scan_failed_def quota_answer_def
      dir_entries_def List.map_filter_def dir_entry_def below_def file_size_def upload_delete_def quota_invalidate_def)

subsection \<open>Files in use\<close>


definition some_name :: jstring where
  "some_name = lit ''1700000000000-0123abcd-0123-4567-89ab-0123456789ab.jpg''"

definition some_url :: "upload_folder \<Rightarrow> jstring" where
  "some_url fo = lit (upload_prefix fo) @ some_name"

lemma some_name_ok: "upload_name_ok fo some_name"
proof -
  have "list_all2 (\<lambda>p u. p u) (background_file_name ''jpg'') some_name"
    by (simp add: background_file_name_def some_name_def lit_def fold_lit_def ascii_lower_def js_digit_def hex_digit_def numeral_eq_Suc)
  then show ?thesis by (cases fo) (simp_all add: upload_name_ok_def upload_exts_def)
qed

lemma some_url_name [simp]: "name_from_url fo (JStr (some_url fo)) = Some some_name"
proof -
  obtain ext where e: "ext \<in> set (upload_exts fo)" "list_all2 (\<lambda>p u. p u) (background_file_name ext) some_name"
    using some_name_ok by (auto simp: upload_name_ok_def list_ex_iff)
  have "list_all2 (\<lambda>p u. p u) (fold_lit (upload_prefix fo) @ background_file_name ext) (lit (upload_prefix fo) @ some_name)"
    by (rule list_all2_appendI [OF fold_lit_refl e(2)])
  then have "upload_url_ok fo (some_url fo)" using e(1) by (auto simp: upload_url_ok_def list_ex_iff some_url_def)
  then show ?thesis by (simp add: name_from_url_def some_url_def lit_def)
qed

lemma some_name_resolves [simp]: "resolve_upload fo (JStr some_name) = Some some_name"
  using some_name_ok by (simp add: resolve_name)

lemma some_url_nonempty [simp]: "some_url fo \<noteq> []"
  by (cases fo) (simp_all add: some_url_def upload_prefix_def BOARD_UPLOAD_URL_PREFIX_def OPERATION_BOARD_BACKGROUND_URL_PREFIX_def lit_def)








end
