(* ===== verification/BoardElements.thy ===== *)
theory BoardElements
  imports OperationElements
begin

text \<open>
  The elements of the operation board as the client makes them: \<open>components/OperationBoard/operationBoardTypes.js\<close>.
  \<open>str\<close> and \<open>num\<close> are \<open>String\<close> and \<open>Number\<close> of values that are neither texts nor numbers, \<open>rnd\<close> is the random part of an
  identifier. The regular expression of \<open>compactOperationPath\<close> never needs to go back, so it is read from the left.
\<close>

definition WEB_MAX_ELEMENTS :: nat where "WEB_MAX_ELEMENTS = 500"
definition WEB_MAX_TEXT_LENGTH :: nat where "WEB_MAX_TEXT_LENGTH = 300"
definition WEB_MAX_STRING_LENGTH :: nat where "WEB_MAX_STRING_LENGTH = 512"
definition WEB_MAX_COLOR_LENGTH :: nat where "WEB_MAX_COLOR_LENGTH = 32"
definition WEB_MAX_PATH_LENGTH :: nat where "WEB_MAX_PATH_LENGTH = 512"

definition OPERATION_MARKERS :: "jstring list" where
  "OPERATION_MARKERS =
     [[0xD83D, 0xDD25], [0x26A0, 0xFE0F], [0xD83C, 0xDFAF], [0xD83D, 0xDEE1, 0xFE0F], [0x27A1, 0xFE0F], [0x2B50]]"

definition web_element_types :: "jstring list" where
  "web_element_types = map lit [''path'', ''line'', ''arrow'', ''rect'', ''ellipse'', ''text'', ''marker'']"

definition NUMERIC_KEYS :: "string list" where
  "NUMERIC_KEYS =
     [''x'', ''y'', ''x2'', ''y2'', ''cx'', ''cy'', ''rx'', ''ry'', ''width'', ''height'', ''strokeWidth'', ''fontSize'']"

definition STRING_KEYS :: "string list" where "STRING_KEYS = [''id'', ''type'', ''color'', ''text'', ''marker'', ''d'']"
definition BOOLEAN_KEYS :: "string list" where "BOOLEAN_KEYS = [''filled'']"

definition web_admin_roles :: "string list" where "web_admin_roles = [''admin'', ''developer'']"

definition canUseOperationTools :: "string option \<Rightarrow> bool \<Rightarrow> bool" where
  "canUseOperationTools role drawing \<longleftrightarrow> (case role of None \<Rightarrow> False | Some r \<Rightarrow> r \<in> set web_admin_roles) \<or> drawing"

definition canManageOperationBoard :: "string option \<Rightarrow> bool" where
  "canManageOperationBoard role \<longleftrightarrow> (case role of None \<Rightarrow> False | Some r \<Rightarrow> r \<in> set web_admin_roles)"

subsection \<open>Values\<close>

definition js_nullish :: "jsval \<Rightarrow> jsval \<Rightarrow> jsval" where
  "js_nullish v d = (if v = JUndef \<or> v = JNull then d else v)"

definition to_text :: "(jsval \<Rightarrow> jstring) \<Rightarrow> jsval \<Rightarrow> jstring" where
  "to_text str v = (case v of JStr s \<Rightarrow> s | _ \<Rightarrow> str v)"

definition to_number :: "(jsval \<Rightarrow> jsnum) \<Rightarrow> jsval \<Rightarrow> jsnum" where
  "to_number num v = (case v of JNum r \<Rightarrow> r | _ \<Rightarrow> num v)"

definition makeOperationId :: "jstring \<Rightarrow> jstring" where
  "makeOperationId rnd = lit ''op-'' @ take 48 rnd"

definition finiteNumber :: "(jsval \<Rightarrow> jsnum) \<Rightarrow> jsval \<Rightarrow> rat \<Rightarrow> jsval" where
  "finiteNumber num v fallback = JNum (NumFin (case to_number num v of NumFin r \<Rightarrow> r | _ \<Rightarrow> fallback))"

definition boundedString :: "(jsval \<Rightarrow> jstring) \<Rightarrow> jsval \<Rightarrow> nat \<Rightarrow> jsval" where
  "boundedString str v maxLength = JStr (take maxLength (to_text str (js_nullish v (JStr []))))"

definition normalizeElementType :: "jsval \<Rightarrow> jsval" where
  "normalizeElementType ty = (if ty = JStr (lit ''pen'') then JStr (lit ''path'') else ty)"

definition put :: "string \<Rightarrow> jsval \<Rightarrow> op_element \<Rightarrow> op_element" where
  "put k v e = AList.update (lit k) v e"

subsection \<open>Paths\<close>

definition scan_number :: "jstring \<Rightarrow> (jstring \<times> jstring) option" where
  "scan_number s =
     (let sign = (if s \<noteq> [] \<and> hd s = 45 then [45] else []);
          s1 = drop (length sign) s;
          ds = takeWhile js_digit s1;
          r = dropWhile js_digit s1;
          fs = takeWhile js_digit (tl r)
      in if ds = [] then None
         else if r \<noteq> [] \<and> hd r = 46 \<and> fs \<noteq> [] then Some (sign @ ds @ 46 # fs, dropWhile js_digit (tl r))
         else Some (sign @ ds, r))"

definition scan_spaces :: "jstring \<Rightarrow> (jstring \<times> jstring) option" where
  "scan_spaces s = (if takeWhile js_space s = [] then None else Some (takeWhile js_space s, dropWhile js_space s))"

definition scan_token :: "jstring \<Rightarrow> (jstring \<times> jstring) option" where
  "scan_token s =
     (if s = [] \<or> hd s \<notin> {77, 76} then None
      else (case scan_spaces (tl s) of
              None \<Rightarrow> None
            | Some (sp, s1) \<Rightarrow>
                (case scan_number s1 of
                   None \<Rightarrow> None
                 | Some (a, s2) \<Rightarrow>
                     (case scan_spaces s2 of
                        None \<Rightarrow> None
                      | Some (sp', s3) \<Rightarrow>
                          (case scan_number s3 of
                             None \<Rightarrow> None
                           | Some (b, s4) \<Rightarrow> Some (hd s # sp @ a @ sp' @ b, s4))))))"

lemma scan_number_length:
  assumes "scan_number s = Some (a, r)"
  shows "length r \<le> length s"
proof -
  have a: "length (dropWhile js_digit (drop k s)) \<le> length s" for k
    using length_dropWhile_le [of js_digit "drop k s"] by simp
  have b: "length (dropWhile js_digit (tl (dropWhile js_digit (drop k s)))) \<le> length s" for k
    using length_dropWhile_le [of js_digit "tl (dropWhile js_digit (drop k s))"] length_dropWhile_le [of js_digit "drop k s"] by simp
  show ?thesis using assms a [of 0] a [of 1] b [of 0] b [of 1] by (auto simp: scan_number_def Let_def split: if_splits)
qed

lemma scan_spaces_length: "scan_spaces s = Some (a, r) \<Longrightarrow> length r \<le> length s"
  by (auto simp: scan_spaces_def length_dropWhile_le split: if_splits)

lemma scan_token_length:
  assumes "scan_token s = Some (t, r)"
  shows "length r < length s"
proof -
  have "s \<noteq> []" using assms by (auto simp: scan_token_def)
  then have "length (tl s) < length s" by simp
  moreover have "length r \<le> length (tl s)"
    using assms by (auto simp: scan_token_def split: if_splits option.splits prod.splits dest!: scan_number_length scan_spaces_length)
  ultimately show ?thesis by linarith
qed

text \<open>\<open>match\<close> with the flag \<open>g\<close>.\<close>

function path_tokens :: "jstring \<Rightarrow> jstring list" where
  "path_tokens [] = []"
| "path_tokens (u # s) = (case scan_token (u # s) of None \<Rightarrow> path_tokens s | Some (t, r) \<Rightarrow> t # path_tokens r)"
  by pat_completeness auto
termination
  by (relation "measure length") (auto dest: scan_token_length)

declare path_tokens.simps(2) [simp del]

definition sample_path :: "nat \<Rightarrow> jstring list \<Rightarrow> jstring list" where
  "sample_path step tokens =
     map snd (filter (\<lambda>(i, t). i = 0 \<or> i = length tokens - 1 \<or> i mod step = 0) (zip [0..<length tokens] tokens))"

function sample_loop :: "jstring list \<Rightarrow> nat \<Rightarrow> jstring list \<Rightarrow> jstring list" where
  "sample_loop tokens step sampled =
     (if WEB_MAX_PATH_LENGTH < length (js_join [32] sampled) \<and> step < length tokens
      then sample_loop tokens (step + 1) (sample_path (step + 1) tokens) else sampled)"
  by pat_completeness auto
termination
  by (relation "measure (\<lambda>(ts, k, _). length ts - k)") auto

function splice_loop :: "jstring list \<Rightarrow> jstring list" where
  "splice_loop sampled =
     (if WEB_MAX_PATH_LENGTH < length (js_join [32] sampled) \<and> 2 < length sampled
      then splice_loop (take (length sampled - 2) sampled @ drop (length sampled - 1) sampled) else sampled)"
  by pat_completeness auto
termination
  by (relation "measure length") auto

declare sample_loop.simps [simp del] splice_loop.simps [simp del]

definition compactOperationPath :: "(jsval \<Rightarrow> jstring) \<Rightarrow> jsval \<Rightarrow> jstring" where
  "compactOperationPath str path =
     (let tokens = path_tokens (to_text str (js_or path (JStr [])))
      in if tokens = [] then []
         else take WEB_MAX_PATH_LENGTH (js_join [32] (splice_loop (sample_loop tokens 1 tokens))))"

subsection \<open>Elements\<close>

definition numeric_entry :: "(jsval \<Rightarrow> jsnum) \<Rightarrow> op_element \<Rightarrow> string \<Rightarrow> op_element \<Rightarrow> op_element" where
  "numeric_entry num src k e = (if js_field src k = JUndef then e else put k (finiteNumber num (js_field src k) 0) e)"

definition string_entry :: "(jsval \<Rightarrow> jstring) \<Rightarrow> op_element \<Rightarrow> string \<Rightarrow> op_element \<Rightarrow> op_element" where
  "string_entry str src k e =
     (if k = ''id'' \<or> k = ''type'' then e
      else if js_field src k = JUndef then e
      else if k = ''d'' then put k (JStr (compactOperationPath str (js_field src k))) e
      else (let maxLength = (if k = ''text'' then WEB_MAX_TEXT_LENGTH
                             else if k = ''color'' then WEB_MAX_COLOR_LENGTH else WEB_MAX_STRING_LENGTH)
            in put k (boundedString str (js_field src k) maxLength) e))"

definition boolean_entry :: "op_element \<Rightarrow> string \<Rightarrow> op_element \<Rightarrow> op_element" where
  "boolean_entry src k e = (if js_field src k = JUndef then e else put k (JBool (\<not> js_falsy (js_field src k))) e)"

definition sanitizeOperationElement ::
  "(jsval \<Rightarrow> jstring) \<Rightarrow> (jsval \<Rightarrow> jsnum) \<Rightarrow> jstring \<Rightarrow> jsval \<Rightarrow> op_element option" where
  "sanitizeOperationElement str num rnd element =
     (case element of
        JObj m \<Rightarrow>
          (case normalizeElementType (js_field m ''type'') of
             JStr ty \<Rightarrow>
               if ty \<notin> set web_element_types then None
               else (let e0 = [(lit ''id'', boundedString str (js_or (js_field m ''id'') (JStr (makeOperationId rnd))) 80),
                               (lit ''type'', JStr ty)];
                         e1 = fold (numeric_entry num m) NUMERIC_KEYS e0;
                         e2 = fold (string_entry str m) STRING_KEYS e1
                     in Some (fold (boolean_entry m) BOOLEAN_KEYS e2))
           | _ \<Rightarrow> None)
      | _ \<Rightarrow> None)"

text \<open>\<open>slice(-MAX_ELEMENTS).map(...).filter(Boolean)\<close>.\<close>

definition sanitizeOperationElements ::
  "(jsval \<Rightarrow> jstring) \<Rightarrow> (jsval \<Rightarrow> jsnum) \<Rightarrow> (nat \<Rightarrow> jstring) \<Rightarrow> jsval \<Rightarrow> op_element list" where
  "sanitizeOperationElements str num rnd v =
     (case v of
        JArr xs \<Rightarrow>
          List.map_filter (\<lambda>(i, x). sanitizeOperationElement str num (rnd i) x) (zip [0..<length xs] (drop (length xs - WEB_MAX_ELEMENTS) xs))
      | _ \<Rightarrow> [])"

definition created_points :: "(jsval \<Rightarrow> jsnum) \<Rightarrow> op_element \<Rightarrow> op_element \<Rightarrow> op_element" where
  "created_points num p e =
     (let e1 = put ''x'' (finiteNumber num (js_nullish (js_field p ''x'') (js_field e ''x'')) 0) e;
          e2 = put ''y'' (finiteNumber num (js_nullish (js_field p ''y'') (js_field e1 ''y'')) 0) e1;
          e3 = put ''x2'' (finiteNumber num (js_nullish (js_field p ''x2'') (js_nullish (js_field p ''x'') (js_field e2 ''x2''))) 0) e2
      in put ''y2'' (finiteNumber num (js_nullish (js_field p ''y2'') (js_nullish (js_field p ''y'') (js_field e3 ''y2''))) 0) e3)"

definition created_extras ::
  "(jsval \<Rightarrow> jstring) \<Rightarrow> (jsval \<Rightarrow> jsnum) \<Rightarrow> jsval \<Rightarrow> op_element \<Rightarrow> op_element \<Rightarrow> op_element" where
  "created_extras str num ty p e =
     (let e1 = (if ty = JStr (lit ''path'') then put ''d'' (JStr (compactOperationPath str (js_or (js_field p ''d'') (JStr [])))) e else e);
          e2 = (if ty = JStr (lit ''text'')
                then put ''fontSize'' (finiteNumber num (js_nullish (js_field p ''fontSize'') (JNum (NumFin 18))) 18)
                       (put ''text'' (boundedString str (js_field p ''text'') WEB_MAX_TEXT_LENGTH) e1)
                else e1);
          e3 = (if ty = JStr (lit ''marker'')
                then put ''text'' (boundedString str (js_or (js_field p ''text'') (JStr [])) WEB_MAX_TEXT_LENGTH)
                       (put ''marker'' (boundedString str (js_or (js_field p ''marker'') (JStr (OPERATION_MARKERS ! 2))) WEB_MAX_STRING_LENGTH) e2)
                else e2)
      in if js_field p ''filled'' = JUndef then e3 else put ''filled'' (JBool (\<not> js_falsy (js_field p ''filled''))) e3)"

definition createOperationElement ::
  "(jsval \<Rightarrow> jstring) \<Rightarrow> (jsval \<Rightarrow> jsnum) \<Rightarrow> jstring \<times> jstring \<Rightarrow> jsval \<Rightarrow> op_element \<Rightarrow> op_element option" where
  "createOperationElement str num rnd type p =
     (let ty = normalizeElementType type;
          e0 = [(lit ''id'', boundedString str (js_or (js_field p ''id'') (JStr (makeOperationId (fst rnd)))) 80),
                (lit ''type'', ty),
                (lit ''color'', boundedString str (js_or (js_field p ''color'') (JStr (lit ''#7dd3fc''))) WEB_MAX_COLOR_LENGTH),
                (lit ''strokeWidth'',
                 finiteNumber num (js_nullish (js_field p ''strokeWidth'') (js_nullish (js_field p ''width'') (JNum (NumFin 3)))) 3)];
          e1 = fold (numeric_entry num p) NUMERIC_KEYS e0
      in sanitizeOperationElement str num (snd rnd) (JObj (created_extras str num ty p (created_points num p e1))))"

end
