(* ===== verification/BoardClient.thy ===== *)
theory BoardClient
  imports OperationReach BoardElements
begin

text \<open>
  The operation board in the client: what \<open>components/OperationBoard/useOperationBoardSocket.js\<close> makes of the server's
  messages, what it sends, and the strokes of \<open>OperationBoardCanvas.jsx\<close>. In the handlers \<open>None\<close> stands for a part of a message
  that is missing or not an array. Points are those of \<open>pointFromEvent\<close>.
\<close>

subsection \<open>The socket\<close>

datatype board_error = BeReason op_reason | BeRefused

record board_client =
  bc_elements :: "op_element list"
  bc_background :: op_background
  bc_participants :: "participant list"
  bc_canDraw :: bool
  bc_connected :: bool
  bc_lastError :: "board_error option"
  bc_sessionReset :: bool
  bc_chatOpen :: bool
  bc_socketId :: "socket_id option"
  bc_sessionId :: "jstring option"
  bc_out :: "(string \<times> jsval) list"

definition bc_start :: "bool \<Rightarrow> board_client" where
  "bc_start chat =
     \<lparr>bc_elements = [], bc_background = BgGrid, bc_participants = [], bc_canDraw = False, bc_connected = False, bc_lastError = None,
      bc_sessionReset = False, bc_chatOpen = chat, bc_socketId = None, bc_sessionId = None, bc_out = []\<rparr>"

definition bc_emit :: "string \<Rightarrow> jsval \<Rightarrow> board_client \<Rightarrow> board_client" where
  "bc_emit event body s = s\<lparr>bc_out := bc_out s @ [(event, body)]\<rparr>"

definition bc_handleAck :: "op_ack option \<Rightarrow> board_client \<Rightarrow> board_client" where
  "bc_handleAck ack s =
     (case ack of
        None \<Rightarrow> s
      | Some a \<Rightarrow>
          if \<not> ack_ok a then s\<lparr>bc_lastError := Some (case ack_reason a of None \<Rightarrow> BeRefused | Some r \<Rightarrow> BeReason r)\<rparr>
          else s\<lparr>bc_lastError := None\<rparr>)"

definition clearError :: "board_client \<Rightarrow> board_client" where
  "clearError s = s\<lparr>bc_lastError := None\<rparr>"

definition joinOperationBoard :: "socket_id option \<Rightarrow> board_client \<Rightarrow> board_client" where
  "joinOperationBoard sid s =
     bc_emit ''operation:join'' (JObj [(lit ''chatOpen'', JBool (bc_chatOpen s))]) (s\<lparr>bc_socketId := sid\<rparr>)"

text \<open>The effect of mounting: \<open>connected\<close> and \<open>id\<close> are those of the socket; then \<open>connect\<close>, \<open>disconnect\<close>, unmounting.\<close>

definition bc_mount :: "bool \<Rightarrow> socket_id option \<Rightarrow> board_client \<Rightarrow> board_client" where
  "bc_mount conn sid s = joinOperationBoard sid (s\<lparr>bc_connected := conn\<rparr>)"

definition bc_handleConnect :: "socket_id option \<Rightarrow> board_client \<Rightarrow> board_client" where
  "bc_handleConnect sid s = joinOperationBoard sid (s\<lparr>bc_connected := True\<rparr>)"

definition bc_handleDisconnect :: "board_client \<Rightarrow> board_client" where
  "bc_handleDisconnect s = s\<lparr>bc_connected := False\<rparr>"

definition bc_unmount :: "board_client \<Rightarrow> board_client" where
  "bc_unmount s = bc_emit ''operation:leave'' JUndef s"

definition bc_handleState ::
  "jstring option \<Rightarrow> op_element list option \<Rightarrow> op_background option \<Rightarrow> participant list option \<Rightarrow> bool \<Rightarrow> board_client \<Rightarrow> board_client" where
  "bc_handleState next els bg ps draws s =
     s\<lparr>bc_sessionReset := bc_sessionReset s \<or> (bc_sessionId s \<noteq> None \<and> next \<noteq> None \<and> next \<noteq> bc_sessionId s),
       bc_sessionId := next,
       bc_elements := (case els of Some es \<Rightarrow> es | None \<Rightarrow> []),
       bc_background := (case bg of Some b \<Rightarrow> b | None \<Rightarrow> BgGrid),
       bc_participants := (case ps of Some l \<Rightarrow> l | None \<Rightarrow> []),
       bc_canDraw := draws\<rparr>"

definition bc_handlePresence :: "participant list option \<Rightarrow> board_client \<Rightarrow> board_client" where
  "bc_handlePresence next s =
     (let l = (case next of Some l \<Rightarrow> l | None \<Rightarrow> []);
          s1 = s\<lparr>bc_participants := l\<rparr>
      in case List.find (\<lambda>p. Some (participantId p) = bc_socketId s) l of
           None \<Rightarrow> s1
         | Some own \<Rightarrow> s1\<lparr>bc_canDraw := canDraw own\<rparr>)"

definition bc_handleAdd :: "op_element \<Rightarrow> board_client \<Rightarrow> board_client" where
  "bc_handleAdd e s = (let es = bc_elements s @ [e] in s\<lparr>bc_elements := drop (length es - 500) es\<rparr>)"

definition bc_handleRemove :: "jsval \<Rightarrow> board_client \<Rightarrow> board_client" where
  "bc_handleRemove i s = s\<lparr>bc_elements := filter (\<lambda>e. element_id e \<noteq> i) (bc_elements s)\<rparr>"

definition bc_handleClear :: "board_client \<Rightarrow> board_client" where
  "bc_handleClear s = s\<lparr>bc_elements := []\<rparr>"

definition bc_handleBackground :: "op_background option \<Rightarrow> board_client \<Rightarrow> board_client" where
  "bc_handleBackground next s = s\<lparr>bc_background := (case next of Some b \<Rightarrow> b | None \<Rightarrow> BgGrid)\<rparr>"

definition bc_handleBoardReplace :: "op_element list option \<Rightarrow> op_background option \<Rightarrow> board_client \<Rightarrow> board_client" where
  "bc_handleBoardReplace els bg s =
     s\<lparr>bc_elements := (case els of Some es \<Rightarrow> es | None \<Rightarrow> []), bc_background := (case bg of Some b \<Rightarrow> b | None \<Rightarrow> BgGrid)\<rparr>"

text \<open>The subscriptions: which handler gets which message; \<open>sid\<close> is the session of the server.\<close>

definition bc_receive :: "jstring option \<Rightarrow> op_message \<Rightarrow> board_client \<Rightarrow> board_client" where
  "bc_receive sid m s =
     (case m of
        MsgState es bg ps draws \<Rightarrow> bc_handleState sid (Some es) (Some bg) (Some ps) draws s
      | MsgPresence ps \<Rightarrow> bc_handlePresence (Some ps) s
      | MsgElementAdd e \<Rightarrow> bc_handleAdd e s
      | MsgElementRemove i \<Rightarrow> bc_handleRemove (JStr i) s
      | MsgClear \<Rightarrow> bc_handleClear s
      | MsgBoardReplace es bg \<Rightarrow> bc_handleBoardReplace (Some es) (Some bg) s
      | MsgBackgroundUpdate bg \<Rightarrow> bc_handleBackground (Some bg) s)"

definition chat_open_changes :: "bool \<Rightarrow> board_client \<Rightarrow> board_client" where
  "chat_open_changes chat s = bc_emit ''operation:chat-open'' (JObj [(lit ''chatOpen'', JBool chat)]) (s\<lparr>bc_chatOpen := chat\<rparr>)"

definition emitElement :: "op_element option \<Rightarrow> board_client \<Rightarrow> board_client" where
  "emitElement e s = bc_emit ''operation:element:add'' (case e of None \<Rightarrow> JNull | Some x \<Rightarrow> JObj x) s"

definition emitRemoveElement :: "jstring \<Rightarrow> board_client \<Rightarrow> board_client" where
  "emitRemoveElement i s = bc_emit ''operation:element:remove'' (JObj [(lit ''id'', JStr i)]) s"

definition emitClear :: "board_client \<Rightarrow> board_client" where
  "emitClear s = bc_emit ''operation:clear'' (JObj []) s"

definition emitPermission :: "jstring \<Rightarrow> bool \<Rightarrow> board_client \<Rightarrow> board_client" where
  "emitPermission pid next s =
     bc_emit ''operation:permission:update'' (JObj [(lit ''participantId'', JStr pid), (lit ''canDraw'', JBool next)]) s"

definition background_body :: "op_background \<Rightarrow> jsval" where
  "background_body bg =
     (case bg of
        BgGrid \<Rightarrow> JObj [(lit ''type'', JStr (lit ''grid'')), (lit ''imageUrl'', JNull)]
      | BgImage u \<Rightarrow> JObj [(lit ''type'', JStr (lit ''image'')), (lit ''imageUrl'', JStr u)])"

definition emitBackground :: "op_background \<Rightarrow> board_client \<Rightarrow> board_client" where
  "emitBackground bg s = bc_emit ''operation:background:update'' (background_body bg) s"

definition replace_body :: "op_element list \<Rightarrow> op_background \<Rightarrow> jsval" where
  "replace_body es bg = JObj [(lit ''elements'', JArr (map JObj es)), (lit ''background'', background_body bg)]"

definition emitReplaceBoard :: "op_element list \<Rightarrow> op_background \<Rightarrow> board_client \<Rightarrow> board_client" where
  "emitReplaceBoard es bg s = bc_emit ''operation:board:replace'' (replace_body es bg) s"

subsection \<open>The canvas\<close>

datatype canvas_call = CvAdd "op_element option" | CvRemove jstring

record canvas =
  cv_draft :: "op_element option"
  cv_calls :: "canvas_call list"

definition cv_start :: canvas where "cv_start = \<lparr>cv_draft = None, cv_calls = []\<rparr>"

definition js_int :: "int \<Rightarrow> jsval" where "js_int i = JNum (NumFin (of_int i))"

definition cv_call :: "canvas_call \<Rightarrow> canvas \<Rightarrow> canvas" where
  "cv_call x s = s\<lparr>cv_calls := cv_calls s @ [x]\<rparr>"

definition number_of :: "jsval \<Rightarrow> rat option" where
  "number_of v = (case v of JNum (NumFin r) \<Rightarrow> Some r | _ \<Rightarrow> None)"

definition differs :: "op_element \<Rightarrow> string \<Rightarrow> string \<Rightarrow> bool" where
  "differs e k2 k =
     (case (number_of (js_nullish (js_field e k2) (js_field e k)), number_of (js_field e k)) of
        (Some a, Some b) \<Rightarrow> 2 < \<bar>a - b\<bar>
      | _ \<Rightarrow> False)"

definition isMeaningfulDraft :: "op_element option \<Rightarrow> bool" where
  "isMeaningfulDraft el =
     (case el of
        None \<Rightarrow> False
      | Some e \<Rightarrow>
          if js_field e ''type'' = JStr (lit ''path'')
          then 1 < length (js_split 76 (case js_field e ''d'' of JStr d \<Rightarrow> d | _ \<Rightarrow> []))
          else differs e ''x2'' ''x'' \<or> differs e ''y2'' ''y'')"

definition path_start :: "int \<times> int \<Rightarrow> jstring" where
  "path_start p = lit ''M '' @ js_show_int (fst p) @ lit '' '' @ js_show_int (snd p)"

definition path_more :: "(jsval \<Rightarrow> jstring) \<Rightarrow> jsval \<Rightarrow> int \<times> int \<Rightarrow> jstring" where
  "path_more str d p = to_text str d @ lit '' L '' @ js_show_int (fst p) @ lit '' '' @ js_show_int (snd p)"

text \<open>The options of the toolbar.\<close>

record pen =
  pn_tool :: string
  pn_color :: jstring
  pn_strokeWidth :: rat
  pn_marker :: jstring

definition draft_of ::
  "(jsval \<Rightarrow> jstring) \<Rightarrow> (jsval \<Rightarrow> jsnum) \<Rightarrow> jstring \<times> jstring \<Rightarrow> pen \<Rightarrow> int \<times> int \<Rightarrow> op_element option" where
  "draft_of str num rnd pn p =
     createOperationElement str num rnd (JStr (lit (pn_tool pn)))
       [(lit ''x'', js_int (fst p)), (lit ''y'', js_int (snd p)), (lit ''x2'', js_int (fst p)), (lit ''y2'', js_int (snd p)),
        (lit ''d'', JStr (path_start p)), (lit ''color'', JStr (pn_color pn)), (lit ''strokeWidth'', JNum (NumFin (pn_strokeWidth pn)))]"

text \<open>\<open>target\<close> is the element under the pointer, \<open>answer\<close> what the prompt gives.\<close>

definition handlePointerDown ::
  "(jsval \<Rightarrow> jstring) \<Rightarrow> (jsval \<Rightarrow> jsnum) \<Rightarrow> jstring \<times> jstring \<Rightarrow> pen \<Rightarrow> bool \<Rightarrow> jstring option \<Rightarrow> jstring option \<Rightarrow> int \<times> int \<Rightarrow>
   canvas \<Rightarrow> canvas" where
  "handlePointerDown str num rnd pn draws target answer p s =
     (if \<not> draws then s
      else if pn_tool pn = ''erase''
      then (case target of None \<Rightarrow> s | Some i \<Rightarrow> if i = [] then s else cv_call (CvRemove i) s)
      else if pn_tool pn = ''text''
      then (case answer of
              None \<Rightarrow> s
            | Some t \<Rightarrow>
                if js_trim t = [] then s
                else cv_call (CvAdd (createOperationElement str num rnd (JStr (lit ''text''))
                       [(lit ''x'', js_int (fst p)), (lit ''y'', js_int (snd p)), (lit ''text'', JStr t), (lit ''color'', JStr (pn_color pn))])) s)
      else if pn_tool pn = ''marker''
      then cv_call (CvAdd (createOperationElement str num rnd (JStr (lit ''marker''))
             [(lit ''x'', js_int (fst p)), (lit ''y'', js_int (snd p)), (lit ''marker'', JStr (pn_marker pn)), (lit ''color'', JStr (pn_color pn))])) s
      else s\<lparr>cv_draft := draft_of str num rnd pn p\<rparr>)"

definition handlePointerMove :: "(jsval \<Rightarrow> jstring) \<Rightarrow> bool \<Rightarrow> int \<times> int \<Rightarrow> canvas \<Rightarrow> canvas" where
  "handlePointerMove str draws p s =
     (case cv_draft s of
        None \<Rightarrow> s
      | Some e \<Rightarrow>
          if \<not> draws then s
          else if js_field e ''type'' = JStr (lit ''path'')
          then s\<lparr>cv_draft := Some (put ''d'' (JStr (compactOperationPath str (JStr (path_more str (js_field e ''d'') p)))) e)\<rparr>
          else s\<lparr>cv_draft := Some (put ''y2'' (js_int (snd p)) (put ''x2'' (js_int (fst p)) e))\<rparr>)"

definition finishDraft :: "(jsval \<Rightarrow> jstring) \<Rightarrow> (jsval \<Rightarrow> jsnum) \<Rightarrow> jstring \<Rightarrow> canvas \<Rightarrow> canvas" where
  "finishDraft str num rnd s =
     (let sanitized = sanitizeOperationElement str num rnd (case cv_draft s of None \<Rightarrow> JNull | Some e \<Rightarrow> JObj e);
          s1 = (if isMeaningfulDraft sanitized then cv_call (CvAdd sanitized) s else s)
      in s1\<lparr>cv_draft := None\<rparr>)"

definition pointerCancel :: "canvas \<Rightarrow> canvas" where
  "pointerCancel s = s\<lparr>cv_draft := None\<rparr>"

text \<open>What the user does; the tools are those of the toolbar.\<close>

definition OPERATION_BOARD_TOOLS :: "string list" where
  "OPERATION_BOARD_TOOLS = [''pen'', ''text'', ''line'', ''rect'', ''ellipse'', ''arrow'', ''marker'', ''erase'']"

datatype canvas_op =
    CvDown "jstring \<times> jstring" pen bool "jstring option" "jstring option" "int \<times> int"
  | CvMove bool "int \<times> int"
  | CvUp jstring
  | CvCancel

definition canvas_exec :: "(jsval \<Rightarrow> jstring) \<Rightarrow> (jsval \<Rightarrow> jsnum) \<Rightarrow> canvas_op \<Rightarrow> canvas \<Rightarrow> canvas" where
  "canvas_exec str num op s =
     (case op of
        CvDown rnd pn draws target answer p \<Rightarrow> handlePointerDown str num rnd pn draws target answer p s
      | CvMove draws p \<Rightarrow> handlePointerMove str draws p s
      | CvUp rnd \<Rightarrow> finishDraft str num rnd s
      | CvCancel \<Rightarrow> pointerCancel s)"

end
