(* ===== verification/BoardElementRules.thy ===== *)
theory BoardElementRules
  imports BoardElements
begin

text \<open>
  Why the server takes what the client makes: the elements have the shape that \<open>normalizeOperationElement\<close> leaves alone, and
  a path that is compacted keeps its ends.
\<close>

subsection \<open>Tokens\<close>

definition path_token :: "nat \<Rightarrow> int \<times> int \<Rightarrow> jstring" where
  "path_token u p = u # 32 # js_show_int (fst p) @ 32 # js_show_int (snd p)"

definition good_token :: "jstring \<Rightarrow> bool" where
  "good_token t \<longleftrightarrow> (\<exists>u p. (u = 77 \<or> u = 76) \<and> t = path_token u p)"

lemma show_nat_units: "js_show_nat n \<noteq> []" "u \<in> set (js_show_nat n) \<Longrightarrow> js_digit u"
  using js_show_nat_digits [of n] by (auto simp: js_all_digits_def list_all_iff)

lemma show_nat_Cons: "\<exists>u us. js_show_nat n = u # us \<and> js_digit u"
  using show_nat_units(1) [of n] show_nat_units(2) [of _ n] by (cases "js_show_nat n") auto

lemma take_digits:
  assumes "r = [] \<or> hd r = 32"
  shows "takeWhile js_digit (js_show_nat n @ r) = js_show_nat n" "dropWhile js_digit (js_show_nat n @ r) = r"
proof -
  have r: "takeWhile js_digit r = [] \<and> dropWhile js_digit r = r" using assms by (cases r) (auto simp: js_digit_def)
  have "\<forall>u\<in>set (js_show_nat n). js_digit u" using show_nat_units(2) by blast
  then show "takeWhile js_digit (js_show_nat n @ r) = js_show_nat n" "dropWhile js_digit (js_show_nat n @ r) = r"
    using r by (simp_all add: takeWhile_append2 dropWhile_append2)
qed

lemma scan_show:
  assumes "r = [] \<or> hd r = 32"
  shows "scan_number (js_show_int i @ r) = Some (js_show_int i, r)"
proof -
  have h: "hd (js_show_nat n @ r) \<noteq> 45" for n
    using show_nat_Cons [of n] by (auto simp: js_digit_def)
  have "hd r \<noteq> 46 \<or> r = []" using assms by auto
  then show ?thesis using h show_nat_units(1)
    by (cases "i < 0") (auto simp: scan_number_def Let_def js_show_int_def take_digits [OF assms])
qed

lemma show_first: "js_show_int i \<noteq> [] \<and> \<not> js_space (hd (js_show_int i))"
proof -
  have "js_show_nat n \<noteq> [] \<and> \<not> js_space (hd (js_show_nat n))" for n
    using show_nat_Cons [of n] by (auto simp: js_digit_def js_space_def)
  then show ?thesis by (auto simp: js_show_int_def js_space_def)
qed

lemma scan_blank: "scan_spaces (32 # js_show_int i @ r) = Some ([32], js_show_int i @ r)"
proof -
  obtain u us where "js_show_int i = u # us" "\<not> js_space u" using show_first [of i] by (cases "js_show_int i") auto
  moreover have "js_space 32" by (simp add: js_space_def)
  ultimately show ?thesis by (simp add: scan_spaces_def)
qed

lemma scan_good:
  assumes "good_token t" and "r = [] \<or> hd r = 32"
  shows "scan_token (t @ r) = Some (t, r)"
proof -
  obtain u p where t: "u = 77 \<or> u = 76" "t = path_token u p" using assms(1) by (auto simp: good_token_def)
  have "scan_number (js_show_int (fst p) @ 32 # js_show_int (snd p) @ r) = Some (js_show_int (fst p), 32 # js_show_int (snd p) @ r)"
    by (rule scan_show) simp
  then show ?thesis using t scan_blank [of "fst p"] scan_blank [of "snd p"] scan_show [OF assms(2)]
    by (simp add: scan_token_def path_token_def)
qed

lemma good_nonempty: "good_token t \<Longrightarrow> \<exists>u v w. t = u # v # w"
  by (auto simp: good_token_def path_token_def)

lemma tokens_good: "good_token t \<Longrightarrow> r = [] \<or> hd r = 32 \<Longrightarrow> path_tokens (t @ r) = t # path_tokens r"
  using scan_good [of t r] good_nonempty [of t] by (auto simp: path_tokens.simps(2))

lemma tokens_blank: "path_tokens (32 # s) = path_tokens s"
  by (simp add: path_tokens.simps(2) scan_token_def)

lemma tokens_joined: "list_all good_token ts \<Longrightarrow> path_tokens (js_join [32] ts) = ts"
proof (induction ts rule: induct_list012)
  case (2 p)
  then show ?case using tokens_good [of p "[]"] by simp
next
  case (3 p q ps)
  then show ?case using tokens_good [of p "32 # js_join [32] (q # ps)"] by (simp add: tokens_blank)
qed simp

subsection \<open>Compaction\<close>

text \<open>What every step of the compaction keeps: the first and the last token, and the order.\<close>

definition thinned :: "jstring list \<Rightarrow> jstring list \<Rightarrow> bool" where
  "thinned ts ss \<longleftrightarrow> subseq ss ts \<and> ss \<noteq> [] \<and> hd ss = hd ts \<and> last ss = last ts \<and> (1 < length ts \<longrightarrow> 1 < length ss)"

lemma thinned_refl: "ts \<noteq> [] \<Longrightarrow> thinned ts ts"
  by (simp add: thinned_def)

lemma thinned_trans: "thinned ts ss \<Longrightarrow> thinned ss rs \<Longrightarrow> thinned ts rs"
  by (auto simp: thinned_def intro: subseq_order.order_trans)

lemma ends_split: "1 < length xs \<Longrightarrow> xs = hd xs # butlast (tl xs) @ [last xs]"
  by (cases xs) (auto simp: snoc_eq_iff_butlast)

lemma thinned_ends: "1 < length ts \<Longrightarrow> subseq ms (butlast (tl ts)) \<Longrightarrow> thinned ts (hd ts # ms @ [last ts])"
proof -
  assume l: "1 < length ts" and m: "subseq ms (butlast (tl ts))"
  have "subseq (hd ts # ms @ [last ts]) (hd ts # butlast (tl ts) @ [last ts])" 
    using list_emb_append_mono [OF m, of "[last ts]" "[last ts]"] by simp
  then show ?thesis using ends_split [OF l] l by (simp add: thinned_def)
qed


lemma sample_thinned:
  assumes "ts \<noteq> []"
  shows "thinned ts (sample_path step ts)"
proof (cases "1 < length ts")
  case False
  then obtain t where "ts = [t]" using assms by (cases ts) auto
  then show ?thesis by (simp add: sample_path_def thinned_def)
next
  case True
  define n where "n = length ts"
  define keep where "keep = (\<lambda>(i, t :: jstring). i = 0 \<or> i = n - 1 \<or> i mod step = 0)"
  define mid where "mid = zip [1..<n - 1] (butlast (tl ts))"
  obtain m where m: "n = Suc (Suc m)" using True unfolding n_def by (cases ts; cases "tl ts") auto
  have "[0..<Suc m] = 0 # [1..<Suc m]" by (simp add: upt_conv_Cons)
  then have n: "[0..<n] = 0 # [1..<n - 1] @ [n - 1]" by (simp add: m)
  have len: "length [1..<n - 1] = length (butlast (tl ts))" by (simp add: n_def)
  have "zip [0..<n] ts = zip (0 # [1..<n - 1] @ [n - 1]) (hd ts # butlast (tl ts) @ [last ts])"
    unfolding n by (rule arg_cong [OF ends_split [OF True]])
  also have "\<dots> = (0, hd ts) # mid @ [(n - 1, last ts)]" using len by (simp add: mid_def)
  finally have z: "zip [0..<n] ts = (0, hd ts) # mid @ [(n - 1, last ts)]" .
  have s: "sample_path step ts = hd ts # map snd (filter keep mid) @ [last ts]"
    unfolding sample_path_def n_def [symmetric] keep_def [symmetric] z by (simp add: keep_def)
  have "subseq (map snd (filter keep mid)) (map snd mid)" by (intro subseq_map subseq_filter_left)
  then have "subseq (map snd (filter keep mid)) (butlast (tl ts))" using len by (simp add: mid_def)
  then show ?thesis unfolding s by (rule thinned_ends [OF True])
qed

lemma sample_loop_thinned: "ts \<noteq> [] \<Longrightarrow> thinned ts ss \<Longrightarrow> thinned ts (sample_loop ts k ss)"
proof (induction ts k ss rule: sample_loop.induct)
  case (1 ts k ss)
  then show ?case by (subst sample_loop.simps) (simp add: sample_thinned)
qed

lemma splice_thinned:
  assumes "2 < length ss"
  shows "thinned ss (take (length ss - 2) ss @ drop (length ss - 1) ss)"
proof -
  define a where "a = hd ss"
  define b where "b = last ss"
  define ms where "ms = butlast (tl ss)"
  have ss: "ss = a # ms @ [b]" using ends_split [of ss] assms by (simp add: a_def b_def ms_def)
  then have ms: "ms \<noteq> []" using assms by auto
  have "take (length ss - 2) ss @ drop (length ss - 1) ss = a # butlast ms @ [b]"
    using ms by (cases ms rule: rev_cases) (simp_all add: ss)
  moreover have "subseq (butlast ms) ms" by (metis subseq_order.order_refl append_butlast_last_id list_emb_append2 ms subseq_rev_drop_many)
  ultimately show ?thesis using thinned_ends [of ss "butlast ms"] assms by (simp add: ss)
qed

lemma splice_loop_ends: "ss \<noteq> [] \<Longrightarrow> thinned ss (splice_loop ss) \<and>
  (length (js_join [32] (splice_loop ss)) \<le> WEB_MAX_PATH_LENGTH \<or> length (splice_loop ss) \<le> 2)"
proof (induction ss rule: splice_loop.induct)
  case (1 ss)
  show ?case
  proof (cases "WEB_MAX_PATH_LENGTH < length (js_join [32] ss) \<and> 2 < length ss")
    case True
    have t: "thinned ss (take (length ss - 2) ss @ drop (length ss - 1) ss)" using splice_thinned True by blast
    then have "take (length ss - 2) ss @ drop (length ss - 1) ss \<noteq> []" by (simp add: thinned_def)
    from 1(1) [OF True this] t show ?thesis using True thinned_trans [OF t]
      by (subst (1 2 3) splice_loop.simps) auto
  next
    case False
    then show ?thesis using 1 thinned_refl by (subst (1 2 3) splice_loop.simps) (auto simp: not_less)
  qed
qed

lemma join_two: "ts \<noteq> [] \<Longrightarrow> length ts \<le> 2 \<Longrightarrow> \<forall>t\<in>set ts. length t \<le> 255 \<Longrightarrow> length (js_join [32] ts) \<le> 511"
  by (cases ts; cases "tl ts") auto

text \<open>A path of whole tokens that are not too long: its ends stay and nothing is cut.\<close>

lemma compact_thinned:
  assumes g: "list_all good_token ts" and ts: "ts \<noteq> []" and short: "\<forall>t\<in>set ts. length t \<le> 255"
  shows "\<exists>ss. compactOperationPath str (JStr (js_join [32] ts)) = js_join [32] ss \<and> thinned ts ss \<and>
    length (js_join [32] ss) \<le> WEB_MAX_PATH_LENGTH"
proof -
  define ss where "ss = splice_loop (sample_loop ts 1 ts)"
  have a: "thinned ts (sample_loop ts 1 ts)" by (rule sample_loop_thinned [OF ts thinned_refl [OF ts]])
  then have b: "thinned ts ss" "length (js_join [32] ss) \<le> WEB_MAX_PATH_LENGTH \<or> length ss \<le> 2"
    using splice_loop_ends [of "sample_loop ts 1 ts"] thinned_trans by (auto simp: ss_def thinned_def)
  have "set ss \<subseteq> set ts" using b(1) by (auto simp: thinned_def dest: list_emb_set)
  then have "\<forall>t\<in>set ss. length t \<le> 255" using short by blast
  then have len: "length (js_join [32] ss) \<le> WEB_MAX_PATH_LENGTH"
    using b join_two [of ss] by (auto simp: thinned_def WEB_MAX_PATH_LENGTH_def)
  have "js_join [32] ts \<noteq> []" using g ts good_nonempty by (cases ts; cases "tl ts") fastforce+
  then have "compactOperationPath str (JStr (js_join [32] ts)) = take WEB_MAX_PATH_LENGTH (js_join [32] ss)"
    using tokens_joined [OF g] ts by (simp add: compactOperationPath_def to_text_def js_or_def js_falsy_def ss_def Let_def)
  then show ?thesis using b(1) len by (intro exI [of _ ss]) simp
qed

lemma compact_fits:
  assumes "list_all good_token ts" and "length (js_join [32] ts) \<le> WEB_MAX_PATH_LENGTH"
  shows "compactOperationPath str (JStr (js_join [32] ts)) = js_join [32] ts"
proof -
  have "sample_loop ts 1 ts = ts" "splice_loop ts = ts" using assms(2) by (subst sample_loop.simps splice_loop.simps; simp)+
  then show ?thesis using tokens_joined [OF assms(1)] assms(2)
    by (auto simp: compactOperationPath_def to_text_def js_or_def js_falsy_def)
qed


subsection \<open>Shapes\<close>

definition shaped :: "jstring \<Rightarrow> jstring \<Rightarrow> op_element \<Rightarrow> bool" where
  "shaped i ty e \<longleftrightarrow> (\<exists>r. e = element_shape i ty r \<and> entries_ok r)"

lemma shaped_put: "shaped i ty e \<Longrightarrow> entry_ok (lit k) v \<Longrightarrow> shaped i ty (put k v e)"
proof -
  assume e: "shaped i ty e" and v: "entry_ok (lit k) v"
  obtain r where r: "e = element_shape i ty r" "entries_ok r" using e by (auto simp: shaped_def)
  have "put k v e = element_shape i ty (AList.update (lit k) v r)"
    using entry_ok_key [OF v] by (auto simp: r(1) put_def element_shape_def)
  then show ?thesis using entries_ok_update [OF r(2) v] by (auto simp: shaped_def)
qed

lemma shaped_fold: "(\<And>k e. k \<in> set ks \<Longrightarrow> shaped i ty e \<Longrightarrow> shaped i ty (f k e)) \<Longrightarrow> shaped i ty e \<Longrightarrow> shaped i ty (fold f ks e)"
  by (induction ks arbitrary: e) simp_all

lemma numeric_ok: "k \<in> set NUMERIC_KEYS \<Longrightarrow> entry_ok (lit k) (finiteNumber num v d)"
  by (auto simp: entry_ok_def finiteNumber_def ALLOWED_NUMBER_KEYS_def NUMERIC_KEYS_def)

lemma numeric_shaped: "k \<in> set NUMERIC_KEYS \<Longrightarrow> shaped i ty e \<Longrightarrow> shaped i ty (numeric_entry num m k e)"
  by (auto simp: numeric_entry_def intro: shaped_put numeric_ok)

lemma compact_length: "length (compactOperationPath str v) \<le> 512"
  by (simp add: compactOperationPath_def Let_def WEB_MAX_PATH_LENGTH_def)

lemma text_ok: "k \<in> {''color'', ''text'', ''marker'', ''d''} \<Longrightarrow> length s \<le> stringMaxLength (lit k) \<Longrightarrow> entry_ok (lit k) (JStr s)"
  by (auto simp: entry_ok_def ALLOWED_STRING_KEYS_def)

lemma string_shaped:
  assumes k: "k \<in> set STRING_KEYS" and e: "shaped i ty e"
  shows "shaped i ty (string_entry str m k e)"
proof (cases "k = ''id'' \<or> k = ''type''")
  case False
  then have k': "k \<in> {''color'', ''text'', ''marker'', ''d''}" using k by (auto simp: STRING_KEYS_def)
  define l where "l = (if k = ''text'' then WEB_MAX_TEXT_LENGTH else if k = ''color'' then WEB_MAX_COLOR_LENGTH else WEB_MAX_STRING_LENGTH)"
  have l: "l \<le> stringMaxLength (lit k)"
    unfolding l_def stringMaxLength_def
    by (simp add: WEB_MAX_TEXT_LENGTH_def WEB_MAX_COLOR_LENGTH_def WEB_MAX_STRING_LENGTH_def ELEMENT_TEXT_MAX_LENGTH_def
        ELEMENT_COLOR_MAX_LENGTH_def ELEMENT_STRING_MAX_LENGTH_def)
  have "shaped i ty (put k (boundedString str (js_field m k) l) e)"
    unfolding boundedString_def by (rule shaped_put [OF e text_ok [OF k']]) (use l in simp)
  moreover have "shaped i ty (put k (JStr (compactOperationPath str (js_field m k))) e)" if "k = ''d''"
    by (rule shaped_put [OF e text_ok [OF k']])
      (use compact_length [of str "js_field m k"] that in \<open>simp add: stringMaxLength_def ELEMENT_STRING_MAX_LENGTH_def\<close>)
  ultimately show ?thesis using False e by (simp add: string_entry_def Let_def l_def [symmetric])
qed (auto simp: string_entry_def e)

lemma boolean_shaped: "k \<in> set BOOLEAN_KEYS \<Longrightarrow> shaped i ty e \<Longrightarrow> shaped i ty (boolean_entry m k e)"
  by (auto simp: boolean_entry_def BOOLEAN_KEYS_def entry_ok_def ALLOWED_BOOLEAN_KEYS_def intro!: shaped_put)

lemma sanitized_shape:
  assumes "sanitizeOperationElement str num rnd v = Some e"
  shows "\<exists>i ty. shaped i ty e \<and> length i \<le> 80 \<and> ty \<in> set ALLOWED_ELEMENT_TYPES"
proof -
  obtain m ty where v: "v = JObj m" "normalizeElementType (js_field m ''type'') = JStr ty" "ty \<in> set web_element_types"
    using assms by (auto simp: sanitizeOperationElement_def split: jsval.splits if_splits)
  obtain i where i: "boundedString str (js_or (js_field m ''id'') (JStr (makeOperationId rnd))) 80 = JStr i" "length i \<le> 80"
    by (simp add: boundedString_def)
  define e0 where "e0 = [(lit ''id'', JStr i), (lit ''type'', JStr ty)]"
  have "Some e = Some (fold (boolean_entry m) BOOLEAN_KEYS (fold (string_entry str m) STRING_KEYS (fold (numeric_entry num m) NUMERIC_KEYS e0)))"
    using assms v i(1) by (simp add: sanitizeOperationElement_def Let_def e0_def del: fold_simps)
  moreover have "shaped i ty e0" by (simp add: shaped_def element_shape_def entries_ok_def e0_def)
  then have "shaped i ty (fold (boolean_entry m) BOOLEAN_KEYS (fold (string_entry str m) STRING_KEYS (fold (numeric_entry num m) NUMERIC_KEYS e0)))"
    by (intro shaped_fold boolean_shaped string_shaped numeric_shaped)
  ultimately have "shaped i ty e" by simp
  moreover have "ty \<in> set ALLOWED_ELEMENT_TYPES" using v(3) by (simp add: web_element_types_def ALLOWED_ELEMENT_TYPES_def)
  ultimately show ?thesis using i(2) by blast
qed

lemma shaped_id: "shaped i ty e \<Longrightarrow> js_field e ''id'' = JStr i"
  by (auto simp: shaped_def element_shape_def js_field_def)

lemma sanitized_valid:
  assumes "sanitizeOperationElement str num rnd v = Some e" and "js_field e ''id'' = JStr i" and "js_trim i = i" and "i \<noteq> []"
    and "operationElementBytes nc (JObj e) \<le> MAX_OPERATION_ELEMENT_BYTES"
  shows "element_valid nc e"
proof -
  obtain j ty where j: "shaped j ty e" "length j \<le> 80" "ty \<in> set ALLOWED_ELEMENT_TYPES" using sanitized_shape [OF assms(1)] by blast
  then have "j = i" using shaped_id assms(2) by fastforce
  then show ?thesis using j assms(3-5) by (auto simp: element_valid_def shaped_def ELEMENT_ID_MAX_LENGTH_def)
qed

end
