(* ===== verification/BoardClientRules.thy ===== *)
theory BoardClientRules
  imports BoardClient BoardElementRules
begin

text \<open>
  What a client has on its screen after the messages that were sent to it, in the order they were sent, and what becomes of a
  stroke.
\<close>

declare map_of_eq_Some_iff [simp del]

subsection \<open>The screen follows the server\<close>

definition messages_to :: "socket_id \<Rightarrow> op_board \<Rightarrow> op_message list" where
  "messages_to c s = map snd (filter (\<lambda>(r, m). c \<in> set r) (op_sent s))"

definition screen :: "jstring option \<Rightarrow> socket_id \<Rightarrow> board_client \<Rightarrow> op_board \<Rightarrow> board_client" where
  "screen sid c v s = fold (bc_receive sid) (messages_to c s) v"

definition picture_shown :: "jstring option \<Rightarrow> socket_id \<Rightarrow> board_client \<Rightarrow> op_board \<Rightarrow> bool" where
  "picture_shown sid c v s \<longleftrightarrow>
     (c \<in> set (op_room s) \<longrightarrow> bc_elements (screen sid c v s) = elements s \<and> bc_background (screen sid c v s) = background s)"

definition people_shown :: "jstring option \<Rightarrow> socket_id \<Rightarrow> board_client \<Rightarrow> op_board \<Rightarrow> bool" where
  "people_shown sid c v s \<longleftrightarrow>
     (c \<in> set (op_room s) \<and> presenceTimer s = None \<longrightarrow>
        bc_participants (screen sid c v s) = getParticipants s \<and> bc_canDraw (screen sid c v s) = canClientDraw c s)"

definition shown :: "jstring option \<Rightarrow> socket_id \<Rightarrow> board_client \<Rightarrow> op_board \<Rightarrow> bool" where
  "shown sid c v s \<longleftrightarrow> picture_shown sid c v s \<and> people_shown sid c v s"

lemma screen_cong: "op_sent s' = op_sent s \<Longrightarrow> screen sid c v s' = screen sid c v s"
  by (simp add: screen_def messages_to_def)

lemma screen_send:
  "op_sent s' = op_sent s @ [(r, m)] \<Longrightarrow>
   screen sid c v s' = (if c \<in> set r then bc_receive sid m (screen sid c v s) else screen sid c v s)"
  by (simp add: screen_def messages_to_def)

lemma receive_socket [simp]: "bc_socketId (bc_receive sid m v) = bc_socketId v"
  by (cases m) (simp_all add: bc_receive_def bc_handleState_def bc_handlePresence_def bc_handleAdd_def bc_handleRemove_def
      bc_handleClear_def bc_handleBackground_def bc_handleBoardReplace_def Let_def split: option.split)

lemma screen_socket: "bc_socketId (screen sid c v s) = bc_socketId v"
proof -
  have "bc_socketId (fold (bc_receive sid) ms v) = bc_socketId v" for ms by (induction ms arbitrary: v) simp_all
  then show ?thesis by (simp add: screen_def)
qed

text \<open>Nothing that the screen shows changes.\<close>

lemma shown_same:
  "shown sid c v s \<Longrightarrow> op_sent s' = op_sent s \<Longrightarrow> op_room s' = op_room s \<Longrightarrow> elements s' = elements s \<Longrightarrow> background s' = background s \<Longrightarrow>
   participants s' = participants s \<Longrightarrow> presenceTimer s' = presenceTimer s \<Longrightarrow> shown sid c v s'"
  using screen_cong [of s' s sid c v] by (simp add: shown_def picture_shown_def people_shown_def getParticipants_def canClientDraw_def)

text \<open>The participants change: the window opens.\<close>

lemma shown_people:
  "shown sid c v s \<Longrightarrow> op_sent s' = op_sent s \<Longrightarrow> c \<in> set (op_room s') \<longrightarrow> c \<in> set (op_room s) \<Longrightarrow> elements s' = elements s \<Longrightarrow>
   background s' = background s \<Longrightarrow> shown sid c v (broadcastPresence now s')"
  using screen_cong [of s' s sid c v] screen_cong [of "broadcastPresence now s'" s' sid c v]
  by (auto simp: shown_def picture_shown_def people_shown_def broadcastPresence_def)

text \<open>The picture changes, and the room hears of it.\<close>

definition picture_message :: "op_message \<Rightarrow> bool" where
  "picture_message m = (case m of MsgState _ _ _ _ \<Rightarrow> False | MsgPresence _ \<Rightarrow> False | _ \<Rightarrow> True)"

lemma picture_message_people:
  "picture_message m \<Longrightarrow> bc_participants (bc_receive sid m v) = bc_participants v \<and> bc_canDraw (bc_receive sid m v) = bc_canDraw v"
  by (cases m) (simp_all add: picture_message_def bc_receive_def bc_handleAdd_def bc_handleRemove_def bc_handleClear_def
      bc_handleBackground_def bc_handleBoardReplace_def Let_def)

lemma shown_picture:
  assumes "shown sid c v s" and "picture_message m" and "op_room s' = op_room s" and "op_sent s' = op_sent s"
    and "participants s' = participants s" and "presenceTimer s' = presenceTimer s"
    and "\<And>w. bc_elements w = elements s \<Longrightarrow> bc_background w = background s \<Longrightarrow>
      bc_elements (bc_receive sid m w) = elements s' \<and> bc_background (bc_receive sid m w) = background s'"
  shows "shown sid c v (op_broadcast m s')"
proof -
  have "screen sid c v (op_broadcast m s') = (if c \<in> set (op_room s) then bc_receive sid m (screen sid c v s) else screen sid c v s)"
    by (rule screen_send) (simp add: op_broadcast_def assms(3,4))
  then show ?thesis using assms picture_message_people [OF assms(2), of sid "screen sid c v s"]
    by (simp add: shown_def picture_shown_def people_shown_def op_broadcast_def getParticipants_def canClientDraw_def)
qed

lemma shown_rated:
  "shown sid c v s \<Longrightarrow> op_inv nc s \<Longrightarrow> (\<And>s. shown sid c v s \<Longrightarrow> op_inv nc s \<Longrightarrow> shown sid c v (snd (h s))) \<Longrightarrow>
   shown sid c v (snd (rated now d ev h s))"
  using shown_same [of sid c v s "s\<lparr>op_buckets := b\<rparr>" for b]
  by (auto simp: rated_def op_checkRate_def op_inv_rate split: prod.split)

lemma shown_add: "shown sid c v s \<Longrightarrow> op_inv nc s \<Longrightarrow> shown sid c v (snd (handleElementAdd nc now d b s))"
  unfolding handleElementAdd_def
  by (erule (1) shown_rated)
    (auto simp: Let_def picture_message_def bc_receive_def bc_handleAdd_def MAX_OPERATION_ELEMENTS_def intro!: shown_picture split: option.split)

lemma shown_remove: "shown sid c v s \<Longrightarrow> op_inv nc s \<Longrightarrow> shown sid c v (snd (handleElementRemove nc now d b s))"
  unfolding handleElementRemove_def
  by (erule (1) shown_rated)
    (auto simp: Let_def picture_message_def bc_receive_def bc_handleRemove_def intro!: shown_picture split: jsval.split)

lemma shown_clear: "shown sid c v s \<Longrightarrow> op_inv nc s \<Longrightarrow> shown sid c v (snd (handleClear now d s))"
  unfolding handleClear_def
  by (erule (1) shown_rated) (auto simp: picture_message_def bc_receive_def bc_handleClear_def intro!: shown_picture)

lemma shown_replace: "shown sid c v s \<Longrightarrow> op_inv nc s \<Longrightarrow> shown sid c v (snd (handleBoardReplace nc now d b s))"
  unfolding handleBoardReplace_def
  by (erule (1) shown_rated)
    (auto simp: Let_def picture_message_def bc_receive_def bc_handleBoardReplace_def intro!: shown_picture split: prod.split option.split)

lemma shown_background: "shown sid c v s \<Longrightarrow> op_inv nc s \<Longrightarrow> shown sid c v (snd (handleBackgroundUpdate now d b s))"
  unfolding handleBackgroundUpdate_def
  by (erule (1) shown_rated)
    (auto simp: picture_message_def bc_receive_def bc_handleBackground_def intro!: shown_picture split: option.split)

lemma shown_leave: "shown sid c v s \<Longrightarrow> op_inv nc s \<Longrightarrow> shown sid c v (snd (handleLeave now d s))"
  unfolding handleLeave_def
proof (erule (1) shown_rated)
  fix s assume v: "shown sid c v s" and inv: "op_inv nc s"
  let ?s = "s\<lparr>participants := AList.delete d (participants s), op_room := removeAll d (op_room s)\<rparr>"
  have "shown sid c v (broadcastPresence now ?s)" by (rule shown_people [OF v]) auto
  moreover have "shown sid c v ?s" if none: "map_of (participants s) d = None"
  proof (rule shown_same [OF v])
    have "d \<notin> fst ` set (participants s)" using none by (simp add: map_of_eq_None_iff)
    then show "op_room ?s = op_room s" "participants ?s = participants s"
      using op_inv_people_ok [OF inv] by (simp_all add: people_ok_def)
  qed simp_all
  ultimately show "shown sid c v (snd (let wasParticipant = map_of (participants s) d \<noteq> None; s' = ?s
      in (ack_true, if wasParticipant then broadcastPresence now s' else s')))" by (simp add: Let_def)
qed

lemma shown_disconnect:
  assumes v: "shown sid c v s" and inv: "op_inv nc s"
  shows "shown sid c v (op_handleDisconnect now d s)"
proof -
  let ?s = "s\<lparr>connectedUsers := AList.delete d (connectedUsers s), participants := AList.delete d (participants s),
    op_buckets := ws_cleanup d (op_buckets s), op_room := removeAll d (op_room s)\<rparr>"
  have "shown sid c v (broadcastPresence now ?s)" by (rule shown_people [OF v]) auto
  moreover have "shown sid c v ?s" if none: "map_of (participants s) d = None"
  proof (rule shown_same [OF v])
    have "d \<notin> fst ` set (participants s)" using none by (simp add: map_of_eq_None_iff)
    then show "op_room ?s = op_room s" "participants ?s = participants s"
      using op_inv_people_ok [OF inv] by (simp_all add: people_ok_def)
  qed simp_all
  ultimately show ?thesis by (simp add: op_handleDisconnect_def Let_def)
qed

lemma shown_chat: "shown sid c v s \<Longrightarrow> op_inv nc s \<Longrightarrow> shown sid c v (snd (handleChatOpen now d b s))"
  unfolding handleChatOpen_def
  by (erule (1) shown_rated) (auto intro!: shown_people split: option.split jsval.split)

lemma shown_permission: "shown sid c v s \<Longrightarrow> op_inv nc s \<Longrightarrow> shown sid c v (snd (handlePermissionUpdate now d b s))"
  unfolding handlePermissionUpdate_def
  by (erule (1) shown_rated) (auto simp: Let_def intro!: shown_people split: option.split jsval.split)

lemma shown_presence:
  assumes v: "shown sid c v s" and inv: "op_inv nc s" and id: "bc_socketId v = Some c"
  shows "shown sid c v (presence_fires s)"
proof (cases "presenceTimer s")
  case (Some due)
  have ok: "people_ok s" by (rule op_inv_people_ok [OF inv])
  define w where "w = screen sid c v s"
  have w: "bc_socketId w = Some c" unfolding w_def by (simp add: screen_socket id)
  have "screen sid c v (presence_fires s) = (if c \<in> set (op_room s) then bc_receive sid (MsgPresence (getParticipants s)) w else w)"
    unfolding w_def by (rule screen_send) (simp add: presence_fires_def Some op_broadcast_def getParticipants_def)
  moreover have "bc_participants (bc_receive sid (MsgPresence (getParticipants s)) w) = getParticipants s \<and>
      bc_canDraw (bc_receive sid (MsgPresence (getParticipants s)) w) = canClientDraw c s \<and>
      bc_elements (bc_receive sid (MsgPresence (getParticipants s)) w) = bc_elements w \<and>
      bc_background (bc_receive sid (MsgPresence (getParticipants s)) w) = bc_background w" if c: "c \<in> set (op_room s)"
  proof -
    obtain p where p: "map_of (participants s) c = Some p"
      using ok c by (auto simp: people_ok_def)
    have f: "List.find (\<lambda>q. participantId q = c) (map (\<lambda>(i, q). q\<lparr>canDraw := may_draw q\<rparr>) ps) = Some (p\<lparr>canDraw := may_draw p\<rparr>)"
      if "map_of ps c = Some p" "\<forall>(i, q)\<in>set ps. participantId q = i" for ps
      using that by (induction ps) (auto split: if_splits)
    have "List.find (\<lambda>q. participantId q = c) (getParticipants s) = Some (p\<lparr>canDraw := may_draw p\<rparr>)"
      unfolding getParticipants_def by (rule f [OF p]) (use ok in \<open>auto simp: people_ok_def\<close>)
    then show ?thesis by (simp add: bc_receive_def bc_handlePresence_def w Let_def canClientDraw_def p)
  qed
  ultimately show ?thesis using v Some
    by (simp add: shown_def picture_shown_def people_shown_def presence_fires_def op_broadcast_def w_def getParticipants_def canClientDraw_def)
qed (simp add: presence_fires_def v)

lemma shown_resume:
  assumes v: "shown sid c v s" and inv: "op_inv nc s"
  shows "shown sid c v (snd (handleJoin_resume now d r conn body s))"
proof -
  obtain u s1 where e: "ensureUser d r conn s = (u, s1)" by (cases "ensureUser d r conn s")
  obtain m where m: "s1 = s\<lparr>connectedUsers := m\<rparr>" using ensureUser_cases [OF e] by blast
  have v1: "shown sid c v s1" by (rule shown_same [OF v]) (simp_all add: m)
  show ?thesis
  proof (cases "conn \<and> u \<noteq> None")
    case False
    have "shown sid c v (s1\<lparr>op_kicked := k\<rparr>)" for k by (rule shown_same [OF v1]) simp_all
    then show ?thesis using False v1 by (auto simp: handleJoin_resume_def e split: option.split)
  next
    case True
    then obtain x where x: "u = Some x" by blast
    define p where "p = \<lparr>ou_nickname = ou_nickname x, ou_alliance = ou_alliance x, ou_role = ou_role x, participantId = d,
      canDraw = isPrivilegedRole (ou_role x), chatOpen = (body_field body ''chatOpen'' = JBool True)\<rparr>"
    define s2 where "s2 = s1\<lparr>participants := AList.update d p (participants s1), op_room := room_join d (op_room s1)\<rparr>"
    define s3 where "s3 = op_emit_to d (MsgState (elements s2) (background s2) (getParticipants s2) (may_draw p)) s2"
    have "screen sid c v s3 = (if c = d then bc_receive sid (MsgState (elements s2) (background s2) (getParticipants s2) (may_draw p))
        (screen sid c v s2) else screen sid c v s2)"
      using screen_send [of s3 s2 "[d]" _ sid c v] by (simp add: s3_def op_emit_to_def)
    moreover have "screen sid c v s2 = screen sid c v s1" by (rule screen_cong) (simp add: s2_def)
    moreover have "screen sid c v (broadcastPresence now s3) = screen sid c v s3" by (rule screen_cong) (simp add: broadcastPresence_def)
    ultimately have "shown sid c v (broadcastPresence now s3)" using v1
      by (auto simp: shown_def picture_shown_def people_shown_def broadcastPresence_def s3_def op_emit_to_def s2_def bc_receive_def
          bc_handleState_def room_join_def split: if_splits)
    then show ?thesis unfolding handleJoin_resume_def e x using True by (simp add: Let_def s3_def s2_def p_def)
  qed
qed

lemma shown_connect: "shown sid c v s \<Longrightarrow> shown sid c v (op_handleConnection d r conn s)"
  by (erule shown_same) (auto simp: op_handleConnection_def split: option.split)

lemma shown_join: "shown sid c v s \<Longrightarrow> shown sid c v (snd (handleJoin now d s))"
  by (erule shown_same) (auto simp: handleJoin_def op_checkRate_def split: prod.split)

lemma shown_step: "shown sid c v s \<Longrightarrow> op_inv nc s \<Longrightarrow> bc_socketId v = Some c \<Longrightarrow> shown sid c v (op_exec nc req s)"
  by (cases req) (simp_all add: shown_connect shown_disconnect shown_join shown_resume shown_permission shown_leave shown_chat
      shown_add shown_remove shown_clear shown_replace shown_background shown_presence)

lemma shown_reach: "op_reach nc s \<Longrightarrow> bc_socketId v = Some c \<Longrightarrow> shown sid c v s"
proof (induction rule: op_reach.induct)
  case start
  show ?case by (simp add: shown_def picture_shown_def people_shown_def op_initial_def)
next
  case (step s req)
  then show ?case using shown_step op_reach_inv by blast
qed


subsection \<open>Fields\<close>

lemma field_put [simp]: "js_field (put k v e) k' = (if k = k' then v else js_field e k')"
  by (simp add: put_def js_field_def update_conv)

lemma field_numeric: "k \<notin> set ks \<Longrightarrow> js_field (fold (numeric_entry num m) ks e) k = js_field e k"
  by (induction ks arbitrary: e) (auto simp: numeric_entry_def)

lemma field_boolean: "k \<notin> set ks \<Longrightarrow> js_field (fold (boolean_entry m) ks e) k = js_field e k"
  by (induction ks arbitrary: e) (auto simp: boolean_entry_def)

lemma field_string: "k = ''id'' \<or> k = ''type'' \<Longrightarrow> js_field (fold (string_entry str m) ks e) k = js_field e k"
  by (induction ks arbitrary: e) (auto simp: string_entry_def Let_def)

lemma sanitized_fields:
  assumes "sanitizeOperationElement str num rnd (JObj m) = Some e"
  shows "js_field e ''id'' = boundedString str (js_or (js_field m ''id'') (JStr (makeOperationId rnd))) 80"
    and "js_field e ''type'' = normalizeElementType (js_field m ''type'')"
    and "js_field e ''d'' = (if js_field m ''d'' = JUndef then JUndef else JStr (compactOperationPath str (js_field m ''d'')))"
proof -
  obtain ty where ty: "normalizeElementType (js_field m ''type'') = JStr ty" "ty \<in> set web_element_types"
    using assms by (auto simp: sanitizeOperationElement_def split: jsval.splits if_splits)
  define i where "i = boundedString str (js_or (js_field m ''id'') (JStr (makeOperationId rnd))) 80"
  define e0 where "e0 = [(lit ''id'', i), (lit ''type'', JStr ty)]"
  define e1 where "e1 = fold (numeric_entry num m) NUMERIC_KEYS e0"
  have e: "e = fold (boolean_entry m) BOOLEAN_KEYS (fold (string_entry str m) STRING_KEYS e1)"
    using assms ty by (simp add: sanitizeOperationElement_def Let_def i_def e0_def e1_def del: fold_simps)
  have e1: "js_field e1 ''id'' = i" "js_field e1 ''type'' = JStr ty" "js_field e1 ''d'' = JUndef"
    unfolding e1_def by (subst field_numeric; simp add: NUMERIC_KEYS_def e0_def js_field_def)+
  show "js_field e ''id'' = boundedString str (js_or (js_field m ''id'') (JStr (makeOperationId rnd))) 80"
    "js_field e ''type'' = normalizeElementType (js_field m ''type'')"
    unfolding e by (subst field_boolean; simp add: BOOLEAN_KEYS_def field_string e1 i_def ty(1))+
  show "js_field e ''d'' = (if js_field m ''d'' = JUndef then JUndef else JStr (compactOperationPath str (js_field m ''d'')))"
    unfolding e by (subst field_boolean) (simp_all add: BOOLEAN_KEYS_def STRING_KEYS_def string_entry_def Let_def e1)
qed

lemma plain_trim: "list_all (\<lambda>u. \<not> js_space u) s \<Longrightarrow> js_trim s = s"
proof -
  assume s: "list_all (\<lambda>u. \<not> js_space u) s"
  have d: "list_all (\<lambda>u. \<not> js_space u) t \<Longrightarrow> dropWhile js_space t = t" for t by (cases t) auto
  have "list_all (\<lambda>u. \<not> js_space u) (rev s)" using s by simp
  then show ?thesis using d [OF s] d [of "rev s"] by (simp add: js_trim_def)
qed

definition plain_random :: "jstring \<Rightarrow> bool" where
  "plain_random r \<longleftrightarrow> list_all (\<lambda>u. \<not> js_space u) r"

definition made_id :: "jstring \<Rightarrow> bool" where
  "made_id i \<longleftrightarrow> i \<noteq> [] \<and> length i \<le> 80 \<and> js_trim i = i"

lemma made_id_made: "plain_random r \<Longrightarrow> made_id (makeOperationId r)"
proof -
  assume r: "plain_random r"
  have "list_all (\<lambda>u. \<not> js_space u) (makeOperationId r)"
    using r by (auto simp: makeOperationId_def plain_random_def list_all_iff lit_def js_space_def dest: in_set_takeD)
  then show ?thesis using plain_trim by (auto simp: made_id_def) (simp_all add: makeOperationId_def lit_def)
qed

lemma bounded_id: "made_id i \<Longrightarrow> boundedString str (js_or (JStr i) x) 80 = JStr i"
  by (simp add: made_id_def boundedString_def js_or_def js_falsy_def to_text_def js_nullish_def)

lemma created_fields:
  assumes "createOperationElement str num rnd type p = Some e" and "js_field p ''id'' = JUndef" and "plain_random (fst rnd)"
  shows "js_field e ''id'' = JStr (makeOperationId (fst rnd))"
    and "js_field e ''type'' = normalizeElementType type"
    and "normalizeElementType type = JStr (lit ''path'') \<Longrightarrow>
      js_field e ''d'' = JStr (compactOperationPath str (JStr (compactOperationPath str (js_or (js_field p ''d'') (JStr [])))))"
proof -
  define ty where "ty = normalizeElementType type"
  define e0 where "e0 = [(lit ''id'', boundedString str (js_or JUndef (JStr (makeOperationId (fst rnd)))) 80), (lit ''type'', ty),
    (lit ''color'', boundedString str (js_or (js_field p ''color'') (JStr (lit ''#7dd3fc''))) WEB_MAX_COLOR_LENGTH),
    (lit ''strokeWidth'', finiteNumber num (js_nullish (js_field p ''strokeWidth'') (js_nullish (js_field p ''width'') (JNum (NumFin 3)))) 3)]"
  define e1 where "e1 = fold (numeric_entry num p) NUMERIC_KEYS e0"
  define e2 where "e2 = created_extras str num ty p (created_points num p e1)"
  have mid: "made_id (makeOperationId (fst rnd))" by (rule made_id_made [OF assms(3)])
  have e: "sanitizeOperationElement str num (snd rnd) (JObj e2) = Some e"
    using assms(1,2) by (simp add: createOperationElement_def Let_def e2_def e1_def e0_def ty_def del: fold_simps)
  have e1: "js_field e1 ''id'' = JStr (makeOperationId (fst rnd))" "js_field e1 ''type'' = ty"
    unfolding e1_def
    by (subst field_numeric; use mid in \<open>simp add: NUMERIC_KEYS_def e0_def js_field_def boundedString_def js_or_def js_falsy_def
      to_text_def js_nullish_def made_id_def\<close>)+
  have pts: "js_field (created_points num p e1) k = js_field e1 k" if "k \<notin> {''x'', ''y'', ''x2'', ''y2''}" for k
    using that by (auto simp: created_points_def Let_def)
  have x: "js_field e2 ''id'' = JStr (makeOperationId (fst rnd))" "js_field e2 ''type'' = ty"
    "ty = JStr (lit ''path'') \<Longrightarrow> js_field e2 ''d'' = JStr (compactOperationPath str (js_or (js_field p ''d'') (JStr [])))"
    unfolding e2_def created_extras_def Let_def by (simp_all add: pts e1)
  show "js_field e ''id'' = JStr (makeOperationId (fst rnd))" using sanitized_fields(1) [OF e] bounded_id [OF mid] x(1) by simp
  have "normalizeElementType ty = ty" by (simp add: ty_def normalizeElementType_def)
  then show "js_field e ''type'' = normalizeElementType type" using sanitized_fields(2) [OF e] x(2) by (simp add: ty_def)
  show "js_field e ''d'' = JStr (compactOperationPath str (JStr (compactOperationPath str (js_or (js_field p ''d'') (JStr [])))))"
    if "normalizeElementType type = JStr (lit ''path'')"
    using sanitized_fields(3) [OF e] x(3) that by (simp add: ty_def)
qed

subsection \<open>Strokes\<close>

lemma js_split_long: "c \<in> set s \<Longrightarrow> 1 < length (js_split c s)"
proof (induction s)
  case (Cons u s)
  have "js_split c s \<noteq> []" by (induction s) (auto split: list.split)
  then show ?case using Cons by (auto split: list.split)
qed simp

lemma join_snoc: "ss \<noteq> [] \<Longrightarrow> js_join [32] (ss @ [t]) = js_join [32] ss @ 32 # t"
  by (induction ss rule: induct_list012) simp_all

lemma join_mem: "t \<in> set ss \<Longrightarrow> u \<in> set t \<Longrightarrow> u \<in> set (js_join [32] ss)"
  by (induction ss rule: induct_list012) auto

definition short_point :: "int \<times> int \<Rightarrow> bool" where
  "short_point p \<longleftrightarrow> length (js_show_int (fst p)) \<le> 100 \<and> length (js_show_int (snd p)) \<le> 100"

definition stroke_tokens :: "int \<times> int \<Rightarrow> (int \<times> int) list \<Rightarrow> jstring list" where
  "stroke_tokens p ps = path_token 77 p # map (path_token 76) ps"

lemma stroke_good: "list_all good_token (stroke_tokens p ps)"
proof -
  have "good_token (path_token u q)" if "u = 77 \<or> u = 76" for u q using that unfolding good_token_def by blast
  then show ?thesis by (auto simp: stroke_tokens_def list_all_iff)
qed

lemma stroke_short: "\<forall>q\<in>set (p # ps). short_point q \<Longrightarrow> \<forall>t\<in>set (stroke_tokens p ps). length t \<le> 255"
  by (auto simp: stroke_tokens_def path_token_def short_point_def)

definition stroke_draft :: "jstring \<Rightarrow> int \<times> int \<Rightarrow> (int \<times> int) list \<Rightarrow> op_element \<Rightarrow> bool" where
  "stroke_draft i p ps e \<longleftrightarrow> js_field e ''id'' = JStr i \<and> js_field e ''type'' = JStr (lit ''path'') \<and>
     (\<exists>ss. js_field e ''d'' = JStr (js_join [32] ss) \<and> length (js_join [32] ss) \<le> WEB_MAX_PATH_LENGTH \<and> thinned (stroke_tokens p ps) ss)"

lemma thinned_set: "thinned ts ss \<Longrightarrow> set ss \<subseteq> set ts"
  by (auto simp: thinned_def elim: list_emb_set)

lemma thinned_good: "thinned ts ss \<Longrightarrow> list_all good_token ts \<Longrightarrow> list_all good_token ss"
  using thinned_set by (auto simp: list_all_iff)

lemma thinned_short: "thinned ts ss \<Longrightarrow> \<forall>t\<in>set ts. length t \<le> 255 \<Longrightarrow> \<forall>t\<in>set ss. length t \<le> 255"
  using thinned_set by blast

lemma thinned_snoc: "thinned ts ss \<Longrightarrow> thinned (ts @ [t]) (ss @ [t])"
proof -
  assume a: "thinned ts ss"
  then have "ts \<noteq> []" by (auto simp: thinned_def)
  then show ?thesis using a list_emb_append_mono [of "(=)" ss ts "[t]" "[t]"] by (cases ss) (auto simp: thinned_def)
qed

lemma stroke_step:
  assumes d: "stroke_draft i p ps e" and short: "\<forall>r\<in>set (p # ps @ [q]). short_point r"
  shows "\<exists>e'. handlePointerMove str True q (s\<lparr>cv_draft := Some e\<rparr>) = s\<lparr>cv_draft := Some e'\<rparr> \<and> stroke_draft i p (ps @ [q]) e'"
proof -
  obtain ss where ss: "js_field e ''d'' = JStr (js_join [32] ss)" "length (js_join [32] ss) \<le> WEB_MAX_PATH_LENGTH"
    "thinned (stroke_tokens p ps) ss" using d by (auto simp: stroke_draft_def)
  define ts where "ts = ss @ [path_token 76 q]"
  have all: "stroke_tokens p (ps @ [q]) = stroke_tokens p ps @ [path_token 76 q]" by (simp add: stroke_tokens_def)
  have th: "thinned (stroke_tokens p (ps @ [q])) ts" unfolding all ts_def by (rule thinned_snoc [OF ss(3)])
  have "ss \<noteq> []" using ss(3) by (simp add: thinned_def)
  then have more: "path_more str (js_field e ''d'') q = js_join [32] ts"
    by (simp add: ts_def join_snoc ss(1) path_more_def to_text_def path_token_def lit_def)
  have "ts \<noteq> []" by (simp add: ts_def)
  then obtain rs where rs: "compactOperationPath str (JStr (js_join [32] ts)) = js_join [32] rs" "thinned ts rs"
    "length (js_join [32] rs) \<le> WEB_MAX_PATH_LENGTH"
    using compact_thinned [OF thinned_good [OF th stroke_good] _ thinned_short [OF th stroke_short], of str] short by auto
  define e' where "e' = put ''d'' (JStr (js_join [32] rs)) e"
  have "stroke_draft i p (ps @ [q]) e'"
    using d thinned_trans [OF th rs(2)] rs(3) by (auto simp: stroke_draft_def e'_def)
  moreover have "handlePointerMove str True q (s\<lparr>cv_draft := Some e\<rparr>) = s\<lparr>cv_draft := Some e'\<rparr>"
    using d by (simp add: handlePointerMove_def stroke_draft_def more rs(1) e'_def)
  ultimately show ?thesis by blast
qed

lemma stroke_moves:
  "stroke_draft i p ps e \<Longrightarrow> \<forall>r\<in>set (p # ps @ qs). short_point r \<Longrightarrow>
   \<exists>e'. fold (handlePointerMove str True) qs (s\<lparr>cv_draft := Some e\<rparr>) = s\<lparr>cv_draft := Some e'\<rparr> \<and> stroke_draft i p (ps @ qs) e'"
proof (induction qs arbitrary: ps e)
  case (Cons q qs)
  obtain e1 where e1: "handlePointerMove str True q (s\<lparr>cv_draft := Some e\<rparr>) = s\<lparr>cv_draft := Some e1\<rparr>" "stroke_draft i p (ps @ [q]) e1"
    using stroke_step [OF Cons.prems(1), of q str s] Cons.prems(2) by auto
  show ?case using Cons.IH [OF e1(2)] Cons.prems(2) e1(1) by auto
qed auto


subsection \<open>What the canvas sends\<close>

definition sendable :: "canvas_call \<Rightarrow> bool" where
  "sendable x =
     (case x of
        CvRemove i \<Rightarrow> i \<noteq> []
      | CvAdd y \<Rightarrow> (\<exists>e i ty. y = Some e \<and> shaped i ty e \<and> made_id i \<and> ty \<in> set ALLOWED_ELEMENT_TYPES))"

definition canvas_ok :: "canvas \<Rightarrow> bool" where
  "canvas_ok s \<longleftrightarrow> list_all sendable (cv_calls s) \<and>
     (case cv_draft s of None \<Rightarrow> True | Some e \<Rightarrow> \<exists>i. js_field e ''id'' = JStr i \<and> made_id i)"

definition canvas_op_ok :: "canvas_op \<Rightarrow> bool" where
  "canvas_op_ok op =
     (case op of CvDown rnd pn _ _ _ _ \<Rightarrow> pn_tool pn \<in> set OPERATION_BOARD_TOOLS \<and> plain_random (fst rnd) | _ \<Rightarrow> True)"

lemma sanitized_sendable:
  assumes "sanitizeOperationElement str num rnd (JObj m) = Some e" and "js_field m ''id'' = JStr i" and "made_id i"
  shows "sendable (CvAdd (Some e))"
proof -
  obtain j ty where j: "shaped j ty e" "ty \<in> set ALLOWED_ELEMENT_TYPES" using sanitized_shape [OF assms(1)] by blast
  have "js_field e ''id'' = JStr i" using sanitized_fields(1) [OF assms(1)] assms(2) bounded_id [OF assms(3)] by simp
  then have "j = i" using shaped_id [OF j(1)] by simp
  then show ?thesis using j assms(3) by (auto simp: sendable_def)
qed

lemma created_some:
  assumes "normalizeElementType type = JStr ty" and "ty \<in> set web_element_types" and "js_field p ''id'' = JUndef" and "plain_random (fst rnd)"
  shows "\<exists>e. createOperationElement str num rnd type p = Some e \<and> js_field e ''id'' = JStr (makeOperationId (fst rnd)) \<and>
    sendable (CvAdd (Some e))"
proof -
  define e0 where "e0 = [(lit ''id'', boundedString str (js_or JUndef (JStr (makeOperationId (fst rnd)))) 80), (lit ''type'', JStr ty),
    (lit ''color'', boundedString str (js_or (js_field p ''color'') (JStr (lit ''#7dd3fc''))) WEB_MAX_COLOR_LENGTH),
    (lit ''strokeWidth'', finiteNumber num (js_nullish (js_field p ''strokeWidth'') (js_nullish (js_field p ''width'') (JNum (NumFin 3)))) 3)]"
  define e1 where "e1 = fold (numeric_entry num p) NUMERIC_KEYS e0"
  define e2 where "e2 = created_extras str num (JStr ty) p (created_points num p e1)"
  have "js_field e1 ''type'' = JStr ty" unfolding e1_def by (subst field_numeric) (simp_all add: NUMERIC_KEYS_def e0_def js_field_def)
  then have ty: "js_field e2 ''type'' = JStr ty" by (simp add: e2_def created_extras_def created_points_def Let_def)
  have "normalizeElementType (JStr ty) = JStr ty" using assms(1) by (auto simp: normalizeElementType_def split: if_splits)
  then have "sanitizeOperationElement str num (snd rnd) (JObj e2) \<noteq> None"
    using ty assms(2) by (simp add: sanitizeOperationElement_def Let_def)
  then obtain e where e: "createOperationElement str num rnd type p = Some e"
    using assms(1,3) by (auto simp: createOperationElement_def Let_def e2_def e1_def e0_def simp del: fold_simps)
  have i: "js_field e ''id'' = JStr (makeOperationId (fst rnd))" by (rule created_fields(1) [OF e assms(3,4)])
  have "\<exists>m. sanitizeOperationElement str num (snd rnd) (JObj m) = Some e"
    using e by (auto simp: createOperationElement_def Let_def simp del: fold_simps)
  then obtain m where m: "sanitizeOperationElement str num (snd rnd) (JObj m) = Some e" by blast
  obtain j t where j: "shaped j t e" "t \<in> set ALLOWED_ELEMENT_TYPES" using sanitized_shape [OF m] by blast
  then have "j = makeOperationId (fst rnd)" using shaped_id i by fastforce
  then have "sendable (CvAdd (Some e))" using j made_id_made [OF assms(4)] by (auto simp: sendable_def)
  then show ?thesis using e i by blast
qed

lemma down_ok:
  assumes s: "canvas_ok s" and tool: "pn_tool pn \<in> set OPERATION_BOARD_TOOLS" and r: "plain_random (fst rnd)"
  shows "canvas_ok (handlePointerDown str num rnd pn draws target answer p s)"
proof -
  have ty: "\<exists>ty. normalizeElementType (JStr (lit t)) = JStr ty \<and> ty \<in> set web_element_types" if "t \<in> set OPERATION_BOARD_TOOLS" "t \<noteq> ''erase''" for t
    using that by (auto simp: OPERATION_BOARD_TOOLS_def normalizeElementType_def web_element_types_def)
  have made: "\<exists>e. createOperationElement str num rnd (JStr (lit t)) q = Some e \<and> js_field e ''id'' = JStr (makeOperationId (fst rnd)) \<and>
      sendable (CvAdd (Some e))" if "t \<in> set OPERATION_BOARD_TOOLS" "t \<noteq> ''erase''" "js_field q ''id'' = JUndef" for t q
    using ty [OF that(1,2)] created_some that(3) r by blast
  consider (er) "pn_tool pn = ''erase''" | (tx) "pn_tool pn = ''text''" | (mk) "pn_tool pn = ''marker''"
    | (dr) "pn_tool pn \<notin> {''erase'', ''text'', ''marker''}" by blast
  then show ?thesis
  proof cases
    case er
    then show ?thesis using s by (auto simp: handlePointerDown_def canvas_ok_def cv_call_def sendable_def split: option.split)
  next
    case tx
    have "sendable (CvAdd (createOperationElement str num rnd (JStr (lit ''text''))
        [(lit ''x'', js_int (fst p)), (lit ''y'', js_int (snd p)), (lit ''text'', JStr t), (lit ''color'', JStr (pn_color pn))]))" for t
      using made [of "''text''" "[(lit ''x'', js_int (fst p)), (lit ''y'', js_int (snd p)), (lit ''text'', JStr t), (lit ''color'', JStr (pn_color pn))]"]
      by (auto simp: OPERATION_BOARD_TOOLS_def js_field_def)
    then show ?thesis using s tx by (auto simp: handlePointerDown_def canvas_ok_def cv_call_def split: option.split)
  next
    case mk
    have "sendable (CvAdd (createOperationElement str num rnd (JStr (lit ''marker''))
        [(lit ''x'', js_int (fst p)), (lit ''y'', js_int (snd p)), (lit ''marker'', JStr (pn_marker pn)), (lit ''color'', JStr (pn_color pn))]))"
      using made [of "''marker''" "[(lit ''x'', js_int (fst p)), (lit ''y'', js_int (snd p)), (lit ''marker'', JStr (pn_marker pn)),
        (lit ''color'', JStr (pn_color pn))]"] by (auto simp: OPERATION_BOARD_TOOLS_def js_field_def)
    then show ?thesis using s mk by (auto simp: handlePointerDown_def canvas_ok_def cv_call_def split: option.split)
  next
    case dr
    have q: "js_field [(lit ''x'', js_int (fst p)), (lit ''y'', js_int (snd p)), (lit ''x2'', js_int (fst p)), (lit ''y2'', js_int (snd p)),
        (lit ''d'', JStr (path_start p)), (lit ''color'', JStr (pn_color pn)), (lit ''strokeWidth'', JNum (NumFin (pn_strokeWidth pn)))] ''id'' = JUndef"
      by (simp add: js_field_def)
    have "\<exists>e. draft_of str num rnd pn p = Some e \<and> js_field e ''id'' = JStr (makeOperationId (fst rnd))"
      unfolding draft_of_def using made [OF tool _ q] dr by blast
    then show ?thesis using s dr made_id_made [OF r] by (auto simp: handlePointerDown_def canvas_ok_def)
  qed
qed

lemma canvas_step: "canvas_ok s \<Longrightarrow> canvas_op_ok op \<Longrightarrow> canvas_ok (canvas_exec str num op s)"
proof (cases op)
  case (CvUp rnd)
  assume s: "canvas_ok s"
  have "sendable (CvAdd (sanitizeOperationElement str num rnd (JObj e)))"
    if "cv_draft s = Some e" "isMeaningfulDraft (sanitizeOperationElement str num rnd (JObj e))" for e
    using s that sanitized_sendable by (auto simp: canvas_ok_def isMeaningfulDraft_def split: option.splits)
  moreover have "\<not> isMeaningfulDraft (sanitizeOperationElement str num rnd JNull)"
    by (simp add: sanitizeOperationElement_def isMeaningfulDraft_def)
  ultimately show ?thesis using s CvUp
    by (auto simp: canvas_exec_def finishDraft_def Let_def canvas_ok_def cv_call_def split: option.splits)
next
  case (CvDown rnd pn draws target answer p)
  assume "canvas_ok s" and "canvas_op_ok op"
  then show ?thesis using down_ok [of s pn rnd] CvDown by (simp add: canvas_exec_def canvas_op_ok_def)
qed (auto simp: canvas_exec_def handlePointerMove_def pointerCancel_def canvas_ok_def split: option.splits)

lemma canvas_run: "canvas_ok s \<Longrightarrow> list_all canvas_op_ok ops \<Longrightarrow> canvas_ok (fold (canvas_exec str num) ops s)"
  by (induction ops arbitrary: s) (simp_all add: canvas_step)

end
