(* ===== verification/BoardClientProperties.thy ===== *)
theory BoardClientProperties
  imports BoardClientRules
begin

text \<open>
  The operation board in the client: the screen follows the server, a stroke keeps its ends, and what is drawn is accepted.
\<close>

text \<open>
  Property C38. The screens agree with the server: who is in the room and has received its messages in order shows exactly the
  elements and the background of the server, whatever the screen showed before and whatever anybody has done since; and when no
  window of the presence is open, it shows the server's participants and whether it may draw.
\<close>

theorem screens_agree:
  assumes "op_reach nc s" and "c \<in> set (op_room s)" and "bc_socketId v = Some c"
  shows "bc_elements (screen sid c v s) = elements s \<and> bc_background (screen sid c v s) = background s \<and>
    (case presenceTimer s of Some _ \<Rightarrow> True
     | None \<Rightarrow> bc_participants (screen sid c v s) = getParticipants s \<and> bc_canDraw (screen sid c v s) = canClientDraw c s)"
  using shown_reach [OF assms(1,3), of sid] assms(2)
  by (auto simp: shown_def picture_shown_def people_shown_def split: option.split)

definition ex_drawer :: op_user where
  "ex_drawer = \<lparr>ou_nickname = [97], ou_alliance = [75], ou_role = ''admin''\<rparr>"

definition ex_joined :: op_board where
  "ex_joined = op_exec (\<lambda>_. 1) (ReqBackground 1 ''s'' (background_body BgGrid)) (op_exec (\<lambda>_. 1) (ReqJoinResume 0 ''s'' (Some ex_drawer) True JUndef)
     (op_exec (\<lambda>_. 1) (ReqConnect ''s'' (Some ex_drawer) True) op_initial))"

theorem screens_agree_witness:
  "bc_elements (screen None ''s'' ((bc_start False)\<lparr>bc_socketId := Some ''s'', bc_elements := [[]]\<rparr>) ex_joined) = []"
proof -
  have "op_reach (\<lambda>_. 1) ex_joined" unfolding ex_joined_def by (intro op_reach.step op_reach.start)
  moreover have "''s'' \<in> set (op_room ex_joined)" "elements ex_joined = []"
    by (simp_all add: ex_joined_def op_initial_def op_handleConnection_def handleJoin_resume_def ensureUser_def room_join_def op_emit_to_def
        broadcastPresence_def ex_drawer_def Let_def handleBackgroundUpdate_def rated_def op_checkRate_def ws_check_def ws_bucket_def
        ws_prune_def ws_event_map_def canClientManage_def isPrivilegedRole_def background_body_def normalizeBackground_def js_field_def
        op_broadcast_def op_rate_rule_def)
  ultimately show ?thesis using screens_agree [of "\<lambda>_. 1" ex_joined "''s''" "(bc_start False)\<lparr>bc_socketId := Some ''s'', bc_elements := [[]]\<rparr>" None]
    by simp
qed

text \<open>
  Property C39. A stroke keeps its ends: however long somebody draws with the pen, releasing it sends one element whose path
  begins where the pen went down and ends where it was last, has at most 512 characters, and runs through a selection of the
  points in their order. (A coordinate has at most a hundred digits.)
\<close>

theorem stroke_ends_kept:
  assumes "pn_tool pn = ''pen''" and "ps \<noteq> []" and "\<forall>q\<in>set (p # ps). short_point q" and "plain_random (fst rnd)"
  shows "\<exists>e ss. cv_calls (finishDraft str num rnd' (fold (handlePointerMove str True) ps
        (handlePointerDown str num rnd pn True target answer p cv_start))) = [CvAdd (Some e)] \<and>
      js_field e ''d'' = JStr (js_join [32] ss) \<and> length (js_join [32] ss) \<le> 512 \<and> subseq ss (stroke_tokens p ps) \<and>
      hd ss = path_token 77 p \<and> last ss = path_token 76 (last ps)"
proof -
  define i where "i = makeOperationId (fst rnd)"
  have i: "made_id i" unfolding i_def by (rule made_id_made [OF assms(4)])
  define q where "q = [(lit ''x'', js_int (fst p)), (lit ''y'', js_int (snd p)), (lit ''x2'', js_int (fst p)), (lit ''y2'', js_int (snd p)),
    (lit ''d'', JStr (path_start p)), (lit ''color'', JStr (pn_color pn)), (lit ''strokeWidth'', JNum (NumFin (pn_strokeWidth pn)))]"
  have pen: "normalizeElementType (JStr (lit ''pen'')) = JStr (lit ''path'')" by (simp add: normalizeElementType_def)
  have "js_field q ''id'' = JUndef" by (simp add: q_def js_field_def)
  from created_some [OF pen _ this assms(4), of str num]
  obtain e0 where e0: "createOperationElement str num rnd (JStr (lit ''pen'')) q = Some e0" "js_field e0 ''id'' = JStr i"
    by (auto simp: web_element_types_def i_def)
  have start: "path_start p = js_join [32] (stroke_tokens p [])" by (simp add: path_start_def stroke_tokens_def path_token_def lit_def)
  have len: "length (js_join [32] (stroke_tokens p [])) \<le> WEB_MAX_PATH_LENGTH"
    using assms(3) by (simp add: stroke_tokens_def path_token_def short_point_def WEB_MAX_PATH_LENGTH_def)
  have "js_field q ''d'' = JStr (path_start p)" by (simp add: q_def js_field_def)
  moreover have "path_start p \<noteq> []" by (simp add: path_start_def lit_def)
  ultimately have "js_or (js_field q ''d'') (JStr []) = JStr (js_join [32] (stroke_tokens p []))" by (simp add: js_or_def js_falsy_def start)
  then have "js_field e0 ''d'' = JStr (js_join [32] (stroke_tokens p []))"
    using created_fields(3) [OF e0(1) \<open>js_field q ''id'' = JUndef\<close> assms(4) pen] compact_fits [OF stroke_good len, of str] by simp
  then have "stroke_draft i p [] e0"
    using e0(2) created_fields(2) [OF e0(1) \<open>js_field q ''id'' = JUndef\<close> assms(4)] pen len
    unfolding stroke_draft_def by (auto intro!: exI [of _ "stroke_tokens p []"] thinned_refl simp: stroke_tokens_def)
  from stroke_moves [OF this, of ps str cv_start] assms(3)
  obtain e where e: "fold (handlePointerMove str True) ps (cv_start\<lparr>cv_draft := Some e0\<rparr>) = cv_start\<lparr>cv_draft := Some e\<rparr>"
    "stroke_draft i p ps e" by auto
  obtain ss where ss: "js_field e ''d'' = JStr (js_join [32] ss)" "length (js_join [32] ss) \<le> WEB_MAX_PATH_LENGTH"
    "thinned (stroke_tokens p ps) ss" using e(2) by (auto simp: stroke_draft_def)
  have down: "handlePointerDown str num rnd pn True target answer p cv_start = cv_start\<lparr>cv_draft := Some e0\<rparr>"
    by (simp add: handlePointerDown_def assms(1) draft_of_def e0(1) [unfolded q_def])
  have ty: "js_field e ''type'' = JStr (lit ''path'')" using e(2) by (simp add: stroke_draft_def)
  have "sanitizeOperationElement str num rnd' (JObj e) \<noteq> None"
    by (simp add: sanitizeOperationElement_def ty normalizeElementType_def web_element_types_def Let_def)
  then obtain r where r: "sanitizeOperationElement str num rnd' (JObj e) = Some r" by blast
  have d: "js_field r ''d'' = JStr (js_join [32] ss)"
    using sanitized_fields(3) [OF r] ss(1) compact_fits [OF thinned_good [OF ss(3) stroke_good] ss(2), of str] by simp
  have last: "last ss = path_token 76 (last ps)" "hd ss = path_token 77 p" "ss \<noteq> []"
    using ss(3) assms(2) by (simp_all add: thinned_def stroke_tokens_def last_map)
  have "last ss \<in> set ss" using last(3) by simp
  then have "76 \<in> set (js_join [32] ss)" by (rule join_mem) (simp add: last(1) path_token_def)
  then have "isMeaningfulDraft (Some r)"
    using js_split_long sanitized_fields(2) [OF r] ty d by (simp add: isMeaningfulDraft_def normalizeElementType_def)
  then show ?thesis unfolding down e(1) using r d last ss(2,3)
    by (intro exI [of _ r] exI [of _ ss]) (simp add: finishDraft_def Let_def cv_call_def cv_start_def thinned_def WEB_MAX_PATH_LENGTH_def)
qed

definition some_pen :: pen where
  "some_pen = \<lparr>pn_tool = ''pen'', pn_color = lit ''#7dd3fc'', pn_strokeWidth = 3, pn_marker = []\<rparr>"

theorem stroke_ends_kept_witness:
  "\<exists>e ss. cv_calls (finishDraft (\<lambda>_. []) (\<lambda>_. NumNaN) (lit ''b'') (fold (handlePointerMove (\<lambda>_. []) True) [(3, 4), (-5, 6)]
        (handlePointerDown (\<lambda>_. []) (\<lambda>_. NumNaN) (lit ''a'', lit ''b'') some_pen True None None (1, 2) cv_start))) = [CvAdd (Some e)] \<and>
      js_field e ''d'' = JStr (js_join [32] ss) \<and> length (js_join [32] ss) \<le> 512 \<and> subseq ss (stroke_tokens (1, 2) [(3, 4), (-5, 6)]) \<and>
      hd ss = path_token 77 (1, 2) \<and> last ss = path_token 76 (last [(3, 4), (-5, 6)])"
  by (rule stroke_ends_kept)
    (simp_all add: some_pen_def short_point_def js_show_int_def js_show_nat.simps plain_random_def lit_def js_space_def)

text \<open>
  Property C40. What is drawn is accepted: every element that the canvas sends, with any tool and in any order of pointer events,
  passes the server's check unchanged, unless it has more than four kilobytes.
\<close>

theorem drawn_accepted:
  assumes "list_all canvas_op_ok ops" and "CvAdd x \<in> set (cv_calls (fold (canvas_exec str num) ops cv_start))"
  shows "\<exists>e. x = Some e \<and>
    (operationElementBytes nc (JObj e) \<le> MAX_OPERATION_ELEMENT_BYTES \<longrightarrow> normalizeOperationElement nc (JObj e) = Some e)"
proof -
  have "canvas_ok cv_start" by (simp add: canvas_ok_def cv_start_def)
  from canvas_run [OF this assms(1)] assms(2) have "sendable (CvAdd x)" by (auto simp: canvas_ok_def list_all_iff)
  then obtain e i ty where e: "x = Some e" "shaped i ty e" "made_id i" "ty \<in> set ALLOWED_ELEMENT_TYPES" by (auto simp: sendable_def)
  then have "element_valid nc e" if "operationElementBytes nc (JObj e) \<le> MAX_OPERATION_ELEMENT_BYTES"
    using that unfolding element_valid_def shaped_def made_id_def ELEMENT_ID_MAX_LENGTH_def by blast
  then show ?thesis using e(1) normalize_idem by blast
qed

theorem drawn_accepted_witness:
  "\<exists>x e. CvAdd x \<in> set (cv_calls (fold (canvas_exec (\<lambda>_. []) (\<lambda>_. NumNaN))
      [CvDown (lit ''a'', lit ''b'') (some_pen\<lparr>pn_tool := ''text''\<rparr>) True None (Some (lit ''x'')) (1, 2)] cv_start)) \<and> x = Some e"
proof -
  define y where "y = createOperationElement (\<lambda>_. []) (\<lambda>_. NumNaN) (lit ''a'', lit ''b'') (JStr (lit ''text''))
    [(lit ''x'', js_int 1), (lit ''y'', js_int 2), (lit ''text'', JStr (lit ''x'')), (lit ''color'', JStr (pn_color some_pen))]"
  let ?ops = "[CvDown (lit ''a'', lit ''b'') (some_pen\<lparr>pn_tool := ''text''\<rparr>) True None (Some (lit ''x'')) (1, 2)]"
  have m: "CvAdd y \<in> set (cv_calls (fold (canvas_exec (\<lambda>_. []) (\<lambda>_. NumNaN)) ?ops cv_start))"
    by (simp add: canvas_exec_def handlePointerDown_def cv_call_def y_def lit_def js_trim_def js_space_def)
  have "list_all canvas_op_ok ?ops"
    by (simp add: canvas_op_ok_def OPERATION_BOARD_TOOLS_def plain_random_def lit_def js_space_def)
  from drawn_accepted [OF this m, of "\<lambda>_. 1"] obtain e where "y = Some e" by blast
  with m show ?thesis by (intro exI [of _ y] exI [of _ e] conjI)
qed

end
