(* ===== verification/Spec2Isabelle.thy ===== *)
theory Spec2Isabelle
  imports RallyProperties RealtimeProperties LimitProperties BoardProperties SqlProperties ChatProperties
    SyncProperties ClockProperties PlayerProperties TranslateProperties ChatServerProperties AccountProperties
    HttpProperties TtsProperties UploadProperties BoardClientProperties
begin

text \<open>
  A verification development for WOS-SFC, the command centre of a game alliance: a NestJS server
  (\<open>src/server/src\<close>) with a MySQL database and Socket.IO gateways, and a React client (\<open>src/web/src\<close>). Its
  members gather in rally groups whose marches are started so that everybody arrives at the same
  moment, watch a shared countdown, draw on a shared operation board and chat with each other in five
  languages.

  \<^bold>\<open>Parts and theories.\<close>
  \<^item> \<open>Prelude\<close>, \<open>JsText\<close>: JavaScript containers as association lists, the sliding-window log, JavaScript
    values and strings (lists of UTF-16 code units), white space, JSON sizes, decimal numbers.
  \<^item> \<open>BusyLock\<close> (\<open>realtime/busy-lock.service.ts\<close>): the one lock that the shared countdown and the rally
    groups compete for, with its release timer.
  \<^item> \<open>RallySchedule\<close>, \<open>RallyGroups\<close> (\<open>rally-groups/*.ts\<close>, \<open>me/me.controller.ts\<close>, \<open>banUser\<close> of
    \<open>admin/admin.service.ts\<close>): the tables as lists of rows with their unique and foreign keys, every
    operation of the service, the gateway's events as a log, the guards. \<open>RallyOrder\<close>, \<open>RallyRules\<close>,
    \<open>RallyMembers\<close>, \<open>RallyReach\<close>: the renumbering, the invariant, its preservation by every operation
    and the reachable states. \<open>RallyProperties\<close>: what follows.
  \<^item> \<open>ReadyProbe\<close>, \<open>Realtime\<close>, \<open>RealtimeRules\<close>, \<open>RealtimeProperties\<close>
    (\<open>realtime/ready-negotiation.service.ts\<close>, \<open>realtime/realtime.gateway.ts\<close>): the probe of the clients'
    round trips, the online list and the countdown. A handler that awaits the probe is two definitions,
    before and after it, and runs interleave them freely.
  \<^item> \<open>Limiters\<close>, \<open>LoginThrottle\<close>, \<open>LimitProperties\<close> (\<open>realtime/ws-rate-limit.service.ts\<close>,
    \<open>translate/translation-rate-limit.service.ts\<close>, \<open>translate/translation-queue.service.ts\<close>,
    \<open>common/account-login-throttle.ts\<close>): all are instances of the locale \<open>window_log\<close>.
  \<^item> \<open>OperationElements\<close>, \<open>OperationBoard\<close>, \<open>OperationReach\<close>, \<open>BoardProperties\<close>
    (\<open>operation-boards/operation-board-elements.ts\<close>, \<open>operation-board-upload.options.ts\<close>,
    \<open>operation-boards.gateway.ts\<close>): normalisation of untrusted elements, the live board and its room.
  \<^item> \<open>BoardElements\<close>, \<open>BoardElementRules\<close>, \<open>BoardClient\<close>, \<open>BoardClientRules\<close>, \<open>BoardClientProperties\<close>
    (\<open>web/src/components/OperationBoard/operationBoardTypes.js\<close>, \<open>useOperationBoardSocket.js\<close>,
    \<open>OperationBoardCanvas.jsx\<close>): the same board in the client, which receives the messages of the gateway's log, and the
    strokes that become its elements.
  \<^item> \<open>SqlStatements\<close>, \<open>Migrate\<close>, \<open>SqlProperties\<close> (\<open>database/sql-statements.ts\<close>, \<open>database/migrate.ts\<close>).
  \<^item> \<open>ScriptDetect\<close>, \<open>ChatView\<close>, \<open>ChatStore\<close>, \<open>ChatRules\<close>, \<open>ChatProperties\<close> (\<open>translate/script-detect.ts\<close>,
    \<open>web/src/chat/script.js\<close>, \<open>display.js\<close>, \<open>systemMessages.js\<close>, \<open>web/src/store/index.js\<close>): the client's
    chat, its buffer and its translations.
  \<^item> \<open>TranslationSync\<close>, \<open>SyncRules\<close>, \<open>SyncProperties\<close> (\<open>web/src/chat/translationSync.js\<close>): which messages
    the client asks translations for, and when; it works on the store of \<open>ChatStore\<close> and the scripts
    of \<open>ScriptDetect\<close>.
  \<^item> \<open>ClockSync\<close>, \<open>ClockRules\<close>, \<open>ClockProperties\<close> (\<open>web/src/clockSync.js\<close>): the client's estimate of the
    server's clock.
  \<^item> \<open>AudioPlayer\<close>, \<open>PlayerRules\<close>, \<open>PlayerProperties\<close> (\<open>components/Battle/countdownPlayer.js\<close>,
    \<open>rallyGroupPlayer.js\<close>, \<open>utils/volume.js\<close>): the two players that speak the countdowns, one machine over
    different slots.
  \<^item> \<open>Glossary\<close>, \<open>TranslateEngine\<close>, \<open>TranslateRules\<close> (\<open>translate/glossary.ts\<close>,
    \<open>translate/translate-engine.service.ts\<close>, \<open>translate-usage.service.ts\<close>): the requests to the translation
    provider. \<open>TranslateFlow\<close>, \<open>FlowRules\<close> (\<open>chat-translation.service.ts\<close>,
    \<open>message-translations.service.ts\<close>, the batch of \<open>translate.controller.ts\<close>) and \<open>TranslationCache\<close>,
    \<open>TranslateDesk\<close> (\<open>translation-cache.service.ts\<close>, \<open>translate.service.ts\<close>, single posts of
    \<open>translate.controller.ts\<close>) use them behind a table and behind a cache. \<open>TranslateProperties\<close>: what follows.
  \<^item> \<open>ChatServer\<close>, \<open>ChatServerRules\<close>, \<open>ChatRetention\<close>, \<open>ChatServerProperties\<close> (\<open>chat/chat.gateway.ts\<close>,
    \<open>chat/chat.service.ts\<close>): the handlers of all sockets, cut at their waits, on one state that also holds the
    rate limits of \<open>Limiters\<close> and the table and the engine of \<open>TranslateFlow\<close>; the deletion of old messages.
  \<^item> \<open>Accounts\<close>, \<open>AccountRules\<close>, \<open>SocketAuth\<close>, \<open>AccountProperties\<close> (\<open>auth/auth.service.ts\<close>,
    \<open>auth/refresh-tokens.service.ts\<close>, \<open>auth/jwt.strategy.ts\<close>, \<open>users/users.service.ts\<close>, \<open>admin/admin.service.ts\<close>,
    \<open>realtime/socket-auth.service.ts\<close>): users, their sessions, and who a socket belongs to. Requests are cut at
    every query of the database.
  \<^item> \<open>HttpClient\<close>, \<open>HttpRules\<close>, \<open>HttpProperties\<close> (\<open>web/src/api/index.js\<close>): the client's calls and uploads, the one refresh
    they share, and the socket that uses it too.
  \<^item> \<open>TtsCache\<close>, \<open>TtsCacheRules\<close>, \<open>TtsService\<close>, \<open>TtsRules\<close>, \<open>TtsProperties\<close> (\<open>tts/*.ts\<close>): the spoken countdown: which files a
    start deletes, and how missing ones are made behind a semaphore while others wait for them.
  \<^item> \<open>UploadQuota\<close>, \<open>UploadQuotaRules\<close> (\<open>boards/board-upload-quota.service.ts\<close> and the two upload guards): the quota of the
    disk, measured by a walk that other requests interleave with. \<open>UploadFiles\<close>, \<open>UploadCleanup\<close>, \<open>UploadRules\<close>
    (\<open>boards/boards.service.ts\<close>, \<open>operation-boards/operation-boards.service.ts\<close>, \<open>boards/upload-orphan-scan.ts\<close>,
    \<open>admin/upload-orphan.service.ts\<close> and the two cleanup services): who refers to uploaded files and who deletes them.
    \<open>UploadProperties\<close>: what follows.
  \<^item> \<open>TrustProxy\<close> (\<open>common/trust-proxy.ts\<close>): the number of proxies whose addresses are believed.

  \<^bold>\<open>How the code is read.\<close> A service is a record of its fields and its operations are functions from
  record to record; an exception is the left side of a sum. A request, a timer and a callback are
  separate steps, so a run is any interleaving of them; a transaction is one step. Emitted events,
  executed statements and requests to the server are logs in the state. Time is an integer in
  milliseconds; the readings of the clock within one synchronous handler are one argument. A timer is
  its due time; it fires at the due time or later. JavaScript numbers are rationals where the code
  treats them as numbers in general and \<open>NaN\<close> and the infinities are separate; counters, identifiers and
  times are exact. Loops are structural recursion or folds over the list they traverse, and the one
  loop over positions of a string carries the rest of the string, so nothing needs fuel; the loop that deletes
  messages in batches depends on the database, is a partial function and is proved to end.

  \<^bold>\<open>Interfaces.\<close> \<open>dictionary\<close> (a JavaScript map), \<open>window_log\<close> (a limiter: pruning drops only entries older
  than the window), \<open>message_key\<close> (what merging chat messages needs of their key); each is interpreted
  on the program's own definitions next to them.

  \<^bold>\<open>What the lemmas show.\<close> For each stateful part an invariant, its preservation by every operation and
  hence its truth in every reachable state: numbering, membership and the lock of the rally groups; the
  countdown and the lock; the size and the exact byte count of the board; the chat buffer; the queue
  and the batches of the translation requests; the startups of the clock. For each limiter the number
  of calls in every window. For the pure parts the function they compute: the common arrival, the
  nearest-rank percentile, the normal form of elements, the splitting of SQL texts, the scripts of a
  text, the error of the clock. Several properties record behaviour that the code does not mean to
  have: a ban that blocks a group, a deleted group that keeps the lock, a stopped countdown that comes
  back, a clock that is synchronised after its shutdown.

  \<^bold>\<open>Parameters.\<close> \<open>String\<close>, \<open>Number\<close>, \<open>Date.parse\<close>, the length of a printed number, the Unicode properties
  of the runtime, the hash of a file, the execution of a statement by the database and the answers of
  sockets, HTTP calls and the translation provider, the digest of a cache key, JWT and bcrypt, the collation of nicknames and the order in which a DELETE finds its rows, how a validator counts characters are arguments of the definitions that use them.

  \<^bold>\<open>Not modelled.\<close> The React components and styles; the wiring of modules, controllers and entities that
  only pass values on; the algorithms of password hashing and tokens; the answers of the translation provider and the speech synthesis; the
  contents of uploaded files and the storage that receives them; the decoding and playing of sound by the browser. Two processes of the server at a time
  are not considered: the services keep their state in memory and assume to be alone.
\<close>

end
